(* ===== verification/Prelude.thy ===== *)
theory Prelude
  imports Main "HOL-Library.Word"
begin

text \<open>
  Shared ground of the development: the machine integer types of the Rust sources, the
  result type with the early-return operator, byte slices with their bounds checks,
  little-endian encoding, the bounded queues that several devices use, and the rewrite
  rules on these that the component proofs share.
\<close>

unbundle bit_operations_syntax

section \<open>Integer types\<close>

text \<open>
  A Rust \<open>u8\<close>, \<open>u16\<close>, \<open>u32\<close> or \<open>u64\<close> is a word of that width, so that \<open>+\<close> and \<open>*\<close> wrap as
  the release profile does. A \<open>usize\<close> is a natural number; where the source uses a
  checked or saturating operation the 64-bit bound is written out.
\<close>

type_synonym u8 = "8 word"
type_synonym u16 = "16 word"
type_synonym u32 = "32 word"
type_synonym u64 = "64 word"
type_synonym usize = nat

definition usize_max :: usize where
  "usize_max = 18446744073709551615"

definition u32_max :: u32 where
  "u32_max = 0xffffffff"

definition checked_add_usize :: "usize \<Rightarrow> usize \<Rightarrow> usize option" where
  "checked_add_usize a b = (if a + b \<le> usize_max then Some (a + b) else None)"

definition checked_mul_usize :: "usize \<Rightarrow> usize \<Rightarrow> usize option" where
  "checked_mul_usize a b = (if a * b \<le> usize_max then Some (a * b) else None)"

definition saturating_add_usize :: "usize \<Rightarrow> usize \<Rightarrow> usize" where
  "saturating_add_usize a b = min (a + b) usize_max"

definition u32_try_from_usize :: "usize \<Rightarrow> u32 option" where
  "u32_try_from_usize n = (if n < 2 ^ 32 then Some (of_nat n) else None)"

section \<open>Rewrite rules that read words as numbers\<close>

named_theorems word_nat \<open>order and arithmetic on words, stated on naturals\<close>

declare word_less_nat_alt [word_nat] word_le_nat_alt [word_nat]

lemma unat_ucast_widen:
  fixes a :: "'a::len word"
  assumes "LENGTH('a) \<le> LENGTH('b)"
  shows "unat (ucast a :: 'b::len word) = unat a"
proof -
  have "unat a < 2 ^ LENGTH('a)" by (rule unsigned_less)
  also have "\<dots> \<le> (2 :: nat) ^ LENGTH('b)" using assms by simp
  finally show ?thesis by (simp add: unsigned_ucast_eq take_bit_nat_eq_self)
qed

lemma unat_u32_u64 [simp]: "unat (ucast (a :: u32) :: u64) = unat a"
  by (rule unat_ucast_widen) simp

lemma unat_u8_u32 [simp]: "unat (ucast (a :: u8) :: u32) = unat a"
  by (rule unat_ucast_widen) simp

lemma unat_u32_lt: "unat (a :: u32) < 4294967296"
  using unsigned_less [of a, where 'a = nat] by simp

lemma unat_u64_lt: "unat (a :: u64) < 18446744073709551616"
  using unsigned_less [of a, where 'a = nat] by simp

lemma unat_u64_add_u32s [simp]:
  "unat (ucast (a :: u32) + ucast (b :: u32) :: u64) = unat a + unat b"
  using unat_u32_lt [of a] unat_u32_lt [of b] by (simp add: unat_word_ariths)

lemma unat_add_no_wrap:
  fixes a b :: "'a::len word"
  assumes "unat a + unat b < 2 ^ LENGTH('a)"
  shows "unat (a + b) = unat a + unat b"
  using assms by (simp add: unat_word_ariths)

lemma unat_sub_le:
  fixes a b :: "'a::len word"
  assumes "b \<le> a"
  shows "unat (a - b) = unat a - unat b"
  using assms by (simp add: unat_sub)

lemma and_not_mask_eq_0:
  fixes v :: "'a::len word"
  shows "v AND NOT (mask n) = 0 \<longleftrightarrow> unat v < 2 ^ n"
proof -
  have "v AND NOT (mask n) = 0 \<longleftrightarrow> take_bit n v = v"
    by (auto simp: bit_eq_iff bit_simps)
  also have "\<dots> \<longleftrightarrow> take_bit n (unat v) = unat v"
    by (metis unsigned_take_bit_eq unsigned_word_eqI)
  also have "\<dots> \<longleftrightarrow> unat v < 2 ^ n"
    by (simp add: take_bit_nat_eq_self_iff)
  finally show ?thesis .
qed

text \<open>The masks of the sources, in the form the simplifier gives them.\<close>

lemma u32_and_not_consts:
  "(v :: u32) AND - 2 = 0 \<longleftrightarrow> unat v \<le> 1"
  "v AND - 8 = 0 \<longleftrightarrow> unat v \<le> 7"
  "v AND - 16 = 0 \<longleftrightarrow> unat v \<le> 15"
  "v AND - 256 = 0 \<longleftrightarrow> unat v \<le> 255"
  using and_not_mask_eq_0 [of v 1] and_not_mask_eq_0 [of v 3]
    and_not_mask_eq_0 [of v 4] and_not_mask_eq_0 [of v 8]
  by (simp_all add: mask_eq_exp_minus_1) linarith+

section \<open>Results\<close>

text \<open>
  \<open>Result<T, E>\<close> is a sum with the error on the left. The operation \<open>and_then\<close> is the early return
  of the question-mark operator.
\<close>

abbreviation Ok :: "'a \<Rightarrow> 'e + 'a" where "Ok \<equiv> Inr"
abbreviation Err :: "'e \<Rightarrow> 'e + 'a" where "Err \<equiv> Inl"

fun and_then :: "'e + 'a \<Rightarrow> ('a \<Rightarrow> 'e + 'b) \<Rightarrow> 'e + 'b" where
  "and_then (Inl e) f = Inl e"
| "and_then (Inr v) f = f v"

fun ok :: "'e + 'a \<Rightarrow> 'a option" where
  "ok (Inl e) = None"
| "ok (Inr v) = Some v"

fun map_err :: "('e \<Rightarrow> 'f) \<Rightarrow> 'e + 'a \<Rightarrow> 'f + 'a" where
  "map_err g (Inl e) = Inl (g e)"
| "map_err g (Inr v) = Inr v"

fun ok_or :: "'a option \<Rightarrow> 'e \<Rightarrow> 'e + 'a" where
  "ok_or None e = Inl e"
| "ok_or (Some v) e = Inr v"

lemma and_then_Ok: "and_then r f = Inr y \<longleftrightarrow> (\<exists>v. r = Inr v \<and> f v = Inr y)"
  by (cases r) auto

lemma and_then_Err: "and_then r f = Inl e \<longleftrightarrow> r = Inl e \<or> (\<exists>v. r = Inr v \<and> f v = Inl e)"
  by (cases r) auto

lemma ok_Some: "ok r = Some v \<longleftrightarrow> r = Inr v"
  by (cases r) auto

lemma ok_None: "ok r = None \<longleftrightarrow> (\<exists>e. r = Inl e)"
  by (cases r) auto

lemma ok_or_Ok: "ok_or x e = Inr v \<longleftrightarrow> x = Some v"
  by (cases x) auto

lemma ok_or_Err: "ok_or x e = Inl e' \<longleftrightarrow> x = None \<and> e' = e"
  by (cases x) auto

lemma map_err_Ok: "map_err g r = Inr v \<longleftrightarrow> r = Inr v"
  by (cases r) auto

lemma map_err_Err: "map_err g r = Inl e \<longleftrightarrow> (\<exists>e'. r = Inl e' \<and> e = g e')"
  by (cases r) auto

lemmas result_simps = and_then_Ok and_then_Err ok_Some ok_None ok_or_Ok ok_or_Err
  map_err_Ok map_err_Err

section \<open>Slices\<close>

text \<open>\<open>bytes.get(start..end)\<close>: the sub-slice, or nothing when the range is not inside.\<close>

definition slice_get :: "'a list \<Rightarrow> usize \<Rightarrow> usize \<Rightarrow> 'a list option" where
  "slice_get xs lo hi = (if lo \<le> hi \<and> hi \<le> length xs then Some (take (hi - lo) (drop lo xs)) else None)"

text \<open>\<open>bytes[start..start + n].copy_from_slice(data)\<close> for a range inside the slice.\<close>

definition slice_put :: "'a list \<Rightarrow> usize \<Rightarrow> 'a list \<Rightarrow> 'a list" where
  "slice_put xs lo ys = take lo xs @ ys @ drop (lo + length ys) xs"

lemma slice_get_Some:
  "slice_get xs lo hi = Some ys \<longleftrightarrow> lo \<le> hi \<and> hi \<le> length xs \<and> ys = take (hi - lo) (drop lo xs)"
  by (auto simp: slice_get_def)

lemma length_slice_put [simp]:
  "lo + length ys \<le> length xs \<Longrightarrow> length (slice_put xs lo ys) = length xs"
  by (simp add: slice_put_def)

lemma slice_get_put_same:
  "lo + length ys \<le> length xs \<Longrightarrow> hi = lo + length ys \<Longrightarrow>
   slice_get (slice_put xs lo ys) lo hi = Some ys"
  by (simp add: slice_get_def) (simp add: slice_put_def)

lemma take_drop_eqI:
  assumes "length xs = length ys" and "\<And>i. a \<le> i \<Longrightarrow> i < a + n \<Longrightarrow> i < length xs \<Longrightarrow> xs ! i = ys ! i"
  shows "take n (drop a xs) = take n (drop a ys)"
  by (rule nth_equalityI) (use assms in auto)

lemma nth_slice_put:
  assumes "lo + length ys \<le> length xs" and "i < length xs"
  shows "slice_put xs lo ys ! i = (if lo \<le> i \<and> i < lo + length ys then ys ! (i - lo) else xs ! i)"
  using assms by (auto simp: slice_put_def nth_append)

lemma slice_get_put_other:
  assumes "lo + length ys \<le> length xs" and "b \<le> lo \<or> lo + length ys \<le> a"
  shows "slice_get (slice_put xs lo ys) a b = slice_get xs a b"
proof (cases "a \<le> b \<and> b \<le> length xs")
  case True
  then have "take (b - a) (drop a (slice_put xs lo ys)) = take (b - a) (drop a xs)"
    using assms by (intro take_drop_eqI) (auto simp: nth_slice_put)
  with True assms show ?thesis by (simp add: slice_get_def)
next
  case False
  with assms show ?thesis by (auto simp: slice_get_def)
qed

section \<open>Little-endian integers\<close>

definition u16_to_le_bytes :: "u16 \<Rightarrow> u8 list" where
  "u16_to_le_bytes x = [ucast x, ucast (drop_bit 8 x)]"

definition u32_to_le_bytes :: "u32 \<Rightarrow> u8 list" where
  "u32_to_le_bytes x = [ucast x, ucast (drop_bit 8 x), ucast (drop_bit 16 x), ucast (drop_bit 24 x)]"

fun u16_from_le_bytes :: "u8 list \<Rightarrow> u16 option" where
  "u16_from_le_bytes [a, b] = Some (ucast a OR push_bit 8 (ucast b))"
| "u16_from_le_bytes _ = None"

fun u32_from_le_bytes :: "u8 list \<Rightarrow> u32 option" where
  "u32_from_le_bytes [a, b, c, d] =
     Some (ucast a OR push_bit 8 (ucast b) OR push_bit 16 (ucast c) OR push_bit 24 (ucast d))"
| "u32_from_le_bytes _ = None"

lemma length_u16_to_le_bytes [simp]: "length (u16_to_le_bytes x) = 2"
  by (simp add: u16_to_le_bytes_def)

lemma length_u32_to_le_bytes [simp]: "length (u32_to_le_bytes x) = 4"
  by (simp add: u32_to_le_bytes_def)

lemma u16_le_roundtrip [simp]: "u16_from_le_bytes (u16_to_le_bytes x) = Some x"
proof -
  have "ucast (ucast x :: u8) OR push_bit 8 (ucast (ucast (drop_bit 8 x) :: u8)) = x"
    by (rule bit_word_eqI) (auto simp: bit_simps)
  then show ?thesis by (simp add: u16_to_le_bytes_def)
qed

lemma u32_le_roundtrip [simp]: "u32_from_le_bytes (u32_to_le_bytes x) = Some x"
proof -
  let ?y = "ucast (ucast x :: u8) OR push_bit 8 (ucast (ucast (drop_bit 8 x) :: u8))
      OR push_bit 16 (ucast (ucast (drop_bit 16 x) :: u8))
      OR push_bit 24 (ucast (ucast (drop_bit 24 x) :: u8)) :: u32"
  have "?y = x"
  proof (rule bit_word_eqI)
    fix n
    assume "n < LENGTH(32)"
    then show "bit ?y n = bit x n"
      by (cases "n < 24"; cases "n < 16") (auto simp: bit_simps not_less)
  qed
  then show ?thesis by (simp add: u32_to_le_bytes_def)
qed

lemma u32_from_le_bytes_Some: "length bs = 4 \<Longrightarrow> \<exists>x. u32_from_le_bytes bs = Some x"
  by (cases bs rule: u32_from_le_bytes.cases) auto

section \<open>Bounded queues\<close>

text \<open>
  The devices keep a \<open>VecDeque\<close> of bounded length: when it is full the oldest element is
  dropped before the new one is appended. The abstract reading of such a queue that is
  only appended to is the last part of everything ever pushed.
\<close>

definition push_bounded :: "nat \<Rightarrow> 'a \<Rightarrow> 'a list \<Rightarrow> 'a list" where
  "push_bounded cap x q = (if length q = cap then tl q else q) @ [x]"

definition last_n :: "nat \<Rightarrow> 'a list \<Rightarrow> 'a list" where
  "last_n n xs = drop (length xs - n) xs"

lemma length_last_n [simp]: "length (last_n n xs) = min n (length xs)"
  by (simp add: last_n_def)

lemma last_n_all [simp]: "length xs \<le> n \<Longrightarrow> last_n n xs = xs"
  by (simp add: last_n_def)

lemma push_bounded_le: "0 < cap \<Longrightarrow> length q \<le> cap \<Longrightarrow> length (push_bounded cap x q) \<le> cap"
  by (auto simp: push_bounded_def)

lemma push_bounded_last_n:
  assumes "0 < cap" and "length q \<le> cap"
  shows "push_bounded cap x q = last_n cap (q @ [x])"
  using assms by (cases q) (auto simp: push_bounded_def last_n_def)

lemma last_n_append_last_n: "last_n n (last_n n xs @ ys) = last_n n (xs @ ys)"
proof (cases "length xs \<le> n")
  case False
  then have "length (last_n n xs) = n" by simp
  with False show ?thesis by (simp add: last_n_def add.commute)
qed simp

text \<open>
  The contract of a bounded history: pushing keeps the capacity, drops the oldest element of a
  full queue, and does nothing when the capacity is zero. The history then holds the last
  elements pushed, and nothing else is forgotten.
\<close>

locale bounded_history =
  fixes push :: "'x \<Rightarrow> 's \<Rightarrow> 's"
    and hist :: "'s \<Rightarrow> 'x list"
    and cap :: "'s \<Rightarrow> nat"
  assumes push_cap: "cap (push x s) = cap s"
    and push_hist: "hist (push x s) = (if cap s = 0 then hist s else push_bounded (cap s) x (hist s))"
begin

lemma push_within: "length (hist s) \<le> cap s \<Longrightarrow> length (hist (push x s)) \<le> cap (push x s)"
  by (cases "cap s = 0") (auto simp: push_cap push_hist push_bounded_le)

lemma push_last: "length (hist s) \<le> cap s \<Longrightarrow> hist (push x s) = last_n (cap s) (hist s @ [x])"
  by (cases "cap s = 0") (auto simp: push_hist push_bounded_last_n last_n_def)

lemma push_all:
  "length (hist s) \<le> cap s \<Longrightarrow>
     cap (fold push xs s) = cap s \<and> hist (fold push xs s) = last_n (cap s) (hist s @ xs)"
proof (induction xs arbitrary: s)
  case (Cons x xs)
  from Cons.IH [OF push_within [OF Cons.prems], of x] show ?case
    by (simp add: push_cap push_last [OF Cons.prems] last_n_append_last_n)
qed simp

end

end
