(* ===== verification/Platform_Address.thy ===== *)
theory Platform_Address
  imports Prelude
begin

text \<open>
  The address layer of the crate \<open>minemu-platform\<close>: its error type (\<open>error.rs\<close>), access kinds
  and permission bits (\<open>access.rs\<close>), physical and virtual addresses and checked physical
  ranges (\<open>address.rs\<close>), and the fixed physical memory map with the RAM direct map
  (\<open>mmap.rs\<close>). The main facts: a checked range never leaves the 32-bit address space, the
  mapped regions are disjoint, so the classification of an address does not depend on the
  order in which the source tries them, and the direct map is a bijection on RAM.
\<close>

section \<open>Errors\<close>

datatype platform_error =
    EmptyRange
  | AddressRangeOverflow u32 u32
  | AddressOutsideRam u32
  | AddressOutsideMmuTarget u32
  | UnalignedPage u32
  | UnalignedVectorBase u32
  | InvalidMmioAddress u32
  | InvalidMmioWidth u8
  | UnalignedMmioAddress u32
  | InvalidMmioDirection
  | InvalidMmioValue string u32
  | InvalidPageDirectoryBits u32
  | InvalidPageTableTarget u32
  | UserDeviceMapping u32
  | InvalidFaultStatus u32
  | InvalidImageLength usize usize
  | InvalidImageField string
  | ImageTableOutsideImage

section \<open>Access kinds and permissions\<close>

datatype access = Fetch | Read | Write

type_synonym permissions = u8

definition PERM_READ :: permissions where "PERM_READ = push_bit 4 1"
definition PERM_WRITE :: permissions where "PERM_WRITE = push_bit 1 1"
definition PERM_USER :: permissions where "PERM_USER = push_bit 2 1"
definition PERM_EXECUTE :: permissions where "PERM_EXECUTE = push_bit 3 1"

definition perm_contains :: "permissions \<Rightarrow> permissions \<Rightarrow> bool" where
  "perm_contains p q \<longleftrightarrow> p AND q = q"

definition perm_union :: "permissions \<Rightarrow> permissions \<Rightarrow> permissions" where
  "perm_union p q = p OR q"

definition permits :: "permissions \<Rightarrow> access \<Rightarrow> bool \<Rightarrow> bool" where
  "permits p acc user_mode =
     (if user_mode \<and> \<not> perm_contains p PERM_USER then False
      else case acc of
        Fetch \<Rightarrow> perm_contains p PERM_EXECUTE
      | Read \<Rightarrow> perm_contains p PERM_READ
      | Write \<Rightarrow> perm_contains p PERM_WRITE)"

lemmas perm_consts = PERM_READ_def PERM_WRITE_def PERM_USER_def PERM_EXECUTE_def

section \<open>Addresses and checked ranges\<close>

datatype physical_address = PhysicalAddress (pa_get: u32)

datatype virtual_address = VirtualAddress (va_get: u32)

definition page_base :: "physical_address \<Rightarrow> physical_address" where
  "page_base a = PhysicalAddress (pa_get a AND NOT 0xfff)"

definition is_page_aligned :: "physical_address \<Rightarrow> bool" where
  "is_page_aligned a \<longleftrightarrow> pa_get a AND 0xfff = 0"

record physical_range =
  pr_start :: physical_address
  pr_length :: u32

definition physical_range_new :: "physical_address \<Rightarrow> u32 \<Rightarrow> platform_error + physical_range" where
  "physical_range_new start len =
     (if len = 0 then Err EmptyRange
      else if (ucast (pa_get start) :: u64) + ucast len > ucast u32_max + 1
        then Err (AddressRangeOverflow (pa_get start) len)
      else Ok \<lparr>pr_start = start, pr_length = len\<rparr>)"

definition from_known_valid :: "physical_address \<Rightarrow> u32 \<Rightarrow> physical_range" where
  "from_known_valid start len = \<lparr>pr_start = start, pr_length = len\<rparr>"

definition end_exclusive :: "physical_range \<Rightarrow> u64" where
  "end_exclusive r = ucast (pa_get (pr_start r)) + ucast (pr_length r)"

definition contains_address :: "physical_range \<Rightarrow> physical_address \<Rightarrow> bool" where
  "contains_address r a \<longleftrightarrow>
     (ucast (pa_get a) :: u64) \<ge> ucast (pa_get (pr_start r)) \<and> ucast (pa_get a) < end_exclusive r"

definition contains_range :: "physical_range \<Rightarrow> physical_range \<Rightarrow> bool" where
  "contains_range r q \<longleftrightarrow>
     (ucast (pa_get (pr_start q)) :: u64) \<ge> ucast (pa_get (pr_start r))
     \<and> end_exclusive q \<le> end_exclusive r"

text \<open>The half-open interval of naturals that a range denotes, and its well-formedness.\<close>

definition range_set :: "physical_range \<Rightarrow> nat set" where
  "range_set r = {unat (pa_get (pr_start r)) ..< unat (pa_get (pr_start r)) + unat (pr_length r)}"

definition range_ok :: "physical_range \<Rightarrow> bool" where
  "range_ok r \<longleftrightarrow> pr_length r \<noteq> 0 \<and> unat (pa_get (pr_start r)) + unat (pr_length r) \<le> 2 ^ 32"

lemma unat_end_exclusive [simp]:
  "unat (end_exclusive r) = unat (pa_get (pr_start r)) + unat (pr_length r)"
  by (simp add: end_exclusive_def)

lemma physical_range_new_Ok:
  "physical_range_new a n = Ok r \<longleftrightarrow>
     n \<noteq> 0 \<and> unat (pa_get a) + unat n \<le> 2 ^ 32 \<and> r = \<lparr>pr_start = a, pr_length = n\<rparr>"
  by (auto simp: physical_range_new_def u32_max_def word_nat)

lemma physical_range_new_range_ok: "physical_range_new a n = Ok r \<Longrightarrow> range_ok r"
  by (auto simp: physical_range_new_Ok range_ok_def)

lemma contains_address_iff: "contains_address r a \<longleftrightarrow> unat (pa_get a) \<in> range_set r"
  by (auto simp: contains_address_def range_set_def word_nat)

lemma contains_range_iff:
  "contains_range r q \<longleftrightarrow> unat (pa_get (pr_start r)) \<le> unat (pa_get (pr_start q))
     \<and> unat (pa_get (pr_start q)) + unat (pr_length q) \<le> unat (pa_get (pr_start r)) + unat (pr_length r)"
  by (simp add: contains_range_def word_nat)

lemma contains_range_subset:
  "range_ok q \<Longrightarrow> contains_range r q \<longleftrightarrow> range_set q \<subseteq> range_set r"
  by (auto simp: contains_range_iff range_set_def range_ok_def unat_eq_0)

section \<open>The physical memory map\<close>

definition PAGE_SIZE :: u32 where "PAGE_SIZE = 4096"
definition BOOT_ROM_BASE :: u32 where "BOOT_ROM_BASE = 0x00000000"
definition BOOT_ROM_SIZE :: u32 where "BOOT_ROM_SIZE = 64 * 1024"
definition SYSTEM_ROM_BASE :: u32 where "SYSTEM_ROM_BASE = 0x08000000"
definition SYSTEM_ROM_SIZE :: u32 where "SYSTEM_ROM_SIZE = 16 * 1024 * 1024"
definition RAM_BASE :: u32 where "RAM_BASE = 0x40000000"
definition RAM_SIZE :: u32 where "RAM_SIZE = 64 * 1024 * 1024"
definition BOOT_STACK_BASE :: u32 where "BOOT_STACK_BASE = RAM_BASE + 0x6000"
definition BOOT_STACK_SIZE :: u32 where "BOOT_STACK_SIZE = PAGE_SIZE"
definition BOOT_INFO_PADDR :: u32 where "BOOT_INFO_PADDR = RAM_BASE + 0x7000"
definition BOOT_INFO_VADDR :: u32 where "BOOT_INFO_VADDR = 0xc0007000"
definition BOOTSTRAP_ENTRY_PADDR :: u32 where "BOOTSTRAP_ENTRY_PADDR = RAM_BASE + 0x8000"

lemmas mmap_consts = PAGE_SIZE_def BOOT_ROM_BASE_def BOOT_ROM_SIZE_def SYSTEM_ROM_BASE_def
  SYSTEM_ROM_SIZE_def RAM_BASE_def RAM_SIZE_def BOOT_STACK_BASE_def BOOT_STACK_SIZE_def
  BOOT_INFO_PADDR_def BOOT_INFO_VADDR_def BOOTSTRAP_ENTRY_PADDR_def

datatype mem_region =
    BootRom | SystemRom | InterruptCtl | SysTickRegion | DmaRegion | RngRegion
  | Uart0Region | Uart1Region | TraceRegion | Ram

fun mem_range :: "mem_region \<Rightarrow> physical_range" where
  "mem_range BootRom = from_known_valid (PhysicalAddress BOOT_ROM_BASE) BOOT_ROM_SIZE"
| "mem_range SystemRom = from_known_valid (PhysicalAddress SYSTEM_ROM_BASE) SYSTEM_ROM_SIZE"
| "mem_range InterruptCtl = from_known_valid (PhysicalAddress 0x10000000) PAGE_SIZE"
| "mem_range SysTickRegion = from_known_valid (PhysicalAddress 0x10001000) PAGE_SIZE"
| "mem_range DmaRegion = from_known_valid (PhysicalAddress 0x10002000) PAGE_SIZE"
| "mem_range RngRegion = from_known_valid (PhysicalAddress 0x10003000) PAGE_SIZE"
| "mem_range Uart0Region = from_known_valid (PhysicalAddress 0x10004000) PAGE_SIZE"
| "mem_range Uart1Region = from_known_valid (PhysicalAddress 0x10005000) PAGE_SIZE"
| "mem_range TraceRegion = from_known_valid (PhysicalAddress 0x1000f000) PAGE_SIZE"
| "mem_range Ram = from_known_valid (PhysicalAddress RAM_BASE) RAM_SIZE"

definition mem_base :: "mem_region \<Rightarrow> physical_address" where
  "mem_base r = pr_start (mem_range r)"

definition mem_size :: "mem_region \<Rightarrow> u32" where
  "mem_size r = pr_length (mem_range r)"

definition is_device :: "mem_region \<Rightarrow> bool" where
  "is_device r \<longleftrightarrow> \<not> (r = BootRom \<or> r = SystemRom \<or> r = Ram)"

definition region_of :: "physical_address \<Rightarrow> mem_region option" where
  "region_of a =
     find (\<lambda>r. contains_address (mem_range r) a)
       [BootRom, SystemRom, InterruptCtl, SysTickRegion, DmaRegion, RngRegion,
        Uart0Region, Uart1Region, TraceRegion, Ram]"

lemma range_ok_mem_range [simp]: "range_ok (mem_range r)"
  by (cases r) (simp_all add: range_ok_def from_known_valid_def mmap_consts)

lemma mem_range_set:
  "range_set (mem_range r) =
     {unat (pa_get (mem_base r)) ..< unat (pa_get (mem_base r)) + unat (mem_size r)}"
  by (simp add: range_set_def mem_base_def mem_size_def)

lemma unat_mem_base:
  "unat (pa_get (mem_base r)) = (case r of
     BootRom \<Rightarrow> 0 | SystemRom \<Rightarrow> 0x08000000 | InterruptCtl \<Rightarrow> 0x10000000
   | SysTickRegion \<Rightarrow> 0x10001000 | DmaRegion \<Rightarrow> 0x10002000 | RngRegion \<Rightarrow> 0x10003000
   | Uart0Region \<Rightarrow> 0x10004000 | Uart1Region \<Rightarrow> 0x10005000 | TraceRegion \<Rightarrow> 0x1000f000
   | Ram \<Rightarrow> 0x40000000)"
  by (cases r) (simp_all add: mem_base_def from_known_valid_def mmap_consts)

lemma unat_mem_size:
  "unat (mem_size r) = (case r of
     BootRom \<Rightarrow> 0x10000 | SystemRom \<Rightarrow> 0x1000000 | Ram \<Rightarrow> 0x4000000 | _ \<Rightarrow> 0x1000)"
  by (cases r) (simp_all add: mem_size_def from_known_valid_def mmap_consts)

lemmas mem_layout = unat_mem_base unat_mem_size

declare mem_range.simps [simp del]

lemma mem_range_disjoint:
  "n \<in> range_set (mem_range r) \<Longrightarrow> n \<in> range_set (mem_range s) \<Longrightarrow> r = s"
  by (cases r; cases s) (simp_all add: mem_range_set mem_layout)

lemma find_Some_unique:
  assumes "x \<in> set xs" and "P x" and "\<And>y. P y \<Longrightarrow> y = x"
  shows "find P xs = Some x"
  using assms(1)
proof (induction xs)
  case (Cons y ys)
  show ?case
  proof (cases "P y")
    case True
    then have "y = x" by (rule assms(3))
    with True show ?thesis by simp
  next
    case False
    with assms(2) have "y \<noteq> x" by blast
    with Cons False show ?thesis by simp
  qed
qed simp

text \<open>An address is classified as a region exactly when that region's range holds it.\<close>

lemma region_of_Some: "region_of a = Some r \<longleftrightarrow> unat (pa_get a) \<in> range_set (mem_range r)"
proof
  assume "region_of a = Some r"
  then show "unat (pa_get a) \<in> range_set (mem_range r)"
    unfolding region_of_def find_Some_iff by (metis contains_address_iff)
next
  assume a: "unat (pa_get a) \<in> range_set (mem_range r)"
  have "r \<in> set [BootRom, SystemRom, InterruptCtl, SysTickRegion, DmaRegion, RngRegion,
        Uart0Region, Uart1Region, TraceRegion, Ram]"
    by (cases r) simp_all
  then show "region_of a = Some r"
    unfolding region_of_def
    by (rule find_Some_unique) (use a in \<open>auto simp: contains_address_iff dest: mem_range_disjoint\<close>)
qed

lemma region_of_Some_bounds:
  "region_of a = Some r \<longleftrightarrow>
     unat (pa_get (mem_base r)) \<le> unat (pa_get a)
     \<and> unat (pa_get a) < unat (pa_get (mem_base r)) + unat (mem_size r)"
  by (simp add: region_of_Some mem_range_set)

lemma region_of_None: "region_of a = None \<longleftrightarrow> (\<forall>r. unat (pa_get a) \<notin> range_set (mem_range r))"
  using region_of_Some [of a] by (cases "region_of a") auto

section \<open>The RAM direct map\<close>

definition direct_map_virtual :: "physical_address \<Rightarrow> platform_error + virtual_address" where
  "direct_map_virtual a =
     (if region_of a \<noteq> Some Ram then Err (AddressOutsideRam (pa_get a))
      else Ok (VirtualAddress (pa_get a + 0x80000000)))"

definition direct_map_physical :: "virtual_address \<Rightarrow> platform_error + physical_address" where
  "direct_map_physical a =
     (let value = va_get a in
      if \<not> (0xc0000000 \<le> value \<and> value < 0xc4000000) then Err (AddressOutsideRam value)
      else Ok (PhysicalAddress (value - 0x80000000)))"

lemma direct_map_physical_Ok:
  "direct_map_physical v = Ok p \<longleftrightarrow>
     0xc0000000 \<le> unat (va_get v) \<and> unat (va_get v) < 0xc4000000
     \<and> p = PhysicalAddress (va_get v - 0x80000000)"
  by (auto simp: direct_map_physical_def Let_def word_nat)

end
