(* ===== verification/Core_Memory.thy ===== *)
theory Core_Memory
  imports Platform_Address
begin

text \<open>
  Physical memory of \<open>minemu-core\<close> (\<open>memory.rs\<close>, \<open>error.rs\<close>): immutable boot and system ROM,
  mutable RAM, the bounds checks of every access, and the trait through which the MMU walker
  and the DMA engine reach memory. The trait is a record of operations; its contract is the
  locale \<open>memory_access\<close>, which reads a memory as a partial map from addresses to bytes.
\<close>

text \<open>The operating system's error of a failed host write is opaque.\<close>

type_synonym io_error = string

datatype core_error =
    PlatformErr platform_error
  | UnmappedPhysicalAddress u32
  | ImmutablePhysicalAddress u32
  | PhysicalAccessOutOfBounds u32 usize
  | InvalidEoi u32 u32
  | InvalidBlockUnit u32
  | InvalidBlockMedia u32
  | BlockBusy
  | BlockFlush u32 io_error

section \<open>Backing storage\<close>

text \<open>
  A boxed array \<open>[u8; N]\<close> is a function on indices, read and written only below \<open>N\<close>.
\<close>

type_synonym byte_array = "usize \<Rightarrow> u8"

definition array_get :: "byte_array \<Rightarrow> usize \<Rightarrow> usize \<Rightarrow> usize \<Rightarrow> u8 list option" where
  "array_get arr n lo hi = (if lo \<le> hi \<and> hi \<le> n then Some (map arr [lo..<hi]) else None)"

definition array_put :: "byte_array \<Rightarrow> usize \<Rightarrow> u8 list \<Rightarrow> byte_array" where
  "array_put arr lo bytes = (\<lambda>i. if lo \<le> i \<and> i < lo + length bytes then bytes ! (i - lo) else arr i)"

record physical_memory =
  pm_boot_rom :: byte_array
  pm_system_rom :: byte_array
  pm_ram :: byte_array

definition zeroed :: byte_array where
  "zeroed = (\<lambda>_. 0)"

definition memory_empty :: physical_memory where
  "memory_empty = \<lparr>pm_boot_rom = zeroed, pm_system_rom = zeroed, pm_ram = zeroed\<rparr>"

definition memory_with_roms :: "u8 list \<Rightarrow> u8 list \<Rightarrow> core_error + physical_memory" where
  "memory_with_roms boot_rom system_rom =
     (if length boot_rom > unat (mem_size BootRom)
        then Err (PhysicalAccessOutOfBounds (pa_get (mem_base BootRom)) (length boot_rom))
      else if length system_rom > unat (mem_size SystemRom)
        then Err (PhysicalAccessOutOfBounds (pa_get (mem_base SystemRom)) (length system_rom))
      else Ok (memory_empty
        \<lparr>pm_boot_rom := array_put zeroed 0 boot_rom,
         pm_system_rom := array_put zeroed 0 system_rom\<rparr>))"

definition region_offset :: "physical_address \<Rightarrow> core_error + mem_region \<times> usize" where
  "region_offset a =
     and_then (ok_or (region_of a) (UnmappedPhysicalAddress (pa_get a))) (\<lambda>region.
       Ok (region, unat (pa_get a - pa_get (mem_base region))))"

definition region_slice :: "physical_memory \<Rightarrow> physical_address \<Rightarrow> usize \<Rightarrow> core_error + u8 list" where
  "region_slice m a len =
     and_then (region_offset a) (\<lambda>(region, offset).
       let finish = saturating_add_usize offset len;
           too_far = PhysicalAccessOutOfBounds (pa_get a) len
       in case region of
         BootRom \<Rightarrow> ok_or (array_get (pm_boot_rom m) (unat BOOT_ROM_SIZE) offset finish) too_far
       | SystemRom \<Rightarrow> ok_or (array_get (pm_system_rom m) (unat SYSTEM_ROM_SIZE) offset finish) too_far
       | Ram \<Rightarrow> ok_or (array_get (pm_ram m) (unat RAM_SIZE) offset finish) too_far
       | _ \<Rightarrow> Err (UnmappedPhysicalAddress (pa_get a)))"

text \<open>
  The mutable slice is always a part of RAM; it is represented by its offset there. A write
  through it replaces exactly its bytes.
\<close>

definition region_slice_mut :: "physical_memory \<Rightarrow> physical_address \<Rightarrow> usize \<Rightarrow> core_error + usize" where
  "region_slice_mut m a len =
     and_then (region_offset a) (\<lambda>(region, offset).
       if region \<noteq> Ram then Err (ImmutablePhysicalAddress (pa_get a))
       else and_then (ok_or (array_get (pm_ram m) (unat RAM_SIZE) offset (saturating_add_usize offset len))
              (PhysicalAccessOutOfBounds (pa_get a) len)) (\<lambda>_. Ok offset))"

definition ram_put :: "physical_memory \<Rightarrow> usize \<Rightarrow> u8 list \<Rightarrow> physical_memory" where
  "ram_put m offset bytes = m\<lparr>pm_ram := array_put (pm_ram m) offset bytes\<rparr>"

section \<open>The access operations\<close>

definition mem_read_u8 :: "physical_memory \<Rightarrow> physical_address \<Rightarrow> core_error + u8" where
  "mem_read_u8 m a = and_then (region_slice m a 1) (\<lambda>bytes. Ok (hd bytes))"

definition mem_read_u32 :: "physical_memory \<Rightarrow> physical_address \<Rightarrow> core_error + u32" where
  "mem_read_u32 m a = and_then (region_slice m a 4) (\<lambda>bytes. Ok (the (u32_from_le_bytes bytes)))"

definition mem_write_u8 :: "physical_memory \<Rightarrow> physical_address \<Rightarrow> u8 \<Rightarrow> core_error + physical_memory" where
  "mem_write_u8 m a value = and_then (region_slice_mut m a 1) (\<lambda>off. Ok (ram_put m off [value]))"

definition mem_write_u32 :: "physical_memory \<Rightarrow> physical_address \<Rightarrow> u32 \<Rightarrow> core_error + physical_memory" where
  "mem_write_u32 m a value =
     and_then (region_slice_mut m a 4) (\<lambda>off. Ok (ram_put m off (u32_to_le_bytes value)))"

definition mem_read_range :: "physical_memory \<Rightarrow> physical_range \<Rightarrow> usize \<Rightarrow> core_error + u8 list" where
  "mem_read_range m r destination_len =
     (if destination_len \<noteq> unat (pr_length r)
      then Err (PhysicalAccessOutOfBounds (pa_get (pr_start r)) destination_len)
      else region_slice m (pr_start r) destination_len)"

definition mem_write_range :: "physical_memory \<Rightarrow> physical_address \<Rightarrow> u8 list \<Rightarrow> core_error + physical_memory" where
  "mem_write_range m a bytes =
     and_then (region_slice_mut m a (length bytes)) (\<lambda>off. Ok (ram_put m off bytes))"

definition mem_inspect_range :: "physical_memory \<Rightarrow> physical_range \<Rightarrow> core_error + u8 list" where
  "mem_inspect_range m r = region_slice m (pr_start r) (unat (pr_length r))"

section \<open>The trait and its contract\<close>

record 'm memory_ops =
  op_read_u8 :: "'m \<Rightarrow> physical_address \<Rightarrow> core_error + u8"
  op_read_u32 :: "'m \<Rightarrow> physical_address \<Rightarrow> core_error + u32"
  op_write_u8 :: "'m \<Rightarrow> physical_address \<Rightarrow> u8 \<Rightarrow> core_error + 'm"
  op_write_u32 :: "'m \<Rightarrow> physical_address \<Rightarrow> u32 \<Rightarrow> core_error + 'm"
  op_read_range :: "'m \<Rightarrow> physical_range \<Rightarrow> usize \<Rightarrow> core_error + u8 list"
  op_write_range :: "'m \<Rightarrow> physical_address \<Rightarrow> u8 list \<Rightarrow> core_error + 'm"

definition physical_memory_ops :: "physical_memory memory_ops" where
  "physical_memory_ops =
     \<lparr>op_read_u8 = mem_read_u8, op_read_u32 = mem_read_u32, op_write_u8 = mem_write_u8,
      op_write_u32 = mem_write_u32, op_read_range = mem_read_range, op_write_range = mem_write_range\<rparr>"

text \<open>
  \<open>holds f n bs\<close>: the partial byte map \<open>f\<close> has exactly the bytes \<open>bs\<close> from address \<open>n\<close> on.
  \<open>put_bytes\<close> overwrites a run of bytes.
\<close>

definition holds :: "(nat \<Rightarrow> u8 option) \<Rightarrow> nat \<Rightarrow> u8 list \<Rightarrow> bool" where
  "holds f n bs \<longleftrightarrow> (\<forall>i < length bs. f (n + i) = Some (bs ! i))"

definition put_bytes :: "(nat \<Rightarrow> u8 option) \<Rightarrow> nat \<Rightarrow> u8 list \<Rightarrow> nat \<Rightarrow> u8 option" where
  "put_bytes f n bs = (\<lambda>k. if n \<le> k \<and> k < n + length bs then Some (bs ! (k - n)) else f k)"

lemma holds_nth: "holds f n bs \<Longrightarrow> i < length bs \<Longrightarrow> f (n + i) = Some (bs ! i)"
  by (simp add: holds_def)

lemma holds_unique:
  assumes "holds f n bs" and "holds f n cs" and "length bs = length cs"
  shows "bs = cs"
proof (rule nth_equalityI [OF assms(3)])
  fix i
  assume "i < length bs"
  then show "bs ! i = cs ! i"
    using holds_nth [OF assms(1), of i] holds_nth [OF assms(2), of i] assms(3) by simp
qed

lemma holds_put_same [simp]: "holds (put_bytes f n bs) n bs"
  by (simp add: holds_def put_bytes_def)

lemma holds_put_other:
  assumes "n + length bs \<le> k \<or> k + length cs \<le> n"
  shows "holds (put_bytes f n bs) k cs \<longleftrightarrow> holds f k cs"
proof -
  have "put_bytes f n bs (k + i) = f (k + i)" if "i < length cs" for i
    using assms that by (auto simp: put_bytes_def)
  then show ?thesis by (simp add: holds_def)
qed

lemma holds_append: "holds f n (bs @ cs) \<longleftrightarrow> holds f n bs \<and> holds f (n + length bs) cs"
proof
  assume all: "holds f n (bs @ cs)"
  have "f (n + i) = Some (bs ! i)" if "i < length bs" for i
    using holds_nth [OF all, of i] that by (simp add: nth_append)
  moreover have "f (n + length bs + i) = Some (cs ! i)" if "i < length cs" for i
    using holds_nth [OF all, of "length bs + i"] that by (simp add: add.assoc)
  ultimately show "holds f n bs \<and> holds f (n + length bs) cs"
    by (simp add: holds_def)
next
  assume parts: "holds f n bs \<and> holds f (n + length bs) cs"
  have "f (n + i) = Some ((bs @ cs) ! i)" if "i < length (bs @ cs)" for i
    using holds_nth [OF conjunct1 [OF parts], of i] that
      holds_nth [OF conjunct2 [OF parts], of "i - length bs"]
    by (cases "i < length bs") (simp_all add: nth_append)
  then show "holds f n (bs @ cs)"
    by (simp add: holds_def)
qed

text \<open>The little-endian word at an address, when its four bytes are there.\<close>

definition word_at :: "(nat \<Rightarrow> u8 option) \<Rightarrow> nat \<Rightarrow> u32 option" where
  "word_at f n = (case (f n, f (n + 1), f (n + 2), f (n + 3)) of
     (Some a, Some b, Some c, Some d) \<Rightarrow> u32_from_le_bytes [a, b, c, d]
   | _ \<Rightarrow> None)"

lemma word_at_holds:
  "word_at f n = Some v \<longleftrightarrow> (\<exists>bs. length bs = 4 \<and> holds f n bs \<and> u32_from_le_bytes bs = Some v)"
proof
  assume "word_at f n = Some v"
  then obtain a b c d where "f n = Some a" "f (n + 1) = Some b" "f (n + 2) = Some c"
      "f (n + 3) = Some d" "u32_from_le_bytes [a, b, c, d] = Some v"
    by (auto simp: word_at_def split: option.splits)
  then show "\<exists>bs. length bs = 4 \<and> holds f n bs \<and> u32_from_le_bytes bs = Some v"
    by (intro exI [of _ "[a, b, c, d]"]) (auto simp: holds_def less_Suc_eq numeral_eq_Suc)
next
  assume "\<exists>bs. length bs = 4 \<and> holds f n bs \<and> u32_from_le_bytes bs = Some v"
  then obtain bs where bs: "length bs = 4" "holds f n bs" "u32_from_le_bytes bs = Some v"
    by blast
  from bs(1) obtain a b c d where "bs = [a, b, c, d]"
    by (auto simp: length_Suc_conv numeral_eq_Suc)
  with bs holds_nth [OF bs(2), of 0] holds_nth [OF bs(2), of 1] holds_nth [OF bs(2), of 2]
    holds_nth [OF bs(2), of 3]
  show "word_at f n = Some v"
    by (simp add: word_at_def numeral_eq_Suc)
qed

locale memory_access =
  fixes ops :: "'m memory_ops"
    and byte :: "'m \<Rightarrow> nat \<Rightarrow> u8 option"
    and mutable :: "nat \<Rightarrow> bool"
  assumes read_u32_law: "op_read_u32 ops m a = Ok v \<longleftrightarrow> word_at (byte m) (unat (pa_get a)) = Some v"
    and read_range_law: "op_read_range ops m r n = Ok bs \<Longrightarrow>
      length bs = n \<and> holds (byte m) (unat (pa_get (pr_start r))) bs"
    and write_u32_law: "op_write_u32 ops m a v = Ok m' \<Longrightarrow>
      byte m' = put_bytes (byte m) (unat (pa_get a)) (u32_to_le_bytes v)"
    and write_u32_ok: "(\<exists>m'. op_write_u32 ops m a v = Ok m') \<longleftrightarrow>
      (\<forall>i<4. mutable (unat (pa_get a) + i))"
    and write_range_law: "op_write_range ops m a bs = Ok m' \<Longrightarrow>
      byte m' = put_bytes (byte m) (unat (pa_get a)) bs"
    and write_range_mutable: "op_write_range ops m a bs = Ok m' \<Longrightarrow> i < length bs \<Longrightarrow>
      mutable (unat (pa_get a) + i)"
    and mutable_mapped: "mutable n \<Longrightarrow> byte m n \<noteq> None"
begin

lemma read_after_write_u32: "op_write_u32 ops m a v = Ok m' \<Longrightarrow> op_read_u32 ops m' a = Ok v"
  unfolding read_u32_law word_at_holds
  by (rule exI [of _ "u32_to_le_bytes v"]) (simp add: write_u32_law)

lemma read_u32_frame:
  assumes "op_write_u32 ops m a v = Ok m'"
    and "unat (pa_get a) + 4 \<le> unat (pa_get b) \<or> unat (pa_get b) + 4 \<le> unat (pa_get a)"
  shows "op_read_u32 ops m' b = Ok w \<longleftrightarrow> op_read_u32 ops m b = Ok w"
  unfolding read_u32_law word_at_holds write_u32_law [OF assms(1)]
  using assms(2) by (metis holds_put_other length_u32_to_le_bytes)

lemma read_u32_of_mutable:
  assumes "\<forall>i<4. mutable (unat (pa_get a) + i)"
  shows "\<exists>v. op_read_u32 ops m a = Ok v"
proof -
  let ?n = "unat (pa_get a)"
  let ?bs = "map (\<lambda>i. the (byte m (?n + i))) [0..<4]"
  have "holds (byte m) ?n ?bs"
    using assms mutable_mapped by (auto simp: holds_def)
  moreover have "length ?bs = 4"
    by simp
  moreover then obtain v where "u32_from_le_bytes ?bs = Some v"
    using u32_from_le_bytes_Some by blast
  ultimately show ?thesis
    unfolding read_u32_law word_at_holds by blast
qed

lemma read_range_after_write_range:
  "op_write_range ops m a bs = Ok m' \<Longrightarrow> op_read_range ops m' r (length bs) = Ok cs \<Longrightarrow>
   pr_start r = a \<Longrightarrow> cs = bs"
  using read_range_law [of m' r "length bs" cs] write_range_law [of m a bs m']
  by (auto intro: holds_unique)

lemma read_u32_word_at: "ok (op_read_u32 ops m a) = word_at (byte m) (unat (pa_get a))"
proof (cases "word_at (byte m) (unat (pa_get a))")
  case None
  then have "op_read_u32 ops m a \<noteq> Ok v" for v
    by (simp add: read_u32_law)
  then show ?thesis
    using None by (cases "op_read_u32 ops m a") auto
next
  case (Some v)
  then have "op_read_u32 ops m a = Ok v"
    by (simp add: read_u32_law)
  with Some show ?thesis by simp
qed

end

text \<open>A memory whose RAM range is mutable, as the MMU walker relies on for its tables.\<close>

definition ram_address :: "nat \<Rightarrow> bool" where
  "ram_address n \<longleftrightarrow> 0x40000000 \<le> n \<and> n < 0x44000000"

locale ram_backed_access = memory_access +
  assumes ram_mutable: "ram_address n \<Longrightarrow> mutable n"
begin

lemma write_u32_in_ram:
  "0x40000000 \<le> unat (pa_get a) \<Longrightarrow> unat (pa_get a) + 4 \<le> 0x44000000 \<Longrightarrow>
   \<exists>m'. op_write_u32 ops m a v = Ok m'"
  unfolding write_u32_ok by (auto intro: ram_mutable simp: ram_address_def)

end

section \<open>Physical memory meets the contract\<close>

text \<open>The bytes of the three storage regions, as one partial map.\<close>

definition mem_byte :: "physical_memory \<Rightarrow> nat \<Rightarrow> u8 option" where
  "mem_byte m n =
     (if n < 0x10000 then Some (pm_boot_rom m n)
      else if 0x08000000 \<le> n \<and> n < 0x09000000 then Some (pm_system_rom m (n - 0x08000000))
      else if 0x40000000 \<le> n \<and> n < 0x44000000 then Some (pm_ram m (n - 0x40000000))
      else None)"

lemma ram_address_mapped: "ram_address n \<Longrightarrow> mem_byte m n \<noteq> None"
  by (simp add: ram_address_def mem_byte_def)

lemma unat_offset:
  "region_of a = Some r \<Longrightarrow>
   unat (pa_get a - pa_get (mem_base r)) = unat (pa_get a) - unat (pa_get (mem_base r))"
  by (simp add: region_of_Some_bounds unat_sub_le word_le_nat_alt)

lemma array_get_saturating:
  assumes "n < usize_max"
  shows "array_get arr n off (saturating_add_usize off len)
       = (if off + len \<le> n then Some (map arr [off..<off + len]) else None)"
  using assms by (auto simp: array_get_def saturating_add_usize_def min_def)

lemma region_slice_storage:
  assumes "region_of a = Some r" and "\<not> is_device r"
  shows "region_slice m a len =
     (let off = unat (pa_get a) - unat (pa_get (mem_base r));
          arr = (case r of BootRom \<Rightarrow> pm_boot_rom m | SystemRom \<Rightarrow> pm_system_rom m | _ \<Rightarrow> pm_ram m)
      in if off + len \<le> unat (mem_size r) then Ok (map arr [off..<off + len])
         else Err (PhysicalAccessOutOfBounds (pa_get a) len))"
  using assms unat_offset [OF assms(1)]
  by (cases r)
     (simp_all add: region_slice_def region_offset_def is_device_def Let_def
        array_get_saturating usize_max_def mmap_consts mem_layout)

lemma region_slice_not_storage:
  assumes "\<nexists>r. region_of a = Some r \<and> \<not> is_device r"
  shows "region_slice m a len = Err (UnmappedPhysicalAddress (pa_get a))"
  using assms
  by (cases "region_of a")
     (auto simp: region_slice_def region_offset_def is_device_def Let_def split: mem_region.splits)

lemma mem_byte_region:
  assumes "region_of a = Some r" and "\<not> is_device r" and "n < unat (mem_size r)"
  shows "mem_byte m (unat (pa_get (mem_base r)) + n) =
    Some ((case r of BootRom \<Rightarrow> pm_boot_rom m | SystemRom \<Rightarrow> pm_system_rom m | _ \<Rightarrow> pm_ram m) n)"
  using assms(2,3) by (cases r) (simp_all add: is_device_def mem_byte_def mem_layout)

lemma mem_byte_Some_region:
  "mem_byte m (unat (pa_get a)) \<noteq> None \<longleftrightarrow> (\<exists>r. region_of a = Some r \<and> \<not> is_device r)"
proof
  assume "mem_byte m (unat (pa_get a)) \<noteq> None"
  then have "region_of a = Some BootRom \<or> region_of a = Some SystemRom \<or> region_of a = Some Ram"
    by (auto simp: mem_byte_def region_of_Some_bounds mem_layout split: if_splits)
  then show "\<exists>r. region_of a = Some r \<and> \<not> is_device r"
    by (auto simp: is_device_def)
next
  assume "\<exists>r. region_of a = Some r \<and> \<not> is_device r"
  then show "mem_byte m (unat (pa_get a)) \<noteq> None"
    by (auto simp: is_device_def mem_byte_def region_of_Some_bounds mem_layout)
qed

lemma mem_byte_after_region:
  "\<not> is_device r \<Longrightarrow> mem_byte m (unat (pa_get (mem_base r)) + unat (mem_size r)) = None"
  by (cases r) (simp_all add: is_device_def mem_byte_def mem_layout)

lemma region_slice_holds:
  assumes "region_slice m a len = Ok bs"
  shows "length bs = len" and "holds (mem_byte m) (unat (pa_get a)) bs"
proof -
  obtain r where r: "region_of a = Some r" "\<not> is_device r"
    using assms region_slice_not_storage [of a m len] by fastforce
  let ?off = "unat (pa_get a) - unat (pa_get (mem_base r))"
  let ?arr = "case r of BootRom \<Rightarrow> pm_boot_rom m | SystemRom \<Rightarrow> pm_system_rom m | _ \<Rightarrow> pm_ram m"
  have fits: "?off + len \<le> unat (mem_size r)" and bs: "bs = map ?arr [?off..<?off + len]"
    using assms unfolding region_slice_storage [OF r] Let_def by (auto split: if_splits)
  have base: "unat (pa_get a) = unat (pa_get (mem_base r)) + ?off"
    using r(1) by (simp add: region_of_Some_bounds)
  show "length bs = len"
    by (simp add: bs)
  have "mem_byte m (unat (pa_get a) + i) = Some (bs ! i)" if "i < len" for i
    using mem_byte_region [OF r, of "?off + i" m] that fits
    by (subst base) (simp add: bs add.assoc)
  then show "holds (mem_byte m) (unat (pa_get a)) bs"
    using bs by (simp add: holds_def)
qed

lemma region_slice_complete:
  assumes "0 < length bs" and "holds (mem_byte m) (unat (pa_get a)) bs"
  shows "region_slice m a (length bs) = Ok bs"
proof -
  have all: "i < length bs \<Longrightarrow> mem_byte m (unat (pa_get a) + i) \<noteq> None" for i
    using holds_nth [OF assms(2)] by simp
  from all [of 0] assms(1) obtain r where r: "region_of a = Some r" "\<not> is_device r"
    using mem_byte_Some_region [of m a] by auto
  let ?off = "unat (pa_get a) - unat (pa_get (mem_base r))"
  have base: "unat (pa_get a) = unat (pa_get (mem_base r)) + ?off"
    and lt: "?off < unat (mem_size r)"
    using r(1) by (auto simp: region_of_Some_bounds)
  have "?off + length bs \<le> unat (mem_size r)"
  proof (rule ccontr)
    assume "\<not> ?thesis"
    with lt have "unat (mem_size r) - ?off < length bs" by simp
    from all [OF this] have "mem_byte m (unat (pa_get (mem_base r)) + unat (mem_size r)) \<noteq> None"
      using base lt by (simp add: ac_simps)
    with mem_byte_after_region [OF r(2)] show False by simp
  qed
  then obtain cs where cs: "region_slice m a (length bs) = Ok cs"
    unfolding region_slice_storage [OF r] Let_def by auto
  have "cs = bs"
    using region_slice_holds [OF cs] assms(2) by (auto intro: holds_unique)
  with cs show ?thesis by simp
qed

lemma region_slice_Ok:
  "0 < len \<Longrightarrow> region_slice m a len = Ok bs \<longleftrightarrow>
     length bs = len \<and> holds (mem_byte m) (unat (pa_get a)) bs"
  using region_slice_holds [of m a len bs] region_slice_complete [of bs m a] by blast

lemma region_slice_mut_Ok:
  "region_slice_mut m a len = Ok off \<longleftrightarrow>
     region_of a = Some Ram \<and> unat (pa_get a) + len \<le> 0x44000000 \<and> off = unat (pa_get a) - 0x40000000"
  by (auto simp: region_slice_mut_def region_offset_def and_then_Ok ok_or_Ok array_get_saturating
      usize_max_def mmap_consts unat_offset mem_layout region_of_Some_bounds split: if_splits)

lemma mem_byte_ram_put:
  assumes "0x40000000 \<le> n" and "n + length bs \<le> 0x44000000"
  shows "mem_byte (ram_put m (n - 0x40000000) bs) = put_bytes (mem_byte m) n bs"
  using assms by (auto simp: mem_byte_def ram_put_def array_put_def put_bytes_def fun_eq_iff)

lemma mem_write_range_byte:
  assumes "mem_write_range m a bs = Ok m'"
  shows "mem_byte m' = put_bytes (mem_byte m) (unat (pa_get a)) bs"
  using assms mem_byte_ram_put [of "unat (pa_get a)" bs m]
  by (auto simp: mem_write_range_def and_then_Ok region_slice_mut_Ok region_of_Some_bounds mem_layout)

lemma mem_write_u32_as_range: "mem_write_u32 m a v = mem_write_range m a (u32_to_le_bytes v)"
  by (simp add: mem_write_u32_def mem_write_range_def)

lemma mem_write_range_Ok:
  "(\<exists>m'. mem_write_range m a bs = Ok m') \<longleftrightarrow>
     region_of a = Some Ram \<and> unat (pa_get a) + length bs \<le> 0x44000000"
  by (auto simp: mem_write_range_def and_then_Ok region_slice_mut_Ok)

lemma mem_read_u32_Ok: "mem_read_u32 m a = Ok v \<longleftrightarrow> word_at (mem_byte m) (unat (pa_get a)) = Some v"
proof -
  have "region_slice m a 4 = Ok bs \<and> the (u32_from_le_bytes bs) = v \<longleftrightarrow>
      length bs = 4 \<and> holds (mem_byte m) (unat (pa_get a)) bs \<and> u32_from_le_bytes bs = Some v" for bs
    using region_slice_Ok [of 4 m a bs] u32_from_le_bytes_Some [of bs] by auto
  then show ?thesis
    by (auto simp: mem_read_u32_def and_then_Ok word_at_holds)
qed

lemma all_ram_iff:
  assumes "0 < k"
  shows "(\<forall>i<k. ram_address (n + i)) \<longleftrightarrow> 0x40000000 \<le> n \<and> n + k \<le> 0x44000000"
proof
  assume all: "\<forall>i<k. ram_address (n + i)"
  from all assms have "ram_address (n + 0)" by blast
  moreover from all assms have "ram_address (n + (k - 1))"
    by (meson diff_less zero_less_one)
  ultimately show "0x40000000 \<le> n \<and> n + k \<le> 0x44000000"
    using assms unfolding ram_address_def by linarith
qed (simp add: ram_address_def)

text \<open>Physical memory, through its trait, is a flat byte map whose RAM part is mutable.\<close>

interpretation pm: ram_backed_access physical_memory_ops mem_byte ram_address
proof
  fix m a v m' bs r n i
  show "op_read_u32 physical_memory_ops m a = Ok v \<longleftrightarrow>
      word_at (mem_byte m) (unat (pa_get a)) = Some v"
    by (simp add: physical_memory_ops_def mem_read_u32_Ok)
  show "op_read_range physical_memory_ops m r n = Ok bs \<Longrightarrow>
      length bs = n \<and> holds (mem_byte m) (unat (pa_get (pr_start r))) bs"
    by (auto simp: physical_memory_ops_def mem_read_range_def region_slice_holds split: if_splits)
  show "op_write_u32 physical_memory_ops m a v = Ok m' \<Longrightarrow>
      mem_byte m' = put_bytes (mem_byte m) (unat (pa_get a)) (u32_to_le_bytes v)"
    by (simp add: physical_memory_ops_def mem_write_u32_as_range mem_write_range_byte)
  show "(\<exists>m'. op_write_u32 physical_memory_ops m a v = Ok m') \<longleftrightarrow>
      (\<forall>i<4. ram_address (unat (pa_get a) + i))"
    by (auto simp: physical_memory_ops_def mem_write_u32_as_range mem_write_range_Ok all_ram_iff
        region_of_Some_bounds mem_layout)
  show "op_write_range physical_memory_ops m a bs = Ok m' \<Longrightarrow>
      mem_byte m' = put_bytes (mem_byte m) (unat (pa_get a)) bs"
    by (simp add: physical_memory_ops_def mem_write_range_byte)
  show "op_write_range physical_memory_ops m a bs = Ok m' \<Longrightarrow> i < length bs \<Longrightarrow>
      ram_address (unat (pa_get a) + i)"
    using mem_write_range_Ok [of m a bs]
    by (auto simp: physical_memory_ops_def ram_address_def region_of_Some_bounds mem_layout)
  show "ram_address n \<Longrightarrow> mem_byte m n \<noteq> None"
    by (rule ram_address_mapped)
  show "ram_address n \<Longrightarrow> ram_address n" .
qed

end
