(* ===== verification/Platform_Mmu.thy ===== *)
theory Platform_Mmu
  imports Platform_Address
begin

text \<open>
  The MMU and exception values of \<open>minemu-platform\<close> (\<open>mmu.rs\<close>, \<open>exception.rs\<close>): page-directory
  and page-table entries with their validation, authorisation and access-bit helpers, the
  encoded fault status, the supported CP15 operations, and the exception kinds.
\<close>

section \<open>Entry bits\<close>

definition PTE_VALID :: u32 where "PTE_VALID = push_bit 0 1"
definition PTE_WRITABLE :: u32 where "PTE_WRITABLE = ucast PERM_WRITE"
definition PTE_USER :: u32 where "PTE_USER = ucast PERM_USER"
definition PTE_EXECUTABLE :: u32 where "PTE_EXECUTABLE = ucast PERM_EXECUTE"
definition PTE_READABLE :: u32 where "PTE_READABLE = ucast PERM_READ"
definition PTE_ACCESSED :: u32 where "PTE_ACCESSED = push_bit 5 1"
definition PTE_DIRTY :: u32 where "PTE_DIRTY = push_bit 6 1"
definition PTE_SOFTWARE_MASK :: u32 where "PTE_SOFTWARE_MASK = 0x00000f80"
definition PTE_PAGE_MASK :: u32 where "PTE_PAGE_MASK = 0xfffff000"
definition PDE_ALLOWED_MASK :: u32 where "PDE_ALLOWED_MASK = PTE_VALID OR PTE_PAGE_MASK"

lemmas pte_consts = PTE_VALID_def PTE_WRITABLE_def PTE_USER_def PTE_EXECUTABLE_def
  PTE_READABLE_def PTE_ACCESSED_def PTE_DIRTY_def PTE_SOFTWARE_MASK_def PTE_PAGE_MASK_def
  PDE_ALLOWED_MASK_def

section \<open>Page validation\<close>

definition validate_page_table_page :: "physical_address \<Rightarrow> platform_error + unit" where
  "validate_page_table_page a =
     (if \<not> is_page_aligned a then Err (UnalignedPage (pa_get a))
      else and_then (physical_range_new a PAGE_SIZE) (\<lambda>page.
        if \<not> contains_range (mem_range Ram) page then Err (AddressOutsideRam (pa_get a))
        else Ok ()))"

definition is_mmu_target_page :: "physical_address \<Rightarrow> bool" where
  "is_mmu_target_page a =
     (if \<not> is_page_aligned a then False
      else case physical_range_new a PAGE_SIZE of
        Inl _ \<Rightarrow> False
      | Inr page \<Rightarrow> (case region_of a of
          None \<Rightarrow> False
        | Some region \<Rightarrow> contains_range (mem_range region) page))"

section \<open>CP15 operations\<close>

datatype cp15_operation =
    SetTtbr0 physical_address
  | SetMmuEnabled bool
  | InvalidateAll
  | SetVectorBase virtual_address
  | ReadFaultStatus
  | ReadFaultAddress

definition cp15_set_ttbr0 :: "u32 \<Rightarrow> platform_error + cp15_operation" where
  "cp15_set_ttbr0 value =
     (let address = PhysicalAddress value in
      and_then (validate_page_table_page address) (\<lambda>_. Ok (SetTtbr0 address)))"

definition cp15_set_mmu_enabled :: "u32 \<Rightarrow> cp15_operation" where
  "cp15_set_mmu_enabled value = SetMmuEnabled (value AND 1 \<noteq> 0)"

definition cp15_set_vector_base :: "u32 \<Rightarrow> platform_error + cp15_operation" where
  "cp15_set_vector_base value =
     (if value AND 0x1f \<noteq> 0 then Err (UnalignedVectorBase value)
      else Ok (SetVectorBase (VirtualAddress value)))"

section \<open>Page-directory entries\<close>

datatype page_directory_entry = PageDirectoryEntry (pde_raw: u32)

definition pde_new :: "u32 \<Rightarrow> platform_error + page_directory_entry" where
  "pde_new raw =
     (if raw AND NOT PDE_ALLOWED_MASK \<noteq> 0 then Err (InvalidPageDirectoryBits raw)
      else Ok (PageDirectoryEntry raw))"

definition pde_is_valid :: "page_directory_entry \<Rightarrow> bool" where
  "pde_is_valid e \<longleftrightarrow> pde_raw e AND PTE_VALID \<noteq> 0"

definition pde_table_address :: "page_directory_entry \<Rightarrow> platform_error + physical_address option" where
  "pde_table_address e =
     (if \<not> pde_is_valid e then Ok None
      else let address = PhysicalAddress (pde_raw e AND PTE_PAGE_MASK) in
           and_then (validate_page_table_page address) (\<lambda>_. Ok (Some address)))"

section \<open>Fault status\<close>

datatype fault_cause =
    Translation | ReadProtection | WriteProtection | ExecuteProtection | DeviceAccess

fun fault_cause_code :: "fault_cause \<Rightarrow> u32" where
  "fault_cause_code Translation = 1"
| "fault_cause_code ReadProtection = 2"
| "fault_cause_code WriteProtection = 3"
| "fault_cause_code ExecuteProtection = 4"
| "fault_cause_code DeviceAccess = 5"

datatype fault_status = FaultStatus (fs_raw: u32)

definition fault_status_new :: "fault_cause \<Rightarrow> bool \<Rightarrow> access \<Rightarrow> fault_status" where
  "fault_status_new cause user_mode acc =
     (let raw = fault_cause_code cause;
          raw = (if user_mode then raw OR push_bit 8 1 else raw);
          raw = (if acc = Write then raw OR push_bit 9 1 else raw);
          raw = (if acc = Fetch then raw OR push_bit 10 1 else raw)
      in FaultStatus raw)"

definition fault_status_cause :: "fault_status \<Rightarrow> fault_cause option" where
  "fault_status_cause s =
     (let c = fs_raw s AND 0xff in
      if c = 1 then Some Translation
      else if c = 2 then Some ReadProtection
      else if c = 3 then Some WriteProtection
      else if c = 4 then Some ExecuteProtection
      else if c = 5 then Some DeviceAccess
      else None)"

definition fault_status_from_raw :: "u32 \<Rightarrow> platform_error + fault_status" where
  "fault_status_from_raw raw =
     (if raw AND NOT 0x0000070f \<noteq> 0 \<or> fault_status_cause (FaultStatus raw) = None
      then Err (InvalidFaultStatus raw)
      else Ok (FaultStatus raw))"

definition fs_from_user :: "fault_status \<Rightarrow> bool" where
  "fs_from_user s \<longleftrightarrow> fs_raw s AND push_bit 8 1 \<noteq> 0"

definition fs_is_write :: "fault_status \<Rightarrow> bool" where
  "fs_is_write s \<longleftrightarrow> fs_raw s AND push_bit 9 1 \<noteq> 0"

definition fs_is_fetch :: "fault_status \<Rightarrow> bool" where
  "fs_is_fetch s \<longleftrightarrow> fs_raw s AND push_bit 10 1 \<noteq> 0"

section \<open>Page-table entries\<close>

datatype page_table_entry = PageTableEntry (pte_raw: u32)

definition pte_is_valid :: "page_table_entry \<Rightarrow> bool" where
  "pte_is_valid e \<longleftrightarrow> pte_raw e AND PTE_VALID \<noteq> 0"

definition pte_permissions :: "page_table_entry \<Rightarrow> permissions" where
  "pte_permissions e = ucast (pte_raw e AND 0x1e)"

definition pte_software_metadata :: "page_table_entry \<Rightarrow> u8" where
  "pte_software_metadata e = ucast (drop_bit 7 (pte_raw e AND PTE_SOFTWARE_MASK))"

definition pte_with_software_metadata :: "page_table_entry \<Rightarrow> u8 \<Rightarrow> page_table_entry" where
  "pte_with_software_metadata e metadata =
     PageTableEntry ((pte_raw e AND NOT PTE_SOFTWARE_MASK) OR push_bit 7 (ucast (metadata AND 0x1f)))"

definition pte_target_address :: "page_table_entry \<Rightarrow> platform_error + physical_address option" where
  "pte_target_address e =
     (if \<not> pte_is_valid e then Ok None
      else let address = PhysicalAddress (pte_raw e AND PTE_PAGE_MASK) in
        if \<not> is_mmu_target_page address then Err (InvalidPageTableTarget (pa_get address))
        else if (case region_of address of None \<Rightarrow> False | Some r \<Rightarrow> is_device r)
             \<and> perm_contains (pte_permissions e) PERM_USER
        then Err (UserDeviceMapping (pa_get address))
        else Ok (Some address))"

definition protection_cause :: "access \<Rightarrow> fault_cause" where
  "protection_cause acc = (case acc of
     Fetch \<Rightarrow> ExecuteProtection | Read \<Rightarrow> ReadProtection | Write \<Rightarrow> WriteProtection)"

definition pte_authorize :: "page_table_entry \<Rightarrow> access \<Rightarrow> bool \<Rightarrow> fault_cause + unit" where
  "pte_authorize e acc user_mode =
     (if \<not> pte_is_valid e then Err Translation
      else if permits (pte_permissions e) acc user_mode then Ok ()
      else Err (protection_cause acc))"

definition pte_record_successful_access :: "page_table_entry \<Rightarrow> access \<Rightarrow> page_table_entry" where
  "pte_record_successful_access e acc =
     (let raw = pte_raw e OR PTE_ACCESSED;
          raw = (if acc = Write then raw OR PTE_DIRTY else raw)
      in PageTableEntry raw)"

definition pte_clear_access_metadata :: "page_table_entry \<Rightarrow> page_table_entry" where
  "pte_clear_access_metadata e = PageTableEntry (pte_raw e AND NOT (PTE_ACCESSED OR PTE_DIRTY))"

section \<open>Exceptions\<close>

datatype cpu_mode = ModeUser | ModeSupervisor | ModeInterrupt | ModeAbort | ModeUndefined

datatype exception_kind = ExUndefined | ExSupervisorCall | ExPrefetchAbort | ExDataAbort | ExInterrupt

fun vector_offset :: "exception_kind \<Rightarrow> u32" where
  "vector_offset ExUndefined = 0x04"
| "vector_offset ExSupervisorCall = 0x08"
| "vector_offset ExPrefetchAbort = 0x0c"
| "vector_offset ExDataAbort = 0x10"
| "vector_offset ExInterrupt = 0x18"

fun destination_mode :: "exception_kind \<Rightarrow> cpu_mode" where
  "destination_mode ExUndefined = ModeUndefined"
| "destination_mode ExSupervisorCall = ModeSupervisor"
| "destination_mode ExPrefetchAbort = ModeAbort"
| "destination_mode ExDataAbort = ModeAbort"
| "destination_mode ExInterrupt = ModeInterrupt"

fun dispatch_id :: "exception_kind \<Rightarrow> int option" where
  "dispatch_id ExUndefined = Some (- 4)"
| "dispatch_id ExSupervisorCall = Some (- 3)"
| "dispatch_id ExPrefetchAbort = Some (- 2)"
| "dispatch_id ExDataAbort = Some (- 1)"
| "dispatch_id ExInterrupt = None"

definition entry_ticks :: "exception_kind \<Rightarrow> u64" where
  "entry_ticks k = 1"

record exception_request =
  req_kind :: exception_kind
  req_pc :: virtual_address
  req_fault :: "fault_status option"

definition request_synchronous :: "exception_kind \<Rightarrow> virtual_address \<Rightarrow> exception_request" where
  "request_synchronous kind pc = \<lparr>req_kind = kind, req_pc = pc, req_fault = None\<rparr>"

definition request_abort :: "exception_kind \<Rightarrow> virtual_address \<Rightarrow> fault_status \<Rightarrow> exception_request" where
  "request_abort kind pc fault = \<lparr>req_kind = kind, req_pc = pc, req_fault = Some fault\<rparr>"

section \<open>Facts about pages\<close>

lemma u32_and_fff: "(v :: u32) AND 0xfff = 0 \<longleftrightarrow> 4096 dvd unat v"
proof -
  have "v AND 0xfff = take_bit 12 v"
    by (simp add: take_bit_eq_mask mask_eq_exp_minus_1)
  then have "v AND 0xfff = 0 \<longleftrightarrow> unat (take_bit 12 v) = 0"
    by (simp add: unat_eq_zero)
  also have "\<dots> \<longleftrightarrow> 4096 dvd unat v"
    by (simp add: unsigned_take_bit_eq take_bit_eq_mod dvd_eq_mod_eq_0 unat_mod_distrib)
  finally show ?thesis .
qed

lemma is_page_aligned_iff: "is_page_aligned a \<longleftrightarrow> 4096 dvd unat (pa_get a)"
  by (simp add: is_page_aligned_def u32_and_fff)

lemma page_mask_aligned [simp]: "is_page_aligned (PhysicalAddress (raw AND PTE_PAGE_MASK))"
proof -
  have "(raw AND 0xfffff000) AND 0xfff = 0"
    unfolding and.assoc by simp
  then show ?thesis
    by (simp add: is_page_aligned_def PTE_PAGE_MASK_def)
qed

lemma aligned_page_fits:
  assumes "4096 dvd unat (v :: u32)"
  shows "unat v + 4096 \<le> 4294967296"
proof -
  obtain k where "unat v = 4096 * k" using assms by (auto elim: dvdE)
  with unat_u32_lt [of v] show ?thesis by auto
qed

lemma validate_page_table_page_Ok:
  "validate_page_table_page a = Ok u \<longleftrightarrow>
     4096 dvd unat (pa_get a) \<and> region_of a = Some Ram"
proof (cases "4096 dvd unat (pa_get a)")
  case True
  from True have "unat (pa_get a) + 4096 \<le> 4294967296" by (rule aligned_page_fits)
  moreover obtain k where "unat (pa_get a) = 4096 * k" using True by (auto elim: dvdE)
  ultimately show ?thesis
    by (auto simp: validate_page_table_page_def is_page_aligned_iff and_then_Ok
        physical_range_new_Ok contains_range_iff region_of_Some_bounds PAGE_SIZE_def
        mem_base_def [symmetric] mem_size_def [symmetric] mem_layout split: if_splits)
next
  case False
  then show ?thesis
    by (simp add: validate_page_table_page_def is_page_aligned_iff)
qed

lemma mem_region_page_multiple:
  "4096 dvd unat (pa_get (mem_base r))" "4096 dvd unat (mem_size r)"
  by (cases r; simp add: mem_layout)+

lemma dvd_less_imp_add_le:
  fixes a b d :: nat
  assumes "d dvd a" and "d dvd b" and "a < b"
  shows "a + d \<le> b"
proof -
  obtain k where "a = d * k" using assms(1) by (auto elim: dvdE)
  moreover obtain m where "b = d * m" using assms(2) by (auto elim: dvdE)
  ultimately show ?thesis using assms(3)
    by (metis Suc_leI add.commute mult_Suc_right mult_le_mono2 mult_less_cancel1)
qed

lemma is_mmu_target_page_iff:
  "is_mmu_target_page a \<longleftrightarrow> 4096 dvd unat (pa_get a) \<and> region_of a \<noteq> None"
proof (cases "4096 dvd unat (pa_get a)")
  case True
  then have "physical_range_new a PAGE_SIZE = Ok \<lparr>pr_start = a, pr_length = PAGE_SIZE\<rparr>"
    using aligned_page_fits [of "pa_get a"] by (simp add: physical_range_new_Ok PAGE_SIZE_def)
  moreover have "contains_range (mem_range r) \<lparr>pr_start = a, pr_length = PAGE_SIZE\<rparr>"
    if "region_of a = Some r" for r
  proof -
    have "4096 dvd unat (pa_get (mem_base r)) + unat (mem_size r)"
      by (intro dvd_add mem_region_page_multiple)
    with that True show ?thesis
      by (auto simp: contains_range_iff region_of_Some_bounds PAGE_SIZE_def
          mem_base_def [symmetric] mem_size_def [symmetric] intro: dvd_less_imp_add_le)
  qed
  ultimately show ?thesis
    using True by (auto simp: is_mmu_target_page_def is_page_aligned_iff split: option.splits)
next
  case False
  then show ?thesis by (simp add: is_mmu_target_page_def is_page_aligned_iff)
qed

section \<open>Facts about entries and statuses\<close>

lemma pte_bits [simp]:
  "pte_raw (pte_record_successful_access e acc) =
     pte_raw e OR PTE_ACCESSED OR (if acc = Write then PTE_DIRTY else 0)"
  by (simp add: pte_record_successful_access_def Let_def or.assoc)

lemma record_access_keeps:
  "pte_is_valid (pte_record_successful_access e acc) = pte_is_valid e"
  "pte_permissions (pte_record_successful_access e acc) = pte_permissions e"
  "pte_raw (pte_record_successful_access e acc) AND PTE_PAGE_MASK = pte_raw e AND PTE_PAGE_MASK"
  "pte_software_metadata (pte_record_successful_access e acc) = pte_software_metadata e"
  by (simp_all add: pte_is_valid_def pte_permissions_def pte_software_metadata_def pte_consts
      bit.conj_disj_distrib2)

lemma fault_status_cause_new [simp]: "fault_status_cause (fault_status_new c u acc) = Some c"
  by (cases c; cases u; cases acc; simp add: fault_status_new_def fault_status_cause_def Let_def)

lemma fault_status_flags_new [simp]:
  "fs_from_user (fault_status_new c u acc) = u"
  "fs_is_write (fault_status_new c u acc) = (acc = Write)"
  "fs_is_fetch (fault_status_new c u acc) = (acc = Fetch)"
  by (cases c; cases u; cases acc;
      simp add: fault_status_new_def fs_from_user_def fs_is_write_def fs_is_fetch_def Let_def)+

end
