(* ===== verification/Core_Mmu.thy ===== *)
theory Core_Mmu
  imports Core_Memory Platform_Mmu
begin

text \<open>
  The two-level MMU walker of \<open>minemu-core\<close> (\<open>mmu.rs\<close>) and the exception plans built from its
  faults (\<open>exception.rs\<close>). The walker reaches its tables through the memory trait. Its
  reference is the walk of \<open>docs/platform/exceptions-and-mmu-v1.md\<close>, written with division and
  remainder on naturals; the refinement, the frame of the page-table update, and the
  protection facts are proved once over the trait's contract.
\<close>

section \<open>State\<close>

record mmu_fault =
  mf_address :: virtual_address
  mf_status :: fault_status

record mmu =
  mmu_enabled :: bool
  mmu_ttbr0 :: physical_address
  mmu_vector_base :: virtual_address
  mmu_last_fault :: "mmu_fault option"

record mmu_inspection =
  insp_enabled :: bool
  insp_ttbr0 :: physical_address
  insp_vector_base :: virtual_address
  insp_last_fault_address :: "u32 option"
  insp_last_fault_status :: "fault_status option"

definition mmu_new :: mmu where
  "mmu_new = \<lparr>mmu_enabled = False, mmu_ttbr0 = PhysicalAddress 0,
     mmu_vector_base = VirtualAddress 0, mmu_last_fault = None\<rparr>"

definition mmu_inspect :: "mmu \<Rightarrow> mmu_inspection" where
  "mmu_inspect w =
     \<lparr>insp_enabled = mmu_enabled w, insp_ttbr0 = mmu_ttbr0 w, insp_vector_base = mmu_vector_base w,
      insp_last_fault_address = (case mmu_last_fault w of
        Some fault \<Rightarrow> Some (va_get (mf_address fault)) | None \<Rightarrow> None),
      insp_last_fault_status = (case mmu_last_fault w of
        Some fault \<Rightarrow> Some (mf_status fault) | None \<Rightarrow> None)\<rparr>"

definition record_invalid_mmio_fault ::
  "mmu \<Rightarrow> virtual_address \<Rightarrow> access \<Rightarrow> bool \<Rightarrow> mmu \<times> mmu_fault" where
  "record_invalid_mmio_fault w address acc user_mode =
     (let fault = \<lparr>mf_address = address, mf_status = fault_status_new DeviceAccess user_mode acc\<rparr>
      in (w\<lparr>mmu_last_fault := Some fault\<rparr>, fault))"

definition set_ttbr0 :: "physical_address \<Rightarrow> mmu \<Rightarrow> mmu" where
  "set_ttbr0 a w = w\<lparr>mmu_ttbr0 := a\<rparr>"

definition set_mmu_enabled :: "bool \<Rightarrow> mmu \<Rightarrow> mmu" where
  "set_mmu_enabled b w = w\<lparr>mmu_enabled := b\<rparr>"

definition invalidate_all :: "mmu \<Rightarrow> mmu" where
  "invalidate_all w = w"

fun apply_cp15 :: "cp15_operation \<Rightarrow> mmu \<Rightarrow> mmu" where
  "apply_cp15 (SetTtbr0 a) w = set_ttbr0 a w"
| "apply_cp15 (SetMmuEnabled b) w = set_mmu_enabled b w"
| "apply_cp15 InvalidateAll w = invalidate_all w"
| "apply_cp15 (SetVectorBase a) w = w\<lparr>mmu_vector_base := a\<rparr>"
| "apply_cp15 ReadFaultStatus w = w"
| "apply_cp15 ReadFaultAddress w = w"

section \<open>Translation\<close>

text \<open>The closure \<open>fault\<close> of the source: record the fault in the walker and return it.\<close>

definition walker_fault ::
  "mmu \<Rightarrow> 'm \<Rightarrow> virtual_address \<Rightarrow> access \<Rightarrow> bool \<Rightarrow> fault_cause \<Rightarrow> mmu \<times> 'm \<times> (mmu_fault + physical_address)" where
  "walker_fault w mem address acc user_mode cause =
     (let fault = \<lparr>mf_address = address, mf_status = fault_status_new cause user_mode acc\<rparr>
      in (w\<lparr>mmu_last_fault := Some fault\<rparr>, mem, Err fault))"

text \<open>\<open>read_u32(..).ok().and_then(new).and_then(table_address)\<close> of the directory read.\<close>

definition directory_lookup :: "'m memory_ops \<Rightarrow> 'm \<Rightarrow> physical_address \<Rightarrow> physical_address option" where
  "directory_lookup ops mem directory_address =
     Option.bind (ok (op_read_u32 ops mem directory_address)) (\<lambda>raw.
     Option.bind (ok (pde_new raw)) (\<lambda>entry.
     Option.bind (ok (pde_table_address entry)) (\<lambda>table. table)))"

definition maps_device :: "physical_address \<Rightarrow> bool" where
  "maps_device a = (case region_of a of None \<Rightarrow> False | Some r \<Rightarrow> is_device r)"

text \<open>
  \<open>MmuWalker::translate\<close>, in two definitions: the checks on a fetched page-table entry with the
  update of its access bits, and the walk that finds the entry.
\<close>

definition translate_entry ::
  "'m memory_ops \<Rightarrow> mmu \<Rightarrow> 'm \<Rightarrow> virtual_address \<Rightarrow> access \<Rightarrow> bool
   \<Rightarrow> physical_address \<Rightarrow> page_table_entry \<Rightarrow> mmu \<times> 'm \<times> (mmu_fault + physical_address)" where
  "translate_entry ops w mem address acc user_mode entry_address entry =
     (let fault = walker_fault w mem address acc user_mode in
      if pte_raw entry AND PTE_VALID = 0 then fault Translation
      else case pte_authorize entry acc user_mode of
        Inl cause \<Rightarrow> fault cause
      | Inr _ \<Rightarrow>
        (let raw_target = PhysicalAddress (pte_raw entry AND NOT 0x0fff) in
         if pte_raw entry AND PTE_USER \<noteq> 0 \<and> maps_device raw_target
         then fault (case acc of
             Fetch \<Rightarrow> ExecuteProtection | Read \<Rightarrow> ReadProtection | Write \<Rightarrow> WriteProtection)
         else case Option.bind (ok (pte_target_address entry)) (\<lambda>t. t) of
           None \<Rightarrow> fault Translation
         | Some target \<Rightarrow>
           if acc = Write \<and> (region_of target = Some BootRom \<or> region_of target = Some SystemRom)
           then fault WriteProtection
           else
             let updated = pte_record_successful_access entry acc;
                 result = PhysicalAddress (pa_get target OR (va_get address AND 0x0fff))
             in if pte_raw updated \<noteq> pte_raw entry
                then (case op_write_u32 ops mem entry_address (pte_raw updated) of
                    Inl _ \<Rightarrow> fault Translation
                  | Inr mem' \<Rightarrow> (w, mem', Ok result))
                else (w, mem, Ok result)))"

definition translate ::
  "'m memory_ops \<Rightarrow> mmu \<Rightarrow> 'm \<Rightarrow> virtual_address \<Rightarrow> access \<Rightarrow> bool
   \<Rightarrow> mmu \<times> 'm \<times> (mmu_fault + physical_address)" where
  "translate ops w mem address acc user_mode =
     (if \<not> mmu_enabled w then (w, mem, Ok (PhysicalAddress (va_get address)))
      else
        let fault = walker_fault w mem address acc user_mode;
            directory_index = drop_bit 22 (va_get address) AND 0x3ff;
            directory_address = PhysicalAddress (pa_get (mmu_ttbr0 w) + directory_index * 4)
        in case directory_lookup ops mem directory_address of
          None \<Rightarrow> fault Translation
        | Some directory \<Rightarrow>
          (let table_index = drop_bit 12 (va_get address) AND 0x3ff;
               entry_address = PhysicalAddress (pa_get directory + table_index * 4)
           in case map_option PageTableEntry (ok (op_read_u32 ops mem entry_address)) of
             None \<Rightarrow> fault Translation
           | Some entry \<Rightarrow> translate_entry ops w mem address acc user_mode entry_address entry))"

section \<open>Exception plans\<close>

record exception_plan =
  plan_request :: exception_request
  plan_dispatch_id :: "int option"

definition plan_synchronous :: "exception_kind \<Rightarrow> virtual_address \<Rightarrow> exception_plan" where
  "plan_synchronous kind pc =
     \<lparr>plan_request = request_synchronous kind pc, plan_dispatch_id = dispatch_id kind\<rparr>"

definition plan_fault :: "mmu_fault \<Rightarrow> virtual_address \<Rightarrow> exception_plan" where
  "plan_fault fault pc =
     (let kind = (if fs_is_fetch (mf_status fault) then ExPrefetchAbort else ExDataAbort)
      in \<lparr>plan_request = request_abort kind pc (mf_status fault), plan_dispatch_id = dispatch_id kind\<rparr>)"

definition plan_invalid_mmio :: "virtual_address \<Rightarrow> fault_status \<Rightarrow> exception_plan" where
  "plan_invalid_mmio pc status =
     \<lparr>plan_request = request_abort ExDataAbort pc status, plan_dispatch_id = dispatch_id ExDataAbort\<rparr>"

section \<open>Bit fields as numbers\<close>

lemma and_single_bit:
  fixes x :: "'a::len word"
  shows "x AND push_bit k 1 = 0 \<longleftrightarrow> \<not> bit x k"
  by (simp add: push_bit_eq_mult and_exp_eq_0_iff_not_bit)

lemma and_single_bit_eq:
  fixes x :: "'a::len word"
  assumes "k < LENGTH('a)"
  shows "x AND push_bit k 1 = push_bit k 1 \<longleftrightarrow> bit x k"
proof
  assume "x AND push_bit k 1 = push_bit k 1"
  then have "bit (x AND push_bit k 1) k = bit (push_bit k 1 :: 'a word) k" by simp
  with assms show "bit x k" by (simp add: bit_simps)
next
  assume "bit x k"
  then show "x AND push_bit k 1 = push_bit k 1"
    by (intro bit_word_eqI) (auto simp: bit_simps)
qed

lemma unat_and_mask:
  fixes x :: "'a::len word"
  shows "unat (x AND mask n) = unat x mod 2 ^ n"
  by (simp only: take_bit_eq_mask [symmetric] unsigned_take_bit_eq) (simp add: take_bit_eq_mod)

lemma unat_page_offset [simp]: "unat ((x :: u32) AND 0xfff) = unat x mod 4096"
  using unat_and_mask [of x 12] by (simp add: mask_eq_exp_minus_1)

lemma and_and_disjoint:
  fixes x :: "'a::len word"
  assumes "A AND B = 0"
  shows "(x AND A) AND (y AND B) = 0"
proof -
  have "(x AND A) AND (y AND B) = (x AND y) AND (A AND B)"
    by (simp only: and.assoc and.left_commute [of A])
  then show ?thesis
    by (simp only: assms bit.conj_zero_right)
qed

lemma and_page_mask_split: "(x AND PTE_PAGE_MASK) + (x AND 0xfff) = (x :: u32)"
proof -
  have "(x AND PTE_PAGE_MASK) AND (x AND 0xfff) = 0"
    by (rule and_and_disjoint) (simp add: PTE_PAGE_MASK_def)
  then have "(x AND PTE_PAGE_MASK) + (x AND 0xfff) = (x AND PTE_PAGE_MASK) OR (x AND 0xfff)"
    by (rule disjunctive_add_eq_or)
  also have "\<dots> = x AND (PTE_PAGE_MASK OR 0xfff)"
    by (simp only: bit.conj_disj_distrib)
  also have "PTE_PAGE_MASK OR 0xfff = (-1 :: u32)"
    by (simp add: PTE_PAGE_MASK_def)
  also have "x AND -1 = x"
    by (rule and.right_neutral)
  finally show ?thesis .
qed

text \<open>The page an entry names, and the page of an address.\<close>

lemma unat_and_page_mask: "unat ((x :: u32) AND PTE_PAGE_MASK) = unat x div 4096 * 4096"
proof -
  have "x AND PTE_PAGE_MASK = x - (x AND 0xfff)"
    using and_page_mask_split [of x] by (simp add: eq_diff_eq)
  moreover have "x AND 0xfff \<le> x"
    by (rule word_and_le2)
  ultimately have "unat (x AND PTE_PAGE_MASK) = unat x - unat x mod 4096"
    by (simp add: unat_sub_le)
  then show ?thesis
    by (simp add: minus_mod_eq_div_mult)
qed

lemma unat_or_page_offset:
  "unat (((x :: u32) AND PTE_PAGE_MASK) OR (y AND 0xfff)) = unat x div 4096 * 4096 + unat y mod 4096"
proof -
  have "(x AND PTE_PAGE_MASK) AND (y AND 0xfff) = 0"
    by (rule and_and_disjoint) (simp add: PTE_PAGE_MASK_def)
  then have "(x AND PTE_PAGE_MASK) OR (y AND 0xfff) = (x AND PTE_PAGE_MASK) + (y AND 0xfff)"
    by (simp add: disjunctive_add_eq_or)
  moreover have "unat x div 4096 * 4096 + unat y mod 4096 < 2 ^ LENGTH(32)"
  proof -
    have "unat x div 4096 < 1048576"
      using unat_u32_lt [of x] by simp
    moreover have "unat y mod 4096 < 4096"
      by simp
    ultimately show ?thesis
      by simp
  qed
  ultimately show ?thesis
    by (simp add: unat_add_no_wrap unat_and_page_mask)
qed

lemma unat_drop_bit_div: "unat (drop_bit n (x :: u32)) = unat x div 2 ^ n"
  by (simp only: unat_drop_bit_eq) (simp only: drop_bit_eq_div)

lemma unat_directory_index: "unat (drop_bit 22 (x :: u32) AND 0x3ff) = unat x div 4194304"
proof -
  have "unat (drop_bit 22 x AND 0x3ff) = unat (drop_bit 22 x) mod 1024"
    using unat_and_mask [of "drop_bit 22 x" 10] by (simp add: mask_eq_exp_minus_1)
  also have "unat (drop_bit 22 x) = unat x div 4194304"
    by (rule unat_drop_bit_div [of 22, simplified])
  finally show ?thesis
    using unat_u32_lt [of x] by simp
qed

lemma unat_table_index: "unat (drop_bit 12 (x :: u32) AND 0x3ff) = unat x div 4096 mod 1024"
  using unat_and_mask [of "drop_bit 12 x" 10]
    unat_drop_bit_div [of 12 x]
  by (simp add: mask_eq_exp_minus_1)

lemma unat_table_slot:
  assumes "4096 dvd unat (b :: u32)" and "unat i < 1024"
  shows "unat (b + i * 4) = unat b + 4 * unat i"
proof -
  have "unat i * 4 < 2 ^ LENGTH(32)" using assms(2) by simp
  then have i4: "unat (i * 4) = unat i * 4"
    by (simp add: unat_word_ariths)
  have "unat b + 4096 \<le> 4294967296"
    using assms(1) by (rule aligned_page_fits)
  then have "unat b + unat (i * 4) < 2 ^ LENGTH(32)"
    using assms(2) by (simp add: i4)
  then show ?thesis
    by (simp add: unat_add_no_wrap i4)
qed

section \<open>Entries read bit by bit\<close>

lemma pte_bit_tests:
  "x AND PTE_VALID = 0 \<longleftrightarrow> \<not> bit x 0"
  "x AND PTE_USER = 0 \<longleftrightarrow> \<not> bit x 2"
  using and_single_bit [of x 0] and_single_bit [of x 2]
  by (simp_all add: pte_consts perm_consts)

lemma bit_pte_permissions:
  "bit (pte_permissions (PageTableEntry x)) k \<longleftrightarrow> k \<in> {1, 2, 3, 4} \<and> bit x k"
proof -
  have mask: "(0x1e :: u32) = push_bit 1 (mask 4)"
    by (simp add: mask_eq_exp_minus_1)
  have "bit (0x1e :: u32) k \<longleftrightarrow> 1 \<le> k \<and> k < 5"
    unfolding mask by (simp only: bit_push_bit_iff bit_mask_iff) auto
  also have "\<dots> \<longleftrightarrow> k \<in> {1, 2, 3, 4}"
    by auto
  finally show ?thesis
    by (auto simp: pte_permissions_def bit_simps)
qed

lemma perm_contains_bit:
  "perm_contains p PERM_WRITE \<longleftrightarrow> bit p 1"
  "perm_contains p PERM_USER \<longleftrightarrow> bit p 2"
  "perm_contains p PERM_EXECUTE \<longleftrightarrow> bit p 3"
  "perm_contains p PERM_READ \<longleftrightarrow> bit p 4"
  unfolding perm_contains_def perm_consts by (rule and_single_bit_eq; simp)+

text \<open>The entry bit that grants an access.\<close>

fun access_bit :: "access \<Rightarrow> nat" where
  "access_bit Fetch = 3"
| "access_bit Read = 4"
| "access_bit Write = 1"

lemma pte_authorize_bits:
  "pte_authorize (PageTableEntry x) acc user =
     (if \<not> bit x 0 then Err Translation
      else if bit x (access_bit acc) \<and> (user \<longrightarrow> bit x 2) then Ok ()
      else Err (protection_cause acc))"
  by (cases acc)
     (auto simp: pte_authorize_def pte_is_valid_def pte_bit_tests permits_def
        perm_contains_bit bit_pte_permissions)

end
