(* ===== verification/Core_Mmu_Walk.thy ===== *)
theory Core_Mmu_Walk
  imports Core_Mmu
begin

text \<open>
  The reference of the MMU walker and its refinement. The reference reads words through a
  partial function and finds its way with division and remainder, as the tables of
  \<open>docs/platform/exceptions-and-mmu-v1.md\<close> do. The walker of \<open>mmu.rs\<close> agrees with it on every
  input, for every memory that meets the trait's contract; the interpretation on physical
  memory then gives the properties.
\<close>

section \<open>The reference walk\<close>

definition aligned_page :: "u32 \<Rightarrow> nat" where
  "aligned_page x = unat x div 4096 * 4096"

definition region_at :: "nat \<Rightarrow> mem_region option" where
  "region_at n = region_of (PhysicalAddress (of_nat n))"

definition ram_page :: "nat \<Rightarrow> bool" where
  "ram_page n \<longleftrightarrow> 0x40000000 \<le> n \<and> n + 4096 \<le> 0x44000000"

fun page_fault :: "u32 \<Rightarrow> nat \<Rightarrow> access \<Rightarrow> bool \<Rightarrow> fault_cause option" where
  "page_fault pte page acc user =
     (if \<not> bit pte 0 then Some Translation
      else if \<not> bit pte (access_bit acc) \<or> user \<and> \<not> bit pte 2 then Some (protection_cause acc)
      else case region_at page of
        None \<Rightarrow> Some Translation
      | Some r \<Rightarrow>
          if is_device r \<and> bit pte 2 then Some (protection_cause acc)
          else if acc = Write \<and> (r = BootRom \<or> r = SystemRom) then Some WriteProtection
          else None)"

text \<open>The entry's address, the entry, and the physical address; or the cause of the fault.\<close>

definition walk_reference ::
  "(nat \<Rightarrow> u32 option) \<Rightarrow> nat \<Rightarrow> nat \<Rightarrow> access \<Rightarrow> bool \<Rightarrow> fault_cause + (nat \<times> u32 \<times> nat)" where
  "walk_reference rd ttbr va acc user =
     (case rd (ttbr + 4 * (va div 4194304)) of
        None \<Rightarrow> Err Translation
      | Some pde \<Rightarrow>
          if unat pde mod 4096 \<noteq> 1 \<or> \<not> ram_page (aligned_page pde) then Err Translation
          else
            let entry = aligned_page pde + 4 * (va div 4096 mod 1024) in
            (case rd entry of
               None \<Rightarrow> Err Translation
             | Some pte \<Rightarrow>
                 (case page_fault pte (aligned_page pte) acc user of
                    Some cause \<Rightarrow> Err cause
                  | None \<Rightarrow> Ok (entry, pte, aligned_page pte + va mod 4096))))"

text \<open>The accessed and dirty bits a successful access leaves in the entry.\<close>

definition mark_access :: "u32 \<Rightarrow> access \<Rightarrow> u32" where
  "mark_access pte acc = (if acc = Write then set_bit 6 (set_bit 5 pte) else set_bit 5 pte)"

section \<open>The pieces of the walk\<close>

lemma mark_access_recorded:
  "pte_raw (pte_record_successful_access (PageTableEntry x) acc) = mark_access x acc"
  by (auto simp: mark_access_def pte_consts set_bit_eq_or ac_simps)

lemma not_pde_allowed: "NOT PDE_ALLOWED_MASK = 0xffe"
  by code_simp

lemma low_bits_of_pde: "(x :: u32) AND 0xfff = 1 \<longleftrightarrow> x AND 0xffe = 0 \<and> x AND 1 \<noteq> 0"
proof
  assume eq: "x AND 0xfff = 1"
  have "x AND 0xffe = (x AND 0xfff) AND 0xffe" and "x AND 1 = (x AND 0xfff) AND 1"
    by (simp_all add: and.assoc)
  with eq show "x AND 0xffe = 0 \<and> x AND 1 \<noteq> 0"
    by simp
next
  assume eq: "x AND 0xffe = 0 \<and> x AND 1 \<noteq> 0"
  have "x AND 0xfff = (x AND 0xffe) OR (x AND 1)"
    by (simp add: bit.conj_disj_distrib [symmetric])
  also have "\<dots> = 1"
    using eq by (simp add: and_one_eq one_and_eq split: if_splits)
  finally show "x AND 0xfff = 1" .
qed

text \<open>A directory entry is accepted exactly when its low twelve bits are the number one.\<close>

lemma pde_accepted:
  "(\<exists>e. pde_new x = Ok e \<and> pde_is_valid e) \<longleftrightarrow> unat x mod 4096 = 1"
proof -
  have "unat x mod 4096 = 1 \<longleftrightarrow> x AND 0xfff = 1"
    by (metis unat_1 unat_page_offset word_eq_iff_unsigned)
  then show ?thesis
    by (auto simp: low_bits_of_pde pde_new_def pde_is_valid_def not_pde_allowed PTE_VALID_def)
qed

lemma unat_page_entry [simp]: "unat (x AND PTE_PAGE_MASK) = aligned_page x"
  by (simp add: aligned_page_def unat_and_page_mask)

lemma aligned_page_dvd [simp]: "4096 dvd aligned_page x"
  by (simp add: aligned_page_def)

lemma aligned_page_le: "aligned_page x \<le> unat x"
  by (simp add: aligned_page_def)

lemma of_nat_aligned_page: "of_nat (aligned_page x) = x AND PTE_PAGE_MASK"
  by (simp add: unat_page_entry [symmetric] del: unat_page_entry)

lemma region_at_aligned_page: "region_at (aligned_page x) = region_of (PhysicalAddress (x AND PTE_PAGE_MASK))"
  by (simp add: region_at_def of_nat_aligned_page)

lemma ram_page_region:
  "ram_page (aligned_page x) \<longleftrightarrow> region_of (PhysicalAddress (x AND PTE_PAGE_MASK)) = Some Ram"
proof -
  have "aligned_page x < 0x44000000 \<Longrightarrow> aligned_page x + 4096 \<le> 0x44000000"
    using dvd_less_imp_add_le [of 4096 "aligned_page x" "0x44000000"] by simp
  then show ?thesis
    by (auto simp: ram_page_def region_of_Some_bounds mem_layout)
qed

lemma not_fff: "NOT 0xfff = PTE_PAGE_MASK"
  by code_simp

lemma pde_table_lookup:
  "Option.bind (ok (pde_new x)) (\<lambda>entry. Option.bind (ok (pde_table_address entry)) (\<lambda>table. table)) =
     (if unat x mod 4096 = 1 \<and> ram_page (aligned_page x)
      then Some (PhysicalAddress (x AND PTE_PAGE_MASK)) else None)"
proof (cases "unat x mod 4096 = 1")
  case True
  then obtain e where e: "pde_new x = Ok e" "pde_is_valid e" "e = PageDirectoryEntry x"
    using pde_accepted [of x] by (auto simp: pde_new_def split: if_splits)
  show ?thesis
    using True e validate_page_table_page_Ok [of "PhysicalAddress (x AND PTE_PAGE_MASK)"]
    by (cases "validate_page_table_page (PhysicalAddress (x AND PTE_PAGE_MASK))")
       (auto simp: pde_table_address_def Let_def ram_page_region)
next
  case False
  then show ?thesis
    using pde_accepted [of x]
    by (cases "pde_new x") (auto simp: pde_table_address_def)
qed

lemma pte_target_lookup:
  assumes "bit x 0"
  shows "Option.bind (ok (pte_target_address (PageTableEntry x))) (\<lambda>t. t) =
     (case region_at (aligned_page x) of
        None \<Rightarrow> None
      | Some r \<Rightarrow> if is_device r \<and> bit x 2 then None else Some (PhysicalAddress (x AND PTE_PAGE_MASK)))"
  using assms
  by (auto simp: pte_target_address_def pte_is_valid_def pte_bit_tests is_mmu_target_page_iff
      region_at_aligned_page perm_contains_bit bit_pte_permissions Let_def split: option.splits)

context memory_access
begin

lemma directory_lookup_word:
  assumes "4096 dvd unat (pa_get t)"
  shows "directory_lookup ops m (PhysicalAddress (pa_get t + (drop_bit 22 va AND 0x3ff) * 4)) =
     (case word_at (byte m) (unat (pa_get t) + 4 * (unat va div 4194304)) of
        None \<Rightarrow> None
      | Some x \<Rightarrow> if unat x mod 4096 = 1 \<and> ram_page (aligned_page x)
                   then Some (PhysicalAddress (x AND PTE_PAGE_MASK)) else None)"
proof -
  have "unat (pa_get t + (drop_bit 22 va AND 0x3ff) * 4) = unat (pa_get t) + 4 * (unat va div 4194304)"
    using assms unat_u32_lt [of va] by (simp add: unat_table_slot unat_directory_index)
  then show ?thesis
    by (simp add: directory_lookup_def read_u32_word_at pde_table_lookup bind_eq_None_conv split: option.split)
qed

lemma entry_word:
  "ok (op_read_u32 ops m (PhysicalAddress ((x AND PTE_PAGE_MASK) + (drop_bit 12 va AND 0x3ff) * 4))) =
     word_at (byte m) (aligned_page x + 4 * (unat va div 4096 mod 1024))"
proof -
  have "unat ((x AND PTE_PAGE_MASK) + (drop_bit 12 va AND 0x3ff) * 4)
      = aligned_page x + 4 * (unat va div 4096 mod 1024)"
    by (simp add: unat_table_slot unat_table_index)
  then show ?thesis
    by (simp add: read_u32_word_at)
qed

end

lemma unat_u32_of_nat: "n < 2 ^ 32 \<Longrightarrow> unat (of_nat n :: u32) = n"
  by (simp add: unsigned_of_nat take_bit_nat_eq_self)

lemma word_nat_cast_eq: "unat (x :: u32) = n \<Longrightarrow> x = of_nat n"
  by auto

lemma page_result:
  "PhysicalAddress ((x AND PTE_PAGE_MASK) OR (va AND 0xfff)) =
     PhysicalAddress (of_nat (aligned_page x + unat va mod 4096))"
proof -
  have "unat ((x AND PTE_PAGE_MASK) OR (va AND 0xfff)) = aligned_page x + unat va mod 4096"
    by (simp add: unat_or_page_offset aligned_page_def)
  then show ?thesis
    by (metis word_nat_cast_eq)
qed

lemma table_entry_in_ram:
  assumes "ram_page (aligned_page x)"
  shows "0x40000000 \<le> aligned_page x + 4 * (n mod 1024)" "aligned_page x + 4 * (n mod 1024) + 4 \<le> 0x44000000"
proof -
  have "n mod 1024 < 1024" by simp
  with assms show "0x40000000 \<le> aligned_page x + 4 * (n mod 1024)"
    and "aligned_page x + 4 * (n mod 1024) + 4 \<le> 0x44000000"
    by (auto simp: ram_page_def)
qed

text \<open>What follows the entry's address, as the source has it.\<close>

definition walk_entry ::
  "'m memory_ops \<Rightarrow> mmu \<Rightarrow> 'm \<Rightarrow> virtual_address \<Rightarrow> access \<Rightarrow> bool \<Rightarrow> physical_address \<Rightarrow> u32
   \<Rightarrow> mmu \<times> 'm \<times> (mmu_fault + physical_address)" where
  "walk_entry ops w m a acc user entry_address x =
     (case page_fault x (aligned_page x) acc user of
        Some cause \<Rightarrow> walker_fault w m a acc user cause
      | None \<Rightarrow>
          (let result = PhysicalAddress (of_nat (aligned_page x + unat (va_get a) mod 4096)) in
           if mark_access x acc \<noteq> x
           then (case op_write_u32 ops m entry_address (mark_access x acc) of
               Inl _ \<Rightarrow> walker_fault w m a acc user Translation
             | Inr m' \<Rightarrow> (w, m', Ok result))
           else (w, m, Ok result)))"

lemma maps_device_page:
  "maps_device (PhysicalAddress (x AND PTE_PAGE_MASK)) \<longleftrightarrow>
     (case region_at (aligned_page x) of None \<Rightarrow> False | Some r \<Rightarrow> is_device r)"
  by (simp add: maps_device_def region_at_aligned_page)

lemma rom_not_device [simp]: "\<not> is_device BootRom" "\<not> is_device SystemRom"
  by (simp_all add: is_device_def)

lemma translate_entry_eq:
  "translate_entry ops w m a acc user e (PageTableEntry x) = walk_entry ops w m a acc user e x"
proof (cases "bit x 0 \<and> bit x (access_bit acc) \<and> (user \<longrightarrow> bit x 2)")
  case False
  then show ?thesis
    by (auto simp: translate_entry_def walk_entry_def Let_def pte_bit_tests pte_authorize_bits)
next
  case True
  then have auth: "pte_authorize (PageTableEntry x) acc user = Ok ()" and v: "bit x 0"
    by (auto simp: pte_authorize_bits)
  show ?thesis
  proof (cases "region_at (aligned_page x)")
    case None
    with True show ?thesis
      unfolding translate_entry_def walk_entry_def Let_def page_table_entry.sel auth
        mark_access_recorded not_fff pte_bit_tests maps_device_page pte_target_lookup [OF v]
      by auto
  next
    case (Some r)
    then have "region_of (PhysicalAddress (x AND PTE_PAGE_MASK)) = Some r"
      by (simp add: region_at_aligned_page)
    with True Some show ?thesis
      unfolding translate_entry_def walk_entry_def Let_def page_table_entry.sel auth
        mark_access_recorded not_fff pte_bit_tests maps_device_page pte_target_lookup [OF v]
      by (auto simp: protection_cause_def page_result split: sum.split)
  qed
qed

lemma translate_as_walk_entry:
  assumes "mmu_enabled w"
  shows "translate ops w m a acc user =
    (case directory_lookup ops m
        (PhysicalAddress (pa_get (mmu_ttbr0 w) + (drop_bit 22 (va_get a) AND 0x3ff) * 4)) of
       None \<Rightarrow> walker_fault w m a acc user Translation
     | Some directory \<Rightarrow>
         (let entry_address = PhysicalAddress (pa_get directory + (drop_bit 12 (va_get a) AND 0x3ff) * 4)
          in case ok (op_read_u32 ops m entry_address) of
            None \<Rightarrow> walker_fault w m a acc user Translation
          | Some x \<Rightarrow> walk_entry ops w m a acc user entry_address x))"
  using assms by (simp add: translate_def Let_def translate_entry_eq split: option.split)

context ram_backed_access
begin

text \<open>The walker computes the reference, and its only write is the marked entry.\<close>

lemma translate_refines:
  assumes "mmu_enabled w" and "4096 dvd unat (pa_get (mmu_ttbr0 w))"
  shows "case walk_reference (word_at (byte m)) (unat (pa_get (mmu_ttbr0 w))) (unat (va_get a)) acc user of
      Inl cause \<Rightarrow> translate ops w m a acc user = walker_fault w m a acc user cause
    | Inr (entry, pte, target) \<Rightarrow>
        (\<exists>m'. translate ops w m a acc user = (w, m', Ok (PhysicalAddress (of_nat target)))
         \<and> word_at (byte m) entry = Some pte
         \<and> (if mark_access pte acc = pte then m' = m
            else byte m' = put_bytes (byte m) entry (u32_to_le_bytes (mark_access pte acc))))"
proof (cases "word_at (byte m) (unat (pa_get (mmu_ttbr0 w)) + 4 * (unat (va_get a) div 4194304))")
  case None
  with assms show ?thesis
    by (simp add: translate_as_walk_entry walk_reference_def directory_lookup_word)
next
  case (Some pde)
  note pde = Some
  show ?thesis
  proof (cases "unat pde mod 4096 = 1 \<and> ram_page (aligned_page pde)")
    case False
    with assms Some show ?thesis
      by (auto simp: translate_as_walk_entry walk_reference_def directory_lookup_word)
  next
    case True
    let ?ea = "(pde AND PTE_PAGE_MASK) + (drop_bit 12 (va_get a) AND 0x3ff) * 4"
    let ?entry = "aligned_page pde + 4 * (unat (va_get a) div 4096 mod 1024)"
    have ea: "unat ?ea = ?entry"
      by (simp add: unat_table_slot unat_table_index)
    have tr: "translate ops w m a acc user = (case word_at (byte m) ?entry of
        None \<Rightarrow> walker_fault w m a acc user Translation
      | Some x \<Rightarrow> walk_entry ops w m a acc user (PhysicalAddress ?ea) x)"
      using assms Some True
      by (simp add: translate_as_walk_entry directory_lookup_word entry_word Let_def)
    have "\<exists>m'. op_write_u32 ops m (PhysicalAddress ?ea) v = Ok m'" for v
      using True by (intro write_u32_in_ram) (simp_all add: ea table_entry_in_ram del: unat_page_entry)
    moreover have "byte m' = put_bytes (byte m) ?entry (u32_to_le_bytes v)"
      if "op_write_u32 ops m (PhysicalAddress ?ea) v = Ok m'" for v m'
      using write_u32_law [OF that] by (simp add: ea)
    ultimately have wr: "\<exists>m'. op_write_u32 ops m (PhysicalAddress ?ea) v = Ok m'
        \<and> byte m' = put_bytes (byte m) ?entry (u32_to_le_bytes v)" for v
      by blast
    show ?thesis
    proof (cases "word_at (byte m) ?entry")
      case None
      with Some True tr show ?thesis
        by (simp add: walk_reference_def)
    next
      case (Some pte)
      from wr obtain m' where m': "op_write_u32 ops m (PhysicalAddress ?ea) (mark_access pte acc) = Ok m'"
          "byte m' = put_bytes (byte m) ?entry (u32_to_le_bytes (mark_access pte acc))"
        by blast
      have ref: "walk_reference (word_at (byte m)) (unat (pa_get (mmu_ttbr0 w))) (unat (va_get a)) acc user
          = (case page_fault pte (aligned_page pte) acc user of
               Some cause \<Rightarrow> Err cause
             | None \<Rightarrow> Ok (?entry, pte, aligned_page pte + unat (va_get a) mod 4096))"
        using pde True Some by (simp add: walk_reference_def Let_def del: page_fault.simps)
      show ?thesis
        unfolding ref tr
        by (cases "page_fault pte (aligned_page pte) acc user"; cases "mark_access pte acc = pte")
          (simp_all add: Some walk_entry_def Let_def m' del: page_fault.simps)
    qed
  qed
qed

end

section \<open>What a translation leaves behind\<close>

lemma walk_reference_Ok:
  "walk_reference rd ttbr va acc user = Ok (entry, pte, target) \<longleftrightarrow>
     (\<exists>pde. rd (ttbr + 4 * (va div 4194304)) = Some pde \<and> unat pde mod 4096 = 1
        \<and> ram_page (aligned_page pde)
        \<and> entry = aligned_page pde + 4 * (va div 4096 mod 1024)
        \<and> rd entry = Some pte \<and> page_fault pte (aligned_page pte) acc user = None
        \<and> target = aligned_page pte + va mod 4096)"
  by (auto simp: walk_reference_def Let_def simp del: page_fault.simps split: option.splits if_splits)

lemma page_fault_None:
  "page_fault pte page acc user = None \<longleftrightarrow>
     bit pte 0 \<and> bit pte (access_bit acc) \<and> (user \<longrightarrow> bit pte 2)
     \<and> (\<exists>r. region_at page = Some r \<and> \<not> (is_device r \<and> bit pte 2)
            \<and> \<not> (acc = Write \<and> (r = BootRom \<or> r = SystemRom)))"
  by (auto split: option.splits)

declare page_fault.simps [simp del]

lemma bit_mark_access:
  "k < 32 \<Longrightarrow> bit (mark_access x acc) k \<longleftrightarrow> bit x k \<or> k = 5 \<or> k = 6 \<and> acc = Write"
  by (auto simp: mark_access_def bit_simps)

lemma mark_access_low_bits:
  "bit (mark_access x acc) 0 = bit x 0" "bit (mark_access x acc) 2 = bit x 2"
  "bit (mark_access x acc) (access_bit b) = bit x (access_bit b)"
  by (cases b; simp add: bit_mark_access)+

lemma mark_access_idem [simp]: "mark_access (mark_access x acc) acc = mark_access x acc"
  by (rule bit_word_eqI) (auto simp: bit_mark_access)

lemma aligned_page_mark [simp]: "aligned_page (mark_access x acc) = aligned_page x"
proof -
  have mark: "mark_access x acc = x OR 0x20 OR (if acc = Write then 0x40 else 0)"
    by (simp add: mark_access_def set_bit_eq_or or.assoc)
  have "mark_access x acc AND PTE_PAGE_MASK = x AND PTE_PAGE_MASK"
    unfolding mark by (simp add: bit.conj_disj_distrib2 PTE_PAGE_MASK_def)
  then show ?thesis
    by (metis unat_page_entry)
qed

lemma page_fault_mark [simp]: "page_fault (mark_access x acc) page b user = page_fault x page b user"
  by (simp only: page_fault.simps mark_access_low_bits)

text \<open>All addresses of a page lie in the page's region.\<close>

lemma region_of_page_offset:
  assumes "off < 4096"
  shows "region_of (PhysicalAddress (of_nat (aligned_page x + off))) = region_at (aligned_page x)"
proof -
  have "aligned_page x + off < 2 ^ 32"
    using aligned_page_fits [of "x AND PTE_PAGE_MASK"] assms by simp
  then have n: "unat (of_nat (aligned_page x + off) :: u32) = aligned_page x + off"
    by (rule unat_u32_of_nat)
  have lo: "b \<le> aligned_page x + off \<longleftrightarrow> b \<le> aligned_page x"
    and hi: "aligned_page x + off < b \<longleftrightarrow> aligned_page x < b" if "4096 dvd b" for b
  proof -
    have "aligned_page x < b \<Longrightarrow> aligned_page x + 4096 \<le> b"
      using that by (rule dvd_less_imp_add_le [OF aligned_page_dvd])
    then show "b \<le> aligned_page x + off \<longleftrightarrow> b \<le> aligned_page x"
      and "aligned_page x + off < b \<longleftrightarrow> aligned_page x < b"
      using assms by linarith+
  qed
  have "4096 dvd unat (pa_get (mem_base r)) + unat (mem_size r)" for r
    by (intro dvd_add mem_region_page_multiple)
  then have "region_of (PhysicalAddress (of_nat (aligned_page x + off))) = Some r \<longleftrightarrow>
      region_at (aligned_page x) = Some r" for r
    by (simp only: region_at_aligned_page region_of_Some_bounds physical_address.sel n unat_page_entry
        lo [OF mem_region_page_multiple(1)] hi)
  then show ?thesis
    by (metis not_None_eq)
qed

lemma put_holds_word:
  "word_at (put_bytes f n (u32_to_le_bytes v)) n = Some v"
  unfolding word_at_holds by (rule exI [of _ "u32_to_le_bytes v"]) simp

lemma word_at_put_other:
  assumes "n + 4 \<le> k \<or> k + 4 \<le> n"
  shows "word_at (put_bytes f n (u32_to_le_bytes v)) k = word_at f k"
proof -
  have "word_at (put_bytes f n (u32_to_le_bytes v)) k = Some w \<longleftrightarrow> word_at f k = Some w" for w
    unfolding word_at_holds using assms by (metis holds_put_other length_u32_to_le_bytes)
  then show ?thesis
    by (metis not_None_eq)
qed

text \<open>
  The directory word of a walk that succeeds is not its table entry: a valid directory entry
  grants no access. So marking the entry leaves the walk as it was.
\<close>

lemma no_access_in_pde:
  assumes "unat pde mod 4096 = 1"
  shows "\<not> bit pde (access_bit acc)"
proof -
  have k: "1 \<le> access_bit acc" "access_bit acc < 12"
    by (cases acc; simp)+
  have "bit (unat pde mod 4096) (access_bit acc) = bit (unat pde) (access_bit acc)"
    using k by (simp add: take_bit_eq_mod [of 12, simplified, symmetric] bit_simps)
  then have "bit pde (access_bit acc) = bit (1 :: nat) (access_bit acc)"
    by (simp only: assms bit_unsigned_iff) (use k in simp)
  with k show ?thesis
    by (simp only: bit_1_iff)
qed

lemma walk_after_mark:
  assumes ok: "walk_reference (word_at f) ttbr va acc user = Ok (entry, pte, target)"
    and al: "4 dvd ttbr"
  shows "walk_reference (word_at (put_bytes f entry (u32_to_le_bytes (mark_access pte acc)))) ttbr va acc user
     = Ok (entry, mark_access pte acc, target)"
proof -
  from ok obtain pde where w: "word_at f (ttbr + 4 * (va div 4194304)) = Some pde"
      "unat pde mod 4096 = 1" "ram_page (aligned_page pde)"
      "entry = aligned_page pde + 4 * (va div 4096 mod 1024)"
      "word_at f entry = Some pte" "page_fault pte (aligned_page pte) acc user = None"
      "target = aligned_page pte + va mod 4096"
    by (auto simp: walk_reference_Ok)
  let ?d = "ttbr + 4 * (va div 4194304)"
  have ne: "entry \<noteq> ?d"
    using w no_access_in_pde [of pde acc] by (auto simp: page_fault_None)
  have "4 dvd entry" "4 dvd ?d"
    using al dvd_trans [OF _ aligned_page_dvd [of pde], of 4] by (simp_all add: w(4))
  with ne have "entry + 4 \<le> ?d \<or> ?d + 4 \<le> entry"
    using dvd_less_imp_add_le [of 4 entry ?d] dvd_less_imp_add_le [of 4 ?d entry] by linarith
  with w show ?thesis
    by (auto simp: walk_reference_Ok put_holds_word word_at_put_other)
qed

section \<open>The two outcomes\<close>

lemma translate_entry_outcome:
  "(\<exists>cause. translate_entry ops w m a acc user e x = walker_fault w m a acc user cause)
   \<or> (\<exists>m' p. translate_entry ops w m a acc user e x = (w, m', Ok p))"
  unfolding translate_entry_def Let_def by (auto split: sum.split option.split)

lemma translate_outcome:
  "(\<exists>cause. translate ops w m a acc user = walker_fault w m a acc user cause)
   \<or> (\<exists>m' p. translate ops w m a acc user = (w, m', Ok p))"
  unfolding translate_def Let_def using translate_entry_outcome [of ops w m a acc user]
  by (auto split: option.split)

lemma translate_Ok_walk:
  assumes "mmu_enabled w" and "is_page_aligned (mmu_ttbr0 w)"
    and tr: "translate physical_memory_ops w m a acc user = (w', m', Ok p)"
  obtains entry pte target where
    "walk_reference (word_at (mem_byte m)) (unat (pa_get (mmu_ttbr0 w))) (unat (va_get a)) acc user
       = Ok (entry, pte, target)"
    and "w' = w" and "p = PhysicalAddress (of_nat target)"
    and "if mark_access pte acc = pte then m' = m
         else mem_byte m' = put_bytes (mem_byte m) entry (u32_to_le_bytes (mark_access pte acc))"
proof -
  have "4096 dvd unat (pa_get (mmu_ttbr0 w))"
    using assms(2) by (simp add: is_page_aligned_iff)
  note ref = pm.translate_refines [OF assms(1) this, of m a acc user]
  show ?thesis
  proof (cases "walk_reference (word_at (mem_byte m)) (unat (pa_get (mmu_ttbr0 w))) (unat (va_get a)) acc user")
    case (Inl cause)
    with ref tr show ?thesis
      by (simp add: walker_fault_def Let_def)
  next
    case (Inr r)
    obtain entry pte target where r: "r = (entry, pte, target)"
      by (cases r) auto
    from ref Inr tr show ?thesis
      by (intro that [of entry pte target]) (auto simp: r split: if_splits)
  qed
qed

section \<open>Properties of the walker on physical memory\<close>

text \<open>A directory page at the start of RAM plus 64 KiB with one table and one user page.\<close>

definition sample_memory :: physical_memory where
  "sample_memory = memory_empty\<lparr>pm_ram := ((\<lambda>_. 0)(0x10000 := 0x01, 0x10001 := 0x10, 0x10002 := 0x01,
     0x10003 := 0x40, 0x11004 := 0x17, 0x11005 := 0x20, 0x11006 := 0x01, 0x11007 := 0x40))\<rparr>"

definition sample_mmu :: mmu where
  "sample_mmu = mmu_new\<lparr>mmu_enabled := True, mmu_ttbr0 := PhysicalAddress 0x40010000\<rparr>"

lemma sample_words:
  "word_at (mem_byte sample_memory) 0x40010000 = Some 0x40011001"
  "word_at (mem_byte sample_memory) 0x40011004 = Some 0x40012017"
  by (simp_all add: word_at_def mem_byte_def sample_memory_def)

lemma sample_walk:
  "walk_reference (word_at (mem_byte sample_memory)) 0x40010000 0x1abc Write True =
     Ok (0x40011004, 0x40012017, 0x40012abc)"
proof -
  have "bit (0x40012017 :: u32) 0" "bit (0x40012017 :: u32) 1" "bit (0x40012017 :: u32) 2"
    by simp_all
  moreover have "region_at 0x40012000 = Some Ram"
    by (simp add: region_at_def region_of_Some_bounds mem_layout)
  ultimately have "page_fault 0x40012017 0x40012000 Write True = None"
    by (simp add: page_fault_None is_device_def)
  then show ?thesis
    by (simp add: walk_reference_def sample_words aligned_page_def ram_page_def)
qed

lemma sample_mmu_on: "mmu_enabled sample_mmu" "is_page_aligned (mmu_ttbr0 sample_mmu)"
  by (simp_all add: sample_mmu_def mmu_new_def is_page_aligned_def)

lemma sample_translate:
  obtains m' where "translate physical_memory_ops sample_mmu sample_memory (VirtualAddress 0x1abc) Write True
    = (sample_mmu, m', Ok (PhysicalAddress 0x40012abc))"
  using pm.translate_refines [of sample_mmu sample_memory "VirtualAddress 0x1abc" Write True]
    sample_mmu_on sample_walk
  by (auto simp: sample_mmu_def is_page_aligned_iff)

text \<open>
  C1. With the MMU on and an aligned table base, \<open>MmuWalker::translate\<close> on physical memory is the
  documented walk: it faults exactly when the reference faults and with its cause, it returns
  the reference's address otherwise, and the only bytes it writes are those of the page-table
  entry, which becomes the old entry with the accessed bit and, for a write, the dirty bit.
\<close>

theorem translate_implements_walk:
  assumes "mmu_enabled w" and "is_page_aligned (mmu_ttbr0 w)"
  shows "case walk_reference (word_at (mem_byte m)) (unat (pa_get (mmu_ttbr0 w)))
        (unat (va_get a)) acc user of
      Inl cause \<Rightarrow> translate physical_memory_ops w m a acc user = walker_fault w m a acc user cause
    | Inr (entry, pte, target) \<Rightarrow>
        (\<exists>m'. translate physical_memory_ops w m a acc user = (w, m', Ok (PhysicalAddress (of_nat target)))
         \<and> word_at (mem_byte m) entry = Some pte
         \<and> (if mark_access pte acc = pte then m' = m
            else mem_byte m' = put_bytes (mem_byte m) entry (u32_to_le_bytes (mark_access pte acc))))"
  using assms by (intro pm.translate_refines) (simp_all add: is_page_aligned_iff)

theorem translate_implements_walk_witness:
  "\<exists>m'. translate physical_memory_ops sample_mmu sample_memory (VirtualAddress 0x1abc) Write True
       = (sample_mmu, m', Ok (PhysicalAddress 0x40012abc))
     \<and> word_at (mem_byte m') 0x40011004 = Some 0x40012077"
proof -
  have mark: "mark_access 0x40012017 Write = 0x40012077"
    by (simp add: mark_access_def set_bit_eq_or)
  from translate_implements_walk [OF sample_mmu_on, of sample_memory "VirtualAddress 0x1abc" Write True]
  show ?thesis
    by (auto simp: sample_walk sample_mmu_def mark put_holds_word)
qed

text \<open>
  Whatever the memory trait does, a translation that faults leaves memory as it was,
  records the fault it returns in the walker and changes nothing else there, and the status
  names the address, the direction and the mode of the access; one that succeeds leaves the
  walker as it was.
\<close>

theorem translate_frame:
  "case translate ops w m a acc user of
     (w', m', Inl f) \<Rightarrow> m' = m \<and> w' = w\<lparr>mmu_last_fault := Some f\<rparr> \<and> mf_address f = a
       \<and> fault_status_cause (mf_status f) \<noteq> None
       \<and> fs_from_user (mf_status f) = user
       \<and> fs_is_write (mf_status f) = (acc = Write)
       \<and> fs_is_fetch (mf_status f) = (acc = Fetch)
   | (w', m', Inr p) \<Rightarrow> w' = w"
  using translate_outcome [of ops w m a acc user] by (auto simp: walker_fault_def Let_def)

text \<open>
  C2. With the MMU on, a translation never yields an unmapped address, never one in a ROM for a
  write, and never a device register for a user-mode access.
\<close>

theorem translate_protects:
  assumes "mmu_enabled w" and "is_page_aligned (mmu_ttbr0 w)"
    and "translate physical_memory_ops w m a acc user = (w', m', Ok p)"
  shows "\<exists>r. region_of p = Some r \<and> (acc = Write \<longrightarrow> r \<noteq> BootRom \<and> r \<noteq> SystemRom)
     \<and> (user \<longrightarrow> \<not> is_device r)"
proof -
  from assms obtain entry pte target where
    walk: "walk_reference (word_at (mem_byte m)) (unat (pa_get (mmu_ttbr0 w))) (unat (va_get a)) acc user
       = Ok (entry, pte, target)" and p: "p = PhysicalAddress (of_nat target)"
    by (rule translate_Ok_walk)
  then have pf: "page_fault pte (aligned_page pte) acc user = None"
    and t: "target = aligned_page pte + unat (va_get a) mod 4096"
    by (auto simp: walk_reference_Ok)
  have "region_of p = region_at (aligned_page pte)"
    unfolding p t by (rule region_of_page_offset) simp
  with pf show ?thesis
    by (auto simp: page_fault_None)
qed

theorem translate_protects_witness:
  "\<exists>r. region_of (PhysicalAddress 0x40012abc) = Some r \<and> \<not> is_device r"
proof -
  obtain m' where "translate physical_memory_ops sample_mmu sample_memory (VirtualAddress 0x1abc) Write True
      = (sample_mmu, m', Ok (PhysicalAddress 0x40012abc))"
    by (rule sample_translate)
  from translate_protects [OF sample_mmu_on this] show ?thesis
    by auto
qed

text \<open>
  Translating the same access again, in the memory the first translation left, gives the same
  address and changes nothing more: setting the accessed and dirty bits never disturbs the walk,
  not even when the tables overlap the directory.
\<close>

theorem translate_idempotent:
  assumes "mmu_enabled w" and "is_page_aligned (mmu_ttbr0 w)"
    and "translate physical_memory_ops w m a acc user = (w', m', Ok p)"
  shows "translate physical_memory_ops w' m' a acc user = (w', m', Ok p)"
proof -
  from assms obtain entry pte target where
    walk: "walk_reference (word_at (mem_byte m)) (unat (pa_get (mmu_ttbr0 w))) (unat (va_get a)) acc user
       = Ok (entry, pte, target)" and w': "w' = w" and p: "p = PhysicalAddress (of_nat target)"
    and m': "if mark_access pte acc = pte then m' = m
         else mem_byte m' = put_bytes (mem_byte m) entry (u32_to_le_bytes (mark_access pte acc))"
    by (rule translate_Ok_walk)
  have al: "4096 dvd unat (pa_get (mmu_ttbr0 w))"
    using assms(2) by (simp add: is_page_aligned_iff)
  show ?thesis
  proof (cases "mark_access pte acc = pte")
    case True
    with m' assms(3) w' show ?thesis by simp
  next
    case False
    have "4 dvd unat (pa_get (mmu_ttbr0 w))"
      using al by (rule dvd_trans [rotated]) simp
    from walk_after_mark [OF walk this] False m'
    have "walk_reference (word_at (mem_byte m')) (unat (pa_get (mmu_ttbr0 w))) (unat (va_get a)) acc user
       = Ok (entry, mark_access pte acc, target)"
      by simp
    with pm.translate_refines [OF assms(1) al, of m' a acc user] show ?thesis
      by (simp add: w' p)
  qed
qed


theorem translate_idempotent_witness:
  "\<exists>m'. translate physical_memory_ops sample_mmu sample_memory (VirtualAddress 0x1abc) Write True
       = (sample_mmu, m', Ok (PhysicalAddress 0x40012abc))
     \<and> translate physical_memory_ops sample_mmu m' (VirtualAddress 0x1abc) Write True
       = (sample_mmu, m', Ok (PhysicalAddress 0x40012abc))"
proof -
  obtain m' where tr: "translate physical_memory_ops sample_mmu sample_memory (VirtualAddress 0x1abc) Write True
      = (sample_mmu, m', Ok (PhysicalAddress 0x40012abc))"
    by (rule sample_translate)
  from translate_idempotent [OF sample_mmu_on this] tr show ?thesis
    by blast
qed

section \<open>The registers of the walker\<close>

text \<open>The walkers that guest operations can produce: decoded CP15 writes and translations.\<close>

inductive mmu_reachable :: "mmu \<Rightarrow> bool" where
  start: "mmu_reachable mmu_new"
| ttbr: "mmu_reachable w \<Longrightarrow> cp15_set_ttbr0 v = Ok op \<Longrightarrow> mmu_reachable (apply_cp15 op w)"
| vbar: "mmu_reachable w \<Longrightarrow> cp15_set_vector_base v = Ok op \<Longrightarrow> mmu_reachable (apply_cp15 op w)"
| enable: "mmu_reachable w \<Longrightarrow> mmu_reachable (apply_cp15 (cp15_set_mmu_enabled v) w)"
| invalidate: "mmu_reachable w \<Longrightarrow> mmu_reachable (apply_cp15 InvalidateAll w)"
| walk: "mmu_reachable w \<Longrightarrow> translate physical_memory_ops w m a acc user = (w', m', r) \<Longrightarrow>
    mmu_reachable w'"
| device: "mmu_reachable w \<Longrightarrow> record_invalid_mmio_fault w a acc user = (w', f) \<Longrightarrow> mmu_reachable w'"

definition mmu_wf :: "mmu \<Rightarrow> bool" where
  "mmu_wf w \<longleftrightarrow> (mmu_ttbr0 w = PhysicalAddress 0
       \<or> is_page_aligned (mmu_ttbr0 w) \<and> region_of (mmu_ttbr0 w) = Some Ram)
     \<and> va_get (mmu_vector_base w) AND 0x1f = 0
     \<and> (\<forall>f. mmu_last_fault w = Some f \<longrightarrow> fault_status_from_raw (fs_raw (mf_status f)) = Ok (mf_status f))"

lemma fault_status_new_well_formed:
  "fault_status_from_raw (fs_raw (fault_status_new cause user acc)) = Ok (fault_status_new cause user acc)"
  by (cases cause; cases user; cases acc;
      simp add: fault_status_new_def fault_status_from_raw_def fault_status_cause_def Let_def)

text \<open>
  Every walker that guest operations can produce has a table base that is either the reset
  value or an aligned page of RAM, a 32-byte aligned vector base, and a last fault whose encoded
  status the status decoder accepts.
\<close>

theorem reachable_mmu_wf:
  assumes "mmu_reachable w"
  shows "mmu_wf w"
  using assms
proof induction
  case start
  show ?case by (simp add: mmu_wf_def mmu_new_def)
next
  case (ttbr w v op)
  then show ?case
    by (auto simp: mmu_wf_def cp15_set_ttbr0_def and_then_Ok set_ttbr0_def Let_def
        validate_page_table_page_Ok is_page_aligned_iff)
next
  case (vbar w v op)
  then show ?case
    by (auto simp: mmu_wf_def cp15_set_vector_base_def split: if_splits)
next
  case (enable w v)
  then show ?case
    by (simp add: mmu_wf_def cp15_set_mmu_enabled_def set_mmu_enabled_def)
next
  case (invalidate w)
  then show ?case
    by (simp add: invalidate_all_def)
next
  case (walk w m a acc user w' m' r)
  then show ?case
    using translate_outcome [of physical_memory_ops w m a acc user]
    by (auto simp: mmu_wf_def walker_fault_def Let_def fault_status_new_well_formed)
next
  case (device w a acc user w' f)
  then show ?case
    by (auto simp: mmu_wf_def record_invalid_mmio_fault_def Let_def fault_status_new_well_formed)
qed

theorem reachable_mmu_wf_witness: "mmu_wf (apply_cp15 (SetTtbr0 (PhysicalAddress 0x40010000)) mmu_new)"
proof -
  have "cp15_set_ttbr0 0x40010000 = Ok (SetTtbr0 (PhysicalAddress 0x40010000))"
    using validate_page_table_page_Ok [of "PhysicalAddress 0x40010000"]
    by (auto simp: cp15_set_ttbr0_def Let_def and_then_Ok region_of_Some_bounds mem_layout)
  then show ?thesis
    using reachable_mmu_wf mmu_reachable.ttbr mmu_reachable.start by blast
qed

end
