(* ===== verification/Platform_Mmio.thy ===== *)
theory Platform_Mmio
  imports Platform_Address
begin

text \<open>
  The register files of the peripherals (\<open>minemu-platform/src/peripherals\<close>) and the MMIO
  decoder (\<open>mmio.rs\<close>). Every peripheral has its offsets, its access permissions and its
  check of written values; the decoder combines them into one typed register. The decoder
  is shown equivalent to the documented register table.
\<close>

section \<open>Interrupt controller registers\<close>

datatype interrupt_register =
    IntPending | IntEnable | IntClaim | IntEoi
  | IntPrioritySysTick | IntPriorityUart0 | IntPriorityUart1 | IntPriorityBlock

datatype source = SrcSysTick | SrcUart0 | SrcUart1 | SrcBlock

fun source_id :: "source \<Rightarrow> u32" where
  "source_id SrcSysTick = 0"
| "source_id SrcUart0 = 1"
| "source_id SrcUart1 = 2"
| "source_id SrcBlock = 3"

definition source_bit :: "source \<Rightarrow> u32" where
  "source_bit s = push_bit (unat (source_id s)) 1"

definition DEFAULT_PRIORITY_SYSTICK :: u8 where "DEFAULT_PRIORITY_SYSTICK = 0"
definition DEFAULT_PRIORITY_UART0 :: u8 where "DEFAULT_PRIORITY_UART0 = 64"
definition DEFAULT_PRIORITY_UART1 :: u8 where "DEFAULT_PRIORITY_UART1 = 64"
definition DEFAULT_PRIORITY_BLOCK :: u8 where "DEFAULT_PRIORITY_BLOCK = 128"

definition invalid_value :: "string \<Rightarrow> u32 \<Rightarrow> platform_error + unit" where
  "invalid_value register value = Err (InvalidMmioValue register value)"

definition interrupt_register_decode :: "u32 \<Rightarrow> interrupt_register option" where
  "interrupt_register_decode offset =
     (if offset = 0x00 then Some IntPending
      else if offset = 0x04 then Some IntEnable
      else if offset = 0x08 then Some IntClaim
      else if offset = 0x0c then Some IntEoi
      else if offset = 0x10 then Some IntPrioritySysTick
      else if offset = 0x14 then Some IntPriorityUart0
      else if offset = 0x18 then Some IntPriorityUart1
      else if offset = 0x1c then Some IntPriorityBlock
      else None)"

definition interrupt_register_permissions :: "interrupt_register \<Rightarrow> permissions" where
  "interrupt_register_permissions r = (case r of
     IntPending \<Rightarrow> PERM_READ | IntClaim \<Rightarrow> PERM_READ
   | IntEoi \<Rightarrow> PERM_WRITE
   | _ \<Rightarrow> perm_union PERM_READ PERM_WRITE)"

definition interrupt_register_validate :: "interrupt_register \<Rightarrow> u32 \<Rightarrow> platform_error + unit" where
  "interrupt_register_validate r value =
     (let valid = (case r of
         IntEnable \<Rightarrow> value AND NOT 0x0f = 0
       | IntPrioritySysTick \<Rightarrow> value AND NOT 0xff = 0
       | IntPriorityUart0 \<Rightarrow> value AND NOT 0xff = 0
       | IntPriorityUart1 \<Rightarrow> value AND NOT 0xff = 0
       | IntPriorityBlock \<Rightarrow> value AND NOT 0xff = 0
       | _ \<Rightarrow> True)
      in if valid then Ok () else invalid_value ''interrupt controller register'' value)"

section \<open>SysTick registers\<close>

datatype systick_register = TickPeriod | TickControl | TickStatus | TickAck

definition systick_register_decode :: "u32 \<Rightarrow> systick_register option" where
  "systick_register_decode offset =
     (if offset = 0x00 then Some TickPeriod
      else if offset = 0x04 then Some TickControl
      else if offset = 0x08 then Some TickStatus
      else if offset = 0x0c then Some TickAck
      else None)"

definition systick_register_permissions :: "systick_register \<Rightarrow> permissions" where
  "systick_register_permissions r = (case r of
     TickStatus \<Rightarrow> PERM_READ
   | TickAck \<Rightarrow> PERM_WRITE
   | _ \<Rightarrow> perm_union PERM_READ PERM_WRITE)"

definition systick_register_validate :: "systick_register \<Rightarrow> u32 \<Rightarrow> platform_error + unit" where
  "systick_register_validate r value =
     (let valid = (case r of
         TickPeriod \<Rightarrow> value \<noteq> 0
       | TickControl \<Rightarrow> value AND NOT 0x07 = 0
       | TickAck \<Rightarrow> value = 1
       | _ \<Rightarrow> True)
      in if valid then Ok () else invalid_value ''SysTick register'' value)"

section \<open>Block-device registers\<close>

datatype block_register =
    BlkCommand | BlkLba | BlkSectorCount | BlkPhysicalAddress | BlkStatus | BlkError
  | BlkAck | BlkControl | BlkUnit

definition UNIT_FILESYSTEM :: u32 where "UNIT_FILESYSTEM = 0"
definition UNIT_SWAP :: u32 where "UNIT_SWAP = 1"
definition UNIT_COUNT :: usize where "UNIT_COUNT = 2"
definition STATUS_BUSY :: u32 where "STATUS_BUSY = push_bit 0 1"
definition STATUS_COMPLETE :: u32 where "STATUS_COMPLETE = push_bit 1 1"
definition STATUS_ERROR :: u32 where "STATUS_ERROR = push_bit 2 1"

datatype block_error =
    NoError | NoMedia | Busy | InvalidCommand | InvalidDma | InvalidLba
  | DeferredPersistence | InvalidUnit

fun block_error_code :: "block_error \<Rightarrow> u32" where
  "block_error_code NoError = 0"
| "block_error_code NoMedia = 1"
| "block_error_code Busy = 2"
| "block_error_code InvalidCommand = 3"
| "block_error_code InvalidDma = 4"
| "block_error_code InvalidLba = 5"
| "block_error_code DeferredPersistence = 6"
| "block_error_code InvalidUnit = 7"

definition block_register_decode :: "u32 \<Rightarrow> block_register option" where
  "block_register_decode offset =
     (if offset = 0x00 then Some BlkCommand
      else if offset = 0x04 then Some BlkLba
      else if offset = 0x08 then Some BlkSectorCount
      else if offset = 0x0c then Some BlkPhysicalAddress
      else if offset = 0x10 then Some BlkStatus
      else if offset = 0x14 then Some BlkError
      else if offset = 0x18 then Some BlkAck
      else if offset = 0x1c then Some BlkControl
      else if offset = 0x20 then Some BlkUnit
      else None)"

definition block_register_permissions :: "block_register \<Rightarrow> permissions" where
  "block_register_permissions r = (case r of
     BlkStatus \<Rightarrow> PERM_READ | BlkError \<Rightarrow> PERM_READ
   | BlkCommand \<Rightarrow> PERM_WRITE | BlkAck \<Rightarrow> PERM_WRITE
   | _ \<Rightarrow> perm_union PERM_READ PERM_WRITE)"

definition block_register_validate :: "block_register \<Rightarrow> u32 \<Rightarrow> platform_error + unit" where
  "block_register_validate r value =
     (if (r = BlkAck \<and> value \<noteq> 1) \<or> (r = BlkControl \<and> value AND NOT 1 \<noteq> 0)
      then invalid_value ''block-device register'' value
      else Ok ())"

section \<open>RNG, UART and trace registers\<close>

definition DEFAULT_SEED :: u32 where "DEFAULT_SEED = 0x4d454d55"

datatype rng_register = RngSeed | RngData | RngState

definition rng_register_decode :: "u32 \<Rightarrow> rng_register option" where
  "rng_register_decode offset =
     (if offset = 0x00 then Some RngSeed
      else if offset = 0x04 then Some RngData
      else if offset = 0x08 then Some RngState
      else None)"

definition rng_register_permissions :: "rng_register \<Rightarrow> permissions" where
  "rng_register_permissions r = (case r of
     RngSeed \<Rightarrow> perm_union PERM_READ PERM_WRITE
   | RngData \<Rightarrow> PERM_READ
   | RngState \<Rightarrow> PERM_READ)"

definition rng_register_validate :: "rng_register \<Rightarrow> u32 \<Rightarrow> platform_error + unit" where
  "rng_register_validate r value = Ok ()"

datatype uart_register = UartReceiveData | UartTransmitData | UartStatus | UartControl

definition uart_register_decode :: "u32 \<Rightarrow> uart_register option" where
  "uart_register_decode offset =
     (if offset = 0x00 then Some UartReceiveData
      else if offset = 0x04 then Some UartTransmitData
      else if offset = 0x08 then Some UartStatus
      else if offset = 0x0c then Some UartControl
      else None)"

definition uart_register_permissions :: "uart_register \<Rightarrow> permissions" where
  "uart_register_permissions r = (case r of
     UartReceiveData \<Rightarrow> PERM_READ | UartStatus \<Rightarrow> PERM_READ
   | UartTransmitData \<Rightarrow> PERM_WRITE
   | UartControl \<Rightarrow> perm_union PERM_READ PERM_WRITE)"

definition uart_register_validate :: "uart_register \<Rightarrow> u32 \<Rightarrow> platform_error + unit" where
  "uart_register_validate r value =
     (let valid = (case r of
         UartTransmitData \<Rightarrow> value AND NOT 0xff = 0
       | UartControl \<Rightarrow> value AND NOT 1 = 0
       | _ \<Rightarrow> True)
      in if valid then Ok () else invalid_value ''UART register'' value)"

datatype trace_register = TraceEventReg

definition trace_register_decode :: "u32 \<Rightarrow> trace_register option" where
  "trace_register_decode offset = (if offset = 0 then Some TraceEventReg else None)"

definition trace_register_permissions :: "trace_register \<Rightarrow> permissions" where
  "trace_register_permissions r = PERM_WRITE"

definition trace_register_validate :: "trace_register \<Rightarrow> u32 \<Rightarrow> platform_error + unit" where
  "trace_register_validate r value = Ok ()"

section \<open>Transactions and decoding\<close>

datatype mmio_width = WidthU8 | WidthU16 | WidthU32 | WidthU64

fun mmio_width_code :: "mmio_width \<Rightarrow> u8" where
  "mmio_width_code WidthU8 = 1"
| "mmio_width_code WidthU16 = 2"
| "mmio_width_code WidthU32 = 4"
| "mmio_width_code WidthU64 = 8"

definition mmio_width_try_from :: "usize \<Rightarrow> usize + mmio_width" where
  "mmio_width_try_from value =
     (if value = 1 then Ok WidthU8
      else if value = 2 then Ok WidthU16
      else if value = 4 then Ok WidthU32
      else if value = 8 then Ok WidthU64
      else Err value)"

record mmio_transaction =
  tx_address :: physical_address
  tx_width :: mmio_width
  tx_access :: access
  tx_value :: u32

definition mmio_read :: "physical_address \<Rightarrow> mmio_width \<Rightarrow> mmio_transaction" where
  "mmio_read a w = \<lparr>tx_address = a, tx_width = w, tx_access = Read, tx_value = 0\<rparr>"

definition mmio_write :: "physical_address \<Rightarrow> mmio_width \<Rightarrow> u32 \<Rightarrow> mmio_transaction" where
  "mmio_write a w v = \<lparr>tx_address = a, tx_width = w, tx_access = Write, tx_value = v\<rparr>"

datatype mmio_register =
    RegInterrupt interrupt_register
  | RegSysTick systick_register
  | RegDma block_register
  | RegRng rng_register
  | RegUart0 uart_register
  | RegUart1 uart_register
  | RegTrace trace_register

definition mmio_register_decode :: "mem_region \<Rightarrow> u32 \<Rightarrow> mmio_register option" where
  "mmio_register_decode region offset = (case region of
     InterruptCtl \<Rightarrow> map_option RegInterrupt (interrupt_register_decode offset)
   | SysTickRegion \<Rightarrow> map_option RegSysTick (systick_register_decode offset)
   | DmaRegion \<Rightarrow> map_option RegDma (block_register_decode offset)
   | RngRegion \<Rightarrow> map_option RegRng (rng_register_decode offset)
   | Uart0Region \<Rightarrow> map_option RegUart0 (uart_register_decode offset)
   | Uart1Region \<Rightarrow> map_option RegUart1 (uart_register_decode offset)
   | TraceRegion \<Rightarrow> map_option RegTrace (trace_register_decode offset)
   | _ \<Rightarrow> None)"

fun mmio_register_permissions :: "mmio_register \<Rightarrow> permissions" where
  "mmio_register_permissions (RegInterrupt r) = interrupt_register_permissions r"
| "mmio_register_permissions (RegSysTick r) = systick_register_permissions r"
| "mmio_register_permissions (RegDma r) = block_register_permissions r"
| "mmio_register_permissions (RegRng r) = rng_register_permissions r"
| "mmio_register_permissions (RegUart0 r) = uart_register_permissions r"
| "mmio_register_permissions (RegUart1 r) = uart_register_permissions r"
| "mmio_register_permissions (RegTrace r) = trace_register_permissions r"

fun mmio_register_validate :: "mmio_register \<Rightarrow> u32 \<Rightarrow> platform_error + unit" where
  "mmio_register_validate (RegInterrupt r) v = interrupt_register_validate r v"
| "mmio_register_validate (RegSysTick r) v = systick_register_validate r v"
| "mmio_register_validate (RegDma r) v = block_register_validate r v"
| "mmio_register_validate (RegRng r) v = rng_register_validate r v"
| "mmio_register_validate (RegUart0 r) v = uart_register_validate r v"
| "mmio_register_validate (RegUart1 r) v = uart_register_validate r v"
| "mmio_register_validate (RegTrace r) v = trace_register_validate r v"

definition decode_mmio :: "mmio_transaction \<Rightarrow> platform_error + mmio_register" where
  "decode_mmio t =
     (let address = pa_get (tx_address t) in
      if tx_width t \<noteq> WidthU32 then Err (InvalidMmioWidth (mmio_width_code (tx_width t)))
      else if address AND 3 \<noteq> 0 then Err (UnalignedMmioAddress address)
      else if \<not> (tx_access t = Read \<or> tx_access t = Write) then Err InvalidMmioDirection
      else case region_of (tx_address t) of
        None \<Rightarrow> Err (InvalidMmioAddress address)
      | Some region \<Rightarrow>
          let offset = address - pa_get (mem_base region) in
          and_then (ok_or (mmio_register_decode region offset) (InvalidMmioAddress address)) (\<lambda>register.
            if \<not> permits (mmio_register_permissions register) (tx_access t) False
            then Err InvalidMmioDirection
            else if tx_access t = Write
              then and_then (mmio_register_validate register (tx_value t)) (\<lambda>_. Ok register)
              else Ok register))"

section \<open>The documented register table\<close>

text \<open>
  The register tables of \<open>docs/platform/devices-v1.md\<close> and \<open>devices-v2.md\<close>: each register
  with its physical address and whether it may be read and written.
\<close>

definition documented_registers :: "(mmio_register \<times> u32 \<times> bool \<times> bool) list" where
  "documented_registers =
    [(RegInterrupt IntPending, 0x10000000, True, False),
     (RegInterrupt IntEnable, 0x10000004, True, True),
     (RegInterrupt IntClaim, 0x10000008, True, False),
     (RegInterrupt IntEoi, 0x1000000c, False, True),
     (RegInterrupt IntPrioritySysTick, 0x10000010, True, True),
     (RegInterrupt IntPriorityUart0, 0x10000014, True, True),
     (RegInterrupt IntPriorityUart1, 0x10000018, True, True),
     (RegInterrupt IntPriorityBlock, 0x1000001c, True, True),
     (RegSysTick TickPeriod, 0x10001000, True, True),
     (RegSysTick TickControl, 0x10001004, True, True),
     (RegSysTick TickStatus, 0x10001008, True, False),
     (RegSysTick TickAck, 0x1000100c, False, True),
     (RegDma BlkCommand, 0x10002000, False, True),
     (RegDma BlkLba, 0x10002004, True, True),
     (RegDma BlkSectorCount, 0x10002008, True, True),
     (RegDma BlkPhysicalAddress, 0x1000200c, True, True),
     (RegDma BlkStatus, 0x10002010, True, False),
     (RegDma BlkError, 0x10002014, True, False),
     (RegDma BlkAck, 0x10002018, False, True),
     (RegDma BlkControl, 0x1000201c, True, True),
     (RegDma BlkUnit, 0x10002020, True, True),
     (RegRng RngSeed, 0x10003000, True, True),
     (RegRng RngData, 0x10003004, True, False),
     (RegRng RngState, 0x10003008, True, False),
     (RegUart0 UartReceiveData, 0x10004000, True, False),
     (RegUart0 UartTransmitData, 0x10004004, False, True),
     (RegUart0 UartStatus, 0x10004008, True, False),
     (RegUart0 UartControl, 0x1000400c, True, True),
     (RegUart1 UartReceiveData, 0x10005000, True, False),
     (RegUart1 UartTransmitData, 0x10005004, False, True),
     (RegUart1 UartStatus, 0x10005008, True, False),
     (RegUart1 UartControl, 0x1000500c, True, True),
     (RegTrace TraceEventReg, 0x1000f000, False, True)]"

text \<open>The values the documents allow a register to be written with.\<close>

definition documented_value :: "mmio_register \<Rightarrow> u32 \<Rightarrow> bool" where
  "documented_value r v = (case r of
     RegInterrupt IntEnable \<Rightarrow> unat v \<le> 15
   | RegInterrupt IntPrioritySysTick \<Rightarrow> unat v \<le> 255
   | RegInterrupt IntPriorityUart0 \<Rightarrow> unat v \<le> 255
   | RegInterrupt IntPriorityUart1 \<Rightarrow> unat v \<le> 255
   | RegInterrupt IntPriorityBlock \<Rightarrow> unat v \<le> 255
   | RegSysTick TickPeriod \<Rightarrow> v \<noteq> 0
   | RegSysTick TickControl \<Rightarrow> unat v \<le> 7
   | RegSysTick TickAck \<Rightarrow> v = 1
   | RegDma BlkAck \<Rightarrow> v = 1
   | RegDma BlkControl \<Rightarrow> unat v \<le> 1
   | RegUart0 UartTransmitData \<Rightarrow> unat v \<le> 255
   | RegUart0 UartControl \<Rightarrow> unat v \<le> 1
   | RegUart1 UartTransmitData \<Rightarrow> unat v \<le> 255
   | RegUart1 UartControl \<Rightarrow> unat v \<le> 1
   | _ \<Rightarrow> True)"

lemmas register_decode_defs = mmio_register_decode_def interrupt_register_decode_def
  systick_register_decode_def block_register_decode_def rng_register_decode_def
  uart_register_decode_def trace_register_decode_def

lemmas register_permissions_defs = interrupt_register_permissions_def
  systick_register_permissions_def block_register_permissions_def rng_register_permissions_def
  uart_register_permissions_def trace_register_permissions_def

lemmas register_validate_defs = interrupt_register_validate_def systick_register_validate_def
  block_register_validate_def rng_register_validate_def uart_register_validate_def
  trace_register_validate_def invalid_value_def

lemma mmio_register_validate_documented:
  "mmio_register_validate r v = Ok u \<longleftrightarrow> documented_value r v"
  by (cases r; simp add: register_validate_defs documented_value_def Let_def u32_and_not_consts;
      auto simp: u32_and_not_consts split: interrupt_register.splits systick_register.splits block_register.splits
        uart_register.splits)

definition reg_readable :: "mmio_register \<Rightarrow> bool" where
  "reg_readable r = permits (mmio_register_permissions r) Read False"

definition reg_writable :: "mmio_register \<Rightarrow> bool" where
  "reg_writable r = permits (mmio_register_permissions r) Write False"

lemma documented_registers_permissions:
  "(r, a, rd, wr) \<in> set documented_registers \<Longrightarrow> rd = reg_readable r \<and> wr = reg_writable r"
  unfolding documented_registers_def
  by (simp only: list.set insert_iff empty_iff prod.inject, elim disjE conjE FalseE)
     (simp_all add: reg_readable_def reg_writable_def permits_def perm_contains_def perm_union_def
        perm_consts register_permissions_defs)

text \<open>A register is decoded from an address exactly when the table lists it there.\<close>

definition decode_at :: "u32 \<Rightarrow> mmio_register option" where
  "decode_at a = (case region_of (PhysicalAddress a) of
     None \<Rightarrow> None
   | Some region \<Rightarrow> mmio_register_decode region (a - pa_get (mem_base region)))"

lemma mmio_register_decode_documented:
  "mmio_register_decode region (a - pa_get (mem_base region)) = Some r \<Longrightarrow>
   (r, a, reg_readable r, reg_writable r) \<in> set documented_registers"
  by (cases region; simp add: register_decode_defs mem_base_def mem_range.simps from_known_valid_def
        mmap_consts;
      auto simp: documented_registers_def diff_eq_eq reg_readable_def reg_writable_def permits_def
        perm_contains_def perm_union_def perm_consts register_permissions_defs split: if_splits)

lemma decode_at_documented:
  "decode_at a = Some r \<longleftrightarrow> (r, a, reg_readable r, reg_writable r) \<in> set documented_registers"
proof
  assume "decode_at a = Some r"
  then show "(r, a, reg_readable r, reg_writable r) \<in> set documented_registers"
    by (auto simp: decode_at_def split: option.splits intro: mmio_register_decode_documented)
next
  assume "(r, a, reg_readable r, reg_writable r) \<in> set documented_registers"
  then have "(r, a) \<in> set (map (\<lambda>(r, a, _). (r, a)) documented_registers)"
    by force
  then show "decode_at a = Some r"
    unfolding documented_registers_def list.map prod.case list.set insert_iff empty_iff prod.inject
    by (elim disjE conjE FalseE)
       (simp_all add: decode_at_def region_of_def contains_address_def end_exclusive_def
          mem_range.simps from_known_valid_def mmap_consts mem_base_def register_decode_defs)
qed

lemma decode_at_aligned: "decode_at a = Some r \<Longrightarrow> a AND 3 = 0"
  unfolding decode_at_documented documented_registers_def list.set insert_iff empty_iff prod.inject
  by (elim disjE conjE FalseE) simp_all

lemma decode_mmio_Ok:
  "decode_mmio t = Ok r \<longleftrightarrow>
     tx_width t = WidthU32 \<and> decode_at (pa_get (tx_address t)) = Some r
     \<and> (tx_access t = Read \<and> reg_readable r
        \<or> tx_access t = Write \<and> reg_writable r \<and> documented_value r (tx_value t))"
proof (cases "tx_width t = WidthU32 \<and> pa_get (tx_address t) AND 3 = 0")
  case True
  then show ?thesis
    by (cases "tx_access t")
       (auto simp: decode_mmio_def Let_def decode_at_def and_then_Ok ok_or_Ok reg_readable_def
          reg_writable_def mmio_register_validate_documented split: option.splits)
next
  case False
  then show ?thesis
    by (auto simp: decode_mmio_def Let_def dest: decode_at_aligned)
qed

text \<open>
  C29. The MMIO decoder accepts a transaction exactly when it is a 32-bit access to a register
  of the documented table, in a direction the table permits and, for a write, with a value
  the register definition allows; the register it returns is the one the table lists at that
  address. Every other width, offset, direction, instruction fetch and value is refused.
\<close>

theorem decode_mmio_conforms:
  "decode_mmio t = Ok r \<longleftrightarrow>
     tx_width t = WidthU32
     \<and> (\<exists>rd wr. (r, pa_get (tx_address t), rd, wr) \<in> set documented_registers
          \<and> (tx_access t = Read \<and> rd
             \<or> tx_access t = Write \<and> wr \<and> documented_value r (tx_value t)))"
  unfolding decode_mmio_Ok decode_at_documented
  using documented_registers_permissions by blast

end
