(* ===== verification/Core_Interrupt.thy ===== *)
theory Core_Interrupt
  imports Core_Memory Platform_Mmio "HOL-Library.Product_Lexorder"
begin

text \<open>
  The interrupt controller of \<open>minemu-core\<close> (\<open>interrupt.rs\<close>) and the contract that the three
  kinds of interrupting peripheral share. The channel from the peripherals is the list of
  signals sent and not yet received, kept with the controller that owns its receiving end.
\<close>

section \<open>Sources are ordered by their number\<close>

instantiation source :: linorder
begin

definition less_eq_source :: "source \<Rightarrow> source \<Rightarrow> bool" where
  "less_eq_source s t \<longleftrightarrow> source_id s \<le> source_id t"

definition less_source :: "source \<Rightarrow> source \<Rightarrow> bool" where
  "less_source s t \<longleftrightarrow> source_id s < source_id t"

lemma source_id_inj: "source_id s = source_id t \<longleftrightarrow> s = t"
  by (cases s; cases t) simp_all

instance
proof
  fix s t u :: source
  show "s < t \<longleftrightarrow> s \<le> t \<and> \<not> t \<le> s" and "s \<le> s" and "s \<le> t \<or> t \<le> s"
    by (auto simp: less_eq_source_def less_source_def)
  show "s \<le> t \<Longrightarrow> t \<le> u \<Longrightarrow> s \<le> u"
    by (simp add: less_eq_source_def)
  show "s \<le> t \<Longrightarrow> t \<le> s \<Longrightarrow> s = t"
    by (metis less_eq_source_def order_antisym source_id_inj)
qed

end

definition all_sources :: "source list" where
  "all_sources = [SrcSysTick, SrcUart0, SrcUart1, SrcBlock]"

lemma set_all_sources [simp]: "s \<in> set all_sources"
  by (cases s) (simp_all add: all_sources_def)

instance source :: finite
proof
  have "(UNIV :: source set) \<subseteq> set all_sources" by auto
  then show "finite (UNIV :: source set)" by (rule finite_subset) simp
qed

definition source_index :: "source \<Rightarrow> nat" where
  "source_index s = unat (source_id s)"

lemma source_index_simps [simp]:
  "source_index SrcSysTick = 0" "source_index SrcUart0 = 1"
  "source_index SrcUart1 = 2" "source_index SrcBlock = 3"
  by (simp_all add: source_index_def)

lemma source_index_lt: "source_index s < 4"
  by (cases s) simp_all

lemma source_index_inj: "source_index s = source_index t \<longleftrightarrow> s = t"
  by (cases s; cases t) simp_all

lemma source_bit_index: "source_bit s = push_bit (source_index s) 1"
  by (simp add: source_bit_def source_index_def)

section \<open>State and operations\<close>

record interrupt_signal =
  sig_source :: source
  sig_pending :: bool

record interrupt_controller =
  ic_receiver :: "interrupt_signal list"
  ic_pending :: u32
  ic_enabled :: u32
  ic_priorities :: "u8 list"
  ic_claim :: "source option"

definition interrupt_controller_new :: interrupt_controller where
  "interrupt_controller_new = \<lparr>ic_receiver = [], ic_pending = 0, ic_enabled = 0,
     ic_priorities = [DEFAULT_PRIORITY_SYSTICK, DEFAULT_PRIORITY_UART0, DEFAULT_PRIORITY_UART1,
       DEFAULT_PRIORITY_BLOCK],
     ic_claim = None\<rparr>"

definition apply_signal :: "interrupt_signal \<Rightarrow> u32 \<Rightarrow> u32" where
  "apply_signal s pending =
     (if sig_pending s then pending OR source_bit (sig_source s)
      else pending AND NOT (source_bit (sig_source s)))"

fun drain_signals :: "interrupt_signal list \<Rightarrow> u32 \<Rightarrow> u32" where
  "drain_signals [] pending = pending"
| "drain_signals (s # ss) pending = drain_signals ss (apply_signal s pending)"

definition process_signals :: "interrupt_controller \<Rightarrow> interrupt_controller" where
  "process_signals ic =
     ic\<lparr>ic_pending := drain_signals (ic_receiver ic) (ic_pending ic), ic_receiver := []\<rparr>"

definition deliver_signals :: "interrupt_signal list \<Rightarrow> interrupt_controller \<Rightarrow> interrupt_controller" where
  "deliver_signals ss ic = ic\<lparr>ic_receiver := ic_receiver ic @ ss\<rparr>"

definition ic_read_pending :: "interrupt_controller \<Rightarrow> interrupt_controller \<times> u32" where
  "ic_read_pending ic = (let ic = process_signals ic in (ic, ic_pending ic))"

definition ic_set_enabled :: "u32 \<Rightarrow> interrupt_controller \<Rightarrow> interrupt_controller" where
  "ic_set_enabled enabled ic = ic\<lparr>ic_enabled := enabled AND 0x0f\<rparr>"

definition ic_priority :: "interrupt_controller \<Rightarrow> source \<Rightarrow> u8" where
  "ic_priority ic s = ic_priorities ic ! source_index s"

definition ic_set_priority :: "source \<Rightarrow> u8 \<Rightarrow> interrupt_controller \<Rightarrow> interrupt_controller" where
  "ic_set_priority s p ic = ic\<lparr>ic_priorities := (ic_priorities ic)[source_index s := p]\<rparr>"

text \<open>\<open>Iterator::min_by_key\<close>: the first element with the least key.\<close>

fun min_by_key :: "('a \<Rightarrow> 'k::linorder) \<Rightarrow> 'a list \<Rightarrow> 'a option" where
  "min_by_key key [] = None"
| "min_by_key key (x # xs) = (case min_by_key key xs of
     None \<Rightarrow> Some x
   | Some y \<Rightarrow> if key x \<le> key y then Some x else Some y)"

definition ic_do_claim :: "interrupt_controller \<Rightarrow> interrupt_controller \<times> source option" where
  "ic_do_claim ic =
     (let ic = process_signals ic;
          ic = (if ic_claim ic = None
                then ic\<lparr>ic_claim := min_by_key (\<lambda>s. (ic_priority ic s, source_id s))
                       (filter (\<lambda>s. ic_pending ic AND ic_enabled ic AND source_bit s \<noteq> 0) all_sources)\<rparr>
                else ic)
      in (ic, ic_claim ic))"

definition ic_eoi :: "u32 \<Rightarrow> interrupt_controller \<Rightarrow> core_error + interrupt_controller" where
  "ic_eoi src ic =
     and_then (ok_or (map_option source_id (ic_claim ic)) (InvalidEoi u32_max src)) (\<lambda>expected.
       if src \<noteq> expected then Err (InvalidEoi expected src)
       else Ok (ic\<lparr>ic_claim := None\<rparr>))"

definition ic_read :: "interrupt_register \<Rightarrow> interrupt_controller \<Rightarrow> interrupt_controller \<times> u32" where
  "ic_read r ic = (case r of
     IntPending \<Rightarrow> ic_read_pending ic
   | IntEnable \<Rightarrow> (ic, ic_enabled ic)
   | IntClaim \<Rightarrow> (let (ic', c) = ic_do_claim ic in
       (ic', case c of Some s \<Rightarrow> source_id s | None \<Rightarrow> u32_max))
   | IntPrioritySysTick \<Rightarrow> (ic, ucast (ic_priority ic SrcSysTick))
   | IntPriorityUart0 \<Rightarrow> (ic, ucast (ic_priority ic SrcUart0))
   | IntPriorityUart1 \<Rightarrow> (ic, ucast (ic_priority ic SrcUart1))
   | IntPriorityBlock \<Rightarrow> (ic, ucast (ic_priority ic SrcBlock))
   | IntEoi \<Rightarrow> (ic, 0))"

definition ic_write ::
  "interrupt_register \<Rightarrow> u32 \<Rightarrow> interrupt_controller \<Rightarrow> core_error + interrupt_controller" where
  "ic_write r value ic = (case r of
     IntEnable \<Rightarrow> Ok (ic_set_enabled value ic)
   | IntEoi \<Rightarrow> ic_eoi value ic
   | IntPrioritySysTick \<Rightarrow> Ok (ic_set_priority SrcSysTick (ucast value) ic)
   | IntPriorityUart0 \<Rightarrow> Ok (ic_set_priority SrcUart0 (ucast value) ic)
   | IntPriorityUart1 \<Rightarrow> Ok (ic_set_priority SrcUart1 (ucast value) ic)
   | IntPriorityBlock \<Rightarrow> Ok (ic_set_priority SrcBlock (ucast value) ic)
   | _ \<Rightarrow> Ok ic)"

record interrupt_inspection =
  ii_pending :: u32
  ii_enabled :: u32
  ii_claim :: "u32 option"
  ii_priorities :: "u8 list"

definition ic_inspect :: "interrupt_controller \<Rightarrow> interrupt_inspection" where
  "ic_inspect ic = \<lparr>ii_pending = ic_pending ic, ii_enabled = ic_enabled ic,
     ii_claim = map_option source_id (ic_claim ic), ii_priorities = ic_priorities ic\<rparr>"

section \<open>The pending bitmap\<close>

text \<open>A source is pending when its bit is set; the last signal of a source decides it.\<close>

definition pending_source :: "u32 \<Rightarrow> source \<Rightarrow> bool" where
  "pending_source p s = bit p (source_index s)"

fun signalled :: "source \<Rightarrow> interrupt_signal list \<Rightarrow> bool \<Rightarrow> bool" where
  "signalled s [] b = b"
| "signalled s (g # gs) b = signalled s gs (if sig_source g = s then sig_pending g else b)"

lemma bit_apply_signal:
  "k < 32 \<Longrightarrow> bit (apply_signal g p) k \<longleftrightarrow>
     (if k = source_index (sig_source g) then sig_pending g else bit p k)"
  by (auto simp: apply_signal_def source_bit_index bit_simps)

lemma pending_apply_signal:
  "pending_source (apply_signal g p) s = (if sig_source g = s then sig_pending g else pending_source p s)"
  using source_index_lt [of s]
  by (auto simp: pending_source_def bit_apply_signal source_index_inj)

lemma pending_drain_signals:
  "pending_source (drain_signals gs p) s = signalled s gs (pending_source p s)"
  by (induction gs arbitrary: p) (simp_all add: pending_apply_signal)

lemma drain_signals_append [simp]: "drain_signals (gs @ hs) p = drain_signals hs (drain_signals gs p)"
  by (induction gs arbitrary: p) simp_all

lemma signalled_append: "signalled s (gs @ hs) b = signalled s hs (signalled s gs b)"
  by (induction gs arbitrary: b) simp_all

lemma signalled_other: "\<forall>g\<in>set gs. sig_source g \<noteq> s \<Longrightarrow> signalled s gs b = b"
  by (induction gs) simp_all

lemma signalled_last:
  "gs \<noteq> [] \<Longrightarrow> \<forall>g\<in>set gs. sig_source g = s \<Longrightarrow> signalled s gs b = sig_pending (last gs)"
  by (induction gs arbitrary: b rule: rev_induct) (auto simp: signalled_append)

definition pending_clean :: "u32 \<Rightarrow> bool" where
  "pending_clean p \<longleftrightarrow> p AND NOT 0x0f = 0"

section \<open>Claiming\<close>

definition deliverable :: "interrupt_controller \<Rightarrow> source \<Rightarrow> bool" where
  "deliverable ic s \<longleftrightarrow> pending_source (ic_pending ic) s \<and> bit (ic_enabled ic) (source_index s)"

lemma min_by_key_None [simp]: "min_by_key key xs = None \<longleftrightarrow> xs = []"
  by (cases xs) (auto split: option.split)

lemma min_by_key_Some:
  "min_by_key key xs = Some x \<Longrightarrow> x \<in> set xs \<and> (\<forall>y\<in>set xs. key x \<le> key y)"
proof (induction xs arbitrary: x)
  case (Cons a xs)
  then show ?case
    by (auto split: option.splits if_splits dest: order_trans)
qed simp

lemma claimable_bits:
  "ic_pending ic AND ic_enabled ic AND source_bit s \<noteq> 0 \<longleftrightarrow> deliverable ic s"
proof -
  have "ic_pending ic AND ic_enabled ic AND source_bit s \<noteq> 0 \<longleftrightarrow>
      bit (ic_pending ic AND ic_enabled ic) (source_index s)"
    by (simp add: source_bit_index push_bit_eq_mult and_exp_eq_0_iff_not_bit and.assoc [symmetric])
  then show ?thesis
    by (simp add: deliverable_def pending_source_def bit_and_iff)
qed

lemma process_signals_fields [simp]:
  "ic_receiver (process_signals ic) = []"
  "ic_enabled (process_signals ic) = ic_enabled ic"
  "ic_priorities (process_signals ic) = ic_priorities ic"
  "ic_claim (process_signals ic) = ic_claim ic"
  "ic_priority (process_signals ic) s = ic_priority ic s"
  by (simp_all add: process_signals_def ic_priority_def)

lemma process_signals_idem [simp]: "process_signals (process_signals ic) = process_signals ic"
  by (simp add: process_signals_def)

text \<open>
  The order in which sources are served: by priority value, then by source number. The claim
  the controller makes is the least deliverable source in this order.
\<close>

definition claim_order :: "interrupt_controller \<Rightarrow> source \<Rightarrow> u8 \<times> source" where
  "claim_order ic s = (ic_priority ic s, s)"

definition claim_reference :: "interrupt_controller \<Rightarrow> source option" where
  "claim_reference ic =
     (let ready = {s. deliverable ic s}
      in if ready = {} then None else Some (snd (Min (claim_order ic ` ready))))"

lemma claim_order_le:
  "claim_order ic s \<le> claim_order ic t \<longleftrightarrow> (ic_priority ic s, source_id s) \<le> (ic_priority ic t, source_id t)"
  by (simp add: claim_order_def less_eq_prod_def less_eq_source_def)

lemma claim_filter:
  "min_by_key (\<lambda>s. (ic_priority ic s, source_id s))
     (filter (\<lambda>s. ic_pending ic AND ic_enabled ic AND source_bit s \<noteq> 0) all_sources) = claim_reference ic"
  (is "?m = _")
proof (cases ?m)
  case None
  then show ?thesis
    by (auto simp: claimable_bits claim_reference_def filter_empty_conv)
next
  case (Some s)
  then have s: "deliverable ic s" and le: "\<And>t. deliverable ic t \<Longrightarrow> claim_order ic s \<le> claim_order ic t"
    using min_by_key_Some [OF Some] by (auto simp: claimable_bits claim_order_le)
  have "Min (claim_order ic ` {s. deliverable ic s}) = claim_order ic s"
    by (rule Min_eqI) (use s le in auto)
  with s Some show ?thesis
    by (auto simp: claim_reference_def claim_order_def)
qed

text \<open>
  C28. A claim drains the queued signals and returns the source that is already claimed; when
  there is none it takes the pending and enabled source with the least priority value, ties
  going to the smaller source number, and nothing when no source is both. The claim is what
  the controller then holds, and its other registers are unchanged.
\<close>

theorem claim_serves_most_urgent:
  "ic_do_claim ic =
     (let drained = process_signals ic;
          c = (case ic_claim ic of Some s \<Rightarrow> Some s | None \<Rightarrow> claim_reference drained)
      in (drained\<lparr>ic_claim := c\<rparr>, c))"
proof (cases "ic_claim ic")
  case None
  then show ?thesis
    using claim_filter [of "process_signals ic"] by (simp add: ic_do_claim_def Let_def)
next
  case (Some s)
  moreover from Some have "(process_signals ic)\<lparr>ic_claim := Some s\<rparr> = process_signals ic"
    by (simp add: process_signals_def)
  ultimately show ?thesis
    by (simp add: ic_do_claim_def Let_def)
qed

section \<open>Guest accesses in sequence\<close>

datatype ic_event =
    IcRead interrupt_register
  | IcWrite interrupt_register u32
  | IcSignal "interrupt_signal list"

text \<open>A write that is refused leaves the controller as it is, as the method's early return does.\<close>

fun ic_step :: "ic_event \<Rightarrow> interrupt_controller \<Rightarrow> interrupt_controller" where
  "ic_step (IcRead r) ic = fst (ic_read r ic)"
| "ic_step (IcWrite r v) ic = (case ic_write r v ic of Inl _ \<Rightarrow> ic | Inr ic' \<Rightarrow> ic')"
| "ic_step (IcSignal gs) ic = deliver_signals gs ic"

fun ic_run :: "ic_event list \<Rightarrow> interrupt_controller \<Rightarrow> interrupt_controller" where
  "ic_run [] ic = ic"
| "ic_run (e # es) ic = ic_run es (ic_step e ic)"

definition ic_wf :: "interrupt_controller \<Rightarrow> bool" where
  "ic_wf ic \<longleftrightarrow> length (ic_priorities ic) = 4 \<and> ic_enabled ic AND NOT 0x0f = 0
     \<and> ic_pending ic AND NOT 0x0f = 0"

lemma not_source_bit: "source_bit s AND NOT 0x0f = 0"
  by (cases s) (simp_all add: source_bit_def)

lemma apply_signal_clean:
  assumes "p AND NOT 0x0f = 0"
  shows "apply_signal g p AND NOT 0x0f = 0"
proof (cases "sig_pending g")
  case True
  with assms show ?thesis
    by (simp only: apply_signal_def if_True bit.conj_disj_distrib2 not_source_bit or.right_neutral)
next
  case False
  have "(p AND NOT (source_bit (sig_source g))) AND NOT 0x0f = (p AND NOT 0x0f) AND NOT (source_bit (sig_source g))"
    by (simp only: ac_simps)
  with False assms show ?thesis
    by (simp only: apply_signal_def if_False bit.conj_zero_left)
qed

lemma drain_signals_clean: "p AND NOT 0x0f = 0 \<Longrightarrow> drain_signals gs p AND NOT 0x0f = 0"
  by (induction gs arbitrary: p) (simp_all only: drain_signals.simps apply_signal_clean)

lemma ic_claim_fields:
  "ic_priorities (fst (ic_do_claim ic)) = ic_priorities ic"
  "ic_enabled (fst (ic_do_claim ic)) = ic_enabled ic"
  "ic_pending (fst (ic_do_claim ic)) = drain_signals (ic_receiver ic) (ic_pending ic)"
  "ic_receiver (fst (ic_do_claim ic)) = []"
  "ic_claim ic = Some s \<Longrightarrow> ic_claim (fst (ic_do_claim ic)) = Some s"
  by (simp_all add: ic_do_claim_def Let_def process_signals_def)

lemma ic_eoi_Ok:
  "ic_eoi v ic = Ok ic' \<longleftrightarrow> (\<exists>s. ic_claim ic = Some s \<and> v = source_id s \<and> ic' = ic\<lparr>ic_claim := None\<rparr>)"
  by (auto simp: ic_eoi_def and_then_Ok ok_or_Ok)

lemma ic_step_wf: "ic_wf ic \<Longrightarrow> ic_wf (ic_step e ic)"
proof (cases e)
  case (IcRead r)
  assume "ic_wf ic"
  then show ?thesis
    using drain_signals_clean [of "ic_pending ic" "ic_receiver ic"]
    by (cases r) (simp_all add: IcRead ic_wf_def ic_read_def ic_read_pending_def process_signals_def
        ic_claim_fields Let_def case_prod_unfold)
next
  case (IcWrite r v)
  assume "ic_wf ic"
  moreover have "(v AND 0x0f) AND NOT 0x0f = 0"
    by (simp add: and.assoc)
  ultimately show ?thesis
    by (cases r) (auto simp: IcWrite ic_wf_def ic_write_def ic_set_enabled_def ic_set_priority_def
        ic_eoi_Ok split: sum.split)
next
  case (IcSignal gs)
  assume "ic_wf ic"
  then show ?thesis by (simp add: IcSignal ic_wf_def deliver_signals_def)
qed

text \<open>
  C40. In every sequence of guest reads, guest writes and peripheral signals from reset, the
  controller keeps four priorities and sets only the four documented bits of its pending and
  enable registers.
\<close>

theorem ic_run_wf: "ic_wf (ic_run es interrupt_controller_new)"
proof -
  have "ic_wf ic \<Longrightarrow> ic_wf (ic_run es ic)" for ic
    by (induction es arbitrary: ic) (simp_all add: ic_step_wf)
  then show ?thesis
    by (simp add: ic_wf_def interrupt_controller_new_def)
qed

lemma ic_step_keeps_claim:
  assumes "ic_claim ic = Some s" and "e \<noteq> IcWrite IntEoi (source_id s)"
  shows "ic_claim (ic_step e ic) = Some s"
proof (cases e)
  case (IcRead r)
  with assms show ?thesis
    by (cases r) (simp_all add: ic_read_def ic_read_pending_def ic_claim_fields Let_def case_prod_unfold)
next
  case (IcWrite r v)
  with assms show ?thesis
    by (cases r) (auto simp: ic_write_def ic_set_enabled_def ic_set_priority_def ic_eoi_Ok split: sum.split)
next
  case (IcSignal gs)
  with assms show ?thesis by (simp add: deliver_signals_def)
qed

text \<open>
  An active claim is retained through any sequence of reads, writes and signals until the
  guest writes its own source number to the end-of-interrupt register.
\<close>

theorem claim_held_until_eoi:
  assumes "ic_claim ic = Some s" and "IcWrite IntEoi (source_id s) \<notin> set es"
  shows "ic_claim (ic_run es ic) = Some s"
  using assms
proof (induction es arbitrary: ic)
  case (Cons e es)
  then have "e \<noteq> IcWrite IntEoi (source_id s)" by auto
  with Cons show ?case by (simp add: ic_step_keeps_claim)
qed simp

theorem claim_held_until_eoi_witness:
  "ic_claim (ic_run [IcRead IntClaim, IcWrite IntEoi 3, IcSignal [\<lparr>sig_source = SrcSysTick, sig_pending = True\<rparr>]]
     (interrupt_controller_new\<lparr>ic_claim := Some SrcUart1\<rparr>)) = Some SrcUart1"
  by (rule claim_held_until_eoi) (simp_all add: interrupt_controller_new_def)

text \<open>
  End of interrupt succeeds exactly when a source is claimed and its number is written; it
  clears the claim and nothing else. Otherwise it reports the expected and the written number,
  the expected one being all ones when nothing is claimed.
\<close>

theorem eoi_matches_claim:
  "ic_eoi v ic = (case ic_claim ic of
     None \<Rightarrow> Err (InvalidEoi 0xffffffff v)
   | Some s \<Rightarrow> if v = source_id s then Ok (ic\<lparr>ic_claim := None\<rparr>) else Err (InvalidEoi (source_id s) v))"
  by (cases "ic_claim ic") (simp_all add: ic_eoi_def u32_max_def)

section \<open>The contract of an interrupting peripheral\<close>

text \<open>
  The bit of a source in the pending bitmap once the queued signals are drained: what the guest
  sees. A peripheral keeps it equal to its interrupt level, by sending its level whenever an
  operation may have changed it.
\<close>

definition seen_level :: "interrupt_controller \<Rightarrow> source \<Rightarrow> bool" where
  "seen_level ic s = pending_source (drain_signals (ic_receiver ic) (ic_pending ic)) s"

locale irq_peripheral =
  fixes level :: "'s \<Rightarrow> bool"
    and src :: "'s \<Rightarrow> source"
    and step :: "'op \<Rightarrow> 's \<Rightarrow> ('s \<times> interrupt_signal list) option"
  assumes step_src: "step op s = Some (s', gs) \<Longrightarrow> src s' = src s"
    and step_own: "step op s = Some (s', gs) \<Longrightarrow> g \<in> set gs \<Longrightarrow> sig_source g = src s"
    and step_last: "step op s = Some (s', gs) \<Longrightarrow> gs \<noteq> [] \<Longrightarrow> sig_pending (last gs) = level s'"
    and step_silent: "step op s = Some (s', []) \<Longrightarrow> level s' = level s"
begin

lemma step_keeps_seen:
  assumes "step op s = Some (s', gs)" and "seen_level ic (src s) = level s"
  shows "seen_level (deliver_signals gs ic) (src s') = level s'"
proof (cases "gs = []")
  case True
  with assms show ?thesis
    using step_src step_silent by (simp add: seen_level_def deliver_signals_def)
next
  case False
  moreover have "\<forall>g\<in>set gs. sig_source g = src s"
    using assms(1) step_own by blast
  ultimately show ?thesis
    using assms(1) step_src step_last
    by (simp add: seen_level_def deliver_signals_def pending_drain_signals signalled_last)
qed

lemma step_keeps_others:
  assumes "step op s = Some (s', gs)" and "t \<noteq> src s"
  shows "seen_level (deliver_signals gs ic) t = seen_level ic t"
proof -
  have "\<forall>g\<in>set gs. sig_source g \<noteq> t"
    using assms step_own by blast
  then show ?thesis
    by (simp add: seen_level_def deliver_signals_def pending_drain_signals signalled_other)
qed

end

lemma seen_level_process [simp]: "seen_level (process_signals ic) s = seen_level ic s"
  by (simp add: seen_level_def process_signals_def)

lemma seen_level_claim [simp]: "seen_level (fst (ic_do_claim ic)) s = seen_level ic s"
  by (simp add: seen_level_def ic_claim_fields)

lemma seen_level_read [simp]: "seen_level (fst (ic_read r ic)) s = seen_level ic s"
  by (cases r) (simp_all add: ic_read_def ic_read_pending_def Let_def case_prod_unfold)

lemma seen_level_write: "ic_write r v ic = Ok ic' \<Longrightarrow> seen_level ic' s = seen_level ic s"
  by (cases r) (auto simp: ic_write_def ic_set_enabled_def ic_set_priority_def ic_eoi_Ok seen_level_def)

end
