(* ===== verification/Core_SysTick.thy ===== *)
theory Core_SysTick
  imports Core_Interrupt
begin

text \<open>
  The timer of \<open>minemu-core\<close> (\<open>systick.rs\<close>). Virtual time is a 64-bit word that wraps. The loop
  that moves a periodic deadline past the current tick may run forever at the end of time, so
  it is a partial function and the operations above it return an option.
\<close>

record systick =
  st_period :: u32
  st_enabled :: bool
  st_periodic :: bool
  st_irq_enabled :: bool
  st_pending :: bool
  st_next_deadline :: "u64 option"

datatype systick_input = TickWrite systick_register u32 u64 | TickAdvanceTo u64

definition systick_new :: systick where
  "systick_new = \<lparr>st_period = 0, st_enabled = False, st_periodic = False, st_irq_enabled = False,
     st_pending = False, st_next_deadline = None\<rparr>"

definition systick_control :: "systick \<Rightarrow> u32" where
  "systick_control t = of_bool (st_enabled t) OR push_bit 1 (of_bool (st_periodic t))
     OR push_bit 2 (of_bool (st_irq_enabled t))"

definition systick_status :: "systick \<Rightarrow> u32" where
  "systick_status t = of_bool (st_pending t)"

definition systick_irq_pending :: "systick \<Rightarrow> bool" where
  "systick_irq_pending t \<longleftrightarrow> st_pending t \<and> st_irq_enabled t"

definition systick_set_period :: "u32 \<Rightarrow> u64 \<Rightarrow> systick \<Rightarrow> systick" where
  "systick_set_period period now t =
     (let t = t\<lparr>st_period := period\<rparr>
      in if st_enabled t then t\<lparr>st_next_deadline := Some (now + ucast period)\<rparr> else t)"

definition systick_set_control :: "u32 \<Rightarrow> u64 \<Rightarrow> systick \<Rightarrow> systick" where
  "systick_set_control control now t =
     (let was_enabled = st_enabled t;
          t = t\<lparr>st_enabled := control AND 1 \<noteq> 0, st_periodic := control AND 2 \<noteq> 0,
                st_irq_enabled := control AND 4 \<noteq> 0\<rparr>;
          t = (if st_enabled t \<and> (\<not> was_enabled \<or> st_next_deadline t = None) \<and> st_period t \<noteq> 0
               then t\<lparr>st_next_deadline := Some (now + ucast (st_period t))\<rparr> else t)
      in if \<not> st_enabled t then t\<lparr>st_next_deadline := None\<rparr> else t)"

definition systick_ack :: "systick \<Rightarrow> systick" where
  "systick_ack t = t\<lparr>st_pending := False\<rparr>"

text \<open>\<open>while deadline <= now { deadline += period }\<close>\<close>

partial_function (option) deadline_loop :: "u32 \<Rightarrow> u64 \<Rightarrow> u64 \<Rightarrow> u64 option" where
  "deadline_loop period now deadline =
     (if deadline \<le> now then deadline_loop period now (deadline + ucast period) else Some deadline)"

definition systick_advance_to :: "u64 \<Rightarrow> systick \<Rightarrow> (systick \<times> bool) option" where
  "systick_advance_to now t = (case st_next_deadline t of
     None \<Rightarrow> Some (t, False)
   | Some deadline \<Rightarrow>
       if deadline > now then Some (t, False)
       else
         let t = t\<lparr>st_pending := True\<rparr> in
         if st_periodic t \<and> st_period t \<noteq> 0
         then map_option (\<lambda>deadline. (t\<lparr>st_next_deadline := Some deadline\<rparr>, True))
                (deadline_loop (st_period t) now deadline)
         else Some (t\<lparr>st_enabled := False, st_next_deadline := None\<rparr>, True))"

definition systick_signal :: "systick \<Rightarrow> interrupt_signal" where
  "systick_signal t = \<lparr>sig_source = SrcSysTick, sig_pending = systick_irq_pending t\<rparr>"

definition systick_read :: "systick_register \<Rightarrow> systick \<Rightarrow> u32" where
  "systick_read r t = (case r of
     TickPeriod \<Rightarrow> st_period t
   | TickControl \<Rightarrow> systick_control t
   | TickStatus \<Rightarrow> systick_status t
   | TickAck \<Rightarrow> 0)"

definition systick_apply :: "systick_input \<Rightarrow> systick \<Rightarrow> systick option" where
  "systick_apply u t = (case u of
     TickWrite TickPeriod value now \<Rightarrow> Some (systick_set_period value now t)
   | TickWrite TickControl value now \<Rightarrow> Some (systick_set_control value now t)
   | TickWrite TickAck _ _ \<Rightarrow> Some (systick_ack t)
   | TickWrite _ _ _ \<Rightarrow> Some t
   | TickAdvanceTo now \<Rightarrow> map_option fst (systick_advance_to now t))"

definition systick_update :: "systick_input \<Rightarrow> systick \<Rightarrow> (systick \<times> interrupt_signal list) option" where
  "systick_update u t = map_option (\<lambda>t'. (t', [systick_signal t'])) (systick_apply u t)"

record systick_inspection =
  si_period :: u32
  si_control :: u32
  si_status :: u32

definition systick_inspect :: "systick \<Rightarrow> systick_inspection" where
  "systick_inspect t = \<lparr>si_period = st_period t, si_control = systick_control t,
     si_status = systick_status t\<rparr>"

interpretation systick_irq: irq_peripheral systick_irq_pending "\<lambda>_. SrcSysTick" systick_update
  by unfold_locales (auto simp: systick_update_def systick_signal_def)

section \<open>The deadline loop\<close>

text \<open>The number of whole periods that bring a deadline past the current tick.\<close>

definition periods_due :: "nat \<Rightarrow> nat \<Rightarrow> nat \<Rightarrow> nat" where
  "periods_due period now deadline = (if deadline \<le> now then (now - deadline) div period + 1 else 0)"

lemma periods_due_step:
  "0 < p \<Longrightarrow> d \<le> n \<Longrightarrow> periods_due p n d = periods_due p n (d + p) + 1"
proof (cases "d + p \<le> n")
  case True
  assume "0 < p"
  moreover obtain k where "n = d + p + k"
    using True by (auto simp: le_iff_add)
  ultimately show ?thesis
    by (simp add: periods_due_def div_add_self1)
next
  case False
  assume "0 < p" "d \<le> n"
  with False show ?thesis
    by (simp add: periods_due_def)
qed

lemma periods_due_bounds:
  assumes "0 < p"
  shows "n < d + periods_due p n d * p" and "d \<le> n \<Longrightarrow> d + periods_due p n d * p \<le> n + p"
proof -
  have "(n - d) div p * p + (n - d) mod p = n - d"
    by simp
  moreover have "(n - d) mod p < p"
    using assms by simp
  moreover have "d \<le> n \<Longrightarrow> periods_due p n d * p = (n - d) div p * p + p"
    by (simp add: periods_due_def)
  moreover have "\<not> d \<le> n \<Longrightarrow> periods_due p n d * p = 0"
    by (simp add: periods_due_def)
  ultimately have "n < d + periods_due p n d * p \<and> (d \<le> n \<longrightarrow> d + periods_due p n d * p \<le> n + p)"
    by linarith
  then show "n < d + periods_due p n d * p" and "d \<le> n \<Longrightarrow> d + periods_due p n d * p \<le> n + p"
    by simp_all
qed

lemma deadline_loop_closed:
  assumes "0 < unat period" and "unat now + unat period < 2 ^ 64"
  shows "\<exists>d'. deadline_loop period now d = Some d'
     \<and> unat d' = unat d + periods_due (unat period) (unat now) (unat d) * unat period"
proof (induction "unat now + 1 - unat d" arbitrary: d rule: less_induct)
  case less
  show ?case
  proof (cases "d \<le> now")
    case False
    then show ?thesis
      by (subst deadline_loop.simps) (simp add: periods_due_def word_le_nat_alt)
  next
    case True
    then have le: "unat d \<le> unat now"
      by (simp add: word_le_nat_alt)
    let ?d = "d + ucast period"
    have d: "unat ?d = unat d + unat period"
      using le assms(2) by (subst unat_add_no_wrap) simp_all
    then have "unat now + 1 - unat ?d < unat now + 1 - unat d"
      using le assms(1) by simp
    from less [OF this] obtain d' where "deadline_loop period now ?d = Some d'"
      "unat d' = unat ?d + periods_due (unat period) (unat now) (unat ?d) * unat period"
      by blast
    with True periods_due_step [OF assms(1) le] show ?thesis
      by (subst deadline_loop.simps) (simp add: d)
  qed
qed

lemma deadline_loop_step: "d \<le> now \<Longrightarrow> deadline_loop p now d = deadline_loop p now (d + ucast p)"
  by (subst deadline_loop.simps) simp

lemma deadline_loop_done: "now < d \<Longrightarrow> deadline_loop p now d = Some d"
  by (subst deadline_loop.simps) (simp add: not_le [symmetric])

lemmas deadline_loop_induct =
  deadline_loop.raw_induct [rotated, consumes 1, case_names loop]

lemma deadline_loop_mono:
  assumes "deadline_loop p n2 d = Some y" and "n1 \<le> n2"
  shows "\<exists>d1. deadline_loop p n1 d = Some d1"
  using assms
proof (induction p n2 d y rule: deadline_loop_induct)
  case (loop f p n2 d y)
  show ?case
  proof (cases "d \<le> n1")
    case True
    then have "d \<le> n2" using loop(3) by (rule order_trans)
    with True loop show ?thesis by (simp add: deadline_loop_step)
  next
    case False
    then show ?thesis by (simp add: deadline_loop_done not_le)
  qed
qed

lemma deadline_loop_resume:
  assumes "deadline_loop p n1 d = Some d1" and "n1 \<le> n2"
  shows "deadline_loop p n2 d1 = deadline_loop p n2 d"
  using assms
proof (induction p n1 d d1 rule: deadline_loop_induct)
  case (loop f p n1 d d1)
  show ?case
  proof (cases "d \<le> n1")
    case True
    with loop deadline_loop_step [of d n1 p]
    have "deadline_loop p n2 d1 = deadline_loop p n2 (d + ucast p)"
      by auto
    also have "\<dots> = deadline_loop p n2 d"
      using True loop(3) by (subst deadline_loop_step [of d]) auto
    finally show ?thesis .
  next
    case False
    with loop show ?thesis by simp
  qed
qed

section \<open>Properties of the timer\<close>

text \<open>
  An expired periodic timer that advances to a tick becomes pending and keeps its phase: its
  new deadline is the old one plus whole periods, lies after the tick and at most one period
  after it. The loop that finds it returns whenever one period fits between the tick and the
  end of the 64-bit time.
\<close>

theorem systick_keeps_phase:
  assumes "st_next_deadline t = Some d" and "d \<le> now" and "st_periodic t" and "st_period t \<noteq> 0"
    and "unat now + unat (st_period t) < 2 ^ 64"
  shows "\<exists>d' k. systick_advance_to now t = Some (t\<lparr>st_pending := True, st_next_deadline := Some d'\<rparr>, True)
     \<and> unat d' = unat d + k * unat (st_period t)
     \<and> unat now < unat d' \<and> unat d' \<le> unat now + unat (st_period t)"
proof -
  have p: "0 < unat (st_period t)"
    using assms(4) by (simp add: unat_gt_0)
  from deadline_loop_closed [OF p assms(5), of d] obtain d' where
    d': "deadline_loop (st_period t) now d = Some d'"
    "unat d' = unat d + periods_due (unat (st_period t)) (unat now) (unat d) * unat (st_period t)"
    by blast
  have "systick_advance_to now t = Some (t\<lparr>st_pending := True, st_next_deadline := Some d'\<rparr>, True)"
    using assms(1-4) d'(1) by (simp add: systick_advance_to_def Let_def not_less)
  moreover have "unat d \<le> unat now"
    using assms(2) by (simp add: word_le_nat_alt)
  ultimately show ?thesis
    using d'(2) periods_due_bounds(1) [OF p, of "unat now" "unat d"]
      periods_due_bounds(2) [OF p, of "unat d" "unat now"]
    by (intro exI [of _ d'] exI conjI) simp_all
qed

theorem systick_keeps_phase_witness:
  "\<exists>d' k. systick_advance_to 20
       \<lparr>st_period = 3, st_enabled = True, st_periodic = True, st_irq_enabled = True,
        st_pending = False, st_next_deadline = Some 13\<rparr>
     = Some (\<lparr>st_period = 3, st_enabled = True, st_periodic = True, st_irq_enabled = True,
        st_pending = True, st_next_deadline = Some d'\<rparr>, True)
     \<and> unat d' = 13 + k * 3 \<and> 20 < unat d' \<and> unat d' \<le> 23"
  using systick_keeps_phase [of "\<lparr>st_period = 3, st_enabled = True, st_periodic = True,
    st_irq_enabled = True, st_pending = False, st_next_deadline = Some 13\<rparr>" 13 20] by simp

text \<open>
  C27. The timer does not depend on how time is divided into steps: advancing to a tick and then
  to a later one gives the same timer as advancing to the later one at once, and one returns
  exactly when the other does.
\<close>

theorem systick_advance_composes:
  assumes "n1 \<le> n2"
  shows "Option.bind (map_option fst (systick_advance_to n1 t)) (\<lambda>t1. map_option fst (systick_advance_to n2 t1))
     = map_option fst (systick_advance_to n2 t)"
proof (cases "st_next_deadline t")
  case None
  then show ?thesis by (simp add: systick_advance_to_def)
next
  case (Some d)
  note d = Some
  show ?thesis
  proof (cases "d \<le> n1 \<and> st_periodic t \<and> st_period t \<noteq> 0")
    case False
    with d assms show ?thesis
      by (auto simp: systick_advance_to_def Let_def)
  next
    case True
    with assms have le: "d \<le> n1" "d \<le> n2" by auto
    show ?thesis
    proof (cases "deadline_loop (st_period t) n1 d")
      case None
      with deadline_loop_mono [of "st_period t" n2 d _ n1] assms
      have "deadline_loop (st_period t) n2 d = None"
        by (cases "deadline_loop (st_period t) n2 d") auto
      with None d True le show ?thesis
        by (simp add: systick_advance_to_def Let_def not_less)
    next
      case (Some d1)
      have resume: "deadline_loop (st_period t) n2 d1 = deadline_loop (st_period t) n2 d"
        using Some assms by (rule deadline_loop_resume)
      have nl: "\<not> n1 < d" "\<not> n2 < d"
        using le by auto
      show ?thesis
      proof (cases "n2 < d1")
        case late: True
        then have "deadline_loop (st_period t) n2 d = Some d1"
          using resume deadline_loop_done [of n2 d1] by simp
        with Some d True nl late show ?thesis
          by (simp add: systick_advance_to_def Let_def)
      next
        case False
        with Some d True nl resume show ?thesis
          by (simp add: systick_advance_to_def Let_def option.map_comp comp_def)
      qed
    qed
  qed
qed

theorem systick_advance_composes_witness:
  "Option.bind (map_option fst (systick_advance_to 5 systick_new)) (\<lambda>t1. map_option fst (systick_advance_to 9 t1))
     = map_option fst (systick_advance_to 9 systick_new)"
  by (rule systick_advance_composes) simp

text \<open>The timers that decoded guest writes and the passing of time produce.\<close>

inductive systick_reachable :: "systick \<Rightarrow> bool" where
  new: "systick_reachable systick_new"
| update: "systick_reachable t \<Longrightarrow> \<forall>now. u \<noteq> TickWrite TickPeriod 0 now \<Longrightarrow>
    systick_update u t = Some (t', gs) \<Longrightarrow> systick_reachable t'"

definition systick_wf :: "systick \<Rightarrow> bool" where
  "systick_wf t \<longleftrightarrow> (st_next_deadline t \<noteq> None \<longleftrightarrow> st_enabled t \<and> st_period t \<noteq> 0)"

lemma systick_advance_wf:
  assumes "systick_wf t" and "systick_advance_to now t = Some (t', b)"
  shows "systick_wf t'"
  using assms by (auto simp: systick_wf_def systick_advance_to_def Let_def split: option.splits if_splits)

lemma systick_set_wf:
  "systick_wf t \<Longrightarrow> v \<noteq> 0 \<Longrightarrow> systick_wf (systick_set_period v now t)"
  "systick_wf t \<Longrightarrow> systick_wf (systick_set_control c now t)"
  "systick_wf t \<Longrightarrow> systick_wf (systick_ack t)"
  by (simp_all add: systick_wf_def systick_set_period_def systick_set_control_def systick_ack_def Let_def)

text \<open>
  A timer reached by writes the decoder accepts has a deadline exactly when it is enabled and
  has a period: a disabled timer never expires, an enabled one with a period always will.
\<close>

theorem systick_reachable_wf:
  assumes "systick_reachable t"
  shows "systick_wf t"
  using assms
proof induction
  case new
  show ?case by (simp add: systick_wf_def systick_new_def)
next
  case (update t u t' gs)
  show ?case
  proof (cases u)
    case (TickWrite r v now)
    with update show ?thesis
      by (cases r) (auto simp: systick_update_def systick_apply_def systick_set_wf)
  next
    case (TickAdvanceTo now)
    with update systick_advance_wf show ?thesis
      by (auto simp: systick_update_def systick_apply_def)
  qed
qed

theorem systick_reachable_wf_witness: "systick_wf (systick_set_period 7 0 systick_new)"
  by (rule systick_reachable_wf,
      rule systick_reachable.update [OF systick_reachable.new, of "TickWrite TickPeriod 7 0"])
     (simp_all add: systick_update_def systick_apply_def)

end
