(* ===== verification/Core_Uart.thy ===== *)
theory Core_Uart
  imports Core_Interrupt
begin

text \<open>
  The UART of \<open>minemu-core\<close> (\<open>uart.rs\<close>): a receive queue and a transmit history of bounded
  length, and the receive interrupt.
\<close>

record uart =
  ua_rx :: "u8 list"
  ua_tx :: "u8 list"
  ua_rx_capacity :: usize
  ua_tx_capacity :: usize
  ua_rx_irq_enabled :: bool
  ua_interrupt_source :: source

datatype uart_input = UartReceive u8 | UartWrite uart_register u32

definition uart_new :: "usize \<Rightarrow> usize \<Rightarrow> source \<Rightarrow> uart" where
  "uart_new rx_capacity tx_capacity s = \<lparr>ua_rx = [], ua_tx = [], ua_rx_capacity = rx_capacity,
     ua_tx_capacity = tx_capacity, ua_rx_irq_enabled = False, ua_interrupt_source = s\<rparr>"

definition uart_irq_pending :: "uart \<Rightarrow> bool" where
  "uart_irq_pending u \<longleftrightarrow> ua_rx_irq_enabled u \<and> ua_rx u \<noteq> []"

definition uart_signal :: "uart \<Rightarrow> interrupt_signal" where
  "uart_signal u = \<lparr>sig_source = ua_interrupt_source u, sig_pending = uart_irq_pending u\<rparr>"

definition uart_receive :: "u8 \<Rightarrow> uart \<Rightarrow> uart \<times> interrupt_signal list" where
  "uart_receive byte u =
     (if ua_rx_capacity u = 0 then (u, [])
      else let u = u\<lparr>ua_rx := push_bounded (ua_rx_capacity u) byte (ua_rx u)\<rparr> in (u, [uart_signal u]))"

definition uart_read_rx :: "uart \<Rightarrow> uart \<times> u8 \<times> interrupt_signal list" where
  "uart_read_rx u =
     (let (byte, rx) = (case ua_rx u of [] \<Rightarrow> (0, []) | b # bs \<Rightarrow> (b, bs));
          u = u\<lparr>ua_rx := rx\<rparr>
      in (u, byte, [uart_signal u]))"

definition uart_write_tx :: "u8 \<Rightarrow> uart \<Rightarrow> uart" where
  "uart_write_tx byte u =
     (if ua_tx_capacity u = 0 then u
      else u\<lparr>ua_tx := push_bounded (ua_tx_capacity u) byte (ua_tx u)\<rparr>)"

definition uart_status :: "uart \<Rightarrow> u32" where
  "uart_status u = (if ua_rx u = [] then 0 else 1) OR 2"

definition uart_control :: "uart \<Rightarrow> u32" where
  "uart_control u = of_bool (ua_rx_irq_enabled u)"

definition uart_set_control :: "u32 \<Rightarrow> uart \<Rightarrow> uart \<times> interrupt_signal list" where
  "uart_set_control value u =
     (let u = u\<lparr>ua_rx_irq_enabled := (value AND 1 \<noteq> 0)\<rparr> in (u, [uart_signal u]))"

definition uart_read :: "uart_register \<Rightarrow> uart \<Rightarrow> uart \<times> u32 \<times> interrupt_signal list" where
  "uart_read r u = (case r of
     UartReceiveData \<Rightarrow> (let (u', byte, gs) = uart_read_rx u in (u', ucast byte, gs))
   | UartStatus \<Rightarrow> (u, uart_status u, [])
   | UartControl \<Rightarrow> (u, uart_control u, [])
   | UartTransmitData \<Rightarrow> (u, 0, []))"

definition uart_apply :: "uart_input \<Rightarrow> uart \<Rightarrow> uart \<times> interrupt_signal list" where
  "uart_apply upd u = (case upd of
     UartReceive byte \<Rightarrow> uart_receive byte u
   | UartWrite UartTransmitData value \<Rightarrow> (uart_write_tx (ucast value) u, [])
   | UartWrite UartControl value \<Rightarrow> uart_set_control value u
   | UartWrite _ _ \<Rightarrow> (u, []))"

record uart_inspection =
  ui_status :: u32
  ui_control :: u32
  ui_rx_queued :: usize
  ui_rx_irq_enabled :: bool
  ui_tx_history :: "u8 list"

definition uart_inspect :: "uart \<Rightarrow> uart_inspection" where
  "uart_inspect u = \<lparr>ui_status = uart_status u, ui_control = uart_control u,
     ui_rx_queued = length (ua_rx u), ui_rx_irq_enabled = ua_rx_irq_enabled u, ui_tx_history = ua_tx u\<rparr>"

section \<open>The contracts the UART meets\<close>

datatype uart_op = UartOpRead uart_register | UartOpUpdate uart_input

fun uart_step :: "uart_op \<Rightarrow> uart \<Rightarrow> uart \<times> interrupt_signal list" where
  "uart_step (UartOpRead r) u = (let (u', v, gs) = uart_read r u in (u', gs))"
| "uart_step (UartOpUpdate upd) u = uart_apply upd u"

lemmas uart_op_defs = uart_read_def uart_apply_def uart_read_rx_def uart_receive_def
  uart_set_control_def uart_write_tx_def uart_signal_def

lemma uart_step_cases:
  assumes "uart_step op u = (u', gs)"
  shows "ua_interrupt_source u' = ua_interrupt_source u"
    and "gs = [uart_signal u'] \<or> gs = [] \<and> uart_irq_pending u' = uart_irq_pending u"
proof -
  have "ua_interrupt_source u' = ua_interrupt_source u
      \<and> (gs = [uart_signal u'] \<or> gs = [] \<and> uart_irq_pending u' = uart_irq_pending u)"
  proof (cases op)
    case (UartOpRead r)
    with assms show ?thesis
      by (cases r) (auto simp: uart_op_defs uart_irq_pending_def Let_def split: list.splits)
  next
    case (UartOpUpdate upd)
    show ?thesis
    proof (cases upd)
      case (UartReceive b)
      with assms UartOpUpdate show ?thesis
        by (auto simp: uart_op_defs Let_def split: if_splits)
    next
      case (UartWrite r v)
      with assms UartOpUpdate show ?thesis
        by (cases r) (auto simp: uart_op_defs uart_irq_pending_def Let_def split: if_splits)
    qed
  qed
  then show "ua_interrupt_source u' = ua_interrupt_source u"
    and "gs = [uart_signal u'] \<or> gs = [] \<and> uart_irq_pending u' = uart_irq_pending u"
    by simp_all
qed

interpretation uart_irq: irq_peripheral uart_irq_pending ua_interrupt_source
  "\<lambda>op u. Some (uart_step op u)"
proof
  fix op :: uart_op and u u' gs g
  assume "Some (uart_step op u) = Some (u', gs)"
  then have step: "uart_step op u = (u', gs)" by simp
  show "ua_interrupt_source u' = ua_interrupt_source u"
    using step by (rule uart_step_cases)
  show "g \<in> set gs \<Longrightarrow> sig_source g = ua_interrupt_source u"
    using uart_step_cases [OF step] by (auto simp: uart_signal_def)
  show "gs \<noteq> [] \<Longrightarrow> sig_pending (last gs) = uart_irq_pending u'"
    using uart_step_cases [OF step] by (auto simp: uart_signal_def)
next
  fix op :: uart_op and u u'
  assume "Some (uart_step op u) = Some (u', [])"
  then show "uart_irq_pending u' = uart_irq_pending u"
    using uart_step_cases [of op u u' "[]"] by simp
qed

interpretation uart_tx: bounded_history uart_write_tx ua_tx ua_tx_capacity
  by unfold_locales (simp_all add: uart_write_tx_def)

interpretation uart_rx: bounded_history "\<lambda>b u. fst (uart_receive b u)" ua_rx ua_rx_capacity
  by unfold_locales (simp_all add: uart_receive_def Let_def)

section \<open>Properties of the queues\<close>

fun uart_run :: "uart_op list \<Rightarrow> uart \<Rightarrow> uart" where
  "uart_run [] u = u"
| "uart_run (op # ops) u = uart_run ops (fst (uart_step op u))"

definition uart_wf :: "uart \<Rightarrow> bool" where
  "uart_wf u \<longleftrightarrow> length (ua_rx u) \<le> ua_rx_capacity u \<and> length (ua_tx u) \<le> ua_tx_capacity u"

lemma uart_receive_wf: "uart_wf u \<Longrightarrow> uart_wf (fst (uart_receive b u))"
  using uart_rx.push_within [of u b] by (auto simp: uart_wf_def uart_receive_def Let_def)

lemma uart_write_tx_wf: "uart_wf u \<Longrightarrow> uart_wf (uart_write_tx b u)"
  using uart_tx.push_within [of u b] by (auto simp: uart_wf_def uart_write_tx_def)

lemma uart_read_rx_wf: "uart_wf u \<Longrightarrow> uart_wf (fst (uart_read_rx u))"
  by (auto simp: uart_wf_def uart_read_rx_def Let_def split: list.splits)

lemma uart_step_wf: "uart_wf u \<Longrightarrow> uart_wf (fst (uart_step op u))"
proof (cases op)
  case (UartOpRead r)
  assume "uart_wf u"
  with uart_read_rx_wf [of u] show ?thesis
    by (cases r) (auto simp: UartOpRead uart_read_def Let_def case_prod_unfold)
next
  case (UartOpUpdate upd)
  assume wf: "uart_wf u"
  show ?thesis
  proof (cases upd)
    case (UartReceive b)
    with wf uart_receive_wf show ?thesis by (simp add: UartOpUpdate uart_apply_def)
  next
    case (UartWrite r v)
    with wf uart_write_tx_wf show ?thesis
      by (cases r) (simp_all add: UartOpUpdate uart_apply_def uart_set_control_def Let_def uart_wf_def)
  qed
qed

text \<open>
  Whatever is received, read and written, the receive queue and the transmit history of a UART
  stay within the capacities it was created with.
\<close>

theorem uart_stays_bounded:
  "length (ua_rx (uart_run ops (uart_new rc tc s))) \<le> rc
   \<and> length (ua_tx (uart_run ops (uart_new rc tc s))) \<le> tc"
proof -
  have caps: "ua_rx_capacity (fst (uart_step op u)) = ua_rx_capacity u
      \<and> ua_tx_capacity (fst (uart_step op u)) = ua_tx_capacity u" for op u
    by (cases op; simp add: uart_read_def uart_apply_def case_prod_unfold Let_def split: uart_register.split uart_input.split)
       (simp_all add: uart_op_defs Let_def case_prod_unfold)
  have "uart_wf u \<Longrightarrow> uart_wf (uart_run ops u) \<and> ua_rx_capacity (uart_run ops u) = ua_rx_capacity u
      \<and> ua_tx_capacity (uart_run ops u) = ua_tx_capacity u" for u
    by (induction ops arbitrary: u) (simp_all add: caps uart_step_wf)
  from this [of "uart_new rc tc s"] show ?thesis
    by (auto simp: uart_wf_def uart_new_def)
qed

text \<open>
  The transmit history is the last bytes the guest wrote to the transmit register, in order,
  as many as the capacity allows.
\<close>

theorem uart_tx_history:
  "ua_tx (uart_run (map (\<lambda>b. UartOpUpdate (UartWrite UartTransmitData (ucast b))) bs) (uart_new rc tc s))
     = last_n tc bs"
proof -
  have byte: "(ucast (ucast b :: u32) :: u8) = b" for b
    by (rule bit_word_eqI) (simp add: bit_simps)
  have "uart_run (map (\<lambda>b. UartOpUpdate (UartWrite UartTransmitData (ucast b))) bs) u = fold uart_write_tx bs u"
    for u
    by (induction bs arbitrary: u) (simp_all add: uart_apply_def byte)
  then show ?thesis
    using uart_tx.push_all [of "uart_new rc tc s" bs] by (simp add: uart_new_def)
qed

fun uart_take :: "nat \<Rightarrow> uart \<Rightarrow> u32 list" where
  "uart_take 0 u = []"
| "uart_take (Suc n) u = (let (u', v, _) = uart_read UartReceiveData u in v # uart_take n u')"

lemma uart_take_queue:
  "uart_take n u = map ucast (take n (ua_rx u)) @ replicate (n - length (ua_rx u)) 0"
  by (induction n arbitrary: u)
     (simp_all add: uart_read_def uart_read_rx_def Let_def case_prod_unfold split: list.split)

text \<open>
  Bytes received by a UART are read back in the order of arrival: of a burst longer than the
  capacity the last bytes that fit remain, and reading an empty queue gives zero.
\<close>

theorem uart_receive_read_order:
  "uart_take n (uart_run (map (\<lambda>b. UartOpUpdate (UartReceive b)) bs) (uart_new rc tc s))
     = map ucast (take n (last_n rc bs)) @ replicate (n - min rc (length bs)) 0"
proof -
  have "uart_run (map (\<lambda>b. UartOpUpdate (UartReceive b)) bs) u = fold (\<lambda>b u. fst (uart_receive b u)) bs u" for u
    by (induction bs arbitrary: u) (simp_all add: uart_apply_def)
  then show ?thesis
    using uart_rx.push_all [of "uart_new rc tc s" bs] by (simp add: uart_take_queue uart_new_def)
qed

end
