(* ===== verification/Core_Rng.thy ===== *)
theory Core_Rng
  imports Platform_Mmio
begin

text \<open>
  The random number generator of \<open>minemu-core\<close> (\<open>rng.rs\<close>), a 32-bit xorshift. Each of its three
  shift-and-xor stages is injective, so the generator permutes the states and never leaves the
  nonzero ones.
\<close>

record rng =
  rng_seed :: u32
  rng_state :: u32

definition rng_new :: rng where
  "rng_new = \<lparr>rng_seed = DEFAULT_SEED, rng_state = DEFAULT_SEED\<rparr>"

definition rng_set_seed :: "u32 \<Rightarrow> rng \<Rightarrow> rng" where
  "rng_set_seed seed r =
     (let r = r\<lparr>rng_seed := (if seed = 0 then DEFAULT_SEED else seed)\<rparr> in r\<lparr>rng_state := rng_seed r\<rparr>)"

definition rng_next_u32 :: "rng \<Rightarrow> rng \<times> u32" where
  "rng_next_u32 r =
     (let s = rng_state r;
          s = s XOR push_bit 13 s;
          s = s XOR drop_bit 17 s;
          s = s XOR push_bit 5 s
      in (r\<lparr>rng_state := s\<rparr>, s))"

definition rng_read :: "rng_register \<Rightarrow> rng \<Rightarrow> rng \<times> u32" where
  "rng_read reg r = (case reg of
     RngSeed \<Rightarrow> (r, rng_seed r)
   | RngData \<Rightarrow> rng_next_u32 r
   | RngState \<Rightarrow> (r, rng_state r))"

definition rng_update :: "rng_register \<Rightarrow> u32 \<Rightarrow> rng \<Rightarrow> rng" where
  "rng_update reg value r = (if reg = RngSeed then rng_set_seed value r else r)"

definition rng_inspect :: "rng \<Rightarrow> u32" where
  "rng_inspect r = rng_state r"

section \<open>The stages are injective\<close>

lemma push_bit_fixpoint:
  fixes z :: u32
  assumes "0 < k" and "z = push_bit k z"
  shows "z = 0"
proof -
  have "\<not> bit z n" if "n < 32" for n
    using that
  proof (induction n rule: less_induct)
    case (less n)
    have "bit z n \<longleftrightarrow> bit (push_bit k z) n"
      using assms(2) by simp
    with less assms(1) show ?case
      by (auto simp: bit_push_bit_iff)
  qed
  then show ?thesis
    by (intro bit_word_eqI) simp
qed

lemma drop_bit_fixpoint:
  fixes z :: u32
  assumes "0 < k" and "z = drop_bit k z"
  shows "z = 0"
proof -
  have "\<not> bit z (32 - n)" if "0 < n" "n \<le> 32" for n
    using that
  proof (induction n rule: less_induct)
    case (less n)
    have eq: "bit z (32 - n) \<longleftrightarrow> bit z (k + (32 - n))"
      using assms(2) by (metis bit_drop_bit_eq comp_apply)
    show ?case
    proof (cases "k < n")
      case True
      then have "k + (32 - n) = 32 - (n - k)" using less by simp
      moreover have "\<not> bit z (32 - (n - k))"
        by (rule less.IH) (use True assms(1) less.prems in simp_all)
      ultimately show ?thesis using eq by simp
    next
      case False
      then have "\<not> bit z (k + (32 - n))" using less by (auto dest: bit_imp_le_length)
      with eq show ?thesis by simp
    qed
  qed
  from this [of "32 - i" for i] have "\<not> bit z i" if "i < 32" for i
    using that by simp
  then show ?thesis
    by (intro bit_word_eqI) simp
qed

lemma xor_eq_0: "x XOR y = 0 \<longleftrightarrow> x = (y :: u32)"
proof
  assume eq: "x XOR y = 0"
  have "(x XOR y) XOR y = x"
    by (simp only: xor.assoc bit.xor_self xor.right_neutral)
  then show "x = y"
    by (simp only: eq xor.left_neutral)
qed (simp only: bit.xor_self)

lemma xor_swap:
  fixes x y a b :: u32
  assumes "x XOR a = y XOR b"
  shows "a XOR b = x XOR y"
proof -
  have "(a XOR b) XOR (x XOR y) = (x XOR a) XOR (y XOR b)"
    by (simp only: ac_simps)
  also have "\<dots> = 0"
    using assms by (simp only: bit.xor_self)
  finally show ?thesis
    by (simp only: xor_eq_0)
qed

definition left_stage :: "nat \<Rightarrow> u32 \<Rightarrow> u32" where
  "left_stage k s = s XOR push_bit k s"

definition right_stage :: "nat \<Rightarrow> u32 \<Rightarrow> u32" where
  "right_stage k s = s XOR drop_bit k s"

lemma left_stage_inj:
  assumes "0 < k"
  shows "left_stage k x = left_stage k y \<longleftrightarrow> x = y"
proof
  assume "left_stage k x = left_stage k y"
  then have "push_bit k x XOR push_bit k y = x XOR y"
    unfolding left_stage_def by (rule xor_swap)
  then have "x XOR y = 0"
    by (intro push_bit_fixpoint [OF assms]) (simp only: push_bit_xor)
  then show "x = y"
    by (simp only: xor_eq_0)
qed simp

lemma right_stage_inj:
  assumes "0 < k"
  shows "right_stage k x = right_stage k y \<longleftrightarrow> x = y"
proof
  assume "right_stage k x = right_stage k y"
  then have "drop_bit k x XOR drop_bit k y = x XOR y"
    unfolding right_stage_def by (rule xor_swap)
  then have "x XOR y = 0"
    by (intro drop_bit_fixpoint [OF assms]) (simp only: drop_bit_xor)
  then show "x = y"
    by (simp only: xor_eq_0)
qed simp

lemma rng_next_state:
  "rng_state (fst (rng_next_u32 r)) = left_stage 5 (right_stage 17 (left_stage 13 (rng_state r)))"
  by (cases r) (simp only: rng_next_u32_def Let_def left_stage_def right_stage_def fst_conv
      rng.select_convs rng.update_convs)

lemma rng_next_seed: "rng_seed (fst (rng_next_u32 r)) = rng_seed r"
  by (cases r) (simp only: rng_next_u32_def Let_def fst_conv rng.select_convs rng.update_convs)

text \<open>
  The generator's step is injective on states: two states with the same next state are the
  same, so no run of the generator loses state, and the output is the new state.
\<close>

theorem rng_step_injective:
  "rng_state (fst (rng_next_u32 a)) = rng_state (fst (rng_next_u32 b)) \<longleftrightarrow> rng_state a = rng_state b"
  by (simp add: rng_next_state left_stage_inj right_stage_inj)

section \<open>Guest accesses\<close>

datatype rng_op = RngOpRead rng_register | RngOpWrite rng_register u32

fun rng_step :: "rng_op \<Rightarrow> rng \<Rightarrow> rng" where
  "rng_step (RngOpRead reg) r = fst (rng_read reg r)"
| "rng_step (RngOpWrite reg v) r = rng_update reg v r"

lemma rng_next_nonzero:
  assumes "rng_state r \<noteq> 0"
  shows "rng_state (fst (rng_next_u32 r)) \<noteq> 0"
proof -
  have "left_stage 5 (right_stage 17 (left_stage 13 0)) = 0"
    by (simp add: left_stage_def right_stage_def)
  then have "rng_state (fst (rng_next_u32 r)) = 0 \<longleftrightarrow> rng_state r = 0"
    by (metis rng_next_state left_stage_inj right_stage_inj zero_less_numeral)
  with assms show ?thesis by simp
qed

lemma rng_step_nonzero:
  assumes "rng_state r \<noteq> 0" and "rng_seed r \<noteq> 0"
  shows "rng_state (rng_step op r) \<noteq> 0 \<and> rng_seed (rng_step op r) \<noteq> 0"
proof (cases op)
  case (RngOpRead reg)
  with assms rng_next_nonzero [of r] show ?thesis
    by (cases reg) (simp_all add: rng_read_def rng_next_seed)
next
  case (RngOpWrite reg v)
  with assms show ?thesis
    by (simp add: rng_update_def rng_set_seed_def Let_def DEFAULT_SEED_def)
qed

text \<open>
  The generator is never stuck at zero: after any sequence of guest reads and writes, a write
  of a zero seed included, its state and its seed are nonzero.
\<close>

theorem rng_never_zero:
  "rng_state (fold rng_step ops rng_new) \<noteq> 0 \<and> rng_seed (fold rng_step ops rng_new) \<noteq> 0"
proof -
  have "rng_state r \<noteq> 0 \<Longrightarrow> rng_seed r \<noteq> 0 \<Longrightarrow>
      rng_state (fold rng_step ops r) \<noteq> 0 \<and> rng_seed (fold rng_step ops r) \<noteq> 0" for r
    by (induction ops arbitrary: r) (simp_all add: rng_step_nonzero)
  then show ?thesis
    by (simp add: rng_new_def DEFAULT_SEED_def)
qed

end
