(* ===== verification/Core_Trace.thy ===== *)
theory Core_Trace
  imports Platform_Mmio
begin

text \<open>
  The trace device of \<open>minemu-core\<close> (\<open>trace.rs\<close>): writes are staged, and become events of a
  bounded history when the instruction that issued them retires.
\<close>

record trace_event =
  te_tick :: u64
  te_value :: u32

record trace_device =
  tr_staged :: "u32 list"
  tr_events :: "trace_event list"
  tr_capacity :: usize

definition trace_new :: "usize \<Rightarrow> trace_device" where
  "trace_new capacity = \<lparr>tr_staged = [], tr_events = [], tr_capacity = capacity\<rparr>"

definition trace_stage :: "u32 \<Rightarrow> trace_device \<Rightarrow> trace_device" where
  "trace_stage value d = d\<lparr>tr_staged := tr_staged d @ [value]\<rparr>"

definition trace_push :: "trace_event \<Rightarrow> trace_device \<Rightarrow> trace_device" where
  "trace_push event d =
     (if tr_capacity d = 0 then d
      else d\<lparr>tr_events := push_bounded (tr_capacity d) event (tr_events d)\<rparr>)"

text \<open>The loop of \<open>retire\<close> over the staged values, with the events it has committed.\<close>

fun trace_commit :: "u64 \<Rightarrow> u32 list \<Rightarrow> trace_device \<Rightarrow> trace_event list \<Rightarrow> trace_device \<times> trace_event list" where
  "trace_commit tick [] d committed = (d, committed)"
| "trace_commit tick (v # vs) d committed =
     (if tr_capacity d = 0 then trace_commit tick vs d committed
      else let event = \<lparr>te_tick = tick, te_value = v\<rparr>
           in trace_commit tick vs (trace_push event d) (committed @ [event]))"

definition trace_retire :: "u64 \<Rightarrow> trace_device \<Rightarrow> trace_device \<times> trace_event list" where
  "trace_retire tick d = trace_commit tick (tr_staged d) (d\<lparr>tr_staged := []\<rparr>) []"

definition trace_read :: "trace_register \<Rightarrow> trace_device \<Rightarrow> u32" where
  "trace_read r d = 0"

definition trace_update :: "trace_register \<Rightarrow> u32 \<Rightarrow> trace_device \<Rightarrow> trace_device" where
  "trace_update r value d = (if r = TraceEventReg then trace_stage value d else d)"

definition trace_inspect :: "trace_device \<Rightarrow> trace_event list" where
  "trace_inspect d = tr_events d"

interpretation trace_log: bounded_history trace_push tr_events tr_capacity
  by unfold_locales (simp_all add: trace_push_def)

lemma trace_commit_fold:
  "trace_commit tick vs d committed =
     (let es = map (\<lambda>v. \<lparr>te_tick = tick, te_value = v\<rparr>) vs
      in (fold trace_push es d, committed @ (if tr_capacity d = 0 then [] else es)))"
  by (induction vs arbitrary: d committed) (simp_all add: Let_def trace_log.push_cap, simp add: trace_push_def)

lemma fold_trace_push_staged: "tr_staged (fold trace_push es d) = tr_staged d"
  by (induction es arbitrary: d) (simp_all add: trace_push_def)

lemma fold_trace_push_capacity: "tr_capacity (fold trace_push es d) = tr_capacity d"
  by (induction es arbitrary: d) (simp_all add: trace_push_def)

text \<open>
  Retirement commits every staged value, in order, with the tick of the instruction: the
  history becomes the last events of old and new that fit, nothing stays staged, and the
  caller receives the new events even when the history cannot hold them all.
\<close>

theorem trace_retire_commits:
  assumes "length (tr_events d) \<le> tr_capacity d"
  shows "trace_retire tick d =
    (let es = map (\<lambda>v. \<lparr>te_tick = tick, te_value = v\<rparr>) (tr_staged d)
     in (d\<lparr>tr_staged := [], tr_events := last_n (tr_capacity d) (tr_events d @ es)\<rparr>,
         if tr_capacity d = 0 then [] else es))"
proof -
  let ?es = "map (\<lambda>v. \<lparr>te_tick = tick, te_value = v\<rparr>) (tr_staged d)"
  let ?f = "fold trace_push ?es (d\<lparr>tr_staged := []\<rparr>)"
  have "tr_capacity ?f = tr_capacity d \<and> tr_events ?f = last_n (tr_capacity d) (tr_events d @ ?es)"
    using trace_log.push_all [of "d\<lparr>tr_staged := []\<rparr>" ?es] assms by simp
  moreover have "tr_staged ?f = []"
    by (simp add: fold_trace_push_staged)
  ultimately have "?f = d\<lparr>tr_staged := [], tr_events := last_n (tr_capacity d) (tr_events d @ ?es)\<rparr>"
    by simp
  then show ?thesis
    by (simp add: trace_retire_def trace_commit_fold Let_def)
qed

theorem trace_retire_commits_witness:
  "trace_retire 7 (trace_stage 5 (trace_stage 4 (trace_new 1))) =
     (\<lparr>tr_staged = [], tr_events = [\<lparr>te_tick = 7, te_value = 5\<rparr>], tr_capacity = 1\<rparr>,
      [\<lparr>te_tick = 7, te_value = 4\<rparr>, \<lparr>te_tick = 7, te_value = 5\<rparr>])"
  using trace_retire_commits [of "trace_stage 5 (trace_stage 4 (trace_new 1))" 7]
  by (simp add: trace_stage_def trace_new_def last_n_def Let_def)

end
