(* ===== verification/Core_Block.thy ===== *)
theory Core_Block
  imports Core_Interrupt
begin

text \<open>
  The block device of \<open>minemu-core\<close> (\<open>block.rs\<close>): two media units with write-back dirty
  tracking, a command that is snapshotted when accepted and executed by DMA thirty-two ticks
  later, and the completion interrupt. The host's write of a flushed medium is a parameter.
\<close>

section \<open>State\<close>

definition SECTOR_SIZE :: usize where "SECTOR_SIZE = 512"
definition COMPLETION_DELAY :: u64 where "COMPLETION_DELAY = 32"

record block_request =
  rq_command :: u32
  rq_lba :: u32
  rq_sector_count :: u32
  rq_dma_address :: physical_address
  rq_unit :: u32
  rq_deadline :: u64

record media_unit =
  mu_media :: "u8 list option"
  mu_dirty_sectors :: "nat set"

record block_device =
  bd_lba :: u32
  bd_sector_count :: u32
  bd_dma_address :: physical_address
  bd_unit :: u32
  bd_completion_irq_enabled :: bool
  bd_complete :: bool
  bd_error :: block_error
  bd_active :: "block_request option"
  bd_units :: "media_unit list"

datatype block_input =
    BlockAttach u32 "u8 list"
  | BlockDetach u32
  | BlockWrite block_register u32 u64
  | BlockFlushFailed u32

definition media_unit_default :: media_unit where
  "media_unit_default = \<lparr>mu_media = None, mu_dirty_sectors = {}\<rparr>"

definition block_new :: block_device where
  "block_new = \<lparr>bd_lba = 0, bd_sector_count = 0, bd_dma_address = PhysicalAddress 0, bd_unit = 0,
     bd_completion_irq_enabled = False, bd_complete = False, bd_error = NoError, bd_active = None,
     bd_units = replicate UNIT_COUNT media_unit_default\<rparr>"

section \<open>Register operations\<close>

definition unit_index :: "u32 \<Rightarrow> core_error + usize" where
  "unit_index u = (if unat u < UNIT_COUNT then Ok (unat u) else Err (InvalidBlockUnit u))"

definition block_set_unit_state :: "usize \<Rightarrow> media_unit \<Rightarrow> block_device \<Rightarrow> block_device" where
  "block_set_unit_state i s b = b\<lparr>bd_units := (bd_units b)[i := s]\<rparr>"

definition block_attach :: "u32 \<Rightarrow> u8 list \<Rightarrow> block_device \<Rightarrow> core_error + block_device" where
  "block_attach u media b =
     (if media = [] \<or> length media mod SECTOR_SIZE \<noteq> 0 then Err (InvalidBlockMedia u)
      else and_then (unit_index u) (\<lambda>i.
        Ok (block_set_unit_state i \<lparr>mu_media = Some media, mu_dirty_sectors = {}\<rparr> b)))"

definition block_detach :: "u32 \<Rightarrow> block_device \<Rightarrow> core_error + block_device" where
  "block_detach u b =
     and_then (unit_index u) (\<lambda>i.
       Ok (block_set_unit_state i \<lparr>mu_media = None, mu_dirty_sectors = {}\<rparr> b))"

definition block_status :: "block_device \<Rightarrow> u32" where
  "block_status b =
     (if bd_active b \<noteq> None then STATUS_BUSY else 0)
     OR (if bd_complete b then STATUS_COMPLETE else 0)
     OR (if bd_error b = NoError then 0 else STATUS_ERROR)"

definition block_irq_pending :: "block_device \<Rightarrow> bool" where
  "block_irq_pending b \<longleftrightarrow> bd_completion_irq_enabled b \<and> bd_complete b"

definition block_control :: "block_device \<Rightarrow> u32" where
  "block_control b = of_bool (bd_completion_irq_enabled b)"

definition block_set_control :: "u32 \<Rightarrow> block_device \<Rightarrow> block_device" where
  "block_set_control control b = b\<lparr>bd_completion_irq_enabled := (control AND 1 \<noteq> 0)\<rparr>"

definition block_command :: "u32 \<Rightarrow> u64 \<Rightarrow> block_device \<Rightarrow> block_device" where
  "block_command command now b =
     (if bd_active b \<noteq> None then b\<lparr>bd_complete := True, bd_error := Busy\<rparr>
      else b\<lparr>bd_complete := False, bd_error := NoError,
             bd_active := Some \<lparr>rq_command = command, rq_lba = bd_lba b,
               rq_sector_count = bd_sector_count b, rq_dma_address = bd_dma_address b,
               rq_unit = bd_unit b, rq_deadline = now + COMPLETION_DELAY\<rparr>\<rparr>)"

definition block_ack :: "block_device \<Rightarrow> block_device" where
  "block_ack b = b\<lparr>bd_complete := False, bd_error := NoError\<rparr>"

definition block_signal :: "block_device \<Rightarrow> interrupt_signal" where
  "block_signal b = \<lparr>sig_source = SrcBlock, sig_pending = block_irq_pending b\<rparr>"

definition block_mark_flush_failed :: "block_device \<Rightarrow> block_device \<times> interrupt_signal list" where
  "block_mark_flush_failed b =
     (let b = b\<lparr>bd_error := DeferredPersistence, bd_complete := True\<rparr> in (b, [block_signal b]))"

definition block_dirty_sector_count :: "u32 \<Rightarrow> block_device \<Rightarrow> core_error + usize" where
  "block_dirty_sector_count u b =
     and_then (unit_index u) (\<lambda>i. Ok (card (mu_dirty_sectors (bd_units b ! i))))"

definition block_media_clone :: "u32 \<Rightarrow> block_device \<Rightarrow> core_error + u8 list option" where
  "block_media_clone u b = and_then (unit_index u) (\<lambda>i. Ok (mu_media (bd_units b ! i)))"

definition block_read :: "block_register \<Rightarrow> block_device \<Rightarrow> u32" where
  "block_read r b = (case r of
     BlkLba \<Rightarrow> bd_lba b
   | BlkSectorCount \<Rightarrow> bd_sector_count b
   | BlkPhysicalAddress \<Rightarrow> pa_get (bd_dma_address b)
   | BlkStatus \<Rightarrow> block_status b
   | BlkError \<Rightarrow> block_error_code (bd_error b)
   | BlkControl \<Rightarrow> block_control b
   | BlkUnit \<Rightarrow> bd_unit b
   | BlkCommand \<Rightarrow> 0
   | BlkAck \<Rightarrow> 0)"

text \<open>The register writes of \<open>Peripheral::update\<close>, before the level is signalled.\<close>

definition block_write :: "block_register \<Rightarrow> u32 \<Rightarrow> u64 \<Rightarrow> block_device \<Rightarrow> block_device" where
  "block_write r value now b = (case r of
     BlkCommand \<Rightarrow> block_command value now b
   | BlkLba \<Rightarrow> b\<lparr>bd_lba := value\<rparr>
   | BlkSectorCount \<Rightarrow> b\<lparr>bd_sector_count := value\<rparr>
   | BlkPhysicalAddress \<Rightarrow> b\<lparr>bd_dma_address := PhysicalAddress value\<rparr>
   | BlkAck \<Rightarrow> block_ack b
   | BlkControl \<Rightarrow> block_set_control value b
   | BlkUnit \<Rightarrow> b\<lparr>bd_unit := value\<rparr>
   | BlkStatus \<Rightarrow> b
   | BlkError \<Rightarrow> b)"

definition block_update ::
  "block_input \<Rightarrow> block_device \<Rightarrow> core_error + block_device \<times> interrupt_signal list" where
  "block_update u b =
     and_then (case u of
         BlockAttach n media \<Rightarrow> and_then (block_attach n media b) (\<lambda>b. Ok (b, []))
       | BlockDetach n \<Rightarrow> and_then (block_detach n b) (\<lambda>b. Ok (b, []))
       | BlockFlushFailed n \<Rightarrow> and_then (unit_index n) (\<lambda>_. Ok (block_mark_flush_failed b))
       | BlockWrite r value now \<Rightarrow> Ok (block_write r value now b, []))
       (\<lambda>(b', gs). Ok (b', gs @ [block_signal b']))"

section \<open>Execution and completion\<close>

text \<open>
  \<open>BlockDevice::execute\<close>. Every early return comes before the first change, so an error keeps
  the device and the memory; success returns the code \<open>NoError\<close> of the source.
\<close>

definition block_execute ::
  "'m memory_ops \<Rightarrow> block_request \<Rightarrow> block_device \<Rightarrow> 'm \<Rightarrow> block_error + block_device \<times> 'm \<times> block_error" where
  "block_execute ops request b mem =
     and_then (if unat (rq_unit request) < UNIT_COUNT then Ok (unat (rq_unit request)) else Err InvalidUnit) (\<lambda>u.
     if \<not> (rq_command request = 1 \<or> rq_command request = 2) then Err InvalidCommand
     else
     and_then (ok_or (checked_mul_usize (unat (rq_sector_count request)) SECTOR_SIZE) InvalidLba) (\<lambda>byte_count.
     and_then (ok_or (u32_try_from_usize byte_count) InvalidDma) (\<lambda>byte_count_u32.
     and_then (map_err (\<lambda>_. InvalidDma) (physical_range_new (rq_dma_address request) byte_count_u32)) (\<lambda>dma_range.
     if pa_get (rq_dma_address request) AND 0x1ff \<noteq> 0 \<or> \<not> contains_range (mem_range Ram) dma_range
     then Err InvalidDma
     else
     let state = bd_units b ! u in
     and_then (ok_or (mu_media state) NoMedia) (\<lambda>media.
     and_then (ok_or (checked_mul_usize (unat (rq_lba request)) SECTOR_SIZE) InvalidLba) (\<lambda>start.
     and_then (ok_or (checked_add_usize start byte_count) InvalidLba) (\<lambda>finish.
     and_then (ok_or (slice_get media start finish) InvalidLba) (\<lambda>sectors.
     if rq_command request = 1
     then and_then (map_err (\<lambda>_. InvalidDma) (op_write_range ops mem (rq_dma_address request) sectors))
            (\<lambda>mem'. Ok (b, mem', NoError))
     else and_then (map_err (\<lambda>_. InvalidDma) (op_read_range ops mem dma_range (length sectors))) (\<lambda>bytes.
            let first = unat (rq_lba request);
                last = unat (rq_lba request + rq_sector_count request);
                state' = \<lparr>mu_media = Some (slice_put media start bytes),
                          mu_dirty_sectors = mu_dirty_sectors state \<union> {first..<last}\<rparr>
            in Ok (block_set_unit_state u state' b, mem, NoError))))))))))"

definition block_advance_to ::
  "'m memory_ops \<Rightarrow> u64 \<Rightarrow> block_device \<Rightarrow> 'm \<Rightarrow> block_device \<times> 'm \<times> interrupt_signal list \<times> bool" where
  "block_advance_to ops now b mem = (case bd_active b of
     None \<Rightarrow> (b, mem, [], False)
   | Some request \<Rightarrow>
       if rq_deadline request > now then (b, mem, [], False)
       else
         let b = b\<lparr>bd_active := None\<rparr>;
             (b, mem, code) = (case block_execute ops request b mem of
               Inl code \<Rightarrow> (b, mem, code)
             | Inr (b', mem', code) \<Rightarrow> (b', mem', code));
             b = b\<lparr>bd_error := code, bd_complete := True\<rparr>
         in (b, mem, [block_signal b], block_irq_pending b))"

text \<open>
  The caller's closure writes the whole medium to the host; what it captures is the state \<open>'h\<close>.
\<close>

definition block_flush ::
  "u32 \<Rightarrow> (u8 list \<Rightarrow> 'h \<Rightarrow> 'h \<times> (io_error + unit)) \<Rightarrow> block_device \<Rightarrow> 'h
   \<Rightarrow> block_device \<times> 'h \<times> interrupt_signal list \<times> (core_error + unit)" where
  "block_flush u write_media b h = (case unit_index u of
     Inl e \<Rightarrow> (b, h, [], Err e)
   | Inr i \<Rightarrow>
       let state = bd_units b ! i in
       if mu_dirty_sectors state = {} then (b, h, [], Ok ())
       else case mu_media state of
         None \<Rightarrow> (b, h, [], Err (InvalidBlockMedia u))
       | Some media \<Rightarrow>
           (case write_media media h of
              (h, Inl error) \<Rightarrow>
                (let (b, gs) = block_mark_flush_failed b in (b, h, gs, Err (BlockFlush u error)))
            | (h, Inr _) \<Rightarrow>
                (block_set_unit_state i (state\<lparr>mu_dirty_sectors := {}\<rparr>) b, h, [], Ok ())))"

record block_unit_inspection =
  bu_dirty_sector_count :: usize
  bu_media_attached :: bool

record block_inspection =
  bi_lba :: u32
  bi_sector_count :: u32
  bi_dma_address :: u32
  bi_control :: u32
  bi_status :: u32
  bi_error :: u32
  bi_unit :: u32
  bi_active_unit :: "u32 option"
  bi_units :: "block_unit_inspection list"

definition block_inspect :: "block_device \<Rightarrow> block_inspection" where
  "block_inspect b = \<lparr>bi_lba = bd_lba b, bi_sector_count = bd_sector_count b,
     bi_dma_address = pa_get (bd_dma_address b), bi_control = block_control b,
     bi_status = block_status b, bi_error = block_error_code (bd_error b), bi_unit = bd_unit b,
     bi_active_unit = map_option rq_unit (bd_active b),
     bi_units = map (\<lambda>s. \<lparr>bu_dirty_sector_count = card (mu_dirty_sectors s),
       bu_media_attached = (mu_media s \<noteq> None)\<rparr>) (bd_units b)\<rparr>"

section \<open>What execution does\<close>

text \<open>
  The memory a DMA transfer relies on: besides the contract of the walker's memory, whole ranges
  of RAM can be read and written.
\<close>

locale dma_access = ram_backed_access +
  assumes read_range_ram: "0 < n \<Longrightarrow> unat (pr_length r) = n \<Longrightarrow>
      0x40000000 \<le> unat (pa_get (pr_start r)) \<Longrightarrow> unat (pa_get (pr_start r)) + n \<le> 0x44000000 \<Longrightarrow>
      \<exists>bs. op_read_range ops m r n = Ok bs"
    and write_range_ram: "0 < length bs \<Longrightarrow>
      0x40000000 \<le> unat (pa_get a) \<Longrightarrow> unat (pa_get a) + length bs \<le> 0x44000000 \<Longrightarrow>
      \<exists>m'. op_write_range ops m a bs = Ok m'"

interpretation pm_dma: dma_access physical_memory_ops mem_byte ram_address
proof
  fix m n and r :: physical_range
  assume n: "0 < n" "unat (pr_length r) = n" "0x40000000 \<le> unat (pa_get (pr_start r))"
    "unat (pa_get (pr_start r)) + n \<le> 0x44000000"
  then have "region_of (pr_start r) = Some Ram"
    by (simp add: region_of_Some_bounds mem_layout)
  with n show "\<exists>bs. op_read_range physical_memory_ops m r n = Ok bs"
    by (simp add: physical_memory_ops_def mem_read_range_def region_slice_storage is_device_def mem_layout Let_def)
next
  fix m and bs :: "u8 list" and a
  assume "0 < length bs" "0x40000000 \<le> unat (pa_get a)" "unat (pa_get a) + length bs \<le> 0x44000000"
  then show "\<exists>m'. op_write_range physical_memory_ops m a bs = Ok m'"
    using length_greater_0_conv [of bs] by (simp del: length_greater_0_conv add: physical_memory_ops_def mem_write_range_Ok region_of_Some_bounds mem_layout)
qed

text \<open>
  The conditions that docs/platform/devices-v2.md gives for the guest errors of a request
  (BLOCK-003, BLOCK-004, BLOCK-008). The document gives conditions, not an order: several can hold
  of one request.
\<close>

definition dma_request_ok :: "block_request \<Rightarrow> bool" where
  "dma_request_ok rq \<longleftrightarrow>
     (let n = unat (rq_sector_count rq) * 512; a = unat (pa_get (rq_dma_address rq))
      in 0 < n \<and> 512 dvd a \<and> 0x40000000 \<le> a \<and> a + n \<le> 0x44000000)"

fun error_applies :: "block_error \<Rightarrow> block_request \<Rightarrow> block_device \<Rightarrow> bool" where
  "error_applies InvalidUnit rq b = (2 \<le> unat (rq_unit rq))"
| "error_applies InvalidCommand rq b = (rq_command rq \<noteq> 1 \<and> rq_command rq \<noteq> 2)"
| "error_applies InvalidDma rq b = (\<not> dma_request_ok rq)"
| "error_applies NoMedia rq b = (unat (rq_unit rq) < 2 \<and> mu_media (bd_units b ! unat (rq_unit rq)) = None)"
| "error_applies InvalidLba rq b = (unat (rq_unit rq) < 2 \<and>
     (case mu_media (bd_units b ! unat (rq_unit rq)) of
        None \<Rightarrow> False
      | Some media \<Rightarrow> length media < (unat (rq_lba rq) + unat (rq_sector_count rq)) * 512))"
| "error_applies _ rq b = False"

text \<open>The one of them that the code reports: the first in the order of the checks of \<open>execute\<close>.\<close>

definition block_fault :: "block_request \<Rightarrow> block_device \<Rightarrow> block_error" where
  "block_fault rq b =
     (if 2 \<le> unat (rq_unit rq) then InvalidUnit
      else if rq_command rq \<noteq> 1 \<and> rq_command rq \<noteq> 2 then InvalidCommand
      else if \<not> dma_request_ok rq then InvalidDma
      else case mu_media (bd_units b ! unat (rq_unit rq)) of
        None \<Rightarrow> NoMedia
      | Some media \<Rightarrow>
          if length media < (unat (rq_lba rq) + unat (rq_sector_count rq)) * 512 then InvalidLba
          else NoError)"

lemma u32_and_1ff: "(v :: u32) AND 0x1ff = 0 \<longleftrightarrow> 512 dvd unat v"
proof -
  have "v AND 0x1ff = take_bit 9 v"
    by (simp add: take_bit_eq_mask mask_eq_exp_minus_1)
  then have "v AND 0x1ff = 0 \<longleftrightarrow> unat (take_bit 9 v) = 0"
    by (simp add: unat_eq_zero)
  also have "\<dots> \<longleftrightarrow> 512 dvd unat v"
    by (simp add: unsigned_take_bit_eq take_bit_eq_mod dvd_eq_mod_eq_0 unat_mod_distrib)
  finally show ?thesis .
qed

lemma sector_mul: "checked_mul_usize (unat (c :: u32)) SECTOR_SIZE = Some (unat c * 512)"
  using unat_u32_lt [of c] by (simp add: checked_mul_usize_def SECTOR_SIZE_def usize_max_def)

lemma sector_add: "checked_add_usize (unat (a :: u32) * 512) (unat (c :: u32) * 512) = Some (unat a * 512 + unat c * 512)"
  using unat_u32_lt [of c] unat_u32_lt [of a]
  by (simp add: checked_add_usize_def usize_max_def)

text \<open>The chain of checks on the transfer range comes down to \<open>dma_request_ok\<close>.\<close>

definition dma_range_of :: "block_request \<Rightarrow> physical_range" where
  "dma_range_of rq = \<lparr>pr_start = rq_dma_address rq, pr_length = of_nat (unat (rq_sector_count rq) * 512)\<rparr>"

lemma dma_range_checks:
  "and_then (ok_or (u32_try_from_usize (unat (rq_sector_count rq) * 512)) InvalidDma) (\<lambda>c.
     and_then (map_err (\<lambda>_. InvalidDma) (physical_range_new (rq_dma_address rq) c)) (\<lambda>r.
       if pa_get (rq_dma_address rq) AND 0x1ff \<noteq> 0 \<or> \<not> contains_range (mem_range Ram) r
       then Err InvalidDma else f r)) =
   (if dma_request_ok rq then f (dma_range_of rq) else Err InvalidDma)"
proof (cases "unat (rq_sector_count rq) * 512 < 2 ^ 32")
  case True
  define n where "n = unat (rq_sector_count rq) * 512"
  define c :: u32 where "c = of_nat n"
  have tf: "u32_try_from_usize n = Some c" and c: "unat c = n"
    using True by (simp_all add: u32_try_from_usize_def n_def [symmetric] c_def unsigned_of_nat
        take_bit_nat_eq_self)
  have range: "dma_range_of rq = \<lparr>pr_start = rq_dma_address rq, pr_length = c\<rparr>"
    by (simp only: dma_range_of_def n_def [symmetric] c_def [symmetric])
  have ok: "dma_request_ok rq \<longleftrightarrow> (let a = unat (pa_get (rq_dma_address rq))
      in 0 < n \<and> 512 dvd a \<and> 0x40000000 \<le> a \<and> a + n \<le> 0x44000000)"
    by (simp only: dma_request_ok_def n_def [symmetric] Let_def)
  have new: "physical_range_new (rq_dma_address rq) c = Ok r \<longleftrightarrow>
      0 < n \<and> unat (pa_get (rq_dma_address rq)) + n \<le> 2 ^ 32
      \<and> r = \<lparr>pr_start = rq_dma_address rq, pr_length = c\<rparr>" for r
    using c by (auto simp: physical_range_new_Ok unat_gt_0)
  show ?thesis
  proof (cases "physical_range_new (rq_dma_address rq) c")
    case (Inl e)
    then have "\<not> (0 < n \<and> unat (pa_get (rq_dma_address rq)) + n \<le> 2 ^ 32)"
      using new [of "\<lparr>pr_start = rq_dma_address rq, pr_length = c\<rparr>"] by simp
    then show ?thesis
      unfolding n_def [symmetric] tf ok range by (auto simp: Inl Let_def)
  next
    case (Inr r)
    with new have "0 < n" "r = \<lparr>pr_start = rq_dma_address rq, pr_length = c\<rparr>"
      by auto
    then show ?thesis
      unfolding n_def [symmetric] tf ok range
      by (simp add: Inr c u32_and_1ff contains_range_iff mem_base_def [symmetric]
          mem_size_def [symmetric] mem_layout Let_def)
  qed
next
  case False
  then show ?thesis
    by (simp add: u32_try_from_usize_def dma_request_ok_def Let_def)
qed

text \<open>The effect of a request without a fault, on the medium of its unit and on memory.\<close>

definition request_media :: "block_request \<Rightarrow> block_device \<Rightarrow> u8 list" where
  "request_media rq b = the (mu_media (bd_units b ! unat (rq_unit rq)))"

definition stored_unit :: "block_request \<Rightarrow> u8 list \<Rightarrow> media_unit \<Rightarrow> media_unit" where
  "stored_unit rq bs s =
     (let lba = unat (rq_lba rq)
      in \<lparr>mu_media = Some (slice_put (the (mu_media s)) (lba * 512) bs),
          mu_dirty_sectors = mu_dirty_sectors s \<union> {lba ..< lba + unat (rq_sector_count rq)}\<rparr>)"

definition media_addressable :: "block_device \<Rightarrow> bool" where
  "media_addressable b \<longleftrightarrow>
     (\<forall>s\<in>set (bd_units b). \<forall>media. mu_media s = Some media \<longrightarrow> length media < 2 ^ 41)"

lemma sector_range_no_wrap:
  assumes "(unat (lba :: u32) + unat (count :: u32)) * 512 \<le> n" and "n < 2 ^ 41"
  shows "unat (lba + count) = unat lba + unat count"
proof (rule unat_add_no_wrap)
  have "(unat lba + unat count) * 512 < 2 ^ 41" using assms by linarith
  then show "unat lba + unat count < 2 ^ LENGTH(32)" by simp
qed

lemma block_execute_checks:
  "block_execute ops rq b m =
     (if block_fault rq b \<noteq> NoError then Err (block_fault rq b)
      else
        let start = unat (rq_lba rq) * 512;
            count = unat (rq_sector_count rq) * 512;
            media = request_media rq b;
            state = bd_units b ! unat (rq_unit rq)
        in if rq_command rq = 1
           then and_then (map_err (\<lambda>_. InvalidDma)
                  (op_write_range ops m (rq_dma_address rq) (take count (drop start media))))
                  (\<lambda>m'. Ok (b, m', NoError))
           else and_then (map_err (\<lambda>_. InvalidDma) (op_read_range ops m (dma_range_of rq) count)) (\<lambda>bytes.
                  Ok (block_set_unit_state (unat (rq_unit rq))
                        \<lparr>mu_media = Some (slice_put media start bytes),
                         mu_dirty_sectors = mu_dirty_sectors state
                           \<union> {unat (rq_lba rq) ..< unat (rq_lba rq + rq_sector_count rq)}\<rparr> b,
                      m, NoError)))"
proof (cases "unat (rq_unit rq) < 2 \<and> (rq_command rq = 1 \<or> rq_command rq = 2) \<and> dma_request_ok rq")
  case False
  then show ?thesis
    unfolding block_execute_def sector_mul and_then.simps ok_or.simps dma_range_checks
    by (auto simp: block_fault_def UNIT_COUNT_def)
next
  case True
  show ?thesis
  proof (cases "mu_media (bd_units b ! unat (rq_unit rq))")
    case None
    with True show ?thesis
      unfolding block_execute_def sector_mul and_then.simps ok_or.simps dma_range_checks
      by (simp add: block_fault_def UNIT_COUNT_def)
  next
    case (Some media)
    let ?s = "unat (rq_lba rq) * 512" and ?n = "unat (rq_sector_count rq) * 512"
    have slice: "slice_get media ?s (?s + ?n) =
        (if length media < (unat (rq_lba rq) + unat (rq_sector_count rq)) * 512 then None
         else Some (take ?n (drop ?s media)))"
      by (auto simp: slice_get_def add_mult_distrib)
    show ?thesis
    proof (cases "length media < (unat (rq_lba rq) + unat (rq_sector_count rq)) * 512")
      case short: True
      from True Some short show ?thesis
        unfolding block_execute_def sector_mul and_then.simps ok_or.simps dma_range_checks
        by (simp add: block_fault_def UNIT_COUNT_def sector_mul sector_add slice)
    next
      case fits: False
      then have "length (take ?n (drop ?s media)) = ?n"
        by (simp add: add_mult_distrib)
      with True Some fits show ?thesis
        unfolding block_execute_def sector_mul and_then.simps ok_or.simps dma_range_checks
        by (simp add: block_fault_def UNIT_COUNT_def sector_mul sector_add slice request_media_def Let_def)
           (use True in auto)
    qed
  qed
qed

lemma block_fault_NoError:
  "block_fault rq b = NoError \<longleftrightarrow>
     unat (rq_unit rq) < 2 \<and> (rq_command rq = 1 \<or> rq_command rq = 2) \<and> dma_request_ok rq
     \<and> (\<exists>media. mu_media (bd_units b ! unat (rq_unit rq)) = Some media
          \<and> (unat (rq_lba rq) + unat (rq_sector_count rq)) * 512 \<le> length media)"
  by (auto simp: block_fault_def split: option.splits)

lemma block_fault_applies: "block_fault rq b \<noteq> NoError \<Longrightarrow> error_applies (block_fault rq b) rq b"
  by (auto simp: block_fault_def split: option.split if_splits)

lemma no_fault_no_error: "block_fault rq b = NoError \<Longrightarrow> \<not> error_applies e rq b"
  by (cases e) (auto simp: block_fault_NoError)

text \<open>
  A unit of the controller without a medium does not always report that: the command and the memory
  range are checked first, although BLOCK-008 of the document asks for No Media.
\<close>

lemma unattached_unit_reports:
  assumes "unat (rq_unit rq) < 2" and "mu_media (bd_units b ! unat (rq_unit rq)) = None"
  shows "block_execute ops rq b m =
    Err (if rq_command rq \<noteq> 1 \<and> rq_command rq \<noteq> 2 then InvalidCommand
         else if dma_request_ok rq then NoMedia else InvalidDma)"
  using assms by (auto simp: block_execute_checks block_fault_def)

context dma_access
begin

lemma execute_read_command:
  assumes "block_fault rq b = NoError" and "rq_command rq = 1"
  shows "\<exists>m'. block_execute ops rq b m = Ok (b, m', NoError)
     \<and> byte m' = put_bytes (byte m) (unat (pa_get (rq_dma_address rq)))
         (take (unat (rq_sector_count rq) * 512) (drop (unat (rq_lba rq) * 512) (request_media rq b)))"
proof -
  let ?bs = "take (unat (rq_sector_count rq) * 512) (drop (unat (rq_lba rq) * 512) (request_media rq b))"
  have "length ?bs = unat (rq_sector_count rq) * 512"
    using assms(1) by (auto simp: block_fault_NoError request_media_def)
  then obtain m' where "op_write_range ops m (rq_dma_address rq) ?bs = Ok m'"
    using write_range_ram [of ?bs "rq_dma_address rq" m] assms(1)
    by (auto simp: block_fault_NoError dma_request_ok_def Let_def)
  with assms write_range_law [OF this] show ?thesis
    by (simp add: block_execute_checks Let_def)
qed

lemma execute_write_command:
  assumes "block_fault rq b = NoError" and "rq_command rq = 2" and "media_addressable b"
    and "unat (rq_unit rq) < length (bd_units b)"
  shows "\<exists>bs. length bs = unat (rq_sector_count rq) * 512
     \<and> holds (byte m) (unat (pa_get (rq_dma_address rq))) bs
     \<and> block_execute ops rq b m =
         Ok (block_set_unit_state (unat (rq_unit rq))
               (stored_unit rq bs (bd_units b ! unat (rq_unit rq))) b, m, NoError)"
proof -
  let ?n = "unat (rq_sector_count rq) * 512"
  from assms(1) obtain media where media: "mu_media (bd_units b ! unat (rq_unit rq)) = Some media"
    "(unat (rq_lba rq) + unat (rq_sector_count rq)) * 512 \<le> length media"
    by (auto simp: block_fault_NoError)
  moreover from assms(3,4) media(1) have "length media < 2 ^ 41"
    by (auto simp: media_addressable_def)
  ultimately have nowrap: "unat (rq_lba rq + rq_sector_count rq) = unat (rq_lba rq) + unat (rq_sector_count rq)"
    by (intro sector_range_no_wrap)
  have ok: "dma_request_ok rq"
    using assms(1) by (simp add: block_fault_NoError)
  then have "?n < 2 ^ 32"
    by (auto simp: dma_request_ok_def Let_def)
  then have len: "unat (pr_length (dma_range_of rq)) = ?n"
    by (simp only: dma_range_of_def physical_range.simps unsigned_of_nat) (simp add: take_bit_nat_eq_self)
  have start: "pr_start (dma_range_of rq) = rq_dma_address rq"
    by (simp add: dma_range_of_def)
  obtain bs where bs: "op_read_range ops m (dma_range_of rq) ?n = Ok bs"
    using read_range_ram [of ?n "dma_range_of rq" m] ok len
    by (auto simp: dma_request_ok_def Let_def start)
  from read_range_law [OF this] have "length bs = ?n"
    "holds (byte m) (unat (pa_get (rq_dma_address rq))) bs"
    by (simp_all add: start)
  with assms(1,2) bs media(1) nowrap show ?thesis
    by (auto simp: block_execute_checks Let_def stored_unit_def request_media_def)
qed

end

section \<open>Properties of execution on physical memory\<close>

definition block_wf :: "block_device \<Rightarrow> bool" where
  "block_wf b \<longleftrightarrow> length (bd_units b) = 2 \<and> media_addressable b"

text \<open>
  C12. Executing a request fails exactly when one of the documented error conditions holds of it, reports
  one that holds, the first in the order in which the code checks them (unit, command, memory
  range, medium, sectors), and then changes nothing; so a unit without a medium reports No Media, as
  BLOCK-008 asks, only when its command and its memory range are in order. Otherwise a read command writes exactly the
  requested sectors of its unit's medium to memory, and a write command stores exactly the bytes that
  memory holds there into the medium and marks those sectors, and no others, dirty. Bytes, sectors and
  units outside the request are untouched.
\<close>

theorem block_execute_conforms:
  assumes "block_wf b"
  shows "(case block_execute physical_memory_ops rq b m of
      Inl e \<Rightarrow> e = block_fault rq b \<and> error_applies e rq b
    | Inr _ \<Rightarrow> (\<forall>e. \<not> error_applies e rq b))
    \<and> (if block_fault rq b \<noteq> NoError
    then block_execute physical_memory_ops rq b m = Err (block_fault rq b)
    else if rq_command rq = 1
    then \<exists>m'. block_execute physical_memory_ops rq b m = Ok (b, m', NoError)
      \<and> mem_byte m' = put_bytes (mem_byte m) (unat (pa_get (rq_dma_address rq)))
          (take (unat (rq_sector_count rq) * 512) (drop (unat (rq_lba rq) * 512) (request_media rq b)))
    else \<exists>bs. length bs = unat (rq_sector_count rq) * 512
      \<and> holds (mem_byte m) (unat (pa_get (rq_dma_address rq))) bs
      \<and> block_execute physical_memory_ops rq b m =
          Ok (block_set_unit_state (unat (rq_unit rq))
                (stored_unit rq bs (bd_units b ! unat (rq_unit rq))) b, m, NoError))"
proof (cases "block_fault rq b = NoError")
  case False
  then show ?thesis using block_fault_applies by (simp add: block_execute_checks)
next
  case True
  note applies = no_fault_no_error [OF True]
  show ?thesis
  proof (cases "rq_command rq = 1")
    case read: True
    with True applies pm_dma.execute_read_command [OF True read, of m] show ?thesis by auto
  next
    case False
    then have storing: "rq_command rq = 2"
      using True by (auto simp: block_fault_NoError)
    have "media_addressable b" "unat (rq_unit rq) < length (bd_units b)"
      using assms True by (auto simp: block_wf_def block_fault_NoError)
    from pm_dma.execute_write_command [OF True storing this, of m] True False applies show ?thesis
      by auto
  qed
qed

definition sample_block :: block_device where
  "sample_block = block_set_unit_state 1 \<lparr>mu_media = Some (replicate 1024 7), mu_dirty_sectors = {}\<rparr> block_new"

definition sample_request :: "u32 \<Rightarrow> u32 \<Rightarrow> block_request" where
  "sample_request command dma = \<lparr>rq_command = command, rq_lba = 1, rq_sector_count = 1,
     rq_dma_address = PhysicalAddress dma, rq_unit = 1, rq_deadline = 32\<rparr>"

lemma sample_block_units:
  "bd_units sample_block =
     [media_unit_default, \<lparr>mu_media = Some (replicate 1024 7), mu_dirty_sectors = {}\<rparr>]"
  by (simp add: sample_block_def block_new_def block_set_unit_state_def UNIT_COUNT_def numeral_2_eq_2)

lemma sample_block_wf: "block_wf sample_block"
  by (simp add: block_wf_def sample_block_units media_addressable_def media_unit_default_def)

lemma sample_request_ok:
  "block_fault (sample_request 1 0x40000200) sample_block = NoError"
  "block_fault (sample_request 2 0x40000200) sample_block = NoError"
  "block_fault (sample_request 1 0x40000400) sample_block = NoError"
  by (simp_all add: block_fault_NoError sample_request_def sample_block_def block_new_def
      block_set_unit_state_def UNIT_COUNT_def dma_request_ok_def Let_def)

theorem block_execute_conforms_witness:
  "\<exists>m'. block_execute physical_memory_ops (sample_request 1 0x40000200) sample_block memory_empty
       = Ok (sample_block, m', NoError)
     \<and> mem_byte m' = put_bytes (mem_byte memory_empty) 0x40000200 (replicate 512 7)"
  using block_execute_conforms [OF sample_block_wf, of "sample_request 1 0x40000200" memory_empty]
  by (simp add: sample_request_ok)
     (simp add: sample_request_def request_media_def sample_block_def block_set_unit_state_def
        block_new_def UNIT_COUNT_def)

text \<open>
  Sectors survive a round trip: writing a run of sectors from one place in RAM and reading the
  same sectors into another puts there exactly the bytes the first place held.
\<close>

theorem block_write_read_roundtrip:
  assumes "block_wf b" and "rq_command rq = 2" and "block_fault rq b = NoError"
    and "rq' = rq\<lparr>rq_command := 1, rq_dma_address := target\<rparr>" and "block_fault rq' b = NoError"
  shows "\<exists>b' m' bs. block_execute physical_memory_ops rq b m = Ok (b', m, NoError)
     \<and> block_execute physical_memory_ops rq' b' m = Ok (b', m', NoError)
     \<and> length bs = unat (rq_sector_count rq) * 512
     \<and> holds (mem_byte m) (unat (pa_get (rq_dma_address rq))) bs
     \<and> holds (mem_byte m') (unat (pa_get target)) bs"
proof -
  let ?u = "unat (rq_unit rq)" and ?s = "unat (rq_lba rq) * 512" and ?n = "unat (rq_sector_count rq) * 512"
  from assms(3) obtain media where media: "mu_media (bd_units b ! ?u) = Some media"
      "?s + ?n \<le> length media" and u: "?u < 2"
    by (auto simp: block_fault_NoError add_mult_distrib)
  have len: "?u < length (bd_units b)"
    using u assms(1) by (simp add: block_wf_def)
  obtain bs where bs: "length bs = ?n" "holds (mem_byte m) (unat (pa_get (rq_dma_address rq))) bs"
    and wr: "block_execute physical_memory_ops rq b m =
          Ok (block_set_unit_state ?u (stored_unit rq bs (bd_units b ! ?u)) b, m, NoError)"
    using pm_dma.execute_write_command [OF assms(3,2) _ len, of m] assms(1) by (auto simp: block_wf_def)
  define b' where "b' = block_set_unit_state ?u (stored_unit rq bs (bd_units b ! ?u)) b"
  have unit: "mu_media (bd_units b' ! ?u) = Some (slice_put media ?s bs)"
    using len media by (simp add: b'_def block_set_unit_state_def stored_unit_def Let_def)
  have length: "length (slice_put media ?s bs) = length media"
    using media bs by simp
  have ok: "block_fault rq' b' = NoError"
    using assms(5) unit media length by (auto simp: block_fault_NoError assms(4))
  have cmd: "rq_command rq' = 1"
    by (simp add: assms(4))
  have sect: "take ?n (drop ?s (request_media rq' b')) = bs"
  proof -
    have "slice_get (slice_put media ?s bs) ?s (?s + ?n) = Some bs"
      using media bs by (intro slice_get_put_same) simp_all
    then show ?thesis
      by (simp add: request_media_def assms(4) unit slice_get_Some)
  qed
  from pm_dma.execute_read_command [OF ok cmd, of m] obtain m' where
    rd: "block_execute physical_memory_ops rq' b' m = Ok (b', m', NoError)"
    and m': "mem_byte m' = put_bytes (mem_byte m) (unat (pa_get target)) bs"
    using sect by (auto simp: assms(4))
  have "holds (mem_byte m') (unat (pa_get target)) bs"
    by (simp add: m')
  with wr rd bs show ?thesis
    unfolding b'_def by blast
qed

theorem block_write_read_roundtrip_witness:
  "\<exists>b' m' bs. block_execute physical_memory_ops (sample_request 2 0x40000200) sample_block memory_empty
       = Ok (b', memory_empty, NoError)
     \<and> block_execute physical_memory_ops (sample_request 1 0x40000400) b' memory_empty = Ok (b', m', NoError)
     \<and> length bs = 512 \<and> holds (mem_byte m') 0x40000400 bs"
  using block_write_read_roundtrip [OF sample_block_wf, of "sample_request 2 0x40000200"
      "sample_request 1 0x40000400" "PhysicalAddress 0x40000400" memory_empty] sample_request_ok
  by (simp add: sample_request_def) blast

section \<open>Commands and their deadline\<close>

datatype block_event = BlockRegister block_register u32 u64 | BlockTick u64

fun block_run :: "block_event list \<Rightarrow> block_device \<times> physical_memory \<Rightarrow> block_device \<times> physical_memory" where
  "block_run [] bm = bm"
| "block_run (BlockRegister r v now # es) (b, m) = block_run es (block_write r v now b, m)"
| "block_run (BlockTick now # es) (b, m) =
     (let (b', m', _) = block_advance_to physical_memory_ops now b m in block_run es (b', m'))"

lemma block_write_active:
  assumes "bd_active b = Some rq"
  shows "bd_active (block_write r v now b) = Some rq" and "bd_units (block_write r v now b) = bd_units b"
  using assms
  by (cases r; simp add: block_write_def block_command_def block_ack_def block_set_control_def)+

text \<open>
  The accepted command is a snapshot: until its deadline neither register writes, a second
  command among them, nor the passing of time change it, and no byte of memory or media moves.
\<close>

theorem block_command_snapshot:
  assumes "bd_active b = Some rq" and "\<forall>now. BlockTick now \<in> set es \<longrightarrow> now < rq_deadline rq"
  shows "bd_active (fst (block_run es (b, m))) = Some rq
     \<and> bd_units (fst (block_run es (b, m))) = bd_units b
     \<and> snd (block_run es (b, m)) = m"
  using assms
proof (induction es arbitrary: b)
  case (Cons e es)
  show ?case
  proof (cases e)
    case (BlockRegister r v now)
    with Cons.IH [of "block_write r v now b"] Cons.prems show ?thesis
      by (simp add: block_write_active)
  next
    case (BlockTick now)
    with Cons.prems have "now < rq_deadline rq" by simp
    with BlockTick Cons show ?thesis
      by (simp add: block_advance_to_def)
  qed
qed simp

theorem block_command_snapshot_witness:
  "bd_active (fst (block_run [BlockRegister BlkUnit 0 1, BlockRegister BlkCommand 2 2, BlockTick 31]
       (sample_block\<lparr>bd_active := Some (sample_request 1 0x40000200)\<rparr>, memory_empty)))
     = Some (sample_request 1 0x40000200)"
  using block_command_snapshot [of "sample_block\<lparr>bd_active := Some (sample_request 1 0x40000200)\<rparr>"
      "sample_request 1 0x40000200" "[BlockRegister BlkUnit 0 1, BlockRegister BlkCommand 2 2, BlockTick 31]"
      memory_empty]
  by (simp add: sample_request_def)

text \<open>What the device looks like once a request has completed with a code.\<close>

lemma block_fault_active [simp]: "block_fault rq (b\<lparr>bd_active := a\<rparr>) = block_fault rq b"
  by (simp add: block_fault_def)

lemma block_execute_code:
  assumes "block_wf b"
  shows "(case block_execute physical_memory_ops rq b m of
      Inl code \<Rightarrow> code = block_fault rq b \<and> code \<noteq> NoError
    | Inr (b', m', code) \<Rightarrow> code = NoError \<and> block_fault rq b = NoError
        \<and> (\<exists>us. b' = b\<lparr>bd_units := us\<rparr>))"
proof (cases "block_fault rq b = NoError")
  case False
  then show ?thesis by (simp add: block_execute_checks)
next
  case True
  then consider "rq_command rq = 1" | "rq_command rq = 2"
    by (auto simp: block_fault_NoError)
  then show ?thesis
  proof cases
    case 1
    from pm_dma.execute_read_command [OF True 1, of m] True show ?thesis
      by (auto intro!: exI [of _ "bd_units b"])
  next
    case 2
    have "unat (rq_unit rq) < length (bd_units b)" "media_addressable b"
      using assms True by (auto simp: block_wf_def block_fault_NoError)
    with pm_dma.execute_write_command [OF True 2, of m] True show ?thesis
      by (auto simp: block_set_unit_state_def)
  qed
qed

text \<open>What the execution of a request leaves of the units and of memory.\<close>

definition request_outcome ::
  "block_request \<Rightarrow> block_device \<Rightarrow> physical_memory \<Rightarrow> media_unit list \<times> physical_memory" where
  "request_outcome rq b m = (case block_execute physical_memory_ops rq b m of
     Inl _ \<Rightarrow> (bd_units b, m) | Inr (b', m', _) \<Rightarrow> (bd_units b', m'))"

lemma block_fault_units: "bd_units b' = bd_units b \<Longrightarrow> block_fault rq b' = block_fault rq b"
  by (simp add: block_fault_def)

lemma request_outcome_units:
  assumes "bd_units b' = bd_units b"
  shows "request_outcome rq b' m = request_outcome rq b m"
proof -
  have "request_media rq b' = request_media rq b" using assms by (simp add: request_media_def)
  note same = this block_fault_units [OF assms, of rq] assms
  let ?store = "op_write_range physical_memory_ops m (rq_dma_address rq)
      (take (unat (rq_sector_count rq) * 512) (drop (unat (rq_lba rq) * 512) (request_media rq b)))"
  let ?load = "op_read_range physical_memory_ops m (dma_range_of rq) (unat (rq_sector_count rq) * 512)"
  show ?thesis
  proof (cases "block_fault rq b = NoError")
    case False
    with same show ?thesis by (simp add: request_outcome_def block_execute_checks)
  next
    case True
    with same show ?thesis
      by (cases ?store; cases ?load) (simp_all add: request_outcome_def block_execute_checks Let_def block_set_unit_state_def)
  qed
qed

lemma block_advance_completes:
  assumes "block_wf b" and "bd_active b = Some rq" and "rq_deadline rq \<le> now"
  shows "block_advance_to physical_memory_ops now b m =
      (let (us, m') = request_outcome rq b m;
           b' = b\<lparr>bd_active := None, bd_units := us, bd_error := block_fault rq b, bd_complete := True\<rparr>
       in (b', m', [block_signal b'], bd_completion_irq_enabled b))"
proof -
  let ?b = "b\<lparr>bd_active := None\<rparr>"
  have "block_wf ?b"
    using assms(1) by (simp add: block_wf_def media_addressable_def)
  note code = block_execute_code [OF this, of rq m]
  have outcome: "request_outcome rq b m = request_outcome rq ?b m"
    by (rule request_outcome_units) simp
  show ?thesis
  proof (cases "block_execute physical_memory_ops rq ?b m")
    case (Inl c)
    with code assms(2,3) show ?thesis
      unfolding outcome by (simp add: request_outcome_def block_advance_to_def Let_def block_irq_pending_def not_less)
  next
    case (Inr r)
    obtain b' m' c where r: "r = (b', m', c)"
      by (cases r) auto
    from code Inr r obtain us where "b' = b\<lparr>bd_active := None, bd_units := us\<rparr>" "c = NoError"
        "block_fault rq b = NoError"
      by auto
    with Inr r assms(2,3) show ?thesis
      unfolding outcome by (simp add: request_outcome_def block_advance_to_def Let_def block_irq_pending_def not_less)
  qed
qed

text \<open>The request that a command written at a tick makes of the staging registers.\<close>

definition staged_request :: "u32 \<Rightarrow> u64 \<Rightarrow> block_device \<Rightarrow> block_request" where
  "staged_request command now b = \<lparr>rq_command = command, rq_lba = block_read BlkLba b,
     rq_sector_count = block_read BlkSectorCount b,
     rq_dma_address = PhysicalAddress (block_read BlkPhysicalAddress b),
     rq_unit = block_read BlkUnit b, rq_deadline = now + 32\<rparr>"

lemma idle_command_accepted:
  assumes "bd_active b = None"
  shows "block_write BlkCommand command now b =
    b\<lparr>bd_complete := False, bd_error := NoError, bd_active := Some (staged_request command now b)\<rparr>"
  using assms by (cases "bd_dma_address b")
    (simp add: block_write_def block_command_def staged_request_def block_read_def COMPLETION_DELAY_def)

lemma busy_status: "bd_active b \<noteq> None \<Longrightarrow> block_read BlkStatus b AND 1 = 1"
  by (auto simp: block_read_def block_status_def STATUS_BUSY_def STATUS_COMPLETE_def STATUS_ERROR_def)

text \<open>
  C37. A command written to an idle device completes thirty-two ticks later and not before. The write clears
  the previous result and takes the staging registers into the request. Whatever registers the guest
  writes then, a second command among them, and however time advances below the deadline, the device
  stays busy with that request, and no byte of memory or of a medium changes. The first advance to the
  deadline or beyond executes the request on the units and the memory of the time of the command:
  the device is idle and complete with the error of that request, success or failure alike, its
  interrupt level is signalled, and no other register changes.
\<close>

theorem request_completes_after_delay:
  assumes "block_wf b" and "bd_active b = None" and "unat now + 32 < 2 ^ 64"
    and "\<forall>tick. BlockTick tick \<in> set es \<longrightarrow> unat tick < unat now + 32"
    and "unat now + 32 \<le> unat later"
    and "rq = staged_request command now b" and "b0 = block_write BlkCommand command now b"
    and "(b1, m1) = block_run es (b0, m)"
  shows "\<not> bd_complete b0 \<and> bd_error b0 = NoError \<and> bd_units b0 = bd_units b
    \<and> bd_active b1 = Some rq \<and> block_read BlkStatus b1 AND 1 = 1 \<and> bd_units b1 = bd_units b \<and> m1 = m
    \<and> block_advance_to physical_memory_ops later b1 m1 =
        (let (us, m2) = request_outcome rq b m;
             b2 = b1\<lparr>bd_active := None, bd_units := us, bd_error := block_fault rq b, bd_complete := True\<rparr>
         in (b2, m2, [block_signal b2], bd_completion_irq_enabled b1))"
proof -
  note accepted = idle_command_accepted [OF assms(2), of command now]
  from assms(3) have deadline: "unat (now + 32) = unat now + 32"
    by (simp add: unat_add_no_wrap)
  have "\<forall>tick. BlockTick tick \<in> set es \<longrightarrow> tick < rq_deadline rq"
    using assms(4) deadline by (simp add: assms(6) staged_request_def word_less_nat_alt)
  moreover have "bd_active b0 = Some rq" by (simp add: assms(6,7) accepted)
  ultimately have snapshot: "bd_active b1 = Some rq" "bd_units b1 = bd_units b0" "m1 = m"
    using block_command_snapshot [of b0 rq es m] by (simp_all add: assms(8) [symmetric])
  have units: "bd_units b0 = bd_units b" by (simp add: assms(7) accepted)
  have "block_wf b1"
    using assms(1) snapshot(2) units by (simp add: block_wf_def media_addressable_def)
  moreover have "rq_deadline rq \<le> later"
    using assms(5) deadline by (simp add: assms(6) staged_request_def word_le_nat_alt)
  ultimately have "block_advance_to physical_memory_ops later b1 m =
      (let (us, m') = request_outcome rq b1 m;
           b' = b1\<lparr>bd_active := None, bd_units := us, bd_error := block_fault rq b1, bd_complete := True\<rparr>
       in (b', m', [block_signal b'], bd_completion_irq_enabled b1))"
    using block_advance_completes snapshot(1) by blast
  moreover have "request_outcome rq b1 m = request_outcome rq b m" "block_fault rq b1 = block_fault rq b"
    using request_outcome_units [of b1 b] block_fault_units [of b1 b] snapshot(2) units by simp_all
  ultimately have completes: "block_advance_to physical_memory_ops later b1 m =
      (let (us, m2) = request_outcome rq b m;
           b2 = b1\<lparr>bd_active := None, bd_units := us, bd_error := block_fault rq b, bd_complete := True\<rparr>
       in (b2, m2, [block_signal b2], bd_completion_irq_enabled b1))"
    by (simp only:)
  have "\<not> bd_complete b0" "bd_error b0 = NoError" by (simp_all add: assms(7) accepted)
  moreover have "block_read BlkStatus b1 AND 1 = 1" by (rule busy_status) (simp add: snapshot(1))
  ultimately show ?thesis
    using snapshot units completes by (simp only: simp_thms)
qed

theorem request_completes_after_delay_witness:
  "\<exists>b1 m1. (b1, m1) = block_run [BlockRegister BlkUnit 0 1, BlockRegister BlkCommand 2 2, BlockTick 31]
       (block_write BlkCommand 1 0 (sample_block\<lparr>bd_unit := 1, bd_lba := 1\<rparr>), memory_empty)
     \<and> m1 = memory_empty
     \<and> bd_error (fst (block_advance_to physical_memory_ops 32 b1 m1)) = InvalidDma"
proof -
  let ?b = "sample_block\<lparr>bd_unit := 1, bd_lba := 1\<rparr>"
  let ?es = "[BlockRegister BlkUnit 0 1, BlockRegister BlkCommand 2 2, BlockTick 31]"
  obtain b1 m1 where run: "(b1, m1) = block_run ?es (block_write BlkCommand 1 0 ?b, memory_empty)"
    by (metis surj_pair)
  have "block_wf ?b" using sample_block_wf by (simp add: block_wf_def media_addressable_def)
  moreover have "bd_active ?b = None"
    by (simp add: sample_block_def block_new_def block_set_unit_state_def)
  moreover have "block_fault (staged_request 1 0 ?b) ?b = InvalidDma"
    by (simp add: block_fault_def staged_request_def block_read_def dma_request_ok_def sample_block_def
        block_new_def block_set_unit_state_def)
  ultimately show ?thesis
    using request_completes_after_delay [of ?b 0 ?es 32 "staged_request 1 0 ?b" 1
        "block_write BlkCommand 1 0 ?b" b1 m1 memory_empty] run
    by (auto simp: Let_def split_def)
qed

section \<open>Write-back\<close>

text \<open>
  The device together with what its host holds for each unit. A medium is attached from its host
  copy; a flush writes the medium back, and a host write that fails may leave anything there.
\<close>

inductive write_back :: "block_device \<Rightarrow> (usize \<Rightarrow> u8 list option) \<Rightarrow> bool" where
  new: "write_back block_new (\<lambda>_. None)"
| attach: "write_back b host \<Longrightarrow> length media < 2 ^ 41 \<Longrightarrow>
    block_update (BlockAttach u media) b = Ok (b', gs) \<Longrightarrow> write_back b' (host(unat u := Some media))"
| detach: "write_back b host \<Longrightarrow> block_update (BlockDetach u) b = Ok (b', gs) \<Longrightarrow> write_back b' host"
| register: "write_back b host \<Longrightarrow> block_update (BlockWrite r v now) b = Ok (b', gs) \<Longrightarrow> write_back b' host"
| failed: "write_back b host \<Longrightarrow> block_update (BlockFlushFailed u) b = Ok (b', gs) \<Longrightarrow> write_back b' host"
| tick: "write_back b host \<Longrightarrow>
    block_advance_to physical_memory_ops now b m = (b', m', gs, level) \<Longrightarrow> write_back b' host"
| flush: "write_back b host \<Longrightarrow>
    block_flush u (\<lambda>media h. case fails of Some (e, left) \<Rightarrow> (h(unat u := left), Err e) | None \<Rightarrow> (h(unat u := Some media), Ok ()))
      b host = (b', host', gs, r) \<Longrightarrow> write_back b' host'"

text \<open>An attached medium without dirty sectors is what the host holds.\<close>

definition clean_in_sync :: "media_unit \<Rightarrow> u8 list option \<Rightarrow> bool" where
  "clean_in_sync s h \<longleftrightarrow>
     (\<forall>media. mu_media s = Some media \<longrightarrow>
        length media < 2 ^ 41 \<and> (mu_dirty_sectors s = {} \<longrightarrow> h = Some media))"

definition write_back_ok :: "block_device \<Rightarrow> (usize \<Rightarrow> u8 list option) \<Rightarrow> bool" where
  "write_back_ok b host \<longleftrightarrow>
     length (bd_units b) = 2 \<and> (\<forall>i<2. clean_in_sync (bd_units b ! i) (host i))"

lemma write_back_ok_wf: "write_back_ok b host \<Longrightarrow> block_wf b"
  by (auto simp: write_back_ok_def block_wf_def media_addressable_def clean_in_sync_def in_set_conv_nth)

lemma write_back_ok_set_unit:
  assumes "write_back_ok b host" and "i < 2" and "clean_in_sync s (host' i)"
    and "\<And>j. j \<noteq> i \<Longrightarrow> host' j = host j"
  shows "write_back_ok (block_set_unit_state i s b) host'"
  using assms by (auto simp: write_back_ok_def block_set_unit_state_def nth_list_update)

lemma write_back_ok_registers:
  "write_back_ok b host \<Longrightarrow> bd_units b' = bd_units b \<Longrightarrow> write_back_ok b' host"
  by (simp add: write_back_ok_def)

lemma stored_unit_in_sync:
  assumes "clean_in_sync s h" and "mu_media s = Some media"
    and "length bs = unat (rq_sector_count rq) * 512" and "0 < unat (rq_sector_count rq)"
    and "(unat (rq_lba rq) + unat (rq_sector_count rq)) * 512 \<le> length media"
  shows "clean_in_sync (stored_unit rq bs s) h"
proof -
  have "unat (rq_lba rq) * 512 + length bs \<le> length media"
    using assms(3,5) by (simp add: add_mult_distrib)
  with assms(1,2,4) show ?thesis
    by (simp add: clean_in_sync_def stored_unit_def Let_def)
qed

lemma unit_index_Ok: "unit_index u = Ok i \<longleftrightarrow> unat u < 2 \<and> i = unat u"
  by (auto simp: unit_index_def UNIT_COUNT_def)

lemma execute_write_back_ok:
  assumes "write_back_ok b host" and "block_execute physical_memory_ops rq b m = Ok (b', m', code)"
  shows "write_back_ok b' host"
proof -
  have fault: "block_fault rq b = NoError"
    using assms(2) by (auto simp: block_execute_checks split: if_splits)
  then have u: "unat (rq_unit rq) < 2"
    by (simp add: block_fault_NoError)
  show ?thesis
  proof (cases "rq_command rq = 1")
    case True
    from pm_dma.execute_read_command [OF fault True, of m] assms show ?thesis by auto
  next
    case False
    then have cmd: "rq_command rq = 2"
      using fault by (auto simp: block_fault_NoError)
    have wf: "media_addressable b" "unat (rq_unit rq) < length (bd_units b)"
      using write_back_ok_wf [OF assms(1)] u by (simp_all add: block_wf_def)
    from pm_dma.execute_write_command [OF fault cmd wf, of m] assms(2)
    obtain bs where bs: "length bs = unat (rq_sector_count rq) * 512"
      and b': "b' = block_set_unit_state (unat (rq_unit rq)) (stored_unit rq bs (bd_units b ! unat (rq_unit rq))) b"
      by auto
    have count: "0 < unat (rq_sector_count rq)"
      using fault by (simp add: block_fault_NoError dma_request_ok_def Let_def)
    from fault obtain media where "mu_media (bd_units b ! unat (rq_unit rq)) = Some media"
        "(unat (rq_lba rq) + unat (rq_sector_count rq)) * 512 \<le> length media"
      by (auto simp: block_fault_NoError)
    moreover have "clean_in_sync (bd_units b ! unat (rq_unit rq)) (host (unat (rq_unit rq)))"
      using assms(1) u by (simp add: write_back_ok_def)
    ultimately have "clean_in_sync (stored_unit rq bs (bd_units b ! unat (rq_unit rq))) (host (unat (rq_unit rq)))"
      using bs count by (intro stored_unit_in_sync)
    with assms(1) u show ?thesis
      unfolding b' by (intro write_back_ok_set_unit) auto
  qed
qed

lemma block_write_units: "bd_units (block_write r v now b) = bd_units b"
  by (cases r; simp add: block_write_def block_command_def block_ack_def block_set_control_def)

lemma flush_write_back_ok:
  assumes "write_back_ok b host"
    and "block_flush u (\<lambda>media h. case fails of Some (e, left) \<Rightarrow> (h(unat u := left), Err e) | None \<Rightarrow> (h(unat u := Some media), Ok ()))
      b host = (b', host', gs, r)"
  shows "write_back_ok b' host'"
proof (cases "unit_index u")
  case (Inl e)
  with assms show ?thesis by (auto simp: block_flush_def)
next
  case (Inr i)
  then have i: "i = unat u" "unat u < 2"
    by (auto simp: unit_index_Ok)
  show ?thesis
  proof (cases "mu_dirty_sectors (bd_units b ! i) = {} \<or> mu_media (bd_units b ! i) = None")
    case True
    with assms Inr show ?thesis by (auto simp: block_flush_def Let_def split: if_splits)
  next
    case False
    then obtain media where media: "mu_media (bd_units b ! i) = Some media" by auto
    show ?thesis
    proof (cases fails)
      case (Some failure)
      with assms Inr False media i show ?thesis
        by (auto simp: block_flush_def Let_def block_mark_flush_failed_def write_back_ok_def
            clean_in_sync_def split: prod.splits)
    next
      case None
      have "clean_in_sync (bd_units b ! i) (host i)"
        using assms(1) i by (simp add: write_back_ok_def)
      with media have "clean_in_sync ((bd_units b ! i)\<lparr>mu_dirty_sectors := {}\<rparr>) (Some media)"
        by (simp add: clean_in_sync_def)
      with assms Inr False media None i show ?thesis
        by (auto simp: block_flush_def Let_def intro: write_back_ok_set_unit)
    qed
  qed
qed

lemma advance_write_back_ok:
  assumes "write_back_ok b host" and "block_advance_to physical_memory_ops now b m = (b', m', gs, level)"
  shows "write_back_ok b' host"
proof (cases "bd_active b")
  case None
  with assms show ?thesis by (simp add: block_advance_to_def)
next
  case (Some rq)
  have idle: "write_back_ok (b\<lparr>bd_active := None\<rparr>) host"
    using assms(1) by (simp add: write_back_ok_def)
  show ?thesis
  proof (cases "block_execute physical_memory_ops rq (b\<lparr>bd_active := None\<rparr>) m")
    case (Inl c)
    with Some assms show ?thesis
      by (auto simp: block_advance_to_def Let_def write_back_ok_def split: if_splits)
  next
    case (Inr r)
    obtain b1 m1 c where r: "r = (b1, m1, c)" by (cases r) auto
    from execute_write_back_ok [OF idle] Inr r have "write_back_ok b1 host" by blast
    with Some Inr r assms show ?thesis
      by (auto simp: block_advance_to_def Let_def write_back_ok_def split: if_splits)
  qed
qed

lemma write_back_invariant: "write_back b host \<Longrightarrow> write_back_ok b host"
proof (induction rule: write_back.induct)
  case new
  show ?case
    by (simp add: write_back_ok_def block_new_def UNIT_COUNT_def clean_in_sync_def media_unit_default_def)
next
  case (attach b host media u b' gs)
  then show ?case
    by (auto simp: block_update_def block_attach_def and_then_Ok unit_index_Ok SECTOR_SIZE_def
        clean_in_sync_def split: if_splits intro!: write_back_ok_set_unit)
next
  case (detach b host u b' gs)
  then show ?case
    by (auto simp: block_update_def block_detach_def and_then_Ok unit_index_Ok clean_in_sync_def
        intro!: write_back_ok_set_unit)
next
  case (register b host r v now b' gs)
  then show ?case
    by (auto simp: block_update_def block_write_units intro: write_back_ok_registers)
next
  case (failed b host u b' gs)
  then show ?case
    by (auto simp: block_update_def and_then_Ok block_mark_flush_failed_def Let_def write_back_ok_def)
next
  case (tick b host now m b' m' gs level)
  then show ?case by (blast intro: advance_write_back_ok)
next
  case (flush b host u fails b' host' gs r)
  then show ?case by (blast intro: flush_write_back_ok)
qed

text \<open>
  C26. Write-back is safe: in every history of attachments, commands, DMA transfers, flushes and
  failed flushes, a flush that reports success leaves the host with exactly the bytes of the
  attached medium, also when it writes nothing because no sector is dirty.
\<close>

theorem flush_makes_durable:
  assumes "write_back b host"
    and "block_flush u (\<lambda>media h. (h(unat u := Some media), Ok ())) b host = (b', host', gs, Ok ())"
    and "mu_media (bd_units b ! unat u) = Some media"
  shows "host' (unat u) = Some media \<and> mu_media (bd_units b' ! unat u) = Some media
     \<and> mu_dirty_sectors (bd_units b' ! unat u) = {}"
proof -
  have ok: "write_back_ok b host"
    using assms(1) by (rule write_back_invariant)
  have idx: "unit_index u = Ok (unat u)" "unat u < 2"
    using assms(2) by (auto simp: block_flush_def unit_index_def UNIT_COUNT_def split: if_splits)
  have sync: "clean_in_sync (bd_units b ! unat u) (host (unat u))" and len: "length (bd_units b) = 2"
    using ok idx by (auto simp: write_back_ok_def)
  show ?thesis
  proof (cases "mu_dirty_sectors (bd_units b ! unat u) = {}")
    case True
    with sync assms(3) have "host (unat u) = Some media"
      by (simp add: clean_in_sync_def)
    with True assms(2,3) idx show ?thesis
      by (auto simp: block_flush_def Let_def)
  next
    case False
    with assms(2,3) idx len show ?thesis
      by (auto simp: block_flush_def Let_def block_set_unit_state_def)
  qed
qed

theorem flush_makes_durable_witness:
  "\<exists>b' gs. block_flush 0 (\<lambda>media h. (h((0 :: usize) := Some media), Ok ()))
      (block_set_unit_state 0 \<lparr>mu_media = Some (replicate 512 5), mu_dirty_sectors = {}\<rparr> block_new)
      ((\<lambda>_. None)(0 := Some (replicate 512 5)))
    = (b', (\<lambda>_. None)(0 := Some (replicate 512 5)), gs, Ok ())
    \<and> mu_dirty_sectors (bd_units b' ! 0) = {}"
proof -
  let ?b = "block_set_unit_state 0 \<lparr>mu_media = Some (replicate 512 5), mu_dirty_sectors = {}\<rparr> block_new"
  let ?h = "(\<lambda>_. None)((0 :: usize) := Some (replicate 512 5))"
  have att: "block_update (BlockAttach 0 (replicate 512 5)) block_new = Ok (?b, [block_signal ?b])"
    by (simp add: block_update_def block_attach_def unit_index_def UNIT_COUNT_def SECTOR_SIZE_def)
  have wb: "write_back ?b ?h"
    using write_back.attach [OF write_back.new _ att] by simp
  have unit: "bd_units ?b ! 0 = \<lparr>mu_media = Some (replicate 512 5), mu_dirty_sectors = {}\<rparr>"
    by (simp add: block_set_unit_state_def block_new_def UNIT_COUNT_def)
  have fl: "block_flush 0 (\<lambda>media h. (h(unat (0 :: u32) := Some media), Ok ())) ?b ?h = (?b, ?h, [], Ok ())"
    by (simp add: block_flush_def unit_index_def UNIT_COUNT_def unit Let_def)
  from flush_makes_durable [OF wb fl, of "replicate 512 5"] fl unit show ?thesis
    by simp
qed

section \<open>The block device signals its level\<close>

datatype block_op =
    BlockOpUpdate block_input
  | BlockOpAdvance u64 physical_memory
  | BlockOpFlush u32 "u8 list \<Rightarrow> io_error + unit"

fun block_step :: "block_op \<Rightarrow> block_device \<Rightarrow> block_device \<times> interrupt_signal list" where
  "block_step (BlockOpUpdate u) b = (case block_update u b of Inl _ \<Rightarrow> (b, []) | Inr r \<Rightarrow> r)"
| "block_step (BlockOpAdvance now m) b =
     (let (b', m', gs, level) = block_advance_to physical_memory_ops now b m in (b', gs))"
| "block_step (BlockOpFlush u f) b =
     (let (b', h', gs, r) = block_flush u (\<lambda>media h. (h, f media)) b () in (b', gs))"

lemma block_update_signals:
  assumes "block_update u b = Ok (b', gs)"
  shows "gs \<noteq> [] \<and> last gs = block_signal b' \<and> (\<forall>g\<in>set gs. sig_source g = SrcBlock)"
  using assms
  by (cases u) (auto simp: block_update_def and_then_Ok block_mark_flush_failed_def Let_def block_signal_def)

lemma block_step_signals:
  assumes "block_step op b = (b', gs)"
  shows "(\<forall>g\<in>set gs. sig_source g = SrcBlock)
     \<and> (gs = [] \<and> block_irq_pending b' = block_irq_pending b \<or> gs \<noteq> [] \<and> last gs = block_signal b')"
proof (cases op)
  case (BlockOpUpdate u)
  with assms block_update_signals [of u b b' gs] show ?thesis
    by (cases "block_update u b") auto
next
  case (BlockOpAdvance now m)
  with assms show ?thesis
    by (auto simp: block_advance_to_def Let_def block_signal_def split: option.splits if_splits prod.splits)
next
  case (BlockOpFlush u f)
  with assms show ?thesis
    by (auto simp: block_flush_def Let_def block_mark_flush_failed_def block_set_unit_state_def
        block_irq_pending_def block_signal_def split: sum.splits option.splits if_splits)
qed

interpretation block_irq: irq_peripheral block_irq_pending "\<lambda>_. SrcBlock" "\<lambda>op b. Some (block_step op b)"
proof
  fix op b b' gs g
  assume "Some (block_step op b) = Some (b', gs)"
  then have step: "block_step op b = (b', gs)" by simp
  show "SrcBlock = SrcBlock" ..
  show "g \<in> set gs \<Longrightarrow> sig_source g = SrcBlock"
    using block_step_signals [OF step] by blast
  show "gs \<noteq> [] \<Longrightarrow> sig_pending (last gs) = block_irq_pending b'"
    using block_step_signals [OF step] by (auto simp: block_signal_def)
next
  fix op b b'
  assume "Some (block_step op b) = Some (b', [])"
  then show "block_irq_pending b' = block_irq_pending b"
    using block_step_signals [of op b b' "[]"] by simp
qed

end
