(* ===== verification/Core_Bus.thy ===== *)
theory Core_Bus
  imports Core_SysTick Core_Uart Core_Rng Core_Trace Core_Block
begin

text \<open>
  The typed MMIO bus of \<open>minemu-core\<close> (\<open>bus.rs\<close>): it decodes a transaction, dispatches it to its
  device and drains the interrupt channel. A result \<open>None\<close> stands for a panic of the source
  or a call that does not return.
\<close>

section \<open>State and operations\<close>

record mmio_bus =
  bus_interrupts :: interrupt_controller
  bus_systick :: systick
  bus_block :: block_device
  bus_rng :: rng
  bus_uart0 :: uart
  bus_uart1 :: uart
  bus_trace :: trace_device

definition bus_new :: mmio_bus where
  "bus_new = \<lparr>bus_interrupts = interrupt_controller_new, bus_systick = systick_new,
     bus_block = block_new, bus_rng = rng_new, bus_uart0 = uart_new 4096 8192 SrcUart0,
     bus_uart1 = uart_new 4096 8192 SrcUart1, bus_trace = trace_new 4096\<rparr>"

text \<open>Signals go into the channel; \<open>process_signals\<close> of the controller takes them out.\<close>

definition bus_send :: "interrupt_signal list \<Rightarrow> mmio_bus \<Rightarrow> mmio_bus" where
  "bus_send gs bus = bus\<lparr>bus_interrupts := deliver_signals gs (bus_interrupts bus)\<rparr>"

definition bus_process :: "mmio_bus \<Rightarrow> mmio_bus" where
  "bus_process bus = bus\<lparr>bus_interrupts := process_signals (bus_interrupts bus)\<rparr>"

text \<open>The two matches of \<open>access\<close>, up to the final drain of the channel.\<close>

definition bus_read_register :: "mmio_register \<Rightarrow> mmio_bus \<Rightarrow> (mmio_bus \<times> u32) option" where
  "bus_read_register register bus = (case register of
     RegInterrupt r \<Rightarrow>
       (let (ic, v) = ic_read r (bus_interrupts bus) in Some (bus\<lparr>bus_interrupts := ic\<rparr>, v))
   | RegSysTick r \<Rightarrow> Some (bus, systick_read r (bus_systick bus))
   | RegDma r \<Rightarrow> Some (bus, block_read r (bus_block bus))
   | RegRng r \<Rightarrow> (let (g, v) = rng_read r (bus_rng bus) in Some (bus\<lparr>bus_rng := g\<rparr>, v))
   | RegUart0 r \<Rightarrow>
       (let (u, v, gs) = uart_read r (bus_uart0 bus) in Some (bus_send gs (bus\<lparr>bus_uart0 := u\<rparr>), v))
   | RegUart1 r \<Rightarrow>
       (let (u, v, gs) = uart_read r (bus_uart1 bus) in Some (bus_send gs (bus\<lparr>bus_uart1 := u\<rparr>), v))
   | RegTrace _ \<Rightarrow> None)"

definition bus_write_register ::
  "mmio_register \<Rightarrow> u32 \<Rightarrow> u64 \<Rightarrow> mmio_bus \<Rightarrow> (core_error + mmio_bus) option" where
  "bus_write_register register value now bus = (case register of
     RegInterrupt r \<Rightarrow>
       Some (and_then (ic_write r value (bus_interrupts bus)) (\<lambda>ic. Ok (bus\<lparr>bus_interrupts := ic\<rparr>)))
   | RegSysTick r \<Rightarrow>
       map_option (\<lambda>(t, gs). Ok (bus_send gs (bus\<lparr>bus_systick := t\<rparr>)))
         (systick_update (TickWrite r value now) (bus_systick bus))
   | RegDma r \<Rightarrow>
       Some (and_then (block_update (BlockWrite r value now) (bus_block bus)) (\<lambda>(b, gs).
         Ok (bus_send gs (bus\<lparr>bus_block := b\<rparr>))))
   | RegRng r \<Rightarrow> Some (Ok (bus\<lparr>bus_rng := rng_update r value (bus_rng bus)\<rparr>))
   | RegUart0 r \<Rightarrow>
       (let (u, gs) = uart_apply (UartWrite r value) (bus_uart0 bus)
        in Some (Ok (bus_send gs (bus\<lparr>bus_uart0 := u\<rparr>))))
   | RegUart1 r \<Rightarrow>
       (let (u, gs) = uart_apply (UartWrite r value) (bus_uart1 bus)
        in Some (Ok (bus_send gs (bus\<lparr>bus_uart1 := u\<rparr>))))
   | RegTrace TraceEventReg \<Rightarrow> Some (Ok (bus\<lparr>bus_trace := trace_update TraceEventReg value (bus_trace bus)\<rparr>)))"

definition bus_access ::
  "mmio_transaction \<Rightarrow> u64 \<Rightarrow> mmio_bus \<Rightarrow> (mmio_bus \<times> (core_error + u32 option)) option" where
  "bus_access t now bus = (case decode_mmio t of
     Inl e \<Rightarrow> Some (bus, Err (PlatformErr e))
   | Inr register \<Rightarrow>
       (case tx_access t of
          Read \<Rightarrow>
            map_option (\<lambda>(bus', v). (bus_process bus', Ok (Some v))) (bus_read_register register bus)
        | Write \<Rightarrow>
            map_option (\<lambda>r. case r of Inl e \<Rightarrow> (bus, Err e) | Inr bus' \<Rightarrow> (bus_process bus', Ok None))
              (bus_write_register register (tx_value t) now bus)
        | Fetch \<Rightarrow> None))"

definition bus_advance_to ::
  "'m memory_ops \<Rightarrow> u64 \<Rightarrow> mmio_bus \<Rightarrow> 'm \<Rightarrow> (mmio_bus \<times> 'm) option" where
  "bus_advance_to ops now bus mem =
     map_option (\<lambda>(t, gs).
       let bus = bus_send gs (bus\<lparr>bus_systick := t\<rparr>);
           (b, mem, gs, _) = block_advance_to ops now (bus_block bus) mem;
           bus = bus_send gs (bus\<lparr>bus_block := b\<rparr>)
       in (bus_process bus, mem))
     (systick_update (TickAdvanceTo now) (bus_systick bus))"

definition bus_receive_uart :: "u8 \<Rightarrow> u8 \<Rightarrow> mmio_bus \<Rightarrow> mmio_bus" where
  "bus_receive_uart index byte bus =
     bus_process
       (if index = 0 then
          (let (u, gs) = uart_apply (UartReceive byte) (bus_uart0 bus) in bus_send gs (bus\<lparr>bus_uart0 := u\<rparr>))
        else if index = 1 then
          (let (u, gs) = uart_apply (UartReceive byte) (bus_uart1 bus) in bus_send gs (bus\<lparr>bus_uart1 := u\<rparr>))
        else bus)"

definition bus_retire_trace_events :: "u64 \<Rightarrow> mmio_bus \<Rightarrow> mmio_bus \<times> trace_event list" where
  "bus_retire_trace_events tick bus =
     (let (d, es) = trace_retire tick (bus_trace bus) in (bus\<lparr>bus_trace := d\<rparr>, es))"

text \<open>The host reaches the block device through the public field.\<close>

definition bus_host_update :: "block_input \<Rightarrow> mmio_bus \<Rightarrow> core_error + mmio_bus" where
  "bus_host_update u bus =
     and_then (block_update u (bus_block bus)) (\<lambda>(b, gs). Ok (bus_send gs (bus\<lparr>bus_block := b\<rparr>)))"

record peripherals_inspection =
  pi_interrupts :: interrupt_inspection
  pi_systick :: systick_inspection
  pi_block :: block_inspection
  pi_rng :: u32
  pi_uart0 :: uart_inspection
  pi_uart1 :: uart_inspection
  pi_trace :: "trace_event list"

definition bus_inspect :: "mmio_bus \<Rightarrow> mmio_bus \<times> peripherals_inspection" where
  "bus_inspect bus =
     (let bus = bus_process bus
      in (bus, \<lparr>pi_interrupts = ic_inspect (bus_interrupts bus), pi_systick = systick_inspect (bus_systick bus),
            pi_block = block_inspect (bus_block bus), pi_rng = rng_inspect (bus_rng bus),
            pi_uart0 = uart_inspect (bus_uart0 bus), pi_uart1 = uart_inspect (bus_uart1 bus),
            pi_trace = trace_inspect (bus_trace bus)\<rparr>))"

section \<open>The bus is total\<close>

lemma bus_write_returns: "bus_write_register reg v now bus \<noteq> None"
proof -
  have "systick_update (TickWrite r v now) u \<noteq> None" for r u
    by (cases r) (simp_all add: systick_update_def systick_apply_def)
  then show ?thesis
    by (cases reg) (auto simp: bus_write_register_def case_prod_unfold Let_def split: trace_register.split)
qed

lemma bus_read_returns:
  assumes "reg_readable reg"
  shows "bus_read_register reg bus \<noteq> None"
proof -
  have "reg_readable (RegTrace r) = False" for r
    by (simp add: reg_readable_def trace_register_permissions_def permits_def perm_contains_def perm_consts)
  with assms show ?thesis
    by (cases reg) (auto simp: bus_read_register_def case_prod_unfold Let_def)
qed

lemma bus_access_returns: "bus_access t now bus \<noteq> None"
proof (cases "decode_mmio t")
  case (Inl e)
  then show ?thesis by (simp add: bus_access_def)
next
  case (Inr reg)
  then have "tx_access t = Read \<and> reg_readable reg \<or> tx_access t = Write"
    by (auto simp: decode_mmio_Ok)
  with Inr bus_write_returns bus_read_returns show ?thesis
    by (cases "tx_access t") (simp_all add: bus_access_def)
qed

lemma bus_access_outcome:
  assumes "bus_access t now bus = Some (bus', r)"
  shows "case r of Inl e \<Rightarrow> bus' = bus | Inr v \<Rightarrow> (v = None \<longleftrightarrow> tx_access t = Write)"
proof (cases "decode_mmio t")
  case (Inl e)
  with assms show ?thesis by (auto simp: bus_access_def)
next
  case (Inr reg)
  obtain z where z: "bus_write_register reg (tx_value t) now bus = Some z"
    using bus_write_returns [of reg "tx_value t" now bus] by blast
  show ?thesis
    using assms Inr z by (cases "tx_access t"; cases z) (auto simp: bus_access_def)
qed

text \<open>
  C38. No MMIO transaction makes the bus panic or hang: the branches the source marks unreachable are
  not reached. A transaction that fails leaves every device as it was, and one that succeeds yields a
  value exactly when it is a read.
\<close>

theorem bus_access_total:
  "case bus_access t now bus of
     None \<Rightarrow> False
   | Some (bus', Inl e) \<Rightarrow> bus' = bus
   | Some (bus', Inr v) \<Rightarrow> (v = None \<longleftrightarrow> tx_access t = Write)"
proof -
  obtain bus' r where "bus_access t now bus = Some (bus', r)"
    using bus_access_returns [of t now bus] by auto
  with bus_access_outcome [OF this] show ?thesis
    by (cases r) simp_all
qed

section \<open>Interrupt levels reach the controller\<close>

definition bus_level :: "mmio_bus \<Rightarrow> source \<Rightarrow> bool" where
  "bus_level bus s = (case s of
     SrcSysTick \<Rightarrow> systick_irq_pending (bus_systick bus)
   | SrcUart0 \<Rightarrow> uart_irq_pending (bus_uart0 bus)
   | SrcUart1 \<Rightarrow> uart_irq_pending (bus_uart1 bus)
   | SrcBlock \<Rightarrow> block_irq_pending (bus_block bus))"

definition bus_in_sync :: "mmio_bus \<Rightarrow> bool" where
  "bus_in_sync bus \<longleftrightarrow>
     ua_interrupt_source (bus_uart0 bus) = SrcUart0 \<and> ua_interrupt_source (bus_uart1 bus) = SrcUart1
     \<and> (\<forall>s. seen_level (bus_interrupts bus) s = bus_level bus s)"

lemma all_source: "(\<forall>s. P s) \<longleftrightarrow> P SrcSysTick \<and> P SrcUart0 \<and> P SrcUart1 \<and> P SrcBlock"
  by (metis source.exhaust)

lemma systick_sync:
  assumes "bus_in_sync bus" and "systick_update u (bus_systick bus) = Some (t, gs)"
  shows "bus_in_sync (bus_send gs (bus\<lparr>bus_systick := t\<rparr>))"
  using assms systick_irq.step_keeps_seen [OF assms(2), of "bus_interrupts bus"]
    systick_irq.step_keeps_others [OF assms(2), of _ "bus_interrupts bus"]
  by (simp add: bus_in_sync_def all_source bus_level_def bus_send_def)

lemma block_sync:
  assumes "bus_in_sync bus" and "block_step op (bus_block bus) = (b, gs)"
  shows "bus_in_sync (bus_send gs (bus\<lparr>bus_block := b\<rparr>))"
proof -
  have step: "Some (block_step op (bus_block bus)) = Some (b, gs)" using assms(2) by simp
  show ?thesis
    using assms(1) block_irq.step_keeps_seen [OF step, of "bus_interrupts bus"]
      block_irq.step_keeps_others [OF step, of _ "bus_interrupts bus"]
    by (simp add: bus_in_sync_def all_source bus_level_def bus_send_def)
qed

lemma uart0_sync:
  assumes "bus_in_sync bus" and "uart_step op (bus_uart0 bus) = (u, gs)"
  shows "bus_in_sync (bus_send gs (bus\<lparr>bus_uart0 := u\<rparr>))"
proof -
  have step: "Some (uart_step op (bus_uart0 bus)) = Some (u, gs)" using assms(2) by simp
  show ?thesis
    using assms(1) uart_irq.step_keeps_seen [OF step, of "bus_interrupts bus"]
      uart_irq.step_keeps_others [OF step, of _ "bus_interrupts bus"] uart_step_cases(1) [OF assms(2)]
    by (simp add: bus_in_sync_def all_source bus_level_def bus_send_def)
qed

lemma uart1_sync:
  assumes "bus_in_sync bus" and "uart_step op (bus_uart1 bus) = (u, gs)"
  shows "bus_in_sync (bus_send gs (bus\<lparr>bus_uart1 := u\<rparr>))"
proof -
  have step: "Some (uart_step op (bus_uart1 bus)) = Some (u, gs)" using assms(2) by simp
  show ?thesis
    using assms(1) uart_irq.step_keeps_seen [OF step, of "bus_interrupts bus"]
      uart_irq.step_keeps_others [OF step, of _ "bus_interrupts bus"] uart_step_cases(1) [OF assms(2)]
    by (simp add: bus_in_sync_def all_source bus_level_def bus_send_def)
qed

text \<open>Steps that touch no interrupting device and no level.\<close>

lemma quiet_sync:
  assumes "bus_in_sync bus"
  shows "bus_in_sync (bus_process bus)"
    and "bus_in_sync (bus\<lparr>bus_interrupts := fst (ic_read r (bus_interrupts bus))\<rparr>)"
    and "ic_write r v (bus_interrupts bus) = Ok ic \<Longrightarrow> bus_in_sync (bus\<lparr>bus_interrupts := ic\<rparr>)"
    and "bus_in_sync (bus\<lparr>bus_rng := g\<rparr>)" and "bus_in_sync (bus\<lparr>bus_trace := d\<rparr>)"
  using assms
  by (simp_all add: bus_in_sync_def all_source bus_level_def bus_process_def seen_level_write)

lemma bus_read_register_sync:
  assumes "bus_in_sync bus" and "bus_read_register reg bus = Some (bus', v)"
  shows "bus_in_sync bus'"
proof (cases reg)
  case (RegUart0 r)
  then show ?thesis
    using assms uart0_sync [of bus "UartOpRead r"]
    by (auto simp: bus_read_register_def Let_def split: prod.splits)
next
  case (RegUart1 r)
  then show ?thesis
    using assms uart1_sync [of bus "UartOpRead r"]
    by (auto simp: bus_read_register_def Let_def split: prod.splits)
next
  case (RegInterrupt r)
  then show ?thesis
    using assms quiet_sync(2) [of bus r]
    by (auto simp: bus_read_register_def Let_def split: prod.splits)
next
  case (RegRng r)
  then show ?thesis
    using assms by (auto simp: bus_read_register_def Let_def quiet_sync split: prod.splits)
qed (use assms in \<open>auto simp: bus_read_register_def\<close>)

lemma bus_write_register_sync:
  assumes "bus_in_sync bus" and "bus_write_register reg v now bus = Some (Ok bus')"
  shows "bus_in_sync bus'"
proof (cases reg)
  case (RegUart0 r)
  then show ?thesis
    using assms uart0_sync [of bus "UartOpUpdate (UartWrite r v)"]
    by (auto simp: bus_write_register_def Let_def split: prod.splits)
next
  case (RegUart1 r)
  then show ?thesis
    using assms uart1_sync [of bus "UartOpUpdate (UartWrite r v)"]
    by (auto simp: bus_write_register_def Let_def split: prod.splits)
next
  case (RegInterrupt r)
  then show ?thesis
    using assms quiet_sync(3) [of bus r v] by (auto simp: bus_write_register_def and_then_Ok)
next
  case (RegSysTick r)
  then show ?thesis
    using assms systick_sync [of bus "TickWrite r v now"] by (auto simp: bus_write_register_def)
next
  case (RegDma r)
  then show ?thesis
    using assms block_sync [of bus "BlockOpUpdate (BlockWrite r v now)"]
    by (auto simp: bus_write_register_def and_then_Ok)
next
  case (RegRng r)
  then show ?thesis
    using assms by (auto simp: bus_write_register_def quiet_sync)
next
  case (RegTrace r)
  then show ?thesis
    using assms by (cases r) (auto simp: bus_write_register_def quiet_sync)
qed

lemma bus_access_sync:
  assumes "bus_in_sync bus" and "bus_access t now bus = Some (bus', r)"
  shows "bus_in_sync bus'"
proof (cases "decode_mmio t")
  case (Inl e)
  with assms show ?thesis by (simp add: bus_access_def)
next
  case (Inr reg)
  show ?thesis
  proof (cases "tx_access t")
    case Fetch
    with Inr assms show ?thesis by (simp add: bus_access_def)
  next
    case Read
    with Inr assms show ?thesis
      by (auto simp: bus_access_def intro!: quiet_sync dest: bus_read_register_sync)
  next
    case Write
    with Inr assms(2) obtain z where z: "bus_write_register reg (tx_value t) now bus = Some z"
      by (auto simp: bus_access_def)
    with Inr Write assms show ?thesis
      by (cases z) (auto simp: bus_access_def intro!: quiet_sync dest: bus_write_register_sync)
  qed
qed

lemma bus_advance_sync:
  assumes "bus_in_sync bus" and "bus_advance_to physical_memory_ops now bus m = Some (bus', m')"
  shows "bus_in_sync bus'"
proof -
  obtain b m1 hs lvl where b: "block_advance_to physical_memory_ops now (bus_block bus) m = (b, m1, hs, lvl)"
    by (metis prod_cases4)
  from assms(2) obtain t gs where t: "systick_update (TickAdvanceTo now) (bus_systick bus) = Some (t, gs)"
    by (auto simp: bus_advance_to_def)
  from assms(2) have bus': "bus' = bus_process (bus_send hs ((bus_send gs (bus\<lparr>bus_systick := t\<rparr>))\<lparr>bus_block := b\<rparr>))"
    by (simp add: bus_advance_to_def Let_def bus_send_def t b)
  let ?b1 = "bus_send gs (bus\<lparr>bus_systick := t\<rparr>)"
  have "bus_in_sync ?b1"
    using assms(1) t by (rule systick_sync)
  moreover have "block_step (BlockOpAdvance now m) (bus_block ?b1) = (b, hs)"
    by (simp add: bus_send_def b)
  ultimately show ?thesis
    unfolding bus' by (intro quiet_sync(1) block_sync)
qed

lemma bus_receive_sync: "bus_in_sync bus \<Longrightarrow> bus_in_sync (bus_receive_uart i byte bus)"
  using uart0_sync [of bus "UartOpUpdate (UartReceive byte)"]
    uart1_sync [of bus "UartOpUpdate (UartReceive byte)"]
  by (auto simp: bus_receive_uart_def Let_def intro!: quiet_sync split: prod.splits)

section \<open>Every history of the bus\<close>

lemma mmio_read_access [simp]: "tx_access (mmio_read a w) = Read"
  by (simp add: mmio_read_def)

inductive bus_reachable :: "mmio_bus \<Rightarrow> bool" where
  new: "bus_reachable bus_new"
| access: "bus_reachable bus \<Longrightarrow> bus_access t now bus = Some (bus', r) \<Longrightarrow> bus_reachable bus'"
| advance: "bus_reachable bus \<Longrightarrow> bus_advance_to physical_memory_ops now bus m = Some (bus', m') \<Longrightarrow>
    bus_reachable bus'"
| receive: "bus_reachable bus \<Longrightarrow> bus_reachable (bus_receive_uart i byte bus)"
| retire: "bus_reachable bus \<Longrightarrow> bus_reachable (fst (bus_retire_trace_events tick bus))"
| host: "bus_reachable bus \<Longrightarrow> bus_host_update u bus = Ok bus' \<Longrightarrow> bus_reachable bus'"
| flush: "bus_reachable bus \<Longrightarrow> block_step (BlockOpFlush u f) (bus_block bus) = (b, gs) \<Longrightarrow>
    bus_reachable (bus_send gs (bus\<lparr>bus_block := b\<rparr>))"
| inspect: "bus_reachable bus \<Longrightarrow> bus_reachable (fst (bus_inspect bus))"
| host_uart0: "bus_reachable bus \<Longrightarrow> uart_apply (UartReceive byte) (bus_uart0 bus) = (u, gs) \<Longrightarrow>
    bus_reachable (bus_send gs (bus\<lparr>bus_uart0 := u\<rparr>))"
| host_uart1: "bus_reachable bus \<Longrightarrow> uart_apply (UartReceive byte) (bus_uart1 bus) = (u, gs) \<Longrightarrow>
    bus_reachable (bus_send gs (bus\<lparr>bus_uart1 := u\<rparr>))"
| status: "bus_reachable bus \<Longrightarrow> bus_reachable (bus\<lparr>bus_interrupts := fst (ic_read_pending (bus_interrupts bus))\<rparr>)"
| claim: "bus_reachable bus \<Longrightarrow> bus_reachable (bus\<lparr>bus_interrupts := fst (ic_do_claim (bus_interrupts bus))\<rparr>)"

lemma bus_new_sync: "bus_in_sync bus_new"
  by (simp add: bus_in_sync_def all_source bus_level_def bus_new_def seen_level_def pending_source_def
      interrupt_controller_new_def systick_irq_pending_def systick_new_def uart_irq_pending_def
      uart_new_def block_irq_pending_def block_new_def)

lemma bus_reachable_sync: "bus_reachable bus \<Longrightarrow> bus_in_sync bus"
proof (induction rule: bus_reachable.induct)
  case new
  show ?case by (rule bus_new_sync)
next
  case (host bus u bus')
  then show ?case
    using block_sync [of bus "BlockOpUpdate u"]
    by (auto simp: bus_host_update_def and_then_Ok)
next
  case (flush bus u f b gs)
  then show ?case by (blast intro: block_sync)
next
  case (access bus t now bus' r)
  then show ?case by (blast intro: bus_access_sync)
next
  case (advance bus now m bus' m')
  then show ?case by (blast intro: bus_advance_sync)
next
  case (receive bus i byte)
  then show ?case by (blast intro: bus_receive_sync)
next
  case (retire bus tick)
  then show ?case by (simp add: bus_retire_trace_events_def case_prod_unfold Let_def quiet_sync)
next
  case (inspect bus)
  then show ?case by (simp add: bus_inspect_def Let_def quiet_sync)
next
  case (host_uart0 bus byte u gs)
  then show ?case using uart0_sync [of bus "UartOpUpdate (UartReceive byte)" u gs] by simp
next
  case (host_uart1 bus byte u gs)
  then show ?case using uart1_sync [of bus "UartOpUpdate (UartReceive byte)" u gs] by simp
next
  case (status bus)
  then show ?case using quiet_sync(2) [of bus IntPending] by (simp add: ic_read_def case_prod_unfold)
next
  case (claim bus)
  then show ?case using quiet_sync(2) [of bus IntClaim] by (simp add: ic_read_def case_prod_unfold Let_def)
qed

text \<open>
  C13. Interrupt lines never go stale: in every history of the bus, a guest that reads the pending
  register gets exactly the current levels of the four devices, and the read succeeds at any
  time. No signal is lost, duplicated or delivered for another device.
\<close>

theorem pending_register_shows_levels:
  assumes "bus_reachable bus"
  shows "\<exists>bus' v. bus_access (mmio_read (PhysicalAddress 0x10000000) WidthU32) now bus = Some (bus', Ok (Some v))
     \<and> (\<forall>s. bit v (source_index s) = bus_level bus s)
     \<and> (\<forall>s. bus_level bus' s = bus_level bus s)"
proof -
  have sync: "bus_in_sync bus"
    using assms by (rule bus_reachable_sync)
  have dec: "decode_mmio (mmio_read (PhysicalAddress 0x10000000) WidthU32) = Ok (RegInterrupt IntPending)"
    by (simp add: decode_mmio_Ok mmio_read_def decode_at_documented documented_registers_def reg_readable_def
        reg_writable_def permits_def perm_contains_def perm_consts interrupt_register_permissions_def)
  let ?ic = "process_signals (bus_interrupts bus)"
  have "bus_access (mmio_read (PhysicalAddress 0x10000000) WidthU32) now bus
      = Some (bus\<lparr>bus_interrupts := ?ic\<rparr>, Ok (Some (ic_pending ?ic)))"
    by (simp add: bus_access_def dec mmio_read_access bus_read_register_def ic_read_def ic_read_pending_def
        Let_def bus_process_def)
  moreover have "bit (ic_pending ?ic) (source_index s) = bus_level bus s" for s
    using sync by (simp add: bus_in_sync_def seen_level_def pending_source_def process_signals_def)
  moreover have "bus_level (bus\<lparr>bus_interrupts := ?ic\<rparr>) s = bus_level bus s" for s
    by (cases s) (simp_all add: bus_level_def)
  ultimately show ?thesis by blast
qed

theorem pending_register_shows_levels_witness:
  "\<exists>bus' v. bus_access (mmio_read (PhysicalAddress 0x10000000) WidthU32) 3 (bus_receive_uart 0 65 bus_new)
     = Some (bus', Ok (Some v)) \<and> \<not> bit v (source_index SrcUart0)"
proof -
  have reach: "bus_reachable (bus_receive_uart 0 65 bus_new)"
    by (intro bus_reachable.receive bus_reachable.new)
  have quiet: "bus_level (bus_receive_uart 0 65 bus_new) SrcUart0 = False"
    unfolding bus_level_def bus_receive_uart_def uart_apply_def uart_receive_def bus_new_def uart_new_def
      uart_irq_pending_def bus_process_def bus_send_def Let_def
    by simp
  from pending_register_shows_levels [OF reach, of 3] obtain bus' v where
    "bus_access (mmio_read (PhysicalAddress 0x10000000) WidthU32) 3 (bus_receive_uart 0 65 bus_new)
       = Some (bus', Ok (Some v))" "bit v (source_index SrcUart0) = bus_level (bus_receive_uart 0 65 bus_new) SrcUart0"
    by blast
  with quiet show ?thesis by blast
qed

end
