(* ===== verification/Core_Machine.thy ===== *)
theory Core_Machine
  imports Core_Bus Core_Mmu_Walk
begin

text \<open>
  The machine of \<open>minemu-core\<close> (\<open>machine.rs\<close>): memory, bus, MMU, virtual time and the bounded
  event history, the virtual-time contract of an instruction, and reset. A result \<open>None\<close> is
  a panic or a call that does not return; the properties show when neither happens.
\<close>

section \<open>State and operations\<close>

datatype instruction_outcome =
    OutCompleted
  | OutSynchronousException exception_kind virtual_address
  | OutFault mmu_fault virtual_address

datatype observable_event = ObsTrace trace_event | ObsException exception_kind

record machine =
  ma_memory :: physical_memory
  ma_bus :: mmio_bus
  ma_mmu :: mmu
  ma_ticks :: u64
  ma_events :: "observable_event list"
  ma_event_capacity :: usize

record machine_status_view =
  ms_ticks :: u64
  ms_mmu_enabled :: bool
  ms_pending_interrupts :: u32
  ms_systick_status :: u32
  ms_block_status :: u32
  ms_uart0_status :: u32
  ms_uart1_status :: u32

definition machine_new :: "physical_memory \<Rightarrow> usize \<Rightarrow> machine" where
  "machine_new memory event_capacity =
     \<lparr>ma_memory = memory, ma_bus = bus_new, ma_mmu = mmu_new, ma_ticks = 0, ma_events = [],
      ma_event_capacity = event_capacity\<rparr>"

definition record_event :: "observable_event \<Rightarrow> machine \<Rightarrow> machine" where
  "record_event event m =
     (if ma_event_capacity m = 0 then m
      else m\<lparr>ma_events := push_bounded (ma_event_capacity m) event (ma_events m)\<rparr>)"

text \<open>\<open>for _ in 0..count\<close> of \<open>advance_ticks\<close>: one tick, then every deadline at that tick.\<close>

fun tick_loop :: "nat \<Rightarrow> machine \<Rightarrow> machine option" where
  "tick_loop 0 m = Some m"
| "tick_loop (Suc n) m =
     (let ticks = ma_ticks m + 1 in
      Option.bind (bus_advance_to physical_memory_ops ticks (ma_bus m) (ma_memory m)) (\<lambda>(bus, memory).
        tick_loop n (m\<lparr>ma_ticks := ticks, ma_bus := bus, ma_memory := memory\<rparr>)))"

definition advance_ticks :: "u64 \<Rightarrow> machine \<Rightarrow> machine option" where
  "advance_ticks count m =
     map_option (\<lambda>m.
       let (bus, traces) = bus_retire_trace_events (ma_ticks m) (ma_bus m)
       in fold record_event (map ObsTrace traces) (m\<lparr>ma_bus := bus\<rparr>))
     (tick_loop (unat count) m)"

definition finish_instruction ::
  "instruction_outcome \<Rightarrow> machine \<Rightarrow> (machine \<times> exception_plan option) option" where
  "finish_instruction outcome m = (case outcome of
     OutCompleted \<Rightarrow> map_option (\<lambda>m. (m, None)) (advance_ticks 1 m)
   | OutSynchronousException kind pc \<Rightarrow>
       Option.bind (advance_ticks 1 m) (\<lambda>m.
       map_option (\<lambda>m. (record_event (ObsException kind) m, Some (plan_synchronous kind pc)))
         (advance_ticks (entry_ticks kind) m))
   | OutFault fault pc \<Rightarrow>
       (let plan = plan_fault fault pc; kind = req_kind (plan_request plan)
        in map_option (\<lambda>m. (record_event (ObsException kind) m, Some plan))
             (advance_ticks (entry_ticks kind) m)))"

definition enter_exception ::
  "exception_kind \<Rightarrow> virtual_address \<Rightarrow> machine \<Rightarrow> (machine \<times> exception_plan) option" where
  "enter_exception kind pc m =
     map_option (\<lambda>m. (record_event (ObsException kind) m, plan_synchronous kind pc))
       (advance_ticks (entry_ticks kind) m)"

definition machine_status :: "machine \<Rightarrow> machine \<times> machine_status_view" where
  "machine_status m =
     (let (ic, pending) = ic_read_pending (bus_interrupts (ma_bus m));
          m = m\<lparr>ma_bus := (ma_bus m)\<lparr>bus_interrupts := ic\<rparr>\<rparr>;
          bus = ma_bus m
      in (m, \<lparr>ms_ticks = ma_ticks m, ms_mmu_enabled = mmu_enabled (ma_mmu m),
              ms_pending_interrupts = pending, ms_systick_status = systick_status (bus_systick bus),
              ms_block_status = block_status (bus_block bus), ms_uart0_status = uart_status (bus_uart0 bus),
              ms_uart1_status = uart_status (bus_uart1 bus)\<rparr>))"

datatype inspection_request =
    InspectMemory physical_range | InspectMmu | InspectPeripherals | InspectEvents

datatype inspection_response =
    RespMemory "u8 list"
  | RespMmu mmu_inspection
  | RespPeripherals peripherals_inspection
  | RespEvents "observable_event list"

definition machine_inspect ::
  "inspection_request \<Rightarrow> machine \<Rightarrow> machine \<times> (core_error + inspection_response)" where
  "machine_inspect request m = (case request of
     InspectMemory r \<Rightarrow>
       (m, and_then (mem_inspect_range (ma_memory m) r) (\<lambda>bytes. Ok (RespMemory bytes)))
   | InspectMmu \<Rightarrow> (m, Ok (RespMmu (mmu_inspect (ma_mmu m))))
   | InspectPeripherals \<Rightarrow>
       (let (bus, view) = bus_inspect (ma_bus m) in (m\<lparr>ma_bus := bus\<rparr>, Ok (RespPeripherals view)))
   | InspectEvents \<Rightarrow> (m, Ok (RespEvents (ma_events m))))"

definition copy_region :: "mem_region \<Rightarrow> machine \<Rightarrow> core_error + u8 list" where
  "copy_region region m =
     (let r = mem_range region in mem_read_range (ma_memory m) r (unat (pr_length r)))"

definition reattach :: "u32 \<Rightarrow> machine \<Rightarrow> machine \<Rightarrow> core_error + machine" where
  "reattach u old m =
     and_then (block_media_clone u (bus_block (ma_bus old))) (\<lambda>media. case media of
       None \<Rightarrow> Ok m
     | Some media \<Rightarrow>
         and_then (bus_host_update (BlockAttach u media) (ma_bus m)) (\<lambda>bus. Ok (m\<lparr>ma_bus := bus\<rparr>)))"

definition reset_clone :: "machine \<Rightarrow> core_error + machine" where
  "reset_clone old =
     and_then (copy_region BootRom old) (\<lambda>boot_rom.
     and_then (copy_region SystemRom old) (\<lambda>system_rom.
     and_then (memory_with_roms boot_rom system_rom) (\<lambda>memory.
     and_then (reattach UNIT_FILESYSTEM old (machine_new memory (ma_event_capacity old))) (\<lambda>m.
       reattach UNIT_SWAP old m))))"

interpretation machine_log: bounded_history record_event ma_events ma_event_capacity
  by unfold_locales (simp_all add: record_event_def)

section \<open>Virtual time\<close>

text \<open>The tick from which a timer period still fits before the end of 64-bit time.\<close>

definition time_left :: "u64 \<Rightarrow> nat \<Rightarrow> bool" where
  "time_left ticks n \<longleftrightarrow> unat ticks + n + 2 ^ 32 \<le> 2 ^ 64"

lemma systick_advance_returns:
  assumes "unat now + 2 ^ 32 \<le> 2 ^ 64"
  shows "systick_update (TickAdvanceTo now) t \<noteq> None"
proof -
  have "deadline_loop (st_period t) now d \<noteq> None" if "st_period t \<noteq> 0" for d
    using deadline_loop_closed [of "st_period t" now d] that assms unat_u32_lt [of "st_period t"]
    by (auto simp: unat_gt_0)
  then have "systick_advance_to now t \<noteq> None"
    by (auto simp: systick_advance_to_def Let_def split: option.splits)
  then show ?thesis
    by (simp add: systick_update_def systick_apply_def)
qed

lemma bus_advance_keeps_trace:
  "bus_advance_to ops now bus mem = Some (bus', mem') \<Longrightarrow> bus_trace bus' = bus_trace bus"
  by (auto simp: bus_advance_to_def bus_process_def bus_send_def Let_def case_prod_unfold)

lemma tick_loop_returns:
  assumes "time_left (ma_ticks m) n"
  shows "\<exists>m'. tick_loop n m = Some m' \<and> unat (ma_ticks m') = unat (ma_ticks m) + n
     \<and> ma_events m' = ma_events m \<and> ma_event_capacity m' = ma_event_capacity m \<and> ma_mmu m' = ma_mmu m
     \<and> bus_trace (ma_bus m') = bus_trace (ma_bus m)"
  using assms
proof (induction n arbitrary: m)
  case (Suc n)
  have tick: "unat (ma_ticks m + 1) = unat (ma_ticks m) + 1"
    using Suc.prems by (subst unat_add_no_wrap) (simp_all add: time_left_def)
  then have "unat (ma_ticks m + 1) + 2 ^ 32 \<le> 2 ^ 64"
    using Suc.prems by (simp add: time_left_def)
  then have "bus_advance_to physical_memory_ops (ma_ticks m + 1) (ma_bus m) (ma_memory m) \<noteq> None"
    using systick_advance_returns by (simp add: bus_advance_to_def)
  then obtain bus mem where
    adv: "bus_advance_to physical_memory_ops (ma_ticks m + 1) (ma_bus m) (ma_memory m) = Some (bus, mem)"
    by auto
  have "time_left (ma_ticks m + 1) n"
    using Suc.prems tick by (simp add: time_left_def)
  with Suc.IH [of "m\<lparr>ma_ticks := ma_ticks m + 1, ma_bus := bus, ma_memory := mem\<rparr>"]
    adv bus_advance_keeps_trace [OF adv] tick
  show ?case
    by auto
qed simp

lemma fold_record_event_keeps:
  "ma_ticks (fold record_event es m) = ma_ticks m" "ma_bus (fold record_event es m) = ma_bus m"
  "ma_mmu (fold record_event es m) = ma_mmu m"
  "ma_event_capacity (fold record_event es m) = ma_event_capacity m"
  by (induction es arbitrary: m) (simp_all add: record_event_def)

definition trace_stamped :: "u64 \<Rightarrow> trace_device \<Rightarrow> trace_event list" where
  "trace_stamped tick d = map (\<lambda>v. \<lparr>te_tick = tick, te_value = v\<rparr>) (tr_staged d)"

lemma advance_ticks_returns:
  assumes "time_left (ma_ticks m) (unat count)"
  shows "\<exists>m' d. advance_ticks count m = Some m' \<and> unat (ma_ticks m') = unat (ma_ticks m) + unat count
     \<and> ma_event_capacity m' = ma_event_capacity m \<and> bus_trace (ma_bus m') = d \<and> tr_staged d = []
     \<and> tr_capacity d = tr_capacity (bus_trace (ma_bus m))
     \<and> (length (ma_events m) \<le> ma_event_capacity m \<longrightarrow>
          ma_events m' = last_n (ma_event_capacity m) (ma_events m @ map ObsTrace
            (if tr_capacity d = 0 then [] else trace_stamped (ma_ticks m') (bus_trace (ma_bus m)))))"
proof -
  from tick_loop_returns [OF assms] obtain m1 where m1: "tick_loop (unat count) m = Some m1"
    "unat (ma_ticks m1) = unat (ma_ticks m) + unat count" "ma_events m1 = ma_events m"
    "ma_event_capacity m1 = ma_event_capacity m" "bus_trace (ma_bus m1) = bus_trace (ma_bus m)"
    by blast
  obtain d es where ret: "trace_retire (ma_ticks m1) (bus_trace (ma_bus m)) = (d, es)"
    by fastforce
  then have d: "tr_staged d = []" "tr_capacity d = tr_capacity (bus_trace (ma_bus m))"
    and es: "es = (if tr_capacity d = 0 then [] else trace_stamped (ma_ticks m1) (bus_trace (ma_bus m)))"
    using fold_trace_push_capacity
    by (auto simp: trace_retire_def trace_commit_fold Let_def fold_trace_push_staged m1 trace_stamped_def)
  let ?m2 = "m1\<lparr>ma_bus := (ma_bus m1)\<lparr>bus_trace := d\<rparr>\<rparr>"
  have "advance_ticks count m = Some (fold record_event (map ObsTrace es) ?m2)"
    by (simp add: advance_ticks_def m1 bus_retire_trace_events_def ret)
  moreover have "length (ma_events m) \<le> ma_event_capacity m \<Longrightarrow>
      ma_events (fold record_event (map ObsTrace es) ?m2) = last_n (ma_event_capacity m) (ma_events m @ map ObsTrace es)"
    using machine_log.push_all [of ?m2 "map ObsTrace es"] m1 by simp
  ultimately show ?thesis
    using d es m1 by (auto simp: fold_record_event_keeps)
qed

section \<open>Properties of the machine\<close>

text \<open>The ticks an attempted instruction costs, from the exception document.\<close>

fun outcome_cost :: "instruction_outcome \<Rightarrow> nat" where
  "outcome_cost OutCompleted = 1"
| "outcome_cost (OutSynchronousException kind pc) = 2"
| "outcome_cost (OutFault fault pc) = 1"

fun outcome_plan :: "instruction_outcome \<Rightarrow> exception_plan option" where
  "outcome_plan OutCompleted = None"
| "outcome_plan (OutSynchronousException kind pc) =
     Some \<lparr>plan_request = \<lparr>req_kind = kind, req_pc = pc, req_fault = None\<rparr>, plan_dispatch_id = dispatch_id kind\<rparr>"
| "outcome_plan (OutFault fault pc) =
     (let kind = (if fs_is_fetch (mf_status fault) then ExPrefetchAbort else ExDataAbort)
      in Some \<lparr>plan_request = \<lparr>req_kind = kind, req_pc = pc, req_fault = Some (mf_status fault)\<rparr>,
               plan_dispatch_id = dispatch_id kind\<rparr>)"

lemma entry_ticks_one [simp]: "entry_ticks k = 1"
  by (simp add: entry_ticks_def)

lemma record_event_keeps [simp]:
  "ma_ticks (record_event e m) = ma_ticks m" "ma_bus (record_event e m) = ma_bus m"
  by (simp_all add: record_event_def)

lemma finish_instruction_returns:
  assumes "time_left (ma_ticks m) (outcome_cost outcome)"
  shows "\<exists>m'. finish_instruction outcome m = Some (m', outcome_plan outcome)
     \<and> unat (ma_ticks m') = unat (ma_ticks m) + outcome_cost outcome
     \<and> tr_staged (bus_trace (ma_bus m')) = []"
proof -
  have step: "\<exists>m'. advance_ticks 1 m = Some m' \<and> unat (ma_ticks m') = unat (ma_ticks m) + 1
      \<and> tr_staged (bus_trace (ma_bus m')) = []" if "time_left (ma_ticks m) 1" for m
    using advance_ticks_returns [of m 1] that by auto
  have "time_left (ma_ticks m) 1"
    using assms by (cases outcome) (simp_all add: time_left_def)
  from step [OF this] obtain m1 where m1: "advance_ticks 1 m = Some m1"
      "unat (ma_ticks m1) = unat (ma_ticks m) + 1" "tr_staged (bus_trace (ma_bus m1)) = []"
    by blast
  show ?thesis
  proof (cases outcome)
    case OutCompleted
    with m1 show ?thesis by (simp add: finish_instruction_def)
  next
    case (OutSynchronousException kind pc)
    have "time_left (ma_ticks m1) 1"
      using assms m1 OutSynchronousException by (simp add: time_left_def)
    from step [OF this] m1 OutSynchronousException show ?thesis
      by (auto simp: finish_instruction_def plan_synchronous_def request_synchronous_def)
  next
    case (OutFault fault pc)
    with m1 show ?thesis
      by (simp add: finish_instruction_def plan_fault_def request_abort_def Let_def)
  qed
qed

text \<open>
  While time is left, every attempted instruction returns. A completed one costs one tick, a
  trap its own tick and one of entry, an abort only the tick of entry; the exception plan names
  the documented kind, address, fault and dispatch number, and no trace write stays staged.
\<close>

theorem instruction_costs:
  assumes "time_left (ma_ticks m) (outcome_cost outcome)"
  shows "\<exists>m'. finish_instruction outcome m = Some (m', outcome_plan outcome)
     \<and> unat (ma_ticks m') = unat (ma_ticks m) + outcome_cost outcome
     \<and> tr_staged (bus_trace (ma_bus m')) = []"
  using assms by (rule finish_instruction_returns)

theorem instruction_costs_witness:
  "\<exists>m'. finish_instruction (OutSynchronousException ExSupervisorCall (VirtualAddress 8))
      (machine_new memory_empty 16) =
    Some (m', Some \<lparr>plan_request = \<lparr>req_kind = ExSupervisorCall, req_pc = VirtualAddress 8, req_fault = None\<rparr>,
       plan_dispatch_id = dispatch_id ExSupervisorCall\<rparr>)
    \<and> unat (ma_ticks m') = 2"
  using instruction_costs [of "machine_new memory_empty 16" "OutSynchronousException ExSupervisorCall (VirtualAddress 8)"]
  by (auto simp: time_left_def machine_new_def)

text \<open>
  The trace writes of a completed instruction enter the event history together, in program
  order, stamped with the tick at which the instruction retires; of a full history the oldest
  events are dropped.
\<close>

theorem retired_trace_events:
  assumes "time_left (ma_ticks m) 1" and "length (ma_events m) \<le> ma_event_capacity m"
    and "tr_capacity (bus_trace (ma_bus m)) \<noteq> 0"
  shows "\<exists>m'. finish_instruction OutCompleted m = Some (m', None)
     \<and> ma_events m' = last_n (ma_event_capacity m) (ma_events m @
         map (\<lambda>v. ObsTrace \<lparr>te_tick = ma_ticks m + 1, te_value = v\<rparr>) (tr_staged (bus_trace (ma_bus m))))"
proof -
  obtain m' where m': "advance_ticks 1 m = Some m'" "unat (ma_ticks m') = unat (ma_ticks m) + 1"
    "ma_events m' = last_n (ma_event_capacity m) (ma_events m @
       map ObsTrace (trace_stamped (ma_ticks m') (bus_trace (ma_bus m))))"
    using advance_ticks_returns [of m 1] assms by auto
  have "unat (ma_ticks m + 1) = unat (ma_ticks m) + 1"
    using assms(1) by (subst unat_add_no_wrap) (simp_all add: time_left_def)
  with m'(2) have "ma_ticks m' = ma_ticks m + 1"
    by (metis word_eq_iff_unsigned)
  with m' show ?thesis
    by (simp add: finish_instruction_def trace_stamped_def comp_def)
qed

theorem retired_trace_events_witness:
  "\<exists>m'. finish_instruction OutCompleted ((machine_new memory_empty 1)\<lparr>ma_bus :=
       bus_new\<lparr>bus_trace := trace_stage 9 (trace_stage 8 (trace_new 4))\<rparr>\<rparr>) = Some (m', None)
    \<and> ma_events m' = [ObsTrace \<lparr>te_tick = 1, te_value = 9\<rparr>]"
  using retired_trace_events [of "(machine_new memory_empty 1)\<lparr>ma_bus :=
       bus_new\<lparr>bus_trace := trace_stage 9 (trace_stage 8 (trace_new 4))\<rparr>\<rparr>"]
  by (simp add: time_left_def machine_new_def trace_stage_def trace_new_def last_n_def)

section \<open>Reset\<close>

lemma copy_rom:
  "copy_region BootRom m = Ok (map (pm_boot_rom (ma_memory m)) [0..<0x10000])"
  "copy_region SystemRom m = Ok (map (pm_system_rom (ma_memory m)) [0..<0x1000000])"
proof -
  have reg: "region_of (mem_base r) = Some r" for r
    by (cases r) (simp_all add: region_of_Some_bounds mem_layout)
  have "copy_region r m = region_slice (ma_memory m) (mem_base r) (unat (mem_size r))" for r
    by (simp add: copy_region_def mem_read_range_def mem_base_def mem_size_def Let_def)
  then show "copy_region BootRom m = Ok (map (pm_boot_rom (ma_memory m)) [0..<0x10000])"
    and "copy_region SystemRom m = Ok (map (pm_system_rom (ma_memory m)) [0..<0x1000000])"
    using reg by (simp_all add: region_slice_storage is_device_def mem_layout)
qed

lemma memory_with_copied_roms:
  assumes "memory_with_roms (map (pm_boot_rom old) [0..<0x10000]) (map (pm_system_rom old) [0..<0x1000000]) = Ok m"
  shows "mem_byte m n = (if 0x40000000 \<le> n \<and> n < 0x44000000 then Some 0 else mem_byte old n)"
  using assms
  by (auto simp: memory_with_roms_def memory_empty_def mem_byte_def array_put_def zeroed_def split: if_splits)

lemma memory_with_copied_roms_Ok:
  "\<exists>m. memory_with_roms (map f [0..<0x10000]) (map g [0..<0x1000000]) = Ok m"
  by (simp add: memory_with_roms_def mem_layout)

text \<open>Media as \<open>attach\<close> accepts them.\<close>

definition media_valid :: "block_device \<Rightarrow> bool" where
  "media_valid b \<longleftrightarrow> length (bd_units b) = 2
     \<and> (\<forall>s\<in>set (bd_units b). \<forall>media. mu_media s = Some media \<longrightarrow> media \<noteq> [] \<and> length media mod 512 = 0)"

definition clean_unit :: "media_unit \<Rightarrow> media_unit" where
  "clean_unit s = \<lparr>mu_media = mu_media s, mu_dirty_sectors = {}\<rparr>"

lemma reattach_unit:
  assumes "media_valid (bus_block (ma_bus old))" and "unat u < 2"
    and "bd_units (bus_block (ma_bus m)) ! unat u = media_unit_default"
    and "length (bd_units (bus_block (ma_bus m))) = 2"
  shows "\<exists>ic. reattach u old m = Ok (m\<lparr>ma_bus := (ma_bus m)\<lparr>
      bus_block := block_set_unit_state (unat u) (clean_unit (bd_units (bus_block (ma_bus old)) ! unat u))
        (bus_block (ma_bus m)),
      bus_interrupts := ic\<rparr>\<rparr>) \<and> ic_pending ic = ic_pending (bus_interrupts (ma_bus m))"
proof -
  let ?s = "bd_units (bus_block (ma_bus old)) ! unat u"
  have idx: "unit_index u = Ok (unat u)"
    using assms(2) by (simp add: unit_index_def UNIT_COUNT_def)
  show ?thesis
  proof (cases "mu_media ?s")
    case None
    have "block_set_unit_state (unat u) (clean_unit ?s) (bus_block (ma_bus m)) = bus_block (ma_bus m)"
      using assms(2-4) None
      by (simp add: block_set_unit_state_def clean_unit_def media_unit_default_def [symmetric] list_update_same_conv)
    with None idx show ?thesis
      by (auto simp: reattach_def block_media_clone_def intro!: exI [of _ "bus_interrupts (ma_bus m)"])
  next
    case (Some media)
    have "?s \<in> set (bd_units (bus_block (ma_bus old)))"
      using assms(1,2) by (simp add: media_valid_def)
    with assms(1) Some have "media \<noteq> []" "length media mod 512 = 0"
      by (auto simp: media_valid_def)
    with Some idx show ?thesis
      by (simp add: reattach_def block_media_clone_def bus_host_update_def block_update_def block_attach_def
          SECTOR_SIZE_def clean_unit_def bus_send_def deliver_signals_def)
         (rule exI, rule conjI, rule refl, simp)
  qed
qed

text \<open>
  Reset gives a machine with the same ROM bytes and the same attached media, clean, and with
  zero RAM; the MMU, virtual time, events and every other device are as new.
\<close>

theorem reset_keeps_rom_and_media:
  assumes "media_valid (bus_block (ma_bus old))"
  shows "\<exists>m. reset_clone old = Ok m
     \<and> (\<forall>n. mem_byte (ma_memory m) n =
          (if 0x40000000 \<le> n \<and> n < 0x44000000 then Some 0 else mem_byte (ma_memory old) n))
     \<and> bd_units (bus_block (ma_bus m)) = map clean_unit (bd_units (bus_block (ma_bus old)))
     \<and> (bus_block (ma_bus m))\<lparr>bd_units := []\<rparr> = block_new\<lparr>bd_units := []\<rparr>
     \<and> ma_mmu m = mmu_new \<and> ma_ticks m = 0 \<and> ma_events m = []
     \<and> bus_systick (ma_bus m) = systick_new \<and> bus_rng (ma_bus m) = rng_new
     \<and> ic_pending (bus_interrupts (ma_bus m)) = 0"
proof -
  let ?ub = "bd_units (bus_block (ma_bus old))"
  obtain mem where mem: "memory_with_roms (map (pm_boot_rom (ma_memory old)) [0..<0x10000])
      (map (pm_system_rom (ma_memory old)) [0..<0x1000000]) = Ok mem"
    using memory_with_copied_roms_Ok by blast
  define m0 where "m0 = machine_new mem (ma_event_capacity old)"
  have m0: "bd_units (bus_block (ma_bus m0)) = [media_unit_default, media_unit_default]"
    by (simp add: m0_def machine_new_def bus_new_def block_new_def UNIT_COUNT_def numeral_2_eq_2)
  from reattach_unit [OF assms, of 0 m0] m0 obtain ic1 m1 where m1:
    "reattach 0 old m0 = Ok m1" "ic_pending ic1 = ic_pending (bus_interrupts (ma_bus m0))"
    "m1 = m0\<lparr>ma_bus := (ma_bus m0)\<lparr>
       bus_block := block_set_unit_state 0 (clean_unit (?ub ! 0)) (bus_block (ma_bus m0)),
       bus_interrupts := ic1\<rparr>\<rparr>"
    by auto
  from reattach_unit [OF assms, of 1 m1] m0 m1 obtain ic2 m2 where m2:
    "reattach 1 old m1 = Ok m2" "ic_pending ic2 = ic_pending (bus_interrupts (ma_bus m1))"
    "m2 = m1\<lparr>ma_bus := (ma_bus m1)\<lparr>
       bus_block := block_set_unit_state 1 (clean_unit (?ub ! 1)) (bus_block (ma_bus m1)),
       bus_interrupts := ic2\<rparr>\<rparr>"
    by (auto simp: block_set_unit_state_def)
  have two: "?ub = [?ub ! 0, ?ub ! 1]"
    using assms by (auto simp: media_valid_def length_Suc_conv numeral_2_eq_2)
  have "reset_clone old = Ok m2"
    using mem m1(1) m2(1)
    by (simp add: reset_clone_def copy_rom UNIT_FILESYSTEM_def UNIT_SWAP_def m0_def [symmetric])
  moreover have "mem_byte (ma_memory m2) n =
      (if 0x40000000 \<le> n \<and> n < 0x44000000 then Some 0 else mem_byte (ma_memory old) n)" for n
    using memory_with_copied_roms [OF mem, of n]
    by (simp add: m2(3) m1(3) m0_def machine_new_def)
  moreover have "bd_units (bus_block (ma_bus m2)) = map clean_unit ?ub"
    using m0 by (subst two) (simp add: m2(3) m1(3) block_set_unit_state_def)
  moreover have "ic_pending (bus_interrupts (ma_bus m2)) = 0"
    using m1(2) m2(2)
    by (simp add: m2(3) m1(3) m0_def machine_new_def bus_new_def interrupt_controller_new_def)
  ultimately show ?thesis
    by (simp add: m2(3) m1(3) m0_def machine_new_def bus_new_def block_set_unit_state_def)
qed

theorem reset_keeps_rom_and_media_witness:
  "\<exists>m. reset_clone ((machine_new memory_empty 4)\<lparr>ma_bus := bus_new\<lparr>bus_block := sample_block\<rparr>, ma_ticks := 9\<rparr>) = Ok m
     \<and> map mu_media (bd_units (bus_block (ma_bus m))) = [None, Some (replicate 1024 7)] \<and> ma_ticks m = 0"
proof -
  let ?old = "(machine_new memory_empty 4)\<lparr>ma_bus := bus_new\<lparr>bus_block := sample_block\<rparr>, ma_ticks := 9\<rparr>"
  have "media_valid (bus_block (ma_bus ?old))"
    by (simp add: media_valid_def sample_block_units media_unit_default_def)
  from reset_keeps_rom_and_media [OF this] show ?thesis
    by (auto simp: sample_block_units clean_unit_def media_unit_default_def)
qed

end
