(* ===== verification/Platform_Image.thy ===== *)
theory Platform_Image
  imports Platform_Address
begin

text \<open>
  The wire records of the system ROM image and of boot info (\<open>image.rs\<close> of \<open>minemu-platform\<close>):
  the bounds-checked little-endian readers and writers, and for each record its validation,
  its encoder and its decoder. A decoder accepts exactly the byte strings whose first bytes
  are the encoding of a valid record, fixed and reserved fields included.
\<close>

section \<open>Constants\<close>

definition ABI_VERSION :: u16 where "ABI_VERSION = 1"
definition IMAGE_MAGIC :: u32 where "IMAGE_MAGIC = 0x4d454d55"
definition BOOT_INFO_MAGIC :: u32 where "BOOT_INFO_MAGIC = 0x4d424f4f"
definition IMAGE_HEADER_SIZE :: usize where "IMAGE_HEADER_SIZE = 64"
definition KERNEL_SEGMENT_SIZE :: usize where "KERNEL_SEGMENT_SIZE = 32"
definition MODULE_RECORD_SIZE :: usize where "MODULE_RECORD_SIZE = 32"
definition MODULE_SEGMENT_SIZE :: usize where "MODULE_SEGMENT_SIZE = 32"
definition BOOT_INFO_SIZE :: usize where "BOOT_INFO_SIZE = 64"
definition SEGMENT_FLAGS_MASK :: u32 where "SEGMENT_FLAGS_MASK = 0x7"

lemmas image_consts = ABI_VERSION_def IMAGE_MAGIC_def BOOT_INFO_MAGIC_def IMAGE_HEADER_SIZE_def
  KERNEL_SEGMENT_SIZE_def MODULE_RECORD_SIZE_def MODULE_SEGMENT_SIZE_def BOOT_INFO_SIZE_def
  SEGMENT_FLAGS_MASK_def

section \<open>Readers and writers\<close>

definition require_length :: "u8 list \<Rightarrow> usize \<Rightarrow> platform_error + unit" where
  "require_length bytes expected =
     (if length bytes < expected then Err (InvalidImageLength expected (length bytes)) else Ok ())"

definition image_read_u16 :: "u8 list \<Rightarrow> usize \<Rightarrow> platform_error + u16" where
  "image_read_u16 bytes offset =
     ok_or (Option.bind (slice_get bytes offset (offset + 2)) u16_from_le_bytes)
       (InvalidImageLength (offset + 2) (length bytes))"

definition image_read_u32 :: "u8 list \<Rightarrow> usize \<Rightarrow> platform_error + u32" where
  "image_read_u32 bytes offset =
     ok_or (Option.bind (slice_get bytes offset (offset + 4)) u32_from_le_bytes)
       (InvalidImageLength (offset + 4) (length bytes))"

definition image_write_u16 :: "u8 list \<Rightarrow> usize \<Rightarrow> u16 \<Rightarrow> u8 list" where
  "image_write_u16 bytes offset value = slice_put bytes offset (u16_to_le_bytes value)"

definition image_write_u32 :: "u8 list \<Rightarrow> usize \<Rightarrow> u32 \<Rightarrow> u8 list" where
  "image_write_u32 bytes offset value = slice_put bytes offset (u32_to_le_bytes value)"

definition reserved_zero :: "u8 list \<Rightarrow> usize \<Rightarrow> usize \<Rightarrow> platform_error + bool" where
  "reserved_zero bytes offset len =
     and_then (ok_or (slice_get bytes offset (offset + len))
                (InvalidImageLength (offset + len) (length bytes)))
       (\<lambda>slice. Ok (list_all (\<lambda>byte. byte = 0) slice))"

definition validate_table :: "u32 \<Rightarrow> u32 \<Rightarrow> usize \<Rightarrow> u32 \<Rightarrow> platform_error + unit" where
  "validate_table offset count record_size image_size =
     (if (ucast offset :: u64) + ucast count * of_nat record_size > ucast image_size
      then Err ImageTableOutsideImage else Ok ())"

lemma validate_table_Ok:
  assumes "record_size = 32"
  shows "validate_table offset count record_size image_size = Ok () \<longleftrightarrow>
    unat offset + unat count * 32 \<le> unat image_size"
proof -
  have c: "unat (ucast count * 32 :: u64) = unat count * 32"
    using unat_u32_lt [of count] by (simp add: unat_word_ariths)
  have "unat (ucast offset + ucast count * 32 :: u64) = unat offset + unat count * 32"
    using unat_u32_lt [of count] unat_u32_lt [of offset]
    by (subst unat_add_no_wrap) (simp_all add: c)
  then show ?thesis using assms by (simp add: validate_table_def word_nat)
qed

text \<open>
  The bytes a reader consumed are the encoding of the value it returned, and a sequence of
  fields that each stand at their place is their concatenation at that place.
\<close>

lemma u16_to_le_inj [simp]: "u16_to_le_bytes x = u16_to_le_bytes y \<longleftrightarrow> x = y"
  using u16_le_roundtrip [of x] u16_le_roundtrip [of y] by (metis option.inject)

lemma u32_to_le_inj [simp]: "u32_to_le_bytes x = u32_to_le_bytes y \<longleftrightarrow> x = y"
  using u32_le_roundtrip [of x] u32_le_roundtrip [of y] by (metis option.inject)

lemma ucast_low_u16: "ucast (ucast (a :: u8) OR push_bit 8 (ucast (b :: u8)) :: u16) = a"
  by (rule bit_word_eqI) (auto simp: bit_simps)

lemma ucast_high_u16: "ucast (drop_bit 8 (ucast (a :: u8) OR push_bit 8 (ucast (b :: u8)) :: u16)) = b"
  by (rule bit_word_eqI) (auto simp: bit_simps dest: bit_imp_le_length)

lemma u16_from_le_bytes_Some: "u16_from_le_bytes s = Some v \<longleftrightarrow> s = u16_to_le_bytes v"
proof
  assume "u16_from_le_bytes s = Some v"
  then show "s = u16_to_le_bytes v"
    by (cases s rule: u16_from_le_bytes.cases)
      (auto simp: u16_to_le_bytes_def ucast_low_u16 ucast_high_u16 simp del: drop_bit_or)
qed simp

lemma u32_from_le_bytes_iff: "u32_from_le_bytes s = Some v \<longleftrightarrow> s = u32_to_le_bytes v"
proof
  assume "u32_from_le_bytes s = Some v"
  then obtain a b c d where s: "s = [a, b, c, d]"
    and v: "v = ucast a OR push_bit 8 (ucast b) OR push_bit 16 (ucast c) OR push_bit 24 (ucast d)"
    by (cases s rule: u32_from_le_bytes.cases) auto
  have "ucast v = a" "ucast (drop_bit 8 v) = b" "ucast (drop_bit 16 v) = c" "ucast (drop_bit 24 v) = d"
    unfolding v by (rule bit_word_eqI; auto simp: bit_simps dest: bit_imp_le_length)+
  then show "s = u32_to_le_bytes v" by (simp add: s u32_to_le_bytes_def)
qed simp

lemma image_read_u16_Ok:
  "image_read_u16 bytes offset = Ok v \<longleftrightarrow> take 2 (drop offset bytes) = u16_to_le_bytes v"
proof -
  have "image_read_u16 bytes offset = Ok v \<longleftrightarrow>
      offset + 2 \<le> length bytes \<and> take 2 (drop offset bytes) = u16_to_le_bytes v"
    by (auto simp: image_read_u16_def ok_or_Ok bind_eq_Some_conv slice_get_Some u16_from_le_bytes_Some)
  moreover have "offset + 2 \<le> length bytes" if "take 2 (drop offset bytes) = u16_to_le_bytes v"
    using arg_cong [OF that, of length] by simp
  ultimately show ?thesis by blast
qed

lemma image_read_u32_Ok:
  "image_read_u32 bytes offset = Ok v \<longleftrightarrow> take 4 (drop offset bytes) = u32_to_le_bytes v"
proof -
  have "image_read_u32 bytes offset = Ok v \<longleftrightarrow>
      offset + 4 \<le> length bytes \<and> take 4 (drop offset bytes) = u32_to_le_bytes v"
    by (auto simp: image_read_u32_def ok_or_Ok bind_eq_Some_conv slice_get_Some u32_from_le_bytes_iff)
  moreover have "offset + 4 \<le> length bytes" if "take 4 (drop offset bytes) = u32_to_le_bytes v"
    using arg_cong [OF that, of length] by simp
  ultimately show ?thesis by blast
qed

lemma reserved_zero_True:
  assumes "0 < len"
  shows "reserved_zero bytes offset len = Ok True \<longleftrightarrow> take len (drop offset bytes) = replicate len 0"
proof -
  have "reserved_zero bytes offset len = Ok True \<longleftrightarrow>
      offset + len \<le> length bytes \<and> list_all (\<lambda>byte. byte = 0) (take len (drop offset bytes))"
    by (auto simp: reserved_zero_def and_then_Ok ok_or_Ok slice_get_Some)
  also have "\<dots> \<longleftrightarrow> offset + len \<le> length bytes \<and> take len (drop offset bytes) = replicate len 0"
    by (auto simp: list_all_iff replicate_eqI [OF _ ] intro!: replicate_eqI)
  finally have e: "reserved_zero bytes offset len = Ok True \<longleftrightarrow>
      offset + len \<le> length bytes \<and> take len (drop offset bytes) = replicate len 0" .
  have "offset + len \<le> length bytes" if "take len (drop offset bytes) = replicate len 0"
    using arg_cong [OF that, of length] assms by simp
  with e show ?thesis by blast
qed

fun fields_at :: "u8 list \<Rightarrow> usize \<Rightarrow> u8 list list \<Rightarrow> bool" where
  "fields_at bytes offset [] \<longleftrightarrow> True"
| "fields_at bytes offset (f # fs) \<longleftrightarrow>
     take (length f) (drop offset bytes) = f \<and> fields_at bytes (offset + length f) fs"

lemma take_split_append:
  "take (length f + n) ys = f @ g \<longleftrightarrow> take (length f) ys = f \<and> take n (drop (length f) ys) = g"
proof
  assume e: "take (length f + n) ys = f @ g"
  have "take (length f) (take (length f + n) ys) = f" unfolding e by simp
  moreover have "drop (length f) (take (length f + n) ys) = g" unfolding e by simp
  ultimately show "take (length f) ys = f \<and> take n (drop (length f) ys) = g"
    by (simp add: drop_take min_def)
qed (simp add: take_add)

lemma fields_at_concat:
  "fields_at bytes offset fs \<longleftrightarrow> take (length (concat fs)) (drop offset bytes) = concat fs"
  by (induction fs arbitrary: offset)
    (simp_all add: take_split_append add.commute del: length_concat)

section \<open>The image header\<close>

record image_header =
  ih_image_size :: u32
  ih_kernel_segment_table_offset :: u32
  ih_kernel_segment_count :: u32
  ih_module_table_offset :: u32
  ih_module_count :: u32
  ih_bootstrap_entry_paddr :: physical_address
  ih_kernel_entry_vaddr :: virtual_address
  ih_boot_info_paddr :: physical_address

definition image_header_validate :: "image_header \<Rightarrow> platform_error + unit" where
  "image_header_validate h =
     (if ih_image_size h < of_nat IMAGE_HEADER_SIZE \<or> ih_image_size h > mem_size SystemRom
      then Err (InvalidImageField ''image size'')
      else if pa_get (ih_bootstrap_entry_paddr h) \<noteq> BOOTSTRAP_ENTRY_PADDR
      then Err (InvalidImageField ''bootstrap entry'')
      else if pa_get (ih_boot_info_paddr h) \<noteq> BOOT_INFO_PADDR
      then Err (InvalidImageField ''boot info address'')
      else and_then (direct_map_physical (ih_kernel_entry_vaddr h)) (\<lambda>_.
        and_then (validate_table (ih_kernel_segment_table_offset h) (ih_kernel_segment_count h)
                    KERNEL_SEGMENT_SIZE (ih_image_size h)) (\<lambda>_.
        validate_table (ih_module_table_offset h) (ih_module_count h)
          MODULE_RECORD_SIZE (ih_image_size h))))"

definition image_header_decode :: "u8 list \<Rightarrow> platform_error + image_header" where
  "image_header_decode bytes =
     and_then (require_length bytes IMAGE_HEADER_SIZE) (\<lambda>_.
     and_then (image_read_u32 bytes 0) (\<lambda>magic.
     if magic \<noteq> IMAGE_MAGIC then Err (InvalidImageField ''magic'') else
     and_then (image_read_u16 bytes 4) (\<lambda>version.
     if version \<noteq> ABI_VERSION then Err (InvalidImageField ''version'') else
     and_then (image_read_u16 bytes 6) (\<lambda>header_size.
     if header_size \<noteq> of_nat IMAGE_HEADER_SIZE then Err (InvalidImageField ''header size'') else
     and_then (image_read_u32 bytes 40) (\<lambda>flags.
     and_then (if flags \<noteq> 0 then Ok True
               else and_then (reserved_zero bytes 44 20) (\<lambda>z. Ok (\<not> z))) (\<lambda>bad.
     if bad then Err (InvalidImageField ''reserved header bits'') else
     and_then (image_read_u32 bytes 8) (\<lambda>image_size.
     and_then (image_read_u32 bytes 12) (\<lambda>segment_table.
     and_then (image_read_u32 bytes 16) (\<lambda>segment_count.
     and_then (image_read_u32 bytes 20) (\<lambda>module_table.
     and_then (image_read_u32 bytes 24) (\<lambda>module_count.
     and_then (image_read_u32 bytes 28) (\<lambda>bootstrap.
     and_then (image_read_u32 bytes 32) (\<lambda>entry.
     and_then (image_read_u32 bytes 36) (\<lambda>boot_info.
     (let header = \<lparr>ih_image_size = image_size,
            ih_kernel_segment_table_offset = segment_table,
            ih_kernel_segment_count = segment_count,
            ih_module_table_offset = module_table,
            ih_module_count = module_count,
            ih_bootstrap_entry_paddr = PhysicalAddress bootstrap,
            ih_kernel_entry_vaddr = VirtualAddress entry,
            ih_boot_info_paddr = PhysicalAddress boot_info\<rparr>
      in and_then (image_header_validate header) (\<lambda>_. Ok header))))))))))))))))"

definition image_header_encode :: "image_header \<Rightarrow> platform_error + u8 list" where
  "image_header_encode h =
     and_then (image_header_validate h) (\<lambda>_.
     (let bytes = replicate IMAGE_HEADER_SIZE 0;
          bytes = image_write_u32 bytes 0 IMAGE_MAGIC;
          bytes = image_write_u16 bytes 4 ABI_VERSION;
          bytes = image_write_u16 bytes 6 (of_nat IMAGE_HEADER_SIZE);
          bytes = image_write_u32 bytes 8 (ih_image_size h);
          bytes = image_write_u32 bytes 12 (ih_kernel_segment_table_offset h);
          bytes = image_write_u32 bytes 16 (ih_kernel_segment_count h);
          bytes = image_write_u32 bytes 20 (ih_module_table_offset h);
          bytes = image_write_u32 bytes 24 (ih_module_count h);
          bytes = image_write_u32 bytes 28 (pa_get (ih_bootstrap_entry_paddr h));
          bytes = image_write_u32 bytes 32 (va_get (ih_kernel_entry_vaddr h));
          bytes = image_write_u32 bytes 36 (pa_get (ih_boot_info_paddr h))
      in Ok bytes))"

text \<open>The layout of the header, field by field, and the encoder as its concatenation.\<close>

definition image_header_fields :: "image_header \<Rightarrow> u8 list list" where
  "image_header_fields h =
     [u32_to_le_bytes IMAGE_MAGIC, u16_to_le_bytes ABI_VERSION, u16_to_le_bytes 64,
      u32_to_le_bytes (ih_image_size h), u32_to_le_bytes (ih_kernel_segment_table_offset h),
      u32_to_le_bytes (ih_kernel_segment_count h), u32_to_le_bytes (ih_module_table_offset h),
      u32_to_le_bytes (ih_module_count h), u32_to_le_bytes (pa_get (ih_bootstrap_entry_paddr h)),
      u32_to_le_bytes (va_get (ih_kernel_entry_vaddr h)),
      u32_to_le_bytes (pa_get (ih_boot_info_paddr h)), u32_to_le_bytes 0, replicate 20 0]"

text \<open>Writing the next field of a record whose tail is still zero.\<close>

lemma slice_put_skip:
  "length done \<le> offset \<Longrightarrow> slice_put (done @ rest) offset f = done @ slice_put rest (offset - length done) f"
  by (simp add: slice_put_def)

lemma slice_put_first:
  "length f \<le> n \<Longrightarrow> slice_put (replicate n 0) 0 f = f @ replicate (n - length f) 0"
  by (simp add: slice_put_def)

lemma u32_to_le_bytes_0: "u32_to_le_bytes 0 = replicate 4 0"
  by (simp add: u32_to_le_bytes_def numeral_eq_Suc)

lemma replicate_app: "replicate m x @ replicate n x = replicate (m + n) x"
  by (simp add: replicate_add)

lemmas image_write_next = slice_put_first slice_put_skip image_write_u16_def image_write_u32_def
  u32_to_le_bytes_0 replicate_app

lemma length_image_header_fields [simp]: "length (concat (image_header_fields h)) = 64"
  by (simp add: image_header_fields_def)

lemma image_header_encode_Ok:
  "image_header_encode h = Ok raw \<longleftrightarrow>
     image_header_validate h = Ok () \<and> raw = concat (image_header_fields h)"
  by (auto simp: image_header_encode_def and_then_Ok Let_def IMAGE_HEADER_SIZE_def
      image_header_fields_def image_write_next)

lemmas image_read_Ok = image_read_u16_Ok image_read_u32_Ok reserved_zero_True

lemma take_eq_fields:
  assumes "length (concat fs) = n"
  shows "take n bytes = concat fs \<longleftrightarrow> n \<le> length bytes \<and> fields_at bytes 0 fs"
proof -
  have "take n bytes = concat fs \<Longrightarrow> n \<le> length bytes"
    using assms by (metis length_take min.absorb_iff2 min.commute)
  with fields_at_concat [of bytes 0 fs] assms show ?thesis by auto
qed

lemma take_eq_prefix:
  assumes "length c = n"
  shows "take n bytes = c \<longleftrightarrow> (\<exists>rest. bytes = c @ rest)"
  using assms by (metis append_eq_conv_conj append_take_drop_id)

lemma image_header_decode_Ok:
  "image_header_decode bytes = Ok h \<longleftrightarrow>
     image_header_validate h = Ok () \<and> take 64 bytes = concat (image_header_fields h)"
  unfolding take_eq_fields [OF length_image_header_fields]
proof
  assume "image_header_decode bytes = Ok h"
  then show "image_header_validate h = Ok () \<and> 64 \<le> length bytes \<and> fields_at bytes 0 (image_header_fields h)"
    unfolding image_header_decode_def
    by (clarsimp simp: and_then_Ok Let_def image_header_fields_def image_read_Ok
        require_length_def IMAGE_HEADER_SIZE_def split: if_splits)
next
  assume "image_header_validate h = Ok () \<and> 64 \<le> length bytes \<and> fields_at bytes 0 (image_header_fields h)"
  then show "image_header_decode bytes = Ok h"
    by (cases h) (simp add: image_header_fields_def image_read_Ok [symmetric] image_header_decode_def
        require_length_def IMAGE_HEADER_SIZE_def Let_def del: drop0 drop_0)
qed

section \<open>Kernel segments\<close>

record kernel_segment =
  ks_data_offset :: u32
  ks_physical_address :: physical_address
  ks_virtual_address :: virtual_address
  ks_file_size :: u32
  ks_memory_size :: u32
  ks_flags :: u32

definition kernel_segment_validate :: "kernel_segment \<Rightarrow> platform_error + unit" where
  "kernel_segment_validate k =
     (if ks_memory_size k = 0 \<or> ks_file_size k > ks_memory_size k
      then Err (InvalidImageField ''kernel segment size'')
      else if ks_flags k AND NOT SEGMENT_FLAGS_MASK \<noteq> 0
      then Err (InvalidImageField ''kernel segment flags'')
      else and_then (physical_range_new (ks_physical_address k) (ks_memory_size k)) (\<lambda>physical_range.
        if \<not> contains_range (mem_range Ram) physical_range
        then Err (InvalidImageField ''kernel segment physical range'')
        else (let high_half_matches =
                (case direct_map_physical (ks_virtual_address k) of
                   Ok physical \<Rightarrow> physical = ks_physical_address k
                 | Err _ \<Rightarrow> False)
              in if va_get (ks_virtual_address k) \<noteq> pa_get (ks_physical_address k)
                   \<and> \<not> high_half_matches
                 then Err (InvalidImageField ''kernel segment virtual mapping'')
                 else Ok ())))"

definition kernel_segment_decode :: "u8 list \<Rightarrow> platform_error + kernel_segment" where
  "kernel_segment_decode bytes =
     and_then (require_length bytes KERNEL_SEGMENT_SIZE) (\<lambda>_.
     and_then (reserved_zero bytes 24 8) (\<lambda>z.
     if \<not> z then Err (InvalidImageField ''kernel segment reserved bits'') else
     and_then (image_read_u32 bytes 0) (\<lambda>data_offset.
     and_then (image_read_u32 bytes 4) (\<lambda>physical.
     and_then (image_read_u32 bytes 8) (\<lambda>virtual.
     and_then (image_read_u32 bytes 12) (\<lambda>file_size.
     and_then (image_read_u32 bytes 16) (\<lambda>memory_size.
     and_then (image_read_u32 bytes 20) (\<lambda>flags.
     (let segment = \<lparr>ks_data_offset = data_offset,
            ks_physical_address = PhysicalAddress physical,
            ks_virtual_address = VirtualAddress virtual,
            ks_file_size = file_size, ks_memory_size = memory_size, ks_flags = flags\<rparr>
      in and_then (kernel_segment_validate segment) (\<lambda>_. Ok segment))))))))))"

definition kernel_segment_encode :: "kernel_segment \<Rightarrow> platform_error + u8 list" where
  "kernel_segment_encode k =
     and_then (kernel_segment_validate k) (\<lambda>_.
     (let bytes = replicate KERNEL_SEGMENT_SIZE 0;
          bytes = image_write_u32 bytes 0 (ks_data_offset k);
          bytes = image_write_u32 bytes 4 (pa_get (ks_physical_address k));
          bytes = image_write_u32 bytes 8 (va_get (ks_virtual_address k));
          bytes = image_write_u32 bytes 12 (ks_file_size k);
          bytes = image_write_u32 bytes 16 (ks_memory_size k);
          bytes = image_write_u32 bytes 20 (ks_flags k)
      in Ok bytes))"

definition kernel_segment_fields :: "kernel_segment \<Rightarrow> u8 list list" where
  "kernel_segment_fields k =
     [u32_to_le_bytes (ks_data_offset k), u32_to_le_bytes (pa_get (ks_physical_address k)),
      u32_to_le_bytes (va_get (ks_virtual_address k)), u32_to_le_bytes (ks_file_size k),
      u32_to_le_bytes (ks_memory_size k), u32_to_le_bytes (ks_flags k), replicate 8 0]"

lemma length_kernel_segment_fields [simp]: "length (concat (kernel_segment_fields k)) = 32"
  by (simp add: kernel_segment_fields_def)

lemma kernel_segment_encode_Ok:
  "kernel_segment_encode k = Ok raw \<longleftrightarrow>
     kernel_segment_validate k = Ok () \<and> raw = concat (kernel_segment_fields k)"
  by (auto simp: kernel_segment_encode_def and_then_Ok Let_def KERNEL_SEGMENT_SIZE_def
      kernel_segment_fields_def image_write_next)

lemma kernel_segment_decode_Ok:
  "kernel_segment_decode bytes = Ok k \<longleftrightarrow>
     kernel_segment_validate k = Ok () \<and> take 32 bytes = concat (kernel_segment_fields k)"
  unfolding take_eq_fields [OF length_kernel_segment_fields]
proof
  assume "kernel_segment_decode bytes = Ok k"
  then show "kernel_segment_validate k = Ok () \<and> 32 \<le> length bytes \<and> fields_at bytes 0 (kernel_segment_fields k)"
    unfolding kernel_segment_decode_def
    by (clarsimp simp: and_then_Ok Let_def kernel_segment_fields_def image_read_Ok
        require_length_def KERNEL_SEGMENT_SIZE_def split: if_splits)
next
  assume "kernel_segment_validate k = Ok () \<and> 32 \<le> length bytes \<and> fields_at bytes 0 (kernel_segment_fields k)"
  then show "kernel_segment_decode bytes = Ok k"
    by (cases k) (simp add: kernel_segment_fields_def image_read_Ok [symmetric] kernel_segment_decode_def
        require_length_def KERNEL_SEGMENT_SIZE_def Let_def del: drop0 drop_0)
qed

text \<open>The constraints a valid segment satisfies, on numbers.\<close>

lemma and_flags_mask: "(v :: u32) AND NOT SEGMENT_FLAGS_MASK = 0 \<longleftrightarrow> unat v \<le> 7"
  by (simp add: SEGMENT_FLAGS_MASK_def u32_and_not_consts)

lemma kernel_segment_validate_Ok:
  "kernel_segment_validate k = Ok () \<longleftrightarrow>
     ks_memory_size k \<noteq> 0 \<and> ks_file_size k \<le> ks_memory_size k \<and> unat (ks_flags k) \<le> 7
     \<and> 0x40000000 \<le> unat (pa_get (ks_physical_address k))
     \<and> unat (pa_get (ks_physical_address k)) + unat (ks_memory_size k) \<le> 0x44000000
     \<and> (va_get (ks_virtual_address k) = pa_get (ks_physical_address k)
        \<or> direct_map_physical (ks_virtual_address k) = Ok (ks_physical_address k))"
proof -
  have "contains_range (mem_range Ram) r \<longleftrightarrow>
      0x40000000 \<le> unat (pa_get (pr_start r))
      \<and> unat (pa_get (pr_start r)) + unat (pr_length r) \<le> 0x44000000" for r
    using mem_layout [of Ram] by (simp add: contains_range_iff mem_base_def mem_size_def)
  then show ?thesis
    by (auto simp: kernel_segment_validate_def and_then_Ok physical_range_new_Ok Let_def
        and_flags_mask not_less not_le split: sum.splits)
qed

section \<open>Modules and their segments\<close>

record module_record =
  mr_name_offset :: u32
  mr_name_length :: u32
  mr_segment_table_offset :: u32
  mr_segment_count :: u32
  mr_entry_virtual_address :: virtual_address

definition module_record_decode :: "u8 list \<Rightarrow> platform_error + module_record" where
  "module_record_decode bytes =
     and_then (require_length bytes MODULE_RECORD_SIZE) (\<lambda>_.
     and_then (image_read_u32 bytes 20) (\<lambda>flags.
     and_then (if flags \<noteq> 0 then Ok True
               else and_then (reserved_zero bytes 24 8) (\<lambda>z. Ok (\<not> z))) (\<lambda>bad.
     if bad then Err (InvalidImageField ''module reserved bits'') else
     and_then (image_read_u32 bytes 0) (\<lambda>name_offset.
     and_then (image_read_u32 bytes 4) (\<lambda>name_length.
     and_then (image_read_u32 bytes 8) (\<lambda>segment_table.
     and_then (image_read_u32 bytes 12) (\<lambda>segment_count.
     and_then (image_read_u32 bytes 16) (\<lambda>entry.
     Ok \<lparr>mr_name_offset = name_offset, mr_name_length = name_length,
         mr_segment_table_offset = segment_table, mr_segment_count = segment_count,
         mr_entry_virtual_address = VirtualAddress entry\<rparr>))))))))"

definition module_record_encode :: "module_record \<Rightarrow> u8 list" where
  "module_record_encode m =
     (let bytes = replicate MODULE_RECORD_SIZE 0;
          bytes = image_write_u32 bytes 0 (mr_name_offset m);
          bytes = image_write_u32 bytes 4 (mr_name_length m);
          bytes = image_write_u32 bytes 8 (mr_segment_table_offset m);
          bytes = image_write_u32 bytes 12 (mr_segment_count m);
          bytes = image_write_u32 bytes 16 (va_get (mr_entry_virtual_address m))
      in bytes)"

definition module_record_fields :: "module_record \<Rightarrow> u8 list list" where
  "module_record_fields m =
     [u32_to_le_bytes (mr_name_offset m), u32_to_le_bytes (mr_name_length m),
      u32_to_le_bytes (mr_segment_table_offset m), u32_to_le_bytes (mr_segment_count m),
      u32_to_le_bytes (va_get (mr_entry_virtual_address m)), u32_to_le_bytes 0, replicate 8 0]"

lemma length_module_record_fields [simp]: "length (concat (module_record_fields m)) = 32"
  by (simp add: module_record_fields_def)

lemma module_record_encode_fields: "module_record_encode m = concat (module_record_fields m)"
  by (auto simp: module_record_encode_def Let_def MODULE_RECORD_SIZE_def
      module_record_fields_def image_write_next)

lemma module_record_decode_Ok:
  "module_record_decode bytes = Ok m \<longleftrightarrow> take 32 bytes = concat (module_record_fields m)"
  unfolding take_eq_fields [OF length_module_record_fields]
proof
  assume "module_record_decode bytes = Ok m"
  then show "32 \<le> length bytes \<and> fields_at bytes 0 (module_record_fields m)"
    unfolding module_record_decode_def
    by (clarsimp simp: and_then_Ok Let_def module_record_fields_def image_read_Ok
        require_length_def MODULE_RECORD_SIZE_def split: if_splits)
next
  assume "32 \<le> length bytes \<and> fields_at bytes 0 (module_record_fields m)"
  then show "module_record_decode bytes = Ok m"
    by (cases m) (simp add: module_record_fields_def image_read_Ok [symmetric]
        module_record_decode_def require_length_def MODULE_RECORD_SIZE_def Let_def del: drop0 drop_0)
qed

record module_segment =
  ms_data_offset :: u32
  ms_virtual_address :: virtual_address
  ms_file_size :: u32
  ms_memory_size :: u32
  ms_flags :: u32

definition module_segment_validate :: "module_segment \<Rightarrow> platform_error + unit" where
  "module_segment_validate s =
     (if ms_memory_size s = 0 \<or> ms_file_size s > ms_memory_size s
        \<or> ms_flags s AND NOT SEGMENT_FLAGS_MASK \<noteq> 0
      then Err (InvalidImageField ''module segment'') else Ok ())"

definition module_segment_decode :: "u8 list \<Rightarrow> platform_error + module_segment" where
  "module_segment_decode bytes =
     and_then (require_length bytes MODULE_SEGMENT_SIZE) (\<lambda>_.
     and_then (reserved_zero bytes 20 12) (\<lambda>z.
     if \<not> z then Err (InvalidImageField ''module segment reserved bits'') else
     and_then (image_read_u32 bytes 0) (\<lambda>data_offset.
     and_then (image_read_u32 bytes 4) (\<lambda>virtual.
     and_then (image_read_u32 bytes 8) (\<lambda>file_size.
     and_then (image_read_u32 bytes 12) (\<lambda>memory_size.
     and_then (image_read_u32 bytes 16) (\<lambda>flags.
     (let segment = \<lparr>ms_data_offset = data_offset, ms_virtual_address = VirtualAddress virtual,
            ms_file_size = file_size, ms_memory_size = memory_size, ms_flags = flags\<rparr>
      in and_then (module_segment_validate segment) (\<lambda>_. Ok segment)))))))))"

definition module_segment_encode :: "module_segment \<Rightarrow> platform_error + u8 list" where
  "module_segment_encode s =
     and_then (module_segment_validate s) (\<lambda>_.
     (let bytes = replicate MODULE_SEGMENT_SIZE 0;
          bytes = image_write_u32 bytes 0 (ms_data_offset s);
          bytes = image_write_u32 bytes 4 (va_get (ms_virtual_address s));
          bytes = image_write_u32 bytes 8 (ms_file_size s);
          bytes = image_write_u32 bytes 12 (ms_memory_size s);
          bytes = image_write_u32 bytes 16 (ms_flags s)
      in Ok bytes))"

definition module_segment_fields :: "module_segment \<Rightarrow> u8 list list" where
  "module_segment_fields s =
     [u32_to_le_bytes (ms_data_offset s), u32_to_le_bytes (va_get (ms_virtual_address s)),
      u32_to_le_bytes (ms_file_size s), u32_to_le_bytes (ms_memory_size s),
      u32_to_le_bytes (ms_flags s), replicate 12 0]"

lemma length_module_segment_fields [simp]: "length (concat (module_segment_fields s)) = 32"
  by (simp add: module_segment_fields_def)

lemma module_segment_encode_Ok:
  "module_segment_encode s = Ok raw \<longleftrightarrow>
     module_segment_validate s = Ok () \<and> raw = concat (module_segment_fields s)"
  by (auto simp: module_segment_encode_def and_then_Ok Let_def MODULE_SEGMENT_SIZE_def
      module_segment_fields_def image_write_next)

lemma module_segment_decode_Ok:
  "module_segment_decode bytes = Ok s \<longleftrightarrow>
     module_segment_validate s = Ok () \<and> take 32 bytes = concat (module_segment_fields s)"
  unfolding take_eq_fields [OF length_module_segment_fields]
proof
  assume "module_segment_decode bytes = Ok s"
  then show "module_segment_validate s = Ok () \<and> 32 \<le> length bytes \<and> fields_at bytes 0 (module_segment_fields s)"
    unfolding module_segment_decode_def
    by (clarsimp simp: and_then_Ok Let_def module_segment_fields_def image_read_Ok
        require_length_def MODULE_SEGMENT_SIZE_def split: if_splits)
next
  assume "module_segment_validate s = Ok () \<and> 32 \<le> length bytes \<and> fields_at bytes 0 (module_segment_fields s)"
  then show "module_segment_decode bytes = Ok s"
    by (cases s) (simp add: module_segment_fields_def image_read_Ok [symmetric]
        module_segment_decode_def require_length_def MODULE_SEGMENT_SIZE_def Let_def del: drop0 drop_0)
qed

lemma module_segment_validate_Ok:
  "module_segment_validate s = Ok () \<longleftrightarrow>
     ms_memory_size s \<noteq> 0 \<and> ms_file_size s \<le> ms_memory_size s \<and> unat (ms_flags s) \<le> 7"
  by (auto simp: module_segment_validate_def and_flags_mask not_less not_le)

section \<open>Boot info\<close>

record boot_info =
  bi_system_rom_base :: physical_address
  bi_image_size :: u32
  bi_module_table_offset :: u32
  bi_module_count :: u32

text \<open>The tests of one condition are tried in turn, and a failing one ends the function.\<close>

definition boot_info_decode :: "u8 list \<Rightarrow> platform_error + boot_info" where
  "boot_info_decode bytes =
     and_then (require_length bytes BOOT_INFO_SIZE) (\<lambda>_.
     and_then (image_read_u32 bytes 0) (\<lambda>magic.
     if magic \<noteq> BOOT_INFO_MAGIC then Err (InvalidImageField ''boot info header'') else
     and_then (image_read_u16 bytes 4) (\<lambda>version.
     if version \<noteq> ABI_VERSION then Err (InvalidImageField ''boot info header'') else
     and_then (image_read_u16 bytes 6) (\<lambda>header_size.
     if header_size \<noteq> of_nat BOOT_INFO_SIZE then Err (InvalidImageField ''boot info header'') else
     and_then (image_read_u32 bytes 36) (\<lambda>flags.
     if flags \<noteq> 0 then Err (InvalidImageField ''boot info header'') else
     and_then (reserved_zero bytes 40 24) (\<lambda>z.
     if \<not> z then Err (InvalidImageField ''boot info header'') else
     and_then (image_read_u32 bytes 8) (\<lambda>rom_base.
     and_then (image_read_u32 bytes 12) (\<lambda>image_size.
     and_then (image_read_u32 bytes 16) (\<lambda>module_table.
     and_then (image_read_u32 bytes 20) (\<lambda>module_count.
     (let info = \<lparr>bi_system_rom_base = PhysicalAddress rom_base, bi_image_size = image_size,
            bi_module_table_offset = module_table, bi_module_count = module_count\<rparr>
      in if bi_system_rom_base info \<noteq> mem_base SystemRom
         then Err (InvalidImageField ''boot info mapping'') else
         and_then (image_read_u32 bytes 24) (\<lambda>direct_map.
         if direct_map \<noteq> 0xc0000000 then Err (InvalidImageField ''boot info mapping'') else
         and_then (image_read_u32 bytes 28) (\<lambda>ram_base.
         if ram_base \<noteq> pa_get (mem_base Ram) then Err (InvalidImageField ''boot info mapping'') else
         and_then (image_read_u32 bytes 32) (\<lambda>ram_size.
         if ram_size \<noteq> mem_size Ram then Err (InvalidImageField ''boot info mapping'')
         else Ok info))))))))))))))"

definition boot_info_encode :: "boot_info \<Rightarrow> platform_error + u8 list" where
  "boot_info_encode i =
     (if bi_system_rom_base i \<noteq> mem_base SystemRom \<or> bi_image_size i > mem_size SystemRom
      then Err (InvalidImageField ''boot info'')
      else let bytes = replicate BOOT_INFO_SIZE 0;
          bytes = image_write_u32 bytes 0 BOOT_INFO_MAGIC;
          bytes = image_write_u16 bytes 4 ABI_VERSION;
          bytes = image_write_u16 bytes 6 (of_nat BOOT_INFO_SIZE);
          bytes = image_write_u32 bytes 8 (pa_get (bi_system_rom_base i));
          bytes = image_write_u32 bytes 12 (bi_image_size i);
          bytes = image_write_u32 bytes 16 (bi_module_table_offset i);
          bytes = image_write_u32 bytes 20 (bi_module_count i);
          bytes = image_write_u32 bytes 24 0xc0000000;
          bytes = image_write_u32 bytes 28 (pa_get (mem_base Ram));
          bytes = image_write_u32 bytes 32 (mem_size Ram)
      in Ok bytes)"

definition boot_info_fields :: "boot_info \<Rightarrow> u8 list list" where
  "boot_info_fields i =
     [u32_to_le_bytes BOOT_INFO_MAGIC, u16_to_le_bytes ABI_VERSION, u16_to_le_bytes 64,
      u32_to_le_bytes (pa_get (bi_system_rom_base i)), u32_to_le_bytes (bi_image_size i),
      u32_to_le_bytes (bi_module_table_offset i), u32_to_le_bytes (bi_module_count i),
      u32_to_le_bytes 0xc0000000, u32_to_le_bytes (pa_get (mem_base Ram)),
      u32_to_le_bytes (mem_size Ram), u32_to_le_bytes 0, replicate 24 0]"

lemma length_boot_info_fields [simp]: "length (concat (boot_info_fields i)) = 64"
  by (simp add: boot_info_fields_def)

lemma boot_info_encode_Ok:
  "boot_info_encode i = Ok raw \<longleftrightarrow>
     bi_system_rom_base i = mem_base SystemRom \<and> bi_image_size i \<le> mem_size SystemRom
     \<and> raw = concat (boot_info_fields i)"
  by (auto simp: boot_info_encode_def Let_def BOOT_INFO_SIZE_def boot_info_fields_def
      image_write_next not_less not_le)

lemma boot_info_decode_Ok:
  "boot_info_decode bytes = Ok i \<longleftrightarrow>
     bi_system_rom_base i = mem_base SystemRom \<and> take 64 bytes = concat (boot_info_fields i)"
  unfolding take_eq_fields [OF length_boot_info_fields]
proof
  assume "boot_info_decode bytes = Ok i"
  then show "bi_system_rom_base i = mem_base SystemRom
      \<and> 64 \<le> length bytes \<and> fields_at bytes 0 (boot_info_fields i)"
    unfolding boot_info_decode_def
    by (clarsimp simp: and_then_Ok Let_def boot_info_fields_def image_read_Ok
        require_length_def BOOT_INFO_SIZE_def split: if_splits) (metis physical_address.sel)
next
  assume "bi_system_rom_base i = mem_base SystemRom
      \<and> 64 \<le> length bytes \<and> fields_at bytes 0 (boot_info_fields i)"
  then show "boot_info_decode bytes = Ok i"
    by (cases i) (simp add: boot_info_fields_def image_read_Ok [symmetric]
        boot_info_decode_def require_length_def BOOT_INFO_SIZE_def Let_def del: drop0 drop_0)
qed

section \<open>Decoding is the exact inverse of encoding\<close>

text \<open>C32.
  The wire records are unambiguous. A byte string decodes to a header, a kernel segment, a
  module record or a module segment exactly when it begins with that record's encoding and the
  record is valid, so magic, version, sizes and reserved bytes are all checked, decoding an
  encoded record gives it back, and no two byte strings of the record's size decode alike.
\<close>

theorem image_records_exact:
  "(image_header_decode bytes = Ok h \<longleftrightarrow>
      (\<exists>raw rest. image_header_encode h = Ok raw \<and> length raw = 64 \<and> bytes = raw @ rest))
   \<and> (kernel_segment_decode bytes = Ok k \<longleftrightarrow>
      (\<exists>raw rest. kernel_segment_encode k = Ok raw \<and> length raw = 32 \<and> bytes = raw @ rest))
   \<and> (module_record_decode bytes = Ok m \<longleftrightarrow>
      (\<exists>rest. length (module_record_encode m) = 32 \<and> bytes = module_record_encode m @ rest))
   \<and> (module_segment_decode bytes = Ok s \<longleftrightarrow>
      (\<exists>raw rest. module_segment_encode s = Ok raw \<and> length raw = 32 \<and> bytes = raw @ rest))"
  by (auto simp: image_header_decode_Ok image_header_encode_Ok kernel_segment_decode_Ok
      kernel_segment_encode_Ok module_record_decode_Ok module_record_encode_fields
      module_segment_decode_Ok module_segment_encode_Ok
      take_eq_prefix [OF length_image_header_fields] take_eq_prefix [OF length_kernel_segment_fields]
      take_eq_prefix [OF length_module_record_fields]
      take_eq_prefix [OF length_module_segment_fields] simp del: length_concat)

text \<open>
  The boot ROM's hand-off record survives the trip through memory: the encoder succeeds exactly
  on the System ROM base and an image that fits the ROM, and decoding what it wrote, whatever
  bytes follow, gives the same record. The decoder fixes the mapping fields but leaves the
  image size open.
\<close>

theorem boot_info_roundtrip:
  "(case boot_info_encode i of
      Ok raw \<Rightarrow> bi_system_rom_base i = mem_base SystemRom \<and> bi_image_size i \<le> mem_size SystemRom
        \<and> length raw = BOOT_INFO_SIZE \<and> boot_info_decode (raw @ rest) = Ok i
    | Err e \<Rightarrow> \<not> (bi_system_rom_base i = mem_base SystemRom \<and> bi_image_size i \<le> mem_size SystemRom))
   \<and> (boot_info_decode bytes = Ok i \<longleftrightarrow>
        bi_system_rom_base i = mem_base SystemRom
        \<and> take 64 bytes = concat (boot_info_fields i))"
proof (cases "boot_info_encode i")
  case (Inl e)
  then show ?thesis
    by (auto simp: boot_info_decode_Ok boot_info_encode_def Let_def split: if_splits)
next
  case (Inr raw)
  then have "bi_system_rom_base i = mem_base SystemRom" "bi_image_size i \<le> mem_size SystemRom"
    and raw: "raw = concat (boot_info_fields i)" by (simp_all add: boot_info_encode_Ok)
  moreover have "length raw = 64" unfolding raw by (rule length_boot_info_fields)
  ultimately show ?thesis
    by (simp add: Inr boot_info_decode_Ok BOOT_INFO_SIZE_def)
qed

end
