(* ===== verification/Image_Validation.thy ===== *)
theory Image_Validation
  imports Platform_Image
begin

text \<open>
  The segment rules of the system image format (\<open>validation.rs\<close> and the error type of
  \<open>lib.rs\<close> in \<open>minemu-image\<close>): entry points, the bootstrap instruction, the boot ROM's
  workspace, the kernel direct map and the disjointness of segments. The checks, written as
  nested loops with early returns, accept exactly the segment lists of the format document.
\<close>

section \<open>Errors\<close>

text \<open>The error of the ELF reader, a third-party type, is the parameter of the error type.\<close>

datatype 'e image_error =
    PlatformErr platform_error
  | Elf 'e
  | InvalidElf string
  | InvalidImage string
  | RomOverflow

section \<open>Address ranges\<close>

definition EXECUTABLE :: u32 where "EXECUTABLE = push_bit 2 1"
definition A32_INSTRUCTION_SIZE :: u32 where "A32_INSTRUCTION_SIZE = 4"
definition KERNEL_DIRECT_MAP_START :: u32 where "KERNEL_DIRECT_MAP_START = 0xc0000000"
definition KERNEL_DIRECT_MAP_END :: u64 where "KERNEL_DIRECT_MAP_END = 0xc4000000"

record address_range =
  ar_start :: u32
  ar_end :: u64

definition address_range_new :: "virtual_address \<Rightarrow> u32 \<Rightarrow> 'e image_error + address_range" where
  "address_range_new start len =
     (let end = (ucast (va_get start) :: u64) + ucast len in
      if end > ucast u32_max + 1 then Err (InvalidImage ''segment range'')
      else Ok \<lparr>ar_start = va_get start, ar_end = end\<rparr>)"

definition address_range_contains :: "address_range \<Rightarrow> virtual_address \<Rightarrow> bool" where
  "address_range_contains r a \<longleftrightarrow>
     (ucast (ar_start r) :: u64) \<le> ucast (va_get a)
     \<and> ucast (va_get a) + ucast A32_INSTRUCTION_SIZE \<le> ar_end r"

definition address_range_overlaps :: "address_range \<Rightarrow> address_range \<Rightarrow> bool" where
  "address_range_overlaps r q \<longleftrightarrow> ucast (ar_start r) < ar_end q \<and> ucast (ar_start q) < ar_end r"

definition overlaps_kernel_direct_map :: "address_range \<Rightarrow> bool" where
  "overlaps_kernel_direct_map r \<longleftrightarrow>
     ucast (ar_start r) < KERNEL_DIRECT_MAP_END \<and> ucast KERNEL_DIRECT_MAP_START < ar_end r"

definition validate_a32_entry :: "virtual_address \<Rightarrow> string \<Rightarrow> 'e image_error + unit" where
  "validate_a32_entry entry detail =
     (if va_get entry AND 3 \<noteq> 0 then Err (InvalidImage detail) else Ok ())"

definition initialized_executable_virtual_range :: "kernel_segment \<Rightarrow> address_range option" where
  "initialized_executable_virtual_range k =
     (if ks_flags k AND EXECUTABLE \<noteq> 0
      then ok (address_range_new (ks_virtual_address k) (ks_file_size k) :: unit image_error + _)
      else None)"

definition initialized_executable_physical_range :: "kernel_segment \<Rightarrow> physical_range option" where
  "initialized_executable_physical_range k =
     (if ks_flags k AND EXECUTABLE \<noteq> 0
      then ok (physical_range_new (ks_physical_address k) (ks_file_size k)) else None)"

definition initialized_executable_module_range :: "module_segment \<Rightarrow> address_range option" where
  "initialized_executable_module_range s =
     (if ms_flags s AND EXECUTABLE \<noteq> 0
      then ok (address_range_new (ms_virtual_address s) (ms_file_size s) :: unit image_error + _)
      else None)"

definition segment_physical_range :: "kernel_segment \<Rightarrow> 'e image_error + physical_range" where
  "segment_physical_range k =
     map_err PlatformErr (physical_range_new (ks_physical_address k) (ks_memory_size k))"

definition physical_ranges_overlap :: "physical_range \<Rightarrow> physical_range \<Rightarrow> bool" where
  "physical_ranges_overlap l r \<longleftrightarrow>
     ucast (pa_get (pr_start l)) < end_exclusive r \<and> ucast (pa_get (pr_start r)) < end_exclusive l"

section \<open>Kernel segments\<close>

text \<open>The inner loop: one segment's ranges against the segments after it.\<close>

fun kernel_overlap_loop ::
  "physical_range \<Rightarrow> address_range \<Rightarrow> kernel_segment list \<Rightarrow> 'e image_error + unit" where
  "kernel_overlap_loop physical virtual_range [] = Ok ()"
| "kernel_overlap_loop physical virtual_range (other # rest) =
     and_then (segment_physical_range other) (\<lambda>other_physical.
     and_then (if physical_ranges_overlap physical other_physical then Ok True
               else and_then (address_range_new (ks_virtual_address other) (ks_memory_size other))
                 (\<lambda>r. Ok (address_range_overlaps virtual_range r))) (\<lambda>overlap.
     if overlap then Err (InvalidImage ''overlapping kernel segments'')
     else kernel_overlap_loop physical virtual_range rest))"

definition boot_workspace :: physical_range where
  "boot_workspace = from_known_valid (PhysicalAddress BOOT_STACK_BASE) (BOOT_STACK_SIZE + 64)"

definition bootstrap_instruction :: physical_range where
  "bootstrap_instruction =
     from_known_valid (PhysicalAddress BOOTSTRAP_ENTRY_PADDR) A32_INSTRUCTION_SIZE"

fun kernel_segments_loop :: "kernel_segment list \<Rightarrow> 'e image_error + unit" where
  "kernel_segments_loop [] = Ok ()"
| "kernel_segments_loop (segment # rest) =
     and_then (segment_physical_range segment) (\<lambda>physical.
     if physical_ranges_overlap physical boot_workspace
     then Err (InvalidImage ''kernel segment overlaps boot ROM workspace'')
     else and_then (address_range_new (ks_virtual_address segment) (ks_memory_size segment))
       (\<lambda>virtual_range.
     and_then (kernel_overlap_loop physical virtual_range rest) (\<lambda>_.
     kernel_segments_loop rest)))"

definition validate_kernel_records ::
  "kernel_segment list \<Rightarrow> virtual_address \<Rightarrow> 'e image_error + unit" where
  "validate_kernel_records segments entry =
     and_then (validate_a32_entry entry ''kernel entry'') (\<lambda>_.
     if \<not> list_ex (\<lambda>k. case initialized_executable_virtual_range k of
          None \<Rightarrow> False | Some r \<Rightarrow> address_range_contains r entry) segments
     then Err (InvalidImage ''kernel entry is not initialized executable code'')
     else if \<not> list_ex (\<lambda>k. case initialized_executable_physical_range k of
          None \<Rightarrow> False | Some r \<Rightarrow> contains_range r bootstrap_instruction) segments
     then Err (InvalidImage ''missing initialized executable bootstrap segment'')
     else kernel_segments_loop segments)"

definition validate_kernel_segments ::
  "(kernel_segment \<times> u8 list) list \<Rightarrow> virtual_address \<Rightarrow> 'e image_error + unit" where
  "validate_kernel_segments segments entry = validate_kernel_records (map fst segments) entry"

section \<open>Module segments\<close>

fun module_overlap_loop :: "address_range \<Rightarrow> module_segment list \<Rightarrow> 'e image_error + unit" where
  "module_overlap_loop r [] = Ok ()"
| "module_overlap_loop r (other # rest) =
     and_then (address_range_new (ms_virtual_address other) (ms_memory_size other)) (\<lambda>q.
     if address_range_overlaps r q then Err (InvalidImage ''overlapping module segments'')
     else module_overlap_loop r rest)"

fun module_segments_loop :: "module_segment list \<Rightarrow> 'e image_error + unit" where
  "module_segments_loop [] = Ok ()"
| "module_segments_loop (segment # rest) =
     and_then (address_range_new (ms_virtual_address segment) (ms_memory_size segment)) (\<lambda>r.
     if overlaps_kernel_direct_map r
     then Err (InvalidImage ''module segment is in the kernel direct map'')
     else and_then (module_overlap_loop r rest) (\<lambda>_. module_segments_loop rest))"

definition validate_module_records ::
  "module_segment list \<Rightarrow> virtual_address \<Rightarrow> 'e image_error + unit" where
  "validate_module_records segments entry =
     and_then (validate_a32_entry entry ''module entry'') (\<lambda>_.
     if \<not> list_ex (\<lambda>s. case initialized_executable_module_range s of
          None \<Rightarrow> False | Some r \<Rightarrow> address_range_contains r entry) segments
     then Err (InvalidImage ''module entry is not initialized executable code'')
     else module_segments_loop segments)"

definition validate_module_segments ::
  "(module_segment \<times> u8 list) list \<Rightarrow> virtual_address \<Rightarrow> 'e image_error + unit" where
  "validate_module_segments segments entry = validate_module_records (map fst segments) entry"

section \<open>The documented layout rules\<close>

text \<open>The addresses a segment occupies in memory, and those its file bytes initialise.\<close>

definition span :: "u32 \<Rightarrow> u32 \<Rightarrow> nat set" where
  "span start len = {unat start ..< unat start + unat len}"

definition kernel_layout :: "kernel_segment list \<Rightarrow> virtual_address \<Rightarrow> bool" where
  "kernel_layout segments entry \<longleftrightarrow>
     unat (va_get entry) mod 4 = 0
     \<and> list_ex (\<lambda>k. ks_flags k AND EXECUTABLE \<noteq> 0
         \<and> span (va_get entry) 4 \<subseteq> span (va_get (ks_virtual_address k)) (ks_file_size k)) segments
     \<and> list_ex (\<lambda>k. ks_flags k AND EXECUTABLE \<noteq> 0
         \<and> span 0x40008000 4 \<subseteq> span (pa_get (ks_physical_address k)) (ks_file_size k)) segments
     \<and> list_all (\<lambda>k. span (pa_get (ks_physical_address k)) (ks_memory_size k)
         \<inter> {0x40006000 ..< 0x40007040} = {}) segments
     \<and> sorted_wrt (\<lambda>k l. span (pa_get (ks_physical_address k)) (ks_memory_size k)
           \<inter> span (pa_get (ks_physical_address l)) (ks_memory_size l) = {}
         \<and> span (va_get (ks_virtual_address k)) (ks_memory_size k)
           \<inter> span (va_get (ks_virtual_address l)) (ks_memory_size l) = {}) segments"

definition module_layout :: "module_segment list \<Rightarrow> virtual_address \<Rightarrow> bool" where
  "module_layout segments entry \<longleftrightarrow>
     unat (va_get entry) mod 4 = 0
     \<and> list_ex (\<lambda>s. ms_flags s AND EXECUTABLE \<noteq> 0
         \<and> {unat (va_get entry) ..< unat (va_get entry) + 4}
             \<subseteq> span (va_get (ms_virtual_address s)) (ms_file_size s)) segments
     \<and> list_all (\<lambda>s. unat (va_get (ms_virtual_address s)) + unat (ms_memory_size s) \<le> 2 ^ 32
         \<and> span (va_get (ms_virtual_address s)) (ms_memory_size s)
             \<inter> {0xc0000000 ..< 0xc4000000} = {}) segments
     \<and> sorted_wrt (\<lambda>s t. span (va_get (ms_virtual_address s)) (ms_memory_size s)
           \<inter> span (va_get (ms_virtual_address t)) (ms_memory_size t) = {}) segments"

lemma interval_disjoint:
  "(a :: nat) < b \<Longrightarrow> c < d \<Longrightarrow> {a ..< b} \<inter> {c ..< d} = {} \<longleftrightarrow> \<not> (a < d \<and> c < b)"
  by (auto simp: disjoint_iff not_less)

lemma interval_subset: "(a :: nat) < b \<Longrightarrow> {a ..< b} \<subseteq> {c ..< d} \<longleftrightarrow> c \<le> a \<and> b \<le> d"
  by auto

lemma address_range_new_Ok:
  "address_range_new v n = Ok r \<longleftrightarrow>
     unat (va_get v) + unat n \<le> 2 ^ 32 \<and> r = \<lparr>ar_start = va_get v, ar_end = ucast (va_get v) + ucast n\<rparr>"
  by (auto simp: address_range_new_def u32_max_def word_nat Let_def)

lemma and_3_mod_4: "(v :: u32) AND 3 = 0 \<longleftrightarrow> unat v mod 4 = 0"
proof -
  have "v AND 3 = take_bit 2 v" by (simp add: take_bit_eq_mask mask_eq_exp_minus_1)
  moreover have "take_bit 2 v = 0 \<longleftrightarrow> take_bit 2 (unat v) = 0"
    by (metis unsigned_take_bit_eq unsigned_0 unsigned_word_eqI)
  ultimately show ?thesis by (simp add: take_bit_eq_mod)
qed

lemma validate_a32_entry_Ok: "validate_a32_entry e d = Ok () \<longleftrightarrow> unat (va_get e) mod 4 = 0"
  by (simp add: validate_a32_entry_def and_3_mod_4)

lemma unat_u64_add_4 [simp]: "unat (ucast (v :: u32) + 4 :: u64) = unat v + 4"
  using unat_u32_lt [of v] by (simp add: unat_word_ariths)

lemma address_range_contains_iff:
  "address_range_contains \<lparr>ar_start = v, ar_end = ucast v + ucast n\<rparr> e \<longleftrightarrow>
     {unat (va_get e) ..< unat (va_get e) + 4} \<subseteq> span v n"
  unfolding span_def by (subst interval_subset)
    (simp_all add: address_range_contains_def A32_INSTRUCTION_SIZE_def word_nat)

lemma address_range_overlaps_iff:
  assumes "m \<noteq> 0" and "n \<noteq> 0"
  shows "address_range_overlaps \<lparr>ar_start = v, ar_end = ucast v + ucast m\<rparr>
      \<lparr>ar_start = w, ar_end = ucast w + ucast n\<rparr> \<longleftrightarrow> span v m \<inter> span w n \<noteq> {}"
  unfolding span_def using assms
  by (subst interval_disjoint) (simp_all add: address_range_overlaps_def word_nat unat_eq_0 unat_gt_0)

lemma physical_ranges_overlap_iff:
  assumes "pr_length l \<noteq> 0" and "pr_length r \<noteq> 0"
  shows "physical_ranges_overlap l r \<longleftrightarrow>
    span (pa_get (pr_start l)) (pr_length l) \<inter> span (pa_get (pr_start r)) (pr_length r) \<noteq> {}"
  unfolding span_def using assms
  by (subst interval_disjoint) (simp_all add: physical_ranges_overlap_def word_nat unat_gt_0)

text \<open>A valid segment lies in RAM, so none of its ranges can wrap around.\<close>

lemma direct_map_physical_unat:
  "direct_map_physical v = Ok p \<Longrightarrow> unat (va_get v) = unat (pa_get p) + 0x80000000"
  by (auto simp: direct_map_physical_Ok unat_sub_le word_nat)

lemma kernel_segment_ranges:
  assumes "kernel_segment_validate k = Ok ()"
  shows "segment_physical_range k = Ok \<lparr>pr_start = ks_physical_address k, pr_length = ks_memory_size k\<rparr>"
    and "address_range_new (ks_virtual_address k) (ks_memory_size k) =
      Ok \<lparr>ar_start = va_get (ks_virtual_address k),
          ar_end = ucast (va_get (ks_virtual_address k)) + ucast (ks_memory_size k)\<rparr>"
    and "ks_memory_size k \<noteq> 0"
proof -
  note v = assms [unfolded kernel_segment_validate_Ok]
  from v show "ks_memory_size k \<noteq> 0" by simp
  from v show "segment_physical_range k = Ok \<lparr>pr_start = ks_physical_address k, pr_length = ks_memory_size k\<rparr>"
    by (simp add: segment_physical_range_def map_err_Ok physical_range_new_Ok)
  from v have "unat (va_get (ks_virtual_address k)) + unat (ks_memory_size k) \<le> 2 ^ 32"
    by (auto dest: direct_map_physical_unat)
  then show "address_range_new (ks_virtual_address k) (ks_memory_size k) =
      Ok \<lparr>ar_start = va_get (ks_virtual_address k),
          ar_end = ucast (va_get (ks_virtual_address k)) + ucast (ks_memory_size k)\<rparr>"
    by (simp add: address_range_new_Ok)
qed

lemma kernel_overlap_loop_Ok:
  assumes "kernel_segment_validate k = Ok ()"
    and "list_all (\<lambda>l. kernel_segment_validate l = Ok ()) rest"
  shows "kernel_overlap_loop \<lparr>pr_start = ks_physical_address k, pr_length = ks_memory_size k\<rparr>
      \<lparr>ar_start = va_get (ks_virtual_address k),
       ar_end = ucast (va_get (ks_virtual_address k)) + ucast (ks_memory_size k)\<rparr> rest = Ok ()
    \<longleftrightarrow> list_all (\<lambda>l. span (pa_get (ks_physical_address k)) (ks_memory_size k)
           \<inter> span (pa_get (ks_physical_address l)) (ks_memory_size l) = {}
         \<and> span (va_get (ks_virtual_address k)) (ks_memory_size k)
           \<inter> span (va_get (ks_virtual_address l)) (ks_memory_size l) = {}) rest"
  using assms(2)
proof (induction rest)
  case (Cons l rest)
  then show ?case
    by (auto simp: kernel_segment_ranges and_then_Ok physical_ranges_overlap_iff
        kernel_segment_ranges(3) [OF assms(1)] address_range_overlaps_iff)
qed simp

lemma boot_workspace_overlap:
  assumes "n \<noteq> 0"
  shows "physical_ranges_overlap \<lparr>pr_start = p, pr_length = n\<rparr> boot_workspace \<longleftrightarrow>
     span (pa_get p) n \<inter> {0x40006000 ..< 0x40007040} \<noteq> {}"
  using assms
  by (subst physical_ranges_overlap_iff)
    (simp_all add: boot_workspace_def from_known_valid_def mmap_consts span_def)

lemma kernel_segments_loop_Ok:
  "list_all (\<lambda>k. kernel_segment_validate k = Ok ()) segments \<Longrightarrow>
   kernel_segments_loop segments = Ok () \<longleftrightarrow>
     list_all (\<lambda>k. span (pa_get (ks_physical_address k)) (ks_memory_size k)
         \<inter> {0x40006000 ..< 0x40007040} = {}) segments
     \<and> sorted_wrt (\<lambda>k l. span (pa_get (ks_physical_address k)) (ks_memory_size k)
           \<inter> span (pa_get (ks_physical_address l)) (ks_memory_size l) = {}
         \<and> span (va_get (ks_virtual_address k)) (ks_memory_size k)
           \<inter> span (va_get (ks_virtual_address l)) (ks_memory_size l) = {}) segments"
proof (induction segments)
  case (Cons k rest)
  then have k: "kernel_segment_validate k = Ok ()"
    and rest: "list_all (\<lambda>k. kernel_segment_validate k = Ok ()) rest" by simp_all
  note ranges = kernel_segment_ranges [OF k]
  show ?case
    by (simp add: ranges boot_workspace_overlap and_then_Ok kernel_overlap_loop_Ok [OF k rest]
        Cons.IH [OF rest] flip: list_all_iff) (auto simp: list_all_iff)
qed simp

lemma executable_covers_entry:
  assumes "kernel_segment_validate k = Ok ()"
  shows "(case initialized_executable_virtual_range k of
      None \<Rightarrow> False | Some r \<Rightarrow> address_range_contains r entry) \<longleftrightarrow>
    ks_flags k AND EXECUTABLE \<noteq> 0
    \<and> span (va_get entry) 4 \<subseteq> span (va_get (ks_virtual_address k)) (ks_file_size k)"
proof -
  note v = assms [unfolded kernel_segment_validate_Ok word_nat]
  then have "unat (va_get (ks_virtual_address k)) + unat (ks_file_size k) \<le> 2 ^ 32"
    by (auto dest: direct_map_physical_unat)
  then have "(address_range_new (ks_virtual_address k) (ks_file_size k) :: unit image_error + _) =
      Ok \<lparr>ar_start = va_get (ks_virtual_address k),
          ar_end = ucast (va_get (ks_virtual_address k)) + ucast (ks_file_size k)\<rparr>"
    by (simp add: address_range_new_Ok)
  then show ?thesis
    by (simp add: initialized_executable_virtual_range_def address_range_contains_iff)
      (simp add: span_def)
qed

lemma executable_covers_bootstrap:
  assumes "kernel_segment_validate k = Ok ()"
  shows "(case initialized_executable_physical_range k of
      None \<Rightarrow> False | Some r \<Rightarrow> contains_range r bootstrap_instruction) \<longleftrightarrow>
    ks_flags k AND EXECUTABLE \<noteq> 0
    \<and> span 0x40008000 4 \<subseteq> span (pa_get (ks_physical_address k)) (ks_file_size k)"
proof (cases "ks_file_size k = 0")
  case True
  then show ?thesis
    by (simp add: initialized_executable_physical_range_def physical_range_new_def span_def)
next
  case False
  note v = assms [unfolded kernel_segment_validate_Ok word_nat]
  with False have "physical_range_new (ks_physical_address k) (ks_file_size k) =
      Ok \<lparr>pr_start = ks_physical_address k, pr_length = ks_file_size k\<rparr>"
    by (simp add: physical_range_new_Ok)
  then show ?thesis
    by (simp add: initialized_executable_physical_range_def contains_range_iff
        bootstrap_instruction_def from_known_valid_def mmap_consts A32_INSTRUCTION_SIZE_def span_def
        interval_subset)
qed

lemma list_ex_cong': "list_all P xs \<Longrightarrow> (\<And>x. P x \<Longrightarrow> f x \<longleftrightarrow> g x) \<Longrightarrow> list_ex f xs \<longleftrightarrow> list_ex g xs"
  by (induction xs) auto

text \<open>
  The kernel half of the image format. On segments that are valid records, the nested
  early-return loops of the validator accept exactly the layouts the format document asks for:
  an aligned entry whose whole instruction lies in the file bytes of an executable segment, an
  executable segment that initialises the bootstrap instruction, no segment on the boot ROM's
  stack or boot-info page, and no two segments that share a physical or a virtual address.
\<close>

lemma validate_kernel_records_layout:
  assumes "list_all (\<lambda>k. kernel_segment_validate k = Ok ()) segments"
  shows "validate_kernel_records segments entry = Ok () \<longleftrightarrow> kernel_layout segments entry"
  using list_ex_cong' [OF assms executable_covers_entry [where entry = entry]]
    list_ex_cong' [OF assms executable_covers_bootstrap]
  by (simp add: validate_kernel_records_def kernel_layout_def and_then_Ok validate_a32_entry_Ok
      kernel_segments_loop_Ok [OF assms])

lemma module_overlap_loop_Ok:
  assumes "ms_memory_size s \<noteq> 0"
    and "list_all (\<lambda>t. module_segment_validate t = Ok ()) rest"
  shows "module_overlap_loop \<lparr>ar_start = va_get (ms_virtual_address s),
       ar_end = ucast (va_get (ms_virtual_address s)) + ucast (ms_memory_size s)\<rparr> rest = Ok ()
    \<longleftrightarrow> list_all (\<lambda>t. unat (va_get (ms_virtual_address t)) + unat (ms_memory_size t) \<le> 2 ^ 32
         \<and> span (va_get (ms_virtual_address s)) (ms_memory_size s)
           \<inter> span (va_get (ms_virtual_address t)) (ms_memory_size t) = {}) rest"
  using assms(2)
proof (induction rest)
  case (Cons t rest)
  then show ?case
    using assms(1)
    by (auto simp: and_then_Ok address_range_new_Ok module_segment_validate_Ok
        address_range_overlaps_iff)
qed simp

lemma overlaps_kernel_direct_map_iff:
  assumes "n \<noteq> 0"
  shows "overlaps_kernel_direct_map \<lparr>ar_start = v, ar_end = ucast v + ucast n\<rparr> \<longleftrightarrow>
     span v n \<inter> {0xc0000000 ..< 0xc4000000} \<noteq> {}"
  unfolding span_def using assms
  by (subst interval_disjoint)
    (simp_all add: overlaps_kernel_direct_map_def KERNEL_DIRECT_MAP_START_def
      KERNEL_DIRECT_MAP_END_def word_nat unat_gt_0)

lemma module_segments_loop_Ok:
  "list_all (\<lambda>s. module_segment_validate s = Ok ()) segments \<Longrightarrow>
   module_segments_loop segments = Ok () \<longleftrightarrow>
     list_all (\<lambda>s. unat (va_get (ms_virtual_address s)) + unat (ms_memory_size s) \<le> 2 ^ 32
         \<and> span (va_get (ms_virtual_address s)) (ms_memory_size s)
             \<inter> {0xc0000000 ..< 0xc4000000} = {}) segments
     \<and> sorted_wrt (\<lambda>s t. span (va_get (ms_virtual_address s)) (ms_memory_size s)
           \<inter> span (va_get (ms_virtual_address t)) (ms_memory_size t) = {}) segments"
proof (induction segments)
  case (Cons s rest)
  then have s: "ms_memory_size s \<noteq> 0" and rest: "list_all (\<lambda>s. module_segment_validate s = Ok ()) rest"
    by (simp_all add: module_segment_validate_Ok)
  show ?case
    by (auto simp: and_then_Ok address_range_new_Ok overlaps_kernel_direct_map_iff [OF s]
        module_overlap_loop_Ok [OF s rest] Cons.IH [OF rest] list_all_iff)
qed simp

text \<open>
  The module half of the image format. On segments that are valid records, the validator accepts
  exactly the modules with an aligned entry whose whole instruction is file bytes of an
  executable segment, and with segments that do not wrap around the address space, stay outside
  the kernel direct map and do not overlap one another.
\<close>

lemma validate_module_records_layout:
  assumes "list_all (\<lambda>s. module_segment_validate s = Ok ()) segments"
  shows "validate_module_records segments entry = Ok () \<longleftrightarrow> module_layout segments entry"
proof -
  have covers: "(case initialized_executable_module_range s of
      None \<Rightarrow> False | Some r \<Rightarrow> address_range_contains r entry) \<longleftrightarrow>
    ms_flags s AND EXECUTABLE \<noteq> 0
    \<and> unat (va_get (ms_virtual_address s)) + unat (ms_file_size s) \<le> 2 ^ 32
    \<and> {unat (va_get entry) ..< unat (va_get entry) + 4}
        \<subseteq> span (va_get (ms_virtual_address s)) (ms_file_size s)" for s
    by (auto simp: initialized_executable_module_range_def address_range_new_def u32_max_def
        word_nat Let_def address_range_contains_iff)
  have "list_ex (\<lambda>s. case initialized_executable_module_range s of
        None \<Rightarrow> False | Some r \<Rightarrow> address_range_contains r entry) segments \<longleftrightarrow>
      list_ex (\<lambda>s. ms_flags s AND EXECUTABLE \<noteq> 0
        \<and> {unat (va_get entry) ..< unat (va_get entry) + 4}
            \<subseteq> span (va_get (ms_virtual_address s)) (ms_file_size s)) segments"
    if "list_all (\<lambda>s. unat (va_get (ms_virtual_address s)) + unat (ms_memory_size s) \<le> 2 ^ 32
         \<and> Q s) segments" for Q
  proof (rule list_ex_cong' [where P = "\<lambda>s. module_segment_validate s = Ok ()
      \<and> unat (va_get (ms_virtual_address s)) + unat (ms_memory_size s) \<le> 2 ^ 32"])
    show "list_all (\<lambda>s. module_segment_validate s = Ok ()
        \<and> unat (va_get (ms_virtual_address s)) + unat (ms_memory_size s) \<le> 2 ^ 32) segments"
      using assms that by (auto simp: list_all_iff)
  qed (auto simp: covers module_segment_validate_Ok word_nat)
  then show ?thesis
    by (auto simp: validate_module_records_def module_layout_def and_then_Ok validate_a32_entry_Ok
        module_segments_loop_Ok [OF assms])
qed

end
