(* ===== verification/Image_Format.thy ===== *)
theory Image_Format
  imports Image_Validation
begin

text \<open>
  The system image consumer and producer (\<open>format.rs\<close> of \<open>minemu-image\<close>): the map of occupied
  byte ranges, \<open>SystemImage::parse\<close> with its loops over the tables, and \<open>build_image\<close>. A value
  \<open>None\<close> stands for a panic of the Rust code (a slice index out of range); parsing is shown
  never to panic, and an accepted image to satisfy the format's whole-image rules.
\<close>

section \<open>Code that may panic\<close>

fun prog_then :: "('e + 'a) option \<Rightarrow> ('a \<Rightarrow> ('e + 'b) option) \<Rightarrow> ('e + 'b) option" where
  "prog_then None f = None"
| "prog_then (Some (Inl e)) f = Some (Inl e)"
| "prog_then (Some (Inr v)) f = f v"

definition slice_or_panic :: "'a list \<Rightarrow> usize \<Rightarrow> usize \<Rightarrow> ('e + 'a list) option" where
  "slice_or_panic xs lo hi = map_option Ok (slice_get xs lo hi)"

lemma prog_then_Ok:
  "prog_then p f = Some (Inr y) \<longleftrightarrow> (\<exists>v. p = Some (Inr v) \<and> f v = Some (Inr y))"
  by (cases "(p, f)" rule: prog_then.cases) auto

lemma prog_then_None:
  "prog_then p f = None \<longleftrightarrow> p = None \<or> (\<exists>v. p = Some (Inr v) \<and> f v = None)"
  by (cases "(p, f)" rule: prog_then.cases) auto

lemma slice_or_panic_Ok:
  "slice_or_panic xs lo hi = Some (Inr ys) \<longleftrightarrow>
     lo \<le> hi \<and> hi \<le> length xs \<and> ys = take (hi - lo) (drop lo xs)"
  by (auto simp: slice_or_panic_def slice_get_def)

lemma slice_or_panic_None:
  "slice_or_panic xs lo hi = None \<longleftrightarrow> \<not> (lo \<le> hi \<and> hi \<le> length xs)"
  by (auto simp: slice_or_panic_def slice_get_def)

section \<open>Spans and the image map\<close>

record image_span =
  sp_start :: usize
  sp_end :: usize

definition span_new :: "usize \<Rightarrow> usize \<Rightarrow> 'e image_error + image_span" where
  "span_new start len =
     and_then (ok_or (checked_add_usize start len) (InvalidImage ''offset overflow''))
       (\<lambda>end. Ok \<lparr>sp_start = start, sp_end = end\<rparr>)"

definition span_new_checked :: "u32 \<Rightarrow> u32 \<Rightarrow> usize \<Rightarrow> 'e image_error + image_span" where
  "span_new_checked offset count record_size =
     and_then (ok_or (checked_mul_usize (unat count) record_size)
                (InvalidImage ''table size overflow''))
       (\<lambda>len. span_new (unat offset) len)"

definition span_from_offset_length :: "u32 \<Rightarrow> u32 \<Rightarrow> 'e image_error + image_span" where
  "span_from_offset_length offset len = span_new (unat offset) (unat len)"

definition span_overlaps :: "image_span \<Rightarrow> image_span \<Rightarrow> bool" where
  "span_overlaps s t \<longleftrightarrow> sp_start s < sp_end t \<and> sp_start t < sp_end s"

type_synonym image_map = "image_span list"

definition image_map_new :: "'e image_error + image_map" where
  "image_map_new = and_then (span_new 0 IMAGE_HEADER_SIZE) (\<lambda>s. Ok [s])"

definition occupy :: "image_map \<Rightarrow> image_span \<Rightarrow> usize \<Rightarrow> string \<Rightarrow> 'e image_error + image_map" where
  "occupy m candidate image_size detail =
     (if sp_end candidate > image_size then Err (InvalidImage ''record outside image'')
      else if list_ex (\<lambda>s. span_overlaps s candidate) m then Err (InvalidImage detail)
      else Ok (m @ [candidate]))"

text \<open>The span that an offset and a length denote; the checked additions cannot fail on them.\<close>

definition span_at :: "u32 \<Rightarrow> nat \<Rightarrow> image_span" where
  "span_at offset len = \<lparr>sp_start = unat offset, sp_end = unat offset + len\<rparr>"

lemma span_new_Ok:
  "span_new a n = Ok s \<longleftrightarrow> a + n \<le> usize_max \<and> s = \<lparr>sp_start = a, sp_end = a + n\<rparr>"
  by (auto simp: span_new_def and_then_Ok ok_or_Ok checked_add_usize_def)

lemma span_from_offset_length_eq [simp]:
  "span_from_offset_length offset len = Ok (span_at offset (unat len))"
  using unat_u32_lt [of offset] unat_u32_lt [of len]
  by (simp add: span_from_offset_length_def span_new_Ok span_at_def usize_max_def)

lemma span_new_checked_eq [simp]:
  "span_new_checked offset count 32 = Ok (span_at offset (unat count * 32))"
  using unat_u32_lt [of offset] unat_u32_lt [of count]
  by (simp add: span_new_checked_def checked_mul_usize_def span_new_Ok span_at_def usize_max_def)

lemma image_map_new_eq [simp]: "image_map_new = Ok [span_at 0 64]"
  by (simp add: image_map_new_def IMAGE_HEADER_SIZE_def span_new_def checked_add_usize_def
      usize_max_def span_at_def)

definition image_map_ok :: "usize \<Rightarrow> image_map \<Rightarrow> bool" where
  "image_map_ok n m \<longleftrightarrow>
     list_all (\<lambda>s. sp_end s \<le> n) m \<and> sorted_wrt (\<lambda>s t. \<not> span_overlaps s t) m"

lemma occupy_Ok:
  "occupy m s n d = Ok m' \<longleftrightarrow>
     m' = m @ [s] \<and> sp_end s \<le> n \<and> \<not> list_ex (\<lambda>t. span_overlaps t s) m"
  by (auto simp: occupy_def)

lemma occupy_map_ok:
  "image_map_ok n m \<Longrightarrow> occupy m s n d = Ok m' \<longleftrightarrow> m' = m @ [s] \<and> image_map_ok n m'"
  by (auto simp: occupy_Ok image_map_ok_def sorted_wrt_append list_ex_iff list_all_iff)

section \<open>UTF-8\<close>

text \<open>
  The check of \<open>std::str::from_utf8\<close>, by the table of well-formed byte sequences: no overlong
  form, no surrogate, nothing above \<open>U+10FFFF\<close>.
\<close>

definition utf8_tail :: "u8 \<Rightarrow> bool" where
  "utf8_tail b \<longleftrightarrow> 0x80 \<le> b \<and> b \<le> 0xbf"

fun utf8_valid :: "u8 list \<Rightarrow> bool" where
  "utf8_valid [] \<longleftrightarrow> True"
| "utf8_valid (a # r) \<longleftrightarrow>
     (if a \<le> 0x7f then utf8_valid r
      else if 0xc2 \<le> a \<and> a \<le> 0xdf then
        (case r of b # r' \<Rightarrow> utf8_tail b \<and> utf8_valid r' | _ \<Rightarrow> False)
      else if 0xe0 \<le> a \<and> a \<le> 0xef then
        (case r of b # c # r' \<Rightarrow>
           (if a = 0xe0 then 0xa0 \<le> b \<and> b \<le> 0xbf
            else if a = 0xed then 0x80 \<le> b \<and> b \<le> 0x9f else utf8_tail b)
           \<and> utf8_tail c \<and> utf8_valid r'
         | _ \<Rightarrow> False)
      else if 0xf0 \<le> a \<and> a \<le> 0xf4 then
        (case r of b # c # d # r' \<Rightarrow>
           (if a = 0xf0 then 0x90 \<le> b \<and> b \<le> 0xbf
            else if a = 0xf4 then 0x80 \<le> b \<and> b \<le> 0x8f else utf8_tail b)
           \<and> utf8_tail c \<and> utf8_tail d \<and> utf8_valid r'
         | _ \<Rightarrow> False)
      else False)"

section \<open>Parsed images\<close>

record image_module =
  im_name :: "u8 list"
  im_record :: module_record
  im_segments :: "module_segment list"

record system_image =
  si_bytes :: "u8 list"
  si_header :: image_header
  si_kernel_segments :: "kernel_segment list"
  si_modules :: "image_module list"

text \<open>A segment's file bytes are occupied unless there are none.\<close>

definition occupy_payload :: "image_map \<Rightarrow> u32 \<Rightarrow> u32 \<Rightarrow> usize \<Rightarrow> 'e image_error + image_map" where
  "occupy_payload m data_offset file_size image_size =
     (if file_size \<noteq> 0
      then and_then (span_from_offset_length data_offset file_size)
        (\<lambda>s. occupy m s image_size ''overlapping image data'')
      else Ok m)"

text \<open>The loop over the kernel segment table, from an index with that many records left.\<close>

fun parse_kernel_segments ::
  "u8 list \<Rightarrow> usize \<Rightarrow> usize \<Rightarrow> nat \<Rightarrow> image_map
    \<Rightarrow> ('e image_error + kernel_segment list \<times> image_map) option" where
  "parse_kernel_segments bytes table index 0 image_map = Some (Ok ([], image_map))"
| "parse_kernel_segments bytes table index (Suc left) image_map =
     prog_then (slice_or_panic bytes (table + index * KERNEL_SEGMENT_SIZE)
                 (table + index * KERNEL_SEGMENT_SIZE + KERNEL_SEGMENT_SIZE)) (\<lambda>raw.
     prog_then (Some (map_err PlatformErr (kernel_segment_decode raw))) (\<lambda>segment.
     prog_then (Some (occupy_payload image_map (ks_data_offset segment) (ks_file_size segment)
         (length bytes))) (\<lambda>image_map.
     prog_then (parse_kernel_segments bytes table (index + 1) left image_map)
       (\<lambda>(segments, image_map). Some (Ok (segment # segments, image_map))))))"

fun parse_module_segments ::
  "u8 list \<Rightarrow> usize \<Rightarrow> usize \<Rightarrow> nat \<Rightarrow> image_map
    \<Rightarrow> ('e image_error + module_segment list \<times> image_map) option" where
  "parse_module_segments bytes table index 0 image_map = Some (Ok ([], image_map))"
| "parse_module_segments bytes table index (Suc left) image_map =
     prog_then (slice_or_panic bytes (table + index * MODULE_SEGMENT_SIZE)
                 (table + index * MODULE_SEGMENT_SIZE + MODULE_SEGMENT_SIZE)) (\<lambda>raw.
     prog_then (Some (map_err PlatformErr (module_segment_decode raw))) (\<lambda>segment.
     prog_then (Some (occupy_payload image_map (ms_data_offset segment) (ms_file_size segment)
         (length bytes))) (\<lambda>image_map.
     prog_then (parse_module_segments bytes table (index + 1) left image_map)
       (\<lambda>(segments, image_map). Some (Ok (segment # segments, image_map))))))"

text \<open>One round of the loop over the module table: the record, its name and its segments.\<close>

definition parse_module ::
  "u8 list \<Rightarrow> usize \<Rightarrow> image_map \<Rightarrow> u8 list set \<Rightarrow> ('e image_error + image_module \<times> image_map) option" where
  "parse_module bytes offset image_map names =
     prog_then (slice_or_panic bytes offset (offset + MODULE_RECORD_SIZE)) (\<lambda>raw.
     prog_then (Some (map_err PlatformErr (module_record_decode raw))) (\<lambda>rec.
     prog_then (Some (span_from_offset_length (mr_name_offset rec) (mr_name_length rec))) (\<lambda>name_span.
     prog_then (Some (span_new_checked (mr_segment_table_offset rec) (mr_segment_count rec)
         MODULE_SEGMENT_SIZE)) (\<lambda>segment_table.
     prog_then (Some (occupy image_map name_span (length bytes) ''overlapping image data'')) (\<lambda>image_map.
     prog_then (Some (occupy image_map segment_table (length bytes) ''overlapping image tables''))
       (\<lambda>image_map.
     prog_then (slice_or_panic bytes (sp_start name_span) (sp_end name_span)) (\<lambda>name.
     if \<not> utf8_valid name then Some (Err (InvalidImage ''module name is not UTF-8''))
     else if name = [] \<or> name \<in> names then Some (Err (InvalidImage ''module name''))
     else prog_then (parse_module_segments bytes (unat (mr_segment_table_offset rec)) 0
         (unat (mr_segment_count rec)) image_map) (\<lambda>(segments, image_map).
     prog_then (Some (validate_module_records segments (mr_entry_virtual_address rec))) (\<lambda>_.
     Some (Ok (\<lparr>im_name = name, im_record = rec, im_segments = segments\<rparr>, image_map)))))))))))"

fun parse_modules ::
  "u8 list \<Rightarrow> usize \<Rightarrow> usize \<Rightarrow> nat \<Rightarrow> image_map \<Rightarrow> u8 list set
    \<Rightarrow> ('e image_error + image_module list \<times> image_map) option" where
  "parse_modules bytes table index 0 image_map names = Some (Ok ([], image_map))"
| "parse_modules bytes table index (Suc left) image_map names =
     prog_then (parse_module bytes (table + index * MODULE_RECORD_SIZE) image_map names)
       (\<lambda>(m, image_map).
     prog_then (parse_modules bytes table (index + 1) left image_map (insert (im_name m) names))
       (\<lambda>(modules, image_map). Some (Ok (m # modules, image_map))))"

definition system_image_parse :: "u8 list \<Rightarrow> ('e image_error + system_image) option" where
  "system_image_parse bytes =
     prog_then (Some (map_err PlatformErr (image_header_decode bytes))) (\<lambda>header.
     if length bytes \<noteq> unat (ih_image_size header) then Some (Err (InvalidImage ''image size''))
     else prog_then (Some image_map_new) (\<lambda>image_map.
     prog_then (Some (span_new_checked (ih_kernel_segment_table_offset header)
         (ih_kernel_segment_count header) KERNEL_SEGMENT_SIZE)) (\<lambda>kernel_table.
     prog_then (Some (span_new_checked (ih_module_table_offset header)
         (ih_module_count header) MODULE_RECORD_SIZE)) (\<lambda>module_table.
     prog_then (Some (occupy image_map kernel_table (length bytes) ''overlapping image tables''))
       (\<lambda>image_map.
     prog_then (Some (occupy image_map module_table (length bytes) ''overlapping image tables''))
       (\<lambda>image_map.
     prog_then (parse_kernel_segments bytes (unat (ih_kernel_segment_table_offset header)) 0
         (unat (ih_kernel_segment_count header)) image_map) (\<lambda>(kernel_segments, image_map).
     prog_then (Some (validate_kernel_records kernel_segments (ih_kernel_entry_vaddr header))) (\<lambda>_.
     prog_then (parse_modules bytes (unat (ih_module_table_offset header)) 0
         (unat (ih_module_count header)) image_map {}) (\<lambda>(modules, _).
     Some (Ok \<lparr>si_bytes = bytes, si_header = header, si_kernel_segments = kernel_segments,
        si_modules = modules\<rparr>))))))))))"

section \<open>What an accepted image looks like\<close>

text \<open>Consecutive records of a table, from a byte offset on.\<close>

fun table_holds :: "(u8 list \<Rightarrow> platform_error + 'r) \<Rightarrow> u8 list \<Rightarrow> usize \<Rightarrow> 'r list \<Rightarrow> bool" where
  "table_holds dec bytes offset [] \<longleftrightarrow> True"
| "table_holds dec bytes offset (r # rs) \<longleftrightarrow>
     offset + 32 \<le> length bytes \<and> dec (take 32 (drop offset bytes)) = Ok r
     \<and> table_holds dec bytes (offset + 32) rs"

definition kernel_payloads :: "kernel_segment list \<Rightarrow> image_map" where
  "kernel_payloads ks =
     map (\<lambda>k. span_at (ks_data_offset k) (unat (ks_file_size k))) (filter (\<lambda>k. ks_file_size k \<noteq> 0) ks)"

definition module_payloads :: "module_segment list \<Rightarrow> image_map" where
  "module_payloads ss =
     map (\<lambda>s. span_at (ms_data_offset s) (unat (ms_file_size s))) (filter (\<lambda>s. ms_file_size s \<noteq> 0) ss)"

definition module_spans :: "image_module \<Rightarrow> image_map" where
  "module_spans m =
     span_at (mr_name_offset (im_record m)) (unat (mr_name_length (im_record m)))
     # span_at (mr_segment_table_offset (im_record m)) (unat (mr_segment_count (im_record m)) * 32)
     # module_payloads (im_segments m)"

definition occupied_spans :: "system_image \<Rightarrow> image_map" where
  "occupied_spans img =
     [span_at 0 64,
      span_at (ih_kernel_segment_table_offset (si_header img))
        (unat (ih_kernel_segment_count (si_header img)) * 32),
      span_at (ih_module_table_offset (si_header img)) (unat (ih_module_count (si_header img)) * 32)]
     @ kernel_payloads (si_kernel_segments img) @ concat (map module_spans (si_modules img))"

lemma image_map_ok_prefix: "image_map_ok n (m @ m') \<Longrightarrow> image_map_ok n m"
  by (auto simp: image_map_ok_def sorted_wrt_append)

lemma image_map_ok_prefix_snoc: "image_map_ok n (m @ s # m') \<Longrightarrow> image_map_ok n (m @ [s])"
  using image_map_ok_prefix [of n "m @ [s]" m'] by simp

lemma occupy_payload_Ok:
  assumes "image_map_ok n m"
  shows "occupy_payload m offset fs n = Ok m' \<longleftrightarrow>
     m' = m @ (if fs \<noteq> 0 then [span_at offset (unat fs)] else []) \<and> image_map_ok n m'"
  using assms by (auto simp: occupy_payload_def occupy_map_ok)

lemma parse_kernel_segments_step:
  assumes "image_map_ok (length bytes) m"
  shows "(parse_kernel_segments bytes table index (Suc left) m :: ('e image_error + _) option) =
       Some (Ok (k # rest, m')) \<longleftrightarrow>
     table_holds kernel_segment_decode bytes (table + index * 32) [k]
     \<and> image_map_ok (length bytes) (m @ kernel_payloads [k])
     \<and> (parse_kernel_segments bytes table (index + 1) left (m @ kernel_payloads [k]) :: ('e image_error + _) option) =
       Some (Ok (rest, m'))"
  by (auto simp: prog_then_Ok slice_or_panic_Ok map_err_Ok KERNEL_SEGMENT_SIZE_def kernel_payloads_def
      occupy_payload_Ok [OF assms])

lemma parse_kernel_segments_Ok:
  "image_map_ok (length bytes) m \<Longrightarrow>
   parse_kernel_segments bytes table index left m = Some (Ok (xs, m')) \<longleftrightarrow>
     length xs = left \<and> table_holds kernel_segment_decode bytes (table + index * 32) xs
     \<and> m' = m @ kernel_payloads xs \<and> image_map_ok (length bytes) m'"
proof (induction left arbitrary: index m xs m')
  case 0
  then show ?case by (auto simp: kernel_payloads_def)
next
  case (Suc left)
  show ?case
  proof (cases xs)
    case Nil
    then show ?thesis by (auto simp: prog_then_Ok)
  next
    case (Cons k rest)
    have split: "kernel_payloads (k # rest) = kernel_payloads [k] @ kernel_payloads rest"
      by (simp add: kernel_payloads_def)
    have off: "table + (index + 1) * 32 = table + index * 32 + 32" by simp
    have ok1: "image_map_ok (length bytes) (m @ kernel_payloads [k])"
      if "m' = m @ kernel_payloads (k # rest)" "image_map_ok (length bytes) m'"
      using that by (metis append_assoc image_map_ok_prefix split)
    show ?thesis
      unfolding Cons parse_kernel_segments_step [OF Suc.prems]
      using Suc.IH [of "m @ kernel_payloads [k]" "index + 1" rest m'] ok1
      unfolding off split by (auto simp del: parse_kernel_segments.simps)
  qed
qed

lemma parse_module_segments_step:
  assumes "image_map_ok (length bytes) m"
  shows "(parse_module_segments bytes table index (Suc left) m :: ('e image_error + _) option) =
       Some (Ok (k # rest, m')) \<longleftrightarrow>
     table_holds module_segment_decode bytes (table + index * 32) [k]
     \<and> image_map_ok (length bytes) (m @ module_payloads [k])
     \<and> (parse_module_segments bytes table (index + 1) left (m @ module_payloads [k]) :: ('e image_error + _) option) =
       Some (Ok (rest, m'))"
  by (auto simp: prog_then_Ok slice_or_panic_Ok map_err_Ok MODULE_SEGMENT_SIZE_def module_payloads_def
      occupy_payload_Ok [OF assms])

lemma parse_module_segments_Ok:
  "image_map_ok (length bytes) m \<Longrightarrow>
   parse_module_segments bytes table index left m = Some (Ok (xs, m')) \<longleftrightarrow>
     length xs = left \<and> table_holds module_segment_decode bytes (table + index * 32) xs
     \<and> m' = m @ module_payloads xs \<and> image_map_ok (length bytes) m'"
proof (induction left arbitrary: index m xs m')
  case 0
  then show ?case by (auto simp: module_payloads_def)
next
  case (Suc left)
  show ?case
  proof (cases xs)
    case Nil
    then show ?thesis by (auto simp: prog_then_Ok)
  next
    case (Cons k rest)
    have split: "module_payloads (k # rest) = module_payloads [k] @ module_payloads rest"
      by (simp add: module_payloads_def)
    have off: "table + (index + 1) * 32 = table + index * 32 + 32" by simp
    have ok1: "image_map_ok (length bytes) (m @ module_payloads [k])"
      if "m' = m @ module_payloads (k # rest)" "image_map_ok (length bytes) m'"
      using that by (metis append_assoc image_map_ok_prefix split)
    show ?thesis
      unfolding Cons parse_module_segments_step [OF Suc.prems]
      using Suc.IH [of "m @ module_payloads [k]" "index + 1" rest m'] ok1
      unfolding off split by (auto simp del: parse_module_segments.simps)
  qed
qed

lemma table_holds_kernel_valid:
  "table_holds kernel_segment_decode bytes offset ks \<Longrightarrow>
     list_all (\<lambda>k. kernel_segment_validate k = Ok ()) ks"
  by (induction ks arbitrary: offset) (auto simp: kernel_segment_decode_Ok)

lemma table_holds_module_valid:
  "table_holds module_segment_decode bytes offset ss \<Longrightarrow>
     list_all (\<lambda>s. module_segment_validate s = Ok ()) ss"
  by (induction ss arbitrary: offset) (auto simp: module_segment_decode_Ok)

lemma table_holds_kernel_layout:
  "table_holds kernel_segment_decode bytes offset ks \<Longrightarrow>
     validate_kernel_records ks entry = Ok () \<longleftrightarrow> kernel_layout ks entry"
  by (rule validate_kernel_records_layout) (rule table_holds_kernel_valid)

lemma table_holds_module_layout:
  "table_holds module_segment_decode bytes offset ss \<Longrightarrow>
     validate_module_records ss entry = Ok () \<longleftrightarrow> module_layout ss entry"
  by (rule validate_module_records_layout) (rule table_holds_module_valid)

definition module_accepted :: "u8 list \<Rightarrow> usize \<Rightarrow> image_module \<Rightarrow> bool" where
  "module_accepted bytes offset m \<longleftrightarrow>
     (let rec = im_record m in
      table_holds module_record_decode bytes offset [rec]
      \<and> im_name m = take (unat (mr_name_length rec)) (drop (unat (mr_name_offset rec)) bytes)
      \<and> im_name m \<noteq> [] \<and> utf8_valid (im_name m)
      \<and> length (im_segments m) = unat (mr_segment_count rec)
      \<and> table_holds module_segment_decode bytes (unat (mr_segment_table_offset rec)) (im_segments m)
      \<and> module_layout (im_segments m) (mr_entry_virtual_address rec))"

lemma image_map_ok_Cons2:
  "image_map_ok n (m @ s # t # rest) \<Longrightarrow> image_map_ok n (m @ [s]) \<and> image_map_ok n (m @ [s, t])
     \<and> sp_end s \<le> n"
  using image_map_ok_prefix [of n "m @ [s, t]" rest] image_map_ok_prefix [of n "m @ [s]" "t # rest"]
  by (auto simp: image_map_ok_def)

lemma parse_module_Ok:
  assumes "image_map_ok (length bytes) m"
  shows "(parse_module bytes offset m names :: ('e image_error + image_module \<times> image_map) option) =
       Some (Ok (x, m')) \<longleftrightarrow>
     module_accepted bytes offset x \<and> im_name x \<notin> names
     \<and> m' = m @ module_spans x \<and> image_map_ok (length bytes) m'"
    (is "?l = ?r")
proof
  assume ?l
  then show ?r
    using assms
    by (auto simp: parse_module_def prog_then_Ok slice_or_panic_Ok map_err_Ok occupy_map_ok
        MODULE_RECORD_SIZE_def MODULE_SEGMENT_SIZE_def parse_module_segments_Ok span_at_def
        module_accepted_def module_spans_def table_holds_module_layout split: if_splits)
next
  assume r: ?r
  let ?rec = "im_record x"
  from r have m': "m' = m @ span_at (mr_name_offset ?rec) (unat (mr_name_length ?rec))
      # span_at (mr_segment_table_offset ?rec) (unat (mr_segment_count ?rec) * 32)
      # module_payloads (im_segments x)"
    by (simp add: module_spans_def)
  from r have ok: "image_map_ok (length bytes) m'" by blast
  note mid = image_map_ok_Cons2 [OF ok [unfolded m']]
  then have inside: "unat (mr_name_offset ?rec) + unat (mr_name_length ?rec) \<le> length bytes"
    by (simp add: span_at_def)
  from r have "table_holds module_segment_decode bytes (unat (mr_segment_table_offset ?rec)) (im_segments x)"
    by (simp add: module_accepted_def Let_def)
  with r have layout: "(validate_module_records (im_segments x) (mr_entry_virtual_address ?rec)
      :: 'e image_error + unit) = Ok ()"
    by (simp add: table_holds_module_layout module_accepted_def Let_def)
  show ?l
    using r mid inside assms layout
    by (cases x) (simp add: parse_module_def prog_then_Ok slice_or_panic_Ok map_err_Ok occupy_map_ok
        MODULE_RECORD_SIZE_def MODULE_SEGMENT_SIZE_def parse_module_segments_Ok
        module_accepted_def Let_def module_spans_def m' span_at_def)
qed

fun modules_hold :: "u8 list \<Rightarrow> usize \<Rightarrow> image_module list \<Rightarrow> bool" where
  "modules_hold bytes offset [] \<longleftrightarrow> True"
| "modules_hold bytes offset (m # ms) \<longleftrightarrow>
     module_accepted bytes offset m \<and> modules_hold bytes (offset + 32) ms"

lemma parse_modules_step:
  assumes "image_map_ok (length bytes) m"
  shows "(parse_modules bytes table index (Suc left) m names :: ('e image_error + _) option) =
       Some (Ok (x # rest, m')) \<longleftrightarrow>
     module_accepted bytes (table + index * 32) x \<and> im_name x \<notin> names
     \<and> image_map_ok (length bytes) (m @ module_spans x)
     \<and> (parse_modules bytes table (index + 1) left (m @ module_spans x) (insert (im_name x) names)
          :: ('e image_error + _) option) = Some (Ok (rest, m'))"
  by (auto simp: prog_then_Ok parse_module_Ok [OF assms] MODULE_RECORD_SIZE_def)

lemma parse_modules_Ok:
  "image_map_ok (length bytes) m \<Longrightarrow>
   parse_modules bytes table index left m names = Some (Ok (xs, m')) \<longleftrightarrow>
     length xs = left \<and> modules_hold bytes (table + index * 32) xs
     \<and> distinct (map im_name xs) \<and> im_name ` set xs \<inter> names = {}
     \<and> m' = m @ concat (map module_spans xs) \<and> image_map_ok (length bytes) m'"
proof (induction left arbitrary: index m names xs m')
  case 0
  then show ?case by auto
next
  case (Suc left)
  show ?case
  proof (cases xs)
    case Nil
    then show ?thesis by (auto simp: prog_then_Ok)
  next
    case (Cons x rest)
    have off: "table + (index + 1) * 32 = table + index * 32 + 32" by simp
    have ok1: "image_map_ok (length bytes) (m @ module_spans x)"
      if "image_map_ok (length bytes) (m @ module_spans x @ concat (map module_spans rest))"
      using that by (metis append_assoc image_map_ok_prefix)
    show ?thesis
      unfolding Cons parse_modules_step [OF Suc.prems]
      using Suc.IH [of "m @ module_spans x" "index + 1" "insert (im_name x) names" rest m'] ok1
      unfolding off by (auto simp del: parse_modules.simps)
  qed
qed

section \<open>Which images parsing accepts\<close>

text \<open>
  What the parser checks: the header describes the whole input, the tables hold valid records, the
  spans are inside the image and pairwise do not overlap as \<open>Span::overlaps\<close> compares them, the segments
  follow the layout rules, and the module names are distinct. The comparison of spans is stricter than
  the rule of the format document, which is \<open>documented_system_image\<close> below.
\<close>

definition valid_system_image :: "u8 list \<Rightarrow> system_image \<Rightarrow> bool" where
  "valid_system_image bytes img \<longleftrightarrow>
     (let h = si_header img in
      si_bytes img = bytes
      \<and> image_header_decode bytes = Ok h \<and> length bytes = unat (ih_image_size h)
      \<and> image_map_ok (length bytes) (occupied_spans img)
      \<and> length (si_kernel_segments img) = unat (ih_kernel_segment_count h)
      \<and> table_holds kernel_segment_decode bytes (unat (ih_kernel_segment_table_offset h))
          (si_kernel_segments img)
      \<and> kernel_layout (si_kernel_segments img) (ih_kernel_entry_vaddr h)
      \<and> length (si_modules img) = unat (ih_module_count h)
      \<and> modules_hold bytes (unat (ih_module_table_offset h)) (si_modules img)
      \<and> distinct (map im_name (si_modules img)))"

lemma header_span_ok: "64 \<le> n \<Longrightarrow> image_map_ok n [span_at 0 64]"
  by (simp add: image_map_ok_def span_at_def)

lemma header_decode_length: "image_header_decode bytes = Ok h \<Longrightarrow> 64 \<le> length bytes"
  unfolding image_header_decode_Ok take_eq_fields [OF length_image_header_fields] by simp

lemma system_image_parse_Ok:
  "(system_image_parse bytes :: ('e image_error + system_image) option) = Some (Ok img)
     \<longleftrightarrow> valid_system_image bytes img"
    (is "?l \<longleftrightarrow> ?r")
proof (cases "image_header_decode bytes")
  case (Inl e)
  then show ?thesis by (simp add: system_image_parse_def valid_system_image_def Let_def)
next
  case (Inr h)
  note ok0 = header_span_ok [OF header_decode_length [OF Inr]]
  let ?k = "span_at (ih_kernel_segment_table_offset h) (unat (ih_kernel_segment_count h) * 32)"
  let ?t = "span_at (ih_module_table_offset h) (unat (ih_module_count h) * 32)"
  show ?thesis
  proof
    assume ?l
    then show ?r
      using ok0 Inr
      by (auto simp: system_image_parse_def prog_then_Ok occupy_map_ok KERNEL_SEGMENT_SIZE_def
          MODULE_RECORD_SIZE_def parse_kernel_segments_Ok parse_modules_Ok
          table_holds_kernel_layout valid_system_image_def occupied_spans_def split: if_splits)
  next
    assume r: ?r
    with Inr have h: "si_header img = h" by (simp add: valid_system_image_def Let_def)
    from r have "table_holds kernel_segment_decode bytes (unat (ih_kernel_segment_table_offset h))
        (si_kernel_segments img)"
      by (simp add: valid_system_image_def Let_def h)
    with r have layout: "(validate_kernel_records (si_kernel_segments img) (ih_kernel_entry_vaddr h)
        :: 'e image_error + unit) = Ok ()"
      by (simp add: table_holds_kernel_layout valid_system_image_def Let_def h)
    from r have ok: "image_map_ok (length bytes) ([span_at 0 64] @ ?k # ?t
        # kernel_payloads (si_kernel_segments img) @ concat (map module_spans (si_modules img)))"
      unfolding valid_system_image_def Let_def occupied_spans_def h
      by (elim conjE) (simp only: append.simps)
    have ok3: "image_map_ok (length bytes) ([span_at 0 64, ?k, ?t]
        @ kernel_payloads (si_kernel_segments img))"
      by (rule image_map_ok_prefix [where m' = "concat (map module_spans (si_modules img))"])
        (use ok in simp)
    show ?l
      using r ok0 Inr image_map_ok_Cons2 [OF ok] ok ok3 layout
      by (cases img) (simp add: system_image_parse_def prog_then_Ok occupy_map_ok KERNEL_SEGMENT_SIZE_def
          MODULE_RECORD_SIZE_def parse_kernel_segments_Ok parse_modules_Ok
          valid_system_image_def occupied_spans_def h Let_def)
  qed
qed

lemma parse_kernel_segments_total:
  "table + (index + left) * 32 \<le> length bytes \<Longrightarrow>
     parse_kernel_segments bytes table index left m \<noteq> None"
proof (induction left arbitrary: index m)
  case (Suc left)
  then have "table + (index + 1 + left) * 32 \<le> length bytes" by simp
  from Suc.IH [OF this] Suc.prems show ?case
    by (auto simp: prog_then_None slice_or_panic_None KERNEL_SEGMENT_SIZE_def)
qed simp

lemma parse_module_segments_total:
  "table + (index + left) * 32 \<le> length bytes \<Longrightarrow>
     parse_module_segments bytes table index left m \<noteq> None"
proof (induction left arbitrary: index m)
  case (Suc left)
  then have "table + (index + 1 + left) * 32 \<le> length bytes" by simp
  from Suc.IH [OF this] Suc.prems show ?case
    by (auto simp: prog_then_None slice_or_panic_None MODULE_SEGMENT_SIZE_def)
qed simp

lemma parse_module_total:
  assumes "offset + 32 \<le> length bytes"
  shows "parse_module bytes offset m names \<noteq> None"
  using assms
  by (auto simp: parse_module_def prog_then_None slice_or_panic_None MODULE_RECORD_SIZE_def
      MODULE_SEGMENT_SIZE_def occupy_Ok span_at_def parse_module_segments_total
      simp del: not_None_eq)

lemma parse_modules_total:
  "table + (index + left) * 32 \<le> length bytes \<Longrightarrow>
     parse_modules bytes table index left m names \<noteq> None"
proof (induction left arbitrary: index m names)
  case (Suc left)
  then have "table + (index + 1 + left) * 32 \<le> length bytes" by simp
  from Suc.IH [OF this] Suc.prems show ?case
    by (auto simp: prog_then_None MODULE_RECORD_SIZE_def parse_module_total)
qed simp

lemma system_image_parse_not_None:
  "system_image_parse bytes \<noteq> (None :: ('e image_error + system_image) option)"
  by (auto simp: system_image_parse_def prog_then_None occupy_Ok span_at_def
      KERNEL_SEGMENT_SIZE_def MODULE_RECORD_SIZE_def parse_kernel_segments_total
      parse_modules_total simp del: not_None_eq)

text \<open>Parsing is total: whatever bytes are given, every slice index of the loops over the tables is
  in range, because a table is entered only after its span was found inside the image. The
  parser answers with an image or an error and never panics.
\<close>

theorem system_image_parse_total:
  "\<exists>r. (system_image_parse bytes :: ('e image_error + system_image) option) = Some r"
  using system_image_parse_not_None [of bytes, where 'e = 'e] by simp

section \<open>The rules of the format document\<close>

text \<open>
  VALID-001 of docs/platform/system-image-v1.md: every range is inside the image, and no byte belongs to
  two of them. An empty range occupies no bytes.
\<close>

definition span_bytes :: "image_span \<Rightarrow> nat set" where
  "span_bytes s = {sp_start s ..< sp_end s}"

definition documented_ranges :: "usize \<Rightarrow> image_map \<Rightarrow> bool" where
  "documented_ranges n m \<longleftrightarrow>
     list_all (\<lambda>s. sp_end s \<le> n) m \<and> sorted_wrt (\<lambda>s t. span_bytes s \<inter> span_bytes t = {}) m"

text \<open>All rules of the document on the bytes of an image.\<close>

definition documented_system_image :: "u8 list \<Rightarrow> system_image \<Rightarrow> bool" where
  "documented_system_image bytes img \<longleftrightarrow>
     (let h = si_header img in
      si_bytes img = bytes
      \<and> image_header_decode bytes = Ok h \<and> length bytes = unat (ih_image_size h)
      \<and> documented_ranges (length bytes) (occupied_spans img)
      \<and> length (si_kernel_segments img) = unat (ih_kernel_segment_count h)
      \<and> table_holds kernel_segment_decode bytes (unat (ih_kernel_segment_table_offset h))
          (si_kernel_segments img)
      \<and> kernel_layout (si_kernel_segments img) (ih_kernel_entry_vaddr h)
      \<and> length (si_modules img) = unat (ih_module_count h)
      \<and> modules_hold bytes (unat (ih_module_table_offset h)) (si_modules img)
      \<and> distinct (map im_name (si_modules img)))"

text \<open>The further condition of the code: the offset of an empty module table is not strictly inside a range.\<close>

definition module_table_apart :: "system_image \<Rightarrow> bool" where
  "module_table_apart img \<longleftrightarrow> ih_module_count (si_header img) \<noteq> 0
     \<or> list_all (\<lambda>s. \<not> (sp_start s < unat (ih_module_table_offset (si_header img))
           \<and> unat (ih_module_table_offset (si_header img)) < sp_end s)) (occupied_spans img)"

definition occupying :: "image_span \<Rightarrow> bool" where
  "occupying s \<longleftrightarrow> sp_start s < sp_end s"

lemma overlap_shares_byte:
  "occupying s \<Longrightarrow> occupying t \<Longrightarrow> \<not> span_overlaps s t \<longleftrightarrow> span_bytes s \<inter> span_bytes t = {}"
  by (auto simp: occupying_def span_bytes_def span_overlaps_def interval_disjoint)

lemma sorted_wrt_agree:
  "(\<And>x y. x \<in> set xs \<Longrightarrow> y \<in> set xs \<Longrightarrow> P x y \<longleftrightarrow> Q x y) \<Longrightarrow> sorted_wrt P xs \<longleftrightarrow> sorted_wrt Q xs"
  by (induction xs) auto

lemma ranges_with_one_empty:
  assumes "list_all occupying (before @ after)" and "sp_start e \<le> sp_end e"
  shows "sorted_wrt (\<lambda>s t. \<not> span_overlaps s t) (before @ e # after) \<longleftrightarrow>
    sorted_wrt (\<lambda>s t. span_bytes s \<inter> span_bytes t = {}) (before @ e # after)
    \<and> (occupying e \<or> list_all (\<lambda>s. \<not> (sp_start s < sp_start e \<and> sp_start e < sp_end s)) (before @ e # after))"
proof (cases "occupying e")
  case True
  with assms(1) have "\<forall>s \<in> set (before @ e # after). occupying s" by (auto simp: list_all_iff)
  then have "sorted_wrt (\<lambda>s t. \<not> span_overlaps s t) (before @ e # after) \<longleftrightarrow>
      sorted_wrt (\<lambda>s t. span_bytes s \<inter> span_bytes t = {}) (before @ e # after)"
    by (intro sorted_wrt_agree) (simp only: overlap_shares_byte)
  with True show ?thesis by (simp only: simp_thms)
next
  case False
  with assms(2) have e: "sp_end e = sp_start e" "span_bytes e = {}" by (auto simp: occupying_def span_bytes_def)
  have rest: "sorted_wrt (\<lambda>s t. \<not> span_overlaps s t) xs \<longleftrightarrow> sorted_wrt (\<lambda>s t. span_bytes s \<inter> span_bytes t = {}) xs"
    "(\<forall>s \<in> set xs. \<forall>t \<in> set ys. \<not> span_overlaps s t) \<longleftrightarrow> (\<forall>s \<in> set xs. \<forall>t \<in> set ys. span_bytes s \<inter> span_bytes t = {})"
    if "list_all occupying xs" "list_all occupying ys" for xs ys
    using that by (intro sorted_wrt_agree; simp add: list_all_iff overlap_shares_byte)
      (use that in \<open>simp add: list_all_iff overlap_shares_byte\<close>)
  from assms(1) have "list_all occupying before" "list_all occupying after" by simp_all
  note rest(1) [OF this(1) this(1)] rest(1) [OF this(2) this(2)] rest(2) [OF this]
  then show ?thesis
    using False e by (auto simp: sorted_wrt_append list_all_iff span_overlaps_def)
qed

lemma payloads_occupying:
  "list_all occupying (kernel_payloads ks)" "list_all occupying (module_payloads ss)"
  by (auto simp: kernel_payloads_def module_payloads_def list_all_iff occupying_def span_at_def unat_gt_0)

lemma module_spans_occupying:
  assumes "module_accepted bytes offset m"
  shows "list_all occupying (module_spans m)"
proof -
  from assms have "im_segments m \<noteq> []" by (auto simp: module_accepted_def module_layout_def Let_def)
  moreover from assms have "length (im_segments m) = unat (mr_segment_count (im_record m))"
    by (simp add: module_accepted_def Let_def)
  ultimately have "0 < unat (mr_segment_count (im_record m))" by (metis length_greater_0_conv)
  moreover from assms have "0 < unat (mr_name_length (im_record m))" by (auto simp: module_accepted_def Let_def)
  ultimately show ?thesis
    using payloads_occupying by (simp add: module_spans_def occupying_def span_at_def)
qed

lemma modules_occupying: "modules_hold bytes offset ms \<Longrightarrow> list_all occupying (concat (map module_spans ms))"
  by (induction bytes offset ms rule: modules_hold.induct) (auto dest: module_spans_occupying)

lemma code_ranges_documented:
  assumes "kernel_layout (si_kernel_segments img) entry"
    and "length (si_kernel_segments img) = unat (ih_kernel_segment_count (si_header img))"
    and "modules_hold bytes offset (si_modules img)"
  shows "image_map_ok n (occupied_spans img) \<longleftrightarrow> documented_ranges n (occupied_spans img) \<and> module_table_apart img"
proof -
  let ?h = "si_header img"
  let ?table = "span_at (ih_module_table_offset ?h) (unat (ih_module_count ?h) * 32)"
  let ?before = "[span_at 0 64, span_at (ih_kernel_segment_table_offset ?h) (unat (ih_kernel_segment_count ?h) * 32)]"
  let ?after = "kernel_payloads (si_kernel_segments img) @ concat (map module_spans (si_modules img))"
  from assms(1) have "si_kernel_segments img \<noteq> []" by (auto simp: kernel_layout_def)
  with assms(2) have "0 < unat (ih_kernel_segment_count ?h)" by (metis length_greater_0_conv)
  then have "list_all occupying (?before @ ?after)"
    using modules_occupying [OF assms(3)] payloads_occupying by (simp add: occupying_def span_at_def)
  note one = ranges_with_one_empty [OF this, of ?table]
  have spans: "occupied_spans img = ?before @ ?table # ?after" by (simp add: occupied_spans_def)
  have "occupying ?table \<longleftrightarrow> ih_module_count ?h \<noteq> 0" "sp_start ?table = unat (ih_module_table_offset ?h)"
    "sp_start ?table \<le> sp_end ?table"
    by (simp_all add: occupying_def span_at_def unat_gt_0)
  note table = this
  show ?thesis
    unfolding image_map_ok_def documented_ranges_def module_table_apart_def spans one [OF table(3)]
    by (simp only: table(1,2)) blast
qed

lemma parsed_is_documented:
  "valid_system_image bytes img \<longleftrightarrow> documented_system_image bytes img \<and> module_table_apart img"
  using code_ranges_documented [of img "ih_kernel_entry_vaddr (si_header img)" bytes
      "unat (ih_module_table_offset (si_header img))" "length bytes"]
  unfolding valid_system_image_def documented_system_image_def Let_def by blast

text \<open>C14.
  A byte string parses to an image precisely when the image satisfies every rule of the format document
  on these bytes and, if it has no modules, the offset of its empty module table is not strictly inside
  an occupied range. So nothing outside the rules is accepted, and of the images that follow them only
  those are rejected whose empty module table points into the header, another table, a name or a payload,
  although an empty range occupies no bytes by the document.
\<close>

theorem system_image_parse_exact:
  "(system_image_parse bytes :: ('e image_error + system_image) option) = Some (Ok img)
     \<longleftrightarrow> documented_system_image bytes img \<and> module_table_apart img"
  by (simp only: system_image_parse_Ok parsed_is_documented)

end
