(* ===== verification/Image_Builder.thy ===== *)
theory Image_Builder
  imports Image_Format "HOL-Library.List_Lexorder"
begin

text \<open>
  The system image producer: the ELF reader's normalisation of segments (\<open>elf.rs\<close>), the image
  builder that turns them into records (\<open>ImageBuilder::build\<close> of \<open>lib.rs\<close>) and the packer
  (\<open>build_image\<close> of \<open>format.rs\<close>), all of \<open>minemu-image\<close>. The ELF parser itself is the
  third-party crate \<open>object\<close>: what the code reads from it is a record, and the parse function is
  a parameter.
\<close>

section \<open>Reading an ELF input\<close>

text \<open>What the sources read of a parsed object file.\<close>

record 'e object_segment =
  os_address :: u64
  os_size :: u64
  os_data :: "'e + u8 list"
  os_readable :: bool
  os_writable :: bool
  os_executable :: bool

record 'e object_file =
  of_is_elf :: bool
  of_is_arm :: bool
  of_is_executable :: bool
  of_is_little_endian :: bool
  of_section_relocations :: bool
  of_dynamic_relocations :: bool
  of_segments :: "'e object_segment list"
  of_entry :: u64

record elf_segment =
  es_address :: u32
  es_bytes :: "u8 list"
  es_memory_size :: u32
  es_flags :: u32

definition elf_flags :: "bool \<Rightarrow> bool \<Rightarrow> bool \<Rightarrow> u32" where
  "elf_flags readable writable executable =
     of_bool readable OR push_bit 1 (of_bool writable) OR push_bit 2 (of_bool executable)"

definition u32_try_from_u64 :: "u64 \<Rightarrow> u32 option" where
  "u32_try_from_u64 v = (if unat v < 2 ^ 32 then Some (ucast v) else None)"

fun elf_segments :: "'e object_segment list \<Rightarrow> 'e image_error + elf_segment list" where
  "elf_segments [] = Ok []"
| "elf_segments (s # rest) =
     (if os_size s = 0 then elf_segments rest else
      and_then (ok_or (u32_try_from_u64 (os_address s)) (InvalidElf ''segment address'')) (\<lambda>address.
      and_then (ok_or (u32_try_from_u64 (os_size s)) (InvalidElf ''segment memory size''))
        (\<lambda>memory_size.
      if (ucast address :: u64) + ucast memory_size > ucast u32_max + 1
      then Err (InvalidElf ''segment range'') else
      and_then (map_err Elf (os_data s)) (\<lambda>data.
      if length data > unat memory_size then Err (InvalidElf ''segment file size'') else
      and_then (elf_segments rest) (\<lambda>segments.
      Ok (\<lparr>es_address = address, es_bytes = data, es_memory_size = memory_size,
           es_flags = elf_flags (os_readable s) (os_writable s) (os_executable s)\<rparr> # segments))))))"

definition parse_elf ::
  "(u8 list \<Rightarrow> 'e + 'e object_file) \<Rightarrow> u8 list \<Rightarrow> 'e image_error + u32 \<times> elf_segment list" where
  "parse_elf object_parse bytes =
     and_then (map_err Elf (object_parse bytes)) (\<lambda>file.
     if \<not> of_is_elf file \<or> \<not> of_is_arm file \<or> \<not> of_is_executable file \<or> \<not> of_is_little_endian file
     then Err (InvalidElf ''expected a little-endian ARM executable ELF'')
     else if of_section_relocations file \<or> of_dynamic_relocations file
     then Err (InvalidElf ''relocations are unsupported'')
     else and_then (elf_segments (of_segments file)) (\<lambda>segments.
       if segments = [] then Err (InvalidElf ''no loadable segments'')
       else and_then (ok_or (u32_try_from_u64 (of_entry file)) (InvalidElf ''entry'')) (\<lambda>entry.
         Ok (entry, segments))))"

section \<open>Packing\<close>

definition size32 :: "usize \<Rightarrow> string \<Rightarrow> 'e image_error + u32" where
  "size32 v detail = ok_or (u32_try_from_usize v) (InvalidImage detail)"

definition image_checked_add :: "usize \<Rightarrow> usize \<Rightarrow> 'e image_error + usize" where
  "image_checked_add l r = ok_or (checked_add_usize l r) (InvalidImage ''image size overflow'')"

definition align4 :: "usize \<Rightarrow> 'e image_error + usize" where
  "align4 v = and_then (image_checked_add v 3) (\<lambda>v. Ok (v - v mod 4))"

definition copy_data :: "u8 list \<Rightarrow> u32 \<Rightarrow> u8 list \<Rightarrow> 'e image_error + u8 list" where
  "copy_data destination offset data =
     (if data = [] then Ok destination
      else and_then (image_checked_add (unat offset) (length data)) (\<lambda>end.
        if end \<le> length destination then Ok (slice_put destination (unat offset) data)
        else Err (InvalidImage ''data outside image'')))"

record packed_module =
  pm_name :: "u8 list"
  pm_entry :: virtual_address
  pm_segments :: "(module_segment \<times> u8 list) list"

text \<open>The four passes that move the cursor over tables, names and payloads.\<close>

fun place_segment_tables :: "usize \<Rightarrow> packed_module list \<Rightarrow> 'e image_error + u32 list \<times> usize" where
  "place_segment_tables cursor [] = Ok ([], cursor)"
| "place_segment_tables cursor (m # ms) =
     and_then (align4 cursor) (\<lambda>cursor.
     and_then (size32 cursor ''module segment table offset'') (\<lambda>offset.
     and_then (image_checked_add cursor (length (pm_segments m) * MODULE_SEGMENT_SIZE)) (\<lambda>cursor.
     and_then (place_segment_tables cursor ms) (\<lambda>(offsets, cursor).
     Ok (offset # offsets, cursor)))))"

fun place_names :: "usize \<Rightarrow> packed_module list \<Rightarrow> 'e image_error + u32 list \<times> usize" where
  "place_names cursor [] = Ok ([], cursor)"
| "place_names cursor (m # ms) =
     and_then (size32 cursor ''module name offset'') (\<lambda>offset.
     and_then (image_checked_add cursor (length (pm_name m))) (\<lambda>cursor.
     and_then (place_names cursor ms) (\<lambda>(offsets, cursor).
     Ok (offset # offsets, cursor))))"

fun place_kernel_data ::
  "usize \<Rightarrow> (kernel_segment \<times> u8 list) list
    \<Rightarrow> 'e image_error + (kernel_segment \<times> u8 list) list \<times> usize" where
  "place_kernel_data cursor [] = Ok ([], cursor)"
| "place_kernel_data cursor ((k, data) # rest) =
     and_then (if data = [] then Ok (k, cursor)
       else and_then (size32 cursor ''kernel data offset'') (\<lambda>offset.
         and_then (image_checked_add cursor (length data)) (\<lambda>cursor.
         Ok (k\<lparr>ks_data_offset := offset\<rparr>, cursor)))) (\<lambda>(k, cursor).
     and_then (place_kernel_data cursor rest) (\<lambda>(rest, cursor).
     Ok ((k, data) # rest, cursor)))"

fun place_segment_data ::
  "usize \<Rightarrow> (module_segment \<times> u8 list) list
    \<Rightarrow> 'e image_error + (module_segment \<times> u8 list) list \<times> usize" where
  "place_segment_data cursor [] = Ok ([], cursor)"
| "place_segment_data cursor ((s, data) # rest) =
     and_then (if data = [] then Ok (s, cursor)
       else and_then (size32 cursor ''module data offset'') (\<lambda>offset.
         and_then (image_checked_add cursor (length data)) (\<lambda>cursor.
         Ok (s\<lparr>ms_data_offset := offset\<rparr>, cursor)))) (\<lambda>(s, cursor).
     and_then (place_segment_data cursor rest) (\<lambda>(rest, cursor).
     Ok ((s, data) # rest, cursor)))"

fun place_module_data :: "usize \<Rightarrow> packed_module list \<Rightarrow> 'e image_error + packed_module list \<times> usize" where
  "place_module_data cursor [] = Ok ([], cursor)"
| "place_module_data cursor (m # ms) =
     and_then (place_segment_data cursor (pm_segments m)) (\<lambda>(segments, cursor).
     and_then (place_module_data cursor ms) (\<lambda>(ms, cursor).
     Ok (m\<lparr>pm_segments := segments\<rparr> # ms, cursor)))"

text \<open>The range of \<open>bytes[lo..hi].copy_from_slice(raw)\<close>, checked before the value is computed.\<close>

definition range_or_panic :: "u8 list \<Rightarrow> usize \<Rightarrow> usize \<Rightarrow> ('e + unit) option" where
  "range_or_panic bytes lo hi = (if lo \<le> hi \<and> hi \<le> length bytes then Some (Ok ()) else None)"

definition nth_or_panic :: "'a list \<Rightarrow> usize \<Rightarrow> ('e + 'a) option" where
  "nth_or_panic xs i = (if i < length xs then Some (Ok (xs ! i)) else None)"

fun write_kernel_segments ::
  "u8 list \<Rightarrow> usize \<Rightarrow> usize \<Rightarrow> (kernel_segment \<times> u8 list) list \<Rightarrow> ('e image_error + u8 list) option" where
  "write_kernel_segments bytes table index [] = Some (Ok bytes)"
| "write_kernel_segments bytes table index ((k, data) # rest) =
     (let offset = table + index * KERNEL_SEGMENT_SIZE in
      prog_then (range_or_panic bytes offset (offset + KERNEL_SEGMENT_SIZE)) (\<lambda>_.
      prog_then (Some (map_err PlatformErr (kernel_segment_encode k))) (\<lambda>raw.
      prog_then (Some (copy_data (slice_put bytes offset raw) (ks_data_offset k) data)) (\<lambda>bytes.
      write_kernel_segments bytes table (index + 1) rest))))"

fun write_module_segments ::
  "u8 list \<Rightarrow> usize \<Rightarrow> usize \<Rightarrow> (module_segment \<times> u8 list) list \<Rightarrow> ('e image_error + u8 list) option" where
  "write_module_segments bytes table index [] = Some (Ok bytes)"
| "write_module_segments bytes table index ((s, data) # rest) =
     (let offset = table + index * MODULE_SEGMENT_SIZE in
      prog_then (range_or_panic bytes offset (offset + MODULE_SEGMENT_SIZE)) (\<lambda>_.
      prog_then (Some (map_err PlatformErr (module_segment_encode s))) (\<lambda>raw.
      prog_then (Some (copy_data (slice_put bytes offset raw) (ms_data_offset s) data)) (\<lambda>bytes.
      write_module_segments bytes table (index + 1) rest))))"

fun write_modules ::
  "u8 list \<Rightarrow> usize \<Rightarrow> u32 list \<Rightarrow> u32 list \<Rightarrow> usize \<Rightarrow> packed_module list
    \<Rightarrow> ('e image_error + u8 list) option" where
  "write_modules bytes table name_offsets segment_offsets index [] = Some (Ok bytes)"
| "write_modules bytes table name_offsets segment_offsets index (m # rest) =
     prog_then (nth_or_panic name_offsets index) (\<lambda>name_offset.
     prog_then (Some (size32 (length (pm_name m)) ''module name length'')) (\<lambda>name_length.
     prog_then (nth_or_panic segment_offsets index) (\<lambda>segment_offset.
     prog_then (Some (size32 (length (pm_segments m)) ''module segment count'')) (\<lambda>segment_count.
     (let rec = \<lparr>mr_name_offset = name_offset, mr_name_length = name_length,
            mr_segment_table_offset = segment_offset, mr_segment_count = segment_count,
            mr_entry_virtual_address = pm_entry m\<rparr>;
          offset = table + index * MODULE_RECORD_SIZE in
      prog_then (range_or_panic bytes offset (offset + MODULE_RECORD_SIZE)) (\<lambda>_.
      prog_then (Some (copy_data (slice_put bytes offset (module_record_encode rec))
          (mr_name_offset rec) (pm_name m))) (\<lambda>bytes.
      prog_then (write_module_segments bytes (unat (mr_segment_table_offset rec)) 0 (pm_segments m))
        (\<lambda>bytes.
      write_modules bytes table name_offsets segment_offsets (index + 1) rest))))))))"

definition build_image ::
  "virtual_address \<Rightarrow> (kernel_segment \<times> u8 list) list \<Rightarrow> packed_module list
    \<Rightarrow> ('e image_error + system_image) option" where
  "build_image kernel_entry kernel_segments modules =
     (let kernel_table_offset = IMAGE_HEADER_SIZE;
          module_table_offset = kernel_table_offset + length kernel_segments * KERNEL_SEGMENT_SIZE;
          cursor = module_table_offset + length modules * MODULE_RECORD_SIZE in
      prog_then (Some (place_segment_tables cursor modules)) (\<lambda>(segment_offsets, cursor).
      prog_then (Some (align4 cursor)) (\<lambda>cursor.
      prog_then (Some (place_names cursor modules)) (\<lambda>(name_offsets, cursor).
      prog_then (Some (align4 cursor)) (\<lambda>cursor.
      prog_then (Some (place_kernel_data cursor kernel_segments)) (\<lambda>(kernel_segments, cursor).
      prog_then (Some (place_module_data cursor modules)) (\<lambda>(modules, cursor).
      if cursor > unat (mem_size SystemRom) then Some (Err RomOverflow) else
      prog_then (Some (size32 cursor ''image size'')) (\<lambda>image_size.
      prog_then (Some (size32 kernel_table_offset ''kernel table offset'')) (\<lambda>kernel_table.
      prog_then (Some (size32 (length kernel_segments) ''kernel segment count'')) (\<lambda>kernel_count.
      prog_then (Some (size32 module_table_offset ''module table offset'')) (\<lambda>module_table.
      prog_then (Some (size32 (length modules) ''module count'')) (\<lambda>module_count.
      (let header = \<lparr>ih_image_size = image_size,
             ih_kernel_segment_table_offset = kernel_table,
             ih_kernel_segment_count = kernel_count,
             ih_module_table_offset = module_table,
             ih_module_count = module_count,
             ih_bootstrap_entry_paddr = PhysicalAddress BOOTSTRAP_ENTRY_PADDR,
             ih_kernel_entry_vaddr = kernel_entry,
             ih_boot_info_paddr = PhysicalAddress BOOT_INFO_PADDR\<rparr>;
           bytes = replicate cursor 0 in
       prog_then (range_or_panic bytes 0 IMAGE_HEADER_SIZE) (\<lambda>_.
       prog_then (Some (map_err PlatformErr (image_header_encode header))) (\<lambda>raw.
       prog_then (write_kernel_segments (slice_put bytes 0 raw) kernel_table_offset 0 kernel_segments)
         (\<lambda>bytes.
       prog_then (write_modules bytes module_table_offset name_offsets segment_offsets 0 modules)
         (\<lambda>bytes.
       system_image_parse bytes)))))))))))))))))"

section \<open>The image builder\<close>

record module_input =
  mi_name :: "u8 list"
  mi_elf :: "u8 list"

record image_builder =
  ib_kernel :: "u8 list"
  ib_modules :: "module_input list"

definition image_builder_new :: "u8 list \<Rightarrow> image_builder" where
  "image_builder_new kernel_elf = \<lparr>ib_kernel = kernel_elf, ib_modules = []\<rparr>"

definition add_module :: "image_builder \<Rightarrow> module_input \<Rightarrow> image_builder" where
  "add_module b m = b\<lparr>ib_modules := ib_modules b @ [m]\<rparr>"

fun pack_kernel_segments ::
  "elf_segment list \<Rightarrow> 'e image_error + (kernel_segment \<times> u8 list) list" where
  "pack_kernel_segments [] = Ok []"
| "pack_kernel_segments (s # rest) =
     (let virtual_address = VirtualAddress (es_address s) in
      and_then (if contains_address (mem_range Ram) (PhysicalAddress (es_address s))
                then Ok (PhysicalAddress (es_address s))
                else map_err PlatformErr (direct_map_physical virtual_address)) (\<lambda>physical_address.
      and_then (ok_or (u32_try_from_usize (length (es_bytes s))) (InvalidElf ''kernel segment size''))
        (\<lambda>file_size.
      (let rec = \<lparr>ks_data_offset = 0, ks_physical_address = physical_address,
             ks_virtual_address = virtual_address, ks_file_size = file_size,
             ks_memory_size = es_memory_size s, ks_flags = es_flags s\<rparr> in
       and_then (map_err PlatformErr (kernel_segment_validate rec)) (\<lambda>_.
       and_then (pack_kernel_segments rest) (\<lambda>packed.
       Ok ((rec, es_bytes s) # packed)))))))"

fun pack_module_segments ::
  "elf_segment list \<Rightarrow> 'e image_error + (module_segment \<times> u8 list) list" where
  "pack_module_segments [] = Ok []"
| "pack_module_segments (s # rest) =
     and_then (ok_or (u32_try_from_usize (length (es_bytes s))) (InvalidElf ''module segment size''))
       (\<lambda>file_size.
     (let rec = \<lparr>ms_data_offset = 0, ms_virtual_address = VirtualAddress (es_address s),
            ms_file_size = file_size, ms_memory_size = es_memory_size s, ms_flags = es_flags s\<rparr> in
      and_then (map_err PlatformErr (module_segment_validate rec)) (\<lambda>_.
      and_then (pack_module_segments rest) (\<lambda>packed.
      Ok ((rec, es_bytes s) # packed)))))"

fun pack_modules ::
  "(u8 list \<Rightarrow> 'e + 'e object_file) \<Rightarrow> module_input list \<Rightarrow> 'e image_error + packed_module list" where
  "pack_modules object_parse [] = Ok []"
| "pack_modules object_parse (input # rest) =
     (if mi_name input = [] then Err (InvalidImage ''module name'') else
      and_then (parse_elf object_parse (mi_elf input)) (\<lambda>(entry, segments).
      and_then (pack_module_segments segments) (\<lambda>records.
      (let records = sort_key (\<lambda>(s, _). va_get (ms_virtual_address s)) records in
       and_then (validate_module_segments records (VirtualAddress entry)) (\<lambda>_.
       and_then (pack_modules object_parse rest) (\<lambda>packed.
       Ok (\<lparr>pm_name = mi_name input, pm_entry = VirtualAddress entry, pm_segments = records\<rparr>
           # packed)))))))"

text \<open>\<open>windows(2).any(..)\<close>: two neighbours with the same name.\<close>

fun adjacent_names_equal :: "packed_module list \<Rightarrow> bool" where
  "adjacent_names_equal (a # b # rest) \<longleftrightarrow> pm_name a = pm_name b \<or> adjacent_names_equal (b # rest)"
| "adjacent_names_equal _ \<longleftrightarrow> False"

definition image_builder_build ::
  "(u8 list \<Rightarrow> 'e + 'e object_file) \<Rightarrow> image_builder \<Rightarrow> ('e image_error + system_image) option" where
  "image_builder_build object_parse b =
     prog_then (Some (parse_elf object_parse (ib_kernel b))) (\<lambda>(kernel_entry, kernel_segments).
     prog_then (Some (pack_kernel_segments kernel_segments)) (\<lambda>packed_kernel.
     (let packed_kernel = sort_key (\<lambda>(s, _). va_get (ks_virtual_address s)) packed_kernel in
      prog_then (Some (validate_kernel_segments packed_kernel (VirtualAddress kernel_entry))) (\<lambda>_.
      prog_then (Some (pack_modules object_parse (ib_modules b))) (\<lambda>packed_modules.
      (let packed_modules = sort_key pm_name packed_modules in
       if adjacent_names_equal packed_modules
       then Some (Err (InvalidImage ''duplicate module name''))
       else build_image (VirtualAddress kernel_entry) packed_kernel packed_modules))))))"

definition package ::
  "(u8 list \<Rightarrow> 'e + 'e object_file) \<Rightarrow> u8 list \<Rightarrow> module_input list
    \<Rightarrow> ('e image_error + system_image) option" where
  "package object_parse kernel_elf modules =
     image_builder_build object_parse (fold (\<lambda>m b. add_module b m) modules (image_builder_new kernel_elf))"

section \<open>The packer is total and emits only valid images\<close>

lemma size32_Ok: "size32 n d = Ok v \<longleftrightarrow> n < 2 ^ 32 \<and> v = of_nat n"
  by (auto simp: size32_def ok_or_Ok u32_try_from_usize_def)

lemma size32_unat: "size32 n d = Ok v \<Longrightarrow> unat v = n"
  by (auto simp: size32_Ok unsigned_of_nat take_bit_nat_eq_self)

lemma image_checked_add_Ok: "image_checked_add a b = Ok c \<longleftrightarrow> a + b \<le> usize_max \<and> c = a + b"
  by (auto simp: image_checked_add_def ok_or_Ok checked_add_usize_def)

lemma align4_le: "align4 c = Ok c' \<Longrightarrow> c \<le> c'"
  by (auto simp: align4_def and_then_Ok image_checked_add_Ok)

lemma copy_data_length: "copy_data bytes offset data = Ok bytes' \<Longrightarrow> length bytes' = length bytes"
  by (auto simp: copy_data_def and_then_Ok image_checked_add_Ok split: if_splits)

lemma place_segment_tables_bounds:
  "(place_segment_tables cursor ms :: 'e image_error + _) = Ok (offsets, cursor') \<Longrightarrow>
     cursor \<le> cursor'
     \<and> list_all2 (\<lambda>offset m. unat offset + length (pm_segments m) * 32 \<le> cursor') offsets ms"
proof (induction ms arbitrary: cursor offsets)
  case (Cons m ms)
  then obtain c offset os where "(align4 cursor :: 'e image_error + _) = Ok c"
    and "(size32 c ''module segment table offset'' :: 'e image_error + _) = Ok offset"
    and rec: "(place_segment_tables (c + length (pm_segments m) * 32) ms :: 'e image_error + _) =
      Ok (os, cursor')"
    and "offsets = offset # os"
    by (auto simp: and_then_Ok image_checked_add_Ok MODULE_SEGMENT_SIZE_def split: prod.splits)
  moreover from Cons.IH [OF rec] have "c + length (pm_segments m) * 32 \<le> cursor'"
    "list_all2 (\<lambda>offset m. unat offset + length (pm_segments m) * 32 \<le> cursor') os ms" by simp_all
  ultimately show ?case
    using align4_le [of cursor c] size32_unat by force
qed simp

lemma place_names_bounds:
  "place_names cursor ms = Ok (offsets, cursor') \<Longrightarrow> cursor \<le> cursor' \<and> length offsets = length ms"
proof (induction ms arbitrary: cursor offsets)
  case (Cons m ms)
  then show ?case by (force simp: and_then_Ok image_checked_add_Ok split: prod.splits)
qed simp

lemma place_kernel_data_bounds:
  "place_kernel_data cursor ks = Ok (ks', cursor') \<Longrightarrow>
     cursor \<le> cursor' \<and> length ks' = length ks \<and> map snd ks' = map snd ks"
proof (induction cursor ks arbitrary: ks' rule: place_kernel_data.induct)
  case (2 cursor k data rest)
  then show ?case
    by (fastforce simp: and_then_Ok image_checked_add_Ok split: prod.splits if_splits)
qed simp

lemma place_segment_data_bounds:
  "place_segment_data cursor ss = Ok (ss', cursor') \<Longrightarrow> cursor \<le> cursor' \<and> length ss' = length ss"
proof (induction cursor ss arbitrary: ss' rule: place_segment_data.induct)
  case (2 cursor k data rest)
  then show ?case
    by (fastforce simp: and_then_Ok image_checked_add_Ok split: prod.splits if_splits)
qed simp

lemma place_module_data_bounds:
  "(place_module_data cursor ms :: 'e image_error + _) = Ok (ms', cursor') \<Longrightarrow>
     cursor \<le> cursor' \<and> list_all2 (\<lambda>m' m. length (pm_segments m') = length (pm_segments m)) ms' ms"
proof (induction ms arbitrary: cursor ms')
  case (Cons m ms)
  then obtain ss c rest
    where "(place_segment_data cursor (pm_segments m) :: 'e image_error + _) = Ok (ss, c)"
    and rec: "(place_module_data c ms :: 'e image_error + _) = Ok (rest, cursor')"
    and "ms' = m\<lparr>pm_segments := ss\<rparr> # rest"
    by (auto simp: and_then_Ok split: prod.splits)
  with Cons.IH [OF rec] place_segment_data_bounds show ?case by fastforce
qed simp

lemma module_segment_encode_length:
  "map_err PlatformErr (module_segment_encode s) = Ok raw \<Longrightarrow> length raw = 32"
  using length_module_segment_fields [of s]
  by (auto simp: map_err_Ok module_segment_encode_Ok simp del: length_concat length_module_segment_fields)

lemma kernel_segment_encode_length:
  "map_err PlatformErr (kernel_segment_encode k) = Ok raw \<Longrightarrow> length raw = 32"
  using length_kernel_segment_fields [of k]
  by (auto simp: map_err_Ok kernel_segment_encode_Ok simp del: length_concat length_kernel_segment_fields)

lemma module_record_encode_length: "length (module_record_encode m) = 32"
  unfolding module_record_encode_fields by (rule length_module_record_fields)

definition keeps_length :: "nat \<Rightarrow> ('e + u8 list) option \<Rightarrow> bool" where
  "keeps_length n p \<longleftrightarrow>
     (case p of None \<Rightarrow> False | Some (Err e) \<Rightarrow> True | Some (Ok bytes) \<Rightarrow> length bytes = n)"

text \<open>The rules that step through a writer.\<close>

lemma keeps_length_pure:
  "(\<And>v. r = Ok v \<Longrightarrow> keeps_length n (f v)) \<Longrightarrow> keeps_length n (prog_then (Some r) f)"
  by (cases r) (auto simp: keeps_length_def)

lemma keeps_length_range:
  "lo \<le> hi \<Longrightarrow> hi \<le> length bytes \<Longrightarrow> keeps_length n (f ()) \<Longrightarrow>
     keeps_length n (prog_then (range_or_panic bytes lo hi) f)"
  by (simp add: range_or_panic_def)

lemma keeps_length_nth:
  "i < length xs \<Longrightarrow> keeps_length n (f (xs ! i)) \<Longrightarrow> keeps_length n (prog_then (nth_or_panic xs i) f)"
  by (simp add: nth_or_panic_def)

lemma keeps_length_seq:
  "keeps_length k p \<Longrightarrow> (\<And>b. length b = k \<Longrightarrow> keeps_length n (f b)) \<Longrightarrow> keeps_length n (prog_then p f)"
  by (cases "(p, f)" rule: prog_then.cases) (auto simp: keeps_length_def)

lemma write_kernel_segments_keeps:
  "table + (index + length xs) * 32 \<le> length bytes \<Longrightarrow>
     keeps_length (length bytes) (write_kernel_segments bytes table index xs :: ('e image_error + _) option)"
proof (induction xs arbitrary: bytes index)
  case (Cons x rest)
  obtain r data where x: "x = (r, data)" by force
  have step: "keeps_length (length bytes) (write_kernel_segments bytes' table (Suc index) rest
      :: ('e image_error + _) option)"
    if "(map_err PlatformErr (kernel_segment_encode r) :: 'e image_error + _) = Ok raw"
      and "(copy_data (slice_put bytes (table + index * 32) raw) (ks_data_offset r) data
        :: 'e image_error + _) = Ok bytes'"
    for raw bytes'
  proof -
    from that have "length bytes' = length bytes"
      using kernel_segment_encode_length [OF that(1)] Cons.prems by (simp add: copy_data_length)
    with Cons.IH [of "index + 1" bytes'] Cons.prems show ?thesis by simp
  qed
  show ?case
    using Cons.prems
    by (auto simp: x Let_def KERNEL_SEGMENT_SIZE_def intro!: keeps_length_pure keeps_length_range intro: step)
qed (simp add: keeps_length_def)

lemma write_module_segments_keeps:
  "table + (index + length xs) * 32 \<le> length bytes \<Longrightarrow>
     keeps_length (length bytes) (write_module_segments bytes table index xs :: ('e image_error + _) option)"
proof (induction xs arbitrary: bytes index)
  case (Cons x rest)
  obtain r data where x: "x = (r, data)" by force
  have step: "keeps_length (length bytes) (write_module_segments bytes' table (Suc index) rest
      :: ('e image_error + _) option)"
    if "(map_err PlatformErr (module_segment_encode r) :: 'e image_error + _) = Ok raw"
      and "(copy_data (slice_put bytes (table + index * 32) raw) (ms_data_offset r) data
        :: 'e image_error + _) = Ok bytes'"
    for raw bytes'
  proof -
    from that have "length bytes' = length bytes"
      using module_segment_encode_length [OF that(1)] Cons.prems by (simp add: copy_data_length)
    with Cons.IH [of "index + 1" bytes'] Cons.prems show ?thesis by simp
  qed
  show ?case
    using Cons.prems
    by (auto simp: x Let_def MODULE_SEGMENT_SIZE_def intro!: keeps_length_pure keeps_length_range intro: step)
qed (simp add: keeps_length_def)

lemma write_modules_keeps:
  "table + (index + length ms) * 32 \<le> length bytes \<Longrightarrow> length name_offsets = index + length ms \<Longrightarrow>
   index \<le> length segment_offsets \<Longrightarrow>
   list_all2 (\<lambda>offset m. unat offset + length (pm_segments m) * 32 \<le> length bytes)
     (drop index segment_offsets) ms \<Longrightarrow>
     keeps_length (length bytes) (write_modules bytes table name_offsets segment_offsets index ms
       :: ('e image_error + _) option)"
proof (induction ms arbitrary: bytes index)
  case (Cons m rest)
  from Cons.prems have index: "index < length name_offsets" "index < length segment_offsets"
    by (auto dest: list_all2_lengthD)
  from index(2) have dr: "drop index segment_offsets = segment_offsets ! index # drop (Suc index) segment_offsets"
    by (simp add: Cons_nth_drop_Suc)
  with Cons.prems(4) have here: "unat (segment_offsets ! index) + length (pm_segments m) * 32 \<le> length bytes"
    and later: "list_all2 (\<lambda>offset m. unat offset + length (pm_segments m) * 32 \<le> length bytes)
      (drop (Suc index) segment_offsets) rest" by simp_all
  have seg: "keeps_length (length bytes)
      (write_module_segments b (unat (segment_offsets ! index)) 0 (pm_segments m)
        :: ('e image_error + _) option)" if "length b = length bytes" for b
    using write_module_segments_keeps [of "unat (segment_offsets ! index)" 0 "pm_segments m" b] here that
    by simp
  have rest: "keeps_length (length bytes)
      (write_modules b table name_offsets segment_offsets (Suc index) rest :: ('e image_error + _) option)"
    if "length b = length bytes" for b
    using Cons.IH [of "index + 1" b] Cons.prems later index that by simp
  have copied: "length b = length bytes"
    if "(copy_data (slice_put bytes (table + index * 32) (module_record_encode r)) off data
      :: 'e image_error + _) = Ok b" for r off data b
    using copy_data_length [OF that] Cons.prems(1) by (simp add: module_record_encode_length)
  show ?case
    using Cons.prems(1) index
    by (auto simp: Let_def MODULE_RECORD_SIZE_def intro!: keeps_length_pure keeps_length_range
        keeps_length_nth intro: keeps_length_seq [OF seg] rest copied)
qed (simp add: keeps_length_def)

definition valid_or_error :: "('e image_error + system_image) option \<Rightarrow> bool" where
  "valid_or_error p \<longleftrightarrow>
     (case p of None \<Rightarrow> False | Some (Err e) \<Rightarrow> True
      | Some (Ok img) \<Rightarrow> valid_system_image (si_bytes img) img)"

lemma valid_or_error_pure:
  "(\<And>v. r = Ok v \<Longrightarrow> valid_or_error (f v)) \<Longrightarrow> valid_or_error (prog_then (Some r) f)"
  by (cases r) (auto simp: valid_or_error_def)

lemma valid_or_error_Err: "valid_or_error (Some (Err e))"
  by (simp add: valid_or_error_def)

lemma valid_or_error_range:
  "lo \<le> hi \<Longrightarrow> hi \<le> length bytes \<Longrightarrow> valid_or_error (f ()) \<Longrightarrow>
     valid_or_error (prog_then (range_or_panic bytes lo hi) f)"
  by (simp add: range_or_panic_def)

lemma valid_or_error_keeps:
  "keeps_length k p \<Longrightarrow> (\<And>b. length b = k \<Longrightarrow> valid_or_error (f b)) \<Longrightarrow>
     valid_or_error (prog_then p f)"
  by (cases "(p, f)" rule: prog_then.cases) (auto simp: keeps_length_def valid_or_error_def)

lemma valid_or_error_parse: "valid_or_error (system_image_parse bytes :: ('e image_error + _) option)"
proof (cases "system_image_parse bytes :: ('e image_error + _) option")
  case None
  then show ?thesis using system_image_parse_not_None [of bytes, where 'e = 'e] by simp
next
  case (Some r)
  show ?thesis
  proof (cases r)
    case (Inr img)
    with Some have "valid_system_image bytes img" by (simp add: system_image_parse_Ok)
    moreover from this have "si_bytes img = bytes" by (simp add: valid_system_image_def Let_def)
    ultimately show ?thesis by (simp add: Some Inr valid_or_error_def)
  qed (simp add: Some valid_or_error_def)
qed

lemma image_header_encode_length:
  "map_err PlatformErr (image_header_encode h) = Ok raw \<Longrightarrow> length raw = 64"
  using length_image_header_fields [of h]
  by (auto simp: map_err_Ok image_header_encode_Ok simp del: length_concat length_image_header_fields)

text \<open>The write phase, for a layout whose tables lie before the cursor.\<close>

lemma write_phase_valid:
  assumes "64 + length ks * 32 + length ms * 32 \<le> cursor"
    and "length name_offsets = length ms"
    and "list_all2 (\<lambda>offset m. unat offset + length (pm_segments m) * 32 \<le> cursor) segment_offsets ms"
    and "(map_err PlatformErr (image_header_encode h) :: 'e image_error + _) = Ok raw"
  shows "valid_or_error
     (prog_then (write_kernel_segments (slice_put (replicate cursor 0) 0 raw) 64 0 ks) (\<lambda>bytes.
      prog_then (write_modules bytes (64 + length ks * 32) name_offsets segment_offsets 0 ms)
        (\<lambda>bytes. system_image_parse bytes :: ('e image_error + _) option)))"
proof -
  let ?b = "slice_put (replicate cursor 0) 0 raw"
  have len: "length ?b = cursor"
    using image_header_encode_length [OF assms(4)] assms(1) by simp
  have k: "keeps_length cursor (write_kernel_segments ?b 64 0 ks :: ('e image_error + _) option)"
    using write_kernel_segments_keeps [of 64 0 ks ?b, where 'e = 'e] assms(1)
    unfolding len by simp
  have "keeps_length cursor (write_modules b (64 + length ks * 32) name_offsets segment_offsets 0 ms
      :: ('e image_error + _) option)" if "length b = cursor" for b
    using write_modules_keeps [of "64 + length ks * 32" 0 ms b name_offsets segment_offsets, where 'e = 'e]
      assms that by simp
  with k show ?thesis
    by (intro valid_or_error_keeps valid_or_error_parse) auto
qed

lemma list_all2_weaken:
  "list_all2 (\<lambda>x y. f x + g y \<le> (c :: nat)) xs ys \<Longrightarrow> c \<le> c' \<Longrightarrow> list_all2 (\<lambda>z y. g z = g y) zs ys \<Longrightarrow>
     list_all2 (\<lambda>x z. f x + g z \<le> c') xs zs"
  by (fastforce simp: list_all2_conv_all_nth)

lemma build_image_valid:
  "valid_or_error (build_image entry ks ms :: ('e image_error + system_image) option)"
proof -
  have step: "valid_or_error
      (prog_then (range_or_panic (replicate c 0) 0 64) (\<lambda>_.
       prog_then (Some (map_err PlatformErr (image_header_encode h))) (\<lambda>raw.
       prog_then (write_kernel_segments (slice_put (replicate c 0) 0 raw) 64 0 ks') (\<lambda>bytes.
       prog_then (write_modules bytes (64 + length ks * 32) names tables 0 ms')
         (\<lambda>bytes. system_image_parse bytes :: ('e image_error + _) option)))))"
    if "(place_segment_tables (64 + length ks * 32 + length ms * 32) ms :: 'e image_error + _) = Ok (tables, c1)"
      and "(align4 c1 :: 'e image_error + _) = Ok c2"
      and "(place_names c2 ms :: 'e image_error + _) = Ok (names, c3)"
      and "(align4 c3 :: 'e image_error + _) = Ok c4"
      and "(place_kernel_data c4 ks :: 'e image_error + _) = Ok (ks', c5)"
      and "(place_module_data c5 ms :: 'e image_error + _) = Ok (ms', c)"
    for tables c1 c2 names c3 c4 ks' c5 ms' c h
  proof -
    note t = place_segment_tables_bounds [OF that(1)] and n = place_names_bounds [OF that(3)]
      and k = place_kernel_data_bounds [OF that(5)] and m = place_module_data_bounds [OF that(6)]
      and a = align4_le [OF that(2)] align4_le [OF that(4)]
    have le: "c1 \<le> c" "64 + length ks * 32 + length ms * 32 \<le> c"
      using t n k m a by linarith+
    have len: "length ms' = length ms" using m by (auto dest: list_all2_lengthD)
    have tables: "list_all2 (\<lambda>offset m. unat offset + length (pm_segments m) * 32 \<le> c) tables ms'"
      using list_all2_weaken [of unat "\<lambda>m. length (pm_segments m) * 32" c1 tables ms c ms'] t m le
      by (simp add: list_all2_conv_all_nth)
    show ?thesis
      using write_phase_valid [of ks' ms' c names tables h] le len tables n k
      by (intro valid_or_error_range valid_or_error_pure) auto
  qed
  show ?thesis
    unfolding build_image_def Let_def IMAGE_HEADER_SIZE_def KERNEL_SEGMENT_SIZE_def
      MODULE_RECORD_SIZE_def
    by (auto intro!: valid_or_error_pure valid_or_error_Err step split: prod.splits)
qed

lemma package_valid_or_error:
  "case package object_parse kernel_elf modules of
     None \<Rightarrow> False
   | Some (Err e) \<Rightarrow> True
   | Some (Ok img) \<Rightarrow> valid_system_image (si_bytes img) img"
proof -
  have "valid_or_error (package object_parse kernel_elf modules)"
    unfolding package_def image_builder_build_def Let_def
    by (auto intro!: valid_or_error_pure valid_or_error_Err build_image_valid split: prod.splits)
  then show ?thesis by (simp add: valid_or_error_def)
qed

text \<open>C31.
  The packer is total and sound: for every kernel input, list of modules and ELF parser, it
  neither indexes outside the image it is filling nor returns anything but an error or an
  image that satisfies every rule of the format document on its own bytes.
\<close>

theorem package_emits_valid_images:
  "case package object_parse kernel_elf modules of
     None \<Rightarrow> False
   | Some (Err e) \<Rightarrow> True
   | Some (Ok img) \<Rightarrow> valid_system_image (si_bytes img) img"
  by (rule package_valid_or_error)

end
