(* ===== verification/Image_Boot.thy ===== *)
theory Image_Boot
  imports Image_Format
begin

text \<open>
  The host-side reference of the boot ROM (\<open>boot.rs\<close> of \<open>minemu-image\<close>): the plan of copies that
  a parsed image asks for, and its application through a write callback. Applied to a byte
  memory, the plan of a valid image places every segment's file bytes at its physical address,
  clears the rest of the segment, and writes the hand-off record, and nothing else.
\<close>

section \<open>The plan\<close>

record boot_copy =
  bc_physical_address :: physical_address
  bc_bytes :: "u8 list"
  bc_zeroed_length :: u32

record boot_plan =
  bp_copies :: "boot_copy list"
  bp_boot_info :: "u8 list"
  bp_boot_info_paddr :: physical_address
  bp_bootstrap_entry_paddr :: physical_address
  bp_boot_info_vaddr :: virtual_address
  bp_kernel_entry_vaddr :: virtual_address

fun boot_copies :: "u8 list \<Rightarrow> kernel_segment list \<Rightarrow> ('e image_error + boot_copy list) option" where
  "boot_copies bytes [] = Some (Ok [])"
| "boot_copies bytes (segment # rest) =
     (let start = unat (ks_data_offset segment);
          end = start + unat (ks_file_size segment) in
      prog_then (slice_or_panic bytes start end) (\<lambda>data.
      prog_then (boot_copies bytes rest) (\<lambda>copies.
      Some (Ok (\<lparr>bc_physical_address = ks_physical_address segment, bc_bytes = data,
          bc_zeroed_length = ks_memory_size segment - ks_file_size segment\<rparr> # copies)))))"

definition system_image_boot_plan :: "system_image \<Rightarrow> ('e image_error + boot_plan) option" where
  "system_image_boot_plan img =
     prog_then (boot_copies (si_bytes img) (si_kernel_segments img)) (\<lambda>copies.
     prog_then (Some (map_err PlatformErr (boot_info_encode
         \<lparr>bi_system_rom_base = mem_base SystemRom,
          bi_image_size = ih_image_size (si_header img),
          bi_module_table_offset = ih_module_table_offset (si_header img),
          bi_module_count = ih_module_count (si_header img)\<rparr>))) (\<lambda>boot_info.
     Some (Ok \<lparr>bp_copies = copies,
         bp_boot_info = boot_info,
         bp_boot_info_paddr = ih_boot_info_paddr (si_header img),
         bp_bootstrap_entry_paddr = ih_bootstrap_entry_paddr (si_header img),
         bp_boot_info_vaddr = VirtualAddress BOOT_INFO_VADDR,
         bp_kernel_entry_vaddr = ih_kernel_entry_vaddr (si_header img)\<rparr>)))"

section \<open>Applying the plan\<close>

text \<open>
  The callback may fail and keeps state of its own, so it takes and returns a state beside its
  result; a failing write ends the application with the state it left.
\<close>

type_synonym ('s, 'err) writer = "physical_address \<Rightarrow> u8 list \<Rightarrow> 's \<Rightarrow> ('err + unit) \<times> 's"

fun write_then :: "('err + unit) \<times> 's \<Rightarrow> ('s \<Rightarrow> ('err + unit) \<times> 's) \<Rightarrow> ('err + unit) \<times> 's" where
  "write_then (Inl e, s) f = (Inl e, s)"
| "write_then (Inr u, s) f = f s"

text \<open>The clearing loop writes whole pages of zeros and then what remains.\<close>

function zero_fill :: "('s, 'err) writer \<Rightarrow> u32 \<Rightarrow> usize \<Rightarrow> 's \<Rightarrow> ('err + unit) \<times> 's" where
  "zero_fill write address remaining s =
     (if remaining = 0 then (Ok (), s)
      else let count = min remaining 4096 in
        write_then (write (PhysicalAddress address) (replicate count 0) s)
          (zero_fill write (address + of_nat count) (remaining - count)))"
  by pat_completeness auto
termination
  by (relation "measure (\<lambda>(_, _, remaining, _). remaining)") auto

declare zero_fill.simps [simp del]

fun apply_copies :: "('s, 'err) writer \<Rightarrow> boot_copy list \<Rightarrow> 's \<Rightarrow> ('err + unit) \<times> 's" where
  "apply_copies write [] s = (Ok (), s)"
| "apply_copies write (c # rest) s =
     write_then (write (bc_physical_address c) (bc_bytes c) s) (\<lambda>s.
     write_then (zero_fill write (pa_get (bc_physical_address c) + of_nat (length (bc_bytes c)))
        (unat (bc_zeroed_length c)) s) (\<lambda>s.
     apply_copies write rest s))"

definition boot_plan_apply :: "('s, 'err) writer \<Rightarrow> boot_plan \<Rightarrow> 's \<Rightarrow> ('err + unit) \<times> 's" where
  "boot_plan_apply write plan s =
     write_then (apply_copies write (bp_copies plan) s)
       (write (bp_boot_info_paddr plan) (bp_boot_info plan))"

section \<open>Which images have a plan\<close>

lemma boot_copies_None:
  "boot_copies bytes ks = None \<longleftrightarrow>
     list_ex (\<lambda>k. length bytes < unat (ks_data_offset k) + unat (ks_file_size k)) ks"
proof (induction ks)
  case (Cons k ks)
  then show ?case
    by (cases "boot_copies bytes ks :: ('a image_error + _) option")
      (auto simp: Let_def prog_then_None slice_or_panic_None slice_or_panic_def slice_get_def
        split: if_splits)
qed simp

definition copy_of :: "u8 list \<Rightarrow> kernel_segment \<Rightarrow> boot_copy" where
  "copy_of bytes k =
     \<lparr>bc_physical_address = ks_physical_address k,
      bc_bytes = take (unat (ks_file_size k)) (drop (unat (ks_data_offset k)) bytes),
      bc_zeroed_length = ks_memory_size k - ks_file_size k\<rparr>"

lemma boot_copies_Ok:
  "boot_copies bytes ks = Some (Ok cs) \<longleftrightarrow>
     list_all (\<lambda>k. unat (ks_data_offset k) + unat (ks_file_size k) \<le> length bytes) ks
     \<and> cs = map (copy_of bytes) ks"
  by (induction ks arbitrary: cs)
    (auto simp: Let_def prog_then_Ok slice_or_panic_Ok copy_of_def)

lemma boot_copies_not_Err: "(boot_copies bytes ks :: ('e image_error + _) option) \<noteq> Some (Err e)"
proof -
  have "(boot_copies bytes ks :: ('e image_error + _) option) = None
      \<or> (\<exists>cs. (boot_copies bytes ks :: ('e image_error + _) option) = Some (Ok cs))"
    by (induction ks) (auto simp: Let_def prog_then_None slice_or_panic_def slice_get_def)
  then show ?thesis by auto
qed

lemma boot_plan_record_encodes:
  assumes "image_header_validate h = Ok ()"
  shows "\<exists>raw. boot_info_encode \<lparr>bi_system_rom_base = mem_base SystemRom,
      bi_image_size = ih_image_size h, bi_module_table_offset = mt, bi_module_count = mc\<rparr> = Ok raw"
proof -
  have "ih_image_size h \<le> mem_size SystemRom"
    using assms by (auto simp: image_header_validate_def not_less split: if_splits)
  then show ?thesis by (simp add: boot_info_encode_Ok)
qed

lemma valid_image_header:
  "valid_system_image bytes img \<Longrightarrow> image_header_validate (si_header img) = Ok ()"
  by (auto simp: valid_system_image_def Let_def image_header_decode_Ok)

lemma valid_image_payload_inside:
  assumes "valid_system_image bytes img" and "k \<in> set (si_kernel_segments img)"
    and "ks_file_size k \<noteq> 0"
  shows "unat (ks_data_offset k) + unat (ks_file_size k) \<le> length bytes"
proof -
  have "span_at (ks_data_offset k) (unat (ks_file_size k)) \<in> set (occupied_spans img)"
    using assms(2,3) by (auto simp: occupied_spans_def kernel_payloads_def)
  moreover have "list_all (\<lambda>s. sp_end s \<le> length bytes) (occupied_spans img)"
    using assms(1) unfolding valid_system_image_def Let_def image_map_ok_def by blast
  ultimately show ?thesis by (auto simp: list_all_iff span_at_def)
qed

text \<open>C39.
  When the boot plan of an accepted image panics. The slice of a segment with file bytes is
  always inside the image; the parser puts no bound on the data offset of a segment without file
  bytes, and the plan still slices the image there. So the plan exists exactly when no empty
  segment points past the end of the image, and otherwise the slice index panics.
\<close>

theorem boot_plan_panics_iff:
  assumes "valid_system_image bytes img"
  shows "((system_image_boot_plan img :: ('e image_error + boot_plan) option) = None \<longleftrightarrow>
       list_ex (\<lambda>k. ks_file_size k = 0 \<and> length bytes < unat (ks_data_offset k))
         (si_kernel_segments img))
     \<and> (system_image_boot_plan img :: ('e image_error + boot_plan) option) \<noteq> Some (Err e)"
proof -
  have b: "si_bytes img = bytes" using assms by (simp add: valid_system_image_def Let_def)
  have e: "list_ex (\<lambda>k. length bytes < unat (ks_data_offset k) + unat (ks_file_size k))
        (si_kernel_segments img) \<longleftrightarrow>
      list_ex (\<lambda>k. ks_file_size k = 0 \<and> length bytes < unat (ks_data_offset k)) (si_kernel_segments img)"
    using valid_image_payload_inside [OF assms] by (fastforce simp: list_ex_iff)
  obtain raw where raw: "boot_info_encode \<lparr>bi_system_rom_base = mem_base SystemRom,
      bi_image_size = ih_image_size (si_header img),
      bi_module_table_offset = ih_module_table_offset (si_header img),
      bi_module_count = ih_module_count (si_header img)\<rparr> = Ok raw"
    using boot_plan_record_encodes [OF valid_image_header [OF assms]] by blast
  have "(system_image_boot_plan img :: ('e image_error + boot_plan) option) = None \<longleftrightarrow>
      list_ex (\<lambda>k. ks_file_size k = 0 \<and> length bytes < unat (ks_data_offset k)) (si_kernel_segments img)"
    by (simp add: system_image_boot_plan_def prog_then_None b raw boot_copies_None e)
  moreover have "(system_image_boot_plan img :: ('e image_error + boot_plan) option) \<noteq> Some (Err e)"
  proof (cases "boot_copies bytes (si_kernel_segments img) :: ('e image_error + _) option")
    case (Some r)
    then show ?thesis
      by (cases r) (simp_all add: system_image_boot_plan_def b raw boot_copies_not_Err)
  qed (simp add: system_image_boot_plan_def b)
  ultimately show ?thesis by simp
qed

section \<open>A sample image\<close>

text \<open>A header, a table of kernel segments and four file bytes; there are no modules.\<close>

definition sample_text_segment :: "u32 \<Rightarrow> kernel_segment" where
  "sample_text_segment offset = \<lparr>ks_data_offset = offset, ks_physical_address = PhysicalAddress 0x40008000,
     ks_virtual_address = VirtualAddress 0xc0008000, ks_file_size = 4, ks_memory_size = 16,
     ks_flags = 5\<rparr>"

definition sample_bss_segment :: "u32 \<Rightarrow> kernel_segment" where
  "sample_bss_segment offset = \<lparr>ks_data_offset = offset, ks_physical_address = PhysicalAddress 0x40009000,
     ks_virtual_address = VirtualAddress 0xc0009000, ks_file_size = 0, ks_memory_size = 4096,
     ks_flags = 3\<rparr>"

definition sample_header :: image_header where
  "sample_header = \<lparr>ih_image_size = 132, ih_kernel_segment_table_offset = 64,
     ih_kernel_segment_count = 2, ih_module_table_offset = 128, ih_module_count = 0,
     ih_bootstrap_entry_paddr = PhysicalAddress 0x40008000,
     ih_kernel_entry_vaddr = VirtualAddress 0xc0008000,
     ih_boot_info_paddr = PhysicalAddress 0x40007000\<rparr>"

definition sample_bytes :: "u32 \<Rightarrow> u8 list" where
  "sample_bytes offset =
     concat (image_header_fields sample_header)
     @ concat (kernel_segment_fields (sample_text_segment 128))
     @ concat (kernel_segment_fields (sample_bss_segment offset)) @ [0xfe, 0xff, 0xff, 0xea]"

definition sample_image :: "u32 \<Rightarrow> system_image" where
  "sample_image offset = \<lparr>si_bytes = sample_bytes offset, si_header = sample_header,
     si_kernel_segments = [sample_text_segment 128, sample_bss_segment offset], si_modules = []\<rparr>"

lemma sample_segments_valid:
  "kernel_segment_validate (sample_text_segment offset) = Ok ()"
  "kernel_segment_validate (sample_bss_segment offset) = Ok ()"
  by (simp_all add: kernel_segment_validate_Ok sample_text_segment_def sample_bss_segment_def
      direct_map_physical_Ok word_nat)

lemma sample_header_valid: "image_header_validate sample_header = Ok ()"
  by (simp add: image_header_validate_def sample_header_def mmap_consts image_consts
      word_nat mem_layout direct_map_physical_def validate_table_def)

lemma sample_image_valid: "valid_system_image (sample_bytes offset) (sample_image offset)"
proof -
  let ?h = "concat (image_header_fields sample_header)"
  let ?t = "concat (kernel_segment_fields (sample_text_segment 128))"
  let ?b = "concat (kernel_segment_fields (sample_bss_segment offset))"
  have len: "length ?h = 64" "length ?t = 32" "length ?b = 32"
    by (rule length_image_header_fields length_kernel_segment_fields)+
  have h: "image_header_decode (sample_bytes offset) = Ok sample_header"
    unfolding image_header_decode_Ok sample_bytes_def by (simp add: sample_header_valid len del: length_concat)
  have t: "table_holds kernel_segment_decode (sample_bytes offset) 64
      [sample_text_segment 128, sample_bss_segment offset]"
    by (simp add: kernel_segment_decode_Ok sample_bytes_def sample_segments_valid len del: length_concat)
  have k: "kernel_layout [sample_text_segment 128, sample_bss_segment offset] (VirtualAddress 0xc0008000)"
    by (simp add: kernel_layout_def span_def sample_text_segment_def sample_bss_segment_def EXECUTABLE_def)
  have m: "image_map_ok 132 (occupied_spans (sample_image offset))"
    by (simp add: image_map_ok_def occupied_spans_def sample_image_def sample_header_def span_at_def
        kernel_payloads_def sample_text_segment_def sample_bss_segment_def span_overlaps_def)
  have "length (sample_bytes offset) = 132"
    by (simp add: sample_bytes_def len del: length_concat)
  with h t k m show ?thesis
    by (simp add: valid_system_image_def Let_def sample_image_def sample_header_def)
qed

theorem boot_plan_panics_iff_witness:
  "(system_image_parse (sample_bytes 0xffffffff) :: (unit image_error + system_image) option) =
     Some (Ok (sample_image 0xffffffff))
   \<and> (system_image_boot_plan (sample_image 0xffffffff) :: (unit image_error + boot_plan) option) = None
   \<and> (system_image_boot_plan (sample_image 0) :: (unit image_error + boot_plan) option) \<noteq> None"
proof -
  have len: "length (sample_bytes offset) = 132" for offset
    by (simp add: sample_bytes_def image_header_fields_def kernel_segment_fields_def)
  let ?P = "\<lambda>n k. ks_file_size k = 0 \<and> n < unat (ks_data_offset k)"
  have bad: "list_ex (?P (length (sample_bytes 0xffffffff))) (si_kernel_segments (sample_image 0xffffffff))"
    and good: "\<not> list_ex (?P (length (sample_bytes 0))) (si_kernel_segments (sample_image 0))"
    unfolding len by (simp_all add: sample_image_def sample_text_segment_def sample_bss_segment_def)
  show ?thesis
    using boot_plan_panics_iff [where 'e = unit, OF sample_image_valid [of "0xffffffff"]] bad
      boot_plan_panics_iff [where 'e = unit, OF sample_image_valid [of 0]] good
    by (simp only: system_image_parse_Ok sample_image_valid simp_thms)
qed

section \<open>The plan loads the image\<close>

text \<open>A byte memory as the target of the writes.\<close>

definition poke :: "(nat \<Rightarrow> u8, 'err) writer" where
  "poke a bs m = (Ok (), \<lambda>i. if unat (pa_get a) \<le> i \<and> i < unat (pa_get a) + length bs
     then bs ! (i - unat (pa_get a)) else m i)"

lemma zero_fill_poke:
  "unat address + remaining \<le> 2 ^ 32 \<Longrightarrow>
   (zero_fill poke address remaining m :: ('err + unit) \<times> (nat \<Rightarrow> u8)) =
     (Ok (), \<lambda>i. if unat address \<le> i \<and> i < unat address + remaining then 0 else m i)"
proof (induction "poke :: (nat \<Rightarrow> u8, 'err) writer" address remaining m rule: zero_fill.induct)
  case (1 address remaining m)
  show ?case
  proof (cases "remaining \<le> 4096")
    case True
    then show ?thesis
      by (subst zero_fill.simps)
        (auto simp: poke_def zero_fill.simps [of _ _ 0] Let_def min_def fun_eq_iff)
  next
    case False
    let ?m = "\<lambda>i. if unat address \<le> i \<and> i < unat address + 4096 then 0 else m i"
    have a: "unat (address + 4096) = unat address + 4096"
      using 1(2) False by (simp add: unat_add_no_wrap)
    have w: "poke (PhysicalAddress address) (replicate 4096 0) m = (Ok () :: 'err + unit, ?m)"
      by (auto simp: poke_def fun_eq_iff)
    have "zero_fill poke (address + 4096) (remaining - 4096) ?m =
        ((Ok (), \<lambda>i. if unat (address + 4096) \<le> i \<and> i < unat (address + 4096) + (remaining - 4096)
           then 0 else ?m i) :: ('err + unit) \<times> _)"
      using 1(1) [of 4096 ?m] 1(2) False a by simp
    then show ?thesis
      using False by (subst zero_fill.simps) (auto simp: Let_def w a fun_eq_iff min_def)
  qed
qed

text \<open>What one segment's copy and clearing do to memory.\<close>

definition load :: "u8 list \<Rightarrow> kernel_segment \<Rightarrow> (nat \<Rightarrow> u8) \<Rightarrow> nat \<Rightarrow> u8" where
  "load bytes k m i =
     (let a = unat (pa_get (ks_physical_address k)) in
      if i \<notin> span (pa_get (ks_physical_address k)) (ks_memory_size k) then m i
      else if i < a + unat (ks_file_size k) then bytes ! (unat (ks_data_offset k) + (i - a))
      else 0)"

lemma copy_of_poke:
  assumes "kernel_segment_validate k = Ok ()"
    and "unat (ks_data_offset k) + unat (ks_file_size k) \<le> length bytes"
  shows "write_then (poke (bc_physical_address (copy_of bytes k)) (bc_bytes (copy_of bytes k)) m)
       (zero_fill poke (pa_get (bc_physical_address (copy_of bytes k))
            + of_nat (length (bc_bytes (copy_of bytes k))))
          (unat (bc_zeroed_length (copy_of bytes k)))) =
     ((Ok () :: 'err + unit), load bytes k m)"
proof -
  note v = assms(1) [unfolded kernel_segment_validate_Ok word_nat]
  let ?a = "pa_get (ks_physical_address k)"
  have len: "length (bc_bytes (copy_of bytes k)) = unat (ks_file_size k)"
    using assms(2) by (simp add: copy_of_def)
  have zeroed: "unat (ks_memory_size k - ks_file_size k) = unat (ks_memory_size k) - unat (ks_file_size k)"
    using v by (simp add: unat_sub_le word_nat)
  have next_addr: "unat (?a + ks_file_size k) = unat ?a + unat (ks_file_size k)"
    using v by (simp add: unat_add_no_wrap)
  have fill: "(zero_fill poke (?a + ks_file_size k) (unat (ks_memory_size k - ks_file_size k)) m'
      :: ('err + unit) \<times> _) =
    (Ok (), \<lambda>i. if unat ?a + unat (ks_file_size k) \<le> i \<and> i < unat ?a + unat (ks_memory_size k)
       then 0 else m' i)" for m'
    using v zero_fill_poke [of "?a + ks_file_size k" "unat (ks_memory_size k - ks_file_size k)" m',
        where 'err = 'err]
    by (simp add: next_addr zeroed)
  show ?thesis
    unfolding len using assms(2) v
    by (auto simp: poke_def copy_of_def fill load_def Let_def span_def fun_eq_iff)
qed

lemma write_then_assoc: "write_then (write_then r f) g = write_then r (\<lambda>s. write_then (f s) g)"
  by (cases "(r, f)" rule: write_then.cases) auto

lemma apply_copies_poke:
  "list_all (\<lambda>k. kernel_segment_validate k = Ok ()
       \<and> unat (ks_data_offset k) + unat (ks_file_size k) \<le> length bytes) ks \<Longrightarrow>
   apply_copies poke (map (copy_of bytes) ks) m = ((Ok () :: 'err + unit), fold (load bytes) ks m)"
proof (induction ks arbitrary: m)
  case (Cons k ks)
  then show ?case
    by (simp add: write_then_assoc [symmetric] copy_of_poke)
qed simp

definition segment_span :: "kernel_segment \<Rightarrow> nat set" where
  "segment_span k = span (pa_get (ks_physical_address k)) (ks_memory_size k)"

lemma fold_load_outside:
  "list_all (\<lambda>k. i \<notin> segment_span k) ks \<Longrightarrow> fold (load bytes) ks m i = m i"
  by (induction ks arbitrary: m) (simp_all add: load_def segment_span_def)

lemma fold_load_inside:
  "sorted_wrt (\<lambda>k l. segment_span k \<inter> segment_span l = {}) ks \<Longrightarrow> k \<in> set ks \<Longrightarrow> i \<in> segment_span k \<Longrightarrow>
     fold (load bytes) ks m i =
       (if i < unat (pa_get (ks_physical_address k)) + unat (ks_file_size k)
        then bytes ! (unat (ks_data_offset k) + (i - unat (pa_get (ks_physical_address k)))) else 0)"
proof (induction ks arbitrary: m)
  case (Cons l ks)
  show ?case
  proof (cases "k \<in> set ks")
    case True
    with Cons show ?thesis by simp
  next
    case False
    with Cons.prems have "k = l" and "list_all (\<lambda>l. i \<notin> segment_span l) ks"
      by (auto simp: list_all_iff)
    with Cons.prems(3) show ?thesis
      by (simp add: fold_load_outside) (simp add: load_def segment_span_def Let_def)
  qed
qed simp

lemma valid_image_segments:
  assumes "valid_system_image bytes img"
  shows "list_all (\<lambda>k. kernel_segment_validate k = Ok ()) (si_kernel_segments img)"
    and "sorted_wrt (\<lambda>k l. segment_span k \<inter> segment_span l = {}) (si_kernel_segments img)"
    and "list_all (\<lambda>k. segment_span k \<inter> {0x40006000 ..< 0x40007040} = {}) (si_kernel_segments img)"
proof -
  from assms have t: "table_holds kernel_segment_decode bytes
      (unat (ih_kernel_segment_table_offset (si_header img))) (si_kernel_segments img)"
    and l: "kernel_layout (si_kernel_segments img) (ih_kernel_entry_vaddr (si_header img))"
    unfolding valid_system_image_def Let_def by blast+
  show "list_all (\<lambda>k. kernel_segment_validate k = Ok ()) (si_kernel_segments img)"
    by (rule table_holds_kernel_valid [OF t])
  show "sorted_wrt (\<lambda>k l. segment_span k \<inter> segment_span l = {}) (si_kernel_segments img)"
    by (rule sorted_wrt_mono_rel [OF _ l [unfolded kernel_layout_def, THEN conjunct2, THEN conjunct2,
        THEN conjunct2, THEN conjunct2]]) (simp add: segment_span_def)
  from l show "list_all (\<lambda>k. segment_span k \<inter> {0x40006000 ..< 0x40007040} = {}) (si_kernel_segments img)"
    by (simp add: kernel_layout_def segment_span_def)
qed

lemma boot_plan_Ok:
  assumes "valid_system_image bytes img"
    and "(system_image_boot_plan img :: ('e image_error + boot_plan) option) = Some (Ok plan)"
  shows "bp_copies plan = map (copy_of bytes) (si_kernel_segments img)"
    and "list_all (\<lambda>k. unat (ks_data_offset k) + unat (ks_file_size k) \<le> length bytes)
       (si_kernel_segments img)"
    and "bp_boot_info_paddr plan = PhysicalAddress 0x40007000"
    and "boot_info_encode \<lparr>bi_system_rom_base = mem_base SystemRom,
          bi_image_size = ih_image_size (si_header img),
          bi_module_table_offset = ih_module_table_offset (si_header img),
          bi_module_count = ih_module_count (si_header img)\<rparr> = Ok (bp_boot_info plan)"
proof -
  have b: "si_bytes img = bytes" using assms(1) by (simp add: valid_system_image_def Let_def)
  note p = assms(2) [unfolded system_image_boot_plan_def b]
  from p show "bp_copies plan = map (copy_of bytes) (si_kernel_segments img)"
    and "list_all (\<lambda>k. unat (ks_data_offset k) + unat (ks_file_size k) \<le> length bytes)
       (si_kernel_segments img)"
    and "boot_info_encode \<lparr>bi_system_rom_base = mem_base SystemRom,
          bi_image_size = ih_image_size (si_header img),
          bi_module_table_offset = ih_module_table_offset (si_header img),
          bi_module_count = ih_module_count (si_header img)\<rparr> = Ok (bp_boot_info plan)"
    by (auto simp: prog_then_Ok boot_copies_Ok map_err_Ok)
  from p have "bp_boot_info_paddr plan = ih_boot_info_paddr (si_header img)"
    by (auto simp: prog_then_Ok)
  moreover have "pa_get (ih_boot_info_paddr (si_header img)) = 0x40007000"
    using valid_image_header [OF assms(1)]
    by (auto simp: image_header_validate_def mmap_consts split: if_splits)
  ultimately show "bp_boot_info_paddr plan = PhysicalAddress 0x40007000"
    by (metis physical_address.collapse)
qed

lemma map_window:
  assumes "length xs = n" and "b = a + n"
  shows "map (\<lambda>i. if a \<le> i \<and> i < b then xs ! (i - a) else f i) [a ..< b] = xs"
  using assms by (auto intro: nth_equalityI)

lemma boot_plan_exists:
  assumes "valid_system_image bytes img"
    and "list_all (\<lambda>k. unat (ks_data_offset k) + unat (ks_file_size k) \<le> length bytes)
       (si_kernel_segments img)"
  shows "\<exists>plan. (system_image_boot_plan img :: ('e image_error + boot_plan) option) = Some (Ok plan)"
proof -
  have b: "si_bytes img = bytes" using assms(1) by (simp add: valid_system_image_def Let_def)
  show ?thesis
    using boot_plan_record_encodes [OF valid_image_header [OF assms(1)]] assms(2)
    by (auto simp: system_image_boot_plan_def prog_then_Ok boot_copies_Ok b map_err_Ok)
qed

text \<open>C15.
  Applying the boot plan loads the image. Over a byte memory, every kernel segment ends up with
  its file bytes at its physical address and zeros up to its memory size, whatever the order of
  the segments and however the clearing was split into pages; the boot-info page decodes to the
  record that describes the image; and no other byte of memory has changed.
\<close>

theorem boot_plan_loads_image:
  assumes "valid_system_image bytes img"
    and "(system_image_boot_plan img :: ('e image_error + boot_plan) option) = Some (Ok plan)"
  shows "\<exists>m'. boot_plan_apply poke plan m = ((Ok () :: 'err + unit), m')
     \<and> list_all (\<lambda>k. \<forall>i < unat (ks_memory_size k).
           m' (unat (pa_get (ks_physical_address k)) + i) =
             (if i < unat (ks_file_size k) then bytes ! (unat (ks_data_offset k) + i) else 0))
         (si_kernel_segments img)
     \<and> boot_info_decode (map m' [0x40007000 ..< 0x40007040]) =
         Ok \<lparr>bi_system_rom_base = mem_base SystemRom,
             bi_image_size = ih_image_size (si_header img),
             bi_module_table_offset = ih_module_table_offset (si_header img),
             bi_module_count = ih_module_count (si_header img)\<rparr>
     \<and> (\<forall>i. i \<notin> {0x40007000 ..< 0x40007040}
           \<and> list_all (\<lambda>k. i \<notin> segment_span k) (si_kernel_segments img) \<longrightarrow> m' i = m i)"
proof -
  note plan = boot_plan_Ok [OF assms] and segs = valid_image_segments [OF assms(1)]
  let ?ks = "si_kernel_segments img"
  let ?m1 = "fold (load bytes) ?ks m"
  let ?m2 = "\<lambda>i. if 0x40007000 \<le> i \<and> i < 0x40007040 then bp_boot_info plan ! (i - 0x40007000) else ?m1 i"
  have raw: "length (bp_boot_info plan) = 64"
    using plan(4) length_boot_info_fields by (auto simp: boot_info_encode_Ok simp del: length_concat)
  have app: "boot_plan_apply poke plan m = ((Ok () :: 'err + unit), ?m2)"
    using apply_copies_poke [of bytes ?ks m, where 'err = 'err] segs(1) plan(2)
    by (simp add: boot_plan_apply_def plan(1,3) list_all_iff poke_def raw fun_eq_iff)
  have inside: "?m2 (unat (pa_get (ks_physical_address k)) + i) =
      (if i < unat (ks_file_size k) then bytes ! (unat (ks_data_offset k) + i) else 0)"
    if "k \<in> set ?ks" "i < unat (ks_memory_size k)" for k i
  proof -
    let ?i = "unat (pa_get (ks_physical_address k)) + i"
    have i: "?i \<in> segment_span k" using that(2) by (simp add: segment_span_def span_def)
    with segs(3) that(1) have "\<not> (0x40007000 \<le> ?i \<and> ?i < 0x40007040)"
      by (fastforce simp: list_all_iff)
    with fold_load_inside [OF segs(2) that(1) i, of bytes m] show ?thesis by auto
  qed
  have "map ?m2 [0x40007000 ..< 0x40007040] = bp_boot_info plan"
    by (rule map_window [OF raw]) simp
  moreover have "boot_info_decode (bp_boot_info plan) = Ok \<lparr>bi_system_rom_base = mem_base SystemRom,
             bi_image_size = ih_image_size (si_header img),
             bi_module_table_offset = ih_module_table_offset (si_header img),
             bi_module_count = ih_module_count (si_header img)\<rparr>"
    using plan(4) raw by (simp add: boot_info_encode_Ok boot_info_decode_Ok del: length_concat)
  moreover have "?m2 i = m i"
    if "i \<notin> {0x40007000 ..< 0x40007040}" "list_all (\<lambda>k. i \<notin> segment_span k) ?ks" for i
    using that by (auto simp: fold_load_outside)
  ultimately show ?thesis
    using app inside by (intro exI [where x = ?m2]) (simp add: list_all_iff)
qed

theorem boot_plan_loads_image_witness:
  "\<exists>plan m'. (system_image_boot_plan (sample_image 0) :: (unit image_error + boot_plan) option)
       = Some (Ok plan)
     \<and> boot_plan_apply poke plan (\<lambda>_. 7) = ((Ok () :: unit + unit), m')
     \<and> m' 0x40008003 = 0xea \<and> m' 0x40008004 = 0 \<and> m' 0x40009fff = 0 \<and> m' 0x4000a000 = 7"
proof -
  have len: "length (sample_bytes 0) = 132"
    by (simp add: sample_bytes_def image_header_fields_def kernel_segment_fields_def)
  have last: "sample_bytes 0 ! 131 = 0xea"
    by (simp add: sample_bytes_def nth_append image_header_fields_def kernel_segment_fields_def)
  obtain plan where plan: "(system_image_boot_plan (sample_image 0) :: (unit image_error + boot_plan) option)
      = Some (Ok plan)"
    using boot_plan_exists [OF sample_image_valid [of 0]] len
    by (force simp: sample_image_def sample_text_segment_def sample_bss_segment_def)
  obtain m' where m': "boot_plan_apply poke plan (\<lambda>_. 7) = ((Ok () :: unit + unit), m')"
    and load: "list_all (\<lambda>k. \<forall>i < unat (ks_memory_size k).
           m' (unat (pa_get (ks_physical_address k)) + i) =
             (if i < unat (ks_file_size k) then sample_bytes 0 ! (unat (ks_data_offset k) + i) else 0))
         (si_kernel_segments (sample_image 0))"
    and frame: "\<forall>i. i \<notin> {0x40007000 ..< 0x40007040}
           \<and> list_all (\<lambda>k. i \<notin> segment_span k) (si_kernel_segments (sample_image 0)) \<longrightarrow> m' i = 7"
    using boot_plan_loads_image [OF sample_image_valid plan, where 'err = unit and m = "\<lambda>_. 7"] by blast
  have t: "m' (0x40008000 + i) = (if i < 4 then sample_bytes 0 ! (128 + i) else 0)" if "i < 16" for i
    using load that by (simp add: sample_image_def sample_text_segment_def)
  have b: "m' (0x40009000 + i) = 0" if "i < 4096" for i
    using load that by (simp add: sample_image_def sample_bss_segment_def)
  have "m' 0x4000a000 = 7"
    using frame by (simp add: sample_image_def sample_bss_segment_def sample_text_segment_def
        segment_span_def span_def)
  with t [of 3] t [of 4] b [of 4095] plan m' last show ?thesis by auto
qed

end
