(* ===== verification/Unicorn_Arm.thy ===== *)
theory Unicorn_Arm
  imports Core_Mmu
begin

text \<open>
  The A32 instruction patterns that the Unicorn adapter intercepts (\<open>arm.rs\<close> of
  \<open>minemu-unicorn\<close>): breakpoints, coprocessor 15 transfers, condition codes, and the decision
  what a CP15 transfer does. Unicorn itself is third-party code: what the adapter calls of its
  register file is a pair of functions on an abstract engine state.
\<close>

section \<open>Registers\<close>

datatype arm_register =
    R0 | R1 | R2 | R3 | R4 | R5 | R6 | R7 | R8 | R9 | R10 | R11 | R12
  | SP | LR | PC | CPSR | SPSR

definition register_of_index :: "u32 \<Rightarrow> arm_register option" where
  "register_of_index index =
     (if index = 0 then Some R0 else if index = 1 then Some R1
      else if index = 2 then Some R2 else if index = 3 then Some R3
      else if index = 4 then Some R4 else if index = 5 then Some R5
      else if index = 6 then Some R6 else if index = 7 then Some R7
      else if index = 8 then Some R8 else if index = 9 then Some R9
      else if index = 10 then Some R10 else if index = 11 then Some R11
      else if index = 12 then Some R12 else if index = 13 then Some SP
      else if index = 14 then Some LR else if index = 15 then Some PC
      else None)"

section \<open>Breakpoints\<close>

record decoded_breakpoint =
  db_condition :: u32
  db_immediate :: u16

definition decode_breakpoint :: "u32 \<Rightarrow> decoded_breakpoint option" where
  "decode_breakpoint instruction =
     (if instruction AND 0x0ff000f0 \<noteq> 0x01200070 then None
      else let condition = drop_bit 28 instruction in
        if condition = 0x0f then None
        else Some \<lparr>db_condition = condition,
            db_immediate = ucast ((drop_bit 4 instruction AND 0xfff0) OR (instruction AND 0x0f))\<rparr>)"

text \<open>The encoding of \<open>BKPT\<close> in the A32 instruction set.\<close>

definition encode_breakpoint :: "u32 \<Rightarrow> u16 \<Rightarrow> u32" where
  "encode_breakpoint condition immediate =
     push_bit 28 condition OR 0x01200070
     OR push_bit 4 (ucast immediate AND 0xfff0) OR (ucast immediate AND 0x0f)"

section \<open>Conditions and privilege\<close>

definition condition_holds :: "u32 \<Rightarrow> u32 \<Rightarrow> bool" where
  "condition_holds condition cpsr =
     (let negative = cpsr AND push_bit 31 1 \<noteq> 0;
          zero = cpsr AND push_bit 30 1 \<noteq> 0;
          carry = cpsr AND push_bit 29 1 \<noteq> 0;
          overflow = cpsr AND push_bit 28 1 \<noteq> 0 in
      if condition = 0 then zero
      else if condition = 1 then \<not> zero
      else if condition = 2 then carry
      else if condition = 3 then \<not> carry
      else if condition = 4 then negative
      else if condition = 5 then \<not> negative
      else if condition = 6 then overflow
      else if condition = 7 then \<not> overflow
      else if condition = 8 then carry \<and> \<not> zero
      else if condition = 9 then \<not> carry \<or> zero
      else if condition = 10 then negative = overflow
      else if condition = 11 then negative \<noteq> overflow
      else if condition = 12 then \<not> zero \<and> negative = overflow
      else if condition = 13 then zero \<or> negative \<noteq> overflow
      else if condition = 14 then True
      else False)"

definition cp15_is_privileged :: "u32 \<Rightarrow> bool" where
  "cp15_is_privileged cpsr \<longleftrightarrow>
     (let mode = cpsr AND 0x1f in mode = 0x13 \<or> mode = 0x12 \<or> mode = 0x17 \<or> mode = 0x1b)"

text \<open>The memory types of Unicorn that the adapter distinguishes; every other one is \<open>MemOther\<close>.\<close>

datatype mem_type = MemFetch | MemRead | MemWrite | MemOther

fun mmu_access :: "mem_type \<Rightarrow> access option" where
  "mmu_access MemFetch = Some Fetch"
| "mmu_access MemRead = Some Read"
| "mmu_access MemWrite = Some Write"
| "mmu_access MemOther = None"

section \<open>Coprocessor 15\<close>

record decoded_cp15 =
  cp_condition :: u32
  cp_read :: bool
  cp_rt :: arm_register
  cp_crn :: u32
  cp_crm :: u32
  cp_opc1 :: u32
  cp_opc2 :: u32

definition decode_cp15 :: "u32 \<Rightarrow> decoded_cp15 option" where
  "decode_cp15 instruction =
     (if instruction AND 0x0f000010 \<noteq> 0x0e000010 \<or> drop_bit 8 instruction AND 0x0f \<noteq> 15 then None
      else map_option (\<lambda>rt. \<lparr>cp_condition = drop_bit 28 instruction,
          cp_read = (instruction AND push_bit 20 1 \<noteq> 0),
          cp_rt = rt,
          cp_crn = drop_bit 16 instruction AND 0x0f,
          cp_crm = instruction AND 0x0f,
          cp_opc1 = drop_bit 21 instruction AND 0x07,
          cp_opc2 = drop_bit 5 instruction AND 0x07\<rparr>)
        (register_of_index (drop_bit 12 instruction AND 0x0f)))"

datatype pending_cp15 =
    CpOperation cp15_operation
  | CpReadFaultStatus arm_register
  | CpReadFaultAddress arm_register
  | CpUndefined u32

text \<open>
  \<open>read\<close> is the engine's \<open>reg_read\<close> at the current state: a 64-bit value that the code truncates,
  or an error.
\<close>

definition cp15_pending :: "(arm_register \<Rightarrow> 'x + u64) \<Rightarrow> decoded_cp15 \<Rightarrow> u32 \<Rightarrow> pending_cp15 option" where
  "cp15_pending read cp15 pc =
     (let key = (cp_read cp15, cp_crn cp15, cp_crm cp15, cp_opc1 cp15, cp_opc2 cp15) in
      if key = (False, 2, 0, 0, 0) then
        (case read (cp_rt cp15) of
           Inr value \<Rightarrow> Some (case cp15_set_ttbr0 (ucast value) of
               Inr operation \<Rightarrow> CpOperation operation | Inl _ \<Rightarrow> CpUndefined pc)
         | Inl _ \<Rightarrow> Some (CpUndefined pc))
      else if key = (False, 1, 0, 0, 0) then
        (case ok (read (cp_rt cp15)) of
           None \<Rightarrow> Some (CpUndefined pc)
         | Some value \<Rightarrow> Some (CpOperation (cp15_set_mmu_enabled (ucast value))))
      else if key = (False, 8, 7, 0, 0) then Some (CpOperation InvalidateAll)
      else if key = (False, 12, 0, 0, 0) then
        (case read (cp_rt cp15) of
           Inr value \<Rightarrow> Some (case cp15_set_vector_base (ucast value) of
               Inr operation \<Rightarrow> CpOperation operation | Inl _ \<Rightarrow> CpUndefined pc)
         | Inl _ \<Rightarrow> Some (CpUndefined pc))
      else if key = (True, 5, 0, 0, 0) then Some (CpReadFaultStatus (cp_rt cp15))
      else if key = (True, 6, 0, 0, 0) then Some (CpReadFaultAddress (cp_rt cp15))
      else Some (CpUndefined pc))"

section \<open>Properties\<close>

lemma arm_register_of_field: "\<exists>r. register_of_index (drop_bit 12 instruction AND 0x0f) = Some r"
proof -
  have "unat (drop_bit 12 instruction AND 0x0f :: u32) < 16"
  proof -
    have "drop_bit 12 instruction AND 0x0f = take_bit 4 (drop_bit 12 instruction :: u32)"
      by (simp add: take_bit_eq_mask mask_eq_exp_minus_1)
    then show ?thesis by (simp add: unsigned_take_bit_eq take_bit_nat_less_exp [of 4, simplified])
  qed
  moreover have "\<exists>r. register_of_index w = Some r" if "unat w < 16" for w
  proof -
    from that have "w \<in> of_nat ` {..<16}"
      by (intro image_eqI [where x = "unat w"]) simp_all
    then show ?thesis
      by (auto simp: register_of_index_def lessThan_Suc numeral_eq_Suc)
  qed
  ultimately show ?thesis by blast
qed


text \<open>
  The fixed bits of a breakpoint, one by one.
\<close>

lemma breakpoint_bits:
  "instruction AND 0x0ff000f0 = (0x01200070 :: u32) \<longleftrightarrow>
     (\<forall>n < 32. bit (0x0ff000f0 :: u32) n \<longrightarrow> bit instruction n = bit (0x01200070 :: u32) n)"
  (is "?l \<longleftrightarrow> ?r")
proof -
  have sub: "bit (0x0ff000f0 :: u32) n" if "bit (0x01200070 :: u32) n" for n
  proof -
    have "(0x01200070 :: u32) AND 0x0ff000f0 = 0x01200070" by simp
    with that show ?thesis by (metis bit_and_iff)
  qed
  have "?l \<longleftrightarrow> (\<forall>n < 32. bit (instruction AND 0x0ff000f0) n = bit (0x01200070 :: u32) n)"
    by (simp add: bit_eq_iff possible_bit_word) 
  also have "\<dots> \<longleftrightarrow> ?r"
    using sub by (auto simp: bit_and_iff)
  finally show ?thesis .
qed

lemma bit_u32_enum:
  "(\<forall>n < 32. P (n :: nat)) \<longleftrightarrow> P 0 \<and> P 1 \<and> P 2 \<and> P 3 \<and> P 4 \<and> P 5 \<and> P 6 \<and> P 7 \<and> P 8 \<and> P 9
     \<and> P 10 \<and> P 11 \<and> P 12 \<and> P 13 \<and> P 14 \<and> P 15 \<and> P 16 \<and> P 17 \<and> P 18 \<and> P 19 \<and> P 20 \<and> P 21
     \<and> P 22 \<and> P 23 \<and> P 24 \<and> P 25 \<and> P 26 \<and> P 27 \<and> P 28 \<and> P 29 \<and> P 30 \<and> P 31"
  by (simp add: numeral_eq_Suc All_less_Suc2)

lemma breakpoint_fields:
  fixes instruction :: u32
  assumes "instruction AND 0x0ff000f0 = 0x01200070"
  shows "instruction = encode_breakpoint (drop_bit 28 instruction)
    (ucast ((drop_bit 4 instruction AND 0xfff0) OR (instruction AND 0x0f)))"
proof -
  have bits: "\<forall>n < 32. bit (0x0ff000f0 :: u32) n \<longrightarrow> bit instruction n = bit (0x01200070 :: u32) n"
    using assms unfolding breakpoint_bits .
  note bits' = bits [unfolded bit_u32_enum, simplified]
  have "\<forall>n < 32. bit instruction n = bit (encode_breakpoint (drop_bit 28 instruction)
    (ucast ((drop_bit 4 instruction AND 0xfff0) OR (instruction AND 0x0f)))) n"
    unfolding bit_u32_enum encode_breakpoint_def
    by (intro conjI; simp add: bit_simps bits')
  then show ?thesis by (simp add: bit_eq_iff possible_bit_word)
qed

lemma encode_breakpoint_matches:
  "encode_breakpoint condition immediate AND 0x0ff000f0 = 0x01200070"
  unfolding breakpoint_bits bit_u32_enum encode_breakpoint_def
  by (intro conjI impI; simp add: bit_simps)


lemma encode_breakpoint_immediate:
  "ucast ((drop_bit 4 (encode_breakpoint condition immediate) AND 0xfff0)
     OR (encode_breakpoint condition immediate AND 0x0f)) = immediate"
    (is "?l = _")
proof -
  have "\<forall>n < 16. bit ?l n = bit immediate n"
    by (simp add: numeral_eq_Suc All_less_Suc2; simp add: encode_breakpoint_def bit_simps)
  then show ?thesis by (simp add: bit_eq_iff possible_bit_word)
qed

lemma encode_breakpoint_condition:
  assumes "unat condition < 16"
  shows "drop_bit 28 (encode_breakpoint condition immediate) = condition"
proof -
  have "condition = take_bit 4 condition"
    using assms by (simp add: word_unat_eq_iff unsigned_take_bit_eq take_bit_nat_eq_self)
  then have high: "\<not> bit condition n" if "4 \<le> n" for n
    using that by (metis bit_take_bit_iff leD)
  have "\<forall>n < 32. bit (drop_bit 28 (encode_breakpoint condition immediate)) n = bit condition n"
    unfolding bit_u32_enum
    by (intro conjI; simp add: encode_breakpoint_def bit_simps high)
  then show ?thesis by (simp add: bit_eq_iff possible_bit_word)
qed

lemma unat_condition_field: "unat (drop_bit 28 (instruction :: u32)) < 16"
  using unat_u32_lt [of instruction] unfolding unat_drop_bit_div by simp

text \<open>
  The adapter recognises exactly the architecture's breakpoints and reads their fields back: an
  instruction word decodes to a condition and an immediate if and only if it is the encoding of
  \<open>BKPT\<close> with that immediate under that condition, the condition being one of the fifteen
  conditional ones.
\<close>

theorem decode_breakpoint_exact:
  "decode_breakpoint instruction = Some b \<longleftrightarrow>
     unat (db_condition b) < 15 \<and> instruction = encode_breakpoint (db_condition b) (db_immediate b)"
    (is "?l \<longleftrightarrow> ?r")
proof
  assume l: ?l
  then have match: "instruction AND 0x0ff000f0 = 0x01200070"
    and c: "drop_bit 28 instruction \<noteq> 0x0f"
    and b: "b = \<lparr>db_condition = drop_bit 28 instruction,
      db_immediate = ucast ((drop_bit 4 instruction AND 0xfff0) OR (instruction AND 0x0f))\<rparr>"
    by (auto simp: decode_breakpoint_def Let_def split: if_splits)
  from c have "unat (drop_bit 28 instruction) \<noteq> 15"
    by (simp add: word_unat_eq_iff)
  then have "unat (drop_bit 28 instruction) < 15"
    using unat_condition_field [of instruction] by simp
  then show ?r using breakpoint_fields [OF match] by (simp add: b)
next
  assume r: ?r
  then have "unat (db_condition b) < 16" by simp
  note c = encode_breakpoint_condition [OF this, of "db_immediate b"]
  have "db_condition b \<noteq> 0x0f" using r by auto
  then show ?l
    unfolding decode_breakpoint_def conjunct2 [OF r] c encode_breakpoint_matches
    by (simp add: encode_breakpoint_immediate)
qed

lemma condition_holds_complement:
  assumes "unat condition < 14"
  shows "condition_holds (condition XOR 1) cpsr \<longleftrightarrow> \<not> condition_holds condition cpsr"
proof -
  from assms have "condition \<in> of_nat ` {..<14}"
    by (intro image_eqI [where x = "unat condition"]) simp_all
  then have "condition \<in> {0, 1, 2, 3, 4, 5, 6, 7, 8, 9, 10, 11, 12, 13}"
    by (auto simp: lessThan_Suc numeral_eq_Suc)
  then show ?thesis
    by (elim insertE; simp add: condition_holds_def Let_def) auto
qed

end
