(* ===== verification/Unicorn_Engine.thy ===== *)
theory Unicorn_Engine
  imports Unicorn_Arm Core_Machine
begin

text \<open>
  The boundary between the Unicorn adapter and Unicorn (\<open>backend.rs\<close> of \<open>minemu-unicorn\<close>): the
  data that the adapter hangs on the engine, the callbacks it registers, and what it relies on of
  the engine. Unicorn is third-party code, so its operations are the record \<open>engine\<close> of functions
  over an abstract state \<open>'g\<close>, a parameter of every definition that calls it; the facts of its
  documentation that the properties need are the predicates of the last section.
\<close>

section \<open>Stops and errors\<close>

text \<open>The codes of the engine; the adapter itself names only \<open>ARG\<close>.\<close>

datatype uc_error = UcArg | UcOther nat

datatype prot = ProtRead | ProtWrite | ProtExec | ProtReadExec | ProtAll

text \<open>What the text of an MMIO fault says.\<close>

datatype mmio_detail =
    UnsupportedReadWidth usize
  | UnsupportedWriteWidth usize
  | BusFault core_error

datatype backend_stop =
    StopInstructionBudget
  | StopBreakpoint u32 u16
  | StopMmioFault u32 access mmio_detail
  | StopMmuFault mmu_fault
  | StopCp15Boundary
  | StopException exception_kind
  | StopUnicorn uc_error

datatype backend_error =
    BackendCore core_error
  | BackendUnicorn uc_error
  | InspectionRange
  | EmptySearchPattern
  | SearchPatternTooLarge usize usize
  | VirtualInspectionDevice u32

datatype pending_exception =
    PendSynchronous exception_kind u32
  | PendFault mmu_fault

section \<open>State\<close>

record backend_data =
  bd_machine :: machine
  bd_executed :: u64
  bd_callback_stop :: "backend_stop option"
  bd_pending_cp15 :: "pending_cp15 option"
  bd_pending_exception :: "pending_exception option"

text \<open>A \<open>Unicorn<BackendData>\<close>: the engine and the data it owns.\<close>

record 'g unicorn =
  uc_state :: 'g
  uc_data :: backend_data

abbreviation uc_machine :: "'g unicorn \<Rightarrow> machine" where
  "uc_machine uc \<equiv> bd_machine (uc_data uc)"

abbreviation on_data :: "(backend_data \<Rightarrow> backend_data) \<Rightarrow> 'g unicorn \<Rightarrow> 'g unicorn" where
  "on_data f uc \<equiv> uc\<lparr>uc_data := f (uc_data uc)\<rparr>"

abbreviation set_machine :: "machine \<Rightarrow> 'g unicorn \<Rightarrow> 'g unicorn" where
  "set_machine m uc \<equiv> on_data (\<lambda>d. d\<lparr>bd_machine := m\<rparr>) uc"

abbreviation set_callback_stop :: "backend_stop \<Rightarrow> 'g unicorn \<Rightarrow> 'g unicorn" where
  "set_callback_stop stop uc \<equiv> on_data (\<lambda>d. d\<lparr>bd_callback_stop := Some stop\<rparr>) uc"

record tlb_entry =
  tlb_paddr :: u64
  tlb_perms :: prot

type_synonym 'g tlb_hook = "u64 \<Rightarrow> mem_type \<Rightarrow> 'g unicorn \<Rightarrow> 'g unicorn \<times> tlb_entry option"

text \<open>
  The registered callbacks. \<open>hk_code\<close> lists the code hooks in the order of their registration. The
  MMIO callbacks are partial because the bus is: the result \<open>None\<close> is a panic.
\<close>

record 'g hooks =
  hk_tlb :: "'g tlb_hook"
  hk_code :: "(u64 \<Rightarrow> u32 \<Rightarrow> 'g unicorn \<Rightarrow> 'g unicorn) list"
  hk_invalid :: "'g unicorn \<Rightarrow> 'g unicorn \<times> bool"
  hk_mmio_read :: "u64 \<Rightarrow> usize \<Rightarrow> 'g unicorn \<Rightarrow> ('g unicorn \<times> u64) option"
  hk_mmio_write :: "u64 \<Rightarrow> usize \<Rightarrow> u64 \<Rightarrow> 'g unicorn \<Rightarrow> 'g unicorn option"

text \<open>
  The engine's operations. Those that reach guest memory get the whole \<open>unicorn\<close>: the engine shares
  the machine's RAM, and it calls the translation callback, or the MMIO callbacks for a physical
  read of the device window.
\<close>

record 'g engine =
  eng_reg_read :: "'g \<Rightarrow> arm_register \<Rightarrow> uc_error + u64"
  eng_reg_write :: "'g \<Rightarrow> arm_register \<Rightarrow> u64 \<Rightarrow> 'g \<times> (uc_error + unit)"
  eng_emu_stop :: "'g \<Rightarrow> 'g \<times> (uc_error + unit)"
  eng_set_exits :: "'g \<Rightarrow> u64 list \<Rightarrow> 'g \<times> (uc_error + unit)"
  eng_flush_tlb :: "'g \<Rightarrow> 'g \<times> (uc_error + unit)"
  eng_mem_read ::
    "'g hooks \<Rightarrow> 'g unicorn \<Rightarrow> u64 \<Rightarrow> usize \<Rightarrow> ('g unicorn \<times> (uc_error + u8 list)) option"
  eng_vmem_translate :: "'g tlb_hook \<Rightarrow> 'g unicorn \<Rightarrow> u64 \<Rightarrow> prot \<Rightarrow> 'g unicorn \<times> (uc_error + u64)"
  eng_vmem_read :: "'g tlb_hook \<Rightarrow> 'g unicorn \<Rightarrow> u64 \<Rightarrow> prot \<Rightarrow> usize \<Rightarrow> 'g unicorn \<times> (uc_error + u8 list)"
  eng_emu_start ::
    "'g hooks \<Rightarrow> 'g unicorn \<Rightarrow> u64 \<Rightarrow> u64 \<Rightarrow> u64 \<Rightarrow> usize \<Rightarrow> ('g unicorn \<times> (uc_error + unit)) option"
  eng_new :: "uc_error + 'g"
  eng_set_cpu_model :: "'g \<Rightarrow> uc_error + 'g"
  eng_exits_enable :: "'g \<Rightarrow> uc_error + 'g"
  eng_set_tlb_type :: "'g \<Rightarrow> uc_error + 'g"
  eng_add_tlb_hook :: "'g \<Rightarrow> uc_error + 'g"
  eng_add_code_hook :: "'g \<Rightarrow> uc_error + 'g"
  eng_add_invalid_hook :: "'g \<Rightarrow> uc_error + 'g"
  eng_mem_map :: "'g \<Rightarrow> u64 \<Rightarrow> u64 \<Rightarrow> prot \<Rightarrow> uc_error + 'g"
  eng_mem_write :: "'g \<Rightarrow> u64 \<Rightarrow> u8 list \<Rightarrow> uc_error + 'g"
  eng_mem_map_ptr :: "'g \<Rightarrow> u64 \<Rightarrow> u64 \<Rightarrow> prot \<Rightarrow> uc_error + 'g"
  eng_mmio_map :: "'g \<Rightarrow> u64 \<Rightarrow> u64 \<Rightarrow> uc_error + 'g"

text \<open>\<open>let _ = engine.reg_write(..)\<close> and \<open>let _ = engine.emu_stop()\<close>: the result is dropped.\<close>

definition put_register :: "'g engine \<Rightarrow> arm_register \<Rightarrow> u64 \<Rightarrow> 'g unicorn \<Rightarrow> 'g unicorn" where
  "put_register e r value uc = uc\<lparr>uc_state := fst (eng_reg_write e (uc_state uc) r value)\<rparr>"

definition stop_engine :: "'g engine \<Rightarrow> 'g unicorn \<Rightarrow> 'g unicorn" where
  "stop_engine e uc = uc\<lparr>uc_state := fst (eng_emu_stop e (uc_state uc))\<rparr>"

text \<open>\<open>engine.reg_read(CPSR).unwrap_or(0) as u32\<close>\<close>

definition read_or_zero :: "'g engine \<Rightarrow> 'g unicorn \<Rightarrow> arm_register \<Rightarrow> u32" where
  "read_or_zero e uc r = (case eng_reg_read e (uc_state uc) r of Inr v \<Rightarrow> ucast v | Inl _ \<Rightarrow> 0)"

section \<open>Callbacks\<close>

definition virtual_tlb_callback :: "'g engine \<Rightarrow> 'g tlb_hook" where
  "virtual_tlb_callback e address memory_type uc =
     (case mmu_access memory_type of
       None \<Rightarrow> (uc, None)
     | Some acc \<Rightarrow>
       (case eng_reg_read e (uc_state uc) CPSR of
         Inl _ \<Rightarrow> (uc, None)
       | Inr cpsr \<Rightarrow>
         (let user_mode = ((ucast cpsr :: u32) AND 0x1f = 0x10);
              m = uc_machine uc;
              va = VirtualAddress (ucast address);
              (w, memory, result) = translate physical_memory_ops (ma_mmu m) (ma_memory m) va acc user_mode;
              m = m\<lparr>ma_mmu := w, ma_memory := memory\<rparr>
          in case result of
            Inr physical \<Rightarrow>
              if acc = Fetch \<and> maps_device physical
              then (let (w, fault) = record_invalid_mmio_fault (ma_mmu m) va acc user_mode
                    in (set_callback_stop (StopMmuFault fault) (set_machine (m\<lparr>ma_mmu := w\<rparr>) uc), None))
              else (set_machine m uc, Some \<lparr>tlb_paddr = ucast (pa_get physical),
                  tlb_perms = (case acc of Fetch \<Rightarrow> ProtExec | Read \<Rightarrow> ProtRead | Write \<Rightarrow> ProtWrite)\<rparr>)
          | Inl fault \<Rightarrow> (set_callback_stop (StopMmuFault fault) (set_machine m uc), None))))"

definition instruction_counter_callback :: "u64 \<Rightarrow> u32 \<Rightarrow> 'g unicorn \<Rightarrow> 'g unicorn" where
  "instruction_counter_callback _ _ uc = on_data (\<lambda>d. d\<lparr>bd_executed := bd_executed d + 1\<rparr>) uc"

text \<open>The body of the trap callback, once the instruction word is read.\<close>

definition trap_breakpoint :: "'g engine \<Rightarrow> u64 \<Rightarrow> decoded_breakpoint \<Rightarrow> 'g unicorn \<Rightarrow> 'g unicorn" where
  "trap_breakpoint e address breakpoint uc =
     stop_engine e (set_callback_stop (StopBreakpoint (ucast address) (db_immediate breakpoint)) uc)"

definition trap_supervisor_call :: "'g engine \<Rightarrow> u64 \<Rightarrow> 'g unicorn \<Rightarrow> 'g unicorn" where
  "trap_supervisor_call e address uc =
     stop_engine e (put_register e PC (address + 4)
       (on_data (\<lambda>d. d\<lparr>bd_pending_exception := Some (PendSynchronous ExSupervisorCall (ucast address))\<rparr>) uc))"

definition trap_cp15 :: "'g engine \<Rightarrow> u64 \<Rightarrow> decoded_cp15 \<Rightarrow> 'g unicorn \<Rightarrow> 'g unicorn" where
  "trap_cp15 e address cp15 uc =
     (let cpsr = read_or_zero e uc CPSR;
          pending =
            (if \<not> condition_holds (cp_condition cp15) cpsr then None
             else if \<not> cp15_is_privileged cpsr then Some (CpUndefined (ucast address))
             else cp15_pending (eng_reg_read e (uc_state uc)) cp15 (ucast address));
          uc = (case pending of
              Some p \<Rightarrow> on_data (\<lambda>d. d\<lparr>bd_pending_cp15 := Some p\<rparr>) uc
            | None \<Rightarrow> uc)
      in stop_engine e (put_register e PC (address + 4) uc))"

definition trap_instruction :: "'g engine \<Rightarrow> u64 \<Rightarrow> u32 \<Rightarrow> 'g unicorn \<Rightarrow> 'g unicorn" where
  "trap_instruction e address instruction uc =
     (case Option.bind (decode_breakpoint instruction) (\<lambda>breakpoint.
         if condition_holds (db_condition breakpoint) (read_or_zero e uc CPSR)
         then Some breakpoint else None) of
       Some breakpoint \<Rightarrow> trap_breakpoint e address breakpoint uc
     | None \<Rightarrow>
       if instruction AND 0x0f000000 = 0x0f000000
          \<and> condition_holds (drop_bit 28 instruction) (read_or_zero e uc CPSR)
       then trap_supervisor_call e address uc
       else (case decode_cp15 instruction of
           None \<Rightarrow> uc
         | Some cp15 \<Rightarrow> trap_cp15 e address cp15 uc))"

definition a32_synchronous_trap_callback :: "'g engine \<Rightarrow> u64 \<Rightarrow> u32 \<Rightarrow> 'g unicorn \<Rightarrow> 'g unicorn" where
  "a32_synchronous_trap_callback e address len uc =
     (if len \<noteq> 4 then uc
      else case eng_vmem_read e (virtual_tlb_callback e) uc address ProtExec 4 of
        (uc, Inl _) \<Rightarrow> uc
      | (uc, Inr bytes) \<Rightarrow> trap_instruction e address (the (u32_from_le_bytes bytes)) uc)"

definition invalid_instruction_callback :: "'g engine \<Rightarrow> 'g unicorn \<Rightarrow> 'g unicorn \<times> bool" where
  "invalid_instruction_callback e uc =
     (let pc = read_or_zero e uc PC;
          uc = on_data (\<lambda>d. d\<lparr>bd_pending_exception := Some (PendSynchronous ExUndefined pc)\<rparr>) uc
      in (stop_engine e (put_register e PC (ucast (pc + 4)) uc), True))"

definition record_mmio_fault :: "'g engine \<Rightarrow> u64 \<Rightarrow> access \<Rightarrow> mmio_detail \<Rightarrow> 'g unicorn \<Rightarrow> 'g unicorn" where
  "record_mmio_fault e address acc detail uc =
     stop_engine e (set_callback_stop (StopMmioFault (ucast address) acc detail) uc)"

definition MMIO_BASE :: u64 where "MMIO_BASE = 0x10000000"
definition MMIO_SIZE :: u64 where "MMIO_SIZE = 0x10000"

text \<open>\<open>machine.bus.access(transaction, machine.ticks())\<close> on the machine of the engine's data.\<close>

definition machine_bus_access ::
  "mmio_transaction \<Rightarrow> 'g unicorn \<Rightarrow> ('g unicorn \<times> (core_error + u32 option)) option" where
  "machine_bus_access t uc =
     (let m = uc_machine uc in
      map_option (\<lambda>(bus, r). (set_machine (m\<lparr>ma_bus := bus\<rparr>) uc, r))
        (bus_access t (ma_ticks m) (ma_bus m)))"

definition mmio_read_callback :: "'g engine \<Rightarrow> u64 \<Rightarrow> usize \<Rightarrow> 'g unicorn \<Rightarrow> ('g unicorn \<times> u64) option" where
  "mmio_read_callback e offset len uc =
     (let address = MMIO_BASE + offset in
      case mmio_width_try_from len of
        Inl _ \<Rightarrow> Some (record_mmio_fault e address Read (UnsupportedReadWidth len) uc, 0)
      | Inr width \<Rightarrow>
          map_option (\<lambda>(uc, r). case r of
              Inr (Some value) \<Rightarrow> (uc, ucast value)
            | Inr None \<Rightarrow> (uc, 0)
            | Inl error \<Rightarrow> (record_mmio_fault e address Read (BusFault error) uc, 0))
            (machine_bus_access (mmio_read (PhysicalAddress (ucast address)) width) uc))"

definition mmio_write_callback :: "'g engine \<Rightarrow> u64 \<Rightarrow> usize \<Rightarrow> u64 \<Rightarrow> 'g unicorn \<Rightarrow> 'g unicorn option" where
  "mmio_write_callback e offset len value uc =
     (let address = MMIO_BASE + offset in
      case mmio_width_try_from len of
        Inl _ \<Rightarrow> Some (record_mmio_fault e address Write (UnsupportedWriteWidth len) uc)
      | Inr width \<Rightarrow>
          map_option (\<lambda>(uc, r). case r of
              Inr _ \<Rightarrow> uc
            | Inl error \<Rightarrow> record_mmio_fault e address Write (BusFault error) uc)
            (machine_bus_access (mmio_write (PhysicalAddress (ucast address)) width (ucast value)) uc))"

text \<open>The callbacks as \<open>register\<close> and \<open>map_mmio_window\<close> install them.\<close>

definition backend_hooks :: "'g engine \<Rightarrow> 'g hooks" where
  "backend_hooks e =
     \<lparr>hk_tlb = virtual_tlb_callback e,
      hk_code = [instruction_counter_callback, a32_synchronous_trap_callback e],
      hk_invalid = invalid_instruction_callback e,
      hk_mmio_read = mmio_read_callback e,
      hk_mmio_write = mmio_write_callback e\<rparr>"

definition hooks_register :: "'g engine \<Rightarrow> 'g \<Rightarrow> backend_error + 'g" where
  "hooks_register e g = map_err BackendUnicorn
     (and_then (eng_set_tlb_type e g) (\<lambda>g.
      and_then (eng_add_tlb_hook e g) (\<lambda>g.
      and_then (eng_add_code_hook e g) (\<lambda>g.
      and_then (eng_add_code_hook e g) (\<lambda>g.
        eng_add_invalid_hook e g)))))"

section \<open>What the adapter relies on\<close>

text \<open>
  What a call into the engine may do while it runs guest code: change its own state, store into the
  shared RAM, and call the registered callbacks. \<open>hook_run hooks n uc uc'\<close> says that \<open>uc'\<close> follows
  from \<open>uc\<close> by such steps with \<open>n\<close> instructions begun, each of them announced to the code hooks in
  order. An address translation alone does no more than \<open>tlb_run\<close>.
\<close>

inductive tlb_run :: "'g tlb_hook \<Rightarrow> 'g unicorn \<Rightarrow> 'g unicorn \<Rightarrow> bool" for cb where
  tlb_refl: "tlb_run cb uc uc"
| tlb_state: "tlb_run cb uc uc' \<Longrightarrow> tlb_run cb uc (uc'\<lparr>uc_state := g\<rparr>)"
| tlb_call: "tlb_run cb uc uc' \<Longrightarrow> tlb_run cb uc (fst (cb address ty uc'))"

definition run_code_hooks :: "'g hooks \<Rightarrow> u64 \<Rightarrow> u32 \<Rightarrow> 'g unicorn \<Rightarrow> 'g unicorn" where
  "run_code_hooks hooks address len = fold (\<lambda>h. h address len) (hk_code hooks)"

inductive hook_run :: "'g hooks \<Rightarrow> nat \<Rightarrow> 'g unicorn \<Rightarrow> 'g unicorn \<Rightarrow> bool" for hooks where
  run_refl: "hook_run hooks 0 uc uc"
| run_state: "hook_run hooks n uc uc' \<Longrightarrow> hook_run hooks n uc (uc'\<lparr>uc_state := g\<rparr>)"
| run_store: "hook_run hooks n uc uc' \<Longrightarrow> m = uc_machine uc' \<Longrightarrow>
    hook_run hooks n uc (set_machine (m\<lparr>ma_memory := ram_put (ma_memory m) offset bytes\<rparr>) uc')"
| run_tlb: "hook_run hooks n uc uc' \<Longrightarrow> hook_run hooks n uc (fst (hk_tlb hooks address ty uc'))"
| run_code: "hook_run hooks n uc uc' \<Longrightarrow> hook_run hooks (Suc n) uc (run_code_hooks hooks address len uc')"
| run_invalid: "hook_run hooks n uc uc' \<Longrightarrow> hook_run hooks n uc (fst (hk_invalid hooks uc'))"
| run_mmio_read: "hook_run hooks n uc uc' \<Longrightarrow> hk_mmio_read hooks offset len uc' = Some (uc'', v) \<Longrightarrow>
    hook_run hooks n uc uc''"
| run_mmio_write: "hook_run hooks n uc uc' \<Longrightarrow> hk_mmio_write hooks offset len v uc' = Some uc'' \<Longrightarrow>
    hook_run hooks n uc uc''"

definition hooks_total :: "'g hooks \<Rightarrow> bool" where
  "hooks_total hooks \<longleftrightarrow>
     (\<forall>offset len uc. hk_mmio_read hooks offset len uc \<noteq> None)
     \<and> (\<forall>offset len v uc. hk_mmio_write hooks offset len v uc \<noteq> None)"

text \<open>
  \<open>emu_start\<close> with a positive instruction count begins at most that many instructions and returns,
  as long as no callback panics; a virtual read returns as many bytes as it is asked for.
\<close>

definition engine_runs :: "'g engine \<Rightarrow> bool" where
  "engine_runs e \<longleftrightarrow>
     (\<forall>hooks uc begin_at until timeout count. hooks_total hooks \<longrightarrow> 0 < count \<longrightarrow>
        (\<exists>uc' r n. eng_emu_start e hooks uc begin_at until timeout count = Some (uc', r)
           \<and> n \<le> count \<and> hook_run hooks n uc uc'))
     \<and> (\<forall>cb uc address p n. tlb_run cb uc (fst (eng_vmem_read e cb uc address p n))
           \<and> tlb_run cb uc (fst (eng_vmem_translate e cb uc address p)))"

text \<open>
  The register file. A write that succeeds is read back, and, but for the mode switch of a write to
  CPSR, it leaves the other registers as they were. CPSR and PC are promised only for the values the
  adapter writes: an A32 state, and an aligned address.
\<close>

definition register_value_ok :: "arm_register \<Rightarrow> u32 \<Rightarrow> bool" where
  "register_value_ok r v \<longleftrightarrow>
     (r = CPSR \<longrightarrow> cp15_is_privileged v \<and> v AND 0x20 = 0) \<and> (r = PC \<longrightarrow> v AND 3 = 0)"

definition engine_registers :: "'g engine \<Rightarrow> bool" where
  "engine_registers e \<longleftrightarrow>
     (\<forall>g r v g'. eng_reg_write e g r (ucast v) = (g', Ok ()) \<longrightarrow> register_value_ok r v \<longrightarrow>
        eng_reg_read e g' r = Ok (ucast v)
        \<and> (\<forall>r'. r \<noteq> CPSR \<longrightarrow> r' \<noteq> r \<longrightarrow> eng_reg_read e g' r' = eng_reg_read e g r'))"

text \<open>A physical read inside RAM returns the bytes of the allocation that the machine shares, and does
  nothing else.\<close>

definition engine_shares_ram :: "'g engine \<Rightarrow> bool" where
  "engine_shares_ram e \<longleftrightarrow>
     (\<forall>hooks uc offset len. offset + len \<le> unat RAM_SIZE \<longrightarrow>
        eng_mem_read e hooks uc (of_nat (unat RAM_BASE + offset)) len
          = Some (uc, Ok (map (pm_ram (ma_memory (uc_machine uc))) [offset..<offset + len])))"


section \<open>An engine that keeps its promises\<close>

text \<open>
  A small engine, with its registers as the whole state, for checking that the promises can be kept
  together: it announces one instruction at the start address and stops. It reads the program counter
  as an even address.
\<close>

definition sample_engine :: "(arm_register \<Rightarrow> u64) engine" where
  "sample_engine =
     \<lparr>eng_reg_read = (\<lambda>g r. Ok (if r = PC then 2 * (g r div 2) else g r)),
      eng_reg_write = (\<lambda>g r v. (g(r := v), Ok ())),
      eng_emu_stop = (\<lambda>g. (g, Ok ())),
      eng_set_exits = (\<lambda>g _. (g, Ok ())),
      eng_flush_tlb = (\<lambda>g. (g, Ok ())),
      eng_mem_read = (\<lambda>_ uc a n.
        let offset = unat a - unat RAM_BASE in
        Some (uc, if unat RAM_BASE \<le> unat a \<and> offset + n \<le> unat RAM_SIZE
          then Ok (map (pm_ram (ma_memory (uc_machine uc))) [offset..<offset + n]) else Err (UcOther 6))),
      eng_vmem_translate = (\<lambda>cb uc a _. case cb a MemRead uc of
          (uc, None) \<Rightarrow> (uc, Err (UcOther 6)) | (uc, Some entry) \<Rightarrow> (uc, Ok (tlb_paddr entry))),
      eng_vmem_read = (\<lambda>cb uc a _ n. case cb a MemFetch uc of
          (uc, None) \<Rightarrow> (uc, Err (UcOther 6)) | (uc, Some entry) \<Rightarrow> (uc, Ok (replicate n 0))),
      eng_emu_start = (\<lambda>hooks uc begin_at _ _ _. Some (run_code_hooks hooks begin_at 4 uc, Ok ())),
      eng_new = Ok (\<lambda>_. 0),
      eng_set_cpu_model = Ok, eng_exits_enable = Ok, eng_set_tlb_type = Ok, eng_add_tlb_hook = Ok,
      eng_add_code_hook = Ok, eng_add_invalid_hook = Ok,
      eng_mem_map = (\<lambda>g _ _ _. Ok g), eng_mem_write = (\<lambda>g _ _. Ok g),
      eng_mem_map_ptr = (\<lambda>g _ _ _. Ok g), eng_mmio_map = (\<lambda>g _ _. Ok g)\<rparr>"

lemma one_tlb_call:
  "tlb_run cb uc (fst (case cb a ty uc of (uc, None) \<Rightarrow> (uc, Err x) | (uc, Some entry) \<Rightarrow> (uc, f entry)))"
  using tlb_call [OF tlb_refl, of cb uc a ty] by (auto split: prod.split option.split)

lemma sample_engine_runs: "engine_runs sample_engine"
proof -
  have "\<exists>n\<le>count. hook_run hooks n uc (run_code_hooks hooks a len uc)"
    if "0 < count" for count and hooks :: "(arm_register \<Rightarrow> u64) hooks" and a len uc
    using that run_code [OF run_refl] by (intro exI [of _ "Suc 0"]) auto
  then show ?thesis
    unfolding engine_runs_def by (simp add: sample_engine_def) (intro allI conjI; rule one_tlb_call)
qed

lemma aligned_halves:
  assumes "(v :: u32) AND 3 = 0"
  shows "2 * ((ucast v :: u64) div 2) = ucast v"
proof -
  have "even v" using arg_cong [OF assms, of odd] by (simp add: even_and_iff)
  then have "even (ucast v :: u64)" by transfer simp
  then show ?thesis using mult_div_mod_eq [of 2 "ucast v :: u64"] by (simp add: even_iff_mod_2_eq_zero)
qed

lemma sample_engine_registers: "engine_registers sample_engine"
  by (auto simp: engine_registers_def sample_engine_def register_value_ok_def intro: aligned_halves)

lemma sample_engine_shares_ram: "engine_shares_ram sample_engine"
proof -
  have "unat (of_nat (unat RAM_BASE + offset) :: u64) = unat RAM_BASE + offset" if "offset \<le> unat RAM_SIZE" for offset
  proof -
    have "unat RAM_BASE + offset < 2 ^ 64" using that by (simp add: mmap_consts)
    then show ?thesis using take_bit_nat_eq_self [of "unat RAM_BASE + offset" 64] by (simp only: unsigned_of_nat) simp
  qed
  then show ?thesis
    by (simp add: engine_shares_ram_def sample_engine_def Let_def)
qed

end
