(* ===== verification/Unicorn_Backend.thy ===== *)
theory Unicorn_Backend
  imports Unicorn_Engine
begin

text \<open>
  The Unicorn backend of the machine (\<open>backend.rs\<close> of \<open>minemu-unicorn\<close>): construction, register
  access, A32 exception entry, interrupt delivery, and a bounded run with its virtual-time
  accounting. A result \<open>None\<close> is a panic or a call that does not return.
\<close>

section \<open>State and registers\<close>

record 'g backend =
  be_engine :: "'g unicorn"
  be_deferred :: "(exception_kind \<times> virtual_address) option"

abbreviation be_machine :: "'g backend \<Rightarrow> machine" where
  "be_machine b \<equiv> uc_machine (be_engine b)"

abbreviation be_ticks :: "'g backend \<Rightarrow> u64" where
  "be_ticks b \<equiv> ma_ticks (be_machine b)"

definition put_machine :: "machine \<Rightarrow> 'g backend \<Rightarrow> 'g backend" where
  "put_machine m b = b\<lparr>be_engine := set_machine m (be_engine b)\<rparr>"

definition put_engine :: "'g \<Rightarrow> 'g backend \<Rightarrow> 'g backend" where
  "put_engine g b = b\<lparr>be_engine := (be_engine b)\<lparr>uc_state := g\<rparr>\<rparr>"

definition get_register :: "'g engine \<Rightarrow> 'g backend \<Rightarrow> arm_register \<Rightarrow> backend_error + u32" where
  "get_register e b r =
     (case eng_reg_read e (uc_state (be_engine b)) r of
       Inr value \<Rightarrow> Ok (ucast value)
     | Inl error \<Rightarrow> Err (BackendUnicorn error))"

definition set_register ::
  "'g engine \<Rightarrow> arm_register \<Rightarrow> u32 \<Rightarrow> 'g backend \<Rightarrow> 'g backend \<times> (backend_error + unit)" where
  "set_register e r value b =
     (let (g, result) = eng_reg_write e (uc_state (be_engine b)) r (ucast value)
      in (put_engine g b, map_err BackendUnicorn result))"

definition program_counter :: "'g engine \<Rightarrow> 'g backend \<Rightarrow> backend_error + u32" where
  "program_counter e b = get_register e b PC"

definition set_program_counter :: "'g engine \<Rightarrow> u32 \<Rightarrow> 'g backend \<Rightarrow> 'g backend \<times> (backend_error + unit)" where
  "set_program_counter e value b = set_register e PC value b"

definition vector_base :: "'g backend \<Rightarrow> u32" where
  "vector_base b = va_get (mmu_vector_base (ma_mmu (be_machine b)))"

section \<open>Exception entry\<close>

text \<open>The mode field of CPSR. No exception has the user mode as its destination: that arm panics.\<close>

fun mode_bits :: "cpu_mode \<Rightarrow> u32 option" where
  "mode_bits ModeSupervisor = Some 0x13"
| "mode_bits ModeInterrupt = Some 0x12"
| "mode_bits ModeAbort = Some 0x17"
| "mode_bits ModeUndefined = Some 0x1b"
| "mode_bits ModeUser = None"

definition link_offset :: "exception_kind \<Rightarrow> u32" where
  "link_offset kind = (case kind of ExDataAbort \<Rightarrow> 8 | _ \<Rightarrow> 4)"

text \<open>The question-mark operator between operations that also change the backend.\<close>

definition step_then ::
  "'s \<times> ('e + unit) \<Rightarrow> ('s \<Rightarrow> 's \<times> ('e + unit)) \<Rightarrow> 's \<times> ('e + unit)" where
  "step_then r f = (case r of (s, Inr _) \<Rightarrow> f s | (s, Inl error) \<Rightarrow> (s, Inl error))"

definition be_enter_exception ::
  "'g engine \<Rightarrow> exception_plan \<Rightarrow> 'g backend \<Rightarrow> ('g backend \<times> (backend_error + unit)) option" where
  "be_enter_exception e plan b =
     (case get_register e b CPSR of
       Inl error \<Rightarrow> Some (b, Err error)
     | Inr previous_cpsr \<Rightarrow>
       map_option (\<lambda>mode.
         let kind = req_kind (plan_request plan);
             destination_cpsr = (previous_cpsr AND NOT 0x3f) OR mode OR push_bit 7 1
         in step_then (set_register e CPSR destination_cpsr b) (\<lambda>b.
            step_then (set_register e SPSR previous_cpsr b) (\<lambda>b.
            step_then (set_register e LR (va_get (req_pc (plan_request plan)) + link_offset kind) b) (\<lambda>b.
              set_register e PC (vector_base b + vector_offset kind) b))))
         (mode_bits (destination_mode (req_kind (plan_request plan)))))"

text \<open>\<open>if self.enter_exception(plan).is_err() \{ .. ARG .. \} else \{ .. kind .. \}\<close>\<close>

definition enter_or_arg ::
  "'g engine \<Rightarrow> exception_plan \<Rightarrow> exception_kind \<Rightarrow> 'g backend \<Rightarrow> ('g backend \<times> backend_stop) option" where
  "enter_or_arg e plan kind b =
     map_option (\<lambda>(b, result). (b, case result of Inl _ \<Rightarrow> StopUnicorn UcArg | Inr _ \<Rightarrow> StopException kind))
       (be_enter_exception e plan b)"

definition deliver_irq :: "'g engine \<Rightarrow> 'g backend \<Rightarrow> ('g backend \<times> backend_stop option) option" where
  "deliver_irq e b =
     (case get_register e b CPSR of
       Inl _ \<Rightarrow> Some (b, None)
     | Inr cpsr \<Rightarrow>
       if cpsr AND push_bit 7 1 \<noteq> 0 then Some (b, None)
       else
         (let m = be_machine b;
              (ic, claimed) = ic_do_claim (bus_interrupts (ma_bus m));
              b = put_machine (m\<lparr>ma_bus := (ma_bus m)\<lparr>bus_interrupts := ic\<rparr>\<rparr>) b
          in case claimed of
            None \<Rightarrow> Some (b, None)
          | Some _ \<Rightarrow>
            (case get_register e b PC of
              Inl _ \<Rightarrow> Some (b, None)
            | Inr pc \<Rightarrow>
              Option.bind (enter_exception ExInterrupt (VirtualAddress pc) (be_machine b)) (\<lambda>(m, plan).
                map_option (\<lambda>(b, stop). (b, Some stop))
                  (enter_or_arg e plan ExInterrupt (put_machine m b))))))"

definition resume_deferred_exception ::
  "'g engine \<Rightarrow> u64 option \<Rightarrow> 'g backend \<Rightarrow> ('g backend \<times> backend_stop option) option" where
  "resume_deferred_exception e tick_deadline b =
     (case be_deferred b of
       None \<Rightarrow> Some (b, None)
     | Some (kind, pc) \<Rightarrow>
       if (case tick_deadline of None \<Rightarrow> False | Some deadline \<Rightarrow> be_ticks b \<ge> deadline)
       then Some (b, Some StopInstructionBudget)
       else
         (let b = b\<lparr>be_deferred := None\<rparr> in
          Option.bind (enter_exception kind pc (be_machine b)) (\<lambda>(m, plan).
            map_option (\<lambda>(b, stop). (b, Some stop)) (enter_or_arg e plan kind (put_machine m b)))))"

section \<open>After a run\<close>

definition finish_synchronous_exception ::
  "'g engine \<Rightarrow> exception_kind \<Rightarrow> virtual_address \<Rightarrow> u64 option \<Rightarrow> 'g backend
   \<Rightarrow> ('g backend \<times> backend_stop) option" where
  "finish_synchronous_exception e kind pc tick_deadline b =
     (if (case tick_deadline of None \<Rightarrow> False | Some deadline \<Rightarrow> be_ticks b + 1 = deadline)
      then map_option (\<lambda>(m, _). ((put_machine m b)\<lparr>be_deferred := Some (kind, pc)\<rparr>, StopInstructionBudget))
        (finish_instruction OutCompleted (be_machine b))
      else Option.bind (finish_instruction (OutSynchronousException kind pc) (be_machine b)) (\<lambda>(m, plan).
        case plan of
          None \<Rightarrow> Some (put_machine m b, StopException kind)
        | Some plan \<Rightarrow> enter_or_arg e plan kind (put_machine m b)))"

definition finish_pending_exception ::
  "'g engine \<Rightarrow> pending_exception \<Rightarrow> u64 option \<Rightarrow> 'g backend \<Rightarrow> ('g backend \<times> backend_stop) option" where
  "finish_pending_exception e pending tick_deadline b =
     (case pending of
       PendSynchronous kind pc \<Rightarrow> finish_synchronous_exception e kind (VirtualAddress pc) tick_deadline b
     | PendFault fault \<Rightarrow>
       (let pc = (case program_counter e b of Inr pc \<Rightarrow> pc | Inl _ \<Rightarrow> va_get (mf_address fault)) in
        Option.bind (finish_instruction (OutFault fault (VirtualAddress pc)) (be_machine b)) (\<lambda>(m, plan).
          case plan of
            None \<Rightarrow> Some (put_machine m b, StopUnicorn UcArg)
          | Some plan \<Rightarrow> enter_or_arg e plan (req_kind (plan_request plan)) (put_machine m b))))"

text \<open>The two register reads of the fault state: \<open>self.set_register(register, value)\<close>.\<close>

definition finish_fault_read ::
  "'g engine \<Rightarrow> arm_register \<Rightarrow> u32 \<Rightarrow> 'g backend \<Rightarrow> 'g backend \<times> backend_stop" where
  "finish_fault_read e r value b =
     (let (b, result) = set_register e r value b
      in (b, case result of Inl _ \<Rightarrow> StopUnicorn UcArg | Inr _ \<Rightarrow> StopCp15Boundary))"

definition finish_cp15 ::
  "'g engine \<Rightarrow> pending_cp15 \<Rightarrow> u64 option \<Rightarrow> 'g backend \<Rightarrow> ('g backend \<times> backend_stop) option" where
  "finish_cp15 e pending tick_deadline b =
     (let m = be_machine b; fault = mmu_last_fault (ma_mmu m) in
      case pending of
        CpOperation operation \<Rightarrow>
          (let b = put_machine (m\<lparr>ma_mmu := apply_cp15 operation (ma_mmu m)\<rparr>) b in
           if operation = InvalidateAll
           then (let (g, result) = eng_flush_tlb e (uc_state (be_engine b));
                     b = put_engine g b
                 in Some (b, case result of Inl _ \<Rightarrow> StopUnicorn UcArg | Inr _ \<Rightarrow> StopCp15Boundary))
           else Some (b, StopCp15Boundary))
      | CpReadFaultStatus r \<Rightarrow>
          Some (finish_fault_read e r (case fault of Some f \<Rightarrow> fs_raw (mf_status f) | None \<Rightarrow> 0) b)
      | CpReadFaultAddress r \<Rightarrow>
          Some (finish_fault_read e r (case fault of Some f \<Rightarrow> va_get (mf_address f) | None \<Rightarrow> 0) b)
      | CpUndefined pc \<Rightarrow>
          finish_synchronous_exception e ExUndefined (VirtualAddress pc) tick_deadline b)"

definition finish_callback_stop ::
  "'g engine \<Rightarrow> backend_stop \<Rightarrow> u64 option \<Rightarrow> 'g backend \<Rightarrow> ('g backend \<times> backend_stop) option" where
  "finish_callback_stop e stop tick_deadline b =
     (case stop of
       StopMmuFault fault \<Rightarrow> finish_pending_exception e (PendFault fault) tick_deadline b
     | StopMmioFault address acc _ \<Rightarrow>
       (let user_mode = (case get_register e b CPSR of Inr cpsr \<Rightarrow> cpsr AND 0x1f = 0x10 | Inl _ \<Rightarrow> False);
            m = be_machine b;
            (w, fault) = record_invalid_mmio_fault (ma_mmu m) (VirtualAddress address) acc user_mode
        in finish_pending_exception e (PendFault fault) tick_deadline (put_machine (m\<lparr>ma_mmu := w\<rparr>) b))
     | stop \<Rightarrow> Some (b, stop))"

section \<open>A bounded run\<close>

fun finish_completed :: "nat \<Rightarrow> machine \<Rightarrow> machine option" where
  "finish_completed 0 m = Some m"
| "finish_completed (Suc n) m =
     Option.bind (finish_instruction OutCompleted m) (\<lambda>(m, _). finish_completed n m)"

definition clear_run :: "'g backend \<Rightarrow> 'g backend" where
  "clear_run b = b\<lparr>be_engine := on_data (\<lambda>d. d\<lparr>bd_executed := 0, bd_callback_stop := None,
     bd_pending_cp15 := None, bd_pending_exception := None\<rparr>) (be_engine b)\<rparr>"

definition faulting_instruction :: "backend_data \<Rightarrow> bool" where
  "faulting_instruction d \<longleftrightarrow>
     (case bd_pending_cp15 d of Some (CpUndefined _) \<Rightarrow> True | _ \<Rightarrow> False)
     \<or> bd_pending_exception d \<noteq> None
     \<or> (case bd_callback_stop d of
          Some (StopMmuFault _) \<Rightarrow> True | Some (StopMmioFault _ _ _) \<Rightarrow> True | _ \<Rightarrow> False)"

text \<open>
  What follows \<open>emu_start\<close>: the callbacks' notes \<open>d\<close> are taken, the completed instructions are charged,
  and the first note that is there decides how the run ends.
\<close>

definition deliver_before_deadline ::
  "'g engine \<Rightarrow> u64 option \<Rightarrow> 'g backend \<Rightarrow> ('g backend \<times> backend_stop option) option" where
  "deliver_before_deadline e tick_deadline b =
     (if (case tick_deadline of None \<Rightarrow> True | Some deadline \<Rightarrow> be_ticks b < deadline)
      then deliver_irq e b else Some (b, None))"

definition settle_run ::
  "'g engine \<Rightarrow> u64 option \<Rightarrow> uc_error + unit \<Rightarrow> backend_data \<Rightarrow> 'g backend \<Rightarrow> ('g backend \<times> backend_stop) option" where
  "settle_run e tick_deadline result d b =
     (case bd_callback_stop d of Some stop \<Rightarrow> finish_callback_stop e stop tick_deadline b
      | None \<Rightarrow>
      case bd_pending_exception d of Some pending \<Rightarrow> finish_pending_exception e pending tick_deadline b
      | None \<Rightarrow>
      case bd_pending_cp15 d of Some pending \<Rightarrow> finish_cp15 e pending tick_deadline b
      | None \<Rightarrow>
        Option.bind (deliver_before_deadline e tick_deadline b) (\<lambda>(b, stop).
          Some (b, case stop of Some stop \<Rightarrow> stop
            | None \<Rightarrow> (case result of Inr _ \<Rightarrow> StopInstructionBudget | Inl error \<Rightarrow> StopUnicorn error))))"

definition finish_run ::
  "'g engine \<Rightarrow> u64 option \<Rightarrow> uc_error + unit \<Rightarrow> 'g backend \<Rightarrow> ('g backend \<times> backend_stop) option" where
  "finish_run e tick_deadline result b =
     (let d = uc_data (be_engine b);
          completed = unat (bd_executed d) - (if faulting_instruction d then 1 else 0);
          b = b\<lparr>be_engine := on_data (\<lambda>d. d\<lparr>bd_callback_stop := None, bd_pending_cp15 := None,
                bd_pending_exception := None\<rparr>) (be_engine b)\<rparr>
      in Option.bind (finish_completed completed (be_machine b)) (\<lambda>m.
           settle_run e tick_deadline result d (put_machine m b)))"

text \<open>\<open>run_with_tick_deadline\<close>, from the setting of the exits on.\<close>

definition emulate ::
  "'g engine \<Rightarrow> u32 \<Rightarrow> u32 \<Rightarrow> usize \<Rightarrow> u64 option \<Rightarrow> 'g backend \<Rightarrow> ('g backend \<times> backend_stop) option" where
  "emulate e start until instruction_budget tick_deadline b =
     (let exit_list = (if until = u32_max then [] else [ucast until]);
          (g, exits) = eng_set_exits e (uc_state (be_engine b)) exit_list;
          b = put_engine g b
      in case exits of
        Inl error \<Rightarrow> Some (b, StopUnicorn error)
      | Inr _ \<Rightarrow>
        (let b = clear_run b in
         Option.bind (eng_emu_start e (backend_hooks e) (be_engine b) (ucast start) (ucast until) 0
            instruction_budget) (\<lambda>(uc, result).
           finish_run e tick_deadline result (b\<lparr>be_engine := uc\<rparr>))))"

definition limited_budget :: "u64 option \<Rightarrow> u64 \<Rightarrow> usize \<Rightarrow> usize" where
  "limited_budget tick_deadline ticks instruction_budget = (case tick_deadline of None \<Rightarrow> instruction_budget
     | Some deadline \<Rightarrow> min instruction_budget (min (unat (deadline - ticks)) usize_max))"

definition run_with_tick_deadline ::
  "'g engine \<Rightarrow> u32 \<Rightarrow> u32 \<Rightarrow> usize \<Rightarrow> u64 option \<Rightarrow> 'g backend \<Rightarrow> ('g backend \<times> backend_stop) option" where
  "run_with_tick_deadline e start until instruction_budget tick_deadline b =
     Option.bind (resume_deferred_exception e tick_deadline b) (\<lambda>(b, resumed).
     case resumed of Some stop \<Rightarrow> Some (b, stop)
     | None \<Rightarrow>
     if (case tick_deadline of None \<Rightarrow> False | Some deadline \<Rightarrow> be_ticks b \<ge> deadline)
     then Some (b, StopInstructionBudget)
     else
     Option.bind (if tick_deadline \<noteq> None then deliver_irq e b else Some (b, None)) (\<lambda>(b, irq).
     case irq of Some stop \<Rightarrow> Some (b, stop)
     | None \<Rightarrow>
       emulate e start until (limited_budget tick_deadline (be_ticks b) instruction_budget) tick_deadline b))"

definition be_run :: "'g engine \<Rightarrow> u32 \<Rightarrow> u32 \<Rightarrow> usize \<Rightarrow> 'g backend \<Rightarrow> ('g backend \<times> backend_stop) option" where
  "be_run e start until instruction_budget b = run_with_tick_deadline e start until instruction_budget None b"

definition run_until_tick ::
  "'g engine \<Rightarrow> u32 \<Rightarrow> u32 \<Rightarrow> usize \<Rightarrow> u64 \<Rightarrow> 'g backend \<Rightarrow> ('g backend \<times> backend_stop) option" where
  "run_until_tick e start until instruction_budget tick_deadline b =
     run_with_tick_deadline e start until instruction_budget (Some tick_deadline) b"

section \<open>Construction\<close>

definition map_bytes :: "'g engine \<Rightarrow> mem_region \<Rightarrow> prot \<Rightarrow> u8 list \<Rightarrow> 'g \<Rightarrow> backend_error + 'g" where
  "map_bytes e region permissions bytes g =
     and_then (map_err BackendUnicorn
       (eng_mem_map e g (ucast (pa_get (mem_base region))) (ucast (mem_size region)) permissions)) (\<lambda>g.
     map_err BackendUnicorn (eng_mem_write e g (ucast (pa_get (mem_base region))) bytes))"

definition map_shared_ram :: "'g engine \<Rightarrow> 'g \<Rightarrow> backend_error + 'g" where
  "map_shared_ram e g = map_err BackendUnicorn
     (eng_mem_map_ptr e g (ucast (pa_get (mem_base Ram))) (ucast (mem_size Ram)) ProtAll)"

definition map_mmio_window :: "'g engine \<Rightarrow> 'g \<Rightarrow> backend_error + 'g" where
  "map_mmio_window e g = map_err BackendUnicorn (eng_mmio_map e g MMIO_BASE MMIO_SIZE)"

definition backend_new :: "'g engine \<Rightarrow> machine \<Rightarrow> backend_error + 'g backend" where
  "backend_new e m =
     and_then (map_err BackendCore (copy_region BootRom m)) (\<lambda>boot_rom.
     and_then (map_err BackendCore (copy_region SystemRom m)) (\<lambda>system_rom.
     and_then (map_err BackendUnicorn (eng_new e)) (\<lambda>g.
     and_then (map_err BackendUnicorn (eng_set_cpu_model e g)) (\<lambda>g.
     and_then (map_err BackendUnicorn (eng_exits_enable e g)) (\<lambda>g.
     and_then (map_bytes e BootRom ProtReadExec boot_rom g) (\<lambda>g.
     and_then (map_bytes e SystemRom ProtReadExec system_rom g) (\<lambda>g.
     and_then (map_shared_ram e g) (\<lambda>g.
     and_then (map_mmio_window e g) (\<lambda>g.
     and_then (hooks_register e g) (\<lambda>g.
       Ok \<lparr>be_engine = \<lparr>uc_state = g, uc_data = \<lparr>bd_machine = m, bd_executed = 0, bd_callback_stop = None,
             bd_pending_cp15 = None, bd_pending_exception = None\<rparr>\<rparr>, be_deferred = None\<rparr>))))))))))"

end
