(* ===== verification/Core_Frame.thy ===== *)
theory Core_Frame
  imports Core_Machine
begin

text \<open>
  What every operation of the machine keeps, whoever drives it: the two ROMs, and the histories
  that the bus and the MMU walker can have. The execution backend rests on these facts.
\<close>

section \<open>The ROMs\<close>

definition roms :: "physical_memory \<Rightarrow> byte_array \<times> byte_array" where
  "roms m = (pm_boot_rom m, pm_system_rom m)"

lemma roms_ram_put [simp]: "roms (ram_put m offset bytes) = roms m"
  by (simp add: roms_def ram_put_def)

lemma roms_write:
  "mem_write_range m a bytes = Ok m' \<Longrightarrow> roms m' = roms m"
  "mem_write_u32 m a v = Ok m' \<Longrightarrow> roms m' = roms m"
  by (auto simp: mem_write_range_def mem_write_u32_def and_then_Ok)

lemma roms_translate_entry:
  "translate_entry physical_memory_ops w m a acc user e x = (w', m', r) \<Longrightarrow> roms m' = roms m"
  unfolding translate_entry_def Let_def walker_fault_def
  by (auto simp: physical_memory_ops_def dest!: roms_write split: if_splits sum.splits option.splits)

lemma roms_translate:
  "translate physical_memory_ops w m a acc user = (w', m', r) \<Longrightarrow> roms m' = roms m"
  unfolding translate_def Let_def
  by (auto simp: walker_fault_def Let_def dest: roms_translate_entry split: if_splits option.splits)

lemma roms_block_execute:
  "block_execute physical_memory_ops request b m = Ok (b', m', code) \<Longrightarrow> roms m' = roms m"
  unfolding block_execute_def Let_def
  by (auto simp: and_then_Ok map_err_Ok physical_memory_ops_def dest!: roms_write split: if_splits)

lemma roms_block_advance:
  "block_advance_to physical_memory_ops now b m = (b', m', gs, level) \<Longrightarrow> roms m' = roms m"
  unfolding block_advance_to_def Let_def
  by (auto dest: roms_block_execute split: option.splits if_splits sum.splits prod.splits)

lemma roms_bus_advance:
  assumes "bus_advance_to physical_memory_ops now bus m = Some (bus', m')"
  shows "roms m' = roms m"
proof -
  obtain t gs where "systick_update (TickAdvanceTo now) (bus_systick bus) = Some (t, gs)"
    using assms by (auto simp: bus_advance_to_def)
  moreover obtain b m1 hs level where
    adv: "block_advance_to physical_memory_ops now (bus_block (bus_send gs (bus\<lparr>bus_systick := t\<rparr>))) m = (b, m1, hs, level)"
    by (metis prod_cases4)
  ultimately have "m' = m1"
    using assms by (simp add: bus_advance_to_def Let_def)
  with roms_block_advance [OF adv] show ?thesis by simp
qed

section \<open>Histories of the machine\<close>

definition machine_ok :: "machine \<Rightarrow> bool" where
  "machine_ok m \<longleftrightarrow> bus_reachable (ma_bus m) \<and> mmu_reachable (ma_mmu m)"

text \<open>
  Media and their host copies: what write-back keeps (\<open>write_back_ok\<close>) with the host untouched.
\<close>

definition disk_follows :: "mmio_bus \<Rightarrow> mmio_bus \<Rightarrow> bool" where
  "disk_follows bus bus' \<longleftrightarrow>
     (\<forall>disk. write_back_ok (bus_block bus) disk \<longrightarrow> write_back_ok (bus_block bus') disk)"

lemma disk_follows_refl [simp]: "disk_follows bus bus"
  by (simp add: disk_follows_def)

lemma disk_follows_same: "bus_block bus' = bus_block bus \<Longrightarrow> disk_follows bus bus'"
  by (simp add: disk_follows_def)

lemma bus_block_send [simp]: "bus_block (bus_send gs bus) = bus_block bus"
  by (simp add: bus_send_def)

lemma bus_block_process [simp]: "bus_block (bus_process bus) = bus_block bus"
  by (simp add: bus_process_def)

lemma disk_follows_read_register:
  "bus_read_register r bus = Some (bus', v) \<Longrightarrow> bus_block bus' = bus_block bus"
  by (auto simp: bus_read_register_def split: mmio_register.splits prod.splits)

lemma disk_follows_write_register:
  assumes "bus_write_register r v now bus = Some (Ok bus')"
  shows "disk_follows bus bus'"
proof (cases r)
  case (RegDma reg)
  with assms show ?thesis
    by (auto simp: bus_write_register_def and_then_Ok block_update_def disk_follows_def block_write_units
        intro: write_back_ok_registers)
next
  case (RegTrace reg)
  with assms show ?thesis
    by (cases reg) (auto simp: bus_write_register_def intro: disk_follows_same)
qed (use assms in \<open>auto simp: bus_write_register_def and_then_Ok intro!: disk_follows_same split: prod.splits\<close>)

lemma disk_follows_access:
  assumes "bus_access t now bus = Some (bus', r)"
  shows "disk_follows bus bus'"
proof (cases "decode_mmio t")
  case (Inr register)
  with assms show ?thesis
  proof (cases "tx_access t")
    case Read
    with assms Inr show ?thesis
      by (auto simp: bus_access_def intro!: disk_follows_same dest: disk_follows_read_register)
  next
    case Write
    with assms Inr obtain z where z: "bus_write_register register (tx_value t) now bus = Some z"
      by (auto simp: bus_access_def)
    show ?thesis
    proof (cases z)
      case (Inl e)
      with assms Inr Write z show ?thesis by (simp add: bus_access_def)
    next
      case (Inr b)
      with assms z \<open>decode_mmio t = Ok register\<close> Write have "bus' = bus_process b" by (simp add: bus_access_def)
      with z Inr show ?thesis
        using disk_follows_write_register [of register "tx_value t" now bus b] by (simp add: disk_follows_def)
    qed
  qed (simp add: bus_access_def)
qed (use assms in \<open>simp add: bus_access_def\<close>)

lemma disk_follows_advance:
  assumes "bus_advance_to physical_memory_ops now bus m = Some (bus', m')"
  shows "disk_follows bus bus'"
proof -
  obtain t gs where t: "systick_update (TickAdvanceTo now) (bus_systick bus) = Some (t, gs)"
    using assms by (auto simp: bus_advance_to_def)
  obtain b m1 hs level where b: "block_advance_to physical_memory_ops now (bus_block bus) m = (b, m1, hs, level)"
    by (metis prod_cases4)
  from assms t b have "bus_block bus' = b"
    by (auto simp: bus_advance_to_def Let_def bus_send_def bus_process_def)
  with advance_write_back_ok [OF _ b] show ?thesis
    by (auto simp: disk_follows_def)
qed

text \<open>Between two machines of one run: the second is as well-formed as the first, with the same ROMs, and
  its media are as well tracked.\<close>

definition machine_follows :: "machine \<Rightarrow> machine \<Rightarrow> bool" where
  "machine_follows m m' \<longleftrightarrow> (machine_ok m \<longrightarrow> machine_ok m') \<and> roms (ma_memory m') = roms (ma_memory m)
     \<and> disk_follows (ma_bus m) (ma_bus m')"

lemma machine_follows_refl [simp]: "machine_follows m m"
  by (simp add: machine_follows_def)

lemma machine_follows_trans [trans]:
  "machine_follows m1 m2 \<Longrightarrow> machine_follows m2 m3 \<Longrightarrow> machine_follows m1 m3"
  by (simp add: machine_follows_def disk_follows_def)

lemma follows_record_event [simp]: "machine_follows m (record_event event m') \<longleftrightarrow> machine_follows m m'"
  by (simp add: machine_follows_def machine_ok_def record_event_def)

lemma follows_fold_record_event: "machine_follows m m' \<Longrightarrow> machine_follows m (fold record_event es m')"
  by (induction es arbitrary: m') simp_all

lemma follows_tick_loop: "tick_loop n m = Some m' \<Longrightarrow> machine_follows m m'"
proof (induction n arbitrary: m)
  case (Suc n)
  then obtain bus memory where adv:
      "bus_advance_to physical_memory_ops (ma_ticks m + 1) (ma_bus m) (ma_memory m) = Some (bus, memory)"
    and rest: "tick_loop n (m\<lparr>ma_ticks := ma_ticks m + 1, ma_bus := bus, ma_memory := memory\<rparr>) = Some m'"
    by (auto simp: Let_def bind_eq_Some_conv)
  have "machine_follows m (m\<lparr>ma_ticks := ma_ticks m + 1, ma_bus := bus, ma_memory := memory\<rparr>)"
    using adv roms_bus_advance [OF adv] disk_follows_advance [OF adv]
    by (auto simp: machine_follows_def machine_ok_def intro: bus_reachable.advance)
  also have "machine_follows \<dots> m'"
    using rest by (rule Suc.IH)
  finally show ?case .
qed simp

lemma retire_block: "bus_block (fst (bus_retire_trace_events tick bus)) = bus_block bus"
  by (simp add: bus_retire_trace_events_def case_prod_unfold Let_def)

lemma follows_advance_ticks: 
  assumes "advance_ticks n m = Some m'"
  shows "machine_follows m m'"
proof -
  from assms obtain m1 where m1: "tick_loop (unat n) m = Some m1"
    and m': "m' = (let (bus, traces) = bus_retire_trace_events (ma_ticks m1) (ma_bus m1)
       in fold record_event (map ObsTrace traces) (m1\<lparr>ma_bus := bus\<rparr>))"
    by (auto simp: advance_ticks_def)
  let ?m2 = "m1\<lparr>ma_bus := fst (bus_retire_trace_events (ma_ticks m1) (ma_bus m1))\<rparr>"
  note follows_tick_loop [OF m1]
  also have "machine_follows m1 ?m2"
    by (auto simp: machine_follows_def machine_ok_def retire_block intro: disk_follows_same bus_reachable.retire)
  finally show ?thesis
    by (simp add: m' case_prod_unfold Let_def follows_fold_record_event)
qed

lemma follows_finish_instruction:
  assumes "finish_instruction outcome m = Some (m', plan)"
  shows "machine_follows m m'"
proof (cases outcome)
  case (OutSynchronousException kind pc)
  with assms obtain m1 m2 where "advance_ticks 1 m = Some m1" "advance_ticks (entry_ticks kind) m1 = Some m2"
      "m' = record_event (ObsException kind) m2"
    by (auto simp: finish_instruction_def bind_eq_Some_conv)
  then show ?thesis
    by (auto dest!: follows_advance_ticks intro: machine_follows_trans)
qed (use assms in \<open>auto simp: finish_instruction_def Let_def dest!: follows_advance_ticks\<close>)

lemma follows_enter_exception: "enter_exception kind pc m = Some (m', plan) \<Longrightarrow> machine_follows m m'"
  by (auto simp: enter_exception_def dest!: follows_advance_ticks)

section \<open>What the backend does to a machine between instructions\<close>

lemma follows_translate:
  assumes "translate physical_memory_ops (ma_mmu m) (ma_memory m) va acc user = (w, memory, r)"
  shows "machine_follows m (m\<lparr>ma_mmu := w, ma_memory := memory\<rparr>)"
  using assms roms_translate [OF assms]
  by (auto simp: machine_follows_def machine_ok_def intro: mmu_reachable.walk)

lemma follows_mmio_fault:
  "record_invalid_mmio_fault (ma_mmu m) va acc user = (w, fault) \<Longrightarrow> machine_follows m (m\<lparr>ma_mmu := w\<rparr>)"
  by (auto simp: machine_follows_def machine_ok_def intro: mmu_reachable.device)

lemma follows_bus_access:
  "bus_access t now (ma_bus m) = Some (bus, r) \<Longrightarrow> machine_follows m (m\<lparr>ma_bus := bus\<rparr>)"
  by (auto simp: machine_follows_def machine_ok_def intro: bus_reachable.access disk_follows_access)

lemma follows_claim:
  "machine_follows m (m\<lparr>ma_bus := (ma_bus m)\<lparr>bus_interrupts := fst (ic_do_claim (bus_interrupts (ma_bus m)))\<rparr>\<rparr>)"
  by (auto simp: machine_follows_def machine_ok_def intro: bus_reachable.claim disk_follows_same)

lemma follows_store: "machine_follows m (m\<lparr>ma_memory := ram_put (ma_memory m) offset bytes\<rparr>)"
  by (simp add: machine_follows_def machine_ok_def)

text \<open>The CP15 operations that a guest instruction can decode to.\<close>

definition cp15_decoded :: "cp15_operation \<Rightarrow> bool" where
  "cp15_decoded operation \<longleftrightarrow> (\<exists>v. cp15_set_ttbr0 v = Ok operation) \<or> (\<exists>v. cp15_set_vector_base v = Ok operation)
     \<or> (\<exists>v. operation = cp15_set_mmu_enabled v) \<or> operation = InvalidateAll"

lemma follows_cp15:
  assumes "cp15_decoded operation"
  shows "machine_follows m (m\<lparr>ma_mmu := apply_cp15 operation (ma_mmu m)\<rparr>)"
  using assms
  by (auto simp: machine_follows_def machine_ok_def cp15_decoded_def simp del: apply_cp15.simps
      intro: mmu_reachable.intros)

end
