(* ===== verification/Unicorn_Run.thy ===== *)
theory Unicorn_Run
  imports Unicorn_Backend Core_Frame
begin

text \<open>
  What a bounded run of the Unicorn backend does to the machine: the callbacks keep its histories,
  its ROMs and its virtual time, instructions are charged once, and no run crosses its deadline.
\<close>

section \<open>The callbacks\<close>

definition pending_ok :: "backend_data \<Rightarrow> bool" where
  "pending_ok d \<longleftrightarrow> (\<forall>operation. bd_pending_cp15 d = Some (CpOperation operation) \<longrightarrow> cp15_decoded operation)"

text \<open>\<open>uc'\<close> follows \<open>uc\<close> inside one run, after \<open>n\<close> more instructions have begun.\<close>

definition uc_follows :: "nat \<Rightarrow> 'g unicorn \<Rightarrow> 'g unicorn \<Rightarrow> bool" where
  "uc_follows n uc uc' \<longleftrightarrow> machine_follows (uc_machine uc) (uc_machine uc')
     \<and> ma_ticks (uc_machine uc') = ma_ticks (uc_machine uc)
     \<and> bd_executed (uc_data uc') = bd_executed (uc_data uc) + of_nat n
     \<and> (pending_ok (uc_data uc) \<longrightarrow> pending_ok (uc_data uc'))"

lemma uc_follows_refl [simp]: "uc_follows 0 uc uc"
  by (simp add: uc_follows_def)

lemma uc_follows_trans [trans]: "uc_follows n a b \<Longrightarrow> uc_follows k b c \<Longrightarrow> uc_follows (n + k) a c"
  by (auto simp: uc_follows_def intro: machine_follows_trans)

text \<open>Steps that leave the machine, the count and the pending operation alone.\<close>

lemma uc_follows_quiet [simp]:
  "uc_follows n uc (uc'\<lparr>uc_state := g\<rparr>) \<longleftrightarrow> uc_follows n uc uc'"
  "uc_follows n uc (put_register e r v uc') \<longleftrightarrow> uc_follows n uc uc'"
  "uc_follows n uc (stop_engine e uc') \<longleftrightarrow> uc_follows n uc uc'"
  "uc_follows n uc (set_callback_stop stop uc') \<longleftrightarrow> uc_follows n uc uc'"
  "uc_follows n uc (uc'\<lparr>uc_data := bd_callback_stop_update g' d\<rparr>) \<longleftrightarrow> uc_follows n uc (uc'\<lparr>uc_data := d\<rparr>)"
  "uc_follows n uc (on_data (bd_pending_exception_update f) uc') \<longleftrightarrow> uc_follows n uc uc'"
  "uc_follows n uc (record_mmio_fault e address acc detail uc') \<longleftrightarrow> uc_follows n uc uc'"
  by (simp_all add: uc_follows_def put_register_def stop_engine_def record_mmio_fault_def pending_ok_def)

lemma uc_follows_machine:
  assumes "machine_follows (uc_machine uc) m" and "ma_ticks m = ma_ticks (uc_machine uc)"
  shows "uc_follows 0 uc (set_machine m uc)"
  using assms by (simp add: uc_follows_def pending_ok_def)

lemma follows_tlb_callback: "uc_follows 0 uc (fst (virtual_tlb_callback e address ty uc))"
proof (cases "mmu_access ty")
  case None
  then show ?thesis by (simp add: virtual_tlb_callback_def)
next
  case (Some acc)
  show ?thesis
  proof (cases "eng_reg_read e (uc_state uc) CPSR")
    case (Inl x)
    with Some show ?thesis by (simp add: virtual_tlb_callback_def)
  next
    case (Inr cpsr)
    let ?m = "uc_machine uc"
    let ?va = "VirtualAddress (ucast address)"
    let ?user = "(ucast cpsr :: u32) AND 0x1f = 0x10"
    obtain w memory r where tr:
      "translate physical_memory_ops (ma_mmu ?m) (ma_memory ?m) ?va acc ?user = (w, memory, r)"
      by (metis prod_cases3)
    let ?m1 = "?m\<lparr>ma_mmu := w, ma_memory := memory\<rparr>"
    have m1: "machine_follows ?m ?m1" by (rule follows_translate [OF tr])
    then have one: "uc_follows 0 uc (set_machine ?m1 uc)" by (intro uc_follows_machine) simp_all
    obtain w' fault where rec: "record_invalid_mmio_fault (ma_mmu ?m1) ?va acc ?user = (w', fault)"
      by fastforce
    have "machine_follows ?m (?m1\<lparr>ma_mmu := w'\<rparr>)"
      using m1 follows_mmio_fault [OF rec] by (rule machine_follows_trans)
    then have two: "uc_follows 0 uc (set_machine (?m1\<lparr>ma_mmu := w'\<rparr>) uc)"
      by (intro uc_follows_machine) simp_all
    show ?thesis
      using one two tr rec Some Inr
      by (cases r; cases acc) (simp_all add: virtual_tlb_callback_def Let_def)
  qed
qed

lemma follows_tlb_run: "tlb_run (virtual_tlb_callback e) uc uc' \<Longrightarrow> uc_follows 0 uc uc'"
proof (induction rule: tlb_run.induct)
  case (tlb_call uc uc' address ty)
  then show ?case using uc_follows_trans [OF _ follows_tlb_callback, of 0] by simp
qed simp_all

lemma cp15_pending_decoded: "cp15_pending read cp15 pc = Some (CpOperation operation) \<Longrightarrow> cp15_decoded operation"
  by (auto simp: cp15_pending_def cp15_decoded_def Let_def split: if_splits sum.splits option.splits)

lemma follows_trap_cp15: "uc_follows 0 uc (trap_cp15 e address cp15 uc)"
proof -
  have pend: "uc_follows 0 uc (on_data (\<lambda>d. d\<lparr>bd_pending_cp15 := Some p\<rparr>) uc)"
    if "\<And>operation. p = CpOperation operation \<Longrightarrow> cp15_decoded operation" for p
    using that by (simp add: uc_follows_def pending_ok_def)
  show ?thesis
    by (auto simp: trap_cp15_def Let_def intro!: pend intro: cp15_pending_decoded split: option.split)
qed

lemma follows_trap_instruction: "uc_follows 0 uc (trap_instruction e address instruction uc)"
  by (auto simp: trap_instruction_def trap_breakpoint_def trap_supervisor_call_def follows_trap_cp15
      split: option.split)

lemma engine_runs_vmem:
  "engine_runs e \<Longrightarrow> tlb_run cb uc (fst (eng_vmem_read e cb uc address p n))"
  "engine_runs e \<Longrightarrow> tlb_run cb uc (fst (eng_vmem_translate e cb uc address p))"
  by (simp_all add: engine_runs_def)

lemma follows_trap_callback:
  assumes "engine_runs e"
  shows "uc_follows 0 uc (a32_synchronous_trap_callback e address len uc)"
proof -
  obtain uc' r where read: "eng_vmem_read e (virtual_tlb_callback e) uc address ProtExec 4 = (uc', r)"
    by fastforce
  then have "tlb_run (virtual_tlb_callback e) uc uc'"
    using engine_runs_vmem(1) [OF assms, of "virtual_tlb_callback e" uc address ProtExec 4] by simp
  then have "uc_follows 0 uc uc'" by (rule follows_tlb_run)
  with uc_follows_trans [OF this follows_trap_instruction, of e address] read show ?thesis
    by (cases r) (simp_all add: a32_synchronous_trap_callback_def)
qed

lemma follows_machine_bus_access:
  "machine_bus_access t uc = Some (uc', r) \<Longrightarrow> uc_follows 0 uc uc'"
  by (auto simp: machine_bus_access_def Let_def intro!: uc_follows_machine follows_bus_access)

lemma follows_mmio_read_callback:
  assumes "mmio_read_callback e offset len uc = Some (uc', v)"
  shows "uc_follows 0 uc uc'"
proof (cases "mmio_width_try_from len")
  case (Inl x)
  with assms show ?thesis by (auto simp: mmio_read_callback_def Let_def)
next
  case (Inr width)
  with assms obtain uc1 r where
    acc: "machine_bus_access (mmio_read (PhysicalAddress (ucast (MMIO_BASE + offset))) width) uc = Some (uc1, r)"
    by (auto simp: mmio_read_callback_def Let_def)
  from follows_machine_bus_access [OF this] assms Inr acc show ?thesis
    by (cases r) (auto simp: mmio_read_callback_def Let_def split: option.splits)
qed

lemma follows_mmio_write_callback:
  assumes "mmio_write_callback e offset len v uc = Some uc'"
  shows "uc_follows 0 uc uc'"
proof (cases "mmio_width_try_from len")
  case (Inl x)
  with assms show ?thesis by (auto simp: mmio_write_callback_def Let_def)
next
  case (Inr width)
  with assms obtain uc1 r where acc: "machine_bus_access
      (mmio_write (PhysicalAddress (ucast (MMIO_BASE + offset))) width (ucast v)) uc = Some (uc1, r)"
    by (auto simp: mmio_write_callback_def Let_def)
  from follows_machine_bus_access [OF this] assms Inr acc show ?thesis
    by (cases r) (auto simp: mmio_write_callback_def Let_def)
qed

lemma backend_hooks_total: "hooks_total (backend_hooks e)"
  by (auto simp: hooks_total_def backend_hooks_def mmio_read_callback_def mmio_write_callback_def
      machine_bus_access_def Let_def bus_access_returns simp del: not_None_eq split: sum.split)

text \<open>A whole run of the engine.\<close>

lemma follows_code_hooks:
  assumes "engine_runs e"
  shows "uc_follows 1 uc (run_code_hooks (backend_hooks e) address len uc)"
proof -
  let ?uc = "instruction_counter_callback address len uc"
  have "uc_follows 1 uc ?uc"
    by (simp add: uc_follows_def instruction_counter_callback_def pending_ok_def)
  from uc_follows_trans [OF this follows_trap_callback [OF assms, of ?uc address len]]
  show ?thesis by (simp add: run_code_hooks_def backend_hooks_def)
qed

lemma follows_hook_run:
  assumes "hook_run (backend_hooks e) n uc uc'" and "engine_runs e"
  shows "uc_follows n uc uc'"
  using assms(1)
proof induction
  case (run_store n uc uc' m offset bytes)
  have "uc_follows 0 uc' (set_machine (m\<lparr>ma_memory := ram_put (ma_memory m) offset bytes\<rparr>) uc')"
    unfolding run_store(2) by (rule uc_follows_machine [OF follows_store]) simp
  from uc_follows_trans [OF run_store(3) this] show ?case by simp
next
  case (run_tlb n uc uc' address ty)
  from uc_follows_trans [OF run_tlb(2) follows_tlb_callback] show ?case
    by (simp add: backend_hooks_def)
next
  case (run_code n uc uc' address len)
  from uc_follows_trans [OF run_code(2) follows_code_hooks [OF assms(2)]] show ?case
    by simp
next
  case (run_invalid n uc uc')
  then show ?case by (simp add: backend_hooks_def invalid_instruction_callback_def Let_def)
next
  case (run_mmio_read n uc uc' offset len uc'' v)
  then have "mmio_read_callback e offset len uc' = Some (uc'', v)" by (simp add: backend_hooks_def)
  from uc_follows_trans [OF run_mmio_read(3) follows_mmio_read_callback [OF this]] show ?case by simp
next
  case (run_mmio_write n uc uc' offset len v uc'')
  then have "mmio_write_callback e offset len v uc' = Some uc''" by (simp add: backend_hooks_def)
  from uc_follows_trans [OF run_mmio_write(3) follows_mmio_write_callback [OF this]] show ?case by simp
qed simp_all


section \<open>Virtual time and exception entry\<close>

text \<open>
  \<open>ends_by limit b r\<close>: the call returns, time does not go back and ends at \<open>limit\<close> at the latest, and
  the machine follows the one before the call.
\<close>

definition ends_by :: "nat \<Rightarrow> 'g backend \<Rightarrow> ('g backend \<times> 'r) option \<Rightarrow> bool" where
  "ends_by limit b r \<longleftrightarrow> (\<exists>b' x. r = Some (b', x) \<and> unat (be_ticks b) \<le> unat (be_ticks b')
     \<and> unat (be_ticks b') \<le> limit \<and> machine_follows (be_machine b) (be_machine b'))"

lemma ends_by_Some:
  "ends_by limit b (Some (b', x)) \<longleftrightarrow> unat (be_ticks b) \<le> unat (be_ticks b')
     \<and> unat (be_ticks b') \<le> limit \<and> machine_follows (be_machine b) (be_machine b')"
  by (simp add: ends_by_def)

lemma ends_by_map [simp]: "ends_by limit b (map_option (\<lambda>(b, x). (b, f x)) r) \<longleftrightarrow> ends_by limit b r"
  by (auto simp: ends_by_def)

lemma ends_by_from:
  assumes "ends_by limit b1 r" and "unat (be_ticks b) \<le> unat (be_ticks b1)"
    and "machine_follows (be_machine b) (be_machine b1)"
  shows "ends_by limit b r"
  using assms by (auto simp: ends_by_def intro: machine_follows_trans)

lemma be_machine_put [simp]:
  "be_machine (put_machine m b) = m" "be_machine (put_engine g b) = be_machine b"
  "be_machine (fst (set_register e r v b)) = be_machine b"
  by (simp_all add: put_machine_def put_engine_def set_register_def case_prod_unfold Let_def)

lemma be_deferred_put [simp]:
  "be_deferred (put_machine m b) = be_deferred b" "be_deferred (put_engine g b) = be_deferred b"
  "be_deferred (fst (set_register e r v b)) = be_deferred b"
  by (simp_all add: put_machine_def put_engine_def set_register_def case_prod_unfold Let_def)

lemma step_then_keeps:
  assumes "be_machine (fst r) = m" and "\<And>b. be_machine b = m \<Longrightarrow> be_machine (fst (f b)) = m"
  shows "be_machine (fst (step_then r f)) = m"
  using assms by (cases r) (auto simp: step_then_def split: sum.split)

lemma mode_bits_destination: "mode_bits (destination_mode kind) \<noteq> None"
  by (cases kind) simp_all

lemma enter_exception_keeps_machine:
  "\<exists>r. be_enter_exception e plan b = Some r \<and> be_machine (fst r) = be_machine b"
proof (cases "get_register e b CPSR")
  case (Inr previous)
  have "be_machine (fst (step_then (set_register e CPSR d b) (\<lambda>b.
            step_then (set_register e SPSR previous b) (\<lambda>b.
            step_then (set_register e LR l b) (\<lambda>b.
              set_register e PC (vector_base b + v) b))))) = be_machine b" for d l v
    by (intro step_then_keeps) simp_all
  with Inr mode_bits_destination [of "req_kind (plan_request plan)"] show ?thesis
    by (auto simp: be_enter_exception_def Let_def simp del: split_paired_Ex)
qed (simp add: be_enter_exception_def)

lemma enter_or_arg_ends: "unat (be_ticks b) \<le> limit \<Longrightarrow> ends_by limit b (enter_or_arg e plan kind b)"
  using enter_exception_keeps_machine [of e plan b] by (auto simp: enter_or_arg_def ends_by_def)

lemma enter_exception_returns:
  assumes "time_left (ma_ticks m) 1"
  shows "\<exists>m'. enter_exception kind pc m = Some (m', plan_synchronous kind pc)
     \<and> unat (ma_ticks m') = unat (ma_ticks m) + 1 \<and> machine_follows m m'"
proof -
  obtain m' where "advance_ticks (entry_ticks kind) m = Some m'" "unat (ma_ticks m') = unat (ma_ticks m) + 1"
    using advance_ticks_returns [of m "entry_ticks kind"] assms by auto
  then have "enter_exception kind pc m = Some (record_event (ObsException kind) m', plan_synchronous kind pc)"
      "unat (ma_ticks (record_event (ObsException kind) m')) = unat (ma_ticks m) + 1"
    by (simp_all add: enter_exception_def)
  with follows_enter_exception show ?thesis by blast
qed

lemma finish_instruction_follows:
  assumes "time_left (ma_ticks m) (outcome_cost outcome)"
  shows "\<exists>m'. finish_instruction outcome m = Some (m', outcome_plan outcome)
     \<and> unat (ma_ticks m') = unat (ma_ticks m) + outcome_cost outcome \<and> machine_follows m m'"
  using finish_instruction_returns [OF assms] follows_finish_instruction by blast

lemma finish_completed_returns:
  assumes "time_left (ma_ticks m) n"
  shows "\<exists>m'. finish_completed n m = Some m' \<and> unat (ma_ticks m') = unat (ma_ticks m) + n \<and> machine_follows m m'"
  using assms
proof (induction n arbitrary: m)
  case (Suc n)
  then have "time_left (ma_ticks m) (outcome_cost OutCompleted)" by (simp add: time_left_def)
  from finish_instruction_follows [OF this] obtain m1 where m1:
      "finish_instruction OutCompleted m = Some (m1, None)" "unat (ma_ticks m1) = unat (ma_ticks m) + 1"
      "machine_follows m m1" by auto
  then have "time_left (ma_ticks m1) n" using Suc.prems by (simp add: time_left_def)
  from Suc.IH [OF this] m1 show ?case by (auto intro: machine_follows_trans)
qed simp

section \<open>The parts of a run\<close>

text \<open>
  What a part of a run may still spend: it starts before the deadline, which is the limit, or, without
  a deadline, two ticks below the limit.
\<close>

definition may_spend :: "u64 option \<Rightarrow> nat \<Rightarrow> nat \<Rightarrow> bool" where
  "may_spend tick_deadline limit ticks \<longleftrightarrow> limit + 2 ^ 32 \<le> 2 ^ 64 \<and>
     (case tick_deadline of None \<Rightarrow> ticks + 2 \<le> limit | Some deadline \<Rightarrow> ticks < limit \<and> unat deadline = limit)"

lemma may_spend_less: "may_spend d limit t \<Longrightarrow> t < limit" "may_spend d limit t \<Longrightarrow> limit + 2 ^ 32 \<le> 2 ^ 64"
  by (auto simp: may_spend_def split: option.splits)

lemma may_spend_mono: "may_spend d limit t \<Longrightarrow> t' \<le> t \<Longrightarrow> may_spend d limit t'"
  by (auto simp: may_spend_def split: option.splits)

lemma deliver_irq_ends:
  assumes "unat (be_ticks b) < limit" and "limit + 2 ^ 32 \<le> 2 ^ 64"
  shows "ends_by limit b (deliver_irq e b)"
proof -
  let ?m = "be_machine b"
  let ?m1 = "?m\<lparr>ma_bus := (ma_bus ?m)\<lparr>bus_interrupts := fst (ic_do_claim (bus_interrupts (ma_bus ?m)))\<rparr>\<rparr>"
  have claim: "machine_follows ?m ?m1" by (rule follows_claim)
  have "time_left (ma_ticks ?m1) 1" using assms by (simp add: time_left_def)
  note entry = enter_exception_returns [OF this, of ExInterrupt]
  have enter: "ends_by limit b (Option.bind (enter_exception ExInterrupt (VirtualAddress pc) ?m1) (\<lambda>(m, plan).
      map_option (\<lambda>(b, stop). (b, Some stop)) (enter_or_arg e plan ExInterrupt (put_machine m (put_machine ?m1 b)))))" for pc
  proof -
    obtain m2 plan where m2: "enter_exception ExInterrupt (VirtualAddress pc) ?m1 = Some (m2, plan)"
      "unat (ma_ticks m2) = unat (ma_ticks ?m) + 1" "machine_follows ?m1 m2"
      using entry [of "VirtualAddress pc"] by auto
    have "ends_by limit b (enter_or_arg e plan ExInterrupt (put_machine m2 (put_machine ?m1 b)))"
      by (rule ends_by_from [OF enter_or_arg_ends])
        (use assms m2 claim in \<open>auto intro: machine_follows_trans\<close>)
    then show ?thesis by (simp add: m2)
  qed
  have quiet: "ends_by limit b (Some (put_machine ?m1 b, None))" "ends_by limit b (Some (b, None))"
    using assms claim by (simp_all add: ends_by_Some)
  show ?thesis
    using enter quiet
    by (auto simp: deliver_irq_def Let_def case_prod_unfold split: sum.split option.split)
qed


lemma outcome_plan_Some: "outcome \<noteq> OutCompleted \<Longrightarrow> \<exists>plan. outcome_plan outcome = Some plan"
  by (cases outcome) (simp_all add: Let_def)

lemma finish_outcome_ends:
  assumes "unat (be_ticks b) + outcome_cost outcome \<le> limit" and "limit + 2 ^ 32 \<le> 2 ^ 64"
    and "outcome \<noteq> OutCompleted"
  shows "ends_by limit b (Option.bind (finish_instruction outcome (be_machine b)) (\<lambda>(m, plan). case plan of
      None \<Rightarrow> Some (put_machine m b, stop)
    | Some plan \<Rightarrow> enter_or_arg e plan (kind plan) (put_machine m b)))"
proof -
  have "time_left (be_ticks b) (outcome_cost outcome)" using assms by (simp add: time_left_def)
  from finish_instruction_follows [OF this] outcome_plan_Some [OF assms(3)] obtain m plan where m:
      "finish_instruction outcome (be_machine b) = Some (m, Some plan)"
      "unat (ma_ticks m) = unat (be_ticks b) + outcome_cost outcome" "machine_follows (be_machine b) m"
    by auto
  have "ends_by limit b (enter_or_arg e plan (kind plan) (put_machine m b))"
    by (rule ends_by_from [OF enter_or_arg_ends]) (use assms m in auto)
  then show ?thesis by (simp add: m)
qed

lemma deadline_next: 
  assumes "unat (t :: u64) < unat d" and "d \<noteq> t + 1"
  shows "unat t + 2 \<le> unat d"
proof -
  have "unat t + 1 < 2 ^ 64" using assms unat_u64_lt [of d] by simp
  then have "unat (t + 1) = unat t + 1" by (subst unat_add_no_wrap) simp_all
  then have "unat t + 1 \<noteq> unat d" using assms(2) by (metis word_unat_eq_iff)
  with assms(1) show ?thesis by simp
qed

lemma finish_synchronous_ends:
  assumes "may_spend tick_deadline limit (unat (be_ticks b))"
  shows "ends_by limit b (finish_synchronous_exception e kind pc tick_deadline b)"
proof (cases "\<exists>d. tick_deadline = Some d \<and> be_ticks b + 1 = d")
  case True
  note less = may_spend_less [OF assms]
  then have "time_left (be_ticks b) (outcome_cost OutCompleted)" by (simp add: time_left_def)
  from finish_instruction_follows [OF this] less True show ?thesis
    by (auto simp: finish_synchronous_exception_def ends_by_Some)
next
  case False
  then have "unat (be_ticks b) + 2 \<le> limit" "limit + 2 ^ 32 \<le> 2 ^ 64"
    using assms deadline_next [of "be_ticks b"]
    by (simp_all add: may_spend_def split: option.splits) blast
  from finish_outcome_ends [of b "OutSynchronousException kind pc" limit "StopException kind" e "\<lambda>_. kind"] this False
  show ?thesis
    by (auto simp: finish_synchronous_exception_def split: option.splits)
qed

lemma finish_pending_ends:
  assumes "may_spend tick_deadline limit (unat (be_ticks b))"
  shows "ends_by limit b (finish_pending_exception e pending tick_deadline b)"
proof (cases pending)
  case (PendSynchronous kind pc)
  with finish_synchronous_ends [OF assms] show ?thesis by (simp add: finish_pending_exception_def)
next
  case (PendFault fault)
  have "ends_by limit b (Option.bind (finish_instruction (OutFault fault (VirtualAddress pc)) (be_machine b))
      (\<lambda>(m, plan). case plan of None \<Rightarrow> Some (put_machine m b, StopUnicorn UcArg)
      | Some plan \<Rightarrow> enter_or_arg e plan (req_kind (plan_request plan)) (put_machine m b)))" for pc
    using may_spend_less [OF assms] by (intro finish_outcome_ends) simp_all
  with PendFault show ?thesis by (simp add: finish_pending_exception_def Let_def)
qed

lemma finish_fault_read_machine: "be_machine (fst (finish_fault_read e r v b)) = be_machine b"
  by (simp add: finish_fault_read_def case_prod_unfold Let_def)

lemma finish_cp15_ends:
  assumes "unat (be_ticks b) \<le> limit"
    and "\<And>pc. pending = CpUndefined pc \<Longrightarrow> may_spend tick_deadline limit (unat (be_ticks b))"
    and "\<And>operation. pending = CpOperation operation \<Longrightarrow> cp15_decoded operation"
  shows "ends_by limit b (finish_cp15 e pending tick_deadline b)"
proof (cases pending)
  case (CpOperation operation)
  with assms(1) follows_cp15 [OF assms(3)] show ?thesis
    by (simp add: finish_cp15_def ends_by_Some Let_def case_prod_unfold del: apply_cp15.simps)
next
  case (CpUndefined pc)
  with finish_synchronous_ends [OF assms(2)] show ?thesis by (simp add: finish_cp15_def)
next
  case (CpReadFaultStatus r)
  have "ends_by limit b (Some (finish_fault_read e r v b))" for v
    using assms(1) finish_fault_read_machine [of e r v b]
    by (cases "finish_fault_read e r v b") (simp add: ends_by_Some)
  with CpReadFaultStatus show ?thesis by (simp add: finish_cp15_def Let_def)
next
  case (CpReadFaultAddress r)
  have "ends_by limit b (Some (finish_fault_read e r v b))" for v
    using assms(1) finish_fault_read_machine [of e r v b]
    by (cases "finish_fault_read e r v b") (simp add: ends_by_Some)
  with CpReadFaultAddress show ?thesis by (simp add: finish_cp15_def Let_def)
qed

definition stop_faults :: "backend_stop \<Rightarrow> bool" where
  "stop_faults stop \<longleftrightarrow> (case stop of StopMmuFault _ \<Rightarrow> True | StopMmioFault _ _ _ \<Rightarrow> True | _ \<Rightarrow> False)"

lemma finish_callback_stop_ends:
  assumes "unat (be_ticks b) \<le> limit"
    and "stop_faults stop \<Longrightarrow> may_spend tick_deadline limit (unat (be_ticks b))"
  shows "ends_by limit b (finish_callback_stop e stop tick_deadline b)"
proof (cases stop)
  case (StopMmuFault fault)
  with assms finish_pending_ends show ?thesis by (simp add: finish_callback_stop_def stop_faults_def)
next
  case (StopMmioFault address acc detail)
  have "ends_by limit b (finish_pending_exception e (PendFault fault) tick_deadline
      (put_machine (be_machine b\<lparr>ma_mmu := w\<rparr>) b))"
    if "record_invalid_mmio_fault (ma_mmu (be_machine b)) va acc user = (w, fault)" for w fault va user
    by (rule ends_by_from [OF finish_pending_ends])
      (use assms StopMmioFault follows_mmio_fault [OF that] in \<open>auto simp: stop_faults_def\<close>)
  with StopMmioFault show ?thesis
    by (auto simp: finish_callback_stop_def Let_def split: prod.split)
qed (use assms in \<open>simp_all add: finish_callback_stop_def ends_by_Some\<close>)

lemma resume_deferred_ends:
  assumes "be_deferred b \<noteq> None" and "unat (be_ticks b) \<le> limit" "limit + 2 ^ 32 \<le> 2 ^ 64"
    and "\<And>d. tick_deadline = Some d \<Longrightarrow> unat d \<le> limit"
    and "tick_deadline = None \<Longrightarrow> unat (be_ticks b) < limit"
  shows "ends_by limit b (resume_deferred_exception e tick_deadline b)"
proof (cases "\<exists>d. tick_deadline = Some d \<and> be_ticks b \<ge> d")
  case True
  with assms show ?thesis by (auto simp: resume_deferred_exception_def ends_by_Some)
next
  case False
  obtain kind pc where d: "be_deferred b = Some (kind, pc)" using assms(1) by auto
  have less: "unat (be_ticks b) < limit"
    using False assms by (cases tick_deadline) (auto simp: word_nat not_le intro: less_le_trans)
  then have "time_left (be_ticks b) 1" using assms(3) by (simp add: time_left_def)
  from enter_exception_returns [OF this] obtain m plan where m:
      "enter_exception kind pc (be_machine b) = Some (m, plan)" "unat (ma_ticks m) = unat (be_ticks b) + 1"
      "machine_follows (be_machine b) m" by blast
  have "ends_by limit b (enter_or_arg e plan kind (put_machine m (b\<lparr>be_deferred := None\<rparr>)))"
    by (rule ends_by_from [OF enter_or_arg_ends]) (use less m in auto)
  with d False m show ?thesis
    by (auto simp: resume_deferred_exception_def Let_def split: option.split)
qed


lemma ends_by_bind: "ends_by limit b r \<Longrightarrow> ends_by limit b (Option.bind r (\<lambda>(b, x). Some (b, f x)))"
  by (auto simp: ends_by_def)

lemma faulting_stop: "bd_callback_stop d = Some stop \<Longrightarrow> stop_faults stop \<Longrightarrow> faulting_instruction d"
  by (cases stop) (simp_all add: faulting_instruction_def stop_faults_def)

lemma settle_run_ends:
  assumes "unat (be_ticks b) \<le> limit" and "limit + 2 ^ 32 \<le> 2 ^ 64"
    and fault: "faulting_instruction d \<Longrightarrow> may_spend tick_deadline limit (unat (be_ticks b))"
    and open_end: "\<not> faulting_instruction d \<Longrightarrow> unat (be_ticks b) = limit \<Longrightarrow> tick_deadline = Some (be_ticks b)"
    and pending: "pending_ok d"
  shows "ends_by limit b (settle_run e tick_deadline result d b)"
proof -
  have stop: "ends_by limit b (finish_callback_stop e stop tick_deadline b)"
    if "bd_callback_stop d = Some stop" for stop
    by (intro finish_callback_stop_ends assms(1) fault faulting_stop [OF that])
  have exc: "ends_by limit b (finish_pending_exception e exc tick_deadline b)"
    if "bd_pending_exception d = Some exc" for exc
    using that by (intro finish_pending_ends fault) (simp add: faulting_instruction_def)
  have cp15: "ends_by limit b (finish_cp15 e p tick_deadline b)" if "bd_pending_cp15 d = Some p" for p
    using that assms(1) pending
    by (intro finish_cp15_ends fault) (auto simp: faulting_instruction_def pending_ok_def)
  have irq: "ends_by limit b (deliver_before_deadline e tick_deadline b)"
  proof (cases "unat (be_ticks b) < limit")
    case True
    with deliver_irq_ends [OF _ assms(2), of b] show ?thesis
      by (simp add: deliver_before_deadline_def ends_by_Some)
  next
    case False
    with assms(1) have "unat (be_ticks b) = limit" by simp
    then have "tick_deadline = Some (be_ticks b)"
      using open_end may_spend_less(1) [OF fault] by blast
    with assms(1) show ?thesis by (simp add: deliver_before_deadline_def ends_by_Some)
  qed
  show ?thesis
    unfolding settle_run_def using irq by (auto split: option.split intro: stop exc cp15 ends_by_bind)
qed

text \<open>
  \<open>count\<close> instructions at most were begun: the notes of the callbacks are settled within the limit.
\<close>

lemma finish_run_ends:
  assumes may: "may_spend tick_deadline limit (unat (be_ticks b) + count - 1)" and "0 < count"
    and executed: "unat (bd_executed (uc_data (be_engine b))) \<le> count"
    and pending: "pending_ok (uc_data (be_engine b))"
  shows "ends_by limit b (finish_run e tick_deadline result b)"
proof -
  let ?d = "uc_data (be_engine b)"
  define completed where "completed = unat (bd_executed ?d) - (if faulting_instruction ?d then 1 else 0)"
  let ?b1 = "b\<lparr>be_engine := on_data (\<lambda>d. d\<lparr>bd_callback_stop := None, bd_pending_cp15 := None,
                bd_pending_exception := None\<rparr>) (be_engine b)\<rparr>"
  note less = may_spend_less [OF may]
  have fit: "unat (be_ticks b) + completed \<le> limit"
    using less(1) executed \<open>0 < count\<close> by (simp add: completed_def)
  then have "time_left (be_ticks b) completed" using less(2) by (simp add: time_left_def)
  from finish_completed_returns [OF this] obtain m where m: "finish_completed completed (be_machine b) = Some m"
    "unat (ma_ticks m) = unat (be_ticks b) + completed" "machine_follows (be_machine b) m" by blast
  have "ends_by limit (put_machine m ?b1) (settle_run e tick_deadline result ?d (put_machine m ?b1))"
  proof (rule settle_run_ends [OF _ less(2) _ _ pending])
    show "unat (be_ticks (put_machine m ?b1)) \<le> limit" using fit m by simp
    show "may_spend tick_deadline limit (unat (be_ticks (put_machine m ?b1)))" if "faulting_instruction ?d"
      using that executed \<open>0 < count\<close> m by (intro may_spend_mono [OF may]) (simp add: completed_def)
    show "tick_deadline = Some (be_ticks (put_machine m ?b1))"
      if "\<not> faulting_instruction ?d" "unat (be_ticks (put_machine m ?b1)) = limit"
      using that may m(2) executed \<open>0 < count\<close>
      by (auto simp: may_spend_def completed_def word_unat_eq_iff split: option.splits)
  qed
  then have "ends_by limit (put_machine m ?b1) (finish_run e tick_deadline result b)"
    by (simp add: finish_run_def Let_def completed_def [symmetric] m(1))
  then show ?thesis
    by (rule ends_by_from) (use m in auto)
qed


section \<open>Whole runs\<close>

lemma resume_deferred_stops:
  "resume_deferred_exception e tick_deadline b = Some (b', x) \<Longrightarrow> be_deferred b \<noteq> None \<Longrightarrow> x \<noteq> None"
  by (auto simp: resume_deferred_exception_def Let_def bind_eq_Some_conv split: if_splits)

lemma deliver_irq_None:
  "deliver_irq e b = Some (b', None) \<Longrightarrow> be_ticks b' = be_ticks b \<and> machine_follows (be_machine b) (be_machine b')"
  using follows_claim [of "be_machine b"]
  by (auto simp: deliver_irq_def Let_def case_prod_unfold bind_eq_Some_conv split: sum.splits if_splits option.splits)

lemma emu_start_ends:
  assumes "engine_runs e" and may: "may_spend tick_deadline limit (unat (be_ticks b) + count - 1)" and "0 < count"
  shows "ends_by limit b (Option.bind (eng_emu_start e (backend_hooks e) (be_engine (clear_run b)) begin_at until timeout count)
     (\<lambda>(uc, result). finish_run e tick_deadline result ((clear_run b)\<lparr>be_engine := uc\<rparr>)))"
proof -
  let ?uc = "be_engine (clear_run b)"
  from assms(1) backend_hooks_total \<open>0 < count\<close> obtain uc r n where
    start: "eng_emu_start e (backend_hooks e) ?uc begin_at until timeout count = Some (uc, r)"
    and n: "n \<le> count" and run: "hook_run (backend_hooks e) n ?uc uc"
    unfolding engine_runs_def by metis
  from follows_hook_run [OF run assms(1)] have f: "uc_follows n ?uc uc" .
  have m: "machine_follows (be_machine b) (uc_machine uc)" "ma_ticks (uc_machine uc) = be_ticks b"
    using f by (simp_all add: uc_follows_def clear_run_def)
  have "pending_ok (uc_data uc)"
    using f by (simp add: uc_follows_def clear_run_def pending_ok_def)
  moreover have "unat (bd_executed (uc_data uc)) \<le> count"
  proof -
    have "unat (of_nat n :: u64) \<le> n" by (simp add: unsigned_of_nat take_bit_nat_less_eq_self)
    then show ?thesis using f n by (simp add: uc_follows_def clear_run_def)
  qed
  ultimately have "ends_by limit ((clear_run b)\<lparr>be_engine := uc\<rparr>)
      (finish_run e tick_deadline r ((clear_run b)\<lparr>be_engine := uc\<rparr>))"
    using may m \<open>0 < count\<close> by (intro finish_run_ends) simp_all
  then have "ends_by limit b (finish_run e tick_deadline r ((clear_run b)\<lparr>be_engine := uc\<rparr>))"
    by (rule ends_by_from) (use m in simp_all)
  then show ?thesis by (simp add: start)
qed

lemma emulate_ends:
  assumes "engine_runs e" and may: "may_spend tick_deadline limit (unat (be_ticks b) + count - 1)" and "0 < count"
  shows "ends_by limit b (emulate e start until count tick_deadline b)"
proof -
  have start: "ends_by limit b (Option.bind (eng_emu_start e (backend_hooks e) (be_engine (clear_run (put_engine g b)))
      begin_at until' timeout count)
     (\<lambda>(uc, result). finish_run e tick_deadline result ((clear_run (put_engine g b))\<lparr>be_engine := uc\<rparr>)))"
    for g begin_at until' timeout
    by (rule ends_by_from [OF emu_start_ends [OF assms(1)]]) (use assms in simp_all)
  have error: "ends_by limit b (Some (put_engine g b, stop))" for g and stop :: backend_stop
    using may_spend_less(1) [OF may] \<open>0 < count\<close> by (simp add: ends_by_Some)
  obtain g exits where "eng_set_exits e (uc_state (be_engine b)) (if until = u32_max then [] else [ucast until]) = (g, exits)"
    by fastforce
  with start error show ?thesis
    by (simp add: emulate_def Let_def del: if_split split: sum.split)
qed

definition run_limit :: "u64 option \<Rightarrow> nat \<Rightarrow> nat \<Rightarrow> nat \<Rightarrow> bool" where
  "run_limit tick_deadline limit ticks budget \<longleftrightarrow> limit + 2 ^ 32 \<le> 2 ^ 64 \<and>
     (case tick_deadline of None \<Rightarrow> ticks + budget + 1 \<le> limit | Some deadline \<Rightarrow> ticks \<le> limit \<and> unat deadline = limit)"

lemma run_ends:
  assumes "engine_runs e" and "0 < budget" and limit: "run_limit tick_deadline limit (unat (be_ticks b)) budget"
  shows "ends_by limit b (run_with_tick_deadline e start until budget tick_deadline b)"
proof (cases "be_deferred b")
  case (Some dx)
  have "ends_by limit b (resume_deferred_exception e tick_deadline b)"
    using Some limit by (intro resume_deferred_ends) (auto simp: run_limit_def split: option.splits)
  then obtain b' x where b': "resume_deferred_exception e tick_deadline b = Some (b', x)" "ends_by limit b (Some (b', x))"
    by (auto simp: ends_by_def)
  with resume_deferred_stops [OF b'(1)] Some obtain stop where "x = Some stop" by auto
  with b' show ?thesis by (simp add: run_with_tick_deadline_def ends_by_Some)
next
  case None
  then have resume: "resume_deferred_exception e tick_deadline b = Some (b, None)"
    by (simp add: resume_deferred_exception_def)
  show ?thesis
  proof (cases "\<exists>d. tick_deadline = Some d \<and> be_ticks b \<ge> d")
    case True
    with resume limit show ?thesis
      by (auto simp: run_with_tick_deadline_def ends_by_Some run_limit_def)
  next
    case False
    have less: "unat (be_ticks b) < limit" "limit + 2 ^ 32 \<le> 2 ^ 64"
      using limit False by (auto simp: run_limit_def word_nat split: option.splits)
    let ?irq = "if tick_deadline \<noteq> None then deliver_irq e b else Some (b, None)"
    have "ends_by limit b ?irq"
      using deliver_irq_ends [OF less] less(1) by (simp add: ends_by_Some)
    then obtain b1 x where b1: "?irq = Some (b1, x)" "ends_by limit b (Some (b1, x))"
      by (auto simp: ends_by_def)
    show ?thesis
    proof (cases x)
      case (Some stop)
      with b1 resume False show ?thesis
        by (simp add: run_with_tick_deadline_def ends_by_Some split: option.split)
    next
      case None
      with b1 have same: "be_ticks b1 = be_ticks b" "machine_follows (be_machine b) (be_machine b1)"
        using deliver_irq_None [of e b b1] by (auto split: if_splits)
      define count where "count = limited_budget tick_deadline (be_ticks b1) budget"
      have count: "0 < count" "may_spend tick_deadline limit (unat (be_ticks b1) + count - 1)"
        using limit False \<open>0 < budget\<close> same(1)
        by (auto simp: count_def limited_budget_def may_spend_def run_limit_def usize_max_def word_nat unat_sub
            unat_gt_0 split: option.splits)
      have "ends_by limit b (emulate e start until count tick_deadline b1)"
        by (rule ends_by_from [OF emulate_ends [OF assms(1) count(2,1)]]) (use same in simp_all)
      with resume b1 None False show ?thesis
        by (simp add: run_with_tick_deadline_def count_def split: option.split)
    qed
  qed
qed


section \<open>Properties of a run\<close>

text \<open>The sample engine with a new machine, all registers zero.\<close>

definition sample_backend :: "machine \<Rightarrow> (arm_register \<Rightarrow> u64) backend" where
  "sample_backend m = \<lparr>be_engine = \<lparr>uc_state = (\<lambda>_. 0), uc_data = \<lparr>bd_machine = m, bd_executed = 0,
     bd_callback_stop = None, bd_pending_cp15 = None, bd_pending_exception = None\<rparr>\<rparr>, be_deferred = None\<rparr>"

text \<open>
  C3. A run towards a tick deadline always returns, time never goes back, and whatever the guest does
  - instructions, faults, traps, interrupts, an exception carried over from the run before - the run
  ends at the deadline at the latest. The instruction budget must be positive: the engine reads a
  count of zero as no limit.
\<close>

theorem run_respects_deadline:
  assumes "engine_runs e" and "0 < instruction_budget"
    and "be_ticks b \<le> deadline" and "unat deadline + 2 ^ 32 \<le> 2 ^ 64"
  shows "\<exists>b' stop. run_until_tick e start until instruction_budget deadline b = Some (b', stop)
     \<and> be_ticks b \<le> be_ticks b' \<and> be_ticks b' \<le> deadline"
proof -
  have "run_limit (Some deadline) (unat deadline) (unat (be_ticks b)) instruction_budget"
    using assms by (simp add: run_limit_def word_nat)
  from run_ends [OF assms(1,2) this, of start until] show ?thesis
    by (auto simp: ends_by_def run_until_tick_def word_nat)
qed

theorem run_respects_deadline_witness:
  "\<exists>b' stop. run_until_tick sample_engine 0 0xffffffff 1000 5 (sample_backend (machine_new memory_empty 16)) = Some (b', stop)
     \<and> be_ticks b' \<le> 5"
  using run_respects_deadline [OF sample_engine_runs, of 1000 "sample_backend (machine_new memory_empty 16)" 5 0 "0xffffffff"]
  by (auto simp: sample_backend_def machine_new_def)

text \<open>
  C4. Guest execution cannot damage the machine: after any bounded run, with or without a deadline, the
  bus and the MMU walker are still in a state that guest operations can produce from reset, so that
  what is proved of those states holds, and both ROMs are what they were.
\<close>

theorem run_keeps_machine:
  assumes "engine_runs e" and "0 < instruction_budget" and "machine_ok (be_machine b)"
    and "run_limit tick_deadline limit (unat (be_ticks b)) instruction_budget"
  shows "\<exists>b' stop. run_with_tick_deadline e start until instruction_budget tick_deadline b = Some (b', stop)
     \<and> unat (be_ticks b') \<le> limit \<and> machine_ok (be_machine b')
     \<and> roms (ma_memory (be_machine b')) = roms (ma_memory (be_machine b))"
  using run_ends [OF assms(1,2,4), of start until] assms(3)
  by (auto simp: ends_by_def machine_follows_def)

lemma new_machine_ok: "machine_ok (machine_new memory capacity)"
  by (simp add: machine_ok_def machine_new_def bus_reachable.new mmu_reachable.start)

theorem run_keeps_machine_witness:
  "\<exists>b' stop. be_run sample_engine 0 0x8000 10 (sample_backend (machine_new memory_empty 16)) = Some (b', stop)
     \<and> unat (be_ticks b') \<le> 11 \<and> machine_ok (be_machine b')"
proof -
  have "machine_ok (be_machine (sample_backend (machine_new memory_empty 16)))"
    by (simp add: sample_backend_def new_machine_ok)
  moreover have "run_limit None 11 (unat (be_ticks (sample_backend (machine_new memory_empty 16)))) 10"
    by (simp add: run_limit_def sample_backend_def machine_new_def)
  ultimately show ?thesis
    using run_keeps_machine [OF sample_engine_runs, of 10 "sample_backend (machine_new memory_empty 16)" None 11 0 "0x8000"]
    by (auto simp: be_run_def)
qed

text \<open>
  C21. A trap that meets the deadline is split, not lost: when one tick is left, its instruction is
  charged and its entry put off, and the next run with later deadline enters it, so that the backend
  ends in the state, and with the stop, of a trap that had all the time it needs.
\<close>

theorem deferred_trap_resumes:
  assumes "unat (be_ticks b) + 2 + 2 ^ 32 \<le> 2 ^ 64" and "be_deferred b = None"
    and "be_ticks b + 1 < later"
  shows "\<exists>b1. finish_synchronous_exception e kind pc (Some (be_ticks b + 1)) b = Some (b1, StopInstructionBudget)
     \<and> be_ticks b1 = be_ticks b + 1
     \<and> run_until_tick e start until instruction_budget later b1 = finish_synchronous_exception e kind pc None b"
proof -
  have "time_left (be_ticks b) 1" using assms(1) by (simp add: time_left_def)
  from advance_ticks_returns [of "be_machine b" 1] this obtain m1 where
    m1: "advance_ticks 1 (be_machine b) = Some m1" "unat (ma_ticks m1) = unat (be_ticks b) + 1" by auto
  have "unat (be_ticks b + 1) = unat (be_ticks b) + 1"
    using assms(1) by (subst unat_add_no_wrap) simp_all
  with m1(2) have t1: "ma_ticks m1 = be_ticks b + 1" by (simp add: word_unat_eq_iff)
  have "time_left (ma_ticks m1) 1" using assms(1) m1(2) by (simp add: time_left_def)
  from enter_exception_returns [OF this, of kind pc] obtain m2 where
    m2: "enter_exception kind pc m1 = Some (m2, plan_synchronous kind pc)" by blast
  then have full: "finish_instruction (OutSynchronousException kind pc) (be_machine b) = Some (m2, Some (plan_synchronous kind pc))"
    using m1 by (auto simp: finish_instruction_def enter_exception_def)
  let ?b1 = "(put_machine m1 b)\<lparr>be_deferred := Some (kind, pc)\<rparr>"
  have put_off: "finish_synchronous_exception e kind pc (Some (be_ticks b + 1)) b = Some (?b1, StopInstructionBudget)"
    using m1 by (simp add: finish_synchronous_exception_def finish_instruction_def)
  have again: "put_machine m2 (?b1\<lparr>be_deferred := None\<rparr>) = put_machine m2 b"
    using assms(2) by (simp add: put_machine_def)
  have "run_until_tick e start until instruction_budget later ?b1
      = enter_or_arg e (plan_synchronous kind pc) kind (put_machine m2 b)"
    using assms(3) t1 again m2
    by (cases "enter_or_arg e (plan_synchronous kind pc) kind (put_machine m2 b)")
      (auto simp: run_until_tick_def run_with_tick_deadline_def resume_deferred_exception_def Let_def)
  then have "run_until_tick e start until instruction_budget later ?b1
      = finish_synchronous_exception e kind pc None b"
    by (simp add: finish_synchronous_exception_def full)
  moreover have "be_ticks ?b1 = be_ticks b + 1" by (simp add: t1)
  ultimately show ?thesis using put_off by blast
qed

theorem deferred_trap_resumes_witness:
  "\<exists>b1. finish_synchronous_exception sample_engine ExSupervisorCall (VirtualAddress 8) (Some 1)
        (sample_backend (machine_new memory_empty 16)) = Some (b1, StopInstructionBudget)
     \<and> run_until_tick sample_engine 8 0xffffffff 100 9 b1
         = finish_synchronous_exception sample_engine ExSupervisorCall (VirtualAddress 8) None
             (sample_backend (machine_new memory_empty 16))"
  using deferred_trap_resumes [of "sample_backend (machine_new memory_empty 16)" 9 sample_engine
      ExSupervisorCall "VirtualAddress 8" 8 "0xffffffff" 100]
  by (auto simp: sample_backend_def machine_new_def)


text \<open>
  What a run that ends in a memory fault costs: with \<open>n\<close> instructions begun it charges \<open>n\<close> ticks, one of
  them for the abort entry, and one tick when none had begun. So the last begun instruction counts as
  the faulting one, whether the fault is its own data access or the fetch of the instruction after it.
\<close>

theorem fault_run_cost:
  assumes "bd_callback_stop (uc_data (be_engine b)) = Some (StopMmuFault fault)"
    and "time_left (be_ticks b) (unat (bd_executed (uc_data (be_engine b))) + 1)"
  shows "\<exists>b' stop. finish_run e tick_deadline result b = Some (b', stop)
     \<and> unat (be_ticks b') = unat (be_ticks b) + max 1 (unat (bd_executed (uc_data (be_engine b))))"
proof -
  let ?d = "uc_data (be_engine b)"
  let ?n = "unat (bd_executed ?d)"
  let ?b1 = "b\<lparr>be_engine := on_data (\<lambda>d. d\<lparr>bd_callback_stop := None, bd_pending_cp15 := None,
                bd_pending_exception := None\<rparr>) (be_engine b)\<rparr>"
  have faulting: "faulting_instruction ?d" using assms(1) by (simp add: faulting_instruction_def)
  have "time_left (be_ticks b) (?n - 1)" using assms(2) by (simp add: time_left_def)
  from finish_completed_returns [OF this] obtain m where m: "finish_completed (?n - 1) (be_machine b) = Some m"
    "unat (ma_ticks m) = unat (be_ticks b) + (?n - 1)" by blast
  let ?b2 = "put_machine m ?b1"
  have "\<exists>b' stop. finish_pending_exception e (PendFault fault) tick_deadline ?b2 = Some (b', stop)
      \<and> unat (be_ticks b') = unat (ma_ticks m) + 1"
  proof -
    define pc where "pc = (case program_counter e ?b2 of Inr pc \<Rightarrow> pc | Inl _ \<Rightarrow> va_get (mf_address fault))"
    let ?outcome = "OutFault fault (VirtualAddress pc)"
    have "time_left (ma_ticks m) (outcome_cost ?outcome)"
      using assms(2) m(2) by (simp add: time_left_def)
    from finish_instruction_follows [OF this] obtain m' plan where
      m': "finish_instruction ?outcome m = Some (m', Some plan)" "unat (ma_ticks m') = unat (ma_ticks m) + 1"
      using outcome_plan_Some [of ?outcome] by auto
    have "\<exists>b' stop. enter_or_arg e plan kind (put_machine m' ?b2) = Some (b', stop)
        \<and> unat (be_ticks b') = unat (ma_ticks m) + 1" for kind
      using enter_exception_keeps_machine [of e plan "put_machine m' ?b2"] m'(2)
      by (auto simp: enter_or_arg_def)
    then show ?thesis by (simp add: finish_pending_exception_def pc_def [symmetric] m'(1))
  qed
  with m faulting assms(1) show ?thesis
    by (auto simp: finish_run_def Let_def settle_run_def finish_callback_stop_def)
qed

theorem fault_run_cost_witness:
  "\<exists>b' stop. finish_run sample_engine None (Ok ()) ((sample_backend (machine_new memory_empty 16))
       \<lparr>be_engine := \<lparr>uc_state = (\<lambda>_. 0), uc_data = \<lparr>bd_machine = machine_new memory_empty 16, bd_executed = 3,
         bd_callback_stop = Some (StopMmuFault \<lparr>mf_address = VirtualAddress 0x9000,
           mf_status = fault_status_new Translation False Fetch\<rparr>),
         bd_pending_cp15 = None, bd_pending_exception = None\<rparr>\<rparr>\<rparr>) = Some (b', stop)
     \<and> unat (be_ticks b') = 3"
  using fault_run_cost [of "(sample_backend (machine_new memory_empty 16))
       \<lparr>be_engine := \<lparr>uc_state = (\<lambda>_. 0), uc_data = \<lparr>bd_machine = machine_new memory_empty 16, bd_executed = 3,
         bd_callback_stop = Some (StopMmuFault \<lparr>mf_address = VirtualAddress 0x9000,
           mf_status = fault_status_new Translation False Fetch\<rparr>),
         bd_pending_cp15 = None, bd_pending_exception = None\<rparr>\<rparr>\<rparr>"
      "\<lparr>mf_address = VirtualAddress 0x9000, mf_status = fault_status_new Translation False Fetch\<rparr>" sample_engine None "Ok ()"]
  by (simp add: time_left_def machine_new_def)

end
