(* ===== verification/Unicorn_Entry.thy ===== *)
theory Unicorn_Entry
  imports Unicorn_Run
begin

text \<open>
  What the guest sees of the Unicorn backend: the register transition of an exception entry, the
  protection of the coprocessor, and the interrupts that a run takes.
\<close>

section \<open>Register writes\<close>

lemma ucast_u64_back [simp]: "ucast (ucast (v :: u32) :: u64) = v"
  by (rule bit_word_eqI) (simp add: bit_simps)

lemma set_register_Ok:
  assumes "engine_registers e" and "set_register e r v b = (b', Ok ())" and "register_value_ok r v"
  shows "get_register e b' r = Ok v" and "r \<noteq> CPSR \<Longrightarrow> r' \<noteq> r \<Longrightarrow> get_register e b' r' = get_register e b r'"
proof -
  from assms(2) obtain g where g: "eng_reg_write e (uc_state (be_engine b)) r (ucast v) = (g, Ok ())"
    and b': "b' = put_engine g b"
    by (auto simp: set_register_def Let_def map_err_Ok split: prod.splits)
  from assms(1,3) g have "eng_reg_read e g r = Ok (ucast v)"
      "r \<noteq> CPSR \<Longrightarrow> r' \<noteq> r \<Longrightarrow> eng_reg_read e g r' = eng_reg_read e (uc_state (be_engine b)) r'"
    unfolding engine_registers_def by blast+
  then show "get_register e b' r = Ok v" and "r \<noteq> CPSR \<Longrightarrow> r' \<noteq> r \<Longrightarrow> get_register e b' r' = get_register e b r'"
    by (simp_all add: get_register_def b' put_engine_def)
qed

lemma step_then_Ok: "step_then r f = (s', Ok ()) \<longleftrightarrow> (\<exists>s. r = (s, Ok ()) \<and> f s = (s', Ok ()))"
  by (cases r) (auto simp: step_then_def split: sum.splits)

lemma and_3_dvd: "(v :: u32) AND 3 = 0 \<longleftrightarrow> 4 dvd unat v"
  using unat_and_mask [of v 2] by (simp add: mask_eq_exp_minus_1 word_unat_eq_iff dvd_eq_mod_eq_0)

lemma and_1f_dvd: "(v :: u32) AND 0x1f = 0 \<longleftrightarrow> 32 dvd unat v"
  using unat_and_mask [of v 5] by (simp add: mask_eq_exp_minus_1 word_unat_eq_iff dvd_eq_mod_eq_0)

lemma vector_address_aligned:
  assumes "(base :: u32) AND 0x1f = 0"
  shows "(base + vector_offset kind) AND 3 = 0"
proof -
  have "4 dvd unat base"
    using assms dvd_trans [of 4 32 "unat base"] by (simp add: and_1f_dvd)
  moreover have "4 dvd unat (vector_offset kind)" by (cases kind) simp_all
  ultimately have "4 dvd (unat base + unat (vector_offset kind)) mod 2 ^ 32"
    by (intro dvd_mod) (simp_all add: dvd_add)
  then show ?thesis by (simp add: and_3_dvd unat_word_ariths)
qed

text \<open>The status register of an exception: mode bits, thumb bit cleared, interrupts masked.\<close>

lemma destination_cpsr_bits:
  assumes "mode_bits md = Some m" and "n < 32"
  shows "bit ((cpsr AND NOT 0x3f) OR m OR push_bit 7 1 :: u32) n \<longleftrightarrow>
    (if n < 6 then bit m n else n = 7 \<or> bit cpsr n)"
proof -
  have "\<forall>n < 32. bit ((cpsr AND NOT 0x3f) OR m OR push_bit 7 1 :: u32) n \<longleftrightarrow>
    (if n < 6 then bit m n else n = 7 \<or> bit cpsr n)"
    using assms(1) unfolding bit_u32_enum
    by (cases md) (auto simp: bit_simps)
  with assms(2) show ?thesis by blast
qed


lemma destination_cpsr_ok:
  assumes "mode_bits md = Some m"
  shows "((cpsr AND NOT 0x3f) OR m OR push_bit 7 1) AND 0x1f = m"
    and "register_value_ok CPSR ((cpsr AND NOT 0x3f) OR m OR push_bit 7 1)"
proof -
  define d where "d = ((cpsr AND NOT 0x3f) OR m OR push_bit 7 1 :: u32)"
  note bits = destination_cpsr_bits [OF assms, of _ cpsr, folded d_def]
  have m: "cp15_is_privileged m" "m AND 0x1f = m" "m AND 0x20 = 0"
    using assms by (cases md; auto simp: cp15_is_privileged_def)+
  have "\<forall>n < 32. bit (d AND 0x1f) n \<longleftrightarrow> bit (m AND 0x1f) n"
    unfolding bit_u32_enum by (simp add: bit_and_iff bits)
  then have mode: "d AND 0x1f = m"
    by (simp add: bit_eq_iff possible_bit_word m(2))
  have "\<forall>n < 32. bit (d AND 0x20) n \<longleftrightarrow> bit (m AND 0x20) n"
    unfolding bit_u32_enum by (simp add: bit_and_iff bits)
  then have "d AND 0x20 = 0"
    by (simp add: bit_eq_iff possible_bit_word m(3))
  with mode m(1) have "register_value_ok CPSR d"
    by (simp add: register_value_ok_def cp15_is_privileged_def m(2))
  with mode show "((cpsr AND NOT 0x3f) OR m OR push_bit 7 1) AND 0x1f = m"
    and "register_value_ok CPSR ((cpsr AND NOT 0x3f) OR m OR push_bit 7 1)"
    by (simp_all only: d_def)
qed

section \<open>Exception entry\<close>

text \<open>
  C17. Exception entry is the documented A32 transition. When the engine accepts the four writes, the old
  CPSR is in SPSR, LR holds the address of the plan plus 8 for a data abort and plus 4 otherwise, PC
  is the entry of the exception in the vector table at VBAR, and the new CPSR has the mode of the
  exception, the thumb bit cleared and interrupts masked, with every other bit kept; the machine is
  not touched.
\<close>

theorem exception_entry:
  assumes "engine_registers e" and "va_get (mmu_vector_base (ma_mmu (be_machine b))) AND 0x1f = 0"
    and "be_enter_exception e plan b = Some (b', Ok ())"
  shows "\<exists>cpsr cpsr'. get_register e b CPSR = Ok cpsr \<and> get_register e b' SPSR = Ok cpsr
     \<and> get_register e b' LR = Ok (va_get (req_pc (plan_request plan))
          + (if req_kind (plan_request plan) = ExDataAbort then 8 else 4))
     \<and> get_register e b' PC = Ok (vector_base b + vector_offset (req_kind (plan_request plan)))
     \<and> get_register e b' CPSR = Ok cpsr'
     \<and> Some (cpsr' AND 0x1f) = mode_bits (destination_mode (req_kind (plan_request plan)))
     \<and> (\<forall>n < 32. 5 \<le> n \<longrightarrow> (bit cpsr' n \<longleftrightarrow> n = 7 \<or> n \<noteq> 5 \<and> bit cpsr n))
     \<and> be_machine b' = be_machine b"
proof -
  let ?kind = "req_kind (plan_request plan)"
  let ?lr = "va_get (req_pc (plan_request plan)) + link_offset ?kind"
  from assms(3) obtain cpsr where cpsr: "get_register e b CPSR = Ok cpsr"
    by (auto simp: be_enter_exception_def split: sum.splits)
  obtain md where md: "mode_bits (destination_mode ?kind) = Some md"
    using mode_bits_destination [of ?kind] by blast
  define d where "d = ((cpsr AND NOT 0x3f) OR md OR push_bit 7 1 :: u32)"
  from assms(3) cpsr md obtain b1 b2 b3 where
      w1: "set_register e CPSR d b = (b1, Ok ())" and w2: "set_register e SPSR cpsr b1 = (b2, Ok ())"
      and w3: "set_register e LR ?lr b2 = (b3, Ok ())"
      and w4: "set_register e PC (vector_base b3 + vector_offset ?kind) b3 = (b', Ok ())"
    unfolding be_enter_exception_def d_def by (auto simp: Let_def step_then_Ok)
  have same: "be_machine b1 = be_machine b" "be_machine b2 = be_machine b" "be_machine b3 = be_machine b"
      "be_machine b' = be_machine b"
    using be_machine_put(3) [of e CPSR d b] be_machine_put(3) [of e SPSR cpsr b1]
      be_machine_put(3) [of e LR ?lr b2] be_machine_put(3) [of e PC "vector_base b3 + vector_offset ?kind" b3]
    by (simp_all add: w1 w2 w3 w4)
  have vb: "vector_base b3 = vector_base b" using same by (simp add: vector_base_def)
  have ok: "register_value_ok SPSR cpsr" "register_value_ok LR ?lr"
      "register_value_ok PC (vector_base b3 + vector_offset ?kind)"
    using assms(2) vector_address_aligned [of "vector_base b" ?kind]
    by (simp_all add: register_value_ok_def vb) (simp add: vector_base_def)
  note r1 = set_register_Ok [OF assms(1) w1 destination_cpsr_ok(2) [OF md, of cpsr, folded d_def]]
  note r2 = set_register_Ok [OF assms(1) w2 ok(1)]
  note r3 = set_register_Ok [OF assms(1) w3 ok(2)]
  note r4 = set_register_Ok [OF assms(1) w4 ok(3)]
  have "get_register e b' SPSR = Ok cpsr" "get_register e b' LR = Ok ?lr" "get_register e b' CPSR = Ok d"
    using r1 r2 r3 r4 by simp_all
  moreover have "get_register e b' PC = Ok (vector_base b + vector_offset ?kind)"
    using r4 by (simp add: vb)
  moreover have "?lr = va_get (req_pc (plan_request plan)) + (if ?kind = ExDataAbort then 8 else 4)"
    by (cases ?kind) (simp_all add: link_offset_def)
  moreover have "\<forall>n < 32. 5 \<le> n \<longrightarrow> (bit d n \<longleftrightarrow> n = 7 \<or> n \<noteq> 5 \<and> bit cpsr n)"
  proof -
    have "\<not> bit md 5" using md by (cases "destination_mode ?kind") auto
    moreover have "n = 5" if "5 \<le> n" "n < 6" for n :: nat using that by simp
    ultimately show ?thesis
      using destination_cpsr_bits [OF md, of _ cpsr, folded d_def] by fastforce
  qed
  ultimately show ?thesis
    using cpsr destination_cpsr_ok(1) [OF md, of cpsr, folded d_def] md same(4) by metis
qed


theorem exception_entry_witness:
  "\<exists>b'. be_enter_exception sample_engine (plan_synchronous ExSupervisorCall (VirtualAddress 0x8100))
        (put_engine ((\<lambda>_. 0)(CPSR := 0x60000010)) (sample_backend (machine_new memory_empty 16))) = Some (b', Ok ())
     \<and> get_register sample_engine b' SPSR = Ok 0x60000010 \<and> get_register sample_engine b' LR = Ok 0x8104
     \<and> get_register sample_engine b' PC = Ok 8"
proof -
  let ?plan = "plan_synchronous ExSupervisorCall (VirtualAddress 0x8100)"
  let ?b = "put_engine ((\<lambda>_. 0)(CPSR := 0x60000010)) (sample_backend (machine_new memory_empty 16))"
  have plan: "req_kind (plan_request ?plan) = ExSupervisorCall" "req_pc (plan_request ?plan) = VirtualAddress 0x8100"
    by (simp_all add: plan_synchronous_def request_synchronous_def)
  have cpsr: "get_register sample_engine ?b CPSR = Ok 0x60000010"
    by (simp add: get_register_def put_engine_def sample_engine_def)
  have base: "mmu_vector_base (ma_mmu (be_machine ?b)) = VirtualAddress 0"
    by (simp add: sample_backend_def machine_new_def mmu_new_def)
  have ok: "set_register sample_engine r v b = (put_engine ((uc_state (be_engine b))(r := ucast v)) b, Ok ())" for r v b
    by (simp add: set_register_def sample_engine_def)
  obtain b' where b': "be_enter_exception sample_engine ?plan ?b = Some (b', Ok ())"
    by (simp add: be_enter_exception_def cpsr plan ok step_then_def Let_def)
  from exception_entry [OF sample_engine_registers _ b'] base cpsr plan
  have "get_register sample_engine b' SPSR = Ok 0x60000010" "get_register sample_engine b' LR = Ok 0x8104"
      "get_register sample_engine b' PC = Ok 8"
    by (auto simp: vector_base_def)
  with b' show ?thesis by blast
qed

section \<open>Traps\<close>

text \<open>The instruction words of a CP15 transfer, and those that trap before they can be one.\<close>

lemma trap_cp15_effect:
  "uc_machine (trap_cp15 e address cp15 uc) = uc_machine uc"
  "bd_pending_exception (uc_data (trap_cp15 e address cp15 uc)) = bd_pending_exception (uc_data uc)"
  "\<not> cp15_is_privileged (read_or_zero e uc CPSR) \<Longrightarrow>
     bd_pending_cp15 (uc_data (trap_cp15 e address cp15 uc))
       = (if condition_holds (cp_condition cp15) (read_or_zero e uc CPSR)
          then Some (CpUndefined (ucast address)) else bd_pending_cp15 (uc_data uc))"
  by (simp_all add: trap_cp15_def put_register_def stop_engine_def Let_def split: option.split)

lemma cp15_word_traps_last:
  assumes "decode_cp15 instruction = Some cp15"
  shows "decode_breakpoint instruction = None" and "instruction AND 0x0f000000 \<noteq> 0x0f000000"
proof -
  have "(instruction AND 0x0f000010) AND 0x0f000000 = instruction AND 0x0f000000"
    by (simp add: and.assoc)
  then have *: "instruction AND 0x0f000000 = 0x0e000000"
    using assms by (auto simp: decode_cp15_def split: if_splits)
  then show "instruction AND 0x0f000000 \<noteq> 0x0f000000" by simp
  have "(instruction AND 0x0ff000f0) AND 0x0f000000 = instruction AND 0x0f000000"
    by (simp add: and.assoc)
  with * have "instruction AND 0x0ff000f0 \<noteq> 0x01200070" by auto
  then show "decode_breakpoint instruction = None" by (simp add: decode_breakpoint_def)
qed

text \<open>
  User code cannot reach the coprocessor. Whatever instruction the trap callback sees outside the
  privileged modes, it leaves the machine alone and notes no CP15 operation and no fault register
  read: a transfer whose condition holds is noted as an undefined instruction at its own address, and
  every other word changes no CP15 note at all.
\<close>

theorem user_mode_cp15_undefined:
  assumes "\<not> cp15_is_privileged (read_or_zero e uc CPSR)"
  shows "uc_machine (trap_instruction e address instruction uc) = uc_machine uc
     \<and> bd_pending_cp15 (uc_data (trap_instruction e address instruction uc))
       = (case decode_cp15 instruction of
            Some cp15 \<Rightarrow> if condition_holds (cp_condition cp15) (read_or_zero e uc CPSR)
              then Some (CpUndefined (ucast address)) else bd_pending_cp15 (uc_data uc)
          | None \<Rightarrow> bd_pending_cp15 (uc_data uc))"
proof (cases "decode_cp15 instruction")
  case None
  then show ?thesis
    by (simp add: trap_instruction_def trap_breakpoint_def trap_supervisor_call_def put_register_def
        stop_engine_def split: option.split)
next
  case (Some cp15)
  with cp15_word_traps_last have "trap_instruction e address instruction uc = trap_cp15 e address cp15 uc"
    by (simp add: trap_instruction_def)
  with Some trap_cp15_effect(1) [of e address cp15 uc] trap_cp15_effect(3) [OF assms] show ?thesis
    by simp
qed

text \<open>\<open>MCR p15, 0, r0, c1, c0, 0\<close> in user mode.\<close>

theorem user_mode_cp15_undefined_witness:
  "bd_pending_cp15 (uc_data (trap_instruction sample_engine 0x8000 0xee010f10
      \<lparr>uc_state = (\<lambda>_. 0)(CPSR := 0x10), uc_data = \<lparr>bd_machine = machine_new memory_empty 16, bd_executed = 0,
        bd_callback_stop = None, bd_pending_cp15 = None, bd_pending_exception = None\<rparr>\<rparr>))
   = Some (CpUndefined 0x8000)"
proof -
  let ?uc = "\<lparr>uc_state = (\<lambda>_. 0)(CPSR := 0x10), uc_data = \<lparr>bd_machine = machine_new memory_empty 16, bd_executed = 0,
        bd_callback_stop = None, bd_pending_cp15 = None, bd_pending_exception = None\<rparr>\<rparr>"
  have cpsr: "read_or_zero sample_engine ?uc CPSR = 0x10"
    by (simp add: read_or_zero_def sample_engine_def)
  have dec: "\<exists>cp15. decode_cp15 0xee010f10 = Some cp15 \<and> cp_condition cp15 = 14"
    by (simp add: decode_cp15_def register_of_index_def)
  have "\<not> cp15_is_privileged (read_or_zero sample_engine ?uc CPSR)"
    by (simp add: cpsr cp15_is_privileged_def)
  from user_mode_cp15_undefined [OF this, of "0x8000" "0xee010f10"] dec show ?thesis
    by (auto simp: cpsr condition_holds_def)
qed


section \<open>Interrupts and time\<close>

lemma claim_taken_iff:
  "snd (ic_do_claim ic) \<noteq> None \<longleftrightarrow> ic_claim ic \<noteq> None \<or> (\<exists>s. deliverable (process_signals ic) s)"
  using claim_filter [of "process_signals ic"]
  by (auto simp: ic_do_claim_def Let_def claim_reference_def)

lemma irq_mask_bit: "(cpsr :: u32) AND 128 = 0 \<longleftrightarrow> \<not> bit cpsr 7"
  using and_exp_eq_0_iff_not_bit [of cpsr 7] by simp

text \<open>
  C30. A boundary takes an interrupt exactly when CPSR.I is clear and the interrupt controller has
  something to claim: a source that is still claimed from before, or one that is pending and enabled.
  An interrupt taken costs one tick, and a boundary that takes none costs nothing.
\<close>

theorem irq_taken_iff:
  assumes "get_register e b CPSR = Ok cpsr" and "get_register e b PC = Ok pc"
    and "time_left (be_ticks b) 1"
  shows "\<exists>b' taken. deliver_irq e b = Some (b', taken)
     \<and> (taken \<noteq> None \<longleftrightarrow> \<not> bit cpsr 7
          \<and> (ic_claim (bus_interrupts (ma_bus (be_machine b))) \<noteq> None
             \<or> (\<exists>s. deliverable (process_signals (bus_interrupts (ma_bus (be_machine b)))) s)))
     \<and> unat (be_ticks b') = unat (be_ticks b) + (if taken = None then 0 else 1)"
proof -
  let ?ic = "bus_interrupts (ma_bus (be_machine b))"
  let ?m = "be_machine b\<lparr>ma_bus := (ma_bus (be_machine b))\<lparr>bus_interrupts := fst (ic_do_claim ?ic)\<rparr>\<rparr>"
  note claim = claim_taken_iff [of ?ic]
  show ?thesis
  proof (cases "\<not> bit cpsr 7 \<and> snd (ic_do_claim ?ic) \<noteq> None")
    case False
    with assms(1) claim show ?thesis
      by (auto simp: deliver_irq_def irq_mask_bit case_prod_unfold Let_def)
  next
    case True
    then obtain s where s: "snd (ic_do_claim ?ic) = Some s" by auto
    have "time_left (ma_ticks ?m) 1" using assms(3) by simp
    from enter_exception_returns [OF this, of ExInterrupt "VirtualAddress pc"] obtain m plan where
      m: "enter_exception ExInterrupt (VirtualAddress pc) ?m = Some (m, plan)" "unat (ma_ticks m) = unat (be_ticks b) + 1"
      by auto
    have pc: "get_register e (put_machine ?m b) PC = Ok pc"
      using assms(2) by (simp add: get_register_def put_machine_def)
    obtain b' stop where b': "enter_or_arg e plan ExInterrupt (put_machine m (put_machine ?m b)) = Some (b', stop)"
        "be_machine b' = m"
      using enter_exception_keeps_machine [of e plan "put_machine m (put_machine ?m b)"]
      by (auto simp: enter_or_arg_def)
    then have "deliver_irq e b = Some (b', Some stop)"
      using True assms(1) s pc m by (simp add: deliver_irq_def irq_mask_bit case_prod_unfold Let_def)
    with True claim b'(2) m(2) show ?thesis by simp
  qed
qed

theorem irq_taken_iff_witness:
  "\<exists>b' taken. deliver_irq sample_engine (sample_backend ((machine_new memory_empty 16)\<lparr>ma_bus :=
       bus_new\<lparr>bus_interrupts := interrupt_controller_new\<lparr>ic_claim := Some SrcUart0\<rparr>\<rparr>\<rparr>)) = Some (b', taken)
     \<and> taken \<noteq> None"
proof -
  let ?b = "sample_backend ((machine_new memory_empty 16)\<lparr>ma_bus :=
       bus_new\<lparr>bus_interrupts := interrupt_controller_new\<lparr>ic_claim := Some SrcUart0\<rparr>\<rparr>\<rparr>)"
  have "get_register sample_engine ?b CPSR = Ok 0" "get_register sample_engine ?b PC = Ok 0"
      "time_left (be_ticks ?b) 1"
    by (simp_all add: get_register_def sample_engine_def sample_backend_def machine_new_def time_left_def)
  from irq_taken_iff [OF this] show ?thesis
    by (auto simp: sample_backend_def)
qed

text \<open>
  Inside one run of the engine time stands still: however many instructions it begins and whatever
  callbacks it makes, the machine's tick count is the one at the start of the run, and the adapter
  counts exactly the instructions begun, to charge them afterwards.
\<close>

theorem run_charges_afterwards:
  assumes "engine_runs e" and "hook_run (backend_hooks e) n uc uc'"
  shows "ma_ticks (uc_machine uc') = ma_ticks (uc_machine uc)
     \<and> bd_executed (uc_data uc') = bd_executed (uc_data uc) + of_nat n"
  using follows_hook_run [OF assms(2,1)] by (simp add: uc_follows_def)

theorem run_charges_afterwards_witness:
  "bd_executed (uc_data (run_code_hooks (backend_hooks sample_engine) 4 4
     (run_code_hooks (backend_hooks sample_engine) 0 4 (be_engine (sample_backend (machine_new memory_empty 16)))))) = 2"
proof -
  let ?uc = "be_engine (sample_backend (machine_new memory_empty 16))"
  have "hook_run (backend_hooks sample_engine) (Suc (Suc 0)) ?uc
      (run_code_hooks (backend_hooks sample_engine) 4 4 (run_code_hooks (backend_hooks sample_engine) 0 4 ?uc))"
    by (intro run_code run_refl)
  from run_charges_afterwards [OF sample_engine_runs this] show ?thesis
    by (simp add: sample_backend_def)
qed

end
