(* ===== verification/Unicorn_Inspect.thy ===== *)
theory Unicorn_Inspect
  imports Unicorn_Entry
begin

text \<open>
  Inspection through the Unicorn backend: CPU state, physical and translated memory, and the search
  for a byte pattern in RAM. A result \<open>None\<close> is a panic of an MMIO callback that a physical read of
  the device window calls.
\<close>

section \<open>CPU state\<close>

record cpu_state =
  cs_registers :: "u32 list"
  cs_cpsr :: u32
  cs_spsr :: u32

fun get_registers :: "'g engine \<Rightarrow> 'g backend \<Rightarrow> arm_register list \<Rightarrow> backend_error + u32 list" where
  "get_registers e b [] = Ok []"
| "get_registers e b (r # rs) =
     and_then (get_register e b r) (\<lambda>v. and_then (get_registers e b rs) (\<lambda>vs. Ok (v # vs)))"

definition get_cpu_state :: "'g engine \<Rightarrow> 'g backend \<Rightarrow> backend_error + cpu_state" where
  "get_cpu_state e b =
     and_then (get_registers e b [R0, R1, R2, R3, R4, R5, R6, R7, R8, R9, R10, R11, R12, SP, LR, PC]) (\<lambda>registers.
     and_then (get_register e b CPSR) (\<lambda>cpsr.
     and_then (get_register e b SPSR) (\<lambda>spsr.
       Ok \<lparr>cs_registers = registers, cs_cpsr = cpsr, cs_spsr = spsr\<rparr>)))"

section \<open>Memory\<close>

text \<open>\<open>engine.mem_read\<close> on the backend.\<close>

definition read_engine_memory ::
  "'g engine \<Rightarrow> u64 \<Rightarrow> usize \<Rightarrow> 'g backend \<Rightarrow> ('g backend \<times> (backend_error + u8 list)) option" where
  "read_engine_memory e address len b =
     map_option (\<lambda>(uc, r). (b\<lparr>be_engine := uc\<rparr>, map_err BackendUnicorn r))
       (eng_mem_read e (backend_hooks e) (be_engine b) address len)"

definition read_physical_memory ::
  "'g engine \<Rightarrow> physical_address \<Rightarrow> usize \<Rightarrow> 'g backend \<Rightarrow> ('g backend \<times> (backend_error + u8 list)) option" where
  "read_physical_memory e address len b = read_engine_memory e (ucast (pa_get address)) len b"

definition engine_translate ::
  "'g engine \<Rightarrow> u64 \<Rightarrow> prot \<Rightarrow> 'g backend \<Rightarrow> 'g backend \<times> (backend_error + u64)" where
  "engine_translate e address protection b =
     (let (uc, r) = eng_vmem_translate e (virtual_tlb_callback e) (be_engine b) address protection
      in (b\<lparr>be_engine := uc\<rparr>, map_err BackendUnicorn r))"

definition u32_try_from_u64 :: "u64 \<Rightarrow> u32 option" where
  "u32_try_from_u64 v = (if unat v < 2 ^ 32 then Some (ucast v) else None)"

definition translate_virtual_address ::
  "'g engine \<Rightarrow> virtual_address \<Rightarrow> 'g backend \<Rightarrow> 'g backend \<times> (backend_error + physical_address)" where
  "translate_virtual_address e address b =
     (let (b, r) = engine_translate e (ucast (va_get address)) ProtRead b
      in (b, and_then r (\<lambda>physical.
           and_then (ok_or (u32_try_from_u64 physical) InspectionRange) (\<lambda>physical. Ok (PhysicalAddress physical)))))"

text \<open>\<open>checked_add\<close> on \<open>u32\<close>.\<close>

definition checked_add_u32 :: "u32 \<Rightarrow> u32 \<Rightarrow> u32 option" where
  "checked_add_u32 a b = (if unat a + unat b < 2 ^ 32 then Some (a + b) else None)"

definition page_remaining :: "u32 \<Rightarrow> u32" where
  "page_remaining va = PAGE_SIZE - va mod PAGE_SIZE"

text \<open>
  The body of the loop of \<open>read_translated_memory\<close> at \<open>offset\<close>: the number of bytes that remain on the
  page, and those bytes.
\<close>

definition read_page_piece ::
  "'g engine \<Rightarrow> virtual_address \<Rightarrow> usize \<Rightarrow> prot \<Rightarrow> bool \<Rightarrow> usize \<Rightarrow> 'g backend
   \<Rightarrow> ('g backend \<times> (backend_error + usize \<times> u8 list)) option" where
  "read_page_piece e address len protection reject_devices offset b =
     (case and_then (ok_or (u32_try_from_usize offset) InspectionRange) (\<lambda>offset_u32.
         ok_or (checked_add_u32 (va_get address) offset_u32) InspectionRange) of
       Inl error \<Rightarrow> Some (b, Err error)
     | Inr va \<Rightarrow>
       (let count = min (len - offset) (unat (page_remaining va));
            (b, translated) = engine_translate e (ucast va) protection b
        in case translated of
          Inl error \<Rightarrow> Some (b, Err error)
        | Inr physical \<Rightarrow>
          (case u32_try_from_u64 physical of
            None \<Rightarrow> Some (b, Err InspectionRange)
          | Some physical_u32 \<Rightarrow>
            if reject_devices \<and> maps_device (PhysicalAddress physical_u32)
            then Some (b, Err (VirtualInspectionDevice physical_u32))
            else map_option (\<lambda>(b, r). (b, and_then r (\<lambda>bytes. Ok (count, bytes))))
              (read_engine_memory e physical count b))))"

lemma page_remaining_pos: "0 < unat (page_remaining va)"
proof -
  have "unat (va mod PAGE_SIZE) < 4096"
    by (simp add: unat_mod PAGE_SIZE_def)
  then have "va mod PAGE_SIZE \<noteq> PAGE_SIZE" by (auto simp: PAGE_SIZE_def)
  then show ?thesis by (simp add: page_remaining_def unat_gt_0)
qed

lemma read_page_piece_count:
  assumes "read_page_piece e address len protection reject_devices offset b = Some (b', Ok (count, bytes))"
    and "offset < len"
  shows "0 < count" and "offset + count \<le> len"
  using assms page_remaining_pos
  by (auto simp: read_page_piece_def Let_def and_then_Ok case_prod_unfold min_def split: sum.splits option.splits if_splits)

function read_translated_loop ::
  "'g engine \<Rightarrow> virtual_address \<Rightarrow> usize \<Rightarrow> prot \<Rightarrow> bool \<Rightarrow> usize \<Rightarrow> u8 list \<Rightarrow> 'g backend
   \<Rightarrow> ('g backend \<times> (backend_error + u8 list)) option" where
  "read_translated_loop e address len protection reject_devices offset bytes b =
     (if offset < len
      then (case read_page_piece e address len protection reject_devices offset b of
          None \<Rightarrow> None
        | Some (b', Inl error) \<Rightarrow> Some (b', Err error)
        | Some (b', Inr (count, piece)) \<Rightarrow>
            read_translated_loop e address len protection reject_devices (offset + count)
              (slice_put bytes offset piece) b')
      else Some (b, Ok bytes))"
  by pat_completeness auto
termination
  by (relation "measure (\<lambda>(_, _, len, _, _, offset, _, _). len - offset)")
    (auto dest: read_page_piece_count)

definition read_translated_memory ::
  "'g engine \<Rightarrow> virtual_address \<Rightarrow> usize \<Rightarrow> prot \<Rightarrow> bool \<Rightarrow> 'g backend
   \<Rightarrow> ('g backend \<times> (backend_error + u8 list)) option" where
  "read_translated_memory e address len protection reject_devices b =
     read_translated_loop e address len protection reject_devices 0 (replicate len 0) b"

definition read_virtual_memory ::
  "'g engine \<Rightarrow> virtual_address \<Rightarrow> usize \<Rightarrow> 'g backend \<Rightarrow> ('g backend \<times> (backend_error + u8 list)) option" where
  "read_virtual_memory e address len b = read_translated_memory e address len ProtExec False b"

definition inspect_virtual_memory ::
  "'g engine \<Rightarrow> virtual_address \<Rightarrow> usize \<Rightarrow> 'g backend \<Rightarrow> ('g backend \<times> (backend_error + u8 list)) option" where
  "inspect_virtual_memory e address len b = read_translated_memory e address len ProtRead True b"

definition inspect_live_memory ::
  "'g engine \<Rightarrow> physical_range \<Rightarrow> 'g backend \<Rightarrow> ('g backend \<times> (backend_error + u8 list)) option" where
  "inspect_live_memory e r b = read_physical_memory e (pr_start r) (unat (pr_length r)) b"

section \<open>Searching RAM\<close>

definition MEMORY_SEARCH_CHUNK_SIZE :: usize where
  "MEMORY_SEARCH_CHUNK_SIZE = 1024 * 1024"

text \<open>\<open>bytes.windows(pattern.len()).position(|window| window == pattern)\<close>\<close>

fun position_window :: "u8 list \<Rightarrow> u8 list \<Rightarrow> usize option" where
  "position_window pattern [] = (if pattern = [] then Some 0 else None)"
| "position_window pattern (x # xs) =
     (if take (length pattern) (x # xs) = pattern then Some 0
      else map_option Suc (position_window pattern xs))"

fun search_chunks ::
  "'g engine \<Rightarrow> u8 list \<Rightarrow> usize list \<Rightarrow> 'g backend
   \<Rightarrow> ('g backend \<times> (backend_error + physical_address option)) option" where
  "search_chunks e pattern [] b = Some (b, Ok None)"
| "search_chunks e pattern (offset # offsets) b =
     (let ram_length = unat (mem_size Ram);
          len = min (MEMORY_SEARCH_CHUNK_SIZE + (length pattern - 1)) (ram_length - offset);
          address = PhysicalAddress (pa_get (mem_base Ram) + of_nat offset)
      in case read_physical_memory e address len b of
        None \<Rightarrow> None
      | Some (b, Inl error) \<Rightarrow> Some (b, Err error)
      | Some (b, Inr bytes) \<Rightarrow>
        (case position_window pattern bytes of
          Some index \<Rightarrow> Some (b, Ok (Some (PhysicalAddress (pa_get address + of_nat index))))
        | None \<Rightarrow> search_chunks e pattern offsets b))"

text \<open>\<open>(0..ram_length).step_by(MEMORY_SEARCH_CHUNK_SIZE)\<close>\<close>

definition chunk_offsets :: "usize list" where
  "chunk_offsets = map (\<lambda>i. i * MEMORY_SEARCH_CHUNK_SIZE)
     [0..<(unat (mem_size Ram) + MEMORY_SEARCH_CHUNK_SIZE - 1) div MEMORY_SEARCH_CHUNK_SIZE]"

definition search_memory ::
  "'g engine \<Rightarrow> u8 list \<Rightarrow> 'g backend \<Rightarrow> ('g backend \<times> (backend_error + physical_address option)) option" where
  "search_memory e pattern b =
     (if pattern = [] then Some (b, Err EmptySearchPattern)
      else if length pattern > MEMORY_SEARCH_CHUNK_SIZE
        then Some (b, Err (SearchPatternTooLarge (length pattern) MEMORY_SEARCH_CHUNK_SIZE))
      else search_chunks e pattern chunk_offsets b)"

section \<open>Execution snapshots\<close>

record execution_inspection =
  ei_registers :: "u32 list"
  ei_cpsr :: u32
  ei_spsr :: u32
  ei_mmu_enabled :: bool
  ei_instruction_address :: virtual_address
  ei_instruction_bytes :: "u8 list"
  ei_instruction_error :: "backend_error option"

definition saturating_sub_u32 :: "u32 \<Rightarrow> u32 \<Rightarrow> u32" where
  "saturating_sub_u32 a b = (if b \<le> a then a - b else 0)"

definition inspect_execution ::
  "'g engine \<Rightarrow> virtual_address option \<Rightarrow> usize \<Rightarrow> usize \<Rightarrow> 'g backend
   \<Rightarrow> ('g backend \<times> (backend_error + execution_inspection)) option" where
  "inspect_execution e address before after b =
     (case get_cpu_state e b of
       Inl error \<Rightarrow> Some (b, Err error)
     | Inr cpu \<Rightarrow>
       (let enabled = mmu_enabled (ma_mmu (be_machine b));
            start = saturating_sub_u32
              (case address of Some a \<Rightarrow> va_get a | None \<Rightarrow> cs_registers cpu ! 15) (of_nat before)
        in case checked_add_usize before after of
          None \<Rightarrow> Some (b, Err InspectionRange)
        | Some len \<Rightarrow>
          map_option (\<lambda>(b, r). (b, Ok \<lparr>ei_registers = cs_registers cpu, ei_cpsr = cs_cpsr cpu,
              ei_spsr = cs_spsr cpu, ei_mmu_enabled = enabled, ei_instruction_address = VirtualAddress start,
              ei_instruction_bytes = (case r of Inr bytes \<Rightarrow> bytes | Inl _ \<Rightarrow> []),
              ei_instruction_error = (case r of Inr _ \<Rightarrow> None | Inl error \<Rightarrow> Some error)\<rparr>))
            (read_virtual_memory e (VirtualAddress start) len b)))"


section \<open>The search finds the first occurrence\<close>

definition occurs_at :: "u8 list \<Rightarrow> u8 list \<Rightarrow> nat \<Rightarrow> bool" where
  "occurs_at pattern xs i \<longleftrightarrow> take (length pattern) (drop i xs) = pattern"

lemma position_window_spec:
  assumes "pattern \<noteq> []"
  shows "case position_window pattern xs of
      Some i \<Rightarrow> occurs_at pattern xs i \<and> (\<forall>j < i. \<not> occurs_at pattern xs j)
    | None \<Rightarrow> \<forall>j. \<not> occurs_at pattern xs j"
proof (induction xs)
  case Nil
  with assms show ?case by (simp add: occurs_at_def)
next
  case (Cons x xs)
  have suc: "occurs_at pattern (x # xs) (Suc j) \<longleftrightarrow> occurs_at pattern xs j" for j
    by (simp add: occurs_at_def)
  have zero: "occurs_at pattern (x # xs) 0 \<longleftrightarrow> take (length pattern) (x # xs) = pattern"
    by (simp add: occurs_at_def)
  have all: "(\<forall>j. \<not> occurs_at pattern (x # xs) j) \<longleftrightarrow>
      \<not> occurs_at pattern (x # xs) 0 \<and> (\<forall>j. \<not> occurs_at pattern xs j)"
    using suc by (metis not0_implies_Suc)
  show ?case
    using Cons zero
    by (auto simp: all suc All_less_Suc2 split: option.splits)
qed

text \<open>\<open>p\<close> is an offset into RAM at which the whole pattern stands.\<close>

definition ram_match :: "byte_array \<Rightarrow> u8 list \<Rightarrow> nat \<Rightarrow> bool" where
  "ram_match ram pattern p \<longleftrightarrow> p + length pattern \<le> unat RAM_SIZE \<and> map ram [p..<p + length pattern] = pattern"

definition first_match :: "byte_array \<Rightarrow> u8 list \<Rightarrow> physical_address option" where
  "first_match ram pattern = (if \<exists>p. ram_match ram pattern p
     then Some (PhysicalAddress (RAM_BASE + of_nat (LEAST p. ram_match ram pattern p))) else None)"

lemma occurs_in_chunk:
  assumes "pattern \<noteq> []"
  shows "occurs_at pattern (map ram [a..<a + len]) i \<longleftrightarrow>
    i + length pattern \<le> len \<and> map ram [a + i..<a + i + length pattern] = pattern"
proof (cases "i + length pattern \<le> len")
  case True
  then have "take (length pattern) (drop i (map ram [a..<a + len])) = map ram [a + i..<a + i + length pattern]"
    by (simp add: take_map drop_map)
  with True show ?thesis by (simp add: occurs_at_def)
next
  case False
  then have "length (take (length pattern) (drop i (map ram [a..<a + len]))) < length pattern"
    using assms by (cases pattern) auto
  then have "\<not> occurs_at pattern (map ram [a..<a + len]) i"
    unfolding occurs_at_def by (metis less_irrefl)
  with False show ?thesis by simp
qed

lemma chunk_hit:
  assumes "pattern \<noteq> []" and "a < unat RAM_SIZE" and "0 < chunk"
    and len: "len = min (chunk + (length pattern - 1)) (unat RAM_SIZE - a)"
    and before: "\<And>p. p < a \<Longrightarrow> \<not> ram_match ram pattern p"
  shows "case position_window pattern (map ram [a..<a + len]) of
      Some i \<Rightarrow> first_match ram pattern = Some (PhysicalAddress (RAM_BASE + of_nat (a + i)))
    | None \<Rightarrow> \<forall>p < a + chunk. \<not> ram_match ram pattern p"
proof -
  note occ = occurs_in_chunk [OF assms(1), of ram a len]
  have match: "ram_match ram pattern (a + i) \<longleftrightarrow> occurs_at pattern (map ram [a..<a + len]) i" if "i < chunk" for i
  proof -
    have "0 < length pattern" using assms(1) by simp
    then have "i + length pattern \<le> len \<longleftrightarrow> a + i + length pattern \<le> unat RAM_SIZE"
      using that assms(2) len by linarith
    then show ?thesis by (simp add: occ ram_match_def add.assoc)
  qed
  have inside: "i < chunk" if "occurs_at pattern (map ram [a..<a + len]) i" for i
  proof -
    have "0 < length pattern" using assms(1) by simp
    moreover have "i + length pattern \<le> len" using that occ by blast
    ultimately show ?thesis using len by linarith
  qed
  show ?thesis
  proof (cases "position_window pattern (map ram [a..<a + len])")
    case None
    have "\<not> ram_match ram pattern p" if "p < a + chunk" for p
    proof (cases "p < a")
      case False
      with that match [of "p - a"] position_window_spec [OF assms(1), of "map ram [a..<a + len]"] None
      show ?thesis by simp
    qed (rule before)
    with None show ?thesis by simp
  next
    case (Some i)
    with position_window_spec [OF assms(1), of "map ram [a..<a + len]"]
    have hit: "occurs_at pattern (map ram [a..<a + len]) i"
      and first: "\<And>j. j < i \<Longrightarrow> \<not> occurs_at pattern (map ram [a..<a + len]) j"
      by auto
    have least: "(LEAST p. ram_match ram pattern p) = a + i"
    proof (rule Least_equality)
      show "ram_match ram pattern (a + i)" using hit inside match by blast
      show "a + i \<le> p" if "ram_match ram pattern p" for p
      proof (rule ccontr)
        assume "\<not> a + i \<le> p"
        then have "p < a \<or> p - a < i \<and> a + (p - a) = p" by linarith
        then show False
          using that before first match [of "p - a"] inside [OF hit] by auto
      qed
    qed
    have "ram_match ram pattern (a + i)" using hit inside match by blast
    with Some least show ?thesis by (auto simp: first_match_def)
  qed
qed


lemma read_ram_chunk:
  assumes "engine_shares_ram e" and "a + len \<le> unat RAM_SIZE"
  shows "read_physical_memory e (PhysicalAddress (pa_get (mem_base Ram) + of_nat a)) len b
    = Some (b, Ok (map (pm_ram (ma_memory (be_machine b))) [a..<a + len]))"
proof -
  have "unat RAM_BASE + a < 2 ^ 32"
    using assms(2) by (simp add: mmap_consts)
  then have "unat (RAM_BASE + of_nat a) = unat RAM_BASE + a"
    by (simp add: unat_word_ariths unsigned_of_nat take_bit_nat_eq_self)
  then have "(ucast (RAM_BASE + of_nat a) :: u64) = of_nat (unat RAM_BASE + a)"
    by (intro word_unat_eq_iff [THEN iffD2])
      (use assms(2) in \<open>simp add: unsigned_of_nat take_bit_nat_eq_self mmap_consts del: of_nat_add\<close>)
  moreover have "pa_get (mem_base Ram) = RAM_BASE"
    by (simp add: mem_base_def mem_range.simps from_known_valid_def)
  ultimately show ?thesis
    using assms by (simp add: read_physical_memory_def read_engine_memory_def engine_shares_ram_def)
qed

lemma search_chunks_first:
  assumes "engine_shares_ram e" and "pattern \<noteq> []"
    and "\<And>p. p < k * MEMORY_SEARCH_CHUNK_SIZE \<Longrightarrow> \<not> ram_match ram pattern p"
    and "ram = pm_ram (ma_memory (be_machine b))" and "k \<le> 64"
  shows "search_chunks e pattern (map (\<lambda>i. i * MEMORY_SEARCH_CHUNK_SIZE) [k..<64]) b
    = Some (b, Ok (first_match ram pattern))"
  using assms(3,5)
proof (induction "64 - k" arbitrary: k)
  case 0
  then have end_of_ram: "unat RAM_SIZE \<le> k * MEMORY_SEARCH_CHUNK_SIZE"
    by (simp add: mmap_consts MEMORY_SEARCH_CHUNK_SIZE_def)
  have "\<not> ram_match ram pattern p" for p
  proof
    assume m: "ram_match ram pattern p"
    then have "p + length pattern \<le> unat RAM_SIZE" "0 < length pattern"
      using assms(2) by (auto simp: ram_match_def)
    with 0(2) [of p] m end_of_ram show False by simp
  qed
  with 0 show ?case by (simp add: first_match_def)
next
  case (Suc d)
  let ?a = "k * MEMORY_SEARCH_CHUNK_SIZE"
  let ?len = "min (MEMORY_SEARCH_CHUNK_SIZE + (length pattern - 1)) (unat RAM_SIZE - ?a)"
  have k: "k < 64" and a: "?a < unat RAM_SIZE"
    using Suc(2) by (simp_all add: mmap_consts MEMORY_SEARCH_CHUNK_SIZE_def)
  have upt: "[k..<64] = k # [Suc k..<64]" using k by (rule upt_conv_Cons)
  have read: "read_physical_memory e (PhysicalAddress (pa_get (mem_base Ram) + of_nat ?a)) ?len b
      = Some (b, Ok (map ram [?a..<?a + ?len]))"
    using read_ram_chunk [OF assms(1), of ?a ?len b] a assms(4) by simp
  have size: "unat (mem_size Ram) = unat RAM_SIZE" by (simp add: unat_mem_size mmap_consts)
  have base: "pa_get (mem_base Ram) = RAM_BASE" by (simp add: mem_base_def mem_range.simps from_known_valid_def)
  note hit = chunk_hit [OF assms(2) a _ refl Suc.prems(1), of MEMORY_SEARCH_CHUNK_SIZE]
  have pos: "0 < MEMORY_SEARCH_CHUNK_SIZE" by (simp add: MEMORY_SEARCH_CHUNK_SIZE_def)
  show ?case
  proof (cases "position_window pattern (map ram [?a..<?a + ?len])")
    case (Some i)
    with hit [OF pos] read show ?thesis
      by (simp add: upt Let_def size base add.assoc)
  next
    case None
    have "search_chunks e pattern (map (\<lambda>i. i * MEMORY_SEARCH_CHUNK_SIZE) [Suc k..<64]) b
        = Some (b, Ok (first_match ram pattern))"
    proof (rule Suc(1))
      show "\<not> ram_match ram pattern p" if "p < Suc k * MEMORY_SEARCH_CHUNK_SIZE" for p
        using hit [OF pos] None that by (simp add: add.commute)
    qed (use Suc(2) k in auto)
    with None read show ?thesis by (simp add: upt Let_def size)
  qed
qed

text \<open>
  C18. The chunked search of RAM is exact. For a pattern of at most one chunk it returns the address of
  the first place in RAM at which the whole pattern stands, also where it straddles two chunks, and
  nothing when there is none; the overlap of neighbouring chunks neither misses nor repeats a
  place. An empty or longer pattern is refused.
\<close>

theorem search_finds_first:
  assumes "engine_shares_ram e"
  shows "search_memory e pattern b = Some (b,
     if pattern = [] then Err EmptySearchPattern
     else if length pattern > MEMORY_SEARCH_CHUNK_SIZE
       then Err (SearchPatternTooLarge (length pattern) MEMORY_SEARCH_CHUNK_SIZE)
     else Ok (first_match (pm_ram (ma_memory (be_machine b))) pattern))"
proof -
  have "chunk_offsets = map (\<lambda>i. i * MEMORY_SEARCH_CHUNK_SIZE) [0..<64]"
    by (simp add: chunk_offsets_def unat_mem_size MEMORY_SEARCH_CHUNK_SIZE_def)
  then show ?thesis
    using search_chunks_first [OF assms, of pattern 0] by (simp add: search_memory_def)
qed

theorem search_finds_first_witness:
  "search_memory sample_engine [7] (sample_backend ((machine_new memory_empty 16)
      \<lparr>ma_memory := memory_empty\<lparr>pm_ram := (\<lambda>i. if i = 1048580 then 7 else 0)\<rparr>\<rparr>))
   = Some (sample_backend ((machine_new memory_empty 16)
      \<lparr>ma_memory := memory_empty\<lparr>pm_ram := (\<lambda>i. if i = 1048580 then 7 else 0)\<rparr>\<rparr>), Ok (Some (PhysicalAddress 0x40100004)))"
proof -
  let ?ram = "(\<lambda>i. if i = 1048580 then 7 else 0) :: byte_array"
  have match: "ram_match ?ram [7] p \<longleftrightarrow> p = 1048580" for p
    by (auto simp: ram_match_def mmap_consts)
  have "(LEAST p. ram_match ?ram [7] p) = 1048580"
    by (rule Least_equality) (simp_all add: match)
  then have "first_match ?ram [7] = Some (PhysicalAddress 0x40100004)"
    using match by (simp only: first_match_def) (simp add: mmap_consts)
  then show ?thesis
    using search_finds_first [OF sample_engine_shares_ram, of "[7]"]
    by (simp add: sample_backend_def MEMORY_SEARCH_CHUNK_SIZE_def)
qed


section \<open>Inspection keeps the machine\<close>

text \<open>A physical read does no more than call the MMIO callbacks, and returns.\<close>

definition engine_reads :: "'g engine \<Rightarrow> bool" where
  "engine_reads e \<longleftrightarrow> (\<forall>hooks uc address n. hooks_total hooks \<longrightarrow>
     (\<exists>uc' r. eng_mem_read e hooks uc address n = Some (uc', r) \<and> hook_run hooks 0 uc uc'))"

lemma sample_engine_reads: "engine_reads sample_engine"
  by (auto simp: engine_reads_def sample_engine_def Let_def intro: run_refl)

text \<open>\<open>inspects b x\<close>: the call returns, in the same tick, and the machine follows the one before.\<close>

definition inspects :: "'g backend \<Rightarrow> ('g backend \<times> 'r) option \<Rightarrow> bool" where
  "inspects b x \<longleftrightarrow> (\<exists>b' r. x = Some (b', r) \<and> machine_follows (be_machine b) (be_machine b')
     \<and> be_ticks b' = be_ticks b)"

lemma inspects_Some:
  "inspects b (Some (b', r)) \<longleftrightarrow> machine_follows (be_machine b) (be_machine b') \<and> be_ticks b' = be_ticks b"
  by (simp add: inspects_def)

lemma inspects_map [simp]: "inspects b (map_option (\<lambda>(b, x). (b, f x)) r) \<longleftrightarrow> inspects b r"
  by (auto simp: inspects_def)

lemma inspects_from:
  "inspects b1 x \<Longrightarrow> inspects b (Some (b1, r)) \<Longrightarrow> inspects b x"
  by (auto simp: inspects_def intro: machine_follows_trans)

lemma inspects_unicorn:
  "uc_follows n (be_engine b) uc \<Longrightarrow> inspects b (Some (b\<lparr>be_engine := uc\<rparr>, r))"
  by (simp add: inspects_def uc_follows_def)

lemma read_engine_memory_inspects:
  assumes "engine_runs e" and "engine_reads e"
  shows "inspects b (read_engine_memory e address n b)"
proof -
  obtain uc r where uc: "eng_mem_read e (backend_hooks e) (be_engine b) address n = Some (uc, r)"
      "hook_run (backend_hooks e) 0 (be_engine b) uc"
    using assms(2) backend_hooks_total [of e] by (meson engine_reads_def)
  then show ?thesis
    using inspects_unicorn [OF follows_hook_run [OF uc(2) assms(1)]] by (simp add: read_engine_memory_def)
qed

lemma engine_translate_inspects:
  assumes "engine_runs e"
  shows "inspects b (Some (engine_translate e address p b))"
proof -
  have "tlb_run (virtual_tlb_callback e) (be_engine b)
      (fst (eng_vmem_translate e (virtual_tlb_callback e) (be_engine b) address p))"
    using assms by (simp add: engine_runs_def)
  from inspects_unicorn [OF follows_tlb_run [OF this]] show ?thesis
    by (simp add: engine_translate_def case_prod_unfold Let_def)
qed


lemma inspects_returns: "inspects b x \<Longrightarrow> \<exists>b1 r. x = Some (b1, r) \<and> inspects b (Some (b1, r))"
  by (auto simp: inspects_def)

lemma read_page_piece_inspects:
  assumes "engine_runs e" and "engine_reads e"
  shows "inspects b (read_page_piece e address len p reject offset b)"
proof (cases "and_then (ok_or (u32_try_from_usize offset) InspectionRange) (\<lambda>offset_u32.
         ok_or (checked_add_u32 (va_get address) offset_u32) InspectionRange)")
  case (Inl error)
  then show ?thesis by (simp add: read_page_piece_def inspects_Some)
next
  case (Inr va)
  obtain b1 r1 where b1: "engine_translate e (ucast va) p b = (b1, r1)" by fastforce
  have "inspects b (Some (b1, r1))"
    using engine_translate_inspects [OF assms(1), of b "ucast va" p] b1 by simp
  then have here: "inspects b (Some (b1, r))" for r :: "backend_error + usize \<times> u8 list"
    by (simp add: inspects_Some)
  show ?thesis
  proof (cases r1)
    case (Inl error)
    with Inr b1 here show ?thesis by (simp add: read_page_piece_def Let_def)
  next
    case (Inr physical)
    note read = inspects_from [OF read_engine_memory_inspects [OF assms] here]
    show ?thesis
      using \<open>and_then _ _ = Ok va\<close> Inr b1 here read
      by (auto simp: read_page_piece_def Let_def simp del: u32_try_from_u64_def split: option.split)
  qed
qed

lemma read_translated_loop_inspects:
  assumes "engine_runs e" and "engine_reads e"
  shows "inspects b (read_translated_loop e address len p reject offset bytes b)"
  using assms
proof (induction e address len p reject offset bytes b rule: read_translated_loop.induct [case_names loop])
  case (loop e address len p reject offset bytes b)
  show ?case
  proof (cases "offset < len")
    case False
    then show ?thesis by (subst read_translated_loop.simps) (simp add: inspects_Some)
  next
    case True
    obtain b1 r where b1: "read_page_piece e address len p reject offset b = Some (b1, r)"
        and here: "inspects b (Some (b1, r))"
      using inspects_returns [OF read_page_piece_inspects [OF loop.prems]] by metis
    show ?thesis
    proof (cases r)
      case (Inl error)
      with True b1 here show ?thesis
        by (subst read_translated_loop.simps) (simp add: inspects_Some)
    next
      case (Inr piece)
      obtain count bytes' where piece: "piece = (count, bytes')" by fastforce
      from loop.IH [OF True b1 refl Inr piece [symmetric] loop.prems] here
      have "inspects b (read_translated_loop e address len p reject (offset + count) (slice_put bytes offset bytes') b1)"
        by (rule inspects_from)
      with True b1 Inr piece show ?thesis
        by (subst read_translated_loop.simps) simp
    qed
  qed
qed

lemma search_chunks_inspects:
  assumes "engine_runs e" and "engine_reads e"
  shows "inspects b (search_chunks e pattern offsets b)"
proof (induction offsets arbitrary: b)
  case Nil
  show ?case by (simp add: inspects_Some)
next
  case (Cons offset offsets)
  let ?read = "read_physical_memory e (PhysicalAddress (pa_get (mem_base Ram) + of_nat offset))
    (min (MEMORY_SEARCH_CHUNK_SIZE + (length pattern - 1)) (unat (mem_size Ram) - offset)) b"
  obtain b1 r where b1: "?read = Some (b1, r)" and here: "inspects b (Some (b1, r))"
    using inspects_returns [OF read_engine_memory_inspects [OF assms]] unfolding read_physical_memory_def by metis
  from here have stop: "inspects b (Some (b1, r'))" for r' :: "backend_error + physical_address option"
    by (simp add: inspects_Some)
  show ?case
    using b1 stop inspects_from [OF Cons.IH here]
    by (auto simp: Let_def split: sum.split option.split)
qed

lemma inspect_execution_inspects:
  assumes "engine_runs e" and "engine_reads e"
  shows "inspects b (inspect_execution e address before after b)"
  using read_translated_loop_inspects [OF assms]
  by (auto simp: inspect_execution_def Let_def read_virtual_memory_def read_translated_memory_def inspects_Some
      split: sum.split option.split)

lemmas backend_inspects = read_engine_memory_inspects read_translated_loop_inspects
  search_chunks_inspects inspect_execution_inspects


text \<open>
  A host inspection of an unmapped address is not neutral: the walk that it makes records its fault
  where the guest reads DFSR and DFAR.
\<close>

lemma inspection_records_fault:
  assumes "mmu_enabled (ma_mmu (be_machine b))" and "be_engine b = \<lparr>uc_state = g, uc_data = d\<rparr>"
    and "\<And>a. directory_lookup physical_memory_ops (ma_memory (be_machine b)) a = None"
  shows "\<exists>fault. mmu_last_fault (ma_mmu (be_machine (fst (translate_virtual_address sample_engine address b)))) = Some fault
     \<and> mf_address fault = address"
  using assms
  by (simp add: translate_virtual_address_def engine_translate_def sample_engine_def virtual_tlb_callback_def
      translate_def walker_fault_def Let_def)

end
