(* ===== verification/Runtime_Emulator.thy ===== *)
theory Runtime_Emulator
  imports Unicorn_Inspect
begin

text \<open>
  The emulator that the runtime's thread owns (\<open>types.rs\<close> and the first half of \<open>service.rs\<close> of
  \<open>minemu-runtime\<close>): the configured machine, batches, reset, the write-back of block media to host
  files, UART ingress and inspection. The file system is a record of the three calls the code makes
  on it, over an abstract host state \<open>'h\<close>.
\<close>

section \<open>Types\<close>

datatype lifecycle_state = LcStarting | LcRunning | LcPaused | LcStopping | LcStopped | LcFailed

datatype uart_port = PortUart0 | PortUart1

record scheduled_uart_input =
  su_at_tick :: u64
  su_port :: uart_port
  su_bytes :: "u8 list"

type_synonym path = string

datatype runtime_error =
    CommandQueueFull
  | RuntimeStopped
  | RuntimeCore core_error
  | RuntimeBackend backend_error
  | RuntimeIo io_error
  | BlockMediaPath u32 path io_error
  | DuplicateBlockMediaPath path

datatype runtime_inspection =
    InspectedMemory "u8 list"
  | InspectedMmu mmu_inspection
  | InspectedPeripherals peripherals_inspection
  | InspectedEvents "observable_event list"
  | InspectedLiveMemory physical_range "u8 list"
  | InspectedVirtualMemory virtual_address "u8 list"
  | InspectedTranslation virtual_address physical_address
  | InspectedExecution execution_inspection
  | InspectedSearch "physical_address option"

datatype runtime_inspection_request =
    RequestMachine inspection_request
  | RequestLiveMemory physical_range
  | RequestVirtualMemory virtual_address usize
  | RequestTranslate virtual_address
  | RequestExecution "virtual_address option" usize usize
  | RequestSearch "u8 list"

record runtime_config =
  rc_machine :: machine
  rc_entry :: u32
  rc_end :: u32
  rc_instruction_batch :: usize
  rc_status_period :: nat
  rc_command_capacity :: usize
  rc_uart_capacity :: usize
  rc_block_media_path :: "path option"
  rc_block1_media_path :: "path option"
  rc_initial_ram_writes :: "(physical_address \<times> u8 list) list"
  rc_start_paused :: bool
  rc_execution_deadline :: "u64 option"
  rc_scheduled_uart :: "scheduled_uart_input list"

definition runtime_config_new :: "machine \<Rightarrow> u32 \<Rightarrow> runtime_config" where
  "runtime_config_new m entry =
     \<lparr>rc_machine = m, rc_entry = entry, rc_end = u32_max, rc_instruction_batch = 1024,
      rc_status_period = 16, rc_command_capacity = 32, rc_uart_capacity = 4096,
      rc_block_media_path = None, rc_block1_media_path = None, rc_initial_ram_writes = [],
      rc_start_paused = False, rc_execution_deadline = None, rc_scheduled_uart = []\<rparr>"

definition with_initial_ram_write :: "physical_address \<Rightarrow> u8 list \<Rightarrow> runtime_config \<Rightarrow> runtime_config" where
  "with_initial_ram_write address bytes config =
     config\<lparr>rc_initial_ram_writes := rc_initial_ram_writes config @ [(address, bytes)]\<rparr>"

text \<open>\<open>fs::read\<close>, \<open>fs::write\<close> and \<open>fs::canonicalize\<close>.\<close>

record 'h host =
  ho_read :: "'h \<Rightarrow> path \<Rightarrow> io_error + u8 list"
  ho_write :: "path \<Rightarrow> u8 list \<Rightarrow> 'h \<Rightarrow> 'h \<times> (io_error + unit)"
  ho_canonicalize :: "'h \<Rightarrow> path \<Rightarrow> io_error + path"

section \<open>UART ingress\<close>

record uart_inbox =
  ib_uart0 :: "u8 list"
  ib_uart1 :: "u8 list"
  ib_capacity :: usize

definition uart_inbox_new :: "usize \<Rightarrow> uart_inbox" where
  "uart_inbox_new capacity = \<lparr>ib_uart0 = [], ib_uart1 = [], ib_capacity = capacity\<rparr>"

fun inbox_queue :: "uart_port \<Rightarrow> uart_inbox \<Rightarrow> u8 list" where
  "inbox_queue PortUart0 inbox = ib_uart0 inbox"
| "inbox_queue PortUart1 inbox = ib_uart1 inbox"

fun set_inbox_queue :: "uart_port \<Rightarrow> u8 list \<Rightarrow> uart_inbox \<Rightarrow> uart_inbox" where
  "set_inbox_queue PortUart0 q inbox = inbox\<lparr>ib_uart0 := q\<rparr>"
| "set_inbox_queue PortUart1 q inbox = inbox\<lparr>ib_uart1 := q\<rparr>"

definition inbox_push_byte :: "uart_port \<Rightarrow> u8 \<Rightarrow> uart_inbox \<Rightarrow> uart_inbox" where
  "inbox_push_byte port byte inbox =
     (if ib_capacity inbox = 0 then inbox
      else set_inbox_queue port (push_bounded (ib_capacity inbox) byte (inbox_queue port inbox)) inbox)"

definition inbox_push :: "uart_port \<Rightarrow> u8 list \<Rightarrow> uart_inbox \<Rightarrow> uart_inbox" where
  "inbox_push port bytes inbox =
     (if ib_capacity inbox = 0 then inbox else fold (inbox_push_byte port) bytes inbox)"

definition inbox_drain :: "uart_port \<Rightarrow> uart_inbox \<Rightarrow> uart_inbox \<times> u8 list" where
  "inbox_drain port inbox = (set_inbox_queue port [] inbox, inbox_queue port inbox)"

section \<open>The configured machine\<close>

definition media_paths :: "runtime_config \<Rightarrow> (u32 \<times> path option) list" where
  "media_paths config =
     [(UNIT_FILESYSTEM, rc_block_media_path config), (UNIT_SWAP, rc_block1_media_path config)]"

fun attach_media :: "'h host \<Rightarrow> 'h \<Rightarrow> (u32 \<times> path option) list \<Rightarrow> machine \<Rightarrow> runtime_error + machine" where
  "attach_media host h [] m = Ok m"
| "attach_media host h ((u, None) # units) m = attach_media host h units m"
| "attach_media host h ((u, Some path) # units) m =
     and_then (map_err RuntimeIo (ho_read host h path)) (\<lambda>media.
     and_then (map_err RuntimeCore (bus_host_update (BlockAttach u media) (ma_bus m))) (\<lambda>bus.
       attach_media host h units (m\<lparr>ma_bus := bus\<rparr>)))"

fun apply_ram_writes :: "(physical_address \<times> u8 list) list \<Rightarrow> machine \<Rightarrow> runtime_error + machine" where
  "apply_ram_writes [] m = Ok m"
| "apply_ram_writes ((address, bytes) # writes) m =
     and_then (map_err RuntimeCore (mem_write_range (ma_memory m) address bytes)) (\<lambda>memory.
       apply_ram_writes writes (m\<lparr>ma_memory := memory\<rparr>))"

definition configured_machine :: "'h host \<Rightarrow> 'h \<Rightarrow> runtime_config \<Rightarrow> machine \<Rightarrow> runtime_error + machine" where
  "configured_machine host h config source =
     and_then (map_err RuntimeCore (reset_clone source)) (\<lambda>m.
     and_then (attach_media host h (media_paths config) m) (\<lambda>m.
       apply_ram_writes (rc_initial_ram_writes config) m))"

definition canonical_path :: "'h host \<Rightarrow> 'h \<Rightarrow> u32 \<Rightarrow> path option \<Rightarrow> runtime_error + path option" where
  "canonical_path host h u p = (case p of
     None \<Rightarrow> Ok None
   | Some original \<Rightarrow>
       and_then (map_err (BlockMediaPath u original) (ho_canonicalize host h original)) (\<lambda>canonical. Ok (Some canonical)))"

definition canonicalize_block_media_paths :: "'h host \<Rightarrow> 'h \<Rightarrow> runtime_config \<Rightarrow> runtime_error + runtime_config" where
  "canonicalize_block_media_paths host h config =
     and_then (canonical_path host h UNIT_FILESYSTEM (rc_block_media_path config)) (\<lambda>path0.
     and_then (canonical_path host h UNIT_SWAP (rc_block1_media_path config)) (\<lambda>path1.
       case (path0, path1) of
         (Some unit0, Some unit1) \<Rightarrow>
           if unit0 = unit1 then Err (DuplicateBlockMediaPath unit0)
           else Ok (config\<lparr>rc_block_media_path := path0, rc_block1_media_path := path1\<rparr>)
       | _ \<Rightarrow> Ok (config\<lparr>rc_block_media_path := path0, rc_block1_media_path := path1\<rparr>)))"

section \<open>The emulator\<close>

record 'g emulator =
  em_backend :: "'g backend"
  em_entry :: u32
  em_end :: u32
  em_instruction_batch :: usize
  em_media_path0 :: "path option"
  em_media_path1 :: "path option"
  em_initial_ram_writes :: "(physical_address \<times> u8 list) list"

abbreviation em_machine :: "'g emulator \<Rightarrow> machine" where
  "em_machine em \<equiv> be_machine (em_backend em)"

abbreviation em_ticks :: "'g emulator \<Rightarrow> u64" where
  "em_ticks em \<equiv> be_ticks (em_backend em)"

definition on_bus :: "(mmio_bus \<Rightarrow> mmio_bus) \<Rightarrow> 'g emulator \<Rightarrow> 'g emulator" where
  "on_bus f em = em\<lparr>em_backend := put_machine ((em_machine em)\<lparr>ma_bus := f (ma_bus (em_machine em))\<rparr>) (em_backend em)\<rparr>"

definition emulator_new :: "'g engine \<Rightarrow> 'h host \<Rightarrow> 'h \<Rightarrow> runtime_config \<Rightarrow> runtime_error + 'g emulator" where
  "emulator_new e host h config =
     and_then (configured_machine host h config (rc_machine config)) (\<lambda>m.
     and_then (map_err RuntimeBackend (backend_new e m)) (\<lambda>b.
       let (b, result) = set_program_counter e (rc_entry config) b in
     and_then (map_err RuntimeBackend result) (\<lambda>_.
       Ok \<lparr>em_backend = b, em_entry = rc_entry config, em_end = rc_end config,
           em_instruction_batch = rc_instruction_batch config, em_media_path0 = rc_block_media_path config,
           em_media_path1 = rc_block1_media_path config, em_initial_ram_writes = rc_initial_ram_writes config\<rparr>)))"

text \<open>\<open>run_batch\<close> never fails, but its callers handle the error of its type.\<close>

definition run_batch ::
  "'g engine \<Rightarrow> usize \<Rightarrow> u64 option \<Rightarrow> 'g emulator \<Rightarrow> ('g emulator \<times> (runtime_error + backend_stop)) option" where
  "run_batch e instruction_budget tick_deadline em =
     (let b = em_backend em;
          start = (case program_counter e b of Inr pc \<Rightarrow> pc | Inl _ \<Rightarrow> em_entry em)
      in map_option (\<lambda>(b, stop). (em\<lparr>em_backend := b\<rparr>, Ok stop))
        (case tick_deadline of
           Some deadline \<Rightarrow> run_until_tick e start (em_end em) instruction_budget deadline b
         | None \<Rightarrow> be_run e start (em_end em) instruction_budget b))"

definition resume_from_breakpoint ::
  "'g engine \<Rightarrow> u32 \<Rightarrow> 'g emulator \<Rightarrow> 'g emulator \<times> (runtime_error + unit)" where
  "resume_from_breakpoint e address em =
     (case program_counter e (em_backend em) of
       Inl error \<Rightarrow> (em, Err (RuntimeBackend error))
     | Inr pc \<Rightarrow>
       if pc = address
       then (let (b, result) = set_program_counter e (address + 4) (em_backend em)
             in (em\<lparr>em_backend := b\<rparr>, map_err RuntimeBackend result))
       else (em, Ok ()))"

section \<open>Block media\<close>

text \<open>\<open>bus.block.flush(unit, |media| fs::write(path, media))\<close>\<close>

definition flush_unit ::
  "'h host \<Rightarrow> u32 \<Rightarrow> path \<Rightarrow> 'g emulator \<Rightarrow> 'h \<Rightarrow> 'g emulator \<times> 'h \<times> (core_error + unit)" where
  "flush_unit host u path em h =
     (let (b, h, gs, result) = block_flush u (ho_write host path) (bus_block (ma_bus (em_machine em))) h
      in (on_bus (\<lambda>bus. bus_send gs (bus\<lparr>bus_block := b\<rparr>)) em, h, result))"

fun flush_units ::
  "'h host \<Rightarrow> (u32 \<times> path option) list \<Rightarrow> core_error option \<Rightarrow> 'g emulator \<Rightarrow> 'h
   \<Rightarrow> 'g emulator \<times> 'h \<times> core_error option" where
  "flush_units host [] first_error em h = (em, h, first_error)"
| "flush_units host ((u, None) # units) first_error em h = flush_units host units first_error em h"
| "flush_units host ((u, Some path) # units) first_error em h =
     (let (em, h, result) = flush_unit host u path em h;
          first_error = (case result of Inr _ \<Rightarrow> first_error
            | Inl error \<Rightarrow> if first_error = None then Some error else first_error)
      in flush_units host units first_error em h)"

definition emulator_flush :: "'h host \<Rightarrow> 'g emulator \<Rightarrow> 'h \<Rightarrow> 'g emulator \<times> 'h \<times> (runtime_error + unit)" where
  "emulator_flush host em h =
     (let (em, h, first_error) =
        flush_units host [(UNIT_FILESYSTEM, em_media_path0 em), (UNIT_SWAP, em_media_path1 em)] None em h
      in (em, h, case first_error of None \<Rightarrow> Ok () | Some error \<Rightarrow> Err (RuntimeCore error)))"

definition reset_config :: "'g emulator \<Rightarrow> machine \<Rightarrow> runtime_config" where
  "reset_config em m =
     \<lparr>rc_machine = m, rc_entry = em_entry em, rc_end = em_end em,
      rc_instruction_batch = em_instruction_batch em, rc_status_period = 0, rc_command_capacity = 1,
      rc_uart_capacity = 0, rc_block_media_path = em_media_path0 em, rc_block1_media_path = em_media_path1 em,
      rc_initial_ram_writes = em_initial_ram_writes em, rc_start_paused = False,
      rc_execution_deadline = None, rc_scheduled_uart = []\<rparr>"

definition emulator_reset ::
  "'g engine \<Rightarrow> 'h host \<Rightarrow> 'g emulator \<Rightarrow> 'h \<Rightarrow> 'g emulator \<times> 'h \<times> (runtime_error + unit)" where
  "emulator_reset e host em h =
     (case emulator_flush host em h of
       (em, h, Inl error) \<Rightarrow> (em, h, Err error)
     | (em, h, Inr _) \<Rightarrow>
       (case and_then (map_err RuntimeCore (reset_clone (em_machine em))) (\<lambda>m.
            let config = reset_config em m in
          and_then (configured_machine host h config (rc_machine config)) (\<lambda>m.
            map_err RuntimeBackend (backend_new e m))) of
         Inl error \<Rightarrow> (em, h, Err error)
       | Inr b \<Rightarrow>
         (let (b, result) = set_program_counter e (em_entry em) b
          in (em\<lparr>em_backend := b\<rparr>, h, map_err RuntimeBackend result))))"

section \<open>UART delivery, status and inspection\<close>

definition deliver_byte :: "uart_port \<Rightarrow> u8 \<Rightarrow> mmio_bus \<Rightarrow> mmio_bus" where
  "deliver_byte port byte bus = (case port of
     PortUart0 \<Rightarrow> (let (u, gs) = uart_apply (UartReceive byte) (bus_uart0 bus) in bus_send gs (bus\<lparr>bus_uart0 := u\<rparr>))
   | PortUart1 \<Rightarrow> (let (u, gs) = uart_apply (UartReceive byte) (bus_uart1 bus) in bus_send gs (bus\<lparr>bus_uart1 := u\<rparr>)))"

definition deliver_uart :: "uart_port \<Rightarrow> u8 list \<Rightarrow> 'g emulator \<Rightarrow> 'g emulator" where
  "deliver_uart port bytes em = on_bus (fold (deliver_byte port) bytes) em"

definition drain_uart :: "uart_inbox \<Rightarrow> 'g emulator \<Rightarrow> uart_inbox \<times> 'g emulator" where
  "drain_uart inbox em =
     (let (inbox, uart0) = inbox_drain PortUart0 inbox;
          (inbox, uart1) = inbox_drain PortUart1 inbox
      in (inbox, deliver_uart PortUart1 uart1 (deliver_uart PortUart0 uart0 em)))"

definition emulator_status :: "'g emulator \<Rightarrow> 'g emulator \<times> machine_status_view" where
  "emulator_status em =
     (let (m, view) = machine_status (em_machine em)
      in (em\<lparr>em_backend := put_machine m (em_backend em)\<rparr>, view))"

text \<open>An inspection through the backend: its result, under the runtime's error and response types.\<close>

definition inspect_backend ::
  "('a \<Rightarrow> runtime_inspection) \<Rightarrow> 'g emulator \<Rightarrow> ('g backend \<times> (backend_error + 'a)) option
   \<Rightarrow> ('g emulator \<times> (runtime_error + runtime_inspection)) option" where
  "inspect_backend f em r =
     map_option (\<lambda>(b, r). (em\<lparr>em_backend := b\<rparr>, and_then (map_err RuntimeBackend r) (\<lambda>v. Ok (f v)))) r"

fun inspected :: "inspection_response \<Rightarrow> runtime_inspection" where
  "inspected (RespMemory bytes) = InspectedMemory bytes"
| "inspected (RespMmu view) = InspectedMmu view"
| "inspected (RespPeripherals view) = InspectedPeripherals view"
| "inspected (RespEvents events) = InspectedEvents events"

definition emulator_inspect ::
  "'g engine \<Rightarrow> runtime_inspection_request \<Rightarrow> 'g emulator
   \<Rightarrow> ('g emulator \<times> (runtime_error + runtime_inspection)) option" where
  "emulator_inspect e request em = (let b = em_backend em in case request of
     RequestMachine request \<Rightarrow>
       (let (m, r) = machine_inspect request (em_machine em)
        in Some (em\<lparr>em_backend := put_machine m b\<rparr>, and_then (map_err RuntimeCore r) (\<lambda>v. Ok (inspected v))))
   | RequestLiveMemory span \<Rightarrow> inspect_backend (InspectedLiveMemory span) em (inspect_live_memory e span b)
   | RequestVirtualMemory address len \<Rightarrow>
       inspect_backend (InspectedVirtualMemory address) em (inspect_virtual_memory e address len b)
   | RequestTranslate address \<Rightarrow>
       inspect_backend (InspectedTranslation address) em (Some (translate_virtual_address e address b))
   | RequestExecution address before after \<Rightarrow>
       inspect_backend InspectedExecution em (inspect_execution e address before after b)
   | RequestSearch pattern \<Rightarrow> inspect_backend InspectedSearch em (search_memory e pattern b))"

end
