(* ===== verification/Runtime_Service.thy ===== *)
theory Runtime_Service
  imports Runtime_Emulator
begin

text \<open>
  The service of \<open>minemu-runtime\<close> (second half of \<open>service.rs\<close>): the emulator thread's lifecycle, its
  command handling and one iteration of its loop. What other threads do reaches an iteration as its
  input: the commands received, whether all handles are gone, and whether the status period is over.
  A \<open>String\<close> for people is a constructor with the values that are printed.
\<close>

section \<open>Status\<close>

datatype stop_note =
    NoteDeadline
  | NoteUnicorn uc_error
  | NoteBreakpoint u16 u32
  | NoteLimit backend_stop
  | NoteStop backend_stop

datatype error_note =
    NoteError runtime_error
  | NoteBackend uc_error "runtime_error option"
  | NoteRun runtime_error "runtime_error option"

record runtime_status =
  rs_lifecycle :: lifecycle_state
  rs_machine :: machine_status_view
  rs_last_stop :: "stop_note option"
  rs_last_error :: "error_note option"

text \<open>\<open>publish\<close> without an emulator.\<close>

definition publish_status ::
  "lifecycle_state \<Rightarrow> stop_note option \<Rightarrow> error_note option \<Rightarrow> runtime_status \<Rightarrow> runtime_status" where
  "publish_status lifecycle last_stop last_error status =
     status\<lparr>rs_lifecycle := lifecycle,
       rs_last_stop := (if last_stop = None then rs_last_stop status else last_stop),
       rs_last_error := (if last_error = None then rs_last_error status else last_error)\<rparr>"

section \<open>Commands and the handle\<close>

text \<open>\<open>Resume\<close> carries a nonzero limit; an inspection carries the channel of its response.\<close>

datatype command =
    CmdPause
  | CmdResume "u64 option"
  | CmdReset
  | CmdShutdown
  | CmdInspect runtime_inspection_request nat

record command_channel =
  ch_queue :: "command list"
  ch_capacity :: usize
  ch_connected :: bool

definition command_channel_new :: "runtime_config \<Rightarrow> command_channel" where
  "command_channel_new config =
     \<lparr>ch_queue = [], ch_capacity = max (rc_command_capacity config) 1, ch_connected = True\<rparr>"

text \<open>\<open>try_send\<close>, and the errors that \<open>RuntimeHandle::send\<close> makes of it.\<close>

definition handle_send :: "command \<Rightarrow> command_channel \<Rightarrow> command_channel \<times> (runtime_error + unit)" where
  "handle_send command ch =
     (if \<not> ch_connected ch then (ch, Err RuntimeStopped)
      else if length (ch_queue ch) \<ge> ch_capacity ch then (ch, Err CommandQueueFull)
      else (ch\<lparr>ch_queue := ch_queue ch @ [command]\<rparr>, Ok ()))"

text \<open>\<open>resume_for\<close> takes a nonzero count, so that \<open>Resume(Some(0))\<close> cannot be sent.\<close>

definition handle_resume_for :: "u64 \<Rightarrow> command_channel \<Rightarrow> (command_channel \<times> (runtime_error + unit)) option" where
  "handle_resume_for instructions ch =
     (if instructions = 0 then None else Some (handle_send (CmdResume (Some instructions)) ch))"

text \<open>\<open>RuntimeHandle::spawn\<close> up to the start of the thread: the configuration that the thread gets, the
  first status and the inbox.\<close>

definition runtime_spawn ::
  "'h host \<Rightarrow> 'h \<Rightarrow> runtime_config \<Rightarrow> runtime_error + runtime_config \<times> runtime_status \<times> uart_inbox" where
  "runtime_spawn host h config =
     and_then (canonicalize_block_media_paths host h config) (\<lambda>config.
       let (m, view) = machine_status (rc_machine config)
       in Ok (config\<lparr>rc_machine := m, rc_instruction_batch := max (rc_instruction_batch config) 1\<rparr>,
              \<lparr>rs_lifecycle = LcStarting, rs_machine = view, rs_last_stop = None, rs_last_error = None\<rparr>,
              uart_inbox_new (rc_uart_capacity config)))"

section \<open>The service\<close>

text \<open>The fields of \<open>Service\<close>, the locals \<open>emulator\<close> and \<open>lifecycle\<close> of \<open>run\<close>, the host's files, and the
  responses sent so far.\<close>

record ('g, 'h) service =
  sv_status :: runtime_status
  sv_uart :: uart_inbox
  sv_remaining :: "u64 option"
  sv_pending_breakpoint :: "u32 option"
  sv_deadline :: "u64 option"
  sv_scheduled :: "scheduled_uart_input list"
  sv_emulator :: "'g emulator"
  sv_lifecycle :: lifecycle_state
  sv_host :: 'h
  sv_responses :: "(nat \<times> (runtime_error + runtime_inspection)) list"

definition publish ::
  "lifecycle_state \<Rightarrow> stop_note option \<Rightarrow> error_note option \<Rightarrow> ('g, 'h) service \<Rightarrow> ('g, 'h) service" where
  "publish lifecycle last_stop last_error sv =
     (let (em, view) = emulator_status (sv_emulator sv)
      in sv\<lparr>sv_status := (publish_status lifecycle last_stop last_error (sv_status sv))\<lparr>rs_machine := view\<rparr>,
            sv_emulator := em\<rparr>)"

definition publish_clearing_stop :: "lifecycle_state \<Rightarrow> ('g, 'h) service \<Rightarrow> ('g, 'h) service" where
  "publish_clearing_stop lifecycle sv =
     (let (em, view) = emulator_status (sv_emulator sv)
      in sv\<lparr>sv_status := (sv_status sv)\<lparr>rs_lifecycle := lifecycle, rs_last_stop := None, rs_machine := view\<rparr>,
            sv_emulator := em\<rparr>)"

definition flush_service ::
  "'h host \<Rightarrow> ('g, 'h) service \<Rightarrow> ('g, 'h) service \<times> (runtime_error + unit)" where
  "flush_service host sv =
     (let (em, h, result) = emulator_flush host (sv_emulator sv) (sv_host sv)
      in (sv\<lparr>sv_emulator := em, sv_host := h\<rparr>, result))"

definition err_option :: "'e + 'a \<Rightarrow> 'e option" where
  "err_option r = (case r of Inl error \<Rightarrow> Some error | Inr _ \<Rightarrow> None)"

text \<open>\<open>publish(lifecycle, stop, emulator.flush().err(), ..)\<close>: the flush comes first.\<close>

definition publish_flushed ::
  "'h host \<Rightarrow> lifecycle_state \<Rightarrow> stop_note option \<Rightarrow> ('g, 'h) service \<Rightarrow> ('g, 'h) service" where
  "publish_flushed host lifecycle last_stop sv =
     (let (sv, result) = flush_service host sv
      in publish lifecycle last_stop (map_option NoteError (err_option result)) sv)"

definition stop_service :: "'h host \<Rightarrow> error_note option \<Rightarrow> ('g, 'h) service \<Rightarrow> ('g, 'h) service" where
  "stop_service host error sv =
     (let (sv, result) = flush_service host (publish LcStopping None error sv)
      in case result of
        Inr _ \<Rightarrow> publish LcStopped None None sv
      | Inl error \<Rightarrow> publish LcFailed None (Some (NoteError error)) sv)"

section \<open>Handling a command\<close>

definition resume_service ::
  "'g engine \<Rightarrow> u64 option \<Rightarrow> ('g, 'h) service \<Rightarrow> ('g, 'h) service \<times> bool" where
  "resume_service e instruction_limit sv =
     (let pending = sv_pending_breakpoint sv;
          sv = sv\<lparr>sv_pending_breakpoint := None\<rparr>;
          (em, resumed) = (case pending of
             None \<Rightarrow> (sv_emulator sv, Ok ()) | Some address \<Rightarrow> resume_from_breakpoint e address (sv_emulator sv));
          sv = sv\<lparr>sv_emulator := em\<rparr>
      in case resumed of
        Inl error \<Rightarrow> (publish LcFailed None (Some (NoteError error)) sv, False)
      | Inr _ \<Rightarrow> (publish_clearing_stop LcRunning
          (sv\<lparr>sv_remaining := instruction_limit, sv_lifecycle := LcRunning\<rparr>), True))"

definition reset_service ::
  "'g engine \<Rightarrow> 'h host \<Rightarrow> ('g, 'h) service \<Rightarrow> ('g, 'h) service" where
  "reset_service e host sv =
     (let previous = sv_lifecycle sv;
          (em, h, result) = emulator_reset e host (sv_emulator sv) (sv_host sv);
          sv = sv\<lparr>sv_emulator := em, sv_host := h\<rparr>
      in case result of
        Inr _ \<Rightarrow> publish_clearing_stop previous (sv\<lparr>sv_pending_breakpoint := None\<rparr>)
      | Inl error \<Rightarrow> publish previous None (Some (NoteError error)) sv)"

definition process_command ::
  "'g engine \<Rightarrow> 'h host \<Rightarrow> command \<Rightarrow> ('g, 'h) service \<Rightarrow> (('g, 'h) service \<times> bool) option" where
  "process_command e host command sv = (case command of
     CmdPause \<Rightarrow> Some
       (if sv_lifecycle sv = LcRunning
        then publish_flushed host LcPaused None (sv\<lparr>sv_lifecycle := LcPaused, sv_remaining := None\<rparr>) else sv, True)
   | CmdResume instruction_limit \<Rightarrow> Some
       (if sv_lifecycle sv = LcPaused then resume_service e instruction_limit sv else (sv, True))
   | CmdReset \<Rightarrow> Some
       (if sv_lifecycle sv = LcRunning \<or> sv_lifecycle sv = LcPaused then reset_service e host sv else sv, True)
   | CmdShutdown \<Rightarrow> Some (stop_service host None sv, False)
   | CmdInspect request channel \<Rightarrow>
       map_option (\<lambda>(em, result).
         (sv\<lparr>sv_emulator := em, sv_responses := sv_responses sv @ [(channel, result)]\<rparr>, True))
         (emulator_inspect e request (sv_emulator sv)))"

text \<open>\<open>process_commands\<close> on the commands that \<open>try_recv\<close> yields, until it finds the queue empty or the
  channel disconnected.\<close>

fun process_commands ::
  "'g engine \<Rightarrow> 'h host \<Rightarrow> command list \<Rightarrow> bool \<Rightarrow> ('g, 'h) service \<Rightarrow> (('g, 'h) service \<times> bool) option" where
  "process_commands e host [] disconnected sv =
     (if disconnected then Some (stop_service host None sv, False) else Some (sv, True))"
| "process_commands e host (command # commands) disconnected sv =
     Option.bind (process_command e host command sv) (\<lambda>(sv, continue).
       if continue then process_commands e host commands disconnected sv else Some (sv, False))"

section \<open>Running\<close>

fun deliver_due :: "u64 \<Rightarrow> scheduled_uart_input list \<Rightarrow> 'g emulator \<Rightarrow> scheduled_uart_input list \<times> 'g emulator" where
  "deliver_due current_tick [] em = ([], em)"
| "deliver_due current_tick (input # inputs) em =
     (if su_at_tick input \<le> current_tick
      then deliver_due current_tick inputs (deliver_uart (su_port input) (su_bytes input) em)
      else (input # inputs, em))"

definition tick_boundary :: "u64 \<Rightarrow> ('g, 'h) service \<Rightarrow> u64 option" where
  "tick_boundary current_tick sv =
     (case filter (\<lambda>boundary. boundary > current_tick)
        ((case sv_deadline sv of None \<Rightarrow> [] | Some deadline \<Rightarrow> [deadline])
         @ map su_at_tick (take 1 (sv_scheduled sv))) of
       [] \<Rightarrow> None
     | b # bs \<Rightarrow> Some (fold min bs b))"

definition batch_budget :: "u64 \<Rightarrow> ('g, 'h) service \<Rightarrow> usize" where
  "batch_budget current_tick sv =
     (let batch = em_instruction_batch (sv_emulator sv);
          budget = (case sv_remaining sv of None \<Rightarrow> batch | Some remaining \<Rightarrow> min (unat remaining) batch)
      in case tick_boundary current_tick sv of
        None \<Rightarrow> budget
      | Some boundary \<Rightarrow> min budget (unat (boundary - current_tick)))"

definition saturating_sub_u64 :: "u64 \<Rightarrow> u64 \<Rightarrow> u64" where
  "saturating_sub_u64 a b = (if b \<le> a then a - b else 0)"

text \<open>The match on the result of a batch; the Boolean is False where \<open>run\<close> leaves its loop.\<close>

definition settle_batch ::
  "'h host \<Rightarrow> bool \<Rightarrow> bool \<Rightarrow> runtime_error + backend_stop \<Rightarrow> ('g, 'h) service \<Rightarrow> ('g, 'h) service \<times> bool" where
  "settle_batch host publish_due limit_reached result sv = (case result of
     Inl error \<Rightarrow>
       (let (sv, flushed) = flush_service host sv
        in (publish LcFailed None (Some (NoteRun error (err_option flushed))) sv, False))
   | Inr (StopUnicorn error) \<Rightarrow>
       (let (sv, flushed) = flush_service host sv
        in (publish LcFailed (Some (NoteUnicorn error)) (Some (NoteBackend error (err_option flushed))) sv, False))
   | Inr (StopBreakpoint address immediate) \<Rightarrow>
       (publish_flushed host LcPaused (Some (NoteBreakpoint immediate address))
          (sv\<lparr>sv_lifecycle := LcPaused, sv_remaining := None, sv_pending_breakpoint := Some address\<rparr>), True)
   | Inr stop \<Rightarrow>
       (if limit_reached
        then publish_flushed host LcPaused (Some (NoteLimit stop))
          (sv\<lparr>sv_lifecycle := LcPaused, sv_remaining := None\<rparr>)
        else if publish_due then publish (sv_lifecycle sv) (Some (NoteStop stop)) None sv
        else sv, True))"

definition run_service_batch ::
  "'g engine \<Rightarrow> 'h host \<Rightarrow> bool \<Rightarrow> u64 \<Rightarrow> ('g, 'h) service \<Rightarrow> (('g, 'h) service \<times> bool) option" where
  "run_service_batch e host publish_due current_tick sv =
     map_option (\<lambda>(em, result).
       let executed = saturating_sub_u64 (em_ticks em) (em_ticks (sv_emulator sv));
           remaining = map_option (\<lambda>remaining. saturating_sub_u64 remaining executed) (sv_remaining sv)
       in settle_batch host publish_due (remaining = Some 0) result
            (sv\<lparr>sv_emulator := em, sv_remaining := remaining\<rparr>))
     (run_batch e (batch_budget current_tick sv) (tick_boundary current_tick sv) (sv_emulator sv))"

definition running_step ::
  "'g engine \<Rightarrow> 'h host \<Rightarrow> bool \<Rightarrow> ('g, 'h) service \<Rightarrow> (('g, 'h) service \<times> bool) option" where
  "running_step e host publish_due sv =
     (let current_tick = em_ticks (sv_emulator sv);
          (scheduled, em) = deliver_due current_tick (sv_scheduled sv) (sv_emulator sv);
          sv = sv\<lparr>sv_scheduled := scheduled, sv_emulator := em\<rparr>
      in if (case sv_deadline sv of None \<Rightarrow> False | Some deadline \<Rightarrow> current_tick \<ge> deadline)
         then Some (publish_flushed host LcPaused (Some NoteDeadline) (sv\<lparr>sv_lifecycle := LcPaused\<rparr>), True)
         else
           (let (inbox, em) = drain_uart (sv_uart sv) (sv_emulator sv)
            in run_service_batch e host publish_due current_tick (sv\<lparr>sv_uart := inbox, sv_emulator := em\<rparr>)))"

section \<open>The loop\<close>

datatype wait_result = WaitCommand command | WaitTimeout | WaitDisconnected

record iteration_input =
  ii_commands :: "command list"
  ii_disconnected :: bool
  ii_wait :: wait_result
  ii_publish_due :: bool

definition paused_step ::
  "'g engine \<Rightarrow> 'h host \<Rightarrow> wait_result \<Rightarrow> ('g, 'h) service \<Rightarrow> (('g, 'h) service \<times> bool) option" where
  "paused_step e host wait sv = (case wait of
     WaitCommand command \<Rightarrow> process_command e host command sv
   | WaitTimeout \<Rightarrow> Some (sv, True)
   | WaitDisconnected \<Rightarrow> Some (stop_service host None sv, False))"

text \<open>The body of the loop after the commands, and the whole of it.\<close>

definition lifecycle_step ::
  "'g engine \<Rightarrow> 'h host \<Rightarrow> iteration_input \<Rightarrow> ('g, 'h) service \<Rightarrow> (('g, 'h) service \<times> bool) option" where
  "lifecycle_step e host ii sv =
     (if sv_lifecycle sv = LcRunning then running_step e host (ii_publish_due ii) sv
      else if sv_lifecycle sv = LcPaused then paused_step e host (ii_wait ii) sv
      else Some (sv, True))"

definition service_iteration ::
  "'g engine \<Rightarrow> 'h host \<Rightarrow> iteration_input \<Rightarrow> ('g, 'h) service \<Rightarrow> (('g, 'h) service \<times> bool) option" where
  "service_iteration e host ii sv =
     Option.bind (process_commands e host (ii_commands ii) (ii_disconnected ii) sv) (\<lambda>(sv, continue).
       if continue then lifecycle_step e host ii sv else Some (sv, False))"

text \<open>\<open>Service::new\<close> and \<open>run\<close> up to the loop: the failed status, or the service in its first state.\<close>

definition service_start ::
  "'g engine \<Rightarrow> 'h host \<Rightarrow> 'h \<Rightarrow> runtime_config \<Rightarrow> runtime_status \<Rightarrow> uart_inbox
   \<Rightarrow> runtime_status + ('g, 'h) service" where
  "service_start e host h config status inbox =
     (case emulator_new e host h config of
       Inl error \<Rightarrow> Inl (publish_status LcFailed None (Some (NoteError error)) status)
     | Inr em \<Rightarrow>
       (let lifecycle = (if rc_start_paused config then LcPaused else LcRunning)
        in Inr (publish lifecycle None None
          \<lparr>sv_status = status, sv_uart = inbox, sv_remaining = None, sv_pending_breakpoint = None,
           sv_deadline = rc_execution_deadline config,
           sv_scheduled = sort_key su_at_tick (rc_scheduled_uart config),
           sv_emulator = em, sv_lifecycle = lifecycle, sv_host = h, sv_responses = []\<rparr>)))"

text \<open>\<open>send_uart\<close>, from any thread, between two accesses of the service to the inbox.\<close>

definition send_uart :: "uart_port \<Rightarrow> u8 list \<Rightarrow> ('g, 'h) service \<Rightarrow> ('g, 'h) service" where
  "send_uart port bytes sv = sv\<lparr>sv_uart := inbox_push port bytes (sv_uart sv)\<rparr>"

end
