(* ===== verification/Runtime_Keeps.thy ===== *)
theory Runtime_Keeps
  imports Runtime_Service
begin

text \<open>
  What the emulator's operations keep: the machine's histories, and the tie between the attached media
  and the host files they are written back to. The service rests on these facts.
\<close>

section \<open>Media and host files\<close>

text \<open>The files are below two tebibytes.\<close>

definition small_files :: "'h host \<Rightarrow> bool" where
  "small_files host \<longleftrightarrow> (\<forall>h p bytes. ho_read host h p = Ok bytes \<longrightarrow> length bytes < 2 ^ 41)"

text \<open>
  \<open>fs::write\<close> on one of these paths: after success a read gives what was written, and the files of
  the other paths stay. It is used on canonical paths, which name different files.
\<close>

definition separate_files :: "'h host \<Rightarrow> path set \<Rightarrow> bool" where
  "separate_files host paths \<longleftrightarrow> (\<forall>p\<in>paths. \<forall>bytes h h' r. ho_write host p bytes h = (h', r) \<longrightarrow>
     (\<forall>q\<in>paths. q \<noteq> p \<longrightarrow> ho_read host h' q = ho_read host h q) \<and> (r = Ok () \<longrightarrow> ho_read host h' p = Ok bytes))"

text \<open>The units with a file: write-back is in order for what the files hold.\<close>

definition files_match :: "'h host \<Rightarrow> 'h \<Rightarrow> (u32 \<times> path option) list \<Rightarrow> (usize \<Rightarrow> u8 list option) \<Rightarrow> bool" where
  "files_match host h units disk \<longleftrightarrow> (\<forall>u p. (u, Some p) \<in> set units \<longrightarrow> disk (unat u) = ok (ho_read host h p))"

lemma files_match_Cons [simp]:
  "files_match host h [] disk"
  "files_match host h ((u, None) # units) disk \<longleftrightarrow> files_match host h units disk"
  "files_match host h ((u, Some p) # units) disk \<longleftrightarrow> disk (unat u) = ok (ho_read host h p) \<and> files_match host h units disk"
  by (auto simp: files_match_def)

definition media_synced :: "'h host \<Rightarrow> 'h \<Rightarrow> (u32 \<times> path option) list \<Rightarrow> mmio_bus \<Rightarrow> bool" where
  "media_synced host h units bus \<longleftrightarrow> (\<exists>disk. write_back_ok (bus_block bus) disk \<and> files_match host h units disk)"

lemma media_synced_follows: "media_synced host h units bus \<Longrightarrow> disk_follows bus bus' \<Longrightarrow> media_synced host h units bus'"
  by (auto simp: media_synced_def disk_follows_def)

lemma media_synced_wf: "media_synced host h units bus \<Longrightarrow> block_wf (bus_block bus)"
  by (auto simp: media_synced_def dest: write_back_ok_wf)

text \<open>Attaching a medium.\<close>

lemma attach_keeps:
  assumes "bus_host_update (BlockAttach u media) bus = Ok bus'" and "length media < 2 ^ 41"
    and "write_back_ok (bus_block bus) disk"
  shows "write_back_ok (bus_block bus') (disk(unat u := Some media))"
  using assms
  by (auto simp: bus_host_update_def block_update_def block_attach_def and_then_Ok unit_index_Ok SECTOR_SIZE_def
      clean_in_sync_def split: if_splits intro!: write_back_ok_set_unit)

lemma attach_machine_ok:
  assumes "bus_host_update (BlockAttach u media) (ma_bus m) = Ok bus" and "machine_ok m"
  shows "machine_ok (m\<lparr>ma_bus := bus\<rparr>)"
  using assms by (auto simp: machine_ok_def intro: bus_reachable.host)

lemma new_machine_media: "write_back_ok (bus_block (ma_bus (machine_new memory capacity))) (\<lambda>_. None)"
  using write_back_invariant [OF write_back.new] by (simp add: machine_new_def bus_new_def)

lemma reattach_keeps:
  assumes "reattach u old m = Ok m'" and "block_wf (bus_block (ma_bus old))"
    and "machine_ok m" and "write_back_ok (bus_block (ma_bus m)) disk"
  shows "machine_ok m' \<and> ma_ticks m' = ma_ticks m \<and> (\<exists>disk. write_back_ok (bus_block (ma_bus m')) disk)"
proof -
  from assms(1) consider "m' = m" | media bus where "bus_host_update (BlockAttach u media) (ma_bus m) = Ok bus"
      "m' = m\<lparr>ma_bus := bus\<rparr>" "unat u < 2" "mu_media (bd_units (bus_block (ma_bus old)) ! unat u) = Some media"
    by (auto simp: reattach_def and_then_Ok block_media_clone_def unit_index_Ok split: option.splits)
  then show ?thesis
  proof cases
    case 1
    with assms show ?thesis by auto
  next
    case 2
    then have "length media < 2 ^ 41"
      using assms(2) by (auto simp: block_wf_def media_addressable_def)
    with 2 assms(3,4) show ?thesis
      using attach_keeps [OF 2(1) \<open>length media < 2 ^ 41\<close> assms(4)] attach_machine_ok [OF 2(1)] by auto
  qed
qed

lemma reset_clone_keeps:
  assumes "reset_clone old = Ok m" and "block_wf (bus_block (ma_bus old))"
  shows "machine_ok m \<and> ma_ticks m = 0 \<and> (\<exists>disk. write_back_ok (bus_block (ma_bus m)) disk)"
proof -
  from assms(1) obtain memory m1 where
    m1: "reattach UNIT_FILESYSTEM old (machine_new memory (ma_event_capacity old)) = Ok m1"
    and m: "reattach UNIT_SWAP old m1 = Ok m"
    by (auto simp: reset_clone_def and_then_Ok)
  have "ma_ticks (machine_new memory (ma_event_capacity old)) = 0" by (simp add: machine_new_def)
  with reattach_keeps [OF m1 assms(2) new_machine_ok new_machine_media] reattach_keeps [OF m assms(2)]
  show ?thesis by auto
qed


section \<open>The configured machine\<close>

lemma attach_media_keeps:
  assumes "attach_media host h units m = Ok m'" and "distinct (map (\<lambda>u. unat (fst u)) units)" and "small_files host"
    and "machine_ok m" and "write_back_ok (bus_block (ma_bus m)) disk"
  shows "machine_ok m' \<and> ma_ticks m' = ma_ticks m
    \<and> (\<exists>disk'. write_back_ok (bus_block (ma_bus m')) disk' \<and> files_match host h units disk'
        \<and> (\<forall>i. i \<notin> unat ` fst ` set units \<longrightarrow> disk' i = disk i))"
  using assms
proof (induction host h units m arbitrary: disk rule: attach_media.induct)
  case (1 host h m)
  then show ?case by (auto simp: files_match_def)
next
  case (2 host h u units m)
  from 2(2,3) have "attach_media host h units m = Ok m'" "distinct (map (\<lambda>u. unat (fst u)) units)" by simp_all
  from 2(1) [OF this 2(4-6)] obtain disk' where "machine_ok m' \<and> ma_ticks m' = ma_ticks m"
      "write_back_ok (bus_block (ma_bus m')) disk'" "files_match host h units disk'"
      "\<forall>i. i \<notin> unat ` fst ` set units \<longrightarrow> disk' i = disk i"
    by blast
  then show ?case by (intro conjI exI [of _ disk']) auto
next
  case (3 host h u path units m)
  from 3(2) obtain media bus where media: "ho_read host h path = Ok media"
    and bus: "bus_host_update (BlockAttach u media) (ma_bus m) = Ok bus"
    and rest: "attach_media host h units (m\<lparr>ma_bus := bus\<rparr>) = Ok m'"
    by (auto simp: and_then_Ok map_err_Ok)
  have small: "length media < 2 ^ 41"
    using media 3(4) by (auto simp: small_files_def)
  have "write_back_ok (bus_block (ma_bus (m\<lparr>ma_bus := bus\<rparr>))) (disk(unat u := Some media))"
    using attach_keeps [OF bus small 3(6)] by simp
  from 3(1) [OF rest _ 3(4) attach_machine_ok [OF bus 3(5)] this] media bus 3(3)
  obtain disk' where d: "machine_ok m'" "ma_ticks m' = ma_ticks m" "write_back_ok (bus_block (ma_bus m')) disk'"
      "files_match host h units disk'"
      "\<forall>i. i \<notin> unat ` fst ` set units \<longrightarrow> disk' i = (disk(unat u := Some media)) i"
    by (auto simp: map_err_Ok)
  have "disk' (unat u) = Some media"
    using d(5) 3(3) by (auto simp: image_image)
  with d media show ?case
    by (intro conjI exI [of _ disk']) auto
qed

lemma apply_ram_writes_keeps:
  "apply_ram_writes writes m = Ok m' \<Longrightarrow> machine_follows m m' \<and> ma_ticks m' = ma_ticks m \<and> ma_bus m' = ma_bus m"
proof (induction writes m rule: apply_ram_writes.induct)
  case (2 address bytes writes m)
  then obtain memory where memory: "mem_write_range (ma_memory m) address bytes = Ok memory"
      "apply_ram_writes writes (m\<lparr>ma_memory := memory\<rparr>) = Ok m'"
    by (auto simp: and_then_Ok map_err_Ok)
  have "machine_follows m (m\<lparr>ma_memory := memory\<rparr>)"
    using roms_write(1) [OF memory(1)] by (simp add: machine_follows_def machine_ok_def)
  with 2(1) [OF memory(2)] show ?case
    by (auto intro: machine_follows_trans)
qed simp

lemma configured_machine_keeps:
  assumes "configured_machine host h config source = Ok m" and "block_wf (bus_block (ma_bus source))"
    and "small_files host"
  shows "machine_ok m \<and> ma_ticks m = 0 \<and> media_synced host h (media_paths config) (ma_bus m)"
proof -
  from assms(1) obtain m1 m2 where m1: "reset_clone source = Ok m1"
    and m2: "attach_media host h (media_paths config) m1 = Ok m2"
    and m: "apply_ram_writes (rc_initial_ram_writes config) m2 = Ok m"
    by (auto simp: configured_machine_def and_then_Ok map_err_Ok)
  from reset_clone_keeps [OF m1 assms(2)] obtain disk where
    "machine_ok m1" "ma_ticks m1 = 0" "write_back_ok (bus_block (ma_bus m1)) disk" by auto
  with attach_media_keeps [OF m2 _ assms(3)] apply_ram_writes_keeps [OF m]
  show ?thesis
    by (auto simp: media_paths_def UNIT_FILESYSTEM_def UNIT_SWAP_def media_synced_def machine_follows_def)
qed


section \<open>The emulator\<close>

definition em_media :: "'g emulator \<Rightarrow> (u32 \<times> path option) list" where
  "em_media em = [(UNIT_FILESYSTEM, em_media_path0 em), (UNIT_SWAP, em_media_path1 em)]"

definition em_paths :: "'g emulator \<Rightarrow> path set" where
  "em_paths em = {p. em_media_path0 em = Some p \<or> em_media_path1 em = Some p}"

definition distinct_media :: "path option \<Rightarrow> path option \<Rightarrow> bool" where
  "distinct_media path0 path1 \<longleftrightarrow> path0 = None \<or> path0 \<noteq> path1"

text \<open>The same emulator with another backend.\<close>

definition same_setup :: "'g emulator \<Rightarrow> 'g emulator \<Rightarrow> bool" where
  "same_setup em em' \<longleftrightarrow> em_entry em' = em_entry em \<and> em_end em' = em_end em
     \<and> em_instruction_batch em' = em_instruction_batch em \<and> em_media_path0 em' = em_media_path0 em
     \<and> em_media_path1 em' = em_media_path1 em \<and> em_initial_ram_writes em' = em_initial_ram_writes em"

lemma same_setup_refl [simp]: "same_setup em em" "same_setup em (em\<lparr>em_backend := b\<rparr>)"
  by (simp_all add: same_setup_def)

lemma same_setup_trans [trans]: "same_setup a b \<Longrightarrow> same_setup b c \<Longrightarrow> same_setup a c"
  by (simp add: same_setup_def)

lemma same_setup_media: "same_setup em em' \<Longrightarrow> em_media em' = em_media em"
  "same_setup em em' \<Longrightarrow> em_paths em' = em_paths em"
  by (simp_all add: same_setup_def em_media_def em_paths_def)

definition emulator_ok :: "'h host \<Rightarrow> 'h \<Rightarrow> 'g emulator \<Rightarrow> bool" where
  "emulator_ok host h em \<longleftrightarrow> machine_ok (em_machine em) \<and> media_synced host h (em_media em) (ma_bus (em_machine em))
     \<and> 0 < em_instruction_batch em \<and> distinct_media (em_media_path0 em) (em_media_path1 em)"

text \<open>\<open>em_follows em em'\<close>: an operation that leaves the host's files alone led from \<open>em\<close> to \<open>em'\<close>.\<close>

definition em_follows :: "'g emulator \<Rightarrow> 'g emulator \<Rightarrow> bool" where
  "em_follows em em' \<longleftrightarrow> same_setup em em' \<and> machine_follows (em_machine em) (em_machine em')"

lemma em_follows_refl [simp]: "em_follows em em"
  by (simp add: em_follows_def)

lemma em_follows_trans [trans]: "em_follows a b \<Longrightarrow> em_follows b c \<Longrightarrow> em_follows a c"
  by (auto simp: em_follows_def intro: same_setup_trans machine_follows_trans)

lemma emulator_ok_follows: "emulator_ok host h em \<Longrightarrow> em_follows em em' \<Longrightarrow> emulator_ok host h em'"
  by (auto simp: emulator_ok_def em_follows_def machine_follows_def same_setup_media(1)
      intro: media_synced_follows) (simp_all add: same_setup_def)

lemma em_follows_backend:
  "machine_follows (em_machine em) (be_machine b) \<Longrightarrow> em_follows em (em\<lparr>em_backend := b\<rparr>)"
  by (simp add: em_follows_def)

lemma set_program_counter_machine [simp]: "be_machine (fst (set_program_counter e v b)) = be_machine b"
  by (simp add: set_program_counter_def)

lemma backend_new_machine: "backend_new e m = Ok b \<Longrightarrow> be_machine b = m"
  by (auto simp: backend_new_def and_then_Ok)

lemma emulator_new_ok:
  assumes "emulator_new e host h config = Ok em" and "block_wf (bus_block (ma_bus (rc_machine config)))"
    and "small_files host" and "0 < rc_instruction_batch config"
    and "distinct_media (rc_block_media_path config) (rc_block1_media_path config)"
  shows "emulator_ok host h em \<and> em_ticks em = 0
     \<and> em_media_path0 em = rc_block_media_path config \<and> em_media_path1 em = rc_block1_media_path config"
proof -
  from assms(1) obtain m b where m: "configured_machine host h config (rc_machine config) = Ok m"
    and b: "backend_new e m = Ok b"
    and em: "em = \<lparr>em_backend = fst (set_program_counter e (rc_entry config) b), em_entry = rc_entry config,
      em_end = rc_end config, em_instruction_batch = rc_instruction_batch config,
      em_media_path0 = rc_block_media_path config, em_media_path1 = rc_block1_media_path config,
      em_initial_ram_writes = rc_initial_ram_writes config\<rparr>"
    by (auto simp: emulator_new_def and_then_Ok map_err_Ok case_prod_unfold Let_def)
  from configured_machine_keeps [OF m assms(2,3)] backend_new_machine [OF b] assms(4,5) show ?thesis
    by (simp add: em emulator_ok_def em_media_def media_paths_def)
qed

section \<open>UART, status and inspection\<close>

lemma deliver_byte_keeps: "bus_block (deliver_byte port byte bus) = bus_block bus"
  "bus_reachable bus \<Longrightarrow> bus_reachable (deliver_byte port byte bus)"
  by (auto simp: deliver_byte_def case_prod_unfold Let_def split: uart_port.split
      intro: bus_reachable.host_uart0 [of _ _ "fst x" "snd x" for x] bus_reachable.host_uart1 [of _ _ "fst x" "snd x" for x])

lemma deliver_bytes_keeps: "bus_block (fold (deliver_byte port) bytes bus) = bus_block bus"
  "bus_reachable bus \<Longrightarrow> bus_reachable (fold (deliver_byte port) bytes bus)"
  by (induction bytes arbitrary: bus) (simp_all add: deliver_byte_keeps)

lemma on_bus_machine: "em_machine (on_bus f em) = (em_machine em)\<lparr>ma_bus := f (ma_bus (em_machine em))\<rparr>"
  "same_setup em (on_bus f em)"
  by (simp_all add: on_bus_def)

lemma deliver_uart_follows: "em_follows em (deliver_uart port bytes em)"
  "em_ticks (deliver_uart port bytes em) = em_ticks em"
  by (auto simp: deliver_uart_def em_follows_def on_bus_machine machine_follows_def machine_ok_def
      deliver_bytes_keeps intro: disk_follows_same)

lemma drain_uart_follows: "em_follows em (snd (drain_uart inbox em))"
  "em_ticks (snd (drain_uart inbox em)) = em_ticks em"
  by (auto simp: drain_uart_def inbox_drain_def Let_def deliver_uart_follows
      intro: em_follows_trans deliver_uart_follows(1))

lemma deliver_due_follows: "em_follows em (snd (deliver_due now inputs em))"
  "em_ticks (snd (deliver_due now inputs em)) = em_ticks em"
  by (induction now inputs em rule: deliver_due.induct)
    (auto simp: deliver_uart_follows intro: em_follows_trans deliver_uart_follows(1))

lemma deliver_due_rest: "fst (deliver_due now inputs em) = dropWhile (\<lambda>i. su_at_tick i \<le> now) inputs"
  by (induction now inputs em rule: deliver_due.induct) auto

lemma emulator_status_follows: "em_follows em (fst (emulator_status em))"
  "em_ticks (fst (emulator_status em)) = em_ticks em"
  by (auto simp: emulator_status_def machine_status_def case_prod_unfold Let_def em_follows_def
      machine_follows_def machine_ok_def intro: bus_reachable.status disk_follows_same)

lemma machine_inspect_follows: "machine_follows m (fst (machine_inspect request m))"
  "ma_ticks (fst (machine_inspect request m)) = ma_ticks m"
proof -
  have "bus_block (fst (bus_inspect (ma_bus m))) = bus_block (ma_bus m)"
    by (simp add: bus_inspect_def Let_def)
  then show "machine_follows m (fst (machine_inspect request m))"
    by (auto simp: machine_inspect_def case_prod_unfold Let_def machine_follows_def machine_ok_def
        intro: bus_reachable.inspect disk_follows_same split: inspection_request.split)
qed (auto simp: machine_inspect_def case_prod_unfold Let_def split: inspection_request.split)

lemma inspect_backend_follows:
  assumes "inspects (em_backend em) r"
  shows "\<exists>em' x. inspect_backend f em r = Some (em', x) \<and> em_follows em em' \<and> em_ticks em' = em_ticks em"
  using assms by (auto simp: inspect_backend_def inspects_def intro: em_follows_backend)

lemma translate_virtual_inspects:
  assumes "engine_runs e"
  shows "inspects b (Some (translate_virtual_address e address b))"
  using engine_translate_inspects [OF assms, of b "ucast (va_get address)" ProtRead]
  by (cases "engine_translate e (ucast (va_get address)) ProtRead b")
    (simp add: translate_virtual_address_def Let_def inspects_Some)

lemma emulator_inspect_follows:
  assumes "engine_runs e" and "engine_reads e"
  shows "\<exists>em' x. emulator_inspect e request em = Some (em', x) \<and> em_follows em em' \<and> em_ticks em' = em_ticks em"
proof (cases request)
  case (RequestMachine r)
  then show ?thesis
    using machine_inspect_follows [where request = r and m = "em_machine em"]
    by (auto simp: emulator_inspect_def case_prod_unfold Let_def intro!: em_follows_backend)
next
  case (RequestSearch pattern)
  have "inspects (em_backend em) (search_memory e pattern (em_backend em))"
    using search_chunks_inspects [OF assms] by (simp add: search_memory_def inspects_Some)
  from inspect_backend_follows [OF this] RequestSearch show ?thesis
    by (simp add: emulator_inspect_def)
next
  case (RequestTranslate address)
  then show ?thesis
    using inspect_backend_follows [OF translate_virtual_inspects [OF assms(1)]] by (simp add: emulator_inspect_def)
next
  case (RequestLiveMemory span)
  have "inspects (em_backend em) (inspect_live_memory e span (em_backend em))"
    unfolding inspect_live_memory_def read_physical_memory_def by (rule backend_inspects(1) [OF assms])
  from inspect_backend_follows [OF this] RequestLiveMemory show ?thesis
    by (simp add: emulator_inspect_def)
next
  case (RequestVirtualMemory address len)
  have "inspects (em_backend em) (inspect_virtual_memory e address len (em_backend em))"
    unfolding inspect_virtual_memory_def read_translated_memory_def by (rule backend_inspects(2) [OF assms])
  from inspect_backend_follows [OF this] RequestVirtualMemory show ?thesis
    by (simp add: emulator_inspect_def)
next
  case (RequestExecution address before after)
  from inspect_backend_follows [OF backend_inspects(4) [OF assms]] RequestExecution show ?thesis
    by (simp add: emulator_inspect_def)
qed


section \<open>Flushing\<close>

lemma block_flush_step:
  "block_flush u (ho_write host path) b h = (b', h', gs, r) \<Longrightarrow>
     block_step (BlockOpFlush u (\<lambda>media. snd (ho_write host path media h))) b = (b', gs)"
  by (auto simp: block_flush_def Let_def split: sum.splits option.splits if_splits prod.splits)

text \<open>What a flush of one unit does: nothing, a failed write that leaves the sectors dirty, or a
  successful write.\<close>

lemma block_flush_cases:
  assumes "block_flush u (ho_write host path) b h = (b', h', gs, r)"
  obtains (idle) "bd_units b' = bd_units b" "h' = h"
      "r = Ok () \<longrightarrow> unat u < 2 \<and> mu_dirty_sectors (bd_units b ! unat u) = {}"
  | (failed) media error where "bd_units b' = bd_units b" "ho_write host path media h = (h', Err error)"
      "mu_dirty_sectors (bd_units b ! unat u) \<noteq> {}" "unat u < 2" "r \<noteq> Ok ()"
  | (written) media where "ho_write host path media h = (h', Ok ())" "unat u < 2"
      "mu_media (bd_units b ! unat u) = Some media" "r = Ok ()"
      "bd_units b' = (bd_units b)[unat u := (bd_units b ! unat u)\<lparr>mu_dirty_sectors := {}\<rparr>]"
proof (cases "unit_index u")
  case (Inl error)
  with assms have "b' = b" "h' = h" "r = Err error" by (simp_all add: block_flush_def)
  then show thesis by (intro idle) simp_all
next
  case (Inr i)
  then have i: "i = unat u" "unat u < 2" by (simp_all add: unit_index_Ok)
  let ?s = "bd_units b ! unat u"
  show thesis
  proof (cases "mu_dirty_sectors ?s = {}")
    case True
    with assms Inr i have "b' = b" "h' = h" by (simp_all add: block_flush_def)
    with True i show thesis by (intro idle) simp_all
  next
    case dirty: False
    show thesis
    proof (cases "mu_media ?s")
      case None
      with assms Inr i dirty have "b' = b" "h' = h" "r = Err (InvalidBlockMedia u)"
        by (simp_all add: block_flush_def)
      then show thesis by (intro idle) simp_all
    next
      case (Some media)
      obtain h1 w where w: "ho_write host path media h = (h1, w)" by fastforce
      show thesis
      proof (cases w)
        case (Inl error)
        with assms Inr i dirty Some w have "bd_units b' = bd_units b" "h' = h1" "r = Err (BlockFlush u error)"
          by (auto simp: block_flush_def Let_def block_mark_flush_failed_def)
        with w Inl dirty i show thesis by (intro failed) simp_all
      next
        case (Inr unit)
        with assms \<open>unit_index u = Inr i\<close> i dirty Some w
        have "b' = block_set_unit_state (unat u) (?s\<lparr>mu_dirty_sectors := {}\<rparr>) b" "h' = h1" "r = Ok ()"
          by (auto simp: block_flush_def Let_def)
        with w Inr Some i show thesis by (intro written) (simp_all add: block_set_unit_state_def)
      qed
    qed
  qed
qed

lemma flush_unit_disk:
  assumes "block_flush u (ho_write host path) b h = (b', h', gs, r)" and "write_back_ok b disk"
    and "disk (unat u) = ok (ho_read host h path)"
    and "\<And>media h'. ho_write host path media h = (h', Ok ()) \<Longrightarrow> ho_read host h' path = Ok media"
  shows "write_back_ok b' (disk(unat u := ok (ho_read host h' path)))
     \<and> (r = Ok () \<longrightarrow> mu_dirty_sectors (bd_units b' ! unat u) = {})
     \<and> (\<forall>i. i \<noteq> unat u \<longrightarrow> bd_units b' ! i = bd_units b ! i)"
  using assms(1)
proof (cases rule: block_flush_cases)
  case idle
  have "disk(unat u := ok (ho_read host h' path)) = disk"
    using assms(3) idle by auto
  with idle assms(2) show ?thesis
    by (auto intro: write_back_ok_registers)
next
  case (failed media error)
  with assms(2) show ?thesis
    by (auto simp: write_back_ok_def clean_in_sync_def)
next
  case (written media)
  with assms(2) assms(4) [OF written(1)] show ?thesis
    by (auto simp: write_back_ok_def clean_in_sync_def nth_list_update)
qed

lemma flush_writes_path:
  assumes "block_flush u (ho_write host path) b h = (b', h', gs, r)"
    and "separate_files host paths" and "path \<in> paths" and "q \<in> paths" and "q \<noteq> path"
  shows "ho_read host h' q = ho_read host h q"
  using assms(1)
proof (cases rule: block_flush_cases)
  case (failed media error)
  with assms(2-5) show ?thesis unfolding separate_files_def by blast
next
  case (written media)
  with assms(2-5) show ?thesis unfolding separate_files_def by blast
qed simp

text \<open>One unit of the emulator, and then both.\<close>

definition unit_clean :: "u32 \<Rightarrow> 'g emulator \<Rightarrow> bool" where
  "unit_clean u em \<longleftrightarrow> mu_dirty_sectors (bd_units (bus_block (ma_bus (em_machine em))) ! unat u) = {}"

lemma flush_unit_keeps:
  assumes "flush_unit host u path em h = (em', h', r)" and "emulator_ok host h em"
    and "separate_files host (em_paths em)" and "(u, Some path) \<in> set (em_media em)"
  shows "emulator_ok host h' em' \<and> same_setup em em' \<and> em_ticks em' = em_ticks em
     \<and> (r = Ok () \<longrightarrow> unit_clean u em') \<and> (\<forall>v. unat v \<noteq> unat u \<longrightarrow> unit_clean v em' = unit_clean v em)"
proof -
  let ?bus = "ma_bus (em_machine em)"
  obtain b gs where fl: "block_flush u (ho_write host path) (bus_block ?bus) h = (b, h', gs, r)"
      and em': "em' = on_bus (\<lambda>bus. bus_send gs (bus\<lparr>bus_block := b\<rparr>)) em"
    using assms(1) by (auto simp: flush_unit_def Let_def split: prod.splits)
  have path: "path \<in> em_paths em"
    using assms(4) by (auto simp: em_media_def em_paths_def)
  from assms(2) obtain disk where disk: "write_back_ok (bus_block ?bus) disk" "files_match host h (em_media em) disk"
    by (auto simp: emulator_ok_def media_synced_def)
  have "write_back_ok b (disk(unat u := ok (ho_read host h' path)))"
    and clean: "r = Ok () \<longrightarrow> mu_dirty_sectors (bd_units b ! unat u) = {}"
      "\<And>i. i \<noteq> unat u \<Longrightarrow> bd_units b ! i = bd_units (bus_block ?bus) ! i"
    using flush_unit_disk [OF fl disk(1)] disk(2) assms(3,4) path
    by (auto simp: files_match_def separate_files_def)
  moreover have "files_match host h' (em_media em) (disk(unat u := ok (ho_read host h' path)))"
  proof -
    have "(disk(unat u := ok (ho_read host h' path))) (unat v) = ok (ho_read host h' q)"
      if v: "(v, Some q) \<in> set (em_media em)" for v q
    proof (cases "unat v = unat u")
      case True
      with v assms(4) have "q = path"
        by (auto simp: em_media_def UNIT_FILESYSTEM_def UNIT_SWAP_def) (metis option.inject)+
      with True show ?thesis by simp
    next
      case False
      with v assms(4) have "q \<noteq> path" "q \<in> em_paths em"
        using assms(2) by (auto simp: em_media_def em_paths_def emulator_ok_def distinct_media_def)
      with flush_writes_path [OF fl assms(3) path] disk(2) v False show ?thesis
        by (simp add: files_match_def)
    qed
    then show ?thesis by (simp add: files_match_def)
  qed
  ultimately have "media_synced host h' (em_media em) (ma_bus (em_machine em'))"
    by (auto simp: em' on_bus_machine media_synced_def)
  moreover have "machine_ok (em_machine em')"
    using assms(2) bus_reachable.flush [OF _ block_flush_step [OF fl]]
    by (auto simp: em' on_bus_machine emulator_ok_def machine_ok_def)
  moreover have same: "same_setup em em'" by (simp add: em' on_bus_machine)
  moreover have "em_ticks em' = em_ticks em" by (simp add: em' on_bus_machine)
  ultimately show ?thesis
    using assms(2) clean same_setup_media(1) [OF same]
    by (auto simp: emulator_ok_def unit_clean_def em' on_bus_machine) (simp_all add: same_setup_def on_bus_def)
qed


text \<open>Every attached medium with a file is what the file holds.\<close>

definition files_current :: "'h host \<Rightarrow> 'h \<Rightarrow> 'g emulator \<Rightarrow> bool" where
  "files_current host h em \<longleftrightarrow> (\<forall>u p media. (u, Some p) \<in> set (em_media em) \<longrightarrow>
     mu_media (bd_units (bus_block (ma_bus (em_machine em))) ! unat u) = Some media \<longrightarrow> ho_read host h p = Ok media)"

lemma clean_files_current:
  assumes "emulator_ok host h em" and "\<And>u p. (u, Some p) \<in> set (em_media em) \<Longrightarrow> unit_clean u em"
  shows "files_current host h em"
proof -
  from assms(1) obtain disk where disk: "write_back_ok (bus_block (ma_bus (em_machine em))) disk"
      "files_match host h (em_media em) disk"
    by (auto simp: emulator_ok_def media_synced_def)
  have "ho_read host h p = Ok media"
    if "(u, Some p) \<in> set (em_media em)" "mu_media (bd_units (bus_block (ma_bus (em_machine em))) ! unat u) = Some media"
    for u p media
  proof -
    have "unat u < 2"
      using that(1) by (auto simp: em_media_def UNIT_FILESYSTEM_def UNIT_SWAP_def)
    with disk(1) that assms(2) [OF that(1)] have "disk (unat u) = Some media"
      by (auto simp: write_back_ok_def clean_in_sync_def unit_clean_def)
    with disk(2) that(1) show ?thesis
      by (auto simp: files_match_def) (metis ok_Some)
  qed
  then show ?thesis by (simp add: files_current_def)
qed

lemma flush_units_keeps:
  assumes "flush_units host units first_error em h = (em', h', r)" and "emulator_ok host h em"
    and "separate_files host (em_paths em)" and "set units \<subseteq> set (em_media em)"
    and "distinct (map (\<lambda>u. unat (fst u)) units)"
  shows "emulator_ok host h' em' \<and> same_setup em em' \<and> em_ticks em' = em_ticks em
     \<and> (first_error \<noteq> None \<longrightarrow> r = first_error)
     \<and> (r = None \<longrightarrow> (\<forall>u p. (u, Some p) \<in> set units \<longrightarrow> unit_clean u em'))
     \<and> (\<forall>v. unat v \<notin> unat ` fst ` set units \<longrightarrow> unit_clean v em' = unit_clean v em)"
  using assms
proof (induction host units first_error em h rule: flush_units.induct)
  case (2 host u units first_error em h)
  then show ?case by auto
next
  case (3 host u path units first_error em h)
  obtain em1 h1 r1 where one: "flush_unit host u path em h = (em1, h1, r1)" by (metis prod_cases3)
  define error where "error = (case r1 of Inr _ \<Rightarrow> first_error | Inl x \<Rightarrow> if first_error = None then Some x else first_error)"
  have rest: "flush_units host units error em1 h1 = (em', h', r)"
    using 3(2) by (simp add: one error_def)
  have k1: "emulator_ok host h1 em1" "same_setup em em1" "em_ticks em1 = em_ticks em"
      "r1 = Ok () \<longrightarrow> unit_clean u em1" "\<forall>v. unat v \<noteq> unat u \<longrightarrow> unit_clean v em1 = unit_clean v em"
    using flush_unit_keeps [OF one 3(3,4)] 3(5) by auto
  have "set units \<subseteq> set (em_media em1)" "separate_files host (em_paths em1)" "distinct (map (\<lambda>u. unat (fst u)) units)"
    using same_setup_media [OF k1(2)] 3(4-6) by auto
  note ih = 3(1) [OF one [symmetric] refl refl error_def rest k1(1) this(2,1,3)]
  have "r = None \<longrightarrow> r1 = Ok () \<and> unit_clean u em'"
  proof
    assume "r = None"
    with ih have "error = None" by auto
    then have "r1 = Ok ()" by (cases r1) (auto simp: error_def split: if_splits)
    moreover from ih 3(6) have "unit_clean u em' = unit_clean u em1" by (auto simp: image_image)
    ultimately show "r1 = Ok () \<and> unit_clean u em'" using k1(4) by simp
  qed
  moreover have "first_error \<noteq> None \<longrightarrow> error = first_error"
    by (cases r1) (simp_all add: error_def)
  ultimately show ?case
    using ih k1 same_setup_trans [of em em1 em'] by auto
qed simp

lemma emulator_flush_keeps:
  assumes "emulator_flush host em h = (em', h', r)" and "emulator_ok host h em" and "separate_files host (em_paths em)"
  shows "emulator_ok host h' em' \<and> same_setup em em' \<and> em_ticks em' = em_ticks em
     \<and> (r = Ok () \<longrightarrow> files_current host h' em')"
proof -
  obtain first_error where fl: "flush_units host (em_media em) None em h = (em', h', first_error)"
      and r: "r = (case first_error of None \<Rightarrow> Ok () | Some error \<Rightarrow> Err (RuntimeCore error))"
    using assms(1) by (auto simp: emulator_flush_def em_media_def Let_def split: prod.splits)
  have "distinct (map (\<lambda>u. unat (fst u)) (em_media em))"
    by (simp add: em_media_def UNIT_FILESYSTEM_def UNIT_SWAP_def)
  from flush_units_keeps [OF fl assms(2,3) subset_refl this]
  have k: "emulator_ok host h' em'" "same_setup em em'" "em_ticks em' = em_ticks em"
      "first_error = None \<longrightarrow> (\<forall>u p. (u, Some p) \<in> set (em_media em) \<longrightarrow> unit_clean u em')" by auto
  moreover have "r = Ok () \<longrightarrow> files_current host h' em'"
    using k(4) same_setup_media(1) [OF k(2)] clean_files_current [OF k(1)]
    by (auto simp: r split: option.splits)
  ultimately show ?thesis by blast
qed

section \<open>Reset and batches\<close>

lemma emulator_reset_keeps:
  assumes "emulator_reset e host em h = (em', h', r)" and "emulator_ok host h em"
    and "separate_files host (em_paths em)" and "small_files host"
  shows "emulator_ok host h' em' \<and> same_setup em em' \<and> (em_ticks em' = em_ticks em \<or> em_ticks em' = 0)
     \<and> (r = Ok () \<longrightarrow> em_ticks em' = 0)"
proof -
  obtain em1 h1 r1 where fl: "emulator_flush host em h = (em1, h1, r1)" by (metis prod_cases3)
  from emulator_flush_keeps [OF fl assms(2,3)]
  have k: "emulator_ok host h1 em1" "same_setup em em1" "em_ticks em1 = em_ticks em" by auto
  show ?thesis
  proof (cases r1)
    case (Inl error)
    with assms(1) fl k show ?thesis by (auto simp: emulator_reset_def)
  next
    case (Inr unit)
    let ?build = "and_then (map_err RuntimeCore (reset_clone (em_machine em1))) (\<lambda>m.
            let config = reset_config em1 m in
          and_then (configured_machine host h1 config (rc_machine config)) (\<lambda>m.
            map_err RuntimeBackend (backend_new e m)))"
    show ?thesis
    proof (cases ?build)
      case (Inl error)
      with assms(1) fl \<open>r1 = Inr unit\<close> k show ?thesis by (auto simp: emulator_reset_def)
    next
      case (Inr b)
      then obtain m1 m where m1: "reset_clone (em_machine em1) = Ok m1"
        and m: "configured_machine host h1 (reset_config em1 m1) m1 = Ok m" and b: "backend_new e m = Ok b"
        by (auto simp: and_then_Ok map_err_Ok reset_config_def Let_def)
      have "block_wf (bus_block (ma_bus (em_machine em1)))"
        using k(1) by (auto simp: emulator_ok_def dest: media_synced_wf)
      then have "block_wf (bus_block (ma_bus m1))"
        using reset_clone_keeps [OF m1] by (auto dest: write_back_ok_wf)
      from configured_machine_keeps [OF m this assms(4)]
      have m_ok: "machine_ok m" "ma_ticks m = 0" "media_synced host h1 (em_media em1) (ma_bus m)"
        by (auto simp: media_paths_def em_media_def reset_config_def)
      have em': "em' = em1\<lparr>em_backend := fst (set_program_counter e (em_entry em1) b)\<rparr>" "h' = h1"
        using assms(1) fl \<open>r1 = Inr unit\<close> Inr by (auto simp: emulator_reset_def case_prod_unfold Let_def)
      with m_ok backend_new_machine [OF b] k show ?thesis
        by (auto simp: emulator_ok_def em_media_def same_setup_def)
    qed
  qed
qed

lemma resume_from_breakpoint_follows: "em_follows em (fst (resume_from_breakpoint e address em))"
  "em_ticks (fst (resume_from_breakpoint e address em)) = em_ticks em"
  by (auto simp: resume_from_breakpoint_def case_prod_unfold Let_def intro: em_follows_backend split: sum.split)

lemma run_batch_keeps:
  assumes "engine_runs e" and "0 < budget" and "run_limit deadline limit (unat (em_ticks em)) budget"
  shows "\<exists>em' stop. run_batch e budget deadline em = Some (em', Ok stop) \<and> em_follows em em'
     \<and> em_ticks em \<le> em_ticks em' \<and> unat (em_ticks em') \<le> limit"
proof -
  have "run_batch e budget deadline em = map_option (\<lambda>(b, stop). (em\<lparr>em_backend := b\<rparr>, Ok stop))
     (run_with_tick_deadline e (case program_counter e (em_backend em) of Inr pc \<Rightarrow> pc | Inl _ \<Rightarrow> em_entry em)
        (em_end em) budget deadline (em_backend em))"
    by (simp add: run_batch_def Let_def run_until_tick_def be_run_def split: option.split)
  with run_ends [OF assms, of "case program_counter e (em_backend em) of Inr pc \<Rightarrow> pc | Inl _ \<Rightarrow> em_entry em" "em_end em"]
  show ?thesis
    by (auto simp: ends_by_def word_le_nat_alt intro: em_follows_backend)
qed

end
