(* ===== verification/Runtime_Lifecycle.thy ===== *)
theory Runtime_Lifecycle
  imports Runtime_Keeps
begin

text \<open>
  The runtime service in every history: its lifecycle and what it publishes, virtual-time boundaries,
  and the files that it leaves behind.
\<close>

section \<open>Publishing and flushing\<close>

lemma publish_fields [simp]:
  "sv_lifecycle (publish lc stop error sv) = sv_lifecycle sv"
  "sv_remaining (publish lc stop error sv) = sv_remaining sv"
  "sv_pending_breakpoint (publish lc stop error sv) = sv_pending_breakpoint sv"
  "sv_deadline (publish lc stop error sv) = sv_deadline sv"
  "sv_scheduled (publish lc stop error sv) = sv_scheduled sv"
  "sv_host (publish lc stop error sv) = sv_host sv"
  "rs_lifecycle (sv_status (publish lc stop error sv)) = lc"
  "sv_emulator (publish lc stop error sv) = fst (emulator_status (sv_emulator sv))"
  by (simp_all add: publish_def publish_status_def case_prod_unfold Let_def)

lemma publish_clearing_stop_fields [simp]:
  "sv_lifecycle (publish_clearing_stop lc sv) = sv_lifecycle sv"
  "sv_remaining (publish_clearing_stop lc sv) = sv_remaining sv"
  "sv_pending_breakpoint (publish_clearing_stop lc sv) = sv_pending_breakpoint sv"
  "sv_deadline (publish_clearing_stop lc sv) = sv_deadline sv"
  "sv_scheduled (publish_clearing_stop lc sv) = sv_scheduled sv"
  "sv_host (publish_clearing_stop lc sv) = sv_host sv"
  "rs_lifecycle (sv_status (publish_clearing_stop lc sv)) = lc"
  "sv_emulator (publish_clearing_stop lc sv) = fst (emulator_status (sv_emulator sv))"
  by (simp_all add: publish_clearing_stop_def case_prod_unfold Let_def)

lemma files_current_status: 
  "files_current host h em \<Longrightarrow> files_current host h (fst (emulator_status em))"
  by (simp add: files_current_def emulator_status_def machine_status_def case_prod_unfold Let_def em_media_def)

text \<open>
  The invariant of the data: the emulator is in order for the host's files, and neither the deadline
  nor an input that is still queued lies in the past. Boundaries are far from the end of 64-bit time.
\<close>

definition far_tick :: "u64 \<Rightarrow> bool" where
  "far_tick t \<longleftrightarrow> unat t + 2 ^ 32 \<le> 2 ^ 64"

definition timely :: "('g, 'h) service \<Rightarrow> bool" where
  "timely sv \<longleftrightarrow> (\<forall>d. sv_deadline sv = Some d \<longrightarrow> far_tick d \<and> em_ticks (sv_emulator sv) \<le> d)
     \<and> (\<forall>i\<in>set (sv_scheduled sv). far_tick (su_at_tick i) \<and> em_ticks (sv_emulator sv) \<le> su_at_tick i)
     \<and> sorted (map su_at_tick (sv_scheduled sv))"

definition data_ok :: "'h host \<Rightarrow> u64 option \<Rightarrow> path set \<Rightarrow> ('g, 'h) service \<Rightarrow> bool" where
  "data_ok host dl paths sv \<longleftrightarrow> emulator_ok host (sv_host sv) (sv_emulator sv)
     \<and> em_paths (sv_emulator sv) = paths \<and> sv_deadline sv = dl \<and> timely sv"

text \<open>Steps inside one tick, or back to tick zero.\<close>

lemma data_ok_step:
  assumes "data_ok host dl paths sv" and "emulator_ok host (sv_host sv') (sv_emulator sv')"
    and "same_setup (sv_emulator sv) (sv_emulator sv')"
    and "em_ticks (sv_emulator sv') = em_ticks (sv_emulator sv) \<or> em_ticks (sv_emulator sv') = 0"
    and "sv_deadline sv' = sv_deadline sv" and "sv_scheduled sv' = sv_scheduled sv"
  shows "data_ok host dl paths sv'"
  using assms same_setup_media(2) [OF assms(3)]
  by (auto simp: data_ok_def timely_def)

lemma data_ok_follows:
  assumes "data_ok host dl paths sv" and "em_follows (sv_emulator sv) (sv_emulator sv')"
    and "em_ticks (sv_emulator sv') = em_ticks (sv_emulator sv)" and "sv_host sv' = sv_host sv"
    and "sv_deadline sv' = sv_deadline sv" and "sv_scheduled sv' = sv_scheduled sv"
  shows "data_ok host dl paths sv'"
  using assms
  by (intro data_ok_step [OF assms(1)]) (auto simp: data_ok_def em_follows_def
      intro: emulator_ok_follows [unfolded em_follows_def])

lemma data_ok_publish [simp]: "data_ok host dl paths sv \<Longrightarrow> data_ok host dl paths (publish lc stop error sv)"
  "data_ok host dl paths sv \<Longrightarrow> data_ok host dl paths (publish_clearing_stop lc sv)"
  by (auto intro: data_ok_follows simp: emulator_status_follows)

lemma data_ok_fields [simp]:
  "data_ok host dl paths (sv\<lparr>sv_lifecycle := lc\<rparr>) = data_ok host dl paths sv"
  "data_ok host dl paths (sv\<lparr>sv_remaining := r\<rparr>) = data_ok host dl paths sv"
  "data_ok host dl paths (sv\<lparr>sv_pending_breakpoint := p\<rparr>) = data_ok host dl paths sv"
  "data_ok host dl paths (sv\<lparr>sv_uart := inbox\<rparr>) = data_ok host dl paths sv"
  "data_ok host dl paths (sv\<lparr>sv_responses := rs\<rparr>) = data_ok host dl paths sv"
  by (simp_all add: data_ok_def timely_def)

lemma flush_service_keeps:
  assumes "flush_service host sv = (sv', r)" and "data_ok host dl paths sv" and "separate_files host paths"
  shows "data_ok host dl paths sv'"
    and "r = Ok () \<Longrightarrow> files_current host (sv_host sv') (sv_emulator sv')"
    and "sv_lifecycle sv' = sv_lifecycle sv" and "sv_remaining sv' = sv_remaining sv"
    and "sv_pending_breakpoint sv' = sv_pending_breakpoint sv" and "sv_status sv' = sv_status sv"
    and "em_ticks (sv_emulator sv') = em_ticks (sv_emulator sv)"
    and "em_instruction_batch (sv_emulator sv') = em_instruction_batch (sv_emulator sv)"
proof -
  obtain em h where fl: "emulator_flush host (sv_emulator sv) (sv_host sv) = (em, h, r)"
    and sv': "sv' = sv\<lparr>sv_emulator := em, sv_host := h\<rparr>"
    using assms(1) by (auto simp: flush_service_def split: prod.splits)
  have "emulator_ok host (sv_host sv) (sv_emulator sv)" "separate_files host (em_paths (sv_emulator sv))"
    using assms(2,3) by (auto simp: data_ok_def)
  from emulator_flush_keeps [OF fl this]
  have k: "emulator_ok host h em" "same_setup (sv_emulator sv) em" "em_ticks em = em_ticks (sv_emulator sv)"
      "r = Ok () \<longrightarrow> files_current host h em" by auto
  show "data_ok host dl paths sv'"
    by (rule data_ok_step [OF assms(2)]) (use k sv' in auto)
  from k sv' show "r = Ok () \<Longrightarrow> files_current host (sv_host sv') (sv_emulator sv')"
    and "sv_lifecycle sv' = sv_lifecycle sv" and "sv_remaining sv' = sv_remaining sv"
    and "sv_pending_breakpoint sv' = sv_pending_breakpoint sv" and "sv_status sv' = sv_status sv"
    and "em_ticks (sv_emulator sv') = em_ticks (sv_emulator sv)"
    and "em_instruction_batch (sv_emulator sv') = em_instruction_batch (sv_emulator sv)"
    by (simp_all add: same_setup_def)
qed


text \<open>
  The invariant of the control state between two steps, and the end of the loop: a service that says
  it has stopped has brought every file up to date.
\<close>

definition settled :: "('g, 'h) service \<Rightarrow> bool" where
  "settled sv \<longleftrightarrow> (sv_lifecycle sv = LcRunning \<or> sv_lifecycle sv = LcPaused)
     \<and> rs_lifecycle (sv_status sv) = sv_lifecycle sv
     \<and> (sv_lifecycle sv = LcRunning \<longrightarrow> sv_pending_breakpoint sv = None \<and> sv_remaining sv \<noteq> Some 0)"

definition ended :: "'h host \<Rightarrow> ('g, 'h) service \<Rightarrow> bool" where
  "ended host sv \<longleftrightarrow> rs_lifecycle (sv_status sv) = LcFailed
     \<or> rs_lifecycle (sv_status sv) = LcStopped \<and> files_current host (sv_host sv) (sv_emulator sv)"

definition goes_on :: "'h host \<Rightarrow> u64 option \<Rightarrow> path set \<Rightarrow> (('g, 'h) service \<times> bool) option \<Rightarrow> bool" where
  "goes_on host dl paths r \<longleftrightarrow> (\<exists>sv continue. r = Some (sv, continue) \<and> data_ok host dl paths sv
     \<and> (if continue then settled sv else ended host sv))"

lemma goes_on_Some: "goes_on host dl paths (Some (sv, continue)) \<longleftrightarrow>
    data_ok host dl paths sv \<and> (if continue then settled sv else ended host sv)"
  by (simp add: goes_on_def)

lemma publish_flushed_keeps:
  assumes "data_ok host dl paths sv" and "separate_files host paths"
  shows "data_ok host dl paths (publish_flushed host lc stop sv)"
    and "sv_lifecycle (publish_flushed host lc stop sv) = sv_lifecycle sv"
    and "rs_lifecycle (sv_status (publish_flushed host lc stop sv)) = lc"
proof -
  obtain sv1 r where fl: "flush_service host sv = (sv1, r)" by fastforce
  note k = flush_service_keeps [OF fl assms]
  from fl k show "data_ok host dl paths (publish_flushed host lc stop sv)"
    and "sv_lifecycle (publish_flushed host lc stop sv) = sv_lifecycle sv"
    and "rs_lifecycle (sv_status (publish_flushed host lc stop sv)) = lc"
    by (simp_all add: publish_flushed_def)
qed

lemma stop_service_ends:
  assumes "data_ok host dl paths sv" and "separate_files host paths"
  shows "data_ok host dl paths (stop_service host error sv) \<and> ended host (stop_service host error sv)"
proof -
  obtain sv1 r where fl: "flush_service host (publish LcStopping None error sv) = (sv1, r)" by fastforce
  note k = flush_service_keeps [OF fl data_ok_publish(1) [OF assms(1)] assms(2)]
  show ?thesis
    using fl k(1,2) by (cases r) (auto simp: stop_service_def ended_def files_current_status)
qed

lemma failed_ends [simp]: "ended host (publish LcFailed stop error sv)"
  by (simp add: ended_def)

section \<open>Commands\<close>

lemma resume_service_goes_on:
  assumes "data_ok host dl paths sv" and "instruction_limit \<noteq> Some 0"
  shows "goes_on host dl paths (Some (resume_service e instruction_limit sv))"
proof -
  obtain em r where em: "(case sv_pending_breakpoint sv of
      None \<Rightarrow> (sv_emulator sv, Ok ()) | Some address \<Rightarrow> resume_from_breakpoint e address (sv_emulator sv)) = (em, r)"
    by fastforce
  then have "em_follows (sv_emulator sv) em" "em_ticks em = em_ticks (sv_emulator sv)"
    using resume_from_breakpoint_follows [where em = "sv_emulator sv" and e = e] by (auto split: option.splits) (metis fst_conv)+
  then have "data_ok host dl paths (sv\<lparr>sv_pending_breakpoint := None, sv_emulator := em\<rparr>)"
    by (intro data_ok_follows [OF assms(1)]) simp_all
  then have "data_ok host dl paths (publish LcFailed None error (sv\<lparr>sv_pending_breakpoint := None, sv_emulator := em\<rparr>))"
    and "data_ok host dl paths (publish_clearing_stop LcRunning (sv\<lparr>sv_pending_breakpoint := None, sv_emulator := em,
      sv_remaining := instruction_limit, sv_lifecycle := LcRunning\<rparr>))" for error
    by (auto simp del: publish_fields publish_clearing_stop_fields intro!: data_ok_publish)
  moreover have "resume_service e instruction_limit sv = (case r of
      Inl error \<Rightarrow> (publish LcFailed None (Some (NoteError error)) (sv\<lparr>sv_pending_breakpoint := None, sv_emulator := em\<rparr>), False)
    | Inr _ \<Rightarrow> (publish_clearing_stop LcRunning (sv\<lparr>sv_pending_breakpoint := None, sv_emulator := em,
        sv_remaining := instruction_limit, sv_lifecycle := LcRunning\<rparr>), True))"
    using em by (cases "sv_pending_breakpoint sv") (auto simp: resume_service_def Let_def)
  ultimately show ?thesis
    using assms(2) by (auto simp: goes_on_Some settled_def split: sum.split)
qed

lemma reset_service_keeps:
  assumes "data_ok host dl paths sv" and "separate_files host paths" and "small_files host" and "settled sv"
  shows "data_ok host dl paths (reset_service e host sv) \<and> settled (reset_service e host sv)"
proof -
  obtain em h r where re: "emulator_reset e host (sv_emulator sv) (sv_host sv) = (em, h, r)" by (metis prod_cases3)
  from emulator_reset_keeps [OF re _ _ assms(3)] assms(1,2)
  have k: "emulator_ok host h em" "same_setup (sv_emulator sv) em" "em_ticks em = em_ticks (sv_emulator sv) \<or> em_ticks em = 0"
    by (auto simp: data_ok_def)
  have "data_ok host dl paths (sv\<lparr>sv_emulator := em, sv_host := h\<rparr>)"
    by (rule data_ok_step [OF assms(1)]) (use k in simp_all)
  then have "data_ok host dl paths (publish_clearing_stop lc (sv\<lparr>sv_emulator := em, sv_host := h, sv_pending_breakpoint := None\<rparr>))"
    and "data_ok host dl paths (publish lc None error (sv\<lparr>sv_emulator := em, sv_host := h\<rparr>))" for lc error
    by (auto simp del: publish_fields publish_clearing_stop_fields intro!: data_ok_publish)
  with assms(4) show ?thesis
    by (cases r) (auto simp: reset_service_def re settled_def)
qed

text \<open>A resume with a limit of zero cannot be sent.\<close>

fun command_ok :: "command \<Rightarrow> bool" where
  "command_ok (CmdResume limit) = (limit \<noteq> Some 0)"
| "command_ok _ = True"

lemma process_command_goes_on:
  assumes "engine_runs e" and "engine_reads e" and "small_files host" and "separate_files host paths"
    and "data_ok host dl paths sv" and "settled sv" and "command_ok command"
  shows "goes_on host dl paths (process_command e host command sv)"
proof (cases command)
  case CmdPause
  have "data_ok host dl paths (sv\<lparr>sv_lifecycle := LcPaused, sv_remaining := None\<rparr>)"
    using assms(5) by simp
  from publish_flushed_keeps [OF this assms(4)] CmdPause assms(5,6) show ?thesis
    by (auto simp: process_command_def goes_on_Some settled_def)
next
  case (CmdResume limit)
  with resume_service_goes_on [OF assms(5)] assms(5-7) show ?thesis
    by (simp add: process_command_def goes_on_Some)
next
  case CmdReset
  with reset_service_keeps [OF assms(5,4,3,6)] assms(5,6) show ?thesis
    by (simp add: process_command_def goes_on_Some)
next
  case CmdShutdown
  with stop_service_ends [OF assms(5,4)] show ?thesis
    by (simp add: process_command_def goes_on_Some)
next
  case (CmdInspect request channel)
  obtain em x where em: "emulator_inspect e request (sv_emulator sv) = Some (em, x)"
      "em_follows (sv_emulator sv) em" "em_ticks em = em_ticks (sv_emulator sv)"
    using emulator_inspect_follows [OF assms(1,2)] by blast
  have "data_ok host dl paths (sv\<lparr>sv_emulator := em, sv_responses := rs\<rparr>)" for rs
    by (rule data_ok_follows [OF assms(5)]) (use em in simp_all)
  with CmdInspect em(1) assms(6) show ?thesis
    by (simp add: process_command_def goes_on_Some settled_def)
qed

lemma process_commands_goes_on:
  assumes "engine_runs e" and "engine_reads e" and "small_files host" and "separate_files host paths"
    and "data_ok host dl paths sv" and "settled sv" and "\<forall>command\<in>set commands. command_ok command"
  shows "goes_on host dl paths (process_commands e host commands disconnected sv)"
  using assms(5-7)
proof (induction commands arbitrary: sv)
  case Nil
  with stop_service_ends [OF Nil(1) assms(4)] show ?case by (simp add: goes_on_Some)
next
  case (Cons command commands)
  from process_command_goes_on [OF assms(1-4) Cons.prems(1,2), of command] Cons.prems(3)
  obtain sv1 continue where one: "process_command e host command sv = Some (sv1, continue)" "data_ok host dl paths sv1"
      "if continue then settled sv1 else ended host sv1"
    by (auto simp: goes_on_def)
  with Cons.IH [OF one(2)] Cons.prems(3) show ?case
    by (cases continue) (simp_all add: goes_on_Some)
qed


section \<open>A batch between boundaries\<close>

definition boundaries :: "('g, 'h) service \<Rightarrow> u64 set" where
  "boundaries sv = {t. sv_deadline sv = Some t} \<union> su_at_tick ` set (sv_scheduled sv)"

lemma fold_min_le: "fold min bs (b :: u64) \<in> insert b (set bs)" "x \<in> insert b (set bs) \<Longrightarrow> fold min bs b \<le> x"
proof -
  have "fold min bs b = Min (insert b (set bs))"
    by (metis List.finite_set Min.set_eq_fold list.simps(15))
  then show "fold min bs b \<in> insert b (set bs)" "x \<in> insert b (set bs) \<Longrightarrow> fold min bs b \<le> x"
    using Min_in [of "insert b (set bs)"] by (auto intro!: Min_le)
qed

text \<open>Once the due inputs are delivered, the boundary is the first one still ahead.\<close>

lemma tick_boundary_first:
  assumes "sorted (map su_at_tick (sv_scheduled sv))" and "\<forall>t\<in>boundaries sv. now < t"
  shows "(case tick_boundary now sv of None \<Rightarrow> boundaries sv = {}
    | Some b \<Rightarrow> b \<in> boundaries sv \<and> (\<forall>t\<in>boundaries sv. b \<le> t))"
proof -
  define xs where "xs = (case sv_deadline sv of None \<Rightarrow> [] | Some deadline \<Rightarrow> [deadline])
    @ map su_at_tick (take 1 (sv_scheduled sv))"
  have sub: "set xs \<subseteq> boundaries sv" and least: "\<forall>t\<in>boundaries sv. \<exists>x\<in>set xs. x \<le> t"
    using assms(1) by (cases "sv_scheduled sv"; auto simp: xs_def boundaries_def split: option.splits)+
  have "filter (\<lambda>boundary. boundary > now) xs = xs"
    using sub assms(2) by (auto simp: filter_id_conv)
  then have t: "tick_boundary now sv = (case xs of [] \<Rightarrow> None | b # bs \<Rightarrow> Some (fold min bs b))"
    unfolding tick_boundary_def xs_def [symmetric] by simp
  show ?thesis
  proof (cases xs)
    case Nil
    with t least show ?thesis by auto
  next
    case (Cons b bs)
    then have "fold min bs b \<in> set xs" "\<forall>x\<in>set xs. fold min bs b \<le> x"
      using fold_min_le [where b = b and bs = bs] by auto
    then have "fold min bs b \<in> boundaries sv" "\<forall>t\<in>boundaries sv. fold min bs b \<le> t"
      using sub least by (blast, meson order_trans)
    with Cons t show ?thesis by simp
  qed
qed

lemma timely_boundaries:
  "timely sv \<longleftrightarrow> (\<forall>t\<in>boundaries sv. far_tick t \<and> em_ticks (sv_emulator sv) \<le> t)
     \<and> sorted (map su_at_tick (sv_scheduled sv))"
  by (auto simp: timely_def boundaries_def)

definition time_remains :: "('g, 'h) service \<Rightarrow> bool" where
  "time_remains sv \<longleftrightarrow>
     unat (em_ticks (sv_emulator sv)) + em_instruction_batch (sv_emulator sv) + 1 + 2 ^ 32 \<le> 2 ^ 64"

lemma batch_budget_pos:
  assumes "data_ok host dl paths sv" and "sv_remaining sv \<noteq> Some 0"
    and ahead: "\<forall>t\<in>boundaries sv. em_ticks (sv_emulator sv) < t"
  shows "0 < batch_budget (em_ticks (sv_emulator sv)) sv"
    and "dl \<noteq> None \<Longrightarrow> \<exists>b. tick_boundary (em_ticks (sv_emulator sv)) sv = Some b \<and> em_ticks (sv_emulator sv) < b \<and> far_tick b"
proof -
  let ?now = "em_ticks (sv_emulator sv)" and ?b = "tick_boundary (em_ticks (sv_emulator sv)) sv"
  have far: "\<forall>t\<in>boundaries sv. far_tick t" and sorted: "sorted (map su_at_tick (sv_scheduled sv))"
    using assms(1) by (auto simp: data_ok_def timely_boundaries)
  note first = tick_boundary_first [OF sorted ahead]
  have batch: "0 < em_instruction_batch (sv_emulator sv)"
    using assms(1) by (simp add: data_ok_def emulator_ok_def)
  have "0 < unat (b - ?now)" if "?b = Some b" for b
    using that first ahead by (auto simp: unat_gt_0)
  then show "0 < batch_budget ?now sv"
    using batch assms(2) by (auto simp: batch_budget_def Let_def unat_gt_0 split: option.split)
  show "\<exists>b. ?b = Some b \<and> ?now < b \<and> far_tick b" if "dl \<noteq> None"
  proof -
    have "boundaries sv \<noteq> {}" using that assms(1) by (auto simp: data_ok_def boundaries_def)
    with first ahead far show ?thesis by (cases ?b) auto
  qed
qed

lemma batch_returns:
  assumes "engine_runs e" and "data_ok host dl paths sv" and "time_remains sv" and "sv_remaining sv \<noteq> Some 0"
    and ahead: "\<forall>t\<in>boundaries sv. em_ticks (sv_emulator sv) < t"
  shows "\<exists>em stop. run_batch e (batch_budget (em_ticks (sv_emulator sv)) sv) (tick_boundary (em_ticks (sv_emulator sv)) sv)
       (sv_emulator sv) = Some (em, Ok stop)
     \<and> em_follows (sv_emulator sv) em \<and> em_ticks (sv_emulator sv) \<le> em_ticks em
     \<and> (\<forall>t\<in>boundaries sv. em_ticks em \<le> t)"
proof -
  let ?now = "em_ticks (sv_emulator sv)" and ?b = "tick_boundary (em_ticks (sv_emulator sv)) sv"
  have far: "\<forall>t\<in>boundaries sv. far_tick t" and sorted: "sorted (map su_at_tick (sv_scheduled sv))"
    using assms(2) by (auto simp: data_ok_def timely_boundaries)
  note first = tick_boundary_first [OF sorted ahead]
  have le: "batch_budget ?now sv \<le> em_instruction_batch (sv_emulator sv)"
    by (auto simp: batch_budget_def Let_def split: option.split)
  have pos: "0 < batch_budget ?now sv" by (rule batch_budget_pos(1) [OF assms(2,4) ahead])
  define limit where "limit = (case ?b of None \<Rightarrow> unat ?now + batch_budget ?now sv + 1 | Some b \<Rightarrow> unat b)"
  have "run_limit ?b limit (unat ?now) (batch_budget ?now sv)"
    using first ahead far le assms(3)
    by (auto simp: run_limit_def limit_def far_tick_def time_remains_def word_less_nat_alt split: option.splits)
  from run_batch_keeps [OF assms(1) pos this] obtain em stop where
    em: "run_batch e (batch_budget ?now sv) ?b (sv_emulator sv) = Some (em, Ok stop)" "em_follows (sv_emulator sv) em"
      "?now \<le> em_ticks em" "unat (em_ticks em) \<le> limit" by blast
  have "\<forall>t\<in>boundaries sv. em_ticks em \<le> t"
    using em(4) first by (auto simp: limit_def word_le_nat_alt split: option.splits)
  with em show ?thesis by blast
qed


lemma data_ok_advance:
  assumes "data_ok host dl paths sv" and "em_follows (sv_emulator sv) (sv_emulator sv')" and "sv_host sv' = sv_host sv"
    and "sv_deadline sv' = sv_deadline sv" and "sv_scheduled sv' = sv_scheduled sv"
    and "\<forall>t\<in>boundaries sv. em_ticks (sv_emulator sv') \<le> t"
  shows "data_ok host dl paths sv'"
  using assms
  by (auto simp: data_ok_def timely_boundaries boundaries_def em_follows_def same_setup_media(2)
      intro: emulator_ok_follows [unfolded em_follows_def])

lemma settle_batch_goes_on:
  assumes "data_ok host dl paths sv" and "separate_files host paths" and "settled (sv\<lparr>sv_remaining := r\<rparr>)"
    and "sv_lifecycle sv = LcRunning" and "limit_reached \<longleftrightarrow> sv_remaining sv = Some 0"
  shows "goes_on host dl paths (Some (settle_batch host due limit_reached result sv))"
proof -
  have paused: "goes_on host dl paths (Some (publish_flushed host LcPaused stop sv', True))"
    if "data_ok host dl paths sv'" "sv_lifecycle sv' = LcPaused" for stop sv'
    using publish_flushed_keeps [OF that(1) assms(2)] that by (simp add: goes_on_Some settled_def)
  have failed: "goes_on host dl paths (Some (let (sv, flushed) = flush_service host sv
      in (publish LcFailed stop (f flushed) sv, False)))" for stop f
  proof -
    obtain sv1 flushed where fl: "flush_service host sv = (sv1, flushed)" by fastforce
    with flush_service_keeps(1) [OF fl assms(1,2)] show ?thesis by (simp add: goes_on_Some)
  qed
  have quiet: "goes_on host dl paths (Some (if limit_reached
        then publish_flushed host LcPaused (Some (NoteLimit stop)) (sv\<lparr>sv_lifecycle := LcPaused, sv_remaining := None\<rparr>)
        else if due then publish (sv_lifecycle sv) (Some (NoteStop stop)) None sv else sv, True))" for stop
    using paused [of "sv\<lparr>sv_lifecycle := LcPaused, sv_remaining := None\<rparr>"] assms
    by (auto simp: goes_on_Some settled_def)
  show ?thesis
  proof (cases result)
    case (Inl error)
    with failed [of None "\<lambda>flushed. Some (NoteRun error (err_option flushed))"] show ?thesis
      by (simp add: settle_batch_def)
  next
    case (Inr stop)
    have unicorn: "goes_on host dl paths (Some (settle_batch host due limit_reached (Ok (StopUnicorn x)) sv))" for x
      using failed [of _ "\<lambda>flushed. Some (NoteBackend x (err_option flushed))"] by (simp add: settle_batch_def)
    have breakpoint: "goes_on host dl paths (Some (settle_batch host due limit_reached (Ok (StopBreakpoint x y)) sv))" for x y
      using paused [of "sv\<lparr>sv_lifecycle := LcPaused, sv_remaining := None, sv_pending_breakpoint := Some x\<rparr>"] assms(1)
      by (simp add: settle_batch_def)
    from Inr unicorn breakpoint quiet show ?thesis
      by (cases stop) (simp_all add: settle_batch_def)
  qed
qed

lemma dropWhile_ahead:
  "sorted (map su_at_tick inputs) \<Longrightarrow> i \<in> set (dropWhile (\<lambda>i. su_at_tick i \<le> now) inputs) \<Longrightarrow> now < su_at_tick i"
  by (induction inputs) (auto split: if_splits)

lemma dropWhile_sorted: "sorted (map su_at_tick inputs) \<Longrightarrow> sorted (map su_at_tick (dropWhile P inputs))"
  by (induction inputs) auto

text \<open>A running step: the deadline is reached, or a batch ran and its result is settled.\<close>

lemma running_step_shape:
  assumes "engine_runs e" and "separate_files host paths" and "data_ok host dl paths sv" and "settled sv"
    and "sv_lifecycle sv = LcRunning" and "time_remains sv"
  obtains (deadline) sv1 where "data_ok host dl paths sv1" "sv_lifecycle sv1 = LcPaused"
      "em_ticks (sv_emulator sv1) = em_ticks (sv_emulator sv)" "dl = Some (em_ticks (sv_emulator sv))"
      "running_step e host due sv = Some (publish_flushed host LcPaused (Some NoteDeadline) sv1, True)"
  | (batch) sv3 stop where "data_ok host dl paths sv3" "settled (sv3\<lparr>sv_remaining := sv_remaining sv\<rparr>)"
      "sv_lifecycle sv3 = LcRunning" "em_ticks (sv_emulator sv) \<le> em_ticks (sv_emulator sv3)"
      "sv_remaining sv3 = map_option (\<lambda>r. saturating_sub_u64 r
         (em_ticks (sv_emulator sv3) - em_ticks (sv_emulator sv))) (sv_remaining sv)"
      "running_step e host due sv = Some (settle_batch host due (sv_remaining sv3 = Some 0) (Ok stop) sv3)"
      "\<exists>em2 budget boundary. em_follows (sv_emulator sv) em2 \<and> em_ticks em2 = em_ticks (sv_emulator sv) \<and> 0 < budget
        \<and> run_batch e budget boundary em2 = Some (sv_emulator sv3, Ok stop)
        \<and> (dl \<noteq> None \<longrightarrow> (\<exists>b. boundary = Some b \<and> em_ticks (sv_emulator sv) < b \<and> far_tick b))"
proof -
  let ?now = "em_ticks (sv_emulator sv)"
  obtain scheduled em where due: "deliver_due ?now (sv_scheduled sv) (sv_emulator sv) = (scheduled, em)" by fastforce
  have scheduled: "scheduled = dropWhile (\<lambda>i. su_at_tick i \<le> ?now) (sv_scheduled sv)"
    using deliver_due_rest [of ?now "sv_scheduled sv" "sv_emulator sv"] by (simp add: due)
  have em: "em_follows (sv_emulator sv) em" "em_ticks em = ?now"
    using deliver_due_follows [where now = ?now and inputs = "sv_scheduled sv" and em = "sv_emulator sv"]
    by (simp_all add: due)
  define sv1 where "sv1 = sv\<lparr>sv_scheduled := scheduled, sv_emulator := em\<rparr>"
  have timely: "timely sv" and old: "emulator_ok host (sv_host sv) (sv_emulator sv)" "em_paths (sv_emulator sv) = paths"
      "sv_deadline sv = dl"
    using assms(3) by (auto simp: data_ok_def)
  have sub: "set scheduled \<subseteq> set (sv_scheduled sv)" and sorted: "sorted (map su_at_tick scheduled)"
    using timely unfolding scheduled timely_def
    by (auto dest: set_dropWhileD intro: dropWhile_sorted)
  have ok1: "data_ok host dl paths sv1"
    using em sub sorted timely emulator_ok_follows [OF old(1) em(1)] old(2,3) same_setup_media(2) [of "sv_emulator sv" em]
    by (auto simp: data_ok_def sv1_def timely_def em_follows_def)
  show thesis
  proof (cases "case sv_deadline sv of None \<Rightarrow> False | Some deadline \<Rightarrow> ?now \<ge> deadline")
    case True
    have "data_ok host dl paths (sv1\<lparr>sv_lifecycle := LcPaused\<rparr>)" using ok1 by simp
    moreover have "dl = Some ?now"
      using True old(3) timely by (auto simp: timely_def split: option.splits)
    moreover have "running_step e host due sv = Some (publish_flushed host LcPaused (Some NoteDeadline)
        (sv1\<lparr>sv_lifecycle := LcPaused\<rparr>), True)"
      using True by (simp add: running_step_def Let_def due sv1_def split: option.splits)
    ultimately show thesis by (intro deadline) (simp_all add: sv1_def em(2))
  next
    case False
    obtain inbox em2 where em2: "drain_uart (sv_uart sv) em = (inbox, em2)" by fastforce
    have em2': "em_follows em em2" "em_ticks em2 = ?now"
      using drain_uart_follows [where inbox = "sv_uart sv" and em = em] em(2) by (simp_all add: em2)
    define sv2 where "sv2 = sv1\<lparr>sv_uart := inbox, sv_emulator := em2\<rparr>"
    have ok2: "data_ok host dl paths sv2"
      by (rule data_ok_follows [OF ok1]) (use em2' em(2) in \<open>simp_all add: sv2_def sv1_def\<close>)
    have ahead: "\<forall>t\<in>boundaries sv2. em_ticks (sv_emulator sv2) < t"
      using False timely dropWhile_ahead [of "sv_scheduled sv" _ ?now]
      by (auto simp: boundaries_def sv2_def sv1_def scheduled em2' timely_def split: option.splits)
    have rest: "time_remains sv2" "sv_remaining sv2 \<noteq> Some 0" "sv_lifecycle sv2 = LcRunning" "settled sv2"
      using assms(4-6) em(1) em2' by (auto simp: time_remains_def sv2_def sv1_def settled_def em_follows_def same_setup_def)
    from batch_returns [OF assms(1) ok2 rest(1,2) ahead] obtain em3 stop where
      em3: "run_batch e (batch_budget (em_ticks (sv_emulator sv2)) sv2) (tick_boundary (em_ticks (sv_emulator sv2)) sv2)
         (sv_emulator sv2) = Some (em3, Ok stop)" "em_follows (sv_emulator sv2) em3"
        "\<forall>t\<in>boundaries sv2. em_ticks em3 \<le> t" "em_ticks (sv_emulator sv2) \<le> em_ticks em3" by blast
    define remaining where "remaining = map_option (\<lambda>r. saturating_sub_u64 r
      (saturating_sub_u64 (em_ticks em3) (em_ticks (sv_emulator sv2)))) (sv_remaining sv2)"
    have ok3: "data_ok host dl paths (sv2\<lparr>sv_emulator := em3, sv_remaining := remaining\<rparr>)"
      by (rule data_ok_advance [OF ok2]) (use em3 in simp_all)
    let ?sv3 = "sv2\<lparr>sv_emulator := em3, sv_remaining := remaining\<rparr>"
    have run: "running_step e host due sv = Some (settle_batch host due (sv_remaining ?sv3 = Some 0) (Ok stop)
        (sv2\<lparr>sv_emulator := em3, sv_remaining := remaining\<rparr>))"
      using False em3(1) em2'(2)
      by (simp add: running_step_def Let_def due sv1_def sv2_def em2 run_service_batch_def remaining_def)
    have ran: "\<exists>em4 budget boundary. em_follows (sv_emulator sv) em4 \<and> em_ticks em4 = ?now \<and> 0 < budget
        \<and> run_batch e budget boundary em4 = Some (em3, Ok stop)
        \<and> (dl \<noteq> None \<longrightarrow> (\<exists>b. boundary = Some b \<and> ?now < b \<and> far_tick b))"
      using batch_budget_pos [OF ok2 rest(2) ahead] em3(1) em_follows_trans [OF em(1) em2'(1)] em2'(2)
      by (intro exI [of _ em2] exI [of _ "batch_budget ?now sv2"] exI [of _ "tick_boundary ?now sv2"]) (simp add: sv2_def)
    show thesis
      by (rule batch [OF ok3 _ _ _ _ run])
        (use ran rest em3(4) assms(4) in \<open>simp_all add: settled_def em2'(2) remaining_def saturating_sub_u64_def sv2_def sv1_def\<close>)
  qed
qed

lemma running_step_goes_on:
  assumes "engine_runs e" and "separate_files host paths" and "data_ok host dl paths sv" and "settled sv"
    and "sv_lifecycle sv = LcRunning" and "time_remains sv"
  shows "goes_on host dl paths (running_step e host due sv)"
  using assms
proof (cases rule: running_step_shape [where due = due])
  case (deadline sv1)
  with publish_flushed_keeps [OF deadline(1) assms(2)] show ?thesis
    by (simp add: goes_on_Some settled_def)
next
  case (batch sv3 stop)
  show ?thesis
    unfolding batch(6) by (rule settle_batch_goes_on [OF batch(1) assms(2) batch(2,3) refl])
qed

text \<open>Commands take no virtual time.\<close>

definition no_later :: "('g, 'h) service \<Rightarrow> ('g, 'h) service \<Rightarrow> bool" where
  "no_later sv sv' \<longleftrightarrow> em_ticks (sv_emulator sv') \<le> em_ticks (sv_emulator sv)
     \<and> em_instruction_batch (sv_emulator sv') = em_instruction_batch (sv_emulator sv)"

lemma no_later_status [simp]:
  "no_later sv (publish lc stop error sv') = no_later sv sv'"
  "no_later sv (publish_clearing_stop lc sv') = no_later sv sv'"
  using emulator_status_follows [where em = "sv_emulator sv'"]
  by (simp_all add: no_later_def em_follows_def same_setup_def)

lemma no_later_fields [simp]:
  "no_later sv (sv'\<lparr>sv_lifecycle := lc\<rparr>) = no_later sv sv'"
  "no_later sv (sv'\<lparr>sv_remaining := r\<rparr>) = no_later sv sv'"
  "no_later sv (sv'\<lparr>sv_pending_breakpoint := p\<rparr>) = no_later sv sv'"
  "no_later sv (sv'\<lparr>sv_responses := rs\<rparr>) = no_later sv sv'"
  "no_later sv sv"
  by (simp_all add: no_later_def)

lemma no_later_follows:
  "em_follows (sv_emulator sv) em \<Longrightarrow> em_ticks em = em_ticks (sv_emulator sv) \<Longrightarrow> no_later sv (sv\<lparr>sv_emulator := em\<rparr>)"
  by (simp add: no_later_def em_follows_def same_setup_def)

lemma flush_no_later:
  assumes "flush_service host sv = (sv', r)" and "data_ok host dl paths sv" and "separate_files host paths"
  shows "no_later sv sv'"
  using flush_service_keeps(7,8) [OF assms] by (simp add: no_later_def)

lemma no_later_trans: "no_later a b \<Longrightarrow> no_later b c \<Longrightarrow> no_later a c"
  by (auto simp: no_later_def)

lemma process_command_no_later:
  assumes "engine_runs e" and "engine_reads e" and "small_files host" and "separate_files host paths"
    and "data_ok host dl paths sv" and "process_command e host command sv = Some (sv', continue)"
  shows "no_later sv sv'"
proof (cases command)
  case CmdPause
  let ?sv = "sv\<lparr>sv_lifecycle := LcPaused, sv_remaining := None\<rparr>"
  obtain sv1 r where fl: "flush_service host ?sv = (sv1, r)" by fastforce
  have "no_later ?sv sv1" by (rule flush_no_later [OF fl _ assms(4)]) (use assms(5) in simp)
  then have "no_later sv sv1" by (simp add: no_later_def)
  with CmdPause assms(6) fl show ?thesis
    by (auto simp: process_command_def publish_flushed_def split: if_splits)
next
  case (CmdResume limit)
  obtain em r where em: "(case sv_pending_breakpoint sv of
      None \<Rightarrow> (sv_emulator sv, Ok ()) | Some address \<Rightarrow> resume_from_breakpoint e address (sv_emulator sv)) = (em, r)"
    by fastforce
  then have "em_follows (sv_emulator sv) em" "em_ticks em = em_ticks (sv_emulator sv)"
    using resume_from_breakpoint_follows [where em = "sv_emulator sv" and e = e] by (auto split: option.splits) (metis fst_conv)+
  then have "no_later sv (sv\<lparr>sv_pending_breakpoint := None, sv_emulator := em\<rparr>)"
    by (simp add: no_later_def em_follows_def same_setup_def)
  with CmdResume assms(6) em show ?thesis
    by (cases "sv_pending_breakpoint sv")
      (auto simp: process_command_def resume_service_def Let_def split: if_splits sum.splits)
next
  case CmdReset
  obtain em h r where re: "emulator_reset e host (sv_emulator sv) (sv_host sv) = (em, h, r)" by (metis prod_cases3)
  from emulator_reset_keeps [OF re _ _ assms(3)] assms(4,5)
  have "same_setup (sv_emulator sv) em" "em_ticks em = em_ticks (sv_emulator sv) \<or> em_ticks em = 0"
    by (auto simp: data_ok_def)
  then have "no_later sv (sv\<lparr>sv_emulator := em, sv_host := h\<rparr>)"
    by (auto simp: no_later_def same_setup_def)
  then have "no_later sv (reset_service e host sv)"
    by (cases r) (simp_all add: reset_service_def re)
  with CmdReset assms(6) show ?thesis
    by (auto simp: process_command_def split: if_splits)
next
  case CmdShutdown
  obtain sv1 r where fl: "flush_service host (publish LcStopping None None sv) = (sv1, r)" by fastforce
  have "no_later (publish LcStopping None None sv) sv1"
    by (rule flush_no_later [OF fl data_ok_publish(1) [OF assms(5)] assms(4)])
  then have "no_later sv sv1"
    by (rule no_later_trans [rotated]) simp
  with CmdShutdown assms(6) fl show ?thesis
    by (cases r) (auto simp: process_command_def stop_service_def)
next
  case (CmdInspect request channel)
  obtain em x where "emulator_inspect e request (sv_emulator sv) = Some (em, x)"
      "em_follows (sv_emulator sv) em" "em_ticks em = em_ticks (sv_emulator sv)"
    using emulator_inspect_follows [OF assms(1,2)] by blast
  with CmdInspect assms(6) show ?thesis
    by (auto simp: process_command_def intro: no_later_follows)
qed

lemma process_commands_no_later:
  assumes "engine_runs e" and "engine_reads e" and "small_files host" and "separate_files host paths"
    and "data_ok host dl paths sv" and "settled sv" and "\<forall>command\<in>set commands. command_ok command"
    and "process_commands e host commands disconnected sv = Some (sv', True)"
  shows "no_later sv sv'"
  using assms(5-8)
proof (induction commands arbitrary: sv)
  case Nil
  then show ?case by (auto split: if_splits)
next
  case (Cons command commands)
  from Cons.prems obtain sv1 where one: "process_command e host command sv = Some (sv1, True)"
    and rest: "process_commands e host commands disconnected sv1 = Some (sv', True)"
    by (auto simp: bind_eq_Some_conv split: if_splits)
  from process_command_goes_on [OF assms(1-4) Cons.prems(1,2), of command] Cons.prems(3) one
  have "data_ok host dl paths sv1" "settled sv1" by (auto simp: goes_on_def)
  from Cons.IH [OF this _ rest] Cons.prems(3) process_command_no_later [OF assms(1-4) Cons.prems(1) one]
  show ?case by (auto intro: no_later_trans)
qed


section \<open>Every history of the service\<close>

definition input_ok :: "iteration_input \<Rightarrow> bool" where
  "input_ok ii \<longleftrightarrow> (\<forall>command\<in>set (ii_commands ii). command_ok command)
     \<and> (case ii_wait ii of WaitCommand command \<Rightarrow> command_ok command | _ \<Rightarrow> True)"

text \<open>
  The states of the service between its steps, for every configuration it can be spawned with and
  everything that other threads send. Virtual time does not come to the end of 64 bits.
\<close>

inductive service_reachable :: "'g engine \<Rightarrow> 'h host \<Rightarrow> 'h \<Rightarrow> runtime_config \<Rightarrow> ('g, 'h) service \<Rightarrow> bool"
  for e host h config where
  started: "runtime_spawn host h config = Ok (config', status, inbox) \<Longrightarrow>
    service_start e host h config' status inbox = Inr sv \<Longrightarrow> service_reachable e host h config sv"
| commands: "service_reachable e host h config sv \<Longrightarrow> \<forall>command\<in>set commands. command_ok command \<Longrightarrow>
    process_commands e host commands disconnected sv = Some (sv', True) \<Longrightarrow> service_reachable e host h config sv'"
| step: "service_reachable e host h config sv \<Longrightarrow> time_remains sv \<Longrightarrow> input_ok ii \<Longrightarrow>
    lifecycle_step e host ii sv = Some (sv', True) \<Longrightarrow> service_reachable e host h config sv'"
| uart: "service_reachable e host h config sv \<Longrightarrow> service_reachable e host h config (send_uart port bytes sv)"

text \<open>What the service relies on: the engine, files of at most two tebibytes, files that stay apart, and
  boundaries and media of the configuration that are in range.\<close>

definition service_paths :: "'h host \<Rightarrow> 'h \<Rightarrow> runtime_config \<Rightarrow> path set" where
  "service_paths host h config = (case canonicalize_block_media_paths host h config of
     Inl _ \<Rightarrow> {}
   | Inr config \<Rightarrow> {p. rc_block_media_path config = Some p \<or> rc_block1_media_path config = Some p})"

definition service_env :: "'g engine \<Rightarrow> 'h host \<Rightarrow> 'h \<Rightarrow> runtime_config \<Rightarrow> bool" where
  "service_env e host h config \<longleftrightarrow> engine_runs e \<and> engine_reads e \<and> small_files host
     \<and> separate_files host (service_paths host h config) \<and> block_wf (bus_block (ma_bus (rc_machine config)))
     \<and> (\<forall>d. rc_execution_deadline config = Some d \<longrightarrow> far_tick d)
     \<and> (\<forall>i\<in>set (rc_scheduled_uart config). far_tick (su_at_tick i))"

lemma canonicalize_keeps:
  assumes "canonicalize_block_media_paths host h config = Ok config'"
  shows "distinct_media (rc_block_media_path config') (rc_block1_media_path config')"
    and "\<exists>path0 path1. config' = config\<lparr>rc_block_media_path := path0, rc_block1_media_path := path1\<rparr>"
proof -
  from assms obtain path0 path1 where
    "config' = config\<lparr>rc_block_media_path := path0, rc_block1_media_path := path1\<rparr>" "distinct_media path0 path1"
    by (cases "canonical_path host h UNIT_FILESYSTEM (rc_block_media_path config)";
        cases "canonical_path host h UNIT_SWAP (rc_block1_media_path config)")
      (auto simp: canonicalize_block_media_paths_def distinct_media_def split: option.splits if_splits)
  then show "distinct_media (rc_block_media_path config') (rc_block1_media_path config')"
    and "\<exists>path0 path1. config' = config\<lparr>rc_block_media_path := path0, rc_block1_media_path := path1\<rparr>"
    by auto
qed

lemma service_started:
  assumes "service_env e host h config" and spawn: "runtime_spawn host h config = Ok (config', status, inbox)"
    and start: "service_start e host h config' status inbox = Inr sv"
  shows "data_ok host (rc_execution_deadline config) (service_paths host h config) sv \<and> settled sv"
proof -
  from spawn obtain c where c: "canonicalize_block_media_paths host h config = Ok c"
    and config': "config' = c\<lparr>rc_machine := fst (machine_status (rc_machine c)),
      rc_instruction_batch := max (rc_instruction_batch c) 1\<rparr>"
    by (auto simp: runtime_spawn_def and_then_Ok case_prod_unfold Let_def)
  from canonicalize_keeps(2) [OF c] have same: "rc_machine c = rc_machine config"
      "rc_execution_deadline c = rc_execution_deadline config" "rc_scheduled_uart c = rc_scheduled_uart config"
    by auto
  from start obtain em where new: "emulator_new e host h config' = Ok em"
    by (auto simp: service_start_def split: sum.splits)
  have "bus_block (ma_bus (rc_machine config')) = bus_block (ma_bus (rc_machine config))"
    by (simp add: config' same machine_status_def case_prod_unfold Let_def)
  with assms(1) have "block_wf (bus_block (ma_bus (rc_machine config')))" by (simp add: service_env_def)
  from emulator_new_ok [OF new this] assms(1) canonicalize_keeps(1) [OF c]
  have em: "emulator_ok host h em" "em_ticks em = 0" "em_paths em = service_paths host h config"
    by (simp_all add: service_env_def config' em_paths_def service_paths_def c)
  define lc where "lc = (if rc_start_paused config' then LcPaused else LcRunning)"
  define sv0 where "sv0 = \<lparr>sv_status = status, sv_uart = inbox, sv_remaining = None, sv_pending_breakpoint = None,
     sv_deadline = rc_execution_deadline config', sv_scheduled = sort_key su_at_tick (rc_scheduled_uart config'),
     sv_emulator = em, sv_lifecycle = lc, sv_host = h, sv_responses = []\<rparr>"
  have "data_ok host (rc_execution_deadline config) (service_paths host h config) sv0"
    using em assms(1) by (auto simp: data_ok_def sv0_def timely_def service_env_def config' same)
  moreover have "sv = publish lc None None sv0"
    using start new by (simp add: service_start_def sv0_def lc_def Let_def)
  ultimately show ?thesis
    by (auto simp: settled_def sv0_def lc_def)
qed

lemma lifecycle_step_goes_on:
  assumes env: "service_env e host h config" and "paths = service_paths host h config" and "dl = rc_execution_deadline config"
    and "data_ok host dl paths sv" and "settled sv" and "time_remains sv" and "input_ok ii"
  shows "goes_on host dl paths (lifecycle_step e host ii sv)"
proof (cases "sv_lifecycle sv = LcRunning")
  case True
  with running_step_goes_on [where e = e and host = host and paths = paths and sv = sv] assms show ?thesis
    by (simp add: lifecycle_step_def service_env_def)
next
  case False
  then have paused: "sv_lifecycle sv = LcPaused" using assms(5) by (simp add: settled_def)
  show ?thesis
  proof (cases "ii_wait ii")
    case (WaitCommand command)
    with process_command_goes_on [where e = e and host = host and paths = paths and sv = sv and command = command] assms paused show ?thesis
      by (simp add: lifecycle_step_def paused_step_def service_env_def input_ok_def)
  next
    case WaitTimeout
    with assms paused show ?thesis by (simp add: lifecycle_step_def paused_step_def goes_on_Some)
  next
    case WaitDisconnected
    with stop_service_ends [where host = host and paths = paths and sv = sv] assms paused show ?thesis
      by (simp add: lifecycle_step_def paused_step_def goes_on_Some service_env_def)
  qed
qed

lemma service_reachable_ok:
  assumes "service_reachable e host h config sv" and env: "service_env e host h config"
  shows "data_ok host (rc_execution_deadline config) (service_paths host h config) sv \<and> settled sv"
  using assms(1)
proof induction
  case (started config' status inbox sv)
  with env show ?case by (blast dest: service_started)
next
  case (commands sv commands disconnected sv')
  with process_commands_goes_on [where e = e and host = host and paths = "service_paths host h config" and dl = "rc_execution_deadline config" and sv = sv and commands = commands and disconnected = disconnected] env
  show ?case by (simp add: service_env_def goes_on_Some)
next
  case (step sv ii sv')
  with lifecycle_step_goes_on [OF env refl refl, of sv ii] show ?case by (simp add: goes_on_Some)
next
  case (uart sv port bytes)
  then show ?case by (simp add: send_uart_def settled_def)
qed

lemma service_iteration_goes_on:
  assumes reach: "service_reachable e host h config sv" and env: "service_env e host h config"
    and "time_remains sv" and "input_ok ii"
  shows "goes_on host (rc_execution_deadline config) (service_paths host h config) (service_iteration e host ii sv)"
proof -
  let ?paths = "service_paths host h config" and ?dl = "rc_execution_deadline config"
  from service_reachable_ok [OF reach env] have ok: "data_ok host ?dl ?paths sv" "settled sv" by auto
  have e: "engine_runs e" "engine_reads e" "small_files host" "separate_files host ?paths"
    and cmds: "\<forall>command\<in>set (ii_commands ii). command_ok command"
    using env assms(4) by (simp_all add: service_env_def input_ok_def)
  obtain sv1 continue where one: "process_commands e host (ii_commands ii) (ii_disconnected ii) sv = Some (sv1, continue)"
      "data_ok host ?dl ?paths sv1" "if continue then settled sv1 else ended host sv1"
    using process_commands_goes_on [OF e ok cmds, of "ii_disconnected ii"] by (auto simp: goes_on_def)
  show ?thesis
  proof (cases continue)
    case True
    then have "no_later sv sv1"
      using process_commands_no_later [OF e ok cmds] one(1) by simp
    then have "time_remains sv1"
      using assms(3) by (simp add: time_remains_def no_later_def word_le_nat_alt)
    from lifecycle_step_goes_on [OF env refl refl one(2) _ this assms(4)] one True show ?thesis
      by (simp add: service_iteration_def)
  next
    case False
    with one show ?thesis by (simp add: service_iteration_def goes_on_Some)
  qed
qed

end
