(* ===== verification/Runtime_Properties.thy ===== *)
theory Runtime_Properties
  imports Runtime_Lifecycle
begin

text \<open>
  The properties of the runtime service, and a host and a configuration at which they apply.
\<close>

section \<open>UART ingress\<close>

interpretation inbox: bounded_history "inbox_push_byte port" "inbox_queue port" ib_capacity
  for port
  by unfold_locales (cases port; simp add: inbox_push_byte_def)+

lemma inbox_push_other: "port' \<noteq> port \<Longrightarrow> inbox_queue port' (fold (inbox_push_byte port) bytes inbox) = inbox_queue port' inbox"
proof (induction bytes arbitrary: inbox)
  case (Cons byte bytes)
  then show ?case by (cases port; cases port') (simp_all add: inbox_push_byte_def)
qed simp

text \<open>
  UART ingress drops the oldest bytes and no others: after a push an inbox holds, in order, the
  newest bytes of what it held and what was pushed, as many as its capacity, and the inbox of the
  other port is as before. Draining hands out exactly these bytes and leaves the port empty.
\<close>

theorem inbox_keeps_newest:
  assumes "length (inbox_queue port inbox) \<le> ib_capacity inbox"
  shows "inbox_queue port (inbox_push port bytes inbox) = last_n (ib_capacity inbox) (inbox_queue port inbox @ bytes)
     \<and> (\<forall>port'. port' \<noteq> port \<longrightarrow> inbox_queue port' (inbox_push port bytes inbox) = inbox_queue port' inbox)
     \<and> snd (inbox_drain port (inbox_push port bytes inbox)) = last_n (ib_capacity inbox) (inbox_queue port inbox @ bytes)
     \<and> inbox_queue port (fst (inbox_drain port (inbox_push port bytes inbox))) = []"
proof -
  have queue: "inbox_queue port (inbox_push port bytes inbox) = last_n (ib_capacity inbox) (inbox_queue port inbox @ bytes)"
    using inbox.push_all [OF assms] assms by (cases "ib_capacity inbox = 0") (auto simp: inbox_push_def last_n_def)
  moreover have "inbox_queue port' (inbox_push port bytes inbox) = inbox_queue port' inbox" if "port' \<noteq> port" for port'
    using inbox_push_other [OF that] by (simp add: inbox_push_def)
  moreover have "inbox_queue port (set_inbox_queue port [] b) = []" for b by (cases port) simp_all
  ultimately show ?thesis by (simp add: inbox_drain_def)
qed

theorem inbox_keeps_newest_witness:
  "inbox_queue PortUart1 (inbox_push PortUart1 [1, 2, 3] (uart_inbox_new 2)) = [2, 3]"
  using inbox_keeps_newest [of PortUart1 "uart_inbox_new 2" "[1, 2, 3]"]
  by (simp add: uart_inbox_new_def last_n_def)

section \<open>A host with one file per name\<close>

definition sample_host :: "(path \<Rightarrow> u8 list option) host" where
  "sample_host =
     \<lparr>ho_read = (\<lambda>h p. case h p of Some bytes \<Rightarrow> (if length bytes < 2 ^ 41 then Ok bytes else Err ''EFBIG'')
        | None \<Rightarrow> Err ''ENOENT''),
      ho_write = (\<lambda>p bytes h. if length bytes < 2 ^ 41 then (h(p := Some bytes), Ok ()) else (h, Err ''ENOSPC'')),
      ho_canonicalize = (\<lambda>h p. if h p = None then Err ''ENOENT'' else Ok p)\<rparr>"

lemma sample_host_small: "small_files sample_host"
  by (auto simp: small_files_def sample_host_def split: option.splits if_splits)

lemma sample_host_separate: "separate_files sample_host paths"
  by (auto simp: separate_files_def sample_host_def split: if_splits)

definition sample_media :: "u8 list" where
  "sample_media = replicate 512 7"

definition sample_files :: "path \<Rightarrow> u8 list option" where
  "sample_files = [''disk'' \<mapsto> sample_media]"

definition sample_config :: runtime_config where
  "sample_config = (runtime_config_new (machine_new memory_empty 16) 0)\<lparr>rc_block_media_path := Some ''disk'',
     rc_execution_deadline := Some 7, rc_scheduled_uart := [\<lparr>su_at_tick = 3, su_port = PortUart1, su_bytes = [65]\<rparr>]\<rparr>"

lemma new_machine_block: "bus_block (ma_bus (machine_new memory capacity)) = block_new"
  by (simp add: machine_new_def bus_new_def)

lemma sample_env: "service_env sample_engine sample_host sample_files sample_config"
  by (simp add: service_env_def sample_engine_runs sample_engine_reads sample_host_small sample_host_separate
      sample_config_def runtime_config_new_def new_machine_block far_tick_def block_wf_def block_new_def
      media_addressable_def UNIT_COUNT_def media_unit_default_def)

lemma new_machine_reset:
  assumes "bus_block (ma_bus old) = block_new"
  shows "\<exists>memory. reset_clone old = Ok (machine_new memory (ma_event_capacity old))"
proof -
  obtain mem where "memory_with_roms (map (pm_boot_rom (ma_memory old)) [0..<0x10000])
      (map (pm_system_rom (ma_memory old)) [0..<0x1000000]) = Ok mem"
    using memory_with_copied_roms_Ok by blast
  moreover have "reattach u old m = Ok m" if "unat u < 2" for u m
    using that assms
    by (simp add: reattach_def block_media_clone_def unit_index_def UNIT_COUNT_def block_new_def media_unit_default_def)
  ultimately show ?thesis
    by (auto simp: reset_clone_def copy_rom UNIT_FILESYSTEM_def UNIT_SWAP_def)
qed

lemma sample_backend_new: "\<exists>b. backend_new sample_engine m = Ok b"
  by (simp add: backend_new_def copy_rom sample_engine_def map_bytes_def map_shared_ram_def map_mmio_window_def
      hooks_register_def)


definition sample_units :: "media_unit list" where
  "sample_units = [\<lparr>mu_media = Some sample_media, mu_dirty_sectors = {}\<rparr>, media_unit_default]"

lemma sample_configured:
  assumes "media_paths config = [(0, Some ''disk''), (1, None)]" and "rc_initial_ram_writes config = []"
    and "bus_block (ma_bus source) = block_new"
  shows "\<exists>m. configured_machine sample_host sample_files config source = Ok m
    \<and> bd_units (bus_block (ma_bus m)) = sample_units"
proof -
  obtain memory where m: "reset_clone source = Ok (machine_new memory (ma_event_capacity source))"
    using new_machine_reset [OF assms(3)] by blast
  have read: "ho_read sample_host sample_files ''disk'' = Ok sample_media"
    by (simp add: sample_host_def sample_files_def sample_media_def)
  have "sample_media \<noteq> []" "length sample_media mod 512 = 0" by (simp_all add: sample_media_def)
  then have "block_attach 0 sample_media block_new = Ok (block_set_unit_state 0 \<lparr>mu_media = Some sample_media, mu_dirty_sectors = {}\<rparr> block_new)"
    by (simp add: block_attach_def unit_index_def UNIT_COUNT_def SECTOR_SIZE_def)
  moreover have "bd_units (block_set_unit_state 0 \<lparr>mu_media = Some sample_media, mu_dirty_sectors = {}\<rparr> block_new) = sample_units"
    by (simp add: block_set_unit_state_def block_new_def UNIT_COUNT_def sample_units_def numeral_2_eq_2)
  ultimately obtain bus where "bus_host_update (BlockAttach 0 sample_media) bus_new = Ok bus" "bd_units (bus_block bus) = sample_units"
    by (auto simp: bus_host_update_def block_update_def bus_new_def bus_send_def)
  with m assms(1,2) read show ?thesis
    by (auto simp: configured_machine_def machine_new_def)
qed

lemma sample_service:
  "\<exists>sv. service_reachable sample_engine sample_host sample_files sample_config sv
     \<and> sv_lifecycle sv = LcRunning \<and> em_ticks (sv_emulator sv) = 0 \<and> em_instruction_batch (sv_emulator sv) = 1024
     \<and> sv_scheduled sv = rc_scheduled_uart sample_config
     \<and> em_media (sv_emulator sv) = [(0, Some ''disk''), (1, None)]
     \<and> bd_units (bus_block (ma_bus (em_machine (sv_emulator sv)))) = sample_units"
proof -
  have canon: "canonicalize_block_media_paths sample_host sample_files sample_config = Ok sample_config"
    by (simp add: canonicalize_block_media_paths_def canonical_path_def sample_config_def runtime_config_new_def
        sample_host_def sample_files_def)
  obtain m view where m: "machine_status (rc_machine sample_config) = (m, view)" by fastforce
  then have block: "bus_block (ma_bus m) = block_new"
    by (auto simp: machine_status_def case_prod_unfold Let_def sample_config_def runtime_config_new_def new_machine_block)
  define config where "config = sample_config\<lparr>rc_machine := m, rc_instruction_batch := max (rc_instruction_batch sample_config) 1\<rparr>"
  define status where "status = \<lparr>rs_lifecycle = LcStarting, rs_machine = view, rs_last_stop = None, rs_last_error = None\<rparr>"
  have spawn: "runtime_spawn sample_host sample_files sample_config =
      Ok (config, status, uart_inbox_new (rc_uart_capacity sample_config))"
    by (simp add: runtime_spawn_def canon m config_def status_def)
  have "media_paths config = [(0, Some ''disk''), (1, None)]" "rc_initial_ram_writes config = []"
      "bus_block (ma_bus (rc_machine config)) = block_new"
    by (simp_all add: media_paths_def config_def sample_config_def runtime_config_new_def UNIT_FILESYSTEM_def
        UNIT_SWAP_def block)
  from sample_configured [OF this] obtain m1 where
    m1: "configured_machine sample_host sample_files config (rc_machine config) = Ok m1"
      "bd_units (bus_block (ma_bus m1)) = sample_units" by blast
  obtain b where b: "backend_new sample_engine m1 = Ok b" using sample_backend_new by blast
  obtain b' r where pc: "set_program_counter sample_engine (rc_entry config) b = (b', r)" by fastforce
  then have "r = Ok ()" and b': "be_machine b' = m1"
    using set_program_counter_machine [of sample_engine "rc_entry config" b] backend_new_machine [OF b]
    by (auto simp: set_program_counter_def set_register_def sample_engine_def)
  define em where "em = \<lparr>em_backend = b', em_entry = rc_entry config, em_end = rc_end config,
           em_instruction_batch = rc_instruction_batch config, em_media_path0 = rc_block_media_path config,
           em_media_path1 = rc_block1_media_path config, em_initial_ram_writes = rc_initial_ram_writes config\<rparr>"
  from \<open>r = Ok ()\<close> have em: "emulator_new sample_engine sample_host sample_files config = Ok em"
    using m1(1) b pc by (simp add: emulator_new_def em_def)
  have start: "rc_start_paused config = False" "rc_scheduled_uart config = rc_scheduled_uart sample_config"
    by (simp_all add: config_def sample_config_def runtime_config_new_def)
  define sv where "sv = publish LcRunning None None
          \<lparr>sv_status = status, sv_uart = uart_inbox_new (rc_uart_capacity sample_config), sv_remaining = None,
           sv_pending_breakpoint = None, sv_deadline = rc_execution_deadline config,
           sv_scheduled = sort_key su_at_tick (rc_scheduled_uart config),
           sv_emulator = em, sv_lifecycle = LcRunning, sv_host = sample_files, sv_responses = []\<rparr>"
  have "service_start sample_engine sample_host sample_files config status
      (uart_inbox_new (rc_uart_capacity sample_config)) = Inr sv"
    by (simp add: service_start_def em start(1) sv_def)
  from service_reachable.started [OF spawn this]
  have reach: "service_reachable sample_engine sample_host sample_files sample_config sv" .
  have status: "em_follows em (sv_emulator sv)" "em_ticks (sv_emulator sv) = em_ticks em"
      "bus_block (ma_bus (em_machine (sv_emulator sv))) = bus_block (ma_bus (em_machine em))"
    using emulator_status_follows [where em = em]
    by (simp_all add: sv_def emulator_status_def machine_status_def case_prod_unfold Let_def)
  have "block_wf (bus_block (ma_bus (rc_machine config)))"
    using sample_env by (simp add: config_def block) (simp add: service_env_def sample_config_def runtime_config_new_def new_machine_block)
  from configured_machine_keeps [OF m1(1) this sample_host_small] have "ma_ticks m1 = 0" by simp
  then have "em_ticks em = 0" "bus_block (ma_bus (em_machine em)) = bus_block (ma_bus m1)"
    by (simp_all add: em_def b')
  moreover have "em_media em = [(0, Some ''disk''), (1, None)]" "em_instruction_batch em = 1024"
    by (simp_all add: em_def em_media_def config_def sample_config_def runtime_config_new_def UNIT_FILESYSTEM_def UNIT_SWAP_def)
  moreover have "sv_lifecycle sv = LcRunning" "sv_scheduled sv = rc_scheduled_uart sample_config"
    by (simp_all add: sv_def start(2)) (simp add: sample_config_def)
  ultimately show ?thesis
    using reach status m1(2) same_setup_media(1) [of em "sv_emulator sv"]
    by (intro exI [of _ sv]) (auto simp: em_follows_def same_setup_def)
qed


section \<open>Boundaries of virtual time\<close>

text \<open>
  C5. Exact boundaries. In every history of the runtime service - with any commands, resets, pauses,
  inspections and input from other threads, on any engine that keeps its interface - virtual time never passes
  the execution deadline, and never passes the tick of a scheduled UART input that is still queued.
\<close>

theorem service_meets_boundaries:
  assumes "service_reachable e host h config sv" and "service_env e host h config"
  shows "(\<forall>d. rc_execution_deadline config = Some d \<longrightarrow> em_ticks (sv_emulator sv) \<le> d)
     \<and> (\<forall>i\<in>set (sv_scheduled sv). em_ticks (sv_emulator sv) \<le> su_at_tick i)"
  using service_reachable_ok [OF assms] by (auto simp: data_ok_def timely_def)

theorem service_meets_boundaries_witness:
  "\<exists>sv. service_reachable sample_engine sample_host sample_files sample_config sv
     \<and> sv_scheduled sv \<noteq> [] \<and> em_ticks (sv_emulator sv) \<le> 7 \<and> (\<forall>i\<in>set (sv_scheduled sv). em_ticks (sv_emulator sv) \<le> su_at_tick i)"
proof -
  obtain sv where sv: "service_reachable sample_engine sample_host sample_files sample_config sv"
      "sv_scheduled sv = rc_scheduled_uart sample_config"
    using sample_service by blast
  from service_meets_boundaries [OF sv(1) sample_env] sv show ?thesis
    by (intro exI [of _ sv]) (simp add: sample_config_def)
qed

lemma deliver_due_delivers:
  "\<exists>due. inputs = due @ fst (deliver_due now inputs em) \<and> (\<forall>i\<in>set due. su_at_tick i \<le> now)
     \<and> snd (deliver_due now inputs em) = fold (\<lambda>i. deliver_uart (su_port i) (su_bytes i)) due em"
proof (induction now inputs em rule: deliver_due.induct)
  case (2 now input inputs em)
  show ?case
  proof (cases "su_at_tick input \<le> now")
    case True
    with 2 obtain due where "inputs = due @ fst (deliver_due now inputs (deliver_uart (su_port input) (su_bytes input) em))"
        "\<forall>i\<in>set due. su_at_tick i \<le> now"
        "snd (deliver_due now inputs (deliver_uart (su_port input) (su_bytes input) em))
          = fold (\<lambda>i. deliver_uart (su_port i) (su_bytes i)) due (deliver_uart (su_port input) (su_bytes input) em)"
      by blast
    with True show ?thesis by (intro exI [of _ "input # due"]) simp
  qed simp
qed simp

text \<open>
  C33. Scheduled input is on time: whenever the running service looks, the inputs that it takes from
  the queue are exactly those scheduled for the current tick, not one of them late, it delivers them in
  their order, and what stays queued is scheduled for later ticks.
\<close>

theorem scheduled_input_on_time:
  assumes "service_reachable e host h config sv" and "service_env e host h config"
    and "deliver_due (em_ticks (sv_emulator sv)) (sv_scheduled sv) (sv_emulator sv) = (later, em)"
  shows "\<exists>due. sv_scheduled sv = due @ later \<and> em = fold (\<lambda>i. deliver_uart (su_port i) (su_bytes i)) due (sv_emulator sv)
     \<and> (\<forall>i\<in>set due. su_at_tick i = em_ticks (sv_emulator sv))
     \<and> (\<forall>i\<in>set later. em_ticks (sv_emulator sv) < su_at_tick i)"
proof -
  let ?now = "em_ticks (sv_emulator sv)"
  have timely: "timely sv" using service_reachable_ok [OF assms(1,2)] by (simp add: data_ok_def)
  obtain due where due: "sv_scheduled sv = due @ later" "\<forall>i\<in>set due. su_at_tick i \<le> ?now"
      "em = fold (\<lambda>i. deliver_uart (su_port i) (su_bytes i)) due (sv_emulator sv)"
    using deliver_due_delivers [of "sv_scheduled sv" ?now "sv_emulator sv"] assms(3) by auto
  have "later = dropWhile (\<lambda>i. su_at_tick i \<le> ?now) (sv_scheduled sv)"
    using deliver_due_rest [of ?now "sv_scheduled sv" "sv_emulator sv"] assms(3) by simp
  then have "\<forall>i\<in>set later. ?now < su_at_tick i"
    using timely dropWhile_ahead by (auto simp: timely_def)
  moreover have "\<forall>i\<in>set due. su_at_tick i = ?now"
    using timely due(1,2) by (auto simp: timely_def intro: order_antisym)
  ultimately show ?thesis using due by blast
qed

theorem scheduled_input_on_time_witness:
  "\<exists>sv later em. service_reachable sample_engine sample_host sample_files sample_config sv
     \<and> deliver_due (em_ticks (sv_emulator sv)) (sv_scheduled sv) (sv_emulator sv) = (later, em)
     \<and> (\<forall>i\<in>set later. em_ticks (sv_emulator sv) < su_at_tick i)"
proof -
  obtain sv where sv: "service_reachable sample_engine sample_host sample_files sample_config sv"
    using sample_service by blast
  obtain later em where due: "deliver_due (em_ticks (sv_emulator sv)) (sv_scheduled sv) (sv_emulator sv) = (later, em)"
    by fastforce
  from scheduled_input_on_time [OF sv sample_env due] sv due show ?thesis by blast
qed

section \<open>The loop\<close>


text \<open>
  C7. No iteration of the service loop hangs or panics, whatever arrives, and the published lifecycle
  is true: while the loop goes on it is running or paused, and is what the service is; when the loop ends it is
  stopped or failed. The guest's machine stays well-formed throughout.
\<close>

theorem service_iteration_returns:
  assumes "service_reachable e host h config sv" and "service_env e host h config"
    and "time_remains sv" and "input_ok ii"
  shows "\<exists>sv' continue. service_iteration e host ii sv = Some (sv', continue)
     \<and> rs_lifecycle (sv_status sv') \<in> (if continue then {LcRunning, LcPaused} \<inter> {sv_lifecycle sv'} else {LcStopped, LcFailed})
     \<and> machine_ok (em_machine (sv_emulator sv'))"
proof -
  obtain sv' continue where "service_iteration e host ii sv = Some (sv', continue)"
      "machine_ok (em_machine (sv_emulator sv'))" "if continue then settled sv' else ended host sv'"
    using service_iteration_goes_on [OF assms] by (auto simp: goes_on_def data_ok_def emulator_ok_def)
  then show ?thesis
    by (intro exI [of _ sv'] exI [of _ continue]) (auto simp: settled_def ended_def)
qed

definition quiet_input :: "bool \<Rightarrow> iteration_input" where
  "quiet_input disconnected = \<lparr>ii_commands = [], ii_disconnected = disconnected, ii_wait = WaitTimeout, ii_publish_due = True\<rparr>"

theorem service_iteration_returns_witness:
  "\<exists>sv sv' continue. service_reachable sample_engine sample_host sample_files sample_config sv \<and> sv_lifecycle sv = LcRunning
     \<and> service_iteration sample_engine sample_host (quiet_input False) sv = Some (sv', continue)
     \<and> machine_ok (em_machine (sv_emulator sv'))"
proof -
  obtain sv where sv: "service_reachable sample_engine sample_host sample_files sample_config sv" "sv_lifecycle sv = LcRunning"
      "em_ticks (sv_emulator sv) = 0" "em_instruction_batch (sv_emulator sv) = 1024"
    using sample_service by blast
  have "time_remains sv" "input_ok (quiet_input False)"
    using sv by (simp_all add: time_remains_def input_ok_def quiet_input_def)
  from service_iteration_returns [OF sv(1) sample_env this] sv show ?thesis by blast
qed

text \<open>
  C6. A service that reports that it has stopped has lost nothing: each attached block medium that was
  configured with a host file, with everything the guest wrote to it, is then the content of that file.
\<close>

theorem stopped_service_saved_media:
  assumes "service_reachable e host h config sv" and "service_env e host h config"
    and "time_remains sv" and "input_ok ii"
    and "service_iteration e host ii sv = Some (sv', False)" and "rs_lifecycle (sv_status sv') = LcStopped"
    and "(u, Some p) \<in> set (em_media (sv_emulator sv'))"
    and "mu_media (bd_units (bus_block (ma_bus (em_machine (sv_emulator sv')))) ! unat u) = Some media"
  shows "ho_read host (sv_host sv') p = Ok media"
  using service_iteration_goes_on [OF assms(1-4)] assms(5-)
  by (auto simp: goes_on_def ended_def files_current_def)

lemma clean_flush_unit:
  assumes "unat u < 2" and "unit_clean u em"
  shows "flush_unit host u p em h = (on_bus (bus_send []) em, h, Ok ())"
  using assms
  by (simp add: flush_unit_def block_flush_def unit_index_def UNIT_COUNT_def unit_clean_def Let_def on_bus_def)

theorem stopped_service_saved_media_witness:
  "\<exists>sv sv'. service_reachable sample_engine sample_host sample_files sample_config sv
     \<and> service_iteration sample_engine sample_host (quiet_input True) sv = Some (sv', False)
     \<and> ho_read sample_host (sv_host sv') ''disk'' = Ok sample_media"
proof -
  obtain sv where sv: "service_reachable sample_engine sample_host sample_files sample_config sv"
      "em_ticks (sv_emulator sv) = 0" "em_instruction_batch (sv_emulator sv) = 1024"
      "em_media (sv_emulator sv) = [(0, Some ''disk''), (1, None)]"
      "bd_units (bus_block (ma_bus (em_machine (sv_emulator sv)))) = sample_units"
    using sample_service by blast
  let ?em0 = "fst (emulator_status (sv_emulator sv))"
  let ?em1 = "on_bus (bus_send []) ?em0"
  have units: "bd_units (bus_block (ma_bus (em_machine (fst (emulator_status em))))) = bd_units (bus_block (ma_bus (em_machine em)))"
    and media: "em_media (fst (emulator_status em)) = em_media em" for em :: "(arm_register \<Rightarrow> u64) emulator"
    by (simp_all add: emulator_status_def machine_status_def case_prod_unfold Let_def em_media_def)
  have em1: "bd_units (bus_block (ma_bus (em_machine ?em1))) = sample_units" "em_media ?em1 = em_media (sv_emulator sv)"
    using sv(5) media [of "sv_emulator sv"] by (simp_all add: on_bus_machine units same_setup_media(1) [OF on_bus_machine(2)])
  have "unit_clean 0 ?em0" using sv(5) by (simp add: unit_clean_def units sample_units_def)
  moreover have "em_media_path0 ?em0 = Some ''disk''" "em_media_path1 ?em0 = None"
    using sv(4) media [of "sv_emulator sv"] by (simp_all add: em_media_def)
  ultimately have flush: "emulator_flush sample_host ?em0 h = (?em1, h, Ok ())" for h
    by (simp add: emulator_flush_def UNIT_FILESYSTEM_def clean_flush_unit)
  define sv' where "sv' = stop_service sample_host None sv"
  have step: "service_iteration sample_engine sample_host (quiet_input True) sv = Some (sv', False)"
    by (simp add: service_iteration_def quiet_input_def sv'_def)
  have "sv_emulator sv' = fst (emulator_status ?em1)" "rs_lifecycle (sv_status sv') = LcStopped"
    by (simp_all add: sv'_def stop_service_def flush_service_def flush)
  moreover have "time_remains sv" "input_ok (quiet_input True)"
    using sv by (simp_all add: time_remains_def input_ok_def quiet_input_def)
  ultimately have "ho_read sample_host (sv_host sv') ''disk'' = Ok sample_media"
    using stopped_service_saved_media [OF sv(1) sample_env _ _ step, of 0 "''disk''" sample_media] em1 sv(4)
    by (simp add: units media sample_units_def)
  with sv(1) step show ?thesis by blast
qed


section \<open>Pauses\<close>

lemma publish_flushed_result:
  assumes "data_ok host dl paths sv" and "separate_files host paths"
  shows "rs_last_stop (sv_status (publish_flushed host lc (Some stop) sv)) = Some stop"
    and "sv_pending_breakpoint (publish_flushed host lc (Some stop) sv) = sv_pending_breakpoint sv"
    and "em_ticks (sv_emulator (publish_flushed host lc (Some stop) sv)) = em_ticks (sv_emulator sv)"
proof -
  obtain sv1 r where fl: "flush_service host sv = (sv1, r)" by fastforce
  note k = flush_service_keeps [OF fl assms]
  show "rs_last_stop (sv_status (publish_flushed host lc (Some stop) sv)) = Some stop"
    by (simp add: publish_flushed_def fl publish_def publish_status_def case_prod_unfold Let_def)
  show "sv_pending_breakpoint (publish_flushed host lc (Some stop) sv) = sv_pending_breakpoint sv"
    "em_ticks (sv_emulator (publish_flushed host lc (Some stop) sv)) = em_ticks (sv_emulator sv)"
    using k by (simp_all add: publish_flushed_def fl emulator_status_follows)
qed

text \<open>The reasons for which a running service may pause by itself, after \<open>executed\<close> ticks of a bounded run.\<close>

fun pause_cause :: "u64 option \<Rightarrow> u64 \<Rightarrow> u64 \<Rightarrow> ('g, 'h) service \<Rightarrow> stop_note \<Rightarrow> bool" where
  "pause_cause dl limit executed sv NoteDeadline = (dl = Some (em_ticks (sv_emulator sv)))"
| "pause_cause dl limit executed sv (NoteBreakpoint immediate address) = (sv_pending_breakpoint sv = Some address)"
| "pause_cause dl limit executed sv (NoteLimit stop) = (limit \<le> executed)"
| "pause_cause dl limit executed sv _ = False"

lemma settle_batch_accounts:
  assumes "data_ok host dl paths sv" and "separate_files host paths" and "sv_lifecycle sv = LcRunning"
    and "sv_remaining sv = Some (saturating_sub_u64 limit executed)"
    and "settle_batch host due (sv_remaining sv = Some 0) result sv = (sv', True)"
  shows "em_ticks (sv_emulator sv') = em_ticks (sv_emulator sv)
     \<and> (sv_lifecycle sv' = LcRunning \<and> executed < limit \<and> sv_remaining sv' = Some (limit - executed)
        \<or> sv_lifecycle sv' = LcPaused \<and> (\<exists>stop. rs_last_stop (sv_status sv') = Some stop \<and> pause_cause dl limit executed sv' stop))"
proof -
  have left: "sv_remaining sv = Some 0 \<longleftrightarrow> limit \<le> executed"
      "sv_remaining sv \<noteq> Some 0 \<longrightarrow> executed < limit \<and> sv_remaining sv = Some (limit - executed)"
    using assms(4) by (auto simp: saturating_sub_u64_def not_le)
  have pause: "em_ticks (sv_emulator sv') = em_ticks (sv_emulator sv2) \<and> sv_lifecycle sv' = sv_lifecycle sv2
      \<and> rs_last_stop (sv_status sv') = Some stop \<and> sv_pending_breakpoint sv' = sv_pending_breakpoint sv2"
    if "data_ok host dl paths sv2" "publish_flushed host LcPaused (Some stop) sv2 = sv'" for sv2 stop
    using publish_flushed_result [OF that(1) assms(2)] publish_flushed_keeps(2) [OF that(1) assms(2)] that(2) by metis
  have quiet: ?thesis
    if "(if sv_remaining sv = Some 0
        then publish_flushed host LcPaused (Some (NoteLimit stop)) (sv\<lparr>sv_lifecycle := LcPaused, sv_remaining := None\<rparr>)
        else if due then publish (sv_lifecycle sv) (Some (NoteStop stop)) None sv else sv) = sv'" for stop
  proof (cases "sv_remaining sv = Some 0")
    case True
    with that pause [of "sv\<lparr>sv_lifecycle := LcPaused, sv_remaining := None\<rparr>" "NoteLimit stop"] assms(1) left(1)
    show ?thesis by auto
  next
    case False
    with that left(2) assms(3) show ?thesis by (auto simp: emulator_status_follows)
  qed
  from assms(5) show ?thesis
  proof (cases result)
    case (Inr stop)
    show ?thesis
    proof (cases stop)
      case (StopBreakpoint address immediate)
      with Inr assms(1,5) pause [of "sv\<lparr>sv_lifecycle := LcPaused, sv_remaining := None, sv_pending_breakpoint := Some address\<rparr>"
          "NoteBreakpoint immediate address"]
      show ?thesis by (auto simp: settle_batch_def)
    qed (use Inr assms(5) quiet in \<open>auto simp: settle_batch_def case_prod_unfold Let_def\<close>)
  qed (auto simp: settle_batch_def case_prod_unfold Let_def)
qed


text \<open>
  C36. A bounded resume is exact in virtual time. While a service that was resumed with a limit runs on, the
  ticks that remain fall by exactly the ticks that pass. It pauses by itself only for a cause that it
  reports truly: the execution deadline is this very tick, a breakpoint was hit and is remembered for
  the resume, or the ticks of the limit have passed. (The limit counts ticks, not instructions: a
  trap takes two.)
\<close>

theorem running_service_accounts:
  assumes "service_reachable e host h config sv" and "service_env e host h config" and "time_remains sv"
    and "sv_lifecycle sv = LcRunning" and "sv_remaining sv = Some limit"
    and "running_step e host due sv = Some (sv', True)"
  shows "let executed = em_ticks (sv_emulator sv') - em_ticks (sv_emulator sv) in
      em_ticks (sv_emulator sv) \<le> em_ticks (sv_emulator sv')
      \<and> (sv_lifecycle sv' = LcRunning \<and> executed < limit \<and> sv_remaining sv' = Some (limit - executed)
         \<or> sv_lifecycle sv' = LcPaused \<and> (\<exists>stop. rs_last_stop (sv_status sv') = Some stop
             \<and> pause_cause (rc_execution_deadline config) limit executed sv' stop))"
proof -
  from service_reachable_ok [OF assms(1,2)]
  have ok: "data_ok host (rc_execution_deadline config) (service_paths host h config) sv" "settled sv" by auto
  have env: "engine_runs e" "separate_files host (service_paths host h config)"
    using assms(2) by (simp_all add: service_env_def)
  from env ok assms(4,3) show ?thesis
  proof (cases rule: running_step_shape [where due = due])
    case (deadline sv1)
    then have "publish_flushed host LcPaused (Some NoteDeadline) sv1 = sv'" using assms(6) by simp
    with publish_flushed_result [OF deadline(1) env(2), of LcPaused NoteDeadline]
      publish_flushed_keeps(2) [OF deadline(1) env(2), of LcPaused "Some NoteDeadline"] deadline(2-4)
    show ?thesis by auto
  next
    case (batch sv3 stop)
    let ?executed = "em_ticks (sv_emulator sv3) - em_ticks (sv_emulator sv)"
    have "sv_remaining sv3 = Some (saturating_sub_u64 limit ?executed)"
      using batch(5) assms(5) by simp
    moreover have "settle_batch host due (sv_remaining sv3 = Some 0) (Ok stop) sv3 = (sv', True)"
      using batch(6) assms(6) by simp
    ultimately have acc: "em_ticks (sv_emulator sv') = em_ticks (sv_emulator sv3)"
        "sv_lifecycle sv' = LcRunning \<and> ?executed < limit \<and> sv_remaining sv' = Some (limit - ?executed)
         \<or> sv_lifecycle sv' = LcPaused \<and> (\<exists>stop. rs_last_stop (sv_status sv') = Some stop
             \<and> pause_cause (rc_execution_deadline config) limit ?executed sv' stop)"
      using settle_batch_accounts [OF batch(1) env(2) batch(3)] by blast+
    show ?thesis
      unfolding Let_def acc(1) using acc(2) batch(4) by (rule conjI [rotated])
  qed
qed

theorem running_service_accounts_witness:
  "\<exists>sv sv' r. service_reachable sample_engine sample_host sample_files sample_config sv \<and> sv_remaining sv = Some 5
     \<and> running_step sample_engine sample_host False sv = Some (sv', r)
     \<and> (r \<longrightarrow> em_ticks (sv_emulator sv) \<le> em_ticks (sv_emulator sv'))"
proof -
  obtain sv where sv: "service_reachable sample_engine sample_host sample_files sample_config sv"
      "sv_lifecycle sv = LcRunning" "em_ticks (sv_emulator sv) = 0" "em_instruction_batch (sv_emulator sv) = 1024"
    using sample_service by blast
  let ?cmds = "[CmdPause, CmdResume (Some 5)]"
  have ok: "data_ok sample_host (rc_execution_deadline sample_config) (service_paths sample_host sample_files sample_config) sv"
      "settled sv"
    using service_reachable_ok [OF sv(1) sample_env] by auto
  have pending: "sv_pending_breakpoint sv = None" using ok(2) sv(2) by (simp add: settled_def)
  let ?pause = "publish_flushed sample_host LcPaused None (sv\<lparr>sv_lifecycle := LcPaused, sv_remaining := None\<rparr>)"
  have pause: "sv_lifecycle ?pause = LcPaused" "sv_pending_breakpoint ?pause = None"
    using pending by (simp_all add: publish_flushed_def flush_service_def case_prod_unfold Let_def)
  obtain sv1 where sv1: "process_commands sample_engine sample_host ?cmds False sv = Some (sv1, True)"
      "sv_lifecycle sv1 = LcRunning" "sv_remaining sv1 = Some 5"
    using sv(2) pause by (simp add: process_command_def resume_service_def Let_def)
  have reach: "service_reachable sample_engine sample_host sample_files sample_config sv1"
    by (rule service_reachable.commands [OF sv(1) _ sv1(1)]) simp
  have env: "engine_runs sample_engine" "engine_reads sample_engine" "small_files sample_host"
      "separate_files sample_host (service_paths sample_host sample_files sample_config)"
    using sample_env by (simp_all add: service_env_def)
  have "no_later sv sv1"
    by (rule process_commands_no_later [OF env ok _ sv1(1)]) simp
  then have time: "time_remains sv1" using sv(3,4) by (simp add: time_remains_def no_later_def)
  obtain sv' r where step: "running_step sample_engine sample_host False sv1 = Some (sv', r)"
    using running_step_goes_on [OF env(1,4) conjunct1 [OF service_reachable_ok [OF reach sample_env]]
        conjunct2 [OF service_reachable_ok [OF reach sample_env]] sv1(2) time, of False]
    by (auto simp: goes_on_def)
  have "em_ticks (sv_emulator sv1) \<le> em_ticks (sv_emulator sv')" if r
    using running_service_accounts [OF reach sample_env time sv1(2,3)] step that by (simp add: Let_def)
  with reach sv1(3) step show ?thesis by blast
qed

end
