(* ===== verification/Tui_Types.thy ===== *)
theory Tui_Types
  imports Runtime_Service
begin

text \<open>
  The data of the terminal interface (\<open>types.rs\<close>, \<open>action.rs\<close>, \<open>event.rs\<close> and the motions of
  \<open>input/motion.rs\<close> in \<open>crates/minemu/src/tui\<close>). A Rust \<open>char\<close> is its scalar value and a \<open>String\<close>
  a list of them. A text that is made by formatting is a constructor with the values that are shown;
  the events of the terminal library are reduced to what the code looks at.
\<close>

section \<open>Characters and strings\<close>

type_synonym rust_char = nat
type_synonym rust_string = "rust_char list"

definition chars_of :: "string \<Rightarrow> rust_string" where
  "chars_of s = map of_char s"

text \<open>\<open>char::encode_utf8\<close>.\<close>

definition encode_utf8 :: "rust_char \<Rightarrow> u8 list" where
  "encode_utf8 c =
     (if c < 0x80 then [of_nat c]
      else if c < 0x800 then [of_nat (0xc0 + c div 64), of_nat (0x80 + c mod 64)]
      else if c < 0x10000 then
        [of_nat (0xe0 + c div 4096), of_nat (0x80 + c div 64 mod 64), of_nat (0x80 + c mod 64)]
      else [of_nat (0xf0 + c div 262144), of_nat (0x80 + c div 4096 mod 64),
            of_nat (0x80 + c div 64 mod 64), of_nat (0x80 + c mod 64)])"

text \<open>\<open>str::as_bytes\<close> and \<open>str::len\<close>.\<close>

definition string_bytes :: "rust_string \<Rightarrow> u8 list" where
  "string_bytes s = concat (map encode_utf8 s)"

text \<open>\<open>char::is_whitespace\<close> and \<open>str::split_whitespace\<close>.\<close>

definition is_whitespace :: "rust_char \<Rightarrow> bool" where
  "is_whitespace c \<longleftrightarrow>
     c = 0x20 \<or> 0x09 \<le> c \<and> c \<le> 0x0d \<or> c \<in> {0x85, 0xa0, 0x1680, 0x2028, 0x2029, 0x202f, 0x205f, 0x3000}
     \<or> 0x2000 \<le> c \<and> c \<le> 0x200a"

function split_whitespace :: "rust_string \<Rightarrow> rust_string list" where
  "split_whitespace s =
     (case dropWhile is_whitespace s of
        [] \<Rightarrow> []
      | c # cs \<Rightarrow> takeWhile (\<lambda>c. \<not> is_whitespace c) (c # cs)
                  # split_whitespace (dropWhile (\<lambda>c. \<not> is_whitespace c) (c # cs)))"
  by pat_completeness auto

termination
proof (relation "measure length")
  fix s :: rust_string and c cs
  assume eq: "dropWhile is_whitespace s = c # cs"
  then have "\<not> is_whitespace c" by (simp add: dropWhile_eq_Cons_conv)
  then have "length (dropWhile (\<lambda>c. \<not> is_whitespace c) (c # cs)) \<le> length cs"
    by (simp add: length_dropWhile_le)
  moreover have "length (c # cs) \<le> length s"
    using length_dropWhile_le [of is_whitespace s] eq by simp
  ultimately show "(dropWhile (\<lambda>c. \<not> is_whitespace c) (c # cs), s) \<in> measure length" by simp
qed simp

declare split_whitespace.simps [simp del]

text \<open>
  \<open>char::to_digit\<close> and \<open>from_str_radix\<close> of an unsigned type with the greatest value \<open>limit\<close>: an
  optional plus sign, at least one digit, and no overflow.
\<close>

definition to_digit :: "nat \<Rightarrow> rust_char \<Rightarrow> nat option" where
  "to_digit radix c =
     (let d = (if 48 \<le> c \<and> c \<le> 57 then Some (c - 48)
               else if 97 \<le> c \<and> c \<le> 122 then Some (c - 87)
               else if 65 \<le> c \<and> c \<le> 90 then Some (c - 55) else None)
      in case d of Some v \<Rightarrow> if v < radix then Some v else None | None \<Rightarrow> None)"

fun parse_digits :: "nat \<Rightarrow> nat \<Rightarrow> rust_string \<Rightarrow> nat \<Rightarrow> nat option" where
  "parse_digits radix limit [] acc = Some acc"
| "parse_digits radix limit (c # cs) acc =
     (case to_digit radix c of
        None \<Rightarrow> None
      | Some d \<Rightarrow> if acc * radix + d \<le> limit then parse_digits radix limit cs (acc * radix + d) else None)"

definition from_str_radix :: "nat \<Rightarrow> nat \<Rightarrow> rust_string \<Rightarrow> nat option" where
  "from_str_radix radix limit s =
     (let digits = (case s of c # cs \<Rightarrow> if c = 43 then cs else s | [] \<Rightarrow> [])
      in if digits = [] then None else parse_digits radix limit digits 0)"

section \<open>Views, modes and widgets\<close>

datatype view = RuntimeView | InspectView

fun view_toggled :: "view \<Rightarrow> view" where
  "view_toggled RuntimeView = InspectView"
| "view_toggled InspectView = RuntimeView"

datatype widget_id =
    HeaderId | ConsoleId | EventsId | DialogId | PrimaryId | SecondaryId | InputBarId | HintsId | HelpId

datatype input_mode =
    NormalMode | InsertMode | CommandMode | LeaderMode | SearchAsciiMode | SearchBytesMode | GotoMode

datatype primary_subview = PhysicalMemoryView | VirtualMemoryView | DisassemblyView

fun primary_next :: "primary_subview \<Rightarrow> primary_subview" where
  "primary_next PhysicalMemoryView = VirtualMemoryView"
| "primary_next VirtualMemoryView = DisassemblyView"
| "primary_next DisassemblyView = PhysicalMemoryView"

datatype secondary_subview = RegistersView | SystemView | PeripheralsView | PendingView

fun secondary_next :: "secondary_subview \<Rightarrow> secondary_subview" where
  "secondary_next RegistersView = SystemView"
| "secondary_next SystemView = PeripheralsView"
| "secondary_next PeripheralsView = PendingView"
| "secondary_next PendingView = RegistersView"

fun secondary_index :: "secondary_subview \<Rightarrow> usize" where
  "secondary_index RegistersView = 0"
| "secondary_index SystemView = 1"
| "secondary_index PeripheralsView = 2"
| "secondary_index PendingView = 3"

datatype split_id = RuntimeMain | InspectMain

section \<open>Messages\<close>

datatype dialog_level = LevelInfo | LevelError

text \<open>The detail of a failed inspection: the runtime's error, or the closed response channel.\<close>

datatype failure_detail = FailedWith runtime_error | ResponseChannelClosed

datatype message_text =
    Literal string
  | LiteralWith string rust_string
  | TextStop stop_note
  | TextRequestFailed runtime_inspection_request failure_detail
  | TextOperationFailed string runtime_error
  | TextCannotToggle lifecycle_state
  | TextConsoleUart uart_port
  | TextStartedFor u64
  | TextMatchAt u32
  | TextTranslation u32 u32

record dialog_message =
  dm_level :: dialog_level
  dm_text :: message_text

definition message_info :: "message_text \<Rightarrow> dialog_message" where
  "message_info text = \<lparr>dm_level = LevelInfo, dm_text = text\<rparr>"

definition message_error :: "message_text \<Rightarrow> dialog_message" where
  "message_error text = \<lparr>dm_level = LevelError, dm_text = text\<rparr>"

section \<open>Keys, motions, actions and events\<close>

datatype key_code =
    KeyChar rust_char | KeyEnter | KeyBackspace | KeyEsc | KeyTab
  | KeyLeft | KeyRight | KeyUp | KeyDown | KeyOther

abbreviation Key :: "char \<Rightarrow> key_code" where
  "Key c \<equiv> KeyChar (of_char c)"

record key_event =
  ke_code :: key_code
  ke_control :: bool

datatype motion =
    MoveLeft usize | MoveDown usize | MoveUp usize | MoveRight usize
  | MoveNextItem usize | MoveEndItem usize | MoveTop | MoveBottom

datatype action =
    ActQuit
  | ActSelectView view
  | ActToggleView
  | ActFocus widget_id
  | ActSetMode input_mode
  | ActToggleRun
  | ActStart "u64 option"
  | ActStop
  | ActReset
  | ActSendUart uart_port "u8 list"
  | ActRequestInspection widget_id runtime_inspection_request
  | ActWidgetKey widget_id key_event
  | ActInsertText widget_id rust_string
  | ActNavigate widget_id motion
  | ActGoto widget_id rust_string
  | ActSetUart uart_port
  | ActSetPrimary primary_subview
  | ActSetSecondary secondary_subview
  | ActRefresh widget_id
  | ActShowMessage dialog_message
  | ActShowHelp
  | ActResize split_id u16

datatype app_event =
    EvStatus runtime_status
  | EvInspection runtime_inspection
  | EvInspectionFailed runtime_inspection_request failure_detail
  | EvViewChanged view
  | EvReset
  | EvPulse
  | EvRefresh
  | EvNavigate motion
  | EvGoto rust_string
  | EvInsertText rust_string
  | EvUartSelected uart_port
  | EvPrimarySelected primary_subview
  | EvSecondarySelected secondary_subview
  | EvDialog dialog_message

section \<open>Scrolling\<close>

definition saturating_mul_usize :: "usize \<Rightarrow> usize \<Rightarrow> usize" where
  "saturating_mul_usize a b = min (a * b) usize_max"

definition scroll_offset :: "usize \<Rightarrow> u16 \<Rightarrow> usize \<Rightarrow> u16" where
  "scroll_offset total_lines height from_bottom =
     (let visible = unat height - 2 in of_nat (min (total_lines - visible - from_bottom) 65535))"

fun nav_scroll :: "motion \<Rightarrow> usize \<Rightarrow> usize" where
  "nav_scroll (MoveUp count) from_bottom = saturating_add_usize from_bottom count"
| "nav_scroll (MoveLeft count) from_bottom = saturating_add_usize from_bottom count"
| "nav_scroll (MoveDown count) from_bottom = from_bottom - count"
| "nav_scroll (MoveRight count) from_bottom = from_bottom - count"
| "nav_scroll (MoveNextItem count) from_bottom = from_bottom - count"
| "nav_scroll (MoveEndItem count) from_bottom = from_bottom - count"
| "nav_scroll MoveTop from_bottom = usize_max"
| "nav_scroll MoveBottom from_bottom = 0"

text \<open>The number of lines that are hidden above the window is what is not visible and not below it.\<close>

lemma unat_scroll_offset:
  "unat (scroll_offset total_lines height from_bottom)
     = min (total_lines - (unat height - 2) - from_bottom) 65535"
  by (simp add: scroll_offset_def Let_def unat_of_nat take_bit_nat_eq_self)

end
