(* ===== verification/Tui_Input.thy ===== *)
theory Tui_Input
  imports Tui_Types
begin

text \<open>
  The input layer of the terminal interface (\<open>input/*.rs\<close>): the motion decoder with its counts, the
  parsers of addresses, search patterns and commands, and the router that turns events into actions.
\<close>

section \<open>Motions\<close>

datatype decode_result = DecodePending | DecodeMotion motion | DecodeUnhandled

record motion_decoder =
  md_count :: "usize option"
  md_pending_g :: bool

definition motion_decoder_default :: motion_decoder where
  "motion_decoder_default = \<lparr>md_count = None, md_pending_g = False\<rparr>"

definition motion_reset :: "motion_decoder \<Rightarrow> motion_decoder" where
  "motion_reset d = d\<lparr>md_count := None, md_pending_g := False\<rparr>"

definition take_count :: "motion_decoder \<Rightarrow> motion_decoder \<times> usize" where
  "take_count d = (d\<lparr>md_count := None, md_pending_g := False\<rparr>, case md_count d of Some n \<Rightarrow> n | None \<Rightarrow> 1)"

definition count_or_0 :: "motion_decoder \<Rightarrow> usize" where
  "count_or_0 d = (case md_count d of Some n \<Rightarrow> n | None \<Rightarrow> 0)"

definition counted :: "(usize \<Rightarrow> motion) \<Rightarrow> motion_decoder \<Rightarrow> motion_decoder \<times> decode_result" where
  "counted f d = (let (d, count) = take_count d in (d, DecodeMotion (f count)))"

definition motion_push_char :: "rust_char \<Rightarrow> motion_decoder \<Rightarrow> motion_decoder \<times> decode_result" where
  "motion_push_char c d =
     (if 49 \<le> c \<and> c \<le> 57 then
        (d\<lparr>md_count := Some (saturating_add_usize (saturating_mul_usize (count_or_0 d) 10) (c - 48))\<rparr>, DecodePending)
      else if c = 48 \<and> md_count d \<noteq> None then
        (d\<lparr>md_count := Some (saturating_mul_usize (count_or_0 d) 10)\<rparr>, DecodePending)
      else if c = of_char CHR ''g'' \<and> md_pending_g d then (motion_reset d, DecodeMotion MoveTop)
      else if c = of_char CHR ''g'' then (d\<lparr>md_pending_g := True\<rparr>, DecodePending)
      else if c = of_char CHR ''G'' then (motion_reset d, DecodeMotion MoveBottom)
      else if c = of_char CHR ''h'' then counted MoveLeft d
      else if c = of_char CHR ''j'' then counted MoveDown d
      else if c = of_char CHR ''k'' then counted MoveUp d
      else if c = of_char CHR ''l'' then counted MoveRight d
      else if c = of_char CHR ''w'' then counted MoveNextItem d
      else if c = of_char CHR ''e'' then counted MoveEndItem d
      else (fst (take_count d), DecodeUnhandled))"

fun motion_push :: "key_code \<Rightarrow> motion_decoder \<Rightarrow> motion_decoder \<times> decode_result" where
  "motion_push (KeyChar c) d = motion_push_char c d"
| "motion_push KeyLeft d = counted MoveLeft d"
| "motion_push KeyDown d = counted MoveDown d"
| "motion_push KeyUp d = counted MoveUp d"
| "motion_push KeyRight d = counted MoveRight d"
| "motion_push _ d = (motion_reset d, DecodeUnhandled)"

section \<open>Addresses and search patterns\<close>

definition strip_prefix :: "rust_string \<Rightarrow> rust_string \<Rightarrow> rust_string option" where
  "strip_prefix p s = (if take (length p) s = p then Some (drop (length p) s) else None)"

definition address_error :: message_text where
  "address_error = Literal ''address must be hexadecimal''"

definition parse_hex_address :: "rust_string \<Rightarrow> message_text + u32" where
  "parse_hex_address value =
     (let value = (case strip_prefix (chars_of ''0x'') value of
                     Some rest \<Rightarrow> rest
                   | None \<Rightarrow> (case strip_prefix (chars_of ''0X'') value of Some rest \<Rightarrow> rest | None \<Rightarrow> value))
      in if value = [] then Err address_error
         else case from_str_radix 16 (2 ^ 32 - 1) value of
           Some n \<Rightarrow> Ok (of_nat n)
         | None \<Rightarrow> Err address_error)"

definition search_ascii :: "rust_string \<Rightarrow> message_text + u8 list" where
  "search_ascii value =
     (if value = [] then Err (Literal ''ASCII search pattern cannot be empty'') else Ok (string_bytes value))"

definition search_byte :: "rust_string \<Rightarrow> message_text + u8" where
  "search_byte byte =
     (if length (string_bytes byte) \<noteq> 2 then Err (LiteralWith ''invalid hex byte: '' byte)
      else case from_str_radix 16 255 byte of
        Some n \<Rightarrow> Ok (of_nat n)
      | None \<Rightarrow> Err (LiteralWith ''invalid hex byte: '' byte))"

fun collect_results :: "('e + 'a) list \<Rightarrow> 'e + 'a list" where
  "collect_results [] = Ok []"
| "collect_results (r # rs) = and_then r (\<lambda>v. and_then (collect_results rs) (\<lambda>vs. Ok (v # vs)))"

definition search_bytes :: "rust_string \<Rightarrow> message_text + u8 list" where
  "search_bytes value =
     and_then (collect_results (map search_byte (split_whitespace value))) (\<lambda>bytes.
       if bytes = [] then Err (Literal ''byte search pattern cannot be empty'') else Ok bytes)"

section \<open>Commands\<close>

text \<open>A word is compared with the literals of a pattern.\<close>

definition is_word :: "rust_string \<Rightarrow> string list \<Rightarrow> bool" where
  "is_word w names \<longleftrightarrow> w \<in> set (map chars_of names)"

fun first_word :: "rust_string list \<Rightarrow> rust_string option \<times> rust_string list" where
  "first_word [] = (None, [])"
| "first_word (w # ws) = (Some w, ws)"

definition parse_instruction_limit :: "rust_string option \<Rightarrow> message_text + u64 option" where
  "parse_instruction_limit value =
     (case value of
        None \<Rightarrow> Ok None
      | Some value \<Rightarrow>
          (case from_str_radix 10 (2 ^ 64 - 1) value of
             Some n \<Rightarrow> if n = 0 then Err (Literal ''instruction count must be a positive decimal integer'')
                       else Ok (Some (of_nat n))
           | None \<Rightarrow> Err (Literal ''instruction count must be a positive decimal integer'')))"

definition parse_set :: "rust_string option \<Rightarrow> rust_string option \<Rightarrow> message_text + action list" where
  "parse_set key value =
     (case (key, value) of
        (Some k, Some v) \<Rightarrow>
          (if is_word k [''uart''] \<and> is_word v [''0''] then Ok [ActSetUart PortUart0]
           else if is_word k [''uart''] \<and> is_word v [''1''] then Ok [ActSetUart PortUart1]
           else if is_word k [''primary''] \<and> is_word v [''pmem'', ''physical'', ''mem'', ''memory'']
             then Ok [ActSetPrimary PhysicalMemoryView]
           else if is_word k [''primary''] \<and> is_word v [''vmem'', ''virtual'']
             then Ok [ActSetPrimary VirtualMemoryView]
           else if is_word k [''primary''] \<and> is_word v [''disasm'', ''disassembly'']
             then Ok [ActSetPrimary DisassemblyView]
           else if is_word k [''secondary''] \<and> is_word v [''reg'', ''registers'']
             then Ok [ActSetSecondary RegistersView]
           else if is_word k [''secondary''] \<and> is_word v [''sys'', ''system'']
             then Ok [ActSetSecondary SystemView]
           else if is_word k [''secondary''] \<and> is_word v [''peri'', ''peripherals'']
             then Ok [ActSetSecondary PeripheralsView]
           else if is_word k [''secondary''] \<and> is_word v [''pend'', ''pending'']
             then Ok [ActSetSecondary PendingView]
           else Err (Literal ''usage: :set uart|primary|secondary <value>''))
      | _ \<Rightarrow> Err (Literal ''usage: :set uart|primary|secondary <value>''))"

text \<open>The body of \<open>parse\<close> for the first word \<open>name\<close>: the actions, and the words that are left.\<close>

definition parse_named ::
  "rust_string \<Rightarrow> rust_string list \<Rightarrow> widget_id \<Rightarrow> message_text + action list \<times> rust_string list" where
  "parse_named name words target =
     (let (arg, rest) = first_word words in
      if is_word name [''q'', ''quit''] then Ok ([ActQuit], words)
      else if is_word name [''?'', ''help''] then Ok ([ActShowHelp], words)
      else if is_word name [''start''] then
        and_then (parse_instruction_limit arg) (\<lambda>limit. Ok ([ActStart limit], rest))
      else if is_word name [''stop''] then Ok ([ActStop], words)
      else if is_word name [''s''] then
        (case arg of
           None \<Rightarrow> Ok ([ActToggleRun], rest)
         | Some value \<Rightarrow> and_then (parse_instruction_limit (Some value)) (\<lambda>limit. Ok ([ActStart limit], rest)))
      else if is_word name [''reset''] then Ok ([ActReset], words)
      else if is_word name [''v'', ''view''] then
        (case arg of
           None \<Rightarrow> Ok ([ActToggleView], rest)
         | Some value \<Rightarrow>
             if is_word value [''r'', ''runtime''] then Ok ([ActSelectView RuntimeView], rest)
             else if is_word value [''i'', ''inspect''] then Ok ([ActSelectView InspectView], rest)
             else Err (LiteralWith ''unknown view: '' value))
      else if is_word name [''set''] then
        (let (value, rest) = first_word rest in and_then (parse_set arg value) (\<lambda>actions. Ok (actions, rest)))
      else if is_word name [''g'', ''goto''] then
        (case arg of
           None \<Rightarrow> Err (Literal ''usage: :goto <location>'')
         | Some value \<Rightarrow> Ok ([ActGoto target value], rest))
      else if is_word name [''translate'', ''xlate''] then
        (case arg of
           None \<Rightarrow> Err (Literal ''usage: :translate <virtual-address>'')
         | Some value \<Rightarrow> and_then (parse_hex_address value) (\<lambda>address.
             Ok ([ActRequestInspection DialogId (RequestTranslate (VirtualAddress address))], rest)))
      else Err (LiteralWith ''unknown command: '' name))"

definition parse_command :: "rust_string \<Rightarrow> widget_id \<Rightarrow> message_text + action list" where
  "parse_command command target =
     (case split_whitespace command of
        [] \<Rightarrow> Ok []
      | name # words \<Rightarrow>
          and_then (parse_named name words target) (\<lambda>(actions, rest).
            if rest \<noteq> [] then Err (Literal ''too many command arguments'') else Ok actions))"

section \<open>The router\<close>

record input_router =
  ir_mode :: input_mode
  ir_buffer :: rust_string
  ir_motion :: motion_decoder

definition input_router_default :: input_router where
  "input_router_default = \<lparr>ir_mode = NormalMode, ir_buffer = [], ir_motion = motion_decoder_default\<rparr>"

definition router_set_mode :: "input_mode \<Rightarrow> input_router \<Rightarrow> input_router" where
  "router_set_mode mode r = r\<lparr>ir_mode := mode, ir_buffer := [], ir_motion := motion_reset (ir_motion r)\<rparr>"

fun mode_prefix :: "input_mode \<Rightarrow> string" where
  "mode_prefix NormalMode = ''''"
| "mode_prefix InsertMode = ''-- INSERT -- ''"
| "mode_prefix CommandMode = '':''"
| "mode_prefix LeaderMode = ''<space>''"
| "mode_prefix SearchAsciiMode = ''/''"
| "mode_prefix SearchBytesMode = [CHR 0x5C]"
| "mode_prefix GotoMode = ''>''"

definition router_display :: "input_router \<Rightarrow> rust_string" where
  "router_display r = chars_of (mode_prefix (ir_mode r)) @ ir_buffer r"

definition route_normal :: "key_event \<Rightarrow> widget_id \<Rightarrow> input_router \<Rightarrow> input_router \<times> action list" where
  "route_normal key focused r =
     (let code = ke_code key in
      if ke_control key then
        (r, if code = Key CHR ''c'' then [ActFocus ConsoleId]
            else if code = Key CHR ''e'' then [ActFocus EventsId]
            else if code = Key CHR ''d'' then [ActFocus DialogId]
            else if code = Key CHR ''p'' then [ActFocus PrimaryId]
            else if code = Key CHR ''s'' then [ActFocus SecondaryId] else [])
      else if code = Key CHR '':'' then (r, [ActSetMode CommandMode])
      else if code = Key CHR ''?'' then (r, [ActShowHelp])
      else if code = Key CHR '' '' then (r, [ActSetMode LeaderMode])
      else if code = KeyEsc then (r\<lparr>ir_motion := motion_reset (ir_motion r), ir_buffer := []\<rparr>, [])
      else
        (let (decoder, result) = motion_push code (ir_motion r); r = r\<lparr>ir_motion := decoder\<rparr> in
         case result of
           DecodePending \<Rightarrow>
             (case code of KeyChar c \<Rightarrow> r\<lparr>ir_buffer := ir_buffer r @ [c]\<rparr> | _ \<Rightarrow> r, [])
         | DecodeMotion m \<Rightarrow> (r\<lparr>ir_buffer := []\<rparr>, [ActNavigate focused m])
         | DecodeUnhandled \<Rightarrow> (r\<lparr>ir_buffer := []\<rparr>, [ActWidgetKey focused key])))"

definition route_leader :: "key_event \<Rightarrow> action list" where
  "route_leader key =
     (let code = ke_code key in
      if code = Key CHR ''r'' then [ActSelectView RuntimeView, ActSetMode NormalMode]
      else if code = Key CHR ''i'' then [ActSelectView InspectView, ActSetMode NormalMode]
      else if code = Key CHR ''s'' then [ActToggleRun, ActSetMode NormalMode]
      else if code = KeyEsc then [ActSetMode NormalMode]
      else [ActShowMessage (message_error (Literal ''unknown leader command'')), ActSetMode NormalMode])"

text \<open>What Enter does with the input in a text mode; the other modes are \<open>unreachable!\<close>.\<close>

definition submit_text :: "input_mode \<Rightarrow> rust_string \<Rightarrow> widget_id \<Rightarrow> (message_text + action list) option" where
  "submit_text mode input focused =
     (let search = (\<lambda>pattern. Ok [ActRequestInspection focused (RequestSearch pattern)]) in
      case mode of
        CommandMode \<Rightarrow> Some (parse_command input focused)
      | SearchAsciiMode \<Rightarrow> Some (and_then (search_ascii input) search)
      | SearchBytesMode \<Rightarrow> Some (and_then (search_bytes input) search)
      | GotoMode \<Rightarrow> Some (Ok [ActGoto focused input])
      | _ \<Rightarrow> None)"

definition route_text :: "key_event \<Rightarrow> widget_id \<Rightarrow> input_router \<Rightarrow> (input_router \<times> action list) option" where
  "route_text key focused r =
     (case ke_code key of
        KeyEsc \<Rightarrow> Some (r, [ActSetMode NormalMode])
      | KeyBackspace \<Rightarrow> Some (r\<lparr>ir_buffer := butlast (ir_buffer r)\<rparr>, [])
      | KeyChar c \<Rightarrow> Some (r\<lparr>ir_buffer := ir_buffer r @ [c]\<rparr>, [])
      | KeyEnter \<Rightarrow>
          (case submit_text (ir_mode r) (ir_buffer r) focused of
             None \<Rightarrow> None
           | Some result \<Rightarrow>
               Some (r\<lparr>ir_buffer := []\<rparr>,
                 (case result of Inr actions \<Rightarrow> actions | Inl error \<Rightarrow> [ActShowMessage (message_error error)])
                 @ [ActSetMode NormalMode]))
      | _ \<Rightarrow> Some (r, []))"

definition route_key :: "key_event \<Rightarrow> widget_id \<Rightarrow> input_router \<Rightarrow> (input_router \<times> action list) option" where
  "route_key key focused r =
     (case ir_mode r of
        NormalMode \<Rightarrow> Some (route_normal key focused r)
      | InsertMode \<Rightarrow> Some (r, if ke_code key = KeyEsc then [ActSetMode NormalMode] else [ActWidgetKey focused key])
      | LeaderMode \<Rightarrow> Some (r, route_leader key)
      | _ \<Rightarrow> route_text key focused r)"

text \<open>The events of the terminal: a key with its kind, a paste, or another event.\<close>

datatype terminal_event = EventKey key_event bool | EventPaste rust_string | EventOther

fun router_route :: "terminal_event \<Rightarrow> widget_id \<Rightarrow> input_router \<Rightarrow> (input_router \<times> action list) option" where
  "router_route (EventPaste pasted) focused r =
     Some (r, if ir_mode r = InsertMode then [ActInsertText focused pasted] else [])"
| "router_route (EventKey key pressed) focused r =
     (if pressed then route_key key focused r else Some (r, []))"
| "router_route EventOther focused r = Some (r, [])"


section \<open>Numbers are read as they are written\<close>

definition value_of :: "nat \<Rightarrow> nat list \<Rightarrow> nat \<Rightarrow> nat" where
  "value_of radix ds acc = foldl (\<lambda>n d. n * radix + d) acc ds"

lemma value_of_simps [simp]:
  "value_of radix [] acc = acc"
  "value_of radix (d # ds) acc = value_of radix ds (acc * radix + d)"
  by (simp_all add: value_of_def)

lemma value_of_mono: "0 < radix \<Longrightarrow> acc \<le> value_of radix ds acc"
proof (induction ds arbitrary: acc)
  case (Cons d ds)
  from Cons.prems have "acc \<le> acc * radix + d" by (cases radix) simp_all
  also have "\<dots> \<le> value_of radix ds (acc * radix + d)" by (rule Cons.IH [OF Cons.prems])
  finally show ?case by simp
qed simp

definition digit_char :: "nat \<Rightarrow> rust_char" where
  "digit_char d = (if d < 10 then 48 + d else 87 + d)"

lemma to_digit_char [simp]: "d < radix \<Longrightarrow> radix \<le> 36 \<Longrightarrow> to_digit radix (digit_char d) = Some d"
  by (simp add: to_digit_def digit_char_def Let_def)

lemma parse_digits_value:
  assumes "0 < radix" and "radix \<le> 36" and "list_all (\<lambda>d. d < radix) ds"
  shows "parse_digits radix limit (map digit_char ds) acc =
    (if ds = [] \<or> value_of radix ds acc \<le> limit then Some (value_of radix ds acc) else None)"
  using assms(3)
proof (induction ds arbitrary: acc)
  case (Cons d ds)
  then have "parse_digits radix limit (map digit_char ds) (acc * radix + d) =
    (if ds = [] \<or> value_of radix ds (acc * radix + d) \<le> limit
     then Some (value_of radix ds (acc * radix + d)) else None)" by simp
  with Cons.prems assms(2) value_of_mono [OF assms(1), of "acc * radix + d" ds] show ?case by auto
qed simp

lemma from_str_radix_value:
  assumes "0 < radix" and "radix \<le> 36" and "list_all (\<lambda>d. d < radix) ds" and "ds \<noteq> []"
  shows "from_str_radix radix limit (map digit_char ds) =
    (if value_of radix ds 0 \<le> limit then Some (value_of radix ds 0) else None)"
proof -
  have "digit_char d \<noteq> 43" for d by (simp add: digit_char_def)
  with assms show ?thesis
    using parse_digits_value [OF assms(1-3), of limit 0]
    by (cases ds) (simp_all add: from_str_radix_def Let_def)
qed

text \<open>The last \<open>k\<close> digits of a number, most significant first.\<close>

definition digits :: "nat \<Rightarrow> nat \<Rightarrow> nat \<Rightarrow> nat list" where
  "digits radix k n = map (\<lambda>i. n div radix ^ i mod radix) (rev [0..<k])"

lemma digits_Suc: "digits radix (Suc k) n = n div radix ^ k mod radix # digits radix k n"
  by (simp add: digits_def)

lemma value_of_digits: "0 < radix \<Longrightarrow> value_of radix (digits radix k n) (n div radix ^ k) = n"
proof (induction k)
  case (Suc k)
  have "n div radix ^ Suc k * radix + n div radix ^ k mod radix = n div radix ^ k"
    by (simp add: div_mult2_eq mult.commute [of radix] power_Suc2)
  with Suc show ?case by (simp add: digits_Suc)
qed (simp add: digits_def)

lemma digits_below: "0 < radix \<Longrightarrow> list_all (\<lambda>d. d < radix) (digits radix k n)"
  by (simp add: digits_def list_all_iff)

lemma from_str_radix_digits:
  assumes "0 < radix" and "radix \<le> 36" and "0 < k" and "n < radix ^ k"
  shows "from_str_radix radix limit (map digit_char (digits radix k n)) = (if n \<le> limit then Some n else None)"
proof -
  from assms(3) have "digits radix k n \<noteq> []" by (cases k) (simp_all add: digits_Suc)
  moreover have "value_of radix (digits radix k n) 0 = n"
    using value_of_digits [OF assms(1), of k n] assms(4) by simp
  ultimately show ?thesis using from_str_radix_value [OF assms(1,2) digits_below [OF assms(1)], of k n limit] by simp
qed

text \<open>\<open>{:08x}\<close> and \<open>{:02x}\<close>.\<close>

definition format_hex :: "nat \<Rightarrow> nat \<Rightarrow> rust_string" where
  "format_hex k n = map digit_char (digits 16 k n)"

lemma length_format_hex [simp]: "length (format_hex k n) = k"
  by (simp add: format_hex_def digits_def)

text \<open>An address that the interface prints as eight hexadecimal digits after \<open>0x\<close> is read back by
  goto and translate as the same address.\<close>

theorem printed_address_is_read_back:
  "parse_hex_address (chars_of ''0x'' @ format_hex 8 (unat a)) = Ok a"
proof -
  have "from_str_radix 16 (2 ^ 32 - 1) (format_hex 8 (unat a)) = Some (unat a)"
    using unat_u32_lt [of a] from_str_radix_digits [of 16 8 "unat a" "2 ^ 32 - 1"]
    by (simp add: format_hex_def)
  moreover have "format_hex 8 (unat a) \<noteq> []"
    by (metis length_format_hex list.size(3) zero_neq_numeral)
  ultimately show ?thesis by (simp add: parse_hex_address_def strip_prefix_def chars_of_def)
qed

section \<open>Search patterns\<close>

lemma split_whitespace_nil [simp]: "split_whitespace [] = []"
  by (subst split_whitespace.simps) simp

lemma split_whitespace_word:
  assumes "w \<noteq> []" and "list_all (\<lambda>c. \<not> is_whitespace c) w"
  shows "split_whitespace w = [w]"
proof -
  have "dropWhile is_whitespace w = w" using assms by (cases w) simp_all
  moreover have "takeWhile (\<lambda>c. \<not> is_whitespace c) w = w" "dropWhile (\<lambda>c. \<not> is_whitespace c) w = []"
    using assms(2) by (simp_all add: list_all_iff)
  ultimately show ?thesis using assms(1) by (subst split_whitespace.simps) (cases w; simp)
qed

lemma split_whitespace_space:
  assumes "w \<noteq> []" and "list_all (\<lambda>c. \<not> is_whitespace c) w" and "is_whitespace s"
  shows "split_whitespace (w @ s # rest) = w # split_whitespace rest"
proof -
  from assms obtain c cs where w: "w = c # cs" "\<not> is_whitespace c" by (cases w) auto
  have "dropWhile is_whitespace (w @ s # rest) = w @ s # rest" using w by simp
  moreover have "takeWhile (\<lambda>c. \<not> is_whitespace c) (w @ s # rest) = w"
    "dropWhile (\<lambda>c. \<not> is_whitespace c) (w @ s # rest) = s # rest"
    using assms(2,3) by (simp_all add: list_all_iff takeWhile_append2 dropWhile_append2)
  ultimately have "split_whitespace (w @ s # rest) = w # split_whitespace (s # rest)"
    using w by (subst split_whitespace.simps) simp
  moreover have "split_whitespace (s # rest) = split_whitespace rest"
    using assms(3) by (subst (1 2) split_whitespace.simps) simp
  ultimately show ?thesis by simp
qed

text \<open>Bytes as the user writes them: two digits each, separated by blanks.\<close>

fun format_bytes :: "u8 list \<Rightarrow> rust_string" where
  "format_bytes [] = []"
| "format_bytes [b] = format_hex 2 (unat b)"
| "format_bytes (b # bs) = format_hex 2 (unat b) @ 32 # format_bytes bs"


lemma format_hex_chars: "c \<in> set (format_hex k n) \<Longrightarrow> \<not> is_whitespace c \<and> c < 0x80"
proof -
  assume "c \<in> set (format_hex k n)"
  then obtain d where "c = digit_char d" "d < 16" by (auto simp: format_hex_def digits_def)
  then show ?thesis by (auto simp: digit_char_def is_whitespace_def)
qed

lemma length_ascii_bytes: "list_all (\<lambda>c. c < 0x80) s \<Longrightarrow> length (string_bytes s) = length s"
  by (induction s) (simp_all add: string_bytes_def encode_utf8_def)

lemma search_byte_format: "search_byte (format_hex 2 (unat b)) = Ok b"
proof -
  have "length (string_bytes (format_hex 2 (unat b))) = 2"
    using length_ascii_bytes [of "format_hex 2 (unat b)"] format_hex_chars by (simp add: list_all_iff)
  moreover have "unat b < 256" using unsigned_less [of b, where 'a = nat] by simp
  then have "from_str_radix 16 255 (format_hex 2 (unat b)) = Some (unat b)"
    using from_str_radix_digits [of 16 2 "unat b" 255] by (simp add: format_hex_def)
  ultimately show ?thesis by (simp add: search_byte_def)
qed

lemma split_format_bytes: "split_whitespace (format_bytes bs) = map (\<lambda>b. format_hex 2 (unat b)) bs"
proof (induction bs rule: format_bytes.induct)
  have word: "format_hex 2 n \<noteq> []" "list_all (\<lambda>c. \<not> is_whitespace c) (format_hex 2 n)" for n
    using format_hex_chars by (auto simp: list_all_iff simp flip: length_0_conv)
  case (2 b)
  show ?case using split_whitespace_word [OF word] by simp
  case (3 b c cs)
  then show ?case using split_whitespace_space [OF word, of 32] by (simp add: is_whitespace_def)
qed simp

text \<open>A byte pattern written as two hexadecimal digits per byte, separated by blanks, is searched as
  exactly those bytes.\<close>

theorem byte_pattern_is_read_back:
  assumes "bytes \<noteq> []"
  shows "search_bytes (format_bytes bytes) = Ok bytes"
proof -
  have "collect_results (map (\<lambda>b. search_byte (format_hex 2 (unat b))) bs) = Ok bs" for bs
    by (induction bs) (simp_all add: search_byte_format)
  with assms show ?thesis by (simp add: search_bytes_def split_format_bytes comp_def)
qed

theorem byte_pattern_is_read_back_witness:
  "search_bytes (format_bytes [0xde, 0xad]) = Ok [0xde, 0xad]"
  by (rule byte_pattern_is_read_back) simp

text \<open>The parser of numbers takes a plus sign, so that one digit after it passes for a byte.\<close>

lemma signed_byte_is_accepted: "search_bytes (chars_of ''+a'') = Ok [10]"
proof -
  have "split_whitespace (chars_of ''+a'') = [chars_of ''+a'']"
    by (rule split_whitespace_word) (simp_all add: chars_of_def is_whitespace_def)
  moreover have "search_byte (chars_of ''+a'') = Ok 10"
    by (simp add: search_byte_def chars_of_def string_bytes_def encode_utf8_def from_str_radix_def to_digit_def)
  ultimately show ?thesis by (simp add: search_bytes_def)
qed

section \<open>Counts\<close>

definition type_chars :: "rust_string \<Rightarrow> motion_decoder \<Rightarrow> motion_decoder" where
  "type_chars cs d = fold (\<lambda>c d. fst (motion_push_char c d)) cs d"

lemma motion_push_digit:
  assumes "x \<le> 9" and "x \<noteq> 0 \<or> md_count d \<noteq> None"
  shows "motion_push_char (digit_char x) d =
    (d\<lparr>md_count := Some (min (count_or_0 d * 10 + x) usize_max)\<rparr>, DecodePending)"
  using assms by (auto simp: motion_push_char_def digit_char_def saturating_add_usize_def
      saturating_mul_usize_def usize_max_def)

lemma value_of_saturated:
  "min (value_of 10 ds (min n m)) m = min (value_of 10 ds n) m"
proof (induction ds arbitrary: n)
  case (Cons d ds)
  have "min (min n m * 10 + d) m = min (n * 10 + d) m" by (simp add: min_def)
  then show ?case using Cons.IH [of "min n m * 10 + d"] Cons.IH [of "n * 10 + d"] by simp
qed simp

lemma type_digits:
  assumes "list_all (\<lambda>x. x \<le> 9) ds" and "md_count d = Some (min n usize_max)"
  shows "type_chars (map digit_char ds) d = d\<lparr>md_count := Some (min (value_of 10 ds n) usize_max)\<rparr>"
  using assms
proof (induction ds arbitrary: d n)
  case (Cons x ds)
  have "min (min n usize_max * 10 + x) usize_max = min (n * 10 + x) usize_max" by (simp add: min_def)
  with Cons.prems have "fst (motion_push_char (digit_char x) d) = d\<lparr>md_count := Some (min (n * 10 + x) usize_max)\<rparr>"
    by (subst motion_push_digit) (simp_all add: count_or_0_def)
  with Cons.IH [of "fst (motion_push_char (digit_char x) d)" "n * 10 + x"] Cons.prems show ?case
    by (simp add: type_chars_def)
qed (simp add: type_chars_def)

text \<open>Digits typed before a motion key are its count: their decimal value, saturated at the greatest
  \<open>usize\<close>; the first digit is not zero. The decoder is then as at the start.\<close>

theorem typed_count_reaches_motion:
  assumes "x \<noteq> 0" and "list_all (\<lambda>x. x \<le> 9) (x # ds)"
  shows "motion_push (Key CHR ''j'') (type_chars (map digit_char (x # ds)) motion_decoder_default)
    = (motion_decoder_default, DecodeMotion (MoveDown (min (value_of 10 (x # ds) 0) usize_max)))"
proof -
  let ?d = "motion_decoder_default\<lparr>md_count := Some (min x usize_max)\<rparr>"
  have "fst (motion_push_char (digit_char x) motion_decoder_default) = ?d"
    using assms by (subst motion_push_digit) (simp_all add: count_or_0_def motion_decoder_default_def)
  moreover have "type_chars (map digit_char ds) ?d = ?d\<lparr>md_count := Some (min (value_of 10 ds x) usize_max)\<rparr>"
    using assms(2) by (intro type_digits) simp_all
  ultimately have "type_chars (map digit_char (x # ds)) motion_decoder_default =
      motion_decoder_default\<lparr>md_count := Some (min (value_of 10 ds x) usize_max)\<rparr>"
    by (simp add: type_chars_def)
  then show ?thesis
    by (simp add: motion_push_char_def counted_def take_count_def motion_decoder_default_def)
qed

theorem typed_count_reaches_motion_witness:
  "motion_push (Key CHR ''j'') (type_chars (chars_of ''12'') motion_decoder_default)
    = (motion_decoder_default, DecodeMotion (MoveDown 12))"
  using typed_count_reaches_motion [of 1 "[2]"]
  by (simp add: chars_of_def digit_char_def usize_max_def)

section \<open>The router\<close>

text \<open>\<open>unreachable!\<close> is not reached.\<close>

lemma router_total: "\<exists>r' actions. router_route event focused r = Some (r', actions)"
proof -
  have "\<exists>r' actions. route_key key focused r = Some (r', actions)" for key
    by (cases "ir_mode r"; cases "ke_code key")
       (simp_all add: route_key_def route_text_def submit_text_def Let_def split: sum.split)
  then show ?thesis by (cases event) auto
qed



text \<open>Keys pressed one after another, in one mode.\<close>

fun route_keys :: "key_code list \<Rightarrow> widget_id \<Rightarrow> input_router \<Rightarrow> (input_router \<times> action list) option" where
  "route_keys [] focused r = Some (r, [])"
| "route_keys (code # codes) focused r =
     (case router_route (EventKey \<lparr>ke_code = code, ke_control = False\<rparr> True) focused r of
        None \<Rightarrow> None
      | Some (r, actions) \<Rightarrow>
          map_option (\<lambda>(r, more). (r, actions @ more)) (route_keys codes focused r))"

definition text_modes :: "input_mode list" where
  "text_modes = [CommandMode, SearchAsciiMode, SearchBytesMode, GotoMode]"

text \<open>In a text mode, what is typed is what is submitted: the characters after the mode was entered,
  then Enter, give the actions of the mode's parser on exactly that text (or its error as a message),
  and then the return to normal mode, with an empty buffer.\<close>

theorem typed_text_is_submitted:
  assumes "mode \<in> set text_modes"
  shows "\<exists>result r'. submit_text mode input focused = Some result
    \<and> route_keys (map KeyChar input @ [KeyEnter]) focused (router_set_mode mode r)
      = Some (r', (case result of Inr actions \<Rightarrow> actions | Inl error \<Rightarrow> [ActShowMessage (message_error error)])
                  @ [ActSetMode NormalMode])
    \<and> ir_mode r' = mode \<and> ir_buffer r' = []"
proof -
  from assms obtain result where submit: "submit_text mode input focused = Some result"
    by (auto simp: text_modes_def submit_text_def Let_def)
  have step: "route_key \<lparr>ke_code = code, ke_control = False\<rparr> focused r
      = route_text \<lparr>ke_code = code, ke_control = False\<rparr> focused r" if "ir_mode r = mode" for code r
    using assms that by (auto simp: text_modes_def route_key_def)
  have "route_keys (map KeyChar cs @ [KeyEnter]) focused r
      = route_keys [KeyEnter] focused (r\<lparr>ir_buffer := ir_buffer r @ cs\<rparr>)" if "ir_mode r = mode" for cs r
    using that
  proof (induction cs arbitrary: r)
    case (Cons c cs)
    from Cons.IH [of "r\<lparr>ir_buffer := ir_buffer r @ [c]\<rparr>"] Cons.prems show ?case
      by (simp add: step route_text_def) (simp add: option.map_comp comp_def split_def option.map_ident option.map_id)
  qed simp
  from this [of "router_set_mode mode r" input] submit show ?thesis
    by (simp add: step route_text_def router_set_mode_def)
qed

theorem typed_text_is_submitted_witness:
  "\<exists>r'. route_keys (map KeyChar (chars_of ''q'') @ [KeyEnter]) ConsoleId
      (router_set_mode CommandMode input_router_default) = Some (r', [ActQuit, ActSetMode NormalMode])"
proof -
  have "split_whitespace (chars_of ''q'') = [chars_of ''q'']"
    by (rule split_whitespace_word) (simp_all add: chars_of_def is_whitespace_def)
  then have "submit_text CommandMode (chars_of ''q'') ConsoleId = Some (Ok [ActQuit])"
    by (simp add: submit_text_def parse_command_def parse_named_def is_word_def)
  with typed_text_is_submitted [of CommandMode "chars_of ''q''" ConsoleId input_router_default]
  show ?thesis by (auto simp: text_modes_def)
qed

end
