(* ===== verification/Tui_Panes.thy ===== *)
theory Tui_Panes
  imports Tui_Input
begin

text \<open>
  The other panes of the terminal interface and its layout: the dialog with its wrapped messages
  (\<open>widgets/dialog.rs\<close>), events (\<open>widgets/events.rs\<close>), the header's status and tabs
  (\<open>widgets/header.rs\<close>), registers and peripherals (\<open>widgets/secondary.rs\<close>) and the split panes
  (\<open>layout.rs\<close>). The terminal library is the record \<open>terminal_lib\<close> of the three functions that the
  code calls outside drawing.
\<close>

section \<open>The terminal library\<close>

record rect =
  re_x :: u16
  re_y :: u16
  re_width :: u16
  re_height :: u16

datatype direction = Horizontal | Vertical

datatype constraint = CoLength u16 | CoMin u16 | CoPercentage u16

record terminal_lib =
  tl_split :: "direction \<Rightarrow> constraint list \<Rightarrow> rect \<Rightarrow> rect list"
  tl_inner_top :: "rect \<Rightarrow> rect"
  tl_char_width :: "rust_char \<Rightarrow> usize option"

definition saturating_sub_u16 :: "u16 \<Rightarrow> u16 \<Rightarrow> u16" where
  "saturating_sub_u16 a b = (if b \<le> a then a - b else 0)"

definition saturating_add_u16 :: "u16 \<Rightarrow> u16 \<Rightarrow> u16" where
  "saturating_add_u16 a b = (if a \<le> a + b then a + b else 0xffff)"

definition saturating_mul_u16 :: "u16 \<Rightarrow> u16 \<Rightarrow> u16" where
  "saturating_mul_u16 a b = (if unat a * unat b < 2 ^ 16 then a * b else 0xffff)"

section \<open>The dialog\<close>

record dialog_widget =
  di_messages :: "dialog_message list"
  di_from_bottom :: usize
  di_capacity :: usize

definition dialog_widget_default :: dialog_widget where
  "dialog_widget_default = \<lparr>di_messages = [], di_from_bottom = 0, di_capacity = 256\<rparr>"

definition push_message :: "dialog_message \<Rightarrow> dialog_widget \<Rightarrow> dialog_widget" where
  "push_message message w =
     w\<lparr>di_messages := push_bounded (di_capacity w) message (di_messages w), di_from_bottom := 0\<rparr>"

text \<open>The loop of \<open>hard_wrap\<close>: the finished lines, the current line and its width.\<close>

definition char_width :: "terminal_lib \<Rightarrow> rust_char \<Rightarrow> usize" where
  "char_width lib c = (case tl_char_width lib c of Some n \<Rightarrow> n | None \<Rightarrow> 0)"

fun wrap_chars ::
  "terminal_lib \<Rightarrow> usize \<Rightarrow> rust_string \<Rightarrow> rust_string list \<Rightarrow> rust_string \<Rightarrow> usize \<Rightarrow> rust_string list" where
  "wrap_chars lib width [] lines line line_width =
     (if line \<noteq> [] \<or> lines = [] then lines @ [line] else lines)"
| "wrap_chars lib width (c # cs) lines line line_width =
     (if line \<noteq> [] \<and> line_width + char_width lib c > width
      then wrap_chars lib width cs (lines @ [line]) [c] (char_width lib c)
      else wrap_chars lib width cs lines (line @ [c]) (line_width + char_width lib c))"

definition hard_wrap :: "terminal_lib \<Rightarrow> rust_string \<Rightarrow> usize \<Rightarrow> rust_string list" where
  "hard_wrap lib value width = wrap_chars lib (max width 1) value [] [] 0"

text \<open>\<open>str::lines\<close>: split at line feeds, without a last empty line and without carriage returns.\<close>

definition strip_cr :: "rust_string \<Rightarrow> rust_string" where
  "strip_cr s = (if s \<noteq> [] \<and> last s = 13 then butlast s else s)"

fun split_lines :: "rust_string \<Rightarrow> rust_string \<Rightarrow> rust_string list" where
  "split_lines current [] = (if current = [] then [] else [current])"
| "split_lines current (c # cs) =
     (if c = 10 then strip_cr current # split_lines [] cs else split_lines (current @ [c]) cs)"

definition string_lines :: "rust_string \<Rightarrow> rust_string list" where
  "string_lines s = split_lines [] s"

text \<open>The text of a message is given by \<open>show_text\<close>, which stands for the formatting of values.\<close>

definition message_lines ::
  "terminal_lib \<Rightarrow> (message_text \<Rightarrow> rust_string) \<Rightarrow> usize \<Rightarrow> dialog_message \<Rightarrow> (dialog_level \<times> rust_string) list" where
  "message_lines lib show_text width message =
     concat (map (\<lambda>(index, line).
         map (\<lambda>l. (dm_level message, l))
           (hard_wrap lib (chars_of (if index = 0 then ''> '' else ''  '') @ line) width))
       (enumerate 0 (string_lines (show_text (dm_text message)))))"

definition dialog_lines ::
  "terminal_lib \<Rightarrow> (message_text \<Rightarrow> rust_string) \<Rightarrow> usize \<Rightarrow> dialog_widget \<Rightarrow> (dialog_level \<times> rust_string) list" where
  "dialog_lines lib show_text width w = concat (map (message_lines lib show_text width) (di_messages w))"

definition dialog_update :: "app_event \<Rightarrow> dialog_widget \<Rightarrow> dialog_widget" where
  "dialog_update event w =
     (case event of
        EvDialog message \<Rightarrow> push_message message w
      | EvInspection (InspectedTranslation virtual physical) \<Rightarrow>
          push_message (message_info (TextTranslation (va_get virtual) (pa_get physical))) w
      | EvNavigate m \<Rightarrow> w\<lparr>di_from_bottom := nav_scroll m (di_from_bottom w)\<rparr>
      | _ \<Rightarrow> w)"

section \<open>Events\<close>

record events_widget =
  ew_events :: "observable_event list"
  ew_from_bottom :: usize
  ew_active :: bool

definition events_widget_default :: events_widget where
  "events_widget_default = \<lparr>ew_events = [], ew_from_bottom = 0, ew_active = False\<rparr>"

definition events_update :: "app_event \<Rightarrow> events_widget \<Rightarrow> events_widget \<times> action list" where
  "events_update event w =
     (case event of
        EvInspection (InspectedEvents events) \<Rightarrow> (w\<lparr>ew_events := events\<rparr>, [])
      | EvViewChanged view \<Rightarrow> (w\<lparr>ew_active := view = RuntimeView\<rparr>, [])
      | EvPulse \<Rightarrow> (w, if ew_active w then [ActRequestInspection EventsId (RequestMachine InspectEvents)] else [])
      | EvNavigate m \<Rightarrow> (w\<lparr>ew_from_bottom := nav_scroll m (ew_from_bottom w)\<rparr>, [])
      | _ \<Rightarrow> (w, []))"

section \<open>The header\<close>

definition header_update :: "app_event \<Rightarrow> runtime_status option \<Rightarrow> runtime_status option" where
  "header_update event status = (case event of EvStatus s \<Rightarrow> Some s | _ \<Rightarrow> status)"

definition view_at :: "terminal_lib \<Rightarrow> rect \<Rightarrow> u16 \<Rightarrow> u16 \<Rightarrow> view option" where
  "view_at lib area column row =
     (let inside = tl_inner_top lib area in
      if row < re_y inside \<or> row \<ge> saturating_add_u16 (re_y inside) (re_height inside) then None
      else if column < re_x inside then None
      else (let offset = column - re_x inside in
        if offset \<le> 10 then Some RuntimeView
        else if 12 \<le> offset \<and> offset \<le> 22 then Some InspectView else None))"

section \<open>Registers and peripherals\<close>

definition REGISTER_COUNT :: usize where
  "REGISTER_COUNT = 18"

record secondary_widget =
  se_subview :: secondary_subview
  se_execution :: "execution_inspection option"
  se_peripherals :: "peripherals_inspection option"
  se_mmu :: "mmu_inspection option"
  se_rows :: "usize list"
  se_max_rows :: "usize list"
  se_active :: bool

definition secondary_widget_default :: secondary_widget where
  "secondary_widget_default =
     \<lparr>se_subview = RegistersView, se_execution = None, se_peripherals = None, se_mmu = None,
      se_rows = [0, 0, 0, 0], se_max_rows = [REGISTER_COUNT - 1, 0, 0, 0], se_active = False\<rparr>"

definition secondary_refresh :: "secondary_widget \<Rightarrow> action list" where
  "secondary_refresh w =
     (let request = ActRequestInspection SecondaryId in
      case se_subview w of
        RegistersView \<Rightarrow> [request (RequestExecution None 0 4)]
      | SystemView \<Rightarrow> [request (RequestMachine InspectMmu)]
      | PeripheralsView \<Rightarrow> [request (RequestMachine InspectPeripherals)]
      | PendingView \<Rightarrow> [request (RequestMachine InspectMmu), request (RequestMachine InspectPeripherals)])"

text \<open>\<open>to_ascii_lowercase\<close>.\<close>

definition ascii_lowercase :: "rust_string \<Rightarrow> rust_string" where
  "ascii_lowercase s = map (\<lambda>c. if 65 \<le> c \<and> c \<le> 90 then c + 32 else c) s"

definition register_row :: "rust_string \<Rightarrow> usize option" where
  "register_row value =
     (let name = ascii_lowercase value in
      if name = chars_of ''pc'' then Some 0
      else if name = chars_of ''lr'' then Some 1
      else if name = chars_of ''sp'' then Some 2
      else if name \<noteq> [] \<and> hd name = of_char CHR ''r'' then
        (case from_str_radix 10 usize_max (tl name) of
           Some n \<Rightarrow> if n \<ge> 13 then None else Some (n + 3)
         | None \<Rightarrow> None)
      else if name = chars_of ''cpsr'' then Some 16
      else if name = chars_of ''spsr'' then Some 17
      else None)"

definition goto_register :: "rust_string \<Rightarrow> secondary_widget \<Rightarrow> secondary_widget \<times> action list" where
  "goto_register value w =
     (case register_row value of
        Some row \<Rightarrow> (w\<lparr>se_rows := (se_rows w)[secondary_index RegistersView := row]\<rparr>, [])
      | None \<Rightarrow> (w, [ActShowMessage (message_error (Literal ''unknown register''))]))"

definition secondary_handle_key :: "key_event \<Rightarrow> input_mode \<Rightarrow> secondary_widget \<Rightarrow> action list" where
  "secondary_handle_key key mode w =
     (if mode \<noteq> NormalMode then []
      else if ke_code key = KeyTab then [ActSetSecondary (secondary_next (se_subview w))]
      else if ke_code key = Key CHR ''>'' \<and> se_subview w = RegistersView then [ActSetMode GotoMode]
      else [])"

text \<open>\<open>content_length\<close> is the number of lines of the shown text.\<close>

definition secondary_clamp :: "usize \<Rightarrow> u16 \<Rightarrow> secondary_widget \<Rightarrow> secondary_widget" where
  "secondary_clamp content_length height w =
     (let header = (if se_subview w = RegistersView then 1 else 0);
          viewport = max (unat height - 2 - header) 1;
          index = secondary_index (se_subview w);
          maximum = content_length - viewport
      in w\<lparr>se_max_rows := (se_max_rows w)[index := maximum],
           se_rows := (se_rows w)[index := min (se_rows w ! index) maximum]\<rparr>)"

definition secondary_navigate :: "motion \<Rightarrow> secondary_widget \<Rightarrow> secondary_widget" where
  "secondary_navigate m w =
     (let index = secondary_index (se_subview w);
          row = se_rows w ! index;
          maximum = se_max_rows w ! index;
          (row, count) = (case m of
              MoveUp count \<Rightarrow> (row - count, 0)
            | MoveLeft count \<Rightarrow> (row - count, 0)
            | MoveDown count \<Rightarrow> (row, count)
            | MoveRight count \<Rightarrow> (row, count)
            | MoveNextItem count \<Rightarrow> (row, count)
            | MoveEndItem count \<Rightarrow> (row, count)
            | MoveTop \<Rightarrow> (0, 0)
            | MoveBottom \<Rightarrow> (maximum, 0))
      in w\<lparr>se_rows := (se_rows w)[index := min (saturating_add_usize row count) maximum]\<rparr>)"

definition secondary_update :: "app_event \<Rightarrow> secondary_widget \<Rightarrow> secondary_widget \<times> action list" where
  "secondary_update event w =
     (case event of
        EvInspection (InspectedExecution execution) \<Rightarrow> (w\<lparr>se_execution := Some execution\<rparr>, [])
      | EvInspection (InspectedPeripherals peripherals) \<Rightarrow> (w\<lparr>se_peripherals := Some peripherals\<rparr>, [])
      | EvInspection (InspectedMmu mmu) \<Rightarrow> (w\<lparr>se_mmu := Some mmu\<rparr>, [])
      | EvViewChanged view \<Rightarrow>
          (w\<lparr>se_active := view = InspectView\<rparr>, if view = InspectView then [ActRefresh SecondaryId] else [])
      | EvRefresh \<Rightarrow> (w, if se_active w then secondary_refresh w else [])
      | EvSecondarySelected subview \<Rightarrow>
          (let w = w\<lparr>se_subview := subview\<rparr> in (w, if se_active w then secondary_refresh w else []))
      | EvNavigate m \<Rightarrow> (secondary_navigate m w, [])
      | EvGoto value \<Rightarrow> if se_subview w = RegistersView then goto_register value w else (w, [])
      | _ \<Rightarrow> (w, []))"

section \<open>The layout\<close>

record split_layout =
  sl_runtime_main :: u16
  sl_inspect_main :: u16

definition split_layout_default :: split_layout where
  "split_layout_default = \<lparr>sl_runtime_main = 65, sl_inspect_main = 65\<rparr>"

definition layout_resize :: "split_id \<Rightarrow> u16 \<Rightarrow> split_layout \<Rightarrow> split_layout" where
  "layout_resize split percent l =
     (let percent = max 25 (min percent 80)
      in case split of
        RuntimeMain \<Rightarrow> l\<lparr>sl_runtime_main := percent\<rparr>
      | InspectMain \<Rightarrow> l\<lparr>sl_inspect_main := percent\<rparr>)"

definition layout_percent :: "split_layout \<Rightarrow> view \<Rightarrow> u16" where
  "layout_percent l view = (case view of RuntimeView \<Rightarrow> sl_runtime_main l | InspectView \<Rightarrow> sl_inspect_main l)"

definition split_column :: "split_layout \<Rightarrow> rect \<Rightarrow> view \<Rightarrow> u16" where
  "split_column l area view = re_x area + saturating_mul_u16 (re_width area) (layout_percent l view) div 100"

definition centered :: "terminal_lib \<Rightarrow> rect \<Rightarrow> u16 \<Rightarrow> u16 \<Rightarrow> rect option" where
  "centered lib area width_percent maximum_height =
     (let height = min maximum_height (saturating_sub_u16 (re_height area) 2);
          vertical = area\<lparr>re_y := re_y area + saturating_sub_u16 (re_height area) height div 2, re_height := height\<rparr>;
          side = CoPercentage ((100 - width_percent) div 2);
          parts = tl_split lib Horizontal [side, CoPercentage width_percent, side] vertical
      in if 1 < length parts then Some (parts ! 1) else None)"

text \<open>The pane that a terminal too small for a split shows.\<close>

fun compact_pane :: "view \<Rightarrow> widget_id \<Rightarrow> widget_id" where
  "compact_pane RuntimeView EventsId = EventsId"
| "compact_pane RuntimeView DialogId = DialogId"
| "compact_pane RuntimeView _ = ConsoleId"
| "compact_pane InspectView SecondaryId = SecondaryId"
| "compact_pane InspectView DialogId = DialogId"
| "compact_pane InspectView _ = PrimaryId"

text \<open>The areas of the visible widgets; an index out of a split is a panic.\<close>

definition layout_areas ::
  "terminal_lib \<Rightarrow> split_layout \<Rightarrow> rect \<Rightarrow> view \<Rightarrow> widget_id \<Rightarrow> (widget_id \<rightharpoonup> rect) option" where
  "layout_areas lib l area view focused =
     (let rows = tl_split lib Vertical [CoLength 2, CoMin 4, CoLength 1, CoLength 1] area in
      case centered lib area 90 34 of
        None \<Rightarrow> None
      | Some help \<Rightarrow>
          if length rows < 4 then None else
          (let fixed = [HeaderId \<mapsto> rows ! 0, InputBarId \<mapsto> rows ! 2, HintsId \<mapsto> rows ! 3, HelpId \<mapsto> help] in
           if re_width (rows ! 1) < 70 \<or> re_height (rows ! 1) < 12
           then Some (fixed(compact_pane view focused \<mapsto> rows ! 1))
           else
             (let percent = layout_percent l view;
                  columns = tl_split lib Horizontal [CoPercentage percent, CoPercentage (100 - percent)] (rows ! 1)
              in if length columns < 2 then None else
                (let right = tl_split lib Vertical [CoPercentage 45, CoPercentage 55] (columns ! 1) in
                 if length right < 2 then None else
                 Some (case view of
                   RuntimeView \<Rightarrow> fixed(ConsoleId \<mapsto> columns ! 0, EventsId \<mapsto> right ! 0, DialogId \<mapsto> right ! 1)
                 | InspectView \<Rightarrow> fixed(PrimaryId \<mapsto> columns ! 0, SecondaryId \<mapsto> right ! 0, DialogId \<mapsto> right ! 1))))))"

definition rect_contains :: "rect \<Rightarrow> u16 \<Rightarrow> u16 \<Rightarrow> bool" where
  "rect_contains area column row \<longleftrightarrow>
     column \<ge> re_x area \<and> column < saturating_add_u16 (re_x area) (re_width area)
     \<and> row \<ge> re_y area \<and> row < saturating_add_u16 (re_y area) (re_height area)"

definition focus_at ::
  "terminal_lib \<Rightarrow> split_layout \<Rightarrow> rect \<Rightarrow> view \<Rightarrow> widget_id \<Rightarrow> u16 \<Rightarrow> u16 \<Rightarrow> widget_id option option" where
  "focus_at lib l area view focused column row =
     map_option (\<lambda>areas.
       find (\<lambda>target. case areas target of Some a \<Rightarrow> rect_contains a column row | None \<Rightarrow> False)
         [ConsoleId, EventsId, PrimaryId, SecondaryId, DialogId])
       (layout_areas lib l area view focused)"


section \<open>Wrapping loses nothing\<close>

definition text_width :: "terminal_lib \<Rightarrow> rust_string \<Rightarrow> usize" where
  "text_width lib s = sum_list (map (char_width lib) s)"

definition fits :: "terminal_lib \<Rightarrow> usize \<Rightarrow> rust_string \<Rightarrow> bool" where
  "fits lib width line \<longleftrightarrow> length line \<le> 1 \<or> text_width lib line \<le> width"

lemma text_width_simps [simp]:
  "text_width lib [] = 0" "text_width lib [c] = char_width lib c"
  "text_width lib (line @ [c]) = text_width lib line + char_width lib c"
  by (simp_all add: text_width_def)

lemma fits_simps [simp]:
  "fits lib width []" "fits lib width [c]"
  "fits lib width (line @ [c]) \<longleftrightarrow> line = [] \<or> text_width lib line + char_width lib c \<le> width"
  by (auto simp: fits_def)

lemma wrap_chars_keeps:
  "concat (wrap_chars lib width cs lines line n) = concat lines @ line @ cs"
  by (induction cs arbitrary: lines line n) auto

lemma wrap_chars_fits:
  assumes "list_all (fits lib width) lines" and "fits lib width line" and "n = text_width lib line"
  shows "list_all (fits lib width) (wrap_chars lib width cs lines line n)"
  using assms
proof (induction cs arbitrary: lines line n)
  case (Cons c cs)
  show ?case
  proof (cases "line \<noteq> [] \<and> n + char_width lib c > width")
    case True
    with Cons.IH [of "lines @ [line]" "[c]" "char_width lib c"] Cons.prems show ?thesis by simp
  next
    case False
    then have "fits lib width (line @ [c])" using Cons.prems(3) by auto
    with Cons.IH [of lines "line @ [c]" "n + char_width lib c"] Cons.prems False show ?thesis by auto
  qed
qed simp

lemma wrap_chars_nonempty: "wrap_chars lib width cs lines line n \<noteq> []"
  by (induction cs arbitrary: lines line n) auto

text \<open>Wrapping a message for the dialog loses and adds no character, gives at least one line, and no
  line is wider than the pane, except a single character that is itself too wide.\<close>

theorem hard_wrap_keeps_text:
  "concat (hard_wrap lib value width) = value
   \<and> hard_wrap lib value width \<noteq> []
   \<and> list_all (fits lib (max width 1)) (hard_wrap lib value width)"
  by (simp add: hard_wrap_def wrap_chars_keeps wrap_chars_nonempty wrap_chars_fits)

section \<open>The dialog keeps the latest messages\<close>

interpretation dialog: bounded_history "\<lambda>m ms. push_bounded 256 m ms" "\<lambda>ms. ms" "\<lambda>_. 256"
  by unfold_locales simp_all

definition dialog_ok :: "dialog_widget \<Rightarrow> bool" where
  "dialog_ok w \<longleftrightarrow> di_capacity w = 256 \<and> length (di_messages w) \<le> 256"

lemma dialog_ok_default [simp]: "dialog_ok dialog_widget_default"
  by (simp add: dialog_ok_def dialog_widget_default_def)

lemma dialog_shows_latest:
  assumes "dialog_ok w"
  shows "di_messages (fold (\<lambda>m. dialog_update (EvDialog m)) ms w) = last_n 256 (di_messages w @ ms)"
proof -
  have "di_messages (fold (\<lambda>m. dialog_update (EvDialog m)) ms w) = fold (push_bounded 256) ms (di_messages w)"
    if "di_capacity w = 256" for w
    using that by (induction ms arbitrary: w) (simp_all add: dialog_update_def push_message_def)
  with assms dialog.push_all [of "di_messages w" ms] show ?thesis by (simp add: dialog_ok_def)
qed

lemma push_message_ok: "dialog_ok w \<Longrightarrow> dialog_ok (push_message m w)"
  using push_bounded_le [of 256 "di_messages w" m] by (simp add: dialog_ok_def push_message_def)

lemma dialog_update_ok: "dialog_ok w \<Longrightarrow> dialog_ok (dialog_update event w)"
  by (auto simp: dialog_update_def push_message_ok split: app_event.split runtime_inspection.split)
     (simp add: dialog_ok_def)

section \<open>Rows of the secondary pane\<close>

definition secondary_ok :: "secondary_widget \<Rightarrow> bool" where
  "secondary_ok w \<longleftrightarrow> length (se_rows w) = 4 \<and> length (se_max_rows w) = 4"

lemma secondary_index_less: "secondary_index v < 4"
  by (cases v) simp_all

lemma secondary_ok_default [simp]: "secondary_ok secondary_widget_default"
  by (simp add: secondary_ok_def secondary_widget_default_def)

lemma secondary_update_ok: "secondary_ok w \<Longrightarrow> secondary_ok (fst (secondary_update event w))"
  by (auto simp: secondary_update_def secondary_ok_def goto_register_def secondary_navigate_def Let_def
      split: app_event.split runtime_inspection.split option.split prod.split)

text \<open>Registers are found by the names under which they are listed: \<open>pc\<close>, \<open>lr\<close>, \<open>sp\<close>, then \<open>r0\<close> to \<open>r12\<close>,
  \<open>cpsr\<close> and \<open>spsr\<close>.\<close>

lemma register_row_numbered:
  assumes "n < 13"
  shows "register_row (of_char CHR ''r'' # map digit_char (digits 10 2 n)) = Some (n + 3)"
proof -
  let ?name = "of_char CHR ''r'' # map digit_char (digits 10 2 n)"
  have "map (\<lambda>c. if 65 \<le> c \<and> c \<le> 90 then c + 32 else c) (map digit_char ds) = map digit_char ds"
    if "list_all (\<lambda>d. d < 10) ds" for ds
    using that by (induction ds) (simp_all add: digit_char_def)
  from this [OF digits_below] have "ascii_lowercase ?name = ?name" by (simp add: ascii_lowercase_def)
  moreover have "from_str_radix 10 usize_max (map digit_char (digits 10 2 n)) = Some n"
    using assms from_str_radix_digits [of 10 2 n usize_max] by (simp add: usize_max_def)
  ultimately show ?thesis using assms by (simp add: register_row_def chars_of_def Let_def)
qed

section \<open>Layout\<close>

definition layout_ok :: "split_layout \<Rightarrow> bool" where
  "layout_ok l \<longleftrightarrow> 25 \<le> sl_runtime_main l \<and> sl_runtime_main l \<le> 80 \<and> 25 \<le> sl_inspect_main l \<and> sl_inspect_main l \<le> 80"

lemma layout_ok_default [simp]: "layout_ok split_layout_default"
  by (simp add: layout_ok_def split_layout_default_def)

lemma layout_resize_ok: "layout_ok l \<Longrightarrow> layout_ok (layout_resize split percent l)"
  by (cases split) (simp_all add: layout_ok_def layout_resize_def Let_def max_def min_def)

text \<open>The panes that can have the focus in a view.\<close>

definition visible_focus :: "view \<Rightarrow> widget_id \<Rightarrow> bool" where
  "visible_focus view target \<longleftrightarrow>
     (view = RuntimeView \<and> target \<in> {ConsoleId, EventsId, DialogId})
     \<or> (view = InspectView \<and> target \<in> {PrimaryId, SecondaryId, DialogId})"

lemma compact_pane_visible: "visible_focus view (compact_pane view focused)"
  by (cases view; cases focused) (simp_all add: visible_focus_def)

lemma layout_areas_visible:
  assumes "layout_areas lib l area view focused = Some areas" and "areas target = Some a"
    and "target \<in> {ConsoleId, EventsId, PrimaryId, SecondaryId, DialogId}"
  shows "visible_focus view target"
proof (cases "target = compact_pane view focused")
  case False
  with assms show ?thesis
    by (auto simp: layout_areas_def Let_def visible_focus_def split: option.splits if_splits view.splits)
qed (use compact_pane_visible in simp)

text \<open>A click gives the focus only to a pane that the current view shows, in the full and in the compact
  layout.\<close>

theorem click_focuses_visible_pane:
  assumes "focus_at lib l area view focused column row = Some (Some target)"
  shows "visible_focus view target
    \<and> (\<exists>areas a. layout_areas lib l area view focused = Some areas \<and> areas target = Some a
          \<and> rect_contains a column row)"
proof -
  from assms obtain areas where areas: "layout_areas lib l area view focused = Some areas"
    "find (\<lambda>target. case areas target of Some a \<Rightarrow> rect_contains a column row | None \<Rightarrow> False)
       [ConsoleId, EventsId, PrimaryId, SecondaryId, DialogId] = Some target"
    by (auto simp: focus_at_def)
  then have "target \<in> {ConsoleId, EventsId, PrimaryId, SecondaryId, DialogId}"
    "case areas target of Some a \<Rightarrow> rect_contains a column row | None \<Rightarrow> False"
    unfolding find_Some_iff by (auto simp: nth_Cons' split: if_splits)
  with areas(1) layout_areas_visible show ?thesis by (auto split: option.splits)
qed

text \<open>A terminal library for examples: a split gives each part the whole area.\<close>

definition sample_terminal :: terminal_lib where
  "sample_terminal = \<lparr>tl_split = (\<lambda>d cs a. map (\<lambda>_. a) cs), tl_inner_top = (\<lambda>a. a), tl_char_width = (\<lambda>c. Some 1)\<rparr>"

theorem click_focuses_visible_pane_witness:
  "visible_focus RuntimeView ConsoleId \<and> focus_at sample_terminal split_layout_default
     \<lparr>re_x = 0, re_y = 0, re_width = 60, re_height = 10\<rparr> RuntimeView ConsoleId 5 3 = Some (Some ConsoleId)"
proof -
  have "focus_at sample_terminal split_layout_default
     \<lparr>re_x = 0, re_y = 0, re_width = 60, re_height = 10\<rparr> RuntimeView ConsoleId 5 3 = Some (Some ConsoleId)"
    by (simp add: focus_at_def layout_areas_def centered_def sample_terminal_def Let_def rect_contains_def
        saturating_add_u16_def)
  with click_focuses_visible_pane [OF this] show ?thesis by simp
qed

end
