(* ===== verification/Tui_Memory.thy ===== *)
theory Tui_Memory
  imports Tui_Input
begin

text \<open>
  The primary pane of the inspect view (\<open>widgets/primary.rs\<close>): the linear reading of the ROMs and RAM,
  the cursors and windows of physical and virtual memory, the disassembly address, and what each key
  and event does. \<open>None\<close> is a panic (\<open>expect\<close> or division by zero). Drawing is left out.
\<close>

section \<open>The linear memory map\<close>

definition MEMORY_REGIONS :: "mem_region list" where
  "MEMORY_REGIONS = [BootRom, SystemRom, Ram]"

definition DEFAULT_MEMORY_WINDOW :: u32 where
  "DEFAULT_MEMORY_WINDOW = 256"

definition memory_map_size :: usize where
  "memory_map_size = sum_list (map (\<lambda>region. unat (mem_size region)) MEMORY_REGIONS)"

definition memory_region :: "physical_address \<Rightarrow> mem_region option" where
  "memory_region address = find (\<lambda>region. contains_address (mem_range region) address) MEMORY_REGIONS"

fun linear_offset_in :: "mem_region list \<Rightarrow> usize \<Rightarrow> physical_address \<Rightarrow> usize option" where
  "linear_offset_in [] offset address = None"
| "linear_offset_in (region # regions) offset address =
     (if contains_address (mem_range region) address
      then Some (offset + unat (pa_get address - pa_get (mem_base region)))
      else linear_offset_in regions (offset + unat (mem_size region)) address)"

definition memory_linear_offset :: "physical_address \<Rightarrow> usize option" where
  "memory_linear_offset address = linear_offset_in MEMORY_REGIONS 0 address"

fun address_in :: "mem_region list \<Rightarrow> usize \<Rightarrow> physical_address" where
  "address_in [] offset = PhysicalAddress (pa_get (mem_base Ram) + mem_size Ram - 1)"
| "address_in (region # regions) offset =
     (if offset < unat (mem_size region) then PhysicalAddress (pa_get (mem_base region) + of_nat offset)
      else address_in regions (offset - unat (mem_size region)))"

definition memory_address_at :: "usize \<Rightarrow> physical_address" where
  "memory_address_at offset = address_in MEMORY_REGIONS offset"

section \<open>The widget\<close>

record primary_widget =
  pw_subview :: primary_subview
  pw_memory_range :: physical_range
  pw_memory :: "u8 list"
  pw_memory_cursor :: physical_address
  pw_virtual_start :: virtual_address
  pw_virtual_memory :: "u8 list"
  pw_virtual_cursor :: virtual_address
  pw_virtual_initialized :: bool
  pw_memory_columns :: usize
  pw_memory_window :: u32
  pw_memory_dirty :: bool
  pw_virtual_dirty :: bool
  pw_execution :: "execution_inspection option"
  pw_disassembly_address :: "virtual_address option"
  pw_active :: bool

definition primary_widget_default :: primary_widget where
  "primary_widget_default =
     \<lparr>pw_subview = PhysicalMemoryView,
      pw_memory_range = \<lparr>pr_start = mem_base Ram, pr_length = DEFAULT_MEMORY_WINDOW\<rparr>,
      pw_memory = [], pw_memory_cursor = mem_base Ram, pw_virtual_start = VirtualAddress 0,
      pw_virtual_memory = [], pw_virtual_cursor = VirtualAddress 0, pw_virtual_initialized = False,
      pw_memory_columns = 8, pw_memory_window = DEFAULT_MEMORY_WINDOW, pw_memory_dirty = False,
      pw_virtual_dirty = False, pw_execution = None, pw_disassembly_address = None, pw_active = False\<rparr>"

definition primary_request :: "primary_widget \<Rightarrow> runtime_inspection_request" where
  "primary_request w =
     (case pw_subview w of
        PhysicalMemoryView \<Rightarrow> RequestLiveMemory (pw_memory_range w)
      | VirtualMemoryView \<Rightarrow>
          if pw_virtual_initialized w
          then RequestVirtualMemory (pw_virtual_start w) (unat (pw_memory_window w))
          else RequestExecution None 0 0
      | DisassemblyView \<Rightarrow>
          RequestExecution (pw_disassembly_address w)
            ((if pw_disassembly_address w = None then 1 else 0) * 32) 224)"

definition primary_refresh :: "primary_widget \<Rightarrow> action list" where
  "primary_refresh w = [ActRequestInspection PrimaryId (primary_request w)]"

section \<open>Windows\<close>

definition saturating_add_u32 :: "u32 \<Rightarrow> u32 \<Rightarrow> u32" where
  "saturating_add_u32 a b = (if a \<le> a + b then a + b else u32_max)"

definition saturating_mul_u32 :: "u32 \<Rightarrow> u32 \<Rightarrow> u32" where
  "saturating_mul_u32 a b = (if unat a * unat b < 2 ^ 32 then a * b else u32_max)"

definition ensure_cursor_visible :: "primary_widget \<Rightarrow> primary_widget option" where
  "ensure_cursor_visible w =
     (let columns = of_nat (pw_memory_columns w) :: u32 in
      case memory_region (pw_memory_cursor w) of
        None \<Rightarrow> None
      | Some region \<Rightarrow>
          if columns = 0 then None else
          (let base = pa_get (mem_base region);
               window = min (pw_memory_window w) (mem_size region);
               last_start = base + mem_size region - window;
               cursor = pa_get (pw_memory_cursor w);
               current_start = pa_get (pr_start (pw_memory_range w));
               current_end = current_start + pr_length (pw_memory_range w);
               same_region = memory_region (pr_start (pw_memory_range w)) = Some region;
               start = (if same_region \<and> current_start \<le> cursor \<and> cursor < current_end
                        then min current_start last_start
                        else if cursor < current_start \<or> \<not> same_region
                        then min (cursor - (cursor - base) mod columns) last_start
                        else min (saturating_sub_u32 cursor (window - columns)) last_start);
               start = base + (start - base) div columns * columns
           in case physical_range_new (PhysicalAddress start) window of
                Inl _ \<Rightarrow> None
              | Inr shown \<Rightarrow> Some (w\<lparr>pw_memory_range := shown\<rparr>)))"

definition ensure_virtual_cursor_visible :: "primary_widget \<Rightarrow> primary_widget option" where
  "ensure_virtual_cursor_visible w =
     (let columns = of_nat (pw_memory_columns w) :: u32 in
      if columns = 0 then None else
      (let window = pw_memory_window w;
           last_start = u32_max - saturating_sub_u32 window 1;
           cursor = va_get (pw_virtual_cursor w);
           current_start = va_get (pw_virtual_start w);
           current_end = (ucast current_start :: u64) + ucast window;
           start = (if (ucast current_start :: u64) \<le> ucast cursor \<and> ucast cursor < current_end
                    then min current_start last_start
                    else if cursor < current_start
                    then min (cursor - cursor mod columns) last_start
                    else min (saturating_sub_u32 cursor (window - columns)) last_start);
           start = start div columns * columns
       in Some (w\<lparr>pw_virtual_start := VirtualAddress start\<rparr>)))"

definition initialize_virtual_memory :: "u32 \<Rightarrow> primary_widget \<Rightarrow> primary_widget option" where
  "initialize_virtual_memory pc w =
     ensure_virtual_cursor_visible (w\<lparr>pw_virtual_cursor := VirtualAddress pc, pw_virtual_initialized := True\<rparr>)"

text \<open>The area of the pane, of which only the width and height are read.\<close>

definition update_memory_geometry :: "u16 \<Rightarrow> u16 \<Rightarrow> primary_widget \<Rightarrow> primary_widget option" where
  "update_memory_geometry width height w =
     (let columns = (if width \<ge> 46 then 8 else 4) :: usize;
          rows = max (if 4 \<le> height then height - 4 else 0) 1;
          window = (ucast rows :: u32) * of_nat columns
      in if pw_memory_columns w = columns \<and> pw_memory_window w = window then Some w
         else Option.bind (ensure_cursor_visible (w\<lparr>pw_memory_columns := columns, pw_memory_window := window\<rparr>)) (\<lambda>w.
              Option.bind (ensure_virtual_cursor_visible w) (\<lambda>w.
                Some (w\<lparr>pw_memory := [], pw_virtual_memory := [], pw_memory_dirty := True, pw_virtual_dirty := True\<rparr>))))"

section \<open>Navigation\<close>

fun motion_count :: "motion \<Rightarrow> usize" where
  "motion_count (MoveLeft count) = count"
| "motion_count (MoveDown count) = count"
| "motion_count (MoveUp count) = count"
| "motion_count (MoveRight count) = count"
| "motion_count (MoveNextItem count) = count"
| "motion_count (MoveEndItem count) = count"
| "motion_count MoveTop = 1"
| "motion_count MoveBottom = 1"

text \<open>The step of a motion in a memory view with the given columns.\<close>

definition motion_step :: "usize \<Rightarrow> motion \<Rightarrow> usize" where
  "motion_step columns m =
     (case m of
        MoveLeft _ \<Rightarrow> 1 | MoveRight _ \<Rightarrow> 1
      | MoveUp _ \<Rightarrow> columns | MoveDown _ \<Rightarrow> columns
      | MoveNextItem _ \<Rightarrow> 4 | MoveEndItem _ \<Rightarrow> 4
      | MoveTop \<Rightarrow> 0 | MoveBottom \<Rightarrow> 0)"

definition nav_physical_memory :: "motion \<Rightarrow> primary_widget \<Rightarrow> primary_widget option" where
  "nav_physical_memory m w =
     (let count = motion_count m;
          step = motion_step (pw_memory_columns w) m;
          current = (case memory_linear_offset (pw_memory_cursor w) of Some n \<Rightarrow> n | None \<Rightarrow> 0);
          maximum = memory_map_size - 1;
          back = current - saturating_mul_usize step count;
          forward = saturating_add_usize current (saturating_mul_usize step count);
          linear = min (case m of
              MoveTop \<Rightarrow> 0
            | MoveBottom \<Rightarrow> maximum
            | MoveLeft _ \<Rightarrow> back
            | MoveUp _ \<Rightarrow> back
            | MoveEndItem _ \<Rightarrow> current div 4 * 4 + 3
            | _ \<Rightarrow> forward) maximum
      in ensure_cursor_visible (w\<lparr>pw_memory_cursor := memory_address_at linear\<rparr>))"

definition nav_virtual_memory :: "motion \<Rightarrow> primary_widget \<Rightarrow> primary_widget option" where
  "nav_virtual_memory m w =
     (let count = of_nat (motion_count m) :: u32;
          step = of_nat (motion_step (pw_memory_columns w) m) :: u32;
          current = va_get (pw_virtual_cursor w);
          back = saturating_sub_u32 current (saturating_mul_u32 step count);
          forward = saturating_add_u32 current (saturating_mul_u32 step count);
          address = (case m of
              MoveTop \<Rightarrow> 0
            | MoveBottom \<Rightarrow> u32_max
            | MoveLeft _ \<Rightarrow> back
            | MoveUp _ \<Rightarrow> back
            | MoveEndItem _ \<Rightarrow> current div 4 * 4 + 3
            | _ \<Rightarrow> forward)
      in ensure_virtual_cursor_visible
           (w\<lparr>pw_virtual_initialized := True, pw_virtual_cursor := VirtualAddress address\<rparr>))"

text \<open>The product \<open>step * count\<close> wraps here (in a debug build it panics).\<close>

definition nav_disassembly :: "motion \<Rightarrow> primary_widget \<Rightarrow> primary_widget" where
  "nav_disassembly m w =
     (let current = (case pw_disassembly_address w of
                       Some address \<Rightarrow> va_get address
                     | None \<Rightarrow> (case pw_execution w of Some value \<Rightarrow> ei_registers value ! 15 | None \<Rightarrow> 0));
          count = of_nat (motion_count m) :: u32;
          step = (case m of
              MoveLeft _ \<Rightarrow> 1 | MoveRight _ \<Rightarrow> 1 | MoveTop \<Rightarrow> 0 | MoveBottom \<Rightarrow> 0 | _ \<Rightarrow> 4) :: u32;
          address = (case m of
              MoveTop \<Rightarrow> 0
            | MoveBottom \<Rightarrow> u32_max - 255
            | MoveLeft _ \<Rightarrow> saturating_sub_u32 current (step * count)
            | MoveUp _ \<Rightarrow> saturating_sub_u32 current (step * count)
            | _ \<Rightarrow> saturating_add_u32 current (step * count))
      in w\<lparr>pw_disassembly_address := Some (VirtualAddress (address AND NOT 3))\<rparr>)"

definition primary_goto :: "rust_string \<Rightarrow> primary_widget \<Rightarrow> (primary_widget \<times> action list) option" where
  "primary_goto value w =
     (case parse_hex_address value of
        Inl error \<Rightarrow> Some (w, [ActShowMessage (message_error error)])
      | Inr address \<Rightarrow>
          let refreshed = (\<lambda>w. (w, primary_refresh w)) in
          (case pw_subview w of
             PhysicalMemoryView \<Rightarrow>
               if memory_region (PhysicalAddress address) = None
               then Some (w, [ActShowMessage (message_error
                      (Literal ''address is outside Boot ROM, system ROM, and RAM''))])
               else map_option refreshed (ensure_cursor_visible (w\<lparr>pw_memory_cursor := PhysicalAddress address\<rparr>))
           | VirtualMemoryView \<Rightarrow>
               map_option refreshed (ensure_virtual_cursor_visible
                 (w\<lparr>pw_virtual_cursor := VirtualAddress address, pw_virtual_initialized := True\<rparr>))
           | DisassemblyView \<Rightarrow>
               Some (refreshed (w\<lparr>pw_disassembly_address := Some (VirtualAddress (address AND NOT 3))\<rparr>))))"

section \<open>Keys and events\<close>

definition primary_handle_key :: "key_event \<Rightarrow> input_mode \<Rightarrow> primary_widget \<Rightarrow> action list" where
  "primary_handle_key key mode w =
     (let code = ke_code key in
      if mode \<noteq> NormalMode then []
      else if code = KeyTab then [ActSetPrimary (primary_next (pw_subview w))]
      else if code = Key CHR ''/'' \<and> pw_subview w = PhysicalMemoryView then [ActSetMode SearchAsciiMode]
      else if code = Key CHR 0x5C \<and> pw_subview w = PhysicalMemoryView then [ActSetMode SearchBytesMode]
      else if code = Key CHR ''>'' then [ActSetMode GotoMode]
      else [])"

definition primary_update :: "app_event \<Rightarrow> primary_widget \<Rightarrow> (primary_widget \<times> action list) option" where
  "primary_update event w =
     (let refreshed = (\<lambda>w. (w, primary_refresh w)) in
      case event of
        EvInspection (InspectedLiveMemory area bytes) \<Rightarrow>
          Some (if area = pw_memory_range w then w\<lparr>pw_memory := bytes, pw_memory_dirty := False\<rparr> else w, [])
      | EvInspection (InspectedVirtualMemory address bytes) \<Rightarrow>
          Some (if address = pw_virtual_start w \<and> length bytes = unat (pw_memory_window w)
                then w\<lparr>pw_virtual_memory := bytes, pw_virtual_dirty := False\<rparr> else w, [])
      | EvInspection (InspectedExecution execution) \<Rightarrow>
          (let w = w\<lparr>pw_execution := Some execution\<rparr> in
           if pw_subview w = VirtualMemoryView \<and> \<not> pw_virtual_initialized w
           then map_option refreshed (initialize_virtual_memory (ei_registers execution ! 15) w)
           else Some (w, []))
      | EvInspectionFailed request error \<Rightarrow>
          Some (w, if request = primary_request w
                   then [ActShowMessage (message_error (TextRequestFailed request error))] else [])
      | EvInspection (InspectedSearch (Some address)) \<Rightarrow>
          map_option (\<lambda>w. (w, [ActSetPrimary PhysicalMemoryView,
              ActShowMessage (message_info (TextMatchAt (pa_get address))), ActRefresh PrimaryId]))
            (ensure_cursor_visible (w\<lparr>pw_memory_cursor := address\<rparr>))
      | EvInspection (InspectedSearch None) \<Rightarrow>
          Some (w, [ActShowMessage (message_info (Literal ''pattern not found in physical RAM''))])
      | EvViewChanged view \<Rightarrow>
          Some (w\<lparr>pw_active := view = InspectView\<rparr>,
            if view = InspectView then [ActRefresh PrimaryId] else [])
      | EvRefresh \<Rightarrow> Some (w, if pw_active w then primary_refresh w else [])
      | EvPulse \<Rightarrow>
          Some (if \<not> pw_active w then (w, [])
                else if pw_subview w = PhysicalMemoryView \<and> pw_memory_dirty w
                then refreshed (w\<lparr>pw_memory_dirty := False\<rparr>)
                else if pw_subview w = VirtualMemoryView \<and> pw_virtual_dirty w
                then refreshed (w\<lparr>pw_virtual_dirty := False\<rparr>)
                else (w, []))
      | EvPrimarySelected subview \<Rightarrow>
          (let w = w\<lparr>pw_subview := subview\<rparr>;
               selected = (if subview = VirtualMemoryView \<and> \<not> pw_virtual_initialized w then
                  (case pw_execution w of
                     Some value \<Rightarrow> initialize_virtual_memory (ei_registers value ! 15) w
                   | None \<Rightarrow> Some w) else Some w)
           in map_option (\<lambda>w. (w, if pw_active w then primary_refresh w else [])) selected)
      | EvNavigate m \<Rightarrow>
          map_option refreshed (case pw_subview w of
              PhysicalMemoryView \<Rightarrow> nav_physical_memory m w
            | VirtualMemoryView \<Rightarrow> nav_virtual_memory m w
            | DisassemblyView \<Rightarrow> Some (nav_disassembly m w))
      | EvGoto value \<Rightarrow> primary_goto value w
      | _ \<Rightarrow> Some (w, []))"


section \<open>The linear map is a bijection\<close>

lemma contains_region_iff:
  "contains_address (mem_range r) a \<longleftrightarrow> unat (pa_get (mem_base r)) \<le> unat (pa_get a)
     \<and> unat (pa_get a) < unat (pa_get (mem_base r)) + unat (mem_size r)"
  by (simp add: contains_address_iff mem_range_set)

lemma memory_region_Some:
  "memory_region a = Some r \<longleftrightarrow> r \<in> set MEMORY_REGIONS \<and> contains_address (mem_range r) a"
  by (cases r) (auto simp: memory_region_def MEMORY_REGIONS_def contains_region_iff mem_layout)

lemma memory_map_size_eq: "memory_map_size = 83951616"
  by (simp add: memory_map_size_def MEMORY_REGIONS_def mem_layout)

lemma unat_base_offset:
  "n < unat (mem_size r) \<Longrightarrow> unat (pa_get (mem_base r) + of_nat n) = unat (pa_get (mem_base r)) + n"
  by (cases r; simp add: unat_word_ariths unat_of_nat take_bit_nat_eq_self mem_layout)

lemma address_at_cases:
  assumes "n < memory_map_size"
  shows "\<exists>r k. r \<in> set MEMORY_REGIONS \<and> k < unat (mem_size r)
    \<and> memory_address_at n = PhysicalAddress (pa_get (mem_base r) + of_nat k)
    \<and> n = k + (case r of SystemRom \<Rightarrow> 0x10000 | Ram \<Rightarrow> 0x1010000 | _ \<Rightarrow> 0)"
proof -
  consider "n < 0x10000" | "0x10000 \<le> n" "n < 0x1010000" | "0x1010000 \<le> n" by linarith
  then show ?thesis
  proof cases
    case 1
    then show ?thesis
      by (intro exI [of _ BootRom] exI [of _ n]) (simp add: memory_address_at_def MEMORY_REGIONS_def mem_layout)
  next
    case 2
    then show ?thesis
      by (intro exI [of _ SystemRom] exI [of _ "n - 0x10000"])
        (simp add: memory_address_at_def MEMORY_REGIONS_def mem_layout less_diff_conv2)
  next
    case 3
    with assms show ?thesis
      by (intro exI [of _ Ram] exI [of _ "n - 0x1010000"])
        (simp add: memory_address_at_def MEMORY_REGIONS_def mem_layout memory_map_size_eq less_diff_conv2)
  qed
qed

lemma memory_region_address_at:
  assumes "n < memory_map_size"
  shows "\<exists>r. memory_region (memory_address_at n) = Some r"
  using address_at_cases [OF assms] by (auto simp: memory_region_Some contains_region_iff unat_base_offset)

lemma linear_offset_address_at:
  assumes "n < memory_map_size"
  shows "memory_linear_offset (memory_address_at n) = Some n"
proof -
  from address_at_cases [OF assms] obtain r k where
    at: "r \<in> set MEMORY_REGIONS" "k < unat (mem_size r)"
      "memory_address_at n = PhysicalAddress (pa_get (mem_base r) + of_nat k)"
      "n = k + (case r of SystemRom \<Rightarrow> 0x10000 | Ram \<Rightarrow> 0x1010000 | _ \<Rightarrow> 0)" by blast
  have "unat (of_nat k :: u32) = k"
    using at(2) unat_u32_lt [of "mem_size r"] by (simp add: unat_of_nat take_bit_nat_eq_self)
  with at show ?thesis
    by (auto simp: memory_linear_offset_def MEMORY_REGIONS_def contains_region_iff unat_base_offset mem_layout)
qed

lemma address_at_linear_offset:
  assumes "memory_linear_offset a = Some n"
  shows "n < memory_map_size \<and> memory_address_at n = a"
proof -
  have "unat (pa_get a - pa_get (mem_base r)) = unat (pa_get a) - unat (pa_get (mem_base r))"
    if "contains_address (mem_range r) a" for r
    using that by (intro unat_sub_le) (simp add: contains_region_iff word_nat)
  with assms have "\<exists>r \<in> set MEMORY_REGIONS. contains_address (mem_range r) a
      \<and> n = unat (pa_get a) - unat (pa_get (mem_base r)) + (case r of SystemRom \<Rightarrow> 0x10000 | Ram \<Rightarrow> 0x1010000 | _ \<Rightarrow> 0)"
    by (auto simp: memory_linear_offset_def MEMORY_REGIONS_def mem_layout split: if_splits)
  then obtain r where r: "r \<in> set MEMORY_REGIONS" "contains_address (mem_range r) a"
      "n = unat (pa_get a) - unat (pa_get (mem_base r)) + (case r of SystemRom \<Rightarrow> 0x10000 | Ram \<Rightarrow> 0x1010000 | _ \<Rightarrow> 0)"
    by blast
  then have "a = PhysicalAddress (pa_get (mem_base r) + of_nat (unat (pa_get a) - unat (pa_get (mem_base r))))"
    by (cases a) (simp add: contains_region_iff of_nat_diff)
  with r show ?thesis
    by (auto simp: memory_address_at_def MEMORY_REGIONS_def memory_map_size_eq contains_region_iff mem_layout)
qed

section \<open>Where a window is placed\<close>

text \<open>
  Both windows follow one rule on numbers: inside \<open>B ..< B + S\<close>, a window of \<open>W\<close> bytes in rows of \<open>cols\<close>
  that now starts at \<open>s\<close> (with \<open>len\<close> bytes shown, in the same region or not) for the cursor \<open>c\<close>.
\<close>

definition window_at :: "nat \<Rightarrow> nat \<Rightarrow> nat \<Rightarrow> nat \<Rightarrow> nat \<Rightarrow> nat \<Rightarrow> bool \<Rightarrow> nat \<Rightarrow> nat" where
  "window_at B S W cols s len same c =
     (let start = (if same \<and> s \<le> c \<and> c < s + len then min s (B + S - W)
                   else if c < s \<or> \<not> same then min (c - (c - B) mod cols) (B + S - W)
                   else min (c - (W - cols)) (B + S - W))
      in B + (start - B) div cols * cols)"

definition window_dims :: "nat \<Rightarrow> nat \<Rightarrow> nat \<Rightarrow> bool" where
  "window_dims S W cols \<longleftrightarrow> 0 < cols \<and> 0 < W \<and> W \<le> S \<and> cols dvd W \<and> cols dvd S"

lemma window_at_inside:
  assumes "window_dims S W cols" and "B \<le> c" and "c < B + S" and "same \<Longrightarrow> B \<le> s"
  shows "B \<le> window_at B S W cols s len same c" "window_at B S W cols s len same c + W \<le> B + S"
    "cols dvd window_at B S W cols s len same c - B"
proof -
  define start where "start = (if same \<and> s \<le> c \<and> c < s + len then min s (B + S - W)
                   else if c < s \<or> \<not> same then min (c - (c - B) mod cols) (B + S - W)
                   else min (c - (W - cols)) (B + S - W))"
  have eq: "window_at B S W cols s len same c = B + (start - B) div cols * cols"
    by (simp add: window_at_def start_def)
  have "start \<le> B + S - W" by (simp add: start_def)
  moreover have "(start - B) div cols * cols \<le> start - B" by simp
  moreover have "W \<le> S" using assms(1) by (simp add: window_dims_def)
  ultimately show "window_at B S W cols s len same c + W \<le> B + S" unfolding eq by linarith
  show "B \<le> window_at B S W cols s len same c" "cols dvd window_at B S W cols s len same c - B"
    unfolding eq by simp_all
qed

lemma div_mult_less: "0 < (k :: nat) \<Longrightarrow> n < n div k * k + k"
  using div_mult_mod_eq [of n k] mod_less_divisor [of k n] by linarith

lemma window_at_visible:
  assumes "window_dims S W cols" and "B \<le> c" and "c < B + S"
    and "same \<Longrightarrow> B \<le> s \<and> s + W \<le> B + S \<and> cols dvd s - B \<and> len = W"
  shows "window_at B S W cols s len same c \<le> c" "c < window_at B S W cols s len same c + W"
proof -
  have dims: "0 < cols" "W \<le> S" "cols \<le> W" "cols dvd S - W"
    using assms(1) by (auto simp: window_dims_def dvd_imp_le)
  have floor: "n div cols * cols = n" if "cols dvd n" for n using that by simp
  let ?last = "B + S - W"
  consider "same" "s \<le> c" "c < s + len" | "c < s \<or> \<not> same" | "same" "s + len \<le> c" by linarith
  then have "window_at B S W cols s len same c \<le> c \<and> c < window_at B S W cols s len same c + W"
  proof cases
    case 1
    with assms(4) dims(2) have "min s ?last = s" by (simp add: min_def) linarith
    with 1 assms(4) have "window_at B S W cols s len same c = s" by (simp add: window_at_def)
    with 1 assms(4) show ?thesis by simp
  next
    case 2
    define row where "row = c - (c - B) mod cols"
    have "row = B + (c - B) div cols * cols"
      unfolding row_def using assms(2) div_mult_mod_eq [of "c - B" cols] by linarith
    then have row: "B \<le> row" "row \<le> c" "c < row + cols" "cols dvd row - B"
      using div_mult_less [OF dims(1), of "c - B"] div_times_less_eq_dividend [of "c - B" cols] assms(2)
      by (simp_all add: row_def)
    have "window_at B S W cols s len same c = B + (min row ?last - B) div cols * cols"
      unfolding row_def using 2 by (auto simp: window_at_def Let_def)
    moreover have "cols dvd min row ?last - B" using row(4) dims(2,4) by (simp add: min_def)
    ultimately have "window_at B S W cols s len same c = min row ?last"
      using row(1) dims(2) by (simp add: min_def)
    with row dims(2,3) assms(3) show ?thesis by (auto simp: min_def)
  next
    case 3
    let ?start = "min (c - (W - cols)) ?last"
    have c: "B + W \<le> c" using 3 assms(4) by linarith
    have eq: "window_at B S W cols s len same c = B + (?start - B) div cols * cols"
      using 3 assms(4) by (auto simp: window_at_def)
    have "B \<le> ?start" "?start \<le> c" using c dims(2,3) by auto
    moreover have "c < B + (?start - B) div cols * cols + W"
    proof (cases "c - (W - cols) \<le> ?last")
      case True
      with div_mult_less [OF dims(1), of "?start - B"] \<open>B \<le> ?start\<close> c dims(3) show ?thesis by (simp add: min_def)
    next
      case False
      then have "?start - B = S - W" using dims(2) by (simp add: min_def)
      with floor [OF dims(4)] dims(2) assms(3) show ?thesis by simp
    qed
    ultimately show ?thesis
      unfolding eq using div_mult_mod_eq [of "?start - B" cols] by linarith
  qed
  then show "window_at B S W cols s len same c \<le> c" "c < window_at B S W cols s len same c + W" by simp_all
qed


section \<open>The code computes that rule\<close>

lemma unat_min_word: "unat (min a b) = min (unat a) (unat (b :: 'a::len word))"
  by (simp add: min_def word_nat)

lemma unat_saturating_sub: "unat (saturating_sub_u32 a b) = unat a - unat b"
  by (simp add: saturating_sub_u32_def word_nat unat_sub_le)

lemma unat_floor_word:
  fixes x c :: u32
  shows "unat (x div c * c) = unat x div unat c * unat c"
proof -
  have "unat x div unat c * unat c < 2 ^ 32"
    by (rule le_less_trans [OF div_times_less_eq_dividend]) (use unat_u32_lt [of x] in simp)
  then have "unat (x div c) * unat c < 2 ^ LENGTH(32)" by (simp add: unat_div)
  then show ?thesis by (simp add: unat_mult_lem [THEN iffD1] unat_div)
qed

text \<open>The start before it is rounded down to a row; the last start is given.\<close>

definition window_start :: "u32 \<Rightarrow> u32 \<Rightarrow> u32 \<Rightarrow> u32 \<Rightarrow> u32 \<Rightarrow> bool \<Rightarrow> bool \<Rightarrow> u32 \<Rightarrow> u32" where
  "window_start b hi W cols s shown same cur =
     (if shown then min s hi
      else if cur < s \<or> \<not> same then min (cur - (cur - b) mod cols) hi
      else min (saturating_sub_u32 cur (W - cols)) hi)"

lemma window_start_word:
  fixes b hi s cur W cols :: u32
  assumes dims: "window_dims S (unat W) (unat cols)"
    and cur: "unat b \<le> unat cur" "unat cur < unat b + S" and hi: "unat hi = unat b + S - unat W"
    and same: "same \<Longrightarrow> b \<le> s \<and> (unat s + len \<le> unat cur \<longrightarrow> unat b + unat W \<le> unat cur + unat cols \<or> unat b = 0)"
    and shown: "shown \<longleftrightarrow> same \<and> unat s \<le> unat cur \<and> unat cur < unat s + len"
  shows "unat (b + (window_start b hi W cols s shown same cur - b) div cols * cols)
    = window_at (unat b) S (unat W) (unat cols) (unat s) len same (unat cur)"
proof -
  define start where "start = window_start b hi W cols s shown same cur"
  have W: "unat cols \<le> unat W" "unat W \<le> S" using dims by (auto simp: window_dims_def dvd_imp_le)
  have row: "unat (cur - (cur - b) mod cols) = unat cur - (unat cur - unat b) mod unat cols"
    and row_b: "unat b \<le> unat cur - (unat cur - unat b) mod unat cols"
  proof -
    have diff: "unat ((cur - b) mod cols) = (unat cur - unat b) mod unat cols"
      using cur(1) by (simp add: unat_mod unat_sub_le word_nat)
    moreover have le: "(unat cur - unat b) mod unat cols \<le> unat cur - unat b" by simp
    ultimately have "unat ((cur - b) mod cols) \<le> unat cur" by linarith
    then show "unat (cur - (cur - b) mod cols) = unat cur - (unat cur - unat b) mod unat cols"
      by (subst unat_sub_le) (simp_all only: word_le_nat_alt diff)
    show "unat b \<le> unat cur - (unat cur - unat b) mod unat cols" using le cur(1) by linarith
  qed
  have tail: "unat (saturating_sub_u32 cur (W - cols)) = unat cur - (unat W - unat cols)"
    using W(1) by (simp add: unat_saturating_sub unat_sub_le word_nat)
  have start: "unat start = (if same \<and> unat s \<le> unat cur \<and> unat cur < unat s + len then min (unat s) (unat hi)
      else if unat cur < unat s \<or> \<not> same then min (unat cur - (unat cur - unat b) mod unat cols) (unat hi)
      else min (unat cur - (unat W - unat cols)) (unat hi))"
    by (simp add: start_def window_start_def shown unat_min_word row tail word_less_nat_alt)
  have "unat b \<le> unat hi" using hi W(2) by simp
  then have "unat b \<le> unat start"
    using same row_b W(1) unfolding start by (auto simp: word_nat min_def)
  then have "b \<le> start" by (simp add: word_nat)
  have "unat (b + (start - b) div cols * cols) = unat b + unat ((start - b) div cols * cols)"
  proof (rule unat_add_no_wrap)
    have "unat ((start - b) div cols * cols) \<le> unat start - unat b"
      using \<open>b \<le> start\<close> by (simp add: unat_floor_word unat_sub_le)
    then show "unat b + unat ((start - b) div cols * cols) < 2 ^ LENGTH(32)"
      using \<open>unat b \<le> unat start\<close> unat_u32_lt [of start] by simp
  qed
  also have "\<dots> = unat b + (unat start - unat b) div unat cols * unat cols"
    using \<open>b \<le> start\<close> by (simp add: unat_floor_word unat_sub_le)
  also have "\<dots> = window_at (unat b) S (unat W) (unat cols) (unat s) len same (unat cur)"
    unfolding window_at_def Let_def start hi ..
  finally show ?thesis unfolding start_def .
qed


section \<open>The physical window\<close>

definition memory_shape :: "primary_widget \<Rightarrow> bool" where
  "memory_shape w \<longleftrightarrow> (pw_memory_columns w = 4 \<or> pw_memory_columns w = 8)
     \<and> 0 < unat (pw_memory_window w) \<and> pw_memory_columns w dvd unat (pw_memory_window w)"

text \<open>The range is inside the region of its start, whole rows from the region's base.\<close>

definition range_in_region :: "primary_widget \<Rightarrow> bool" where
  "range_in_region w \<longleftrightarrow> (\<exists>r. memory_region (pr_start (pw_memory_range w)) = Some r
     \<and> unat (pr_length (pw_memory_range w)) = min (unat (pw_memory_window w)) (unat (mem_size r))
     \<and> unat (pa_get (pr_start (pw_memory_range w))) + unat (pr_length (pw_memory_range w))
         \<le> unat (pa_get (mem_base r)) + unat (mem_size r)
     \<and> pw_memory_columns w dvd unat (pa_get (pr_start (pw_memory_range w))) - unat (pa_get (mem_base r)))"

definition cursor_visible :: "primary_widget \<Rightarrow> bool" where
  "cursor_visible w \<longleftrightarrow> contains_address (pw_memory_range w) (pw_memory_cursor w)"

lemma window_dims_region:
  assumes "memory_shape w" and "r \<in> set MEMORY_REGIONS"
  shows "window_dims (unat (mem_size r)) (min (unat (pw_memory_window w)) (unat (mem_size r))) (pw_memory_columns w)"
proof -
  have "4 dvd unat (mem_size r)" "8 dvd unat (mem_size r)" "0 < unat (mem_size r)"
    using assms(2) by (auto simp: MEMORY_REGIONS_def mem_layout)
  with assms(1) show ?thesis by (auto simp: window_dims_def memory_shape_def min_def)
qed

lemma memory_shape_columns: "memory_shape w \<Longrightarrow> unat (of_nat (pw_memory_columns w) :: u32) = pw_memory_columns w"
  by (auto simp: memory_shape_def)

lemma region_fits: "unat (pa_get (mem_base r)) + unat (mem_size r) < 2 ^ 32"
  by (cases r) (simp_all add: mem_layout)

text \<open>
  The code places the window by the rule, provided the old range lies in one region and, when the
  cursor is behind it there, the cursor is far enough from the region's base for the new window.
\<close>

lemma ensure_cursor_visible_at:
  assumes shape: "memory_shape w"
    and cursor: "memory_region (pw_memory_cursor w) = Some r"
    and start: "memory_region (pr_start (pw_memory_range w)) = Some q"
    and fits: "unat (pa_get (pr_start (pw_memory_range w))) + unat (pr_length (pw_memory_range w))
         \<le> unat (pa_get (mem_base q)) + unat (mem_size q)"
    and room: "q = r \<Longrightarrow>
         unat (pa_get (pr_start (pw_memory_range w))) + unat (pr_length (pw_memory_range w)) \<le> unat (pa_get (pw_memory_cursor w)) \<Longrightarrow>
         unat (pa_get (mem_base r)) + min (unat (pw_memory_window w)) (unat (mem_size r))
           \<le> unat (pa_get (pw_memory_cursor w)) + pw_memory_columns w \<or> unat (pa_get (mem_base r)) = 0"
  shows "\<exists>a. ensure_cursor_visible w = Some (w\<lparr>pw_memory_range :=
        \<lparr>pr_start = PhysicalAddress a, pr_length = min (pw_memory_window w) (mem_size r)\<rparr>\<rparr>)
    \<and> unat a = window_at (unat (pa_get (mem_base r))) (unat (mem_size r))
        (min (unat (pw_memory_window w)) (unat (mem_size r))) (pw_memory_columns w)
        (unat (pa_get (pr_start (pw_memory_range w)))) (unat (pr_length (pw_memory_range w))) (q = r)
        (unat (pa_get (pw_memory_cursor w)))"
proof -
  define b where "b = pa_get (mem_base r)"
  define W where "W = min (pw_memory_window w) (mem_size r)"
  define cols where "cols = (of_nat (pw_memory_columns w) :: u32)"
  define s where "s = pa_get (pr_start (pw_memory_range w))"
  define cur where "cur = pa_get (pw_memory_cursor w)"
  define len where "len = pr_length (pw_memory_range w)"
  define same where "same = (memory_region (pr_start (pw_memory_range w)) = Some r)"
  define a where "a = b + (window_start b (b + mem_size r - W) W cols s (same \<and> s \<le> cur \<and> cur < s + len) same cur - b)
    div cols * cols"
  have uW: "unat W = min (unat (pw_memory_window w)) (unat (mem_size r))" by (simp add: W_def unat_min_word)
  have ucols: "unat cols = pw_memory_columns w" by (simp add: cols_def memory_shape_columns [OF shape])
  have same: "same \<longleftrightarrow> q = r" using start by (simp add: same_def)
  have cur: "unat b \<le> unat cur" "unat cur < unat b + unat (mem_size r)"
    using cursor by (simp_all add: memory_region_Some contains_region_iff b_def cur_def)
  have dims: "window_dims (unat (mem_size r)) (unat W) (unat cols)"
    using window_dims_region [OF shape] cursor by (simp add: uW ucols memory_region_Some)
  have end_s: "unat (s + len) = unat s + unat len"
    using fits region_fits [of q] by (intro unat_add_no_wrap) (simp add: s_def len_def)
  have hi: "unat (b + mem_size r - W) = unat b + unat (mem_size r) - unat W"
  proof -
    have "unat (b + mem_size r) = unat b + unat (mem_size r)"
      using region_fits [of r] by (intro unat_add_no_wrap) (simp add: b_def)
    moreover from this have "W \<le> b + mem_size r" by (simp add: word_nat uW)
    ultimately show ?thesis by (simp add: unat_sub_le)
  qed
  have base_s: "unat b \<le> unat s" if "q = r"
    using start that by (simp add: memory_region_Some contains_region_iff b_def s_def)
  have rule: "unat a = window_at (unat b) (unat (mem_size r)) (unat W) (unat cols) (unat s) (unat len) same (unat cur)"
    unfolding a_def
  proof (rule window_start_word [OF dims cur hi])
    show "b \<le> s \<and> (unat s + unat len \<le> unat cur \<longrightarrow> unat b + unat W \<le> unat cur + unat cols \<or> unat b = 0)" if same
      using that room base_s by (simp add: same word_le_nat_alt uW ucols b_def s_def len_def cur_def)
    show "(same \<and> s \<le> cur \<and> cur < s + len) \<longleftrightarrow> same \<and> unat s \<le> unat cur \<and> unat cur < unat s + unat len"
      by (simp add: word_le_nat_alt word_less_nat_alt end_s)
  qed
  have "unat a + unat W \<le> unat b + unat (mem_size r)"
    unfolding rule using base_s by (intro window_at_inside [OF dims cur]) (simp add: same)
  moreover have "0 < unat W" using dims by (simp add: window_dims_def)
  ultimately have "physical_range_new (PhysicalAddress a) W = Ok \<lparr>pr_start = PhysicalAddress a, pr_length = W\<rparr>"
    using region_fits [of r] by (auto simp: physical_range_new_Ok b_def)
  moreover have "cols \<noteq> 0" using dims by (auto simp: window_dims_def)
  ultimately have "ensure_cursor_visible w = Some (w\<lparr>pw_memory_range := \<lparr>pr_start = PhysicalAddress a, pr_length = W\<rparr>\<rparr>)"
    using cursor
    by (simp add: ensure_cursor_visible_def Let_def a_def window_start_def b_def W_def cols_def s_def cur_def len_def same_def)
  with rule show ?thesis
    unfolding W_def uW ucols same b_def s_def len_def cur_def by (intro exI [of _ a]) (simp add: unat_min_word)
qed

definition primary_ok :: "primary_widget \<Rightarrow> bool" where
  "primary_ok w \<longleftrightarrow> memory_shape w \<and> range_in_region w \<and> memory_region (pw_memory_cursor w) \<noteq> None"

lemma placed_in_region:
  assumes "memory_shape w" and "memory_region (pw_memory_cursor w) = Some r"
    and "pr_length (pw_memory_range w) = min (pw_memory_window w) (mem_size r)"
    and "unat (pa_get (mem_base r)) \<le> unat (pa_get (pr_start (pw_memory_range w)))"
    and "unat (pa_get (pr_start (pw_memory_range w))) + min (unat (pw_memory_window w)) (unat (mem_size r))
      \<le> unat (pa_get (mem_base r)) + unat (mem_size r)"
    and "pw_memory_columns w dvd unat (pa_get (pr_start (pw_memory_range w))) - unat (pa_get (mem_base r))"
  shows "range_in_region w"
proof -
  have "0 < unat (mem_size r)" by (cases r) (simp_all add: mem_layout)
  with assms(1,2,4,5) have "memory_region (pr_start (pw_memory_range w)) = Some r"
    by (auto simp: memory_region_Some contains_region_iff memory_shape_def min_def split: if_splits)
  with assms show ?thesis by (simp add: range_in_region_def unat_min_word)
qed

text \<open>From a good state the cursor becomes visible, wherever it was moved to in mapped memory.\<close>

lemma ensure_cursor_visible_shows:
  assumes "memory_shape w" and "range_in_region w" and "memory_region (pw_memory_cursor w) = Some r"
  shows "\<exists>shown. ensure_cursor_visible w = Some (w\<lparr>pw_memory_range := shown\<rparr>)
    \<and> primary_ok (w\<lparr>pw_memory_range := shown\<rparr>) \<and> cursor_visible (w\<lparr>pw_memory_range := shown\<rparr>)"
proof -
  let ?s = "unat (pa_get (pr_start (pw_memory_range w)))" and ?len = "unat (pr_length (pw_memory_range w))"
  let ?W = "min (unat (pw_memory_window w)) (unat (mem_size r))" and ?c = "unat (pa_get (pw_memory_cursor w))"
  from assms(2) obtain q where q: "memory_region (pr_start (pw_memory_range w)) = Some q"
      "?len = min (unat (pw_memory_window w)) (unat (mem_size q))"
      "?s + ?len \<le> unat (pa_get (mem_base q)) + unat (mem_size q)"
      "pw_memory_columns w dvd ?s - unat (pa_get (mem_base q))"
    unfolding range_in_region_def by blast
  have cur: "unat (pa_get (mem_base r)) \<le> ?c" "?c < unat (pa_get (mem_base r)) + unat (mem_size r)"
    using assms(3) by (simp_all add: memory_region_Some contains_region_iff)
  have dims: "window_dims (unat (mem_size r)) ?W (pw_memory_columns w)"
    using window_dims_region [OF assms(1)] assms(3) by (simp add: memory_region_Some)
  have base_s: "unat (pa_get (mem_base q)) \<le> ?s"
    using q(1) by (simp add: memory_region_Some contains_region_iff)
  then have same: "unat (pa_get (mem_base r)) \<le> ?s \<and> ?s + ?W \<le> unat (pa_get (mem_base r)) + unat (mem_size r)
      \<and> pw_memory_columns w dvd ?s - unat (pa_get (mem_base r)) \<and> ?len = ?W" if "q = r"
    using that q by simp
  have "unat (pa_get (mem_base r)) + ?W \<le> ?c + pw_memory_columns w \<or> unat (pa_get (mem_base r)) = 0"
    if "q = r" "?s + ?len \<le> ?c"
    using same [OF that(1)] that(2) by linarith
  from ensure_cursor_visible_at [OF assms(1,3) q(1,3) this] obtain a where
    a: "ensure_cursor_visible w = Some (w\<lparr>pw_memory_range :=
        \<lparr>pr_start = PhysicalAddress a, pr_length = min (pw_memory_window w) (mem_size r)\<rparr>\<rparr>)"
      "unat a = window_at (unat (pa_get (mem_base r))) (unat (mem_size r)) ?W (pw_memory_columns w) ?s ?len (q = r) ?c"
    by blast
  let ?w = "w\<lparr>pw_memory_range := \<lparr>pr_start = PhysicalAddress a, pr_length = min (pw_memory_window w) (mem_size r)\<rparr>\<rparr>"
  have "range_in_region ?w"
    using window_at_inside [OF dims cur, of "q = r" ?s ?len] same a(2) assms(1,3)
    by (intro placed_in_region [of ?w r]) (simp_all add: memory_shape_def)
  moreover have "cursor_visible ?w"
    using window_at_visible [OF dims cur, of "q = r" ?s ?len] same a(2)
    by (simp add: cursor_visible_def contains_address_iff range_set_def unat_min_word)
  ultimately show ?thesis
    using a(1) assms(1,3) by (intro exI conjI) (simp_all add: primary_ok_def memory_shape_def)
qed


section \<open>Motions in physical memory\<close>

text \<open>Where a motion leads from position \<open>n\<close> when positions end at \<open>hi\<close>.\<close>

definition motion_target :: "motion \<Rightarrow> nat \<Rightarrow> nat \<Rightarrow> nat \<Rightarrow> nat" where
  "motion_target m columns n hi =
     (case m of
        MoveTop \<Rightarrow> 0
      | MoveBottom \<Rightarrow> hi
      | MoveLeft k \<Rightarrow> n - k
      | MoveUp k \<Rightarrow> n - columns * k
      | MoveRight k \<Rightarrow> min (n + k) hi
      | MoveDown k \<Rightarrow> min (n + columns * k) hi
      | MoveNextItem k \<Rightarrow> min (n + 4 * k) hi
      | MoveEndItem _ \<Rightarrow> min (n div 4 * 4 + 3) hi)"

lemma motion_target_le: "n \<le> hi \<Longrightarrow> motion_target m columns n hi \<le> hi"
  by (cases m) (simp_all add: motion_target_def)

lemma physical_linear:
  assumes "n \<le> hi" and "hi \<le> usize_max"
  shows "min (case m of
      MoveTop \<Rightarrow> 0
    | MoveBottom \<Rightarrow> hi
    | MoveLeft _ \<Rightarrow> n - saturating_mul_usize (motion_step columns m) (motion_count m)
    | MoveUp _ \<Rightarrow> n - saturating_mul_usize (motion_step columns m) (motion_count m)
    | MoveEndItem _ \<Rightarrow> n div 4 * 4 + 3
    | _ \<Rightarrow> saturating_add_usize n (saturating_mul_usize (motion_step columns m) (motion_count m))) hi
    = motion_target m columns n hi"
  using assms
  by (cases m) (auto simp: motion_target_def motion_step_def saturating_mul_usize_def saturating_add_usize_def min_def)

text \<open>C22. In the physical memory view every motion, with any count, moves the cursor to its documented
  position on the linear map of boot ROM, system ROM and RAM, clamped at both ends; the cursor stays
  in mapped memory, the window stays inside one region in whole rows and shows the cursor, and no
  \<open>expect\<close> of the code fails.\<close>

theorem physical_motion_shows_cursor:
  assumes "primary_ok w" and "memory_linear_offset (pw_memory_cursor w) = Some n"
  shows "\<exists>w'. nav_physical_memory m w = Some w' \<and> primary_ok w' \<and> cursor_visible w'
    \<and> memory_linear_offset (pw_memory_cursor w')
      = Some (motion_target m (pw_memory_columns w) n (memory_map_size - 1))"
proof -
  let ?n = "motion_target m (pw_memory_columns w) n (memory_map_size - 1)"
  let ?w = "w\<lparr>pw_memory_cursor := memory_address_at ?n\<rparr>"
  have "n < memory_map_size" using address_at_linear_offset [OF assms(2)] by simp
  then have n: "n \<le> memory_map_size - 1" by simp
  have "?n < memory_map_size"
    using motion_target_le [OF n, of m "pw_memory_columns w"] by (simp add: memory_map_size_eq)
  moreover from this obtain r where "memory_region (memory_address_at ?n) = Some r"
    using memory_region_address_at by blast
  with assms(1) obtain shown where
    "ensure_cursor_visible ?w = Some (?w\<lparr>pw_memory_range := shown\<rparr>)"
    "primary_ok (?w\<lparr>pw_memory_range := shown\<rparr>)" "cursor_visible (?w\<lparr>pw_memory_range := shown\<rparr>)"
    using ensure_cursor_visible_shows [of ?w r]
    by (auto simp: primary_ok_def memory_shape_def range_in_region_def)
  moreover have "nav_physical_memory m w = ensure_cursor_visible ?w"
    unfolding nav_physical_memory_def Let_def assms(2) option.case
    using physical_linear [OF n] by (simp add: memory_map_size_eq usize_max_def)
  ultimately show ?thesis
    by (intro exI [of _ "?w\<lparr>pw_memory_range := shown\<rparr>"]) (simp add: linear_offset_address_at)
qed

lemma primary_ok_default: "primary_ok primary_widget_default"
proof -
  have "memory_region (mem_base Ram) = Some Ram"
    by (simp add: memory_region_Some MEMORY_REGIONS_def contains_region_iff mem_layout)
  then show ?thesis
    by (simp add: primary_ok_def primary_widget_default_def memory_shape_def range_in_region_def
        DEFAULT_MEMORY_WINDOW_def mem_layout)
qed

theorem physical_motion_shows_cursor_witness:
  "\<exists>w'. nav_physical_memory (MoveLeft 1) primary_widget_default = Some w' \<and> cursor_visible w'
    \<and> memory_linear_offset (pw_memory_cursor w') = Some 0x100ffff"
proof -
  have "memory_linear_offset (pw_memory_cursor primary_widget_default) = Some 0x1010000"
    by (simp add: primary_widget_default_def memory_linear_offset_def MEMORY_REGIONS_def
        contains_region_iff mem_layout)
  from physical_motion_shows_cursor [OF primary_ok_default this, of "MoveLeft 1"] show ?thesis
    by (auto simp: motion_target_def)
qed


section \<open>The virtual window\<close>

definition virtual_visible :: "primary_widget \<Rightarrow> bool" where
  "virtual_visible w \<longleftrightarrow> unat (va_get (pw_virtual_start w)) \<le> unat (va_get (pw_virtual_cursor w))
     \<and> unat (va_get (pw_virtual_cursor w)) < unat (va_get (pw_virtual_start w)) + unat (pw_memory_window w)"

definition virtual_ok :: "primary_widget \<Rightarrow> bool" where
  "virtual_ok w \<longleftrightarrow> unat (va_get (pw_virtual_start w)) + unat (pw_memory_window w) \<le> 2 ^ 32
     \<and> pw_memory_columns w dvd unat (va_get (pw_virtual_start w))"

lemma virtual_dims:
  assumes "memory_shape w"
  shows "window_dims (2 ^ 32) (unat (pw_memory_window w)) (pw_memory_columns w)"
proof -
  have "unat (pw_memory_window w) \<le> 2 ^ 32" using unat_u32_lt [of "pw_memory_window w"] by simp
  with assms show ?thesis by (auto simp: window_dims_def memory_shape_def)
qed

lemma ensure_virtual_at:
  assumes shape: "memory_shape w"
    and room: "unat (va_get (pw_virtual_start w)) + unat (pw_memory_window w) \<le> unat (va_get (pw_virtual_cursor w)) \<Longrightarrow>
      unat (pw_memory_window w) \<le> unat (va_get (pw_virtual_cursor w)) + pw_memory_columns w"
  shows "\<exists>a. ensure_virtual_cursor_visible w = Some (w\<lparr>pw_virtual_start := VirtualAddress a\<rparr>)
    \<and> unat a = window_at 0 (2 ^ 32) (unat (pw_memory_window w)) (pw_memory_columns w)
        (unat (va_get (pw_virtual_start w))) (unat (pw_memory_window w)) True (unat (va_get (pw_virtual_cursor w)))"
proof -
  define W where "W = pw_memory_window w"
  define cols where "cols = (of_nat (pw_memory_columns w) :: u32)"
  define s where "s = va_get (pw_virtual_start w)"
  define cur where "cur = va_get (pw_virtual_cursor w)"
  define hi where "hi = u32_max - saturating_sub_u32 W 1"
  define shown where "shown = ((ucast s :: u64) \<le> ucast cur \<and> (ucast cur :: u64) < ucast s + ucast W)"
  define a where "a = window_start 0 hi W cols s shown True cur div cols * cols"
  have ucols: "unat cols = pw_memory_columns w" by (simp add: cols_def memory_shape_columns [OF shape])
  have dims: "window_dims (2 ^ 32) (unat W) (unat cols)" using virtual_dims [OF shape] by (simp add: W_def ucols)
  then have "unat hi = 2 ^ 32 - unat W"
    using unat_u32_lt [of W]
    by (simp add: hi_def unat_sub_le word_le_nat_alt unat_saturating_sub u32_max_def window_dims_def)
  moreover have "shown \<longleftrightarrow> unat s \<le> unat cur \<and> unat cur < unat s + unat W"
    by (simp add: shown_def word_le_nat_alt word_less_nat_alt)
  ultimately have "unat a = window_at 0 (2 ^ 32) (unat W) (unat cols) (unat s) (unat W) True (unat cur)"
    using window_start_word [OF dims, of 0 cur hi True s "unat W" shown] unat_u32_lt [of cur] room
    by (simp add: a_def W_def s_def cur_def ucols)
  moreover have "cols \<noteq> 0" using dims by (auto simp: window_dims_def)
  then have "ensure_virtual_cursor_visible w = Some (w\<lparr>pw_virtual_start := VirtualAddress a\<rparr>)"
    by (simp add: ensure_virtual_cursor_visible_def Let_def a_def window_start_def hi_def W_def cols_def s_def cur_def shown_def)
  ultimately show ?thesis unfolding W_def ucols s_def cur_def by blast
qed

lemma ensure_virtual_shows:
  assumes "memory_shape w" and "virtual_ok w"
  shows "\<exists>start. ensure_virtual_cursor_visible w = Some (w\<lparr>pw_virtual_start := start\<rparr>)
    \<and> virtual_ok (w\<lparr>pw_virtual_start := start\<rparr>) \<and> virtual_visible (w\<lparr>pw_virtual_start := start\<rparr>)"
proof -
  let ?s = "unat (va_get (pw_virtual_start w))" and ?c = "unat (va_get (pw_virtual_cursor w))"
  let ?W = "unat (pw_memory_window w)"
  have c: "?c < 0 + 2 ^ 32" using unat_u32_lt [of "va_get (pw_virtual_cursor w)"] by simp
  from ensure_virtual_at [OF assms(1)] obtain a where
    a: "ensure_virtual_cursor_visible w = Some (w\<lparr>pw_virtual_start := VirtualAddress a\<rparr>)"
      "unat a = window_at 0 (2 ^ 32) ?W (pw_memory_columns w) ?s ?W True ?c" by auto
  note dims = virtual_dims [OF assms(1)]
  have "virtual_ok (w\<lparr>pw_virtual_start := VirtualAddress a\<rparr>)"
    using window_at_inside [OF dims le0 c, of True ?s ?W] by (simp add: virtual_ok_def a(2))
  moreover have "virtual_visible (w\<lparr>pw_virtual_start := VirtualAddress a\<rparr>)"
    using window_at_visible [OF dims le0 c, of True ?s ?W] assms(2) by (simp add: virtual_ok_def virtual_visible_def a(2))
  ultimately show ?thesis using a(1) by blast
qed

lemma unat_saturating_ops:
  "unat (saturating_add_u32 a b) = min (unat a + unat b) (2 ^ 32 - 1)"
  "unat (saturating_mul_u32 a b) = min (unat a * unat b) (2 ^ 32 - 1)"
proof -
  show "unat (saturating_add_u32 a b) = min (unat a + unat b) (2 ^ 32 - 1)"
  proof (cases "unat a + unat b < 2 ^ 32")
    case True
    then have "unat (a + b) = unat a + unat b" by (intro unat_add_no_wrap) simp
    with True show ?thesis by (simp add: saturating_add_u32_def word_le_nat_alt)
  next
    case False
    then have "unat (a + b) = unat a + unat b - 2 ^ 32"
      using unat_u32_lt [of a] unat_u32_lt [of b] by (simp add: unat_word_ariths mod_if)
    with False have "\<not> a \<le> a + b" using unat_u32_lt [of b] by (simp add: word_le_nat_alt)
    with False show ?thesis by (simp add: saturating_add_u32_def u32_max_def)
  qed
  show "unat (saturating_mul_u32 a b) = min (unat a * unat b) (2 ^ 32 - 1)"
    by (simp add: saturating_mul_u32_def u32_max_def unat_word_ariths)
qed

text \<open>In the virtual memory view a motion with a count below \<open>2^32\<close> moves the cursor to its documented
  address in the 32-bit space, clamped at both ends, and the window, in whole rows inside the space,
  shows it.\<close>

theorem virtual_motion_shows_cursor:
  assumes "memory_shape w" and "virtual_ok w" and "motion_count m < 2 ^ 32"
  shows "\<exists>w'. nav_virtual_memory m w = Some w' \<and> memory_shape w' \<and> virtual_ok w' \<and> virtual_visible w'
    \<and> unat (va_get (pw_virtual_cursor w'))
      = motion_target m (pw_memory_columns w) (unat (va_get (pw_virtual_cursor w))) (2 ^ 32 - 1)"
proof -
  obtain a where
    a: "nav_virtual_memory m w = ensure_virtual_cursor_visible
          (w\<lparr>pw_virtual_initialized := True, pw_virtual_cursor := VirtualAddress a\<rparr>)"
      "unat a = motion_target m (pw_memory_columns w) (unat (va_get (pw_virtual_cursor w))) (2 ^ 32 - 1)"
  proof -
    have cols: "unat (of_nat (pw_memory_columns w) :: u32) = pw_memory_columns w"
      by (rule memory_shape_columns [OF assms(1)])
    have count: "unat (of_nat (motion_count m) :: u32) = motion_count m"
      using assms(3) by (simp add: unat_of_nat take_bit_nat_eq_self)
    let ?c = "va_get (pw_virtual_cursor w)"
    have item: "unat (?c div 4 * 4 + 3) = min (unat ?c div 4 * 4 + 3) (2 ^ 32 - 1)"
    proof -
      have "unat ?c div 4 * 4 + 3 < 2 ^ 32" using unat_u32_lt [of ?c] div_mult_mod_eq [of "unat ?c" 4]
        by (simp add: mult.commute) presburger
      moreover from this have "unat (?c div 4 * 4 + 3) = unat ?c div 4 * 4 + 3"
        by (subst unat_add_no_wrap) (simp_all add: unat_floor_word)
      ultimately show ?thesis by simp
    qed
    let ?d = "saturating_mul_u32 (of_nat (motion_step (pw_memory_columns w) m)) (of_nat (motion_count m))"
    define a where "a = (case m of
        MoveTop \<Rightarrow> 0
      | MoveBottom \<Rightarrow> u32_max
      | MoveLeft _ \<Rightarrow> saturating_sub_u32 ?c ?d
      | MoveUp _ \<Rightarrow> saturating_sub_u32 ?c ?d
      | MoveEndItem _ \<Rightarrow> ?c div 4 * 4 + 3
      | _ \<Rightarrow> saturating_add_u32 ?c ?d)"
    show ?thesis
    proof (rule that)
      show "nav_virtual_memory m w = ensure_virtual_cursor_visible
          (w\<lparr>pw_virtual_initialized := True, pw_virtual_cursor := VirtualAddress a\<rparr>)"
        unfolding nav_virtual_memory_def Let_def a_def ..
      show "unat a = motion_target m (pw_memory_columns w) (unat ?c) (2 ^ 32 - 1)"
        using count cols item unat_u32_lt [of ?c]
        by (cases m) (auto simp: a_def motion_target_def motion_step_def unat_saturating_sub unat_saturating_ops u32_max_def min_def)
    qed
  qed
  let ?w = "w\<lparr>pw_virtual_initialized := True, pw_virtual_cursor := VirtualAddress a\<rparr>"
  have "memory_shape ?w" "virtual_ok ?w" using assms(1,2) by (simp_all add: memory_shape_def virtual_ok_def)
  from ensure_virtual_shows [OF this] obtain start where
    "ensure_virtual_cursor_visible ?w = Some (?w\<lparr>pw_virtual_start := start\<rparr>)"
    "virtual_ok (?w\<lparr>pw_virtual_start := start\<rparr>)" "virtual_visible (?w\<lparr>pw_virtual_start := start\<rparr>)" by blast
  with a \<open>memory_shape ?w\<close> show ?thesis
    by (intro exI [of _ "?w\<lparr>pw_virtual_start := start\<rparr>"]) (simp add: memory_shape_def)
qed


lemma virtual_ok_default: "memory_shape primary_widget_default" "virtual_ok primary_widget_default"
  using primary_ok_default
  by (simp_all add: primary_ok_def virtual_ok_def primary_widget_default_def DEFAULT_MEMORY_WINDOW_def)

theorem virtual_motion_shows_cursor_witness:
  "\<exists>w'. nav_virtual_memory (MoveDown 0x20000000) primary_widget_default = Some w' \<and> virtual_visible w'
    \<and> unat (va_get (pw_virtual_cursor w')) = 0xffffffff"
  using virtual_motion_shows_cursor [OF virtual_ok_default, of "MoveDown 0x20000000"]
  by (auto simp: motion_target_def primary_widget_default_def)

text \<open>A greater count is cut to its low 32 bits, so that it may not move at all.\<close>

lemma virtual_count_is_truncated:
  "nav_virtual_memory (MoveDown (2 ^ 32)) w = nav_virtual_memory (MoveDown 0) w"
proof -
  have count: "(of_nat (2 ^ 32) :: u32) = of_nat 0" by simp
  show ?thesis unfolding nav_virtual_memory_def motion_count.simps motion_step_def motion.case count ..
qed

section \<open>Motions in the disassembly\<close>

definition disassembly_position :: "primary_widget \<Rightarrow> u32" where
  "disassembly_position w = (case pw_disassembly_address w of
      Some address \<Rightarrow> va_get address
    | None \<Rightarrow> (case pw_execution w of Some value \<Rightarrow> ei_registers value ! 15 | None \<Rightarrow> 0))"

lemma disassembly_down:
  assumes "4 * count < 2 ^ 32"
  shows "pw_disassembly_address (nav_disassembly (MoveDown count) w) =
    Some (VirtualAddress (saturating_add_u32 (disassembly_position w) (of_nat (4 * count)) AND NOT 3))"
  by (simp add: nav_disassembly_def disassembly_position_def Let_def)

text \<open>The product of step and count wraps: a count of \<open>2^30\<close> lines stays where it is.\<close>

lemma disassembly_count_wraps:
  "nav_disassembly (MoveDown (2 ^ 30)) w = nav_disassembly (MoveDown 0) w"
proof -
  have count: "(4 * of_nat (2 ^ 30) :: u32) = 4 * of_nat 0" by simp
  show ?thesis unfolding nav_disassembly_def motion_count.simps motion.case Let_def count ..
qed

section \<open>Resizing\<close>

lemma geometry_window:
  fixes rows :: u16
  assumes "rows \<noteq> 0" and "columns = 4 \<or> columns = 8"
  shows "unat ((ucast rows :: u32) * of_nat columns) = unat rows * columns" "0 < unat rows * columns"
proof -
  have "unat rows < 2 ^ 16" using unsigned_less [of rows, where 'a = nat] by simp
  moreover have "unat (ucast rows :: u32) = unat rows" by (rule unat_ucast_widen) simp
  ultimately have "unat (ucast rows :: u32) * unat (of_nat columns :: u32) < 2 ^ LENGTH(32)"
    "unat (of_nat columns :: u32) = columns" using assms(2) by auto
  with \<open>unat (ucast rows :: u32) = unat rows\<close>
  show "unat ((ucast rows :: u32) * of_nat columns) = unat rows * columns"
    using unat_mult_lem [of "ucast rows :: u32" "of_nat columns"] by simp
  show "0 < unat rows * columns" using assms by (auto simp: unat_gt_0)
qed

text \<open>New dimensions, while the cursor is inside the old range.\<close>

lemma resized_physical:
  assumes "memory_shape v" and "memory_region (pr_start (pw_memory_range v)) = Some q"
    and "unat (pa_get (pr_start (pw_memory_range v))) + unat (pr_length (pw_memory_range v))
      \<le> unat (pa_get (mem_base q)) + unat (mem_size q)" and "cursor_visible v"
  shows "\<exists>shown. ensure_cursor_visible v = Some (v\<lparr>pw_memory_range := shown\<rparr>)
    \<and> primary_ok (v\<lparr>pw_memory_range := shown\<rparr>)"
proof -
  let ?s = "unat (pa_get (pr_start (pw_memory_range v)))" and ?len = "unat (pr_length (pw_memory_range v))"
  let ?c = "unat (pa_get (pw_memory_cursor v))"
  have base_s: "unat (pa_get (mem_base q)) \<le> ?s"
    using assms(2) by (simp add: memory_region_Some contains_region_iff)
  have visible: "?s \<le> ?c" "?c < ?s + ?len"
    using assms(4) by (simp_all add: cursor_visible_def contains_address_iff range_set_def)
  then have q: "memory_region (pw_memory_cursor v) = Some q"
    using assms(2,3) base_s by (simp add: memory_region_Some contains_region_iff)
  then have dims: "window_dims (unat (mem_size q)) (min (unat (pw_memory_window v)) (unat (mem_size q))) (pw_memory_columns v)"
    and cur: "unat (pa_get (mem_base q)) \<le> ?c" "?c < unat (pa_get (mem_base q)) + unat (mem_size q)"
    using window_dims_region [OF assms(1), of q] by (simp_all add: memory_region_Some contains_region_iff)
  from ensure_cursor_visible_at [OF assms(1) q assms(2,3)] visible obtain a where
    a: "ensure_cursor_visible v = Some (v\<lparr>pw_memory_range :=
        \<lparr>pr_start = PhysicalAddress a, pr_length = min (pw_memory_window v) (mem_size q)\<rparr>\<rparr>)"
      "unat a = window_at (unat (pa_get (mem_base q))) (unat (mem_size q))
        (min (unat (pw_memory_window v)) (unat (mem_size q))) (pw_memory_columns v) ?s ?len True ?c" by auto
  let ?v = "v\<lparr>pw_memory_range := \<lparr>pr_start = PhysicalAddress a, pr_length = min (pw_memory_window v) (mem_size q)\<rparr>\<rparr>"
  have "range_in_region ?v"
    using window_at_inside [OF dims cur, of True ?s ?len] base_s a(2) assms(1) q
    by (intro placed_in_region [of ?v q]) (simp_all add: memory_shape_def)
  then have "primary_ok ?v" using assms(1) q by (simp add: primary_ok_def memory_shape_def)
  with a(1) show ?thesis by blast
qed

lemma resized_virtual:
  assumes "memory_shape v"
  shows "\<exists>start. ensure_virtual_cursor_visible v = Some (v\<lparr>pw_virtual_start := start\<rparr>)
    \<and> virtual_ok (v\<lparr>pw_virtual_start := start\<rparr>)"
proof -
  let ?c = "unat (va_get (pw_virtual_cursor v))"
  from ensure_virtual_at [OF assms] obtain a where
    "ensure_virtual_cursor_visible v = Some (v\<lparr>pw_virtual_start := VirtualAddress a\<rparr>)"
    "unat a = window_at 0 (2 ^ 32) (unat (pw_memory_window v)) (pw_memory_columns v)
        (unat (va_get (pw_virtual_start v))) (unat (pw_memory_window v)) True ?c" by auto
  moreover have "?c < 0 + 2 ^ 32" using unat_u32_lt [of "va_get (pw_virtual_cursor v)"] by simp
  note window_at_inside [OF virtual_dims [OF assms] le0 this, of True]
  ultimately show ?thesis by (intro exI [of _ "VirtualAddress a"]) (simp add: virtual_ok_def)
qed

lemma resized_widget:
  assumes "primary_ok w" and "cursor_visible w" and "virtual_ok w"
  shows "\<exists>w'. update_memory_geometry width height w = Some w' \<and> primary_ok w' \<and> virtual_ok w'
    \<and> pw_memory_cursor w' = pw_memory_cursor w"
proof -
  define columns :: nat where "columns = (if width \<ge> 46 then 8 else 4)"
  define rows :: u16 where "rows = max (if 4 \<le> height then height - 4 else 0) 1"
  define window where "window = (ucast rows :: u32) * of_nat columns"
  let ?w = "w\<lparr>pw_memory_columns := columns, pw_memory_window := window\<rparr>"
  have "columns = 4 \<or> columns = 8" by (simp add: columns_def)
  moreover have "rows \<noteq> 0" by (auto simp: rows_def max_def word_le_nat_alt)
  ultimately have "memory_shape ?w"
    using geometry_window [of rows columns] by (auto simp: memory_shape_def window_def)
  with assms obtain shown where
    shown: "ensure_cursor_visible ?w = Some (?w\<lparr>pw_memory_range := shown\<rparr>)" "primary_ok (?w\<lparr>pw_memory_range := shown\<rparr>)"
    using resized_physical [of ?w] by (auto simp: primary_ok_def range_in_region_def cursor_visible_def)
  then obtain start where
    "ensure_virtual_cursor_visible (?w\<lparr>pw_memory_range := shown\<rparr>) = Some (?w\<lparr>pw_memory_range := shown, pw_virtual_start := start\<rparr>)"
    "virtual_ok (?w\<lparr>pw_memory_range := shown, pw_virtual_start := start\<rparr>)"
    using resized_virtual [of "?w\<lparr>pw_memory_range := shown\<rparr>"] by (auto simp: primary_ok_def)
  with shown assms show ?thesis
    by (auto simp: update_memory_geometry_def Let_def columns_def [symmetric] rows_def [symmetric]
        window_def [symmetric] primary_ok_def memory_shape_def range_in_region_def virtual_ok_def)
qed


text \<open>One resize of the pane, to any size, from a state that shows its cursor: the windows are again
  whole rows inside their region and inside the 32-bit space, the cursor is where it was, and no
  \<open>expect\<close> fails.\<close>

theorem resize_keeps_windows_inside:
  assumes "primary_ok w" and "cursor_visible w" and "virtual_ok w"
  shows "\<exists>w'. update_memory_geometry width height w = Some w' \<and> primary_ok w' \<and> virtual_ok w'
    \<and> pw_memory_cursor w' = pw_memory_cursor w"
  using assms by (rule resized_widget)

theorem resize_keeps_windows_inside_witness:
  "\<exists>w'. update_memory_geometry 60 20 primary_widget_default = Some w' \<and> primary_ok w'"
proof -
  have "cursor_visible primary_widget_default"
    by (simp add: cursor_visible_def primary_widget_default_def contains_address_iff range_set_def
        DEFAULT_MEMORY_WINDOW_def mem_layout)
  from resize_keeps_windows_inside [OF primary_ok_default this virtual_ok_default(2), of 60 20] show ?thesis by blast
qed

definition primary_mapped :: "primary_widget \<Rightarrow> bool" where
  "primary_mapped w \<longleftrightarrow> memory_shape w \<and> memory_region (pw_memory_cursor w) \<noteq> None"

lemma base_rows: "c = 4 \<or> c = 8 \<Longrightarrow> c dvd unat (pa_get (mem_base r))"
  by (cases r) (auto simp: mem_layout)

lemma floor_from_base:
  fixes b s c :: u32
  assumes "unat c = 4 \<or> unat c = 8" and "unat c dvd unat b"
  shows "unat (b + (s - b) div c * c) \<le> unat s"
proof (cases "b \<le> s")
  case True
  then have "unat (s - b) = unat s - unat b" by (simp add: unat_sub_le)
  then have "unat ((s - b) div c * c) = (unat s - unat b) div unat c * unat c" by (simp add: unat_floor_word)
  moreover have "(unat s - unat b) div unat c * unat c \<le> unat s - unat b" by simp
  moreover have "unat b \<le> unat s" using True by (simp add: word_le_nat_alt)
  ultimately have "unat b + unat ((s - b) div c * c) \<le> unat s" by linarith
  then show ?thesis using unat_u32_lt [of s] by (subst unat_add_no_wrap) simp_all
next
  case False
  then have less: "unat s < unat b" by (simp add: word_le_nat_alt)
  define F where "F = (2 ^ 32 + unat s - unat b) div unat c * unat c"
  have "unat (s - b) = 2 ^ 32 + unat s - unat b"
    using less unat_u32_lt [of b] by (simp add: unat_sub_if_size word_size)
  then have F: "unat ((s - b) div c * c) = F" by (simp add: unat_floor_word F_def)
  have c32: "unat c dvd 2 ^ 32" using assms(1) by auto
  then have dvd: "unat c dvd 2 ^ 32 - unat b" using assms(2) by simp
  have split: "2 ^ 32 + unat s - unat b = (2 ^ 32 - unat b) + unat s" using unat_u32_lt [of b] by simp
  have "F = (2 ^ 32 - unat b) + unat s div unat c * unat c"
  proof -
    from dvd obtain k where k: "2 ^ 32 - unat b = unat c * k" by (rule dvdE)
    have "0 < unat c" using assms(1) by auto
    then have "(unat c * k + unat s) div unat c = k + unat s div unat c" by simp
    then show ?thesis unfolding F_def split k by (simp add: algebra_simps)
  qed
  then have "unat b + F = 2 ^ 32 + unat s div unat c * unat c" using unat_u32_lt [of b] by simp
  moreover have "unat s div unat c * unat c \<le> unat s" by simp
  ultimately have "(unat b + F) mod 2 ^ 32 \<le> unat s"
    by (simp only: mod_add_self1) (rule order_trans [OF mod_less_eq_dividend])
  moreover have "unat (b + (s - b) div c * c) = (unat b + F) mod 2 ^ 32" by (simp only: unat_word_ariths(1) F) simp
  ultimately show ?thesis by simp
qed

text \<open>Every start up to the last one of a region leaves room for the window in the address space.\<close>

definition last_window_start :: "primary_widget \<Rightarrow> mem_region \<Rightarrow> u32" where
  "last_window_start w r = pa_get (mem_base r) + mem_size r - min (pw_memory_window w) (mem_size r)"

lemma unat_last_window_start:
  "unat (last_window_start w r)
    = unat (pa_get (mem_base r)) + unat (mem_size r) - min (unat (pw_memory_window w)) (unat (mem_size r))"
proof -
  have "unat (pa_get (mem_base r) + mem_size r) = unat (pa_get (mem_base r)) + unat (mem_size r)"
    using region_fits [of r] by (intro unat_add_no_wrap) simp
  moreover from this have "min (pw_memory_window w) (mem_size r) \<le> pa_get (mem_base r) + mem_size r"
    by (simp add: word_le_nat_alt unat_min_word)
  ultimately show ?thesis by (simp add: last_window_start_def unat_sub_le unat_min_word)
qed

lemma window_range_exists:
  fixes x cols :: u32
  assumes "memory_shape w" and "cols = of_nat (pw_memory_columns w)" and "x \<le> last_window_start w r"
  shows "physical_range_new (PhysicalAddress (pa_get (mem_base r) + (x - pa_get (mem_base r)) div cols * cols))
      (min (pw_memory_window w) (mem_size r))
    = Ok \<lparr>pr_start = PhysicalAddress (pa_get (mem_base r) + (x - pa_get (mem_base r)) div cols * cols),
        pr_length = min (pw_memory_window w) (mem_size r)\<rparr>"
proof -
  have cols: "unat cols = 4 \<or> unat cols = 8" using assms(1,2) by (auto simp: memory_shape_def)
  have "unat (pa_get (mem_base r) + (x - pa_get (mem_base r)) div cols * cols) \<le> unat (last_window_start w r)"
    using floor_from_base [OF cols, of "pa_get (mem_base r)" x] base_rows [of "unat cols" r] cols assms(3)
    by (simp add: word_le_nat_alt)
  moreover have "0 < unat (mem_size r)" by (cases r) (simp_all add: mem_layout)
  then have "0 < unat (min (pw_memory_window w) (mem_size r))"
    using assms(1) by (simp add: memory_shape_def unat_min_word)
  then have "min (pw_memory_window w) (mem_size r) \<noteq> 0" by (metis less_irrefl unat_0)
  ultimately show ?thesis
    using region_fits [of r] by (auto simp: physical_range_new_Ok unat_last_window_start unat_min_word)
qed

lemma ensure_cursor_visible_total:
  assumes "primary_mapped w"
  shows "\<exists>shown. ensure_cursor_visible w = Some (w\<lparr>pw_memory_range := shown\<rparr>)"
proof -
  from assms obtain r where shape: "memory_shape w" and r: "memory_region (pw_memory_cursor w) = Some r"
    by (auto simp: primary_mapped_def)
  have "(of_nat (pw_memory_columns w) :: u32) \<noteq> 0" using shape by (auto simp: memory_shape_def)
  with r window_range_exists [OF shape refl, of _ r] show ?thesis
    by (simp add: ensure_cursor_visible_def Let_def flip: last_window_start_def)
      (intro conjI impI; rule exI, rule refl)
qed

text \<open>The start that the code computes when the cursor lies behind the old range in the same region, near its base.\<close>

lemma window_before_base:
  fixes b hi s cur W cols :: u32
  assumes "unat cols = 4 \<or> unat cols = 8" and "unat cols dvd unat b" and "0 < unat b"
    and "unat cur + unat cols < unat b + unat W" and "unat b \<le> unat cur" and "b \<le> hi"
  shows "unat (b + (min (saturating_sub_u32 cur (W - cols)) hi - b) div cols * cols) < unat b"
proof -
  have "cols \<le> W" using assms(4,5) by (simp add: word_le_nat_alt)
  then have "unat (saturating_sub_u32 cur (W - cols)) = unat cur - (unat W - unat cols)"
    by (simp add: unat_saturating_sub unat_sub_le)
  then have "unat (min (saturating_sub_u32 cur (W - cols)) hi) < unat b"
    using assms(3-5) by (auto simp: unat_min_word)
  with floor_from_base [OF assms(1,2), of "min (saturating_sub_u32 cur (W - cols)) hi"] show ?thesis by simp
qed

definition window_leaves :: "primary_widget \<Rightarrow> mem_region \<Rightarrow> bool" where
  "window_leaves w r \<longleftrightarrow>
     memory_region (pr_start (pw_memory_range w)) = Some r \<and> 0 < unat (pa_get (mem_base r))
     \<and> unat (pa_get (pr_start (pw_memory_range w))) + unat (pr_length (pw_memory_range w))
         \<le> unat (pa_get (pw_memory_cursor w))
     \<and> unat (pa_get (pw_memory_cursor w)) + pw_memory_columns w
         < unat (pa_get (mem_base r)) + min (unat (pw_memory_window w)) (unat (mem_size r))"

lemma window_starts_in_front:
  assumes shape: "memory_shape w" and cursor: "memory_region (pw_memory_cursor w) = Some r"
    and fits: "unat (pa_get (pr_start (pw_memory_range w))) + unat (pr_length (pw_memory_range w))
         \<le> unat (pa_get (mem_base q)) + unat (mem_size q)"
    and leaves: "window_leaves w r"
  shows "\<exists>a. ensure_cursor_visible w = Some (w\<lparr>pw_memory_range :=
        \<lparr>pr_start = PhysicalAddress a, pr_length = min (pw_memory_window w) (mem_size r)\<rparr>\<rparr>)
    \<and> unat a < unat (pa_get (mem_base r))"
proof -
  define cols where "cols = (of_nat (pw_memory_columns w) :: u32)"
  define s where "s = pa_get (pr_start (pw_memory_range w))"
  define x where "x = min (saturating_sub_u32 (pa_get (pw_memory_cursor w)) (min (pw_memory_window w) (mem_size r) - cols))
    (last_window_start w r)"
  have cols: "unat cols = pw_memory_columns w" by (simp add: cols_def memory_shape_columns [OF shape])
  then have c48: "unat cols = 4 \<or> unat cols = 8" using shape by (simp add: memory_shape_def)
  have parts: "memory_region (pr_start (pw_memory_range w)) = Some r" "0 < unat (pa_get (mem_base r))"
    "unat s + unat (pr_length (pw_memory_range w)) \<le> unat (pa_get (pw_memory_cursor w))"
    "unat (pa_get (pw_memory_cursor w)) + unat cols
      < unat (pa_get (mem_base r)) + unat (min (pw_memory_window w) (mem_size r))"
    using leaves by (simp_all add: window_leaves_def s_def cols unat_min_word)
  have "unat (s + pr_length (pw_memory_range w)) = unat s + unat (pr_length (pw_memory_range w))"
    using fits region_fits [of q] by (intro unat_add_no_wrap) (simp add: s_def)
  with parts(3) have behind: "\<not> pa_get (pw_memory_cursor w) < s + pr_length (pw_memory_range w)"
    "\<not> pa_get (pw_memory_cursor w) < s"
    by (simp_all add: word_less_nat_alt)
  have nonzero: "cols \<noteq> 0" using c48 by auto
  have last: "x \<le> last_window_start w r" by (simp add: x_def)
  have "ensure_cursor_visible w = Some (w\<lparr>pw_memory_range :=
      \<lparr>pr_start = PhysicalAddress (pa_get (mem_base r) + (x - pa_get (mem_base r)) div cols * cols),
       pr_length = min (pw_memory_window w) (mem_size r)\<rparr>\<rparr>)"
    using window_range_exists [OF shape cols_def last] cursor parts(1) behind nonzero
    by (simp add: ensure_cursor_visible_def Let_def flip: cols_def s_def last_window_start_def x_def)
  moreover have "unat (pa_get (mem_base r) + (x - pa_get (mem_base r)) div cols * cols) < unat (pa_get (mem_base r))"
    unfolding x_def
  proof (rule window_before_base [OF c48 _ parts(2,4)])
    show "unat cols dvd unat (pa_get (mem_base r))" by (rule base_rows [OF c48])
    show "unat (pa_get (mem_base r)) \<le> unat (pa_get (pw_memory_cursor w))"
      using cursor by (simp add: memory_region_Some contains_region_iff)
    show "pa_get (mem_base r) \<le> last_window_start w r" by (simp add: word_le_nat_alt unat_last_window_start)
  qed
  ultimately show ?thesis by blast
qed


text \<open>A pane that shows the byte at offset 200 of RAM, made smaller and then larger again.\<close>

definition scrolled_widget :: primary_widget where
  "scrolled_widget = primary_widget_default\<lparr>pw_memory_cursor := PhysicalAddress 0x400000c8\<rparr>"

definition shrunk_widget :: primary_widget where
  "shrunk_widget = scrolled_widget\<lparr>pw_memory_window := 64,
     pw_memory_range := \<lparr>pr_start = PhysicalAddress 0x40000000, pr_length = 64\<rparr>,
     pw_memory_dirty := True, pw_virtual_dirty := True\<rparr>"

lemma ram_region:
  "0x40000000 \<le> unat a \<Longrightarrow> unat a < 0x44000000 \<Longrightarrow> memory_region (PhysicalAddress a) = Some Ram"
  by (simp add: memory_region_Some MEMORY_REGIONS_def contains_region_iff mem_layout)

lemma ram_consts: "pa_get (mem_base Ram) = 0x40000000" "mem_size Ram = 0x4000000"
  "mem_base Ram = PhysicalAddress 0x40000000"
  by (simp_all add: mem_base_def mem_size_def mem_range.simps from_known_valid_def mmap_consts)

lemma shrink_scrolled: "update_memory_geometry 60 12 scrolled_widget = Some shrunk_widget"
  by (simp add: update_memory_geometry_def scrolled_widget_def shrunk_widget_def primary_widget_default_def
      DEFAULT_MEMORY_WINDOW_def ensure_cursor_visible_def ensure_virtual_cursor_visible_def ram_region
      ram_consts physical_range_new_def u32_max_def saturating_sub_u32_def Let_def)


section \<open>Every event\<close>

text \<open>What an event must satisfy: an address that a search reports is in mapped memory (it is in RAM).\<close>

definition event_ok :: "app_event \<Rightarrow> bool" where
  "event_ok event \<longleftrightarrow> (case event of
     EvInspection (InspectedSearch (Some address)) \<Rightarrow> memory_region address \<noteq> None | _ \<Rightarrow> True)"

text \<open>
  The panes' contract: a condition on the widget that only reads its shape, its range and its cursor and
  that every move of the cursor restores. Two conditions satisfy it: the windows are placed as they
  should be, or merely the cursor is in mapped memory.
\<close>

locale memory_pane =
  fixes good :: "primary_widget \<Rightarrow> bool"
  assumes good_shape: "good w \<Longrightarrow> memory_shape w"
    and good_fields: "pw_memory_range w' = pw_memory_range w \<Longrightarrow> pw_memory_cursor w' = pw_memory_cursor w \<Longrightarrow>
      pw_memory_columns w' = pw_memory_columns w \<Longrightarrow> pw_memory_window w' = pw_memory_window w \<Longrightarrow> good w \<Longrightarrow> good w'"
    and good_move: "good w \<Longrightarrow> memory_region address \<noteq> None \<Longrightarrow>
      \<exists>w'. ensure_cursor_visible (w\<lparr>pw_memory_cursor := address\<rparr>) = Some w' \<and> good w'"
begin

lemma good_updates [simp]:
  "good (w\<lparr>pw_memory := x\<rparr>) = good w" "good (w\<lparr>pw_memory_dirty := d\<rparr>) = good w"
  "good (w\<lparr>pw_virtual_memory := x\<rparr>) = good w" "good (w\<lparr>pw_virtual_dirty := d\<rparr>) = good w"
  "good (w\<lparr>pw_execution := e\<rparr>) = good w" "good (w\<lparr>pw_subview := v\<rparr>) = good w"
  "good (w\<lparr>pw_active := d\<rparr>) = good w" "good (w\<lparr>pw_disassembly_address := a\<rparr>) = good w"
  "good (w\<lparr>pw_virtual_start := b\<rparr>) = good w" "good (w\<lparr>pw_virtual_cursor := b\<rparr>) = good w"
  "good (w\<lparr>pw_virtual_initialized := d\<rparr>) = good w"
  by (auto intro: good_fields [rotated 4])

lemma ensure_virtual_ok: "good w \<Longrightarrow> \<exists>w'. ensure_virtual_cursor_visible w = Some w' \<and> good w'"
proof -
  assume ok: "good w"
  from good_shape [OF ok] obtain start where "ensure_virtual_cursor_visible w = Some (w\<lparr>pw_virtual_start := start\<rparr>)"
    using resized_virtual [of w] by auto
  with ok show ?thesis by simp
qed

lemma initialize_virtual_ok: "good w \<Longrightarrow> \<exists>w'. initialize_virtual_memory pc w = Some w' \<and> good w'"
  by (simp add: initialize_virtual_memory_def ensure_virtual_ok)

lemma nav_virtual_ok: "good w \<Longrightarrow> \<exists>w'. nav_virtual_memory m w = Some w' \<and> good w'"
  unfolding nav_virtual_memory_def Let_def by (rule ensure_virtual_ok) simp

lemma nav_disassembly_ok: "good w \<Longrightarrow> good (nav_disassembly m w)"
  by (simp add: nav_disassembly_def Let_def)

lemma nav_physical_ok:
  assumes "good w"
  shows "\<exists>w'. nav_physical_memory m w = Some w' \<and> good w'"
proof -
  have "\<exists>w'. ensure_cursor_visible (w\<lparr>pw_memory_cursor := memory_address_at (min n (memory_map_size - 1))\<rparr>) = Some w'
      \<and> good w'" for n
    using memory_region_address_at [of "min n (memory_map_size - 1)"]
    by (intro good_move [OF assms]) (auto simp: memory_map_size_eq)
  then show ?thesis by (simp add: nav_physical_memory_def Let_def)
qed

lemma primary_goto_ok:
  assumes "good w"
  shows "\<exists>w' actions. primary_goto value w = Some (w', actions) \<and> good w'"
proof (cases "parse_hex_address value")
  case (Inr address)
  show ?thesis
  proof (cases "pw_subview w")
    case PhysicalMemoryView
    with Inr assms show ?thesis
      using good_move [OF assms, of "PhysicalAddress address"]
      by (cases "memory_region (PhysicalAddress address) = None") (auto simp: primary_goto_def)
  next
    case VirtualMemoryView
    with Inr assms show ?thesis
      using ensure_virtual_ok [of "w\<lparr>pw_virtual_cursor := VirtualAddress address, pw_virtual_initialized := True\<rparr>"]
      by (auto simp: primary_goto_def)
  qed (use Inr assms in \<open>simp add: primary_goto_def\<close>)
qed (use assms in \<open>simp add: primary_goto_def\<close>)

lemma primary_select_ok:
  assumes "good w"
  shows "\<exists>w' actions. primary_update (EvPrimarySelected v) w = Some (w', actions) \<and> good w'"
  using assms initialize_virtual_ok [of "w\<lparr>pw_subview := v\<rparr>"]
  by (cases "pw_execution w") (fastforce simp: primary_update_def Let_def)+

lemma primary_navigate_ok:
  assumes "good w"
  shows "\<exists>w' actions. primary_update (EvNavigate m) w = Some (w', actions) \<and> good w'"
  using assms nav_physical_ok [of w m] nav_virtual_ok [of w m] nav_disassembly_ok [of w m]
  by (cases "pw_subview w") (auto simp: primary_update_def)

lemma primary_inspection_ok:
  assumes "good w" and "event_ok (EvInspection i)"
  shows "\<exists>w' actions. primary_update (EvInspection i) w = Some (w', actions) \<and> good w'"
proof (cases i)
  case (InspectedExecution execution)
  with assms(1) initialize_virtual_ok [of "w\<lparr>pw_execution := Some execution\<rparr>"] show ?thesis
    by (fastforce simp: primary_update_def Let_def)
next
  case (InspectedSearch found)
  with assms good_move [OF assms(1)] show ?thesis
    by (cases found) (fastforce simp: primary_update_def event_ok_def)+
qed (use assms(1) in \<open>simp_all add: primary_update_def\<close>)

lemma primary_event_handled:
  assumes "good w" and "event_ok event"
  shows "\<exists>w' actions. primary_update event w = Some (w', actions) \<and> good w'"
proof (cases event)
  case (EvInspection i)
  with assms primary_inspection_ok [of w i] show ?thesis by simp
next
  case (EvPrimarySelected v)
  with primary_select_ok [OF assms(1), of v] show ?thesis by simp
next
  case (EvNavigate m)
  with primary_navigate_ok [OF assms(1), of m] show ?thesis by simp
next
  case (EvGoto target)
  with primary_goto_ok [OF assms(1), of target] show ?thesis by (simp add: primary_update_def)
qed (use assms(1) in \<open>simp_all add: primary_update_def\<close>)

end

text \<open>The first condition: the window lies in its region and the cursor in mapped memory.\<close>

interpretation windowed: memory_pane primary_ok
proof
  fix w and address :: physical_address
  assume ok: "primary_ok w" and "memory_region address \<noteq> None"
  then obtain r where "memory_region address = Some r" by blast
  with ok show "\<exists>w'. ensure_cursor_visible (w\<lparr>pw_memory_cursor := address\<rparr>) = Some w' \<and> primary_ok w'"
    using ensure_cursor_visible_shows [of "w\<lparr>pw_memory_cursor := address\<rparr>" r]
    by (auto simp: primary_ok_def memory_shape_def range_in_region_def)
qed (simp_all add: primary_ok_def memory_shape_def range_in_region_def)

text \<open>The second: the cursor is in mapped memory, wherever the window is. A resize keeps it.\<close>

interpretation mapped: memory_pane primary_mapped
proof
  fix w and address :: physical_address
  assume "primary_mapped w" and "memory_region address \<noteq> None"
  then have "primary_mapped (w\<lparr>pw_memory_cursor := address\<rparr>)" by (simp add: primary_mapped_def memory_shape_def)
  from ensure_cursor_visible_total [OF this] this
  show "\<exists>w'. ensure_cursor_visible (w\<lparr>pw_memory_cursor := address\<rparr>) = Some w' \<and> primary_mapped w'"
    by (auto simp: primary_mapped_def memory_shape_def)
qed (simp_all add: primary_mapped_def memory_shape_def)

lemma primary_ok_mapped: "primary_ok w \<Longrightarrow> primary_mapped w"
  by (auto simp: primary_ok_def primary_mapped_def)

lemma resize_mapped:
  assumes "primary_mapped w"
  shows "\<exists>w'. update_memory_geometry width height w = Some w' \<and> primary_mapped w'"
proof -
  define columns :: nat where "columns = (if width \<ge> 46 then 8 else 4)"
  define rows :: u16 where "rows = max (if 4 \<le> height then height - 4 else 0) 1"
  define window where "window = (ucast rows :: u32) * of_nat columns"
  let ?w = "w\<lparr>pw_memory_columns := columns, pw_memory_window := window\<rparr>"
  have "columns = 4 \<or> columns = 8" by (simp add: columns_def)
  moreover have "rows \<noteq> 0" by (auto simp: rows_def max_def word_le_nat_alt)
  ultimately have "memory_shape ?w"
    using geometry_window [of rows columns] by (auto simp: memory_shape_def window_def)
  with assms have mapped: "primary_mapped ?w" by (simp add: primary_mapped_def)
  from ensure_cursor_visible_total [OF mapped] obtain shown
    where shown: "ensure_cursor_visible ?w = Some (?w\<lparr>pw_memory_range := shown\<rparr>)" by blast
  have again: "primary_mapped (?w\<lparr>pw_memory_range := shown\<rparr>)"
    using mapped by (simp add: primary_mapped_def memory_shape_def)
  from mapped.ensure_virtual_ok [OF again] obtain v
    where "ensure_virtual_cursor_visible (?w\<lparr>pw_memory_range := shown\<rparr>) = Some v" "primary_mapped v" by blast
  with shown assms show ?thesis
    by (auto simp: update_memory_geometry_def Let_def columns_def [symmetric] rows_def [symmetric] window_def [symmetric])
qed

text \<open>No event makes the primary pane panic, in any of its views: from a state whose cursor is in
  mapped memory and whose window lies inside one region, every event is handled and leaves such a
  state (a search result is an address in RAM).\<close>

theorem primary_pane_handles_every_event:
  assumes "primary_ok w" and "event_ok event"
  shows "\<exists>w' actions. primary_update event w = Some (w', actions) \<and> primary_ok w'"
  using assms by (rule windowed.primary_event_handled)

theorem primary_pane_handles_every_event_witness:
  "\<exists>w' actions. primary_update (EvNavigate MoveBottom) primary_widget_default = Some (w', actions) \<and> primary_ok w'"
  by (rule primary_pane_handles_every_event [OF primary_ok_default]) (simp add: event_ok_def)

end
