(* ===== verification/Tui_Console.thy ===== *)
theory Tui_Console
  imports Tui_Types "HOL-Library.Sublist"
begin

text \<open>
  The console pane (\<open>widgets/console.rs\<close>): the transcript of one UART, the echo of local input, and
  the search for the part of a new TX history that was not seen before. The search is the failure
  table of Knuth, Morris and Pratt on mutable vectors; an index out of range or a loop that does not
  end is \<open>None\<close>. It is proved total and equal to the longest overlap.
\<close>

section \<open>The overlap of two histories\<close>

text \<open>\<open>while matched > 0 && byte != current[matched]\<close>.\<close>

partial_function (option) kmp_back :: "usize list \<Rightarrow> 'a list \<Rightarrow> 'a \<Rightarrow> usize \<Rightarrow> usize option" where
  "kmp_back prefix_of current byte matched =
     (if matched = 0 then Some 0
      else if matched \<ge> length current then None
      else if byte = current ! matched then Some matched
      else if matched - 1 \<ge> length prefix_of then None
      else kmp_back prefix_of current byte (prefix_of ! (matched - 1)))"

definition kmp_advance :: "usize list \<Rightarrow> 'a list \<Rightarrow> 'a \<Rightarrow> usize \<Rightarrow> usize option" where
  "kmp_advance prefix_of current byte matched =
     (case kmp_back prefix_of current byte matched of
        None \<Rightarrow> None
      | Some matched \<Rightarrow>
          if matched \<ge> length current then None
          else Some (if byte = current ! matched then matched + 1 else matched))"

fun kmp_fill :: "'a list \<Rightarrow> usize list \<Rightarrow> usize list \<Rightarrow> usize list option" where
  "kmp_fill current [] prefix_of = Some prefix_of"
| "kmp_fill current (index # rest) prefix_of =
     (case kmp_advance prefix_of current (current ! index) (prefix_of ! (index - 1)) of
        None \<Rightarrow> None
      | Some matched \<Rightarrow> kmp_fill current rest (prefix_of[index := matched]))"

text \<open>The indices are below the length of both vectors.\<close>

definition kmp_table :: "'a list \<Rightarrow> usize list option" where
  "kmp_table current = kmp_fill current [1..<length current] (replicate (length current) 0)"

fun kmp_scan :: "usize list \<Rightarrow> 'a list \<Rightarrow> 'a list \<Rightarrow> usize \<Rightarrow> usize option" where
  "kmp_scan prefix_of current [] matched = Some matched"
| "kmp_scan prefix_of current (byte # rest) matched =
     (case kmp_advance prefix_of current byte matched of
        None \<Rightarrow> None
      | Some matched \<Rightarrow>
          if matched = length current \<and> rest \<noteq> [] then
            (if matched - 1 < length prefix_of then kmp_scan prefix_of current rest (prefix_of ! (matched - 1))
             else None)
          else kmp_scan prefix_of current rest matched)"

definition suffix_prefix_overlap :: "'a list \<Rightarrow> 'a list \<Rightarrow> usize option" where
  "suffix_prefix_overlap previous current =
     (if previous = [] \<or> current = [] then Some 0
      else case kmp_table current of
        None \<Rightarrow> None
      | Some prefix_of \<Rightarrow> kmp_scan prefix_of current previous 0)"

section \<open>One stream\<close>

definition TRANSCRIPT_CAPACITY :: usize where
  "TRANSCRIPT_CAPACITY = 16 * 1024"

record console_stream =
  cs_transcript :: "u8 list"
  cs_input_line :: "u8 list"
  cs_observed_tx :: "u8 list"
  cs_initialized :: bool

definition console_stream_default :: console_stream where
  "console_stream_default =
     \<lparr>cs_transcript = [], cs_input_line = [], cs_observed_tx = [], cs_initialized = False\<rparr>"

definition transcript_push :: "u8 \<Rightarrow> console_stream \<Rightarrow> console_stream" where
  "transcript_push byte s = s\<lparr>cs_transcript := push_bounded TRANSCRIPT_CAPACITY byte (cs_transcript s)\<rparr>"

definition transcript_append :: "u8 list \<Rightarrow> console_stream \<Rightarrow> console_stream" where
  "transcript_append bytes s = fold transcript_push bytes s"

definition console_observe :: "uart_inspection \<Rightarrow> console_stream \<Rightarrow> console_stream option" where
  "console_observe uart s =
     (let seen = (\<lambda>s. s\<lparr>cs_observed_tx := ui_tx_history uart\<rparr>) in
      if \<not> cs_initialized s then
        Some (seen ((transcript_append (cs_transcript s)
          (transcript_append (ui_tx_history uart) (s\<lparr>cs_transcript := []\<rparr>)))\<lparr>cs_initialized := True\<rparr>))
      else case suffix_prefix_overlap (cs_observed_tx s) (ui_tx_history uart) of
        None \<Rightarrow> None
      | Some overlap \<Rightarrow>
          if overlap \<le> length (ui_tx_history uart)
          then Some (seen (transcript_append (drop overlap (ui_tx_history uart)) s)) else None)"

text \<open>The start of the last character of the input line, from its last byte backwards.\<close>

fun char_start :: "u8 list \<Rightarrow> usize \<Rightarrow> usize" where
  "char_start line 0 = 0"
| "char_start line (Suc start) =
     (if line ! Suc start AND 0xc0 = 0x80 then char_start line start else Suc start)"

definition console_backspace :: "console_stream \<Rightarrow> console_stream" where
  "console_backspace s =
     (case length (cs_input_line s) of
        0 \<Rightarrow> s
      | Suc n \<Rightarrow>
          (let start = char_start (cs_input_line s) n;
               removed = drop start (cs_input_line s);
               kept = length (cs_transcript s) - length removed;
               s = s\<lparr>cs_input_line := take start (cs_input_line s)\<rparr>
           in if length removed \<le> length (cs_transcript s) \<and> drop kept (cs_transcript s) = removed
              then s\<lparr>cs_transcript := take kept (cs_transcript s)\<rparr> else s))"

definition echo_byte :: "u8 \<Rightarrow> console_stream \<Rightarrow> console_stream" where
  "echo_byte byte s =
     (if byte = 10 then (transcript_append [byte] s)\<lparr>cs_input_line := []\<rparr>
      else if byte = 8 \<or> byte = 127 then console_backspace s
      else (let s = transcript_append [byte] s in s\<lparr>cs_input_line := cs_input_line s @ [byte]\<rparr>))"

definition echo_input :: "u8 list \<Rightarrow> console_stream \<Rightarrow> console_stream" where
  "echo_input bytes s = fold echo_byte bytes s"

section \<open>The widget\<close>

record console_widget =
  cw_uart :: uart_port
  cw_uart0 :: console_stream
  cw_uart1 :: console_stream
  cw_from_bottom :: usize
  cw_active :: bool

definition console_widget_default :: console_widget where
  "console_widget_default =
     \<lparr>cw_uart = PortUart0, cw_uart0 = console_stream_default, cw_uart1 = console_stream_default,
      cw_from_bottom = 0, cw_active = True\<rparr>"

definition console_stream_of :: "console_widget \<Rightarrow> console_stream" where
  "console_stream_of w = (case cw_uart w of PortUart0 \<Rightarrow> cw_uart0 w | PortUart1 \<Rightarrow> cw_uart1 w)"

definition set_console_stream :: "console_stream \<Rightarrow> console_widget \<Rightarrow> console_widget" where
  "set_console_stream s w =
     (case cw_uart w of PortUart0 \<Rightarrow> w\<lparr>cw_uart0 := s\<rparr> | PortUart1 \<Rightarrow> w\<lparr>cw_uart1 := s\<rparr>)"

definition console_send :: "u8 list \<Rightarrow> console_widget \<Rightarrow> console_widget \<times> action list" where
  "console_send bytes w =
     (set_console_stream (echo_input bytes (console_stream_of w)) w, [ActSendUart (cw_uart w) bytes])"

definition console_handle_key :: "key_event \<Rightarrow> input_mode \<Rightarrow> console_widget \<Rightarrow> console_widget \<times> action list" where
  "console_handle_key key mode w =
     (if mode = NormalMode \<and> ke_code key = Key CHR ''i'' then (w, [ActSetMode InsertMode])
      else if mode = InsertMode then
        (case ke_code key of
           KeyEnter \<Rightarrow> console_send [10] w
         | KeyBackspace \<Rightarrow> console_send [8] w
         | KeyChar c \<Rightarrow> console_send (encode_utf8 c) w
         | _ \<Rightarrow> (w, []))
      else (w, []))"

definition peripherals_request :: "widget_id \<Rightarrow> action" where
  "peripherals_request target = ActRequestInspection target (RequestMachine InspectPeripherals)"

definition console_navigate :: "motion \<Rightarrow> usize \<Rightarrow> usize" where
  "console_navigate m from_bottom =
     (case m of
        MoveUp count \<Rightarrow> saturating_add_usize from_bottom count
      | MoveLeft count \<Rightarrow> saturating_add_usize from_bottom count
      | MoveDown count \<Rightarrow> from_bottom - count
      | MoveRight count \<Rightarrow> from_bottom - count
      | MoveTop \<Rightarrow> usize_max
      | MoveBottom \<Rightarrow> 0
      | _ \<Rightarrow> from_bottom)"

definition console_update :: "app_event \<Rightarrow> console_widget \<Rightarrow> (console_widget \<times> action list) option" where
  "console_update event w =
     (case event of
        EvInspection (InspectedPeripherals peripherals) \<Rightarrow>
          (case (console_observe (pi_uart0 peripherals) (cw_uart0 w),
                 console_observe (pi_uart1 peripherals) (cw_uart1 w)) of
             (Some s0, Some s1) \<Rightarrow> Some (w\<lparr>cw_uart0 := s0, cw_uart1 := s1\<rparr>, [])
           | _ \<Rightarrow> None)
      | EvViewChanged view \<Rightarrow>
          Some (w\<lparr>cw_active := view = RuntimeView\<rparr>,
            if view = RuntimeView then [peripherals_request ConsoleId] else [])
      | EvReset \<Rightarrow>
          Some (w\<lparr>cw_uart0 := console_stream_default, cw_uart1 := console_stream_default,
            cw_from_bottom := 0\<rparr>, [])
      | EvPulse \<Rightarrow> Some (w, if cw_active w then [peripherals_request ConsoleId] else [])
      | EvUartSelected uart \<Rightarrow> Some (w\<lparr>cw_uart := uart\<rparr>, [])
      | EvNavigate m \<Rightarrow> Some (w\<lparr>cw_from_bottom := console_navigate m (cw_from_bottom w)\<rparr>, [])
      | EvInsertText text \<Rightarrow> Some (console_send (string_bytes text) w)
      | _ \<Rightarrow> Some (w, []))"


section \<open>The search is total and finds the longest overlap\<close>

text \<open>The specification: the longest prefix of the new history that ends the old one.\<close>

fun overlap_upto :: "'a list \<Rightarrow> 'a list \<Rightarrow> nat \<Rightarrow> nat" where
  "overlap_upto previous current 0 = 0"
| "overlap_upto previous current (Suc n) =
     (if suffix (take (Suc n) current) previous then Suc n else overlap_upto previous current n)"

definition longest_overlap :: "'a list \<Rightarrow> 'a list \<Rightarrow> nat" where
  "longest_overlap previous current = overlap_upto previous current (length current)"

definition longest_below :: "nat \<Rightarrow> 'a list \<Rightarrow> 'a list \<Rightarrow> nat \<Rightarrow> bool" where
  "longest_below bound text current k \<longleftrightarrow>
     k < bound \<and> suffix (take k current) text \<and> (\<forall>j < bound. suffix (take j current) text \<longrightarrow> j \<le> k)"

lemma longest_below_overlap_upto: "longest_below (Suc n) previous current (overlap_upto previous current n)"
  by (induction n) (auto simp: longest_below_def less_Suc_eq)

lemma longest_below_unique: "longest_below n t c k \<Longrightarrow> longest_below n t c j \<Longrightarrow> j = k"
  by (meson longest_below_def le_antisym)

lemma suffix_take_snoc:
  assumes "j < length c"
  shows "suffix (take (Suc j) c) (t @ [b]) \<longleftrightarrow> suffix (take j c) t \<and> c ! j = b"
  using assms by (auto simp: take_Suc_conv_app_nth)

lemma suffix_within:
  assumes "suffix (take m c) t" and "j \<le> m" and "m \<le> length c"
  shows "suffix (take j c) t \<longleftrightarrow> suffix (take j c) (take m c)"
proof
  assume "suffix (take j c) t"
  with assms show "suffix (take j c) (take m c)" using suffix_length_suffix [of "take j c" t "take m c"] by simp
next
  assume "suffix (take j c) (take m c)"
  then show "suffix (take j c) t" using assms(1) by (rule suffix_order.trans)
qed

text \<open>The first \<open>n\<close> entries of the table are the longest proper borders.\<close>

definition table_ok :: "nat list \<Rightarrow> 'a list \<Rightarrow> nat \<Rightarrow> bool" where
  "table_ok p c n \<longleftrightarrow> length p = length c \<and> n \<le> length c
     \<and> (\<forall>i < n. longest_below (Suc i) (take (Suc i) c) c (p ! i))"

lemma table_okD: "table_ok p c n \<Longrightarrow> 0 < m \<Longrightarrow> m \<le> n \<Longrightarrow> longest_below m (take m c) c (p ! (m - 1))"
  by (cases m) (auto simp: table_ok_def)

lemma kmp_back_finds:
  assumes "table_ok p c n" and "m \<le> n" and "m < length c"
  shows "\<exists>k. kmp_back p c b m = Some k \<and> k \<le> m \<and> suffix (take k c) (take m c) \<and> (k = 0 \<or> c ! k = b)
     \<and> (\<forall>j. k < j \<and> j \<le> m \<and> suffix (take j c) (take m c) \<longrightarrow> c ! j \<noteq> b)"
  using assms(2,3)
proof (induction m rule: less_induct)
  case (less m)
  consider "m = 0" | "0 < m" "c ! m = b" | "0 < m" "c ! m \<noteq> b" by blast
  then show ?case
  proof cases
    case 3
    let ?m = "p ! (m - 1)"
    have below: "longest_below m (take m c) c ?m" using assms(1) 3(1) less.prems(1) by (rule table_okD)
    then have m': "?m < m" "suffix (take ?m c) (take m c)" by (simp_all add: longest_below_def)
    have best: "j \<le> ?m" if "j < m" "suffix (take j c) (take m c)" for j
      using below that unfolding longest_below_def by blast
    from less.IH [OF m'(1)] m' less.prems obtain k where
      k: "kmp_back p c b ?m = Some k" "k \<le> ?m" "suffix (take k c) (take ?m c)" "k = 0 \<or> c ! k = b"
         "\<And>j. k < j \<Longrightarrow> j \<le> ?m \<Longrightarrow> suffix (take j c) (take ?m c) \<Longrightarrow> c ! j \<noteq> b" by auto
    have "kmp_back p c b m = Some k"
      using 3 less.prems k(1) assms(1) by (subst kmp_back.simps) (auto simp: table_ok_def)
    moreover have "c ! j \<noteq> b" if "k < j" "j \<le> m" "suffix (take j c) (take m c)" for j
    proof (cases "j = m")
      case False
      with that(2) have "j < m" by simp
      then have "j \<le> ?m" using that(3) by (rule best)
      moreover have "?m \<le> length c" using m'(1) less.prems(2) by simp
      ultimately have "suffix (take j c) (take ?m c)" using suffix_within [OF m'(2)] that(3) by blast
      with that(1) \<open>j \<le> ?m\<close> show ?thesis by (rule k(5))
    qed (use 3 in simp)
    moreover have "k \<le> m" using k(2) m'(1) by simp
    moreover have "suffix (take k c) (take m c)" using k(3) m'(2) by (rule suffix_order.trans)
    ultimately show ?thesis using k(4) by blast
  qed (subst kmp_back.simps, use less.prems in auto)+
qed

text \<open>One character carries the longest match below a bound to the longest match below the next.\<close>

lemma kmp_advance_finds:
  assumes "table_ok p c n" and "m \<le> n" and "bound \<le> length c" and "longest_below bound t c m"
  shows "\<exists>k. kmp_advance p c b m = Some k \<and> longest_below (Suc bound) (t @ [b]) c k"
proof -
  from assms(3,4) have m: "m < bound" "m < length c" "suffix (take m c) t"
      "\<And>j. j < bound \<Longrightarrow> suffix (take j c) t \<Longrightarrow> j \<le> m"
    by (auto simp: longest_below_def)
  from kmp_back_finds [OF assms(1,2) m(2), of b] obtain k where
    k: "kmp_back p c b m = Some k" "k \<le> m" "suffix (take k c) (take m c)" "k = 0 \<or> c ! k = b"
       "\<And>j. k < j \<Longrightarrow> j \<le> m \<Longrightarrow> suffix (take j c) (take m c) \<Longrightarrow> c ! j \<noteq> b" by blast
  have best: "j \<le> k" if "j < bound" "suffix (take j c) t" "c ! j = b" for j
  proof (rule ccontr)
    assume "\<not> j \<le> k"
    with that m suffix_within [OF m(3), of j] k(5) [of j] show False by simp
  qed
  have from_k: "suffix (take k c) t" using k(3) m(3) by (rule suffix_order.trans)
  have step: "suffix (take (Suc j) c) (t @ [b]) \<longleftrightarrow> suffix (take j c) t \<and> c ! j = b" if "j < bound" for j
    using that assms(3) by (intro suffix_take_snoc) linarith
  show ?thesis
  proof (cases "b = c ! k")
    case True
    have "j \<le> Suc k" if "j < Suc bound" "suffix (take j c) (t @ [b])" for j
    proof (cases j)
      case (Suc i)
      with that step [of i] best [of i] show ?thesis by auto
    qed simp
    moreover have "suffix (take (Suc k) c) (t @ [b])" using step [of k] True from_k k(2) m(1) by simp
    ultimately have "longest_below (Suc bound) (t @ [b]) c (Suc k)"
      using k(2) m(1) by (simp add: longest_below_def)
    with True k m show ?thesis by (auto simp: kmp_advance_def)
  next
    case False
    with k(4) have [simp]: "k = 0" by auto
    have "j = 0" if "j < Suc bound" "suffix (take j c) (t @ [b])" for j
    proof (cases j)
      case (Suc i)
      with that step [of i] have "suffix (take i c) t" "c ! i = b" by auto
      with best [of i] that Suc False show ?thesis by auto
    qed
    then have "longest_below (Suc bound) (t @ [b]) c 0" by (auto simp: longest_below_def)
    with False k m show ?thesis by (auto simp: kmp_advance_def)
  qed
qed


lemma table_ok_init: "c \<noteq> [] \<Longrightarrow> table_ok (replicate (length c) 0) c 1"
  by (cases c) (auto simp: table_ok_def longest_below_def)

lemma table_ok_update:
  assumes "table_ok p c i" and "i < length c" and "longest_below (Suc i) (take (Suc i) c) c k"
  shows "table_ok (p[i := k]) c (Suc i)"
  using assms by (auto simp: table_ok_def nth_list_update less_Suc_eq)

lemma kmp_fill_finds:
  assumes "table_ok p c i" and "0 < i"
  shows "\<exists>q. kmp_fill c [i..<length c] p = Some q \<and> table_ok q c (length c)"
  using assms
proof (induction "length c - i" arbitrary: i p)
  case 0
  then have "i = length c" by (simp add: table_ok_def)
  with 0 show ?case by auto
next
  case (Suc d)
  then have i: "i < length c" by simp
  have "longest_below i (take i c) c (p ! (i - 1))"
    using Suc.prems by (intro table_okD [of p c i i]) simp_all
  moreover from this have "p ! (i - 1) \<le> i" by (simp add: longest_below_def)
  ultimately obtain k where k: "kmp_advance p c (c ! i) (p ! (i - 1)) = Some k"
      "longest_below (Suc i) (take i c @ [c ! i]) c k"
    using kmp_advance_finds [OF Suc.prems(1)] i by (meson less_imp_le)
  then have "table_ok (p[i := k]) c (Suc i)"
    using i by (intro table_ok_update Suc.prems) (simp_all add: take_Suc_conv_app_nth)
  with Suc.hyps(1) [of "Suc i" "p[i := k]"] Suc.hyps(2)
  obtain q where "kmp_fill c [Suc i..<length c] (p[i := k]) = Some q" "table_ok q c (length c)"
    by (metis Suc_diff_Suc Suc_inject i zero_less_Suc)
  with k(1) i show ?case by (simp add: upt_conv_Cons)
qed

lemma kmp_scan_finds:
  assumes "table_ok p c (length c)" and "c \<noteq> []" and "longest_below (length c) t c m"
  shows "\<exists>k. kmp_scan p c bs m = Some k \<and>
    (if bs = [] then k = m else longest_below (Suc (length c)) (t @ bs) c k)"
  using assms(3)
proof (induction bs arbitrary: t m)
  case (Cons b bs)
  from Cons.prems have "m \<le> length c" by (simp add: longest_below_def)
  then obtain k where k: "kmp_advance p c b m = Some k" "longest_below (Suc (length c)) (t @ [b]) c k"
    using kmp_advance_finds [OF assms(1) _ order.refl Cons.prems] by blast
  show ?case
  proof (cases "bs = []")
    case False
    define j where "j = (if k = length c then p ! (k - 1) else k)"
    have "longest_below (length c) (t @ [b]) c j"
    proof (cases "k = length c")
      case True
      have "longest_below (length c) (take (length c) c) c (p ! (length c - 1))"
        using assms(1,2) by (intro table_okD [OF assms(1)]) simp_all
      moreover have "suffix (take i c) (t @ [b]) \<longleftrightarrow> suffix (take i c) (take (length c) c)" if "i \<le> length c" for i
        using k(2) True that by (intro suffix_within) (simp_all add: longest_below_def)
      ultimately show ?thesis using True by (simp add: j_def longest_below_def)
    next
      case False
      with k(2) assms(2) show ?thesis by (auto simp: j_def longest_below_def simp del: suffix_snoc)
    qed
    from Cons.IH [OF this] False obtain r where
      "kmp_scan p c bs j = Some r" "longest_below (Suc (length c)) (t @ b # bs) c r" by auto
    moreover have "length c - 1 < length p" using assms(1,2) by (simp add: table_ok_def)
    ultimately show ?thesis using k(1) False by (auto simp: j_def)
  qed (use k in auto)
qed simp

lemma overlap_search:
  "suffix_prefix_overlap previous current = Some (longest_overlap previous current)"
proof (cases "previous = [] \<or> current = []")
  case True
  have "overlap_upto [] current n = 0" if "n \<le> length current" for n
    using that by (induction n) auto
  with True show ?thesis by (auto simp: suffix_prefix_overlap_def longest_overlap_def)
next
  case False
  with kmp_fill_finds [OF table_ok_init] obtain p where
    p: "kmp_table current = Some p" "table_ok p current (length current)"
    by (auto simp: kmp_table_def)
  have "longest_below (length current) [] current 0"
    using False by (auto simp: longest_below_def)
  from kmp_scan_finds [OF p(2) _ this, of previous] False obtain k where
    "kmp_scan p current previous 0 = Some k" "longest_below (Suc (length current)) previous current k" by auto
  with longest_below_unique [OF _ longest_below_overlap_upto] p False show ?thesis
    by (auto simp: suffix_prefix_overlap_def longest_overlap_def)
qed

text \<open>C19. The overlap search of the console terminates without a panic and returns the length of the
  longest prefix of the new TX history that is a suffix of the one seen before.\<close>

theorem overlap_search_is_longest:
  "suffix_prefix_overlap previous current = Some (longest_overlap previous current)"
  by (rule overlap_search)


section \<open>The transcript\<close>

interpretation transcript: bounded_history transcript_push cs_transcript "\<lambda>_. TRANSCRIPT_CAPACITY"
  by unfold_locales (simp_all add: transcript_push_def TRANSCRIPT_CAPACITY_def)

lemma transcript_append_rest [simp]:
  "cs_input_line (transcript_append bytes s) = cs_input_line s"
  "cs_observed_tx (transcript_append bytes s) = cs_observed_tx s"
  "cs_initialized (transcript_append bytes s) = cs_initialized s"
  by (induction bytes arbitrary: s) (simp_all add: transcript_append_def transcript_push_def)

lemma transcript_append_last:
  "length (cs_transcript s) \<le> TRANSCRIPT_CAPACITY \<Longrightarrow>
     cs_transcript (transcript_append bytes s) = last_n TRANSCRIPT_CAPACITY (cs_transcript s @ bytes)"
  using transcript.push_all [of s bytes] by (simp add: transcript_append_def)

lemma transcript_append_room:
  assumes "length (cs_transcript s) + length bytes \<le> TRANSCRIPT_CAPACITY"
  shows "transcript_append bytes s = s\<lparr>cs_transcript := cs_transcript s @ bytes\<rparr>"
  using assms transcript_append_last [of s bytes] by (intro console_stream.equality) simp_all

lemma transcript_append_within:
  "length (cs_transcript s) \<le> TRANSCRIPT_CAPACITY \<Longrightarrow>
     length (cs_transcript (transcript_append bytes s)) \<le> TRANSCRIPT_CAPACITY"
  by (simp add: transcript_append_last)

lemma console_backspace_within:
  "length (cs_transcript s) \<le> TRANSCRIPT_CAPACITY \<Longrightarrow>
     length (cs_transcript (console_backspace s)) \<le> TRANSCRIPT_CAPACITY"
  by (auto simp: console_backspace_def Let_def split: nat.split)

lemma echo_input_within:
  "length (cs_transcript s) \<le> TRANSCRIPT_CAPACITY \<Longrightarrow>
     length (cs_transcript (echo_input bytes s)) \<le> TRANSCRIPT_CAPACITY"
  unfolding echo_input_def
  by (induction bytes arbitrary: s)
     (simp_all add: echo_byte_def Let_def transcript_append_within console_backspace_within)

lemma longest_overlap_props:
  "longest_overlap p c \<le> length c" "suffix (take (longest_overlap p c) c) p"
  "j \<le> length c \<Longrightarrow> suffix (take j c) p \<Longrightarrow> j \<le> longest_overlap p c"
  using longest_below_overlap_upto [of "length c" p c]
  by (auto simp: longest_overlap_def longest_below_def less_Suc_eq_le)

text \<open>What the device's bounded history shows of a growing output, the search recovers: it never takes
  bytes that were seen for new ones, and it finds all new ones while nothing was dropped.\<close>

lemma drop_overlap:
  "suffix (drop (longest_overlap (last_n n seen) (last_n n (seen @ new))) (last_n n (seen @ new))) new"
  "length (seen @ new) \<le> n \<Longrightarrow>
     drop (longest_overlap (last_n n seen) (last_n n (seen @ new))) (last_n n (seen @ new)) = new"
proof -
  define c where "c = last_n (n - length new) seen"
  show "suffix (drop (longest_overlap (last_n n seen) (last_n n (seen @ new))) (last_n n (seen @ new))) new"
  proof (cases "n \<le> length new")
    case True
    then have "suffix (last_n n (seen @ new)) new"
      by (simp add: last_n_def suffix_drop)
    then show ?thesis using suffix_drop suffix_order.trans by blast
  next
    case False
    then have eq: "last_n n (seen @ new) = c @ new" by (simp add: c_def last_n_def)
    have "suffix c (last_n n seen)"
      by (auto simp: c_def last_n_def intro!: suffix_length_suffix [of _ seen] suffix_drop)
    with eq have "length c \<le> longest_overlap (last_n n seen) (c @ new)"
      by (intro longest_overlap_props) simp_all
    with eq show ?thesis by (simp add: suffix_drop)
  qed
  assume "length (seen @ new) \<le> n"
  moreover from this have "longest_overlap seen (seen @ new) = length seen"
    using longest_overlap_props(2) [of seen "seen @ new", THEN suffix_length_le]
      longest_overlap_props(1) [of seen "seen @ new"]
      longest_overlap_props(3) [of "length seen" "seen @ new" seen] by simp
  ultimately show "drop (longest_overlap (last_n n seen) (last_n n (seen @ new))) (last_n n (seen @ new)) = new"
    by simp
qed

text \<open>C20. The console, on a device history that keeps the last \<open>n\<close> bytes of the output, appends to its
  transcript only bytes that were sent since the last observation, never one that it has shown;
  while the history has dropped nothing, it appends exactly the new bytes. The transcript stays
  within its capacity and keeps the latest bytes.\<close>

theorem console_shows_new_output:
  assumes "cs_initialized s" and "length (cs_transcript s) \<le> TRANSCRIPT_CAPACITY"
    and "cs_observed_tx s = last_n n seen" and "ui_tx_history uart = last_n n (seen @ new)"
  shows "\<exists>shown s'. console_observe uart s = Some s'
     \<and> cs_transcript s' = last_n TRANSCRIPT_CAPACITY (cs_transcript s @ shown)
     \<and> cs_observed_tx s' = last_n n (seen @ new)
     \<and> suffix shown new \<and> (length (seen @ new) \<le> n \<longrightarrow> shown = new)"
proof -
  let ?k = "longest_overlap (last_n n seen) (last_n n (seen @ new))"
  have "?k \<le> length (last_n n (seen @ new))" by (rule longest_overlap_props)
  then have "\<exists>s'. console_observe uart s = Some s'
      \<and> cs_transcript s' = last_n TRANSCRIPT_CAPACITY (cs_transcript s @ drop ?k (last_n n (seen @ new)))
      \<and> cs_observed_tx s' = last_n n (seen @ new)"
    using assms by (simp add: console_observe_def overlap_search transcript_append_last)
  then show ?thesis using drop_overlap [where n = n and seen = seen and new = new] by blast
qed

theorem console_shows_new_output_witness:
  "\<exists>shown s'. console_observe (uart_inspect ((uart_new 8 8 SrcUart0)\<lparr>ua_tx := [109, 115, 104]\<rparr>))
       (console_stream_default\<lparr>cs_initialized := True, cs_observed_tx := [109, 115]\<rparr>) = Some s'
     \<and> cs_transcript s' = last_n TRANSCRIPT_CAPACITY shown \<and> shown = [104]"
  using console_shows_new_output
    [of "console_stream_default\<lparr>cs_initialized := True, cs_observed_tx := [109, 115]\<rparr>" 8 "[109, 115]"
      "uart_inspect ((uart_new 8 8 SrcUart0)\<lparr>ua_tx := [109, 115, 104]\<rparr>)" "[104]"]
  by (auto simp: console_stream_default_def uart_inspect_def)

text \<open>When the history has rolled over, repeated output can be hidden: the same byte once more.\<close>

lemma rollover_hides_repeated_byte:
  assumes "0 < n"
  shows "drop (longest_overlap (last_n n (replicate n x)) (last_n n (replicate n x @ [x])))
           (last_n n (replicate n x @ [x])) = []"
proof -
  have "last_n n (replicate n x @ [x]) = replicate n x"
    by (simp add: last_n_def replicate_append_same)
  moreover have "n \<le> longest_overlap (replicate n x) (replicate n x)"
    by (intro longest_overlap_props) simp_all
  ultimately show ?thesis by simp
qed


section \<open>Typing and erasing a character\<close>

text \<open>A continuation byte is recognised, and no first byte is one.\<close>

lemma utf8_marks:
  "n < 64 \<Longrightarrow> of_nat (0x80 + n) AND (0xc0 :: u8) = 0x80"
  "n < 64 \<Longrightarrow> of_nat (0xc0 + n) AND (0xc0 :: u8) = 0xc0"
proof -
  have "\<forall>n \<in> set [0..<64]. of_nat (0x80 + n) AND (0xc0 :: u8) = 0x80 \<and> of_nat (0xc0 + n) AND (0xc0 :: u8) = 0xc0"
    by code_simp
  then show "n < 64 \<Longrightarrow> of_nat (0x80 + n) AND (0xc0 :: u8) = 0x80"
    "n < 64 \<Longrightarrow> of_nat (0xc0 + n) AND (0xc0 :: u8) = 0xc0" by simp_all
qed

text \<open>The shape of an encoded character: one byte, or a leading byte and continuation bytes.\<close>

definition is_continuation :: "u8 \<Rightarrow> bool" where
  "is_continuation b \<longleftrightarrow> b AND 0xc0 = 0x80"

lemma encode_utf8_shape:
  assumes "c < 0x110000"
  shows "\<exists>b bs. encode_utf8 c = b # bs \<and> \<not> is_continuation b \<and> list_all is_continuation bs
    \<and> (bs = [] \<longrightarrow> b = of_nat c \<and> c < 0x80) \<and> (bs \<noteq> [] \<longrightarrow> b AND 0xc0 = 0xc0)"
proof -
  have lead: "of_nat (0xe0 + n) AND (0xc0 :: u8) = 0xc0" if "n < 16" for n
    using that utf8_marks(2) [of "0x20 + n"] by (simp add: ac_simps)
  have lead': "of_nat (0xf0 + n) AND (0xc0 :: u8) = 0xc0" if "n < 16" for n
    using that utf8_marks(2) [of "0x30 + n"] by (simp add: ac_simps)
  have one: "\<not> is_continuation (of_nat c)" if "c < 0x80"
  proof -
    have "\<forall>n \<in> set [0..<128]. \<not> is_continuation (of_nat n)" by code_simp
    with that show ?thesis by simp
  qed
  consider "c < 0x80" | "0x80 \<le> c" "c < 0x800" | "0x800 \<le> c" "c < 0x10000" | "0x10000 \<le> c" by linarith
  then show ?thesis
  proof cases
    case 2
    then have "c div 64 < 64" by simp
    with 2 show ?thesis
      using utf8_marks(2) [of "c div 64"] utf8_marks(1) [of "c mod 64"]
      by (simp add: encode_utf8_def is_continuation_def)
  next
    case 3
    then show ?thesis
      using lead [of "c div 4096"] utf8_marks(1) [of "c div 64 mod 64"] utf8_marks(1) [of "c mod 64"]
      by (simp add: encode_utf8_def is_continuation_def)
  next
    case 4
    with assms show ?thesis
      using lead' [of "c div 262144"] utf8_marks(1) [of "c div 4096 mod 64"]
        utf8_marks(1) [of "c div 64 mod 64"] utf8_marks(1) [of "c mod 64"]
      by (simp add: encode_utf8_def is_continuation_def)
  qed (use one in \<open>simp add: encode_utf8_def\<close>)
qed


lemma echo_plain_bytes:
  assumes "list_all (\<lambda>b. b \<noteq> 10 \<and> b \<noteq> 8 \<and> b \<noteq> 127) bs"
    and "length (cs_transcript s) + length bs \<le> TRANSCRIPT_CAPACITY"
  shows "echo_input bs s = s\<lparr>cs_transcript := cs_transcript s @ bs, cs_input_line := cs_input_line s @ bs\<rparr>"
  using assms
proof (induction bs arbitrary: s)
  case (Cons b bs)
  then have "echo_byte b s = s\<lparr>cs_transcript := cs_transcript s @ [b], cs_input_line := cs_input_line s @ [b]\<rparr>"
    by (simp add: echo_byte_def Let_def transcript_append_room)
  with Cons.IH [of "echo_byte b s"] Cons.prems show ?case by (simp add: echo_input_def)
qed (simp add: echo_input_def)

lemma char_start_last:
  assumes "\<not> is_continuation b" and "list_all is_continuation bs"
  shows "char_start (line @ b # bs) (length line + length bs) = length line"
  using assms(2)
proof (induction bs rule: rev_induct)
  case Nil
  show ?case using assms(1) by (cases "length line") (auto simp: is_continuation_def nth_append)
next
  case (snoc c cs)
  have at: "char_start (xs @ [c]) n = char_start xs n" if "n < length xs" for xs :: "u8 list" and n
    using that by (induction n) (simp_all add: nth_append)
  from snoc show ?case
    using at [of "length line + length cs" "line @ b # cs"]
    by (simp add: is_continuation_def nth_append)
qed

lemma backspace_undoes:
  assumes "\<not> is_continuation b" and "list_all is_continuation bs"
  shows "console_backspace (s\<lparr>cs_transcript := cs_transcript s @ b # bs, cs_input_line := cs_input_line s @ b # bs\<rparr>) = s"
  using char_start_last [OF assms, of "cs_input_line s"] by (simp add: console_backspace_def Let_def)

lemma unat_u8_of_nat: "n < 256 \<Longrightarrow> unat (of_nat n :: u8) = n"
  by (simp add: unat_of_nat take_bit_nat_eq_self)

lemma encode_utf8_plain:
  assumes "c < 0x110000" and "c \<notin> {8, 10, 127}"
  shows "list_all (\<lambda>b. b \<noteq> 10 \<and> b \<noteq> 8 \<and> b \<noteq> 127) (encode_utf8 c)"
proof -
  from encode_utf8_shape [OF assms(1)] obtain b bs where
    shape: "encode_utf8 c = b # bs" "list_all is_continuation bs"
      "bs = [] \<Longrightarrow> b = of_nat c \<and> c < 0x80" "bs \<noteq> [] \<Longrightarrow> b AND 0xc0 = 0xc0" by blast
  have cont: "y \<noteq> 10 \<and> y \<noteq> 8 \<and> y \<noteq> 127" if "y AND 0xc0 = 0x80 \<or> y AND 0xc0 = 0xc0" for y :: u8
    using that by auto
  then have "list_all (\<lambda>b. b \<noteq> 10 \<and> b \<noteq> 8 \<and> b \<noteq> 127) bs"
    using shape(2) unfolding is_continuation_def list_all_iff by blast
  moreover have "b \<noteq> 10 \<and> b \<noteq> 8 \<and> b \<noteq> 127"
  proof (cases "bs = []")
    case True
    with shape(3) have "unat b = c" by (simp add: unat_u8_of_nat)
    with assms(2) show ?thesis by auto
  qed (use shape(4) cont in blast)
  ultimately show ?thesis by (simp add: shape(1))
qed

text \<open>Erasing undoes typing: a backspace right after any character (other than newline, backspace
  and delete) that still fits restores the stream, whatever the number of bytes of the character.\<close>

theorem backspace_erases_typed_character:
  assumes "c < 0x110000" and "c \<notin> {8, 10, 127}"
    and "length (cs_transcript s) + length (encode_utf8 c) \<le> TRANSCRIPT_CAPACITY"
  shows "echo_input [8] (echo_input (encode_utf8 c) s) = s"
proof -
  from encode_utf8_shape [OF assms(1)] obtain b bs where
    "encode_utf8 c = b # bs" "\<not> is_continuation b" "list_all is_continuation bs" by blast
  with echo_plain_bytes [OF encode_utf8_plain [OF assms(1,2)] assms(3)] backspace_undoes [of b bs s]
  show ?thesis by (simp add: echo_input_def echo_byte_def)
qed

theorem backspace_erases_typed_character_witness:
  "echo_input [8] (echo_input (encode_utf8 0xe9) console_stream_default) = console_stream_default"
  by (rule backspace_erases_typed_character)
     (simp_all add: encode_utf8_def console_stream_default_def TRANSCRIPT_CAPACITY_def)


section \<open>Every event is handled and keeps the transcripts bounded\<close>

definition stream_ok :: "console_stream \<Rightarrow> bool" where
  "stream_ok s \<longleftrightarrow> length (cs_transcript s) \<le> TRANSCRIPT_CAPACITY"

definition console_ok :: "console_widget \<Rightarrow> bool" where
  "console_ok w \<longleftrightarrow> stream_ok (cw_uart0 w) \<and> stream_ok (cw_uart1 w)"

lemma stream_ok_default [simp]: "stream_ok console_stream_default"
  by (simp add: stream_ok_def console_stream_default_def)

lemma console_observe_ok:
  assumes "stream_ok s"
  shows "\<exists>s'. console_observe uart s = Some s' \<and> stream_ok s'"
proof -
  have "stream_ok (transcript_append bytes s')" if "stream_ok s'" for bytes s'
    using that by (simp add: stream_ok_def transcript_append_within)
  note append = this [unfolded stream_ok_def]
  show ?thesis
    using assms longest_overlap_props(1) [of "cs_observed_tx s" "ui_tx_history uart"]
    by (auto simp: console_observe_def overlap_search stream_ok_def Let_def append)
qed

lemma console_send_ok: "console_ok w \<Longrightarrow> console_ok (fst (console_send bytes w))"
  by (auto simp: console_send_def console_ok_def set_console_stream_def console_stream_of_def
      stream_ok_def echo_input_within split: uart_port.split)

lemma console_handle_key_ok: "console_ok w \<Longrightarrow> console_ok (fst (console_handle_key key mode w))"
  using console_send_ok by (auto simp: console_handle_key_def split: key_code.split)

lemma console_update_ok:
  assumes "console_ok w"
  shows "\<exists>w' acts. console_update event w = Some (w', acts) \<and> console_ok w'"
proof (cases event)
  case (EvInspection i)
  show ?thesis
  proof (cases i)
    case (InspectedPeripherals p)
    with assms obtain s0 s1 where "console_observe (pi_uart0 p) (cw_uart0 w) = Some s0" "stream_ok s0"
        "console_observe (pi_uart1 p) (cw_uart1 w) = Some s1" "stream_ok s1"
      unfolding console_ok_def by (metis console_observe_ok)
    with EvInspection InspectedPeripherals show ?thesis by (simp add: console_update_def console_ok_def)
  qed (simp_all add: console_update_def EvInspection assms)
next
  case (EvInsertText t)
  with assms console_send_ok [OF assms, of "string_bytes t"] show ?thesis
    by (cases "console_send (string_bytes t) w") (simp add: console_update_def)
qed (use assms in \<open>simp_all add: console_update_def console_ok_def\<close>)

end
