(* ===== verification/Cli_Text.thy ===== *)
theory Cli_Text
  imports Tui_Console Image_Format
begin

text \<open>
  Text that the guest prints, as the console and the headless runner read it back:
  \<open>String::from_utf8_lossy\<close> and \<open>str::contains\<close> of the standard library, and what they give on bytes
  around a printed text.
\<close>

section \<open>Lossy decoding\<close>

text \<open>The second byte of a well-formed sequence, by its first.\<close>

definition utf8_second :: "u8 \<Rightarrow> u8 \<Rightarrow> bool" where
  "utf8_second a b \<longleftrightarrow>
     (if a = 0xe0 then 0xa0 \<le> b \<and> b \<le> 0xbf else if a = 0xed then 0x80 \<le> b \<and> b \<le> 0x9f
      else if a = 0xf0 then 0x90 \<le> b \<and> b \<le> 0xbf else if a = 0xf4 then 0x80 \<le> b \<and> b \<le> 0x8f
      else utf8_tail b)"

definition REPLACEMENT :: rust_char where
  "REPLACEMENT = 0xfffd"

definition tail_bits :: "u8 \<Rightarrow> nat" where
  "tail_bits b = unat b mod 64"

text \<open>
  \<open>String::from_utf8_lossy\<close>: a well-formed sequence is its character; the longest prefix of a sequence
  that is not completed, or else a single byte, becomes one replacement character. Both functions give a
  character and the bytes behind it; the first reads the bytes that still continue a sequence.
\<close>

fun utf8_tails :: "nat \<Rightarrow> nat \<Rightarrow> u8 list \<Rightarrow> rust_char \<times> u8 list" where
  "utf8_tails v 0 r = (v, r)"
| "utf8_tails v (Suc n) [] = (REPLACEMENT, [])"
| "utf8_tails v (Suc n) (b # r) =
     (if utf8_tail b then utf8_tails (v * 64 + tail_bits b) n r else (REPLACEMENT, b # r))"

definition utf8_char :: "u8 \<Rightarrow> u8 list \<Rightarrow> rust_char \<times> u8 list" where
  "utf8_char a r =
     (if a \<le> 0x7f then (unat a, r)
      else if 0xc2 \<le> a \<and> a \<le> 0xdf then utf8_tails (unat a mod 32) 1 r
      else if 0xe0 \<le> a \<and> a \<le> 0xf4 \<and> r \<noteq> [] \<and> utf8_second a (hd r)
      then if a \<le> 0xef then utf8_tails (unat a mod 16) 2 r else utf8_tails (unat a mod 8) 3 r
      else (REPLACEMENT, r))"

lemma utf8_tails_shorter: "length (snd (utf8_tails v n r)) \<le> length r"
  by (induction v n r rule: utf8_tails.induct) auto

lemma utf8_char_shorter: "length (snd (utf8_char a r)) \<le> length r"
  using utf8_tails_shorter by (auto simp: utf8_char_def)

function from_utf8_lossy :: "u8 list \<Rightarrow> rust_string" where
  "from_utf8_lossy [] = []"
| "from_utf8_lossy (a # r) = fst (utf8_char a r) # from_utf8_lossy (snd (utf8_char a r))"
  by pat_completeness auto
termination
  by (relation "measure length") (auto simp: le_imp_less_Suc utf8_char_shorter)

text \<open>\<open>str::contains\<close>.\<close>

fun contains_text :: "rust_string \<Rightarrow> rust_string \<Rightarrow> bool" where
  "contains_text [] pattern \<longleftrightarrow> pattern = []"
| "contains_text (c # cs) pattern \<longleftrightarrow>
     take (length pattern) (c # cs) = pattern \<or> contains_text cs pattern"

lemma contains_text_iff: "contains_text s pattern \<longleftrightarrow> (\<exists>pre post. s = pre @ pattern @ post)"
proof (induction s)
  case (Cons c cs)
  have "(\<exists>pre post. c # cs = pre @ pattern @ post)
      \<longleftrightarrow> (\<exists>post. c # cs = pattern @ post) \<or> (\<exists>pre post. cs = pre @ pattern @ post)"
    by (metis append_Cons append_Nil append_eq_Cons_conv)
  moreover have "(\<exists>post. c # cs = pattern @ post) \<longleftrightarrow> take (length pattern) (c # cs) = pattern"
    by (metis append_eq_conv_conj)
  ultimately show ?case by (simp only: contains_text.simps Cons.IH)
qed simp

text \<open>\<open>ConsoleStream::output\<close>.\<close>

definition console_output :: "console_stream \<Rightarrow> rust_string" where
  "console_output s = from_utf8_lossy (cs_transcript s)"

section \<open>Printed text survives\<close>

definition scalar_value :: "rust_char \<Rightarrow> bool" where
  "scalar_value c \<longleftrightarrow> c < 0xd800 \<or> 0xe000 \<le> c \<and> c < 0x110000"

lemma tail_high: "utf8_tail b \<Longrightarrow> \<not> b \<le> 0x7f \<and> \<not> 0xc2 \<le> b"
  by (auto simp: utf8_tail_def word_le_nat_alt)

lemma utf8_second_tail: "utf8_second a b \<Longrightarrow> utf8_tail b"
  by (auto simp: utf8_second_def utf8_tail_def word_le_nat_alt split: if_splits)

text \<open>Decoding starts afresh at a byte that does not continue a sequence.\<close>

lemma utf8_tails_split:
  assumes "bs = [] \<or> \<not> utf8_tail (hd bs)"
  shows "utf8_tails v n (r @ bs) = map_prod id (\<lambda>rest. rest @ bs) (utf8_tails v n r)"
proof (induction v n r rule: utf8_tails.induct)
  case (2 v n)
  from assms show ?case by (cases bs) simp_all
qed simp_all

lemma utf8_char_split:
  assumes "bs = [] \<or> \<not> utf8_tail (hd bs)"
  shows "utf8_char a (r @ bs) = map_prod id (\<lambda>rest. rest @ bs) (utf8_char a r)"
proof (cases r)
  case Nil
  with assms show ?thesis
    by (cases bs) (auto simp: utf8_char_def numeral_2_eq_2 numeral_3_eq_3 dest: utf8_second_tail)
next
  case (Cons b r2)
  with utf8_tails_split [OF assms] show ?thesis by (simp add: utf8_char_def flip: append_Cons)
qed

lemma lossy_split:
  assumes "bs = [] \<or> \<not> utf8_tail (hd bs)"
  shows "from_utf8_lossy (pre @ bs) = from_utf8_lossy pre @ from_utf8_lossy bs"
proof (induction pre rule: from_utf8_lossy.induct)
  case (2 a r)
  with utf8_char_split [OF assms, of a r] show ?case by (simp add: map_prod_def split_beta)
qed simp

lemma byte_mods:
  "x < 64 \<Longrightarrow> (128 + x) mod 64 = (x :: nat)" "q < 32 \<Longrightarrow> (192 + q) mod 32 = (q :: nat)"
  "q < 16 \<Longrightarrow> (224 + q) mod 16 = (q :: nat)" "q < 8 \<Longrightarrow> (240 + q) mod 8 = (q :: nat)"
  using mod_mult_self1 [of x 2 64] mod_mult_self1 [of q 6 32] mod_mult_self1 [of q 14 16] mod_mult_self1 [of q 30 8]
  by (simp_all add: add.commute)

lemma digits:
  "c div 64 * 64 + c mod 64 = (c :: nat)" "(c div 4096 * 64 + c div 64 mod 64) * 64 + c mod 64 = (c :: nat)"
  "((c div 262144 * 64 + c div 4096 mod 64) * 64 + c div 64 mod 64) * 64 + c mod 64 = (c :: nat)"
proof -
  have div: "c div 4096 = c div 64 div 64" "c div 262144 = c div 4096 div 64" by (simp_all flip: div_mult2_eq)
  show one: "c div 64 * 64 + c mod 64 = c" by simp
  show two: "(c div 4096 * 64 + c div 64 mod 64) * 64 + c mod 64 = c" by (simp only: div(1) div_mult_mod_eq)
  show "((c div 262144 * 64 + c div 4096 mod 64) * 64 + c div 64 mod 64) * 64 + c mod 64 = c"
    by (simp only: div(2) div_mult_mod_eq) (rule two)
qed

lemma tails_read:
  "utf8_tail b \<Longrightarrow> utf8_tail c \<Longrightarrow> utf8_tails v 2 (b # c # r) = ((v * 64 + tail_bits b) * 64 + tail_bits c, r)"
  "utf8_tail b \<Longrightarrow> utf8_tail c \<Longrightarrow> utf8_tail d \<Longrightarrow>
    utf8_tails v 3 (b # c # d # r) = (((v * 64 + tail_bits b) * 64 + tail_bits c) * 64 + tail_bits d, r)"
  by (simp_all add: numeral_2_eq_2 numeral_3_eq_3)

text \<open>An encoded scalar value is decoded to itself.\<close>

lemma byte_of_nat: "n < 256 \<Longrightarrow> unat (of_nat n :: u8) = n"
  by (simp add: unsigned_of_nat take_bit_nat_eq_self)

lemma tail_byte:
  assumes "x < 64"
  shows "utf8_tail (of_nat (0x80 + x))" "tail_bits (of_nat (0x80 + x)) = x"
proof -
  have "unat (of_nat (0x80 + x) :: u8) = 0x80 + x" using assms by (intro byte_of_nat) simp
  with assms show "utf8_tail (of_nat (0x80 + x))" "tail_bits (of_nat (0x80 + x)) = x"
    by (simp_all add: utf8_tail_def tail_bits_def word_le_nat_alt byte_mods del: of_nat_add)
qed

lemma lossy_encoded:
  assumes "scalar_value c"
  shows "utf8_char (hd (encode_utf8 c)) (tl (encode_utf8 c) @ bs) = (c, bs)"
proof -
  have ends: "c < 0x110000" "\<not> (0xd800 \<le> c \<and> c < 0xe000)" using assms by (auto simp: scalar_value_def)
  consider "c < 0x80" | "0x80 \<le> c" "c < 0x800" | "0x800 \<le> c" "c < 0x10000" | "0x10000 \<le> c" by linarith
  then show ?thesis
  proof cases
    case 1
    then show ?thesis by (simp add: encode_utf8_def utf8_char_def byte_of_nat word_le_nat_alt)
  next
    case 2
    define a :: u8 where "a = of_nat (0xc0 + c div 64)"
    have a: "unat a = 0xc0 + c div 64" unfolding a_def using 2 by (intro byte_of_nat) simp
    have "c div 64 < 32" "2 \<le> c div 64" using 2 by simp_all
    with a have "utf8_char a (of_nat (0x80 + c mod 64) # bs) = (c, bs)"
      using tail_byte [of "c mod 64"] by (simp add: utf8_char_def word_le_nat_alt byte_mods digits del: of_nat_add)
    with 2 show ?thesis by (simp add: encode_utf8_def a_def)
  next
    case 3
    define a b where "a = (of_nat (0xe0 + c div 4096) :: u8)" and "b = (of_nat (0x80 + c div 64 mod 64) :: u8)"
    have a: "unat a = 0xe0 + c div 4096" unfolding a_def using 3 by (intro byte_of_nat) simp
    have b: "unat b = 0x80 + c div 64 mod 64" unfolding b_def by (intro byte_of_nat) simp
    have lead: "c div 4096 < 16" using 3 by simp
    have "c div 4096 * 64 + c div 64 mod 64 = c div 64" "c div 64 * 64 + c mod 64 = c" "c mod 64 < 64"
      using digits(1) [of "c div 64"] by (simp_all flip: div_mult2_eq)
    moreover have "c div 64 mod 64 \<le> 63" using mod_less_divisor [of 64 "c div 64"] by linarith
    moreover have "c < 0xd800 \<Longrightarrow> c div 64 < 864" by simp
    ultimately have "utf8_second a b"
      using a b 3 ends by (auto simp: utf8_second_def utf8_tail_def word_le_nat_alt word_unat_eq_iff)
    moreover have second: "utf8_tail b" "tail_bits b = c div 64 mod 64" unfolding b_def by (rule tail_byte; simp)+
    ultimately have "utf8_char a (b # of_nat (0x80 + c mod 64) # bs)
        = utf8_tails (c div 4096) 2 (b # of_nat (0x80 + c mod 64) # bs)"
      using a lead by (simp add: utf8_char_def word_le_nat_alt byte_mods del: of_nat_add)
    also have "\<dots> = (c, bs)" using tails_read(1) [OF second(1) tail_byte(1)] tail_byte(2) [of "c mod 64"] second(2)
      by (simp only: digits mod_less_divisor zero_less_numeral)
    finally show ?thesis using 3 by (simp add: encode_utf8_def a_def b_def)
  next
    case 4
    define a b where "a = (of_nat (0xf0 + c div 262144) :: u8)" and "b = (of_nat (0x80 + c div 4096 mod 64) :: u8)"
    have lead: "c div 262144 < 8" "c div 262144 \<le> 4" using ends by simp_all
    have a: "unat a = 0xf0 + c div 262144" unfolding a_def using lead by (intro byte_of_nat) simp
    have b: "unat b = 0x80 + c div 4096 mod 64" unfolding b_def by (intro byte_of_nat) simp
    have "c div 262144 * 64 + c div 4096 mod 64 = c div 4096" "c div 4096 * 4096 + c mod 4096 = c" "c mod 4096 < 4096"
      using digits(1) [of "c div 4096"] by (simp_all flip: div_mult2_eq)
    moreover have "c div 4096 mod 64 \<le> 63" using mod_less_divisor [of 64 "c div 4096"] by linarith
    moreover have "c div 4096 < 272" "16 \<le> c div 4096" using 4 ends(1) by simp_all
    ultimately have "utf8_second a b"
      using a b by (auto simp: utf8_second_def utf8_tail_def word_le_nat_alt word_unat_eq_iff)
    moreover have second: "utf8_tail b" "tail_bits b = c div 4096 mod 64" unfolding b_def by (rule tail_byte; simp)+
    ultimately have "utf8_char a (b # of_nat (0x80 + c div 64 mod 64) # of_nat (0x80 + c mod 64) # bs)
        = utf8_tails (c div 262144) 3 (b # of_nat (0x80 + c div 64 mod 64) # of_nat (0x80 + c mod 64) # bs)"
      using a lead by (simp add: utf8_char_def word_le_nat_alt byte_mods del: of_nat_add)
    also have "\<dots> = (c, bs)"
      using tails_read(2) [OF second(1) tail_byte(1) tail_byte(1)] tail_byte(2) [of "c mod 64"]
        tail_byte(2) [of "c div 64 mod 64"] second(2)
      by (simp only: digits mod_less_divisor zero_less_numeral)
    finally show ?thesis using 4 by (simp add: encode_utf8_def a_def b_def)
  qed
qed


lemma encoded_cons: "\<exists>a bs. encode_utf8 c = a # bs"
  by (simp add: encode_utf8_def)

lemma lossy_char:
  assumes "scalar_value c"
  shows "from_utf8_lossy (encode_utf8 c @ bs) = c # from_utf8_lossy bs"
proof -
  obtain a as where a: "encode_utf8 c = a # as" using encoded_cons by blast
  with lossy_encoded [OF assms, of bs] show ?thesis by simp
qed

lemma encoded_lead:
  assumes "scalar_value c"
  shows "\<not> utf8_tail (hd (encode_utf8 c))"
proof
  obtain a as where a: "encode_utf8 c = a # as" using encoded_cons by blast
  assume "utf8_tail (hd (encode_utf8 c))"
  with a tail_high [of a] have "\<not> a \<le> 0x7f" "\<not> 0xc2 \<le> a" by simp_all
  then have "utf8_char a (as @ [0]) = (REPLACEMENT, as @ [0])"
    by (auto simp: utf8_char_def word_le_nat_alt)
  moreover have "utf8_char a (as @ [0]) = (c, [0])" using lossy_encoded [OF assms, of "[0]"] a by simp
  ultimately have "c = 0xfffd" "as = []" by (auto simp: REPLACEMENT_def)
  with a show False by (simp add: encode_utf8_def)
qed

lemma lossy_string:
  assumes "list_all scalar_value s"
  shows "from_utf8_lossy (string_bytes s @ bs) = s @ from_utf8_lossy bs"
  using assms by (induction s) (simp_all add: string_bytes_def lossy_char)

lemma lossy_around:
  assumes "list_all scalar_value s" and "s \<noteq> []"
  shows "from_utf8_lossy (pre @ string_bytes s @ post) = from_utf8_lossy pre @ s @ from_utf8_lossy post"
proof -
  from assms(2) obtain c cs where s: "s = c # cs" by (cases s) auto
  obtain a as where a: "encode_utf8 c = a # as" using encoded_cons by blast
  have "\<not> utf8_tail (hd (string_bytes s @ post))"
    using encoded_lead [of c] assms(1) by (simp add: s string_bytes_def a)
  with lossy_split [of "string_bytes s @ post" pre] lossy_string [OF assms(1), of post] show ?thesis by simp
qed

end
