(* ===== verification/Tui_Text.thy ===== *)
theory Tui_Text
  imports Tui_Panes Tui_Memory Cli_Text
begin

text \<open>
  What the panes of the terminal interface show: the texts of \<open>widgets/secondary.rs\<close> (registers, MMU,
  peripherals, interrupts and faults), the wrapped lines of \<open>widgets/help.rs\<close>, and the frame and the
  scroll bar that the panes share (\<open>widgets/mod.rs\<close>). A drawing is the value that the code gives to the
  terminal library; how the library puts it on the screen is not modelled. Colours are reduced to what
  they tell apart: a selected span, and the level of a message.
\<close>

section \<open>Formatting\<close>

text \<open>The number of digits of \<open>{}\<close> for an unsigned number, and the number.\<close>

function digit_count :: "nat \<Rightarrow> nat" where
  "digit_count n = (if n < 10 then 1 else Suc (digit_count (n div 10)))"
  by pat_completeness auto
termination by (relation "measure id") simp_all

declare digit_count.simps [simp del]

definition format_dec :: "nat \<Rightarrow> rust_string" where
  "format_dec n = map digit_char (digits 10 (digit_count n) n)"

text \<open>\<open>{:<w}\<close> and \<open>{:>w}\<close>.\<close>

definition pad_right :: "nat \<Rightarrow> rust_string \<Rightarrow> rust_string" where
  "pad_right w s = s @ replicate (w - length s) 32"

definition pad_left :: "nat \<Rightarrow> rust_string \<Rightarrow> rust_string" where
  "pad_left w s = replicate (w - length s) 32 @ s"

text \<open>\<open>join\<close> of a slice of strings.\<close>

fun join_with :: "rust_string \<Rightarrow> rust_string list \<Rightarrow> rust_string" where
  "join_with separator [] = []"
| "join_with separator [s] = s"
| "join_with separator (s # t # ss) = s @ separator @ join_with separator (t # ss)"

definition join_lines :: "rust_string list \<Rightarrow> rust_string" where
  "join_lines lines = join_with [10] lines"

text \<open>\<open>0x{:08x}\<close> behind a label.\<close>

definition hex_field :: "string \<Rightarrow> u32 \<Rightarrow> rust_string" where
  "hex_field label v = chars_of label @ chars_of ''0x'' @ format_hex 8 (unat v)"

definition dec_field :: "string \<Rightarrow> nat \<Rightarrow> rust_string" where
  "dec_field label n = chars_of label @ format_dec n"

section \<open>Drawings\<close>

datatype span_style = StylePlain | StyleSelected | StyleLevel dialog_level

datatype span = Span (sp_text: rust_string) (sp_style: span_style)

datatype drawn_text = PlainText rust_string | StyledText "span list list"

record pane_frame =
  pf_title :: rust_string
  pf_focused :: bool

record scroll_bar =
  sb_content_length :: usize
  sb_position :: usize
  sb_viewport :: usize

record drawn_pane =
  dp_text :: drawn_text
  dp_wrap :: bool
  dp_scroll :: u16
  dp_frame :: pane_frame
  dp_bar :: "scroll_bar option"

record render_context =
  rc_view :: view
  rc_mode :: input_mode
  rc_focused :: widget_id
  rc_input :: rust_string
  rc_ticks :: u64

definition pane_block :: "rust_string \<Rightarrow> bool \<Rightarrow> u16 \<Rightarrow> pane_frame" where
  "pane_block title focused width =
     (let maximum = unat (saturating_sub_u16 width 4)
      in \<lparr>pf_title = (if length title > maximum then take maximum title @ [32] else title),
          pf_focused = focused\<rparr>)"

definition render_scrollbar :: "rect \<Rightarrow> usize \<Rightarrow> usize \<Rightarrow> usize \<Rightarrow> scroll_bar option" where
  "render_scrollbar area content_length viewport_length position =
     (if content_length \<le> viewport_length \<or> re_width area < 3 \<or> re_height area < 3 then None
      else (let maximum_position = content_length - viewport_length
        in Some \<lparr>sb_content_length = maximum_position + 1, sb_position = min position maximum_position,
                 sb_viewport = viewport_length\<rparr>))"

section \<open>The secondary pane\<close>

text \<open>Registers by row.\<close>

definition register_values :: "execution_inspection \<Rightarrow> (rust_string \<times> u32) list" where
  "register_values e =
     [(chars_of ''pc'', ei_registers e ! 15), (chars_of ''lr'', ei_registers e ! 14),
      (chars_of ''sp'', ei_registers e ! 13)]
     @ map (\<lambda>index. (chars_of ''r'' @ format_dec index, ei_registers e ! index)) [0..<13]
     @ [(chars_of ''cpsr'', ei_cpsr e), (chars_of ''spsr'', ei_spsr e)]"

definition register_line :: "bool \<Rightarrow> rust_string \<times> u32 \<Rightarrow> rust_string" where
  "register_line show_decimal register =
     (case register of (name, v) \<Rightarrow>
        pad_right 5 name @ hex_field '' '' v
        @ (if show_decimal then chars_of ''  '' @ pad_left 10 (format_dec (unat v)) else []))"

definition registers_text :: "bool \<Rightarrow> secondary_widget \<Rightarrow> rust_string" where
  "registers_text show_decimal w =
     (case se_execution w of
        None \<Rightarrow> chars_of ''register snapshot unavailable''
      | Some execution \<Rightarrow>
          join_lines
            (chars_of (if show_decimal then ''       hex          decimal'' else ''       hex'')
             # map (register_line show_decimal)
                 (drop (se_rows w ! secondary_index (se_subview w)) (register_values execution))))"

fun yes_no :: "bool \<Rightarrow> string" where
  "yes_no True = ''yes''"
| "yes_no False = ''no''"

fun enabled_disabled :: "bool \<Rightarrow> string" where
  "enabled_disabled True = ''enabled''"
| "enabled_disabled False = ''disabled''"

definition interrupt_name :: "u32 \<Rightarrow> string" where
  "interrupt_name source =
     (if source = 0 then ''systick'' else if source = 1 then ''uart0'' else if source = 2 then ''uart1''
      else if source = 3 then ''block'' else ''unknown'')"

fun fault_cause_name :: "fault_cause option \<Rightarrow> string" where
  "fault_cause_name (Some Translation) = ''translation''"
| "fault_cause_name (Some ReadProtection) = ''read protection''"
| "fault_cause_name (Some WriteProtection) = ''write protection''"
| "fault_cause_name (Some ExecuteProtection) = ''execute protection''"
| "fault_cause_name (Some DeviceAccess) = ''device access''"
| "fault_cause_name None = ''unknown''"

definition system_text :: "secondary_widget \<Rightarrow> rust_string" where
  "system_text w =
     (case se_mmu w of
        None \<Rightarrow> join_lines [chars_of ''MMU:'', chars_of ''  snapshot unavailable'']
      | Some mmu \<Rightarrow>
          join_lines [chars_of ''MMU:'', chars_of ''  enabled: '' @ chars_of (yes_no (insp_enabled mmu)),
            hex_field ''  ttbr0:   '' (pa_get (insp_ttbr0 mmu)),
            hex_field ''  vbar:    '' (va_get (insp_vector_base mmu))])"

definition media_name :: "block_unit_inspection \<Rightarrow> string" where
  "media_name unit = (if bu_media_attached unit then ''attached'' else ''none'')"

definition format_block :: "block_inspection \<Rightarrow> rust_string" where
  "format_block b =
     join_lines [chars_of ''Block:'', dec_field ''  lba:         '' (unat (bi_lba b)),
       dec_field ''  sectors:     '' (unat (bi_sector_count b)), hex_field ''  dma:         '' (bi_dma_address b),
       hex_field ''  control:     '' (bi_control b), hex_field ''  status:      '' (bi_status b),
       hex_field ''  error:       '' (bi_error b), dec_field ''  staged unit: '' (unat (bi_unit b)),
       chars_of ''  active unit: ''
         @ (case bi_active_unit b of None \<Rightarrow> chars_of ''none'' | Some unit \<Rightarrow> format_dec (unat unit)),
       chars_of ''  unit 0:'', chars_of ''    media: '' @ chars_of (media_name (bi_units b ! 0)),
       dec_field ''    dirty: '' (bu_dirty_sector_count (bi_units b ! 0)),
       chars_of ''  unit 1:'', chars_of ''    media: '' @ chars_of (media_name (bi_units b ! 1)),
       dec_field ''    dirty: '' (bu_dirty_sector_count (bi_units b ! 1))]"

definition uart_lines :: "string \<Rightarrow> uart_inspection \<Rightarrow> rust_string list" where
  "uart_lines name u =
     [chars_of name, hex_field ''  status:  '' (ui_status u), hex_field ''  control: '' (ui_control u),
      dec_field ''  rx:      '' (ui_rx_queued u),
      chars_of ''  rx irq:  '' @ chars_of (enabled_disabled (ui_rx_irq_enabled u)),
      dec_field ''  tx:      '' (length (ui_tx_history u)) @ chars_of '' bytes'']"

definition latest_trace_lines :: "trace_event list \<Rightarrow> rust_string list" where
  "latest_trace_lines trace =
     (if trace = [] then [chars_of ''  latest:  none'']
      else [chars_of ''  tick:    0x'' @ format_hex 16 (unat (te_tick (last trace))),
            hex_field ''  value:   '' (te_value (last trace))])"

definition peripherals_text :: "secondary_widget \<Rightarrow> rust_string" where
  "peripherals_text w =
     (case se_peripherals w of
        None \<Rightarrow> join_lines [chars_of ''Peripherals:'', chars_of ''  snapshot unavailable'']
      | Some p \<Rightarrow>
          join_lines
            (uart_lines ''UART0:'' (pi_uart0 p) @ uart_lines ''UART1:'' (pi_uart1 p)
             @ [chars_of ''SysTick:'', dec_field ''  period:  '' (unat (si_period (pi_systick p))),
                hex_field ''  control: '' (si_control (pi_systick p)),
                hex_field ''  status:  '' (si_status (pi_systick p)),
                format_block (pi_block p),
                chars_of ''RNG:'', hex_field ''  state:   '' (pi_rng p),
                chars_of ''Trace:'', dec_field ''  events:  '' (length (pi_trace p))]
             @ latest_trace_lines (pi_trace p)))"

definition interrupts_text :: "secondary_widget \<Rightarrow> rust_string" where
  "interrupts_text w =
     (case se_peripherals w of
        None \<Rightarrow> join_lines [chars_of ''Interrupts:'', chars_of ''  snapshot unavailable'']
      | Some p \<Rightarrow> (let i = pi_interrupts p in
          join_lines [chars_of ''Interrupts:'', hex_field ''  pending: '' (ii_pending i),
            hex_field ''  enabled: '' (ii_enabled i),
            chars_of ''  claim:   ''
              @ (case ii_claim i of
                   None \<Rightarrow> chars_of ''none''
                 | Some claim \<Rightarrow> chars_of (interrupt_name claim) @ chars_of '' ('' @ format_dec (unat claim) @ chars_of '')''),
            chars_of ''  priorities:'',
            dec_field ''    systick: '' (unat (ii_priorities i ! 0)),
            dec_field ''    uart0:   '' (unat (ii_priorities i ! 1)),
            dec_field ''    uart1:   '' (unat (ii_priorities i ! 2)),
            dec_field ''    block:   '' (unat (ii_priorities i ! 3))]))"

definition fault_text :: "secondary_widget \<Rightarrow> rust_string" where
  "fault_text w =
     (case se_mmu w of
        None \<Rightarrow> join_lines [chars_of ''Fault:'', chars_of ''  snapshot unavailable'']
      | Some mmu \<Rightarrow>
          (case (insp_last_fault_address mmu, insp_last_fault_status mmu) of
             (Some address, Some status) \<Rightarrow>
               join_lines [chars_of ''Fault:'', hex_field ''  address: '' address,
                 hex_field ''  status:  '' (fs_raw status),
                 chars_of ''  cause:   '' @ chars_of (fault_cause_name (fault_status_cause status)),
                 chars_of ''  origin:  '' @ chars_of (if fs_from_user status then ''user'' else ''supervisor''),
                 chars_of ''  access:  ''
                   @ chars_of (if fs_is_fetch status then ''fetch''
                               else if fs_is_write status then ''write'' else ''read'')]
           | _ \<Rightarrow> join_lines [chars_of ''Fault:'', chars_of ''  none'']))"

definition pending_text :: "secondary_widget \<Rightarrow> rust_string" where
  "pending_text w = join_lines [interrupts_text w, fault_text w]"

text \<open>\<open>render\<close>: the name, the text, the length and the lines that stay on top; then the row is clamped.
  The text of the registers is made with the row before that.\<close>

definition secondary_contents :: "u16 \<Rightarrow> secondary_widget \<Rightarrow> string \<times> rust_string \<times> usize \<times> usize" where
  "secondary_contents width w =
     (case se_subview w of
        RegistersView \<Rightarrow> (''registers'', registers_text (width \<ge> 35) w, REGISTER_COUNT, 1)
      | SystemView \<Rightarrow> (''system'', system_text w, length (string_lines (system_text w)), 0)
      | PeripheralsView \<Rightarrow> (''peripherals'', peripherals_text w, length (string_lines (peripherals_text w)), 0)
      | PendingView \<Rightarrow> (''pending'', pending_text w, length (string_lines (pending_text w)), 0))"

definition secondary_draw ::
  "render_context \<Rightarrow> rect \<Rightarrow> secondary_widget \<Rightarrow> secondary_widget \<times> drawn_pane" where
  "secondary_draw ctx area w =
     (case secondary_contents (re_width area) w of (name, content, content_length, sticky_header_rows) \<Rightarrow>
        (let viewport = max (unat (saturating_sub_u16 (re_height area) 2) - sticky_header_rows) 1;
             w = secondary_clamp content_length (re_height area) w;
             row = se_rows w ! secondary_index (se_subview w)
         in (w, \<lparr>dp_text = PlainText content, dp_wrap = False,
                 dp_scroll = (if sticky_header_rows = 0 then of_nat row else 0),
                 dp_frame = pane_block (chars_of ''[^s] secondary ('' @ chars_of name @ chars_of '')'')
                   (rc_focused ctx = SecondaryId) (re_width area),
                 dp_bar = render_scrollbar area content_length viewport row\<rparr>)))"

section \<open>Wrapped words\<close>

fun wrap_loop :: "usize \<Rightarrow> rust_string list \<Rightarrow> rust_string list \<Rightarrow> rust_string \<Rightarrow> rust_string list" where
  "wrap_loop width [] lines line = (if line \<noteq> [] then lines @ [line] else lines)"
| "wrap_loop width (word # words) lines line =
     (let push = line \<noteq> []
            \<and> length (string_bytes line) + 1 + length (string_bytes word) > width;
          lines = (if push then lines @ [line] else lines);
          line = (if push then [] else line);
          line = (if line \<noteq> [] then line @ [32] else line)
      in wrap_loop width words lines (line @ word))"

definition wrap_words :: "rust_string \<Rightarrow> usize \<Rightarrow> rust_string list" where
  "wrap_words text_value width =
     (let lines = wrap_loop (max width 1) (split_whitespace text_value) [] []
      in if lines = [] then [[]] else lines)"


abbreviation byte_length :: "rust_string \<Rightarrow> nat" where
  "byte_length s \<equiv> length (string_bytes s)"

lemma byte_length_append: "byte_length (s @ t) = byte_length s + byte_length t"
  by (simp add: string_bytes_def)

lemma byte_length_blank: "byte_length (32 # s) = Suc (byte_length s)"
  by (simp add: string_bytes_def encode_utf8_def)

lemma join_with_snoc: "ss \<noteq> [] \<Longrightarrow> join_with separator (ss @ [s]) = join_with separator ss @ separator @ s"
  by (induction separator ss rule: join_with.induct) simp_all

lemma join_with_Nil_iff:
  "list_all (\<lambda>s. s \<noteq> []) ss \<Longrightarrow> join_with separator ss = [] \<longleftrightarrow> ss = []"
  by (induction separator ss rule: join_with.induct) simp_all

lemma split_whitespace_words: "list_all (\<lambda>w. w \<noteq> []) (split_whitespace s)"
proof (induction s rule: split_whitespace.induct)
  case (1 s)
  show ?case
  proof (cases "dropWhile is_whitespace s")
    case (Cons c cs)
    then have "\<not> is_whitespace c" by (simp add: dropWhile_eq_Cons_conv)
    with Cons 1 [OF Cons] show ?thesis by (subst split_whitespace.simps) simp
  next
    case Nil
    show ?thesis unfolding split_whitespace.simps [of s] Nil by simp
  qed
qed

text \<open>Groups of words that first fit makes: a group of several words fits, and the first word behind a
  group did not fit any more.\<close>

definition first_fit :: "usize \<Rightarrow> rust_string list list \<Rightarrow> bool" where
  "first_fit width groups \<longleftrightarrow>
     list_all (\<lambda>g. g \<noteq> [] \<and> (length g = 1 \<or> byte_length (join_with [32] g) \<le> width)) groups
     \<and> successively (\<lambda>g h. byte_length (join_with [32] g @ [32] @ hd h) > width) groups"

lemma first_fit_Cons:
  "first_fit width (g # h # gs) \<longleftrightarrow>
     g \<noteq> [] \<and> (length g = 1 \<or> byte_length (join_with [32] g) \<le> width)
     \<and> byte_length (join_with [32] g @ [32] @ hd h) > width \<and> first_fit width (h # gs)"
  by (auto simp: first_fit_def)

lemma wrap_loop_groups:
  assumes "list_all (\<lambda>w. w \<noteq> []) (g @ words)"
    and "length g \<le> 1 \<or> byte_length (join_with [32] g) \<le> width"
  shows "\<exists>groups. wrap_loop width words lines (join_with [32] g) = lines @ map (join_with [32]) groups
    \<and> concat groups = g @ words \<and> first_fit width groups"
  using assms
proof (induction words arbitrary: g lines)
  case Nil
  then have "join_with [32] g = [] \<longleftrightarrow> g = []" by (intro join_with_Nil_iff) simp
  with Nil.prems(2) show ?case
    by (intro exI [of _ "if g = [] then [] else [g]"])
       (auto simp: first_fit_def le_Suc_eq)
next
  case (Cons word words)
  let ?push = "g \<noteq> [] \<and> byte_length (join_with [32] g) + 1 + byte_length word > width"
  have empty: "join_with [32] g = [] \<longleftrightarrow> g = []" using Cons.prems(1) by (intro join_with_Nil_iff) simp
  show ?case
  proof (cases ?push)
    case True
    then have step: "wrap_loop width (word # words) lines (join_with [32] g)
        = wrap_loop width words (lines @ [join_with [32] g]) (join_with [32] [word])"
      using empty by (simp add: Let_def)
    obtain groups where groups: "wrap_loop width words (lines @ [join_with [32] g]) (join_with [32] [word])
          = (lines @ [join_with [32] g]) @ map (join_with [32]) groups"
        "concat groups = [word] @ words" "first_fit width groups"
      using Cons.IH [of "[word]" "lines @ [join_with [32] g]"] Cons.prems(1) by auto
    from groups(2,3) obtain h hs where h: "groups = h # hs" "h \<noteq> []" by (cases groups) (auto simp: first_fit_def)
    with groups(2) have "hd h = word" by (cases h) simp_all
    with h(1) True groups(3) Cons.prems(2) have "first_fit width (g # groups)"
      by (auto simp: first_fit_Cons byte_length_append byte_length_blank le_Suc_eq)
    with step groups(1,2) show ?thesis by (intro exI [of _ "g # groups"]) simp
  next
    case False
    have line: "(if g = [] then [] else join_with [32] g @ [32]) @ word = join_with [32] (g @ [word])"
      by (simp add: join_with_snoc)
    have "wrap_loop width (word # words) lines (join_with [32] g)
        = wrap_loop width words lines (join_with [32] (g @ [word]))"
      using False empty line by (auto simp: Let_def)
    moreover have "length (g @ [word]) \<le> 1 \<or> byte_length (join_with [32] (g @ [word])) \<le> width"
      using False by (cases "g = []") (simp_all add: join_with_snoc byte_length_append byte_length_blank)
    ultimately show ?thesis using Cons.IH [of "g @ [word]" lines] Cons.prems(1) by simp
  qed
qed

text \<open>Wrapping keeps the words: the lines are the words in order, joined by single blanks; a line
  of several words fits the width, and a line is only ended when the next word does not fit.\<close>

theorem wrap_words_first_fit:
  "\<exists>groups. concat groups = split_whitespace s
    \<and> wrap_words s width = (if groups = [] then [[]] else map (join_with [32]) groups)
    \<and> first_fit (max width 1) groups"
proof -
  obtain groups where groups: "wrap_loop (max width 1) (split_whitespace s) [] [] = map (join_with [32]) groups"
      "concat groups = split_whitespace s" "first_fit (max width 1) groups"
    using wrap_loop_groups [of "[]" "split_whitespace s" "max width 1" "[]"] split_whitespace_words [of s] by auto
  then show ?thesis by (intro exI [of _ groups]) (simp add: wrap_words_def Let_def)
qed


section \<open>Lines of a text\<close>

definition plain_line :: "rust_string \<Rightarrow> bool" where
  "plain_line l \<longleftrightarrow> l \<noteq> [] \<and> 10 \<notin> set l \<and> 13 \<notin> set l"

lemma split_lines_append:
  "10 \<notin> set l \<Longrightarrow> split_lines current (l @ rest) = split_lines (current @ l) rest"
  by (induction l arbitrary: current) simp_all

lemma strip_cr_plain: "plain_line l \<Longrightarrow> strip_cr l = l"
  by (metis last_in_set plain_line_def strip_cr_def)

lemma string_lines_join:
  assumes "list_all plain_line ls"
  shows "string_lines (join_lines ls) = ls"
  unfolding string_lines_def join_lines_def using assms
proof (induction "[10 :: nat]" ls rule: join_with.induct)
  case (2 s)
  then show ?case using split_lines_append [of s "[]" "[]"] by (simp add: plain_line_def)
next
  case (3 s t ss)
  then have "split_lines [] (join_with [10] (t # ss)) = t # ss" by simp
  with 3 show ?case
    using split_lines_append [of s "[]" "10 # join_with [10] (t # ss)"] by (simp add: plain_line_def strip_cr_plain)
qed simp

text \<open>A text in which no line breaks are printed, line breaks being below the blank.\<close>

definition printable :: "rust_string \<Rightarrow> bool" where
  "printable s \<longleftrightarrow> list_all (\<lambda>c. 32 \<le> c) s"

lemma printable_append [simp]: "printable (s @ t) \<longleftrightarrow> printable s \<and> printable t"
  by (simp add: printable_def)

lemma printable_blanks [simp]: "printable (replicate n 32)" "printable []"
  by (simp_all add: printable_def list_all_iff)

lemma printable_digits [simp]: "printable (format_hex k n)" "printable (format_dec n)"
  by (auto simp: printable_def format_hex_def format_dec_def list_all_iff digit_char_def)

lemma printable_plain: "printable s \<Longrightarrow> s \<noteq> [] \<Longrightarrow> plain_line s"
  by (auto simp: printable_def plain_line_def list_all_iff)

lemmas printable_simps =
  pad_right_def pad_left_def hex_field_def dec_field_def

section \<open>Going to a register\<close>

lemma length_register_values [simp]: "length (register_values e) = REGISTER_COUNT"
  by (simp add: register_values_def REGISTER_COUNT_def)

lemma printable_register_names: "list_all (\<lambda>(name, v). printable name) (register_values e)"
proof -
  have "list_all printable (map chars_of [''pc'', ''lr'', ''sp'', ''r'', ''cpsr'', ''spsr''])"
    by (simp add: chars_of_def printable_def)
  then show ?thesis by (simp add: register_values_def list_all_iff)
qed

lemma plain_register_line:
  assumes "r \<in> set (register_values e)"
  shows "plain_line (register_line dec r)"
proof -
  obtain name v where r: "r = (name, v)" by (cases r)
  with assms printable_register_names [of e] have "printable name" by (auto simp: list_all_iff)
  then have "printable (register_line dec r)"
    by (simp add: r register_line_def printable_simps) (simp add: chars_of_def printable_def)
  moreover have "register_line dec r \<noteq> []" by (simp add: r register_line_def hex_field_def chars_of_def)
  ultimately show ?thesis by (rule printable_plain)
qed

lemma registers_text_lines:
  assumes "se_execution w = Some e"
  shows "string_lines (registers_text dec w) =
    chars_of (if dec then ''       hex          decimal'' else ''       hex'')
    # map (register_line dec) (drop (se_rows w ! secondary_index (se_subview w)) (register_values e))"
proof -
  have "plain_line (chars_of (if dec then ''       hex          decimal'' else ''       hex''))"
    by (intro printable_plain) (simp_all add: chars_of_def printable_def)
  moreover have "list_all plain_line (map (register_line dec)
      (drop (se_rows w ! secondary_index (se_subview w)) (register_values e)))"
    using plain_register_line by (auto simp: list_all_iff dest: in_set_dropD)
  ultimately show ?thesis using assms by (simp add: registers_text_def string_lines_join)
qed

text \<open>The names in the list are those that goto takes.\<close>

lemma digit_count_bound: "n < 10 ^ digit_count n"
proof (induction n rule: digit_count.induct)
  case (1 n)
  show ?case
  proof (cases "n < 10")
    case True
    then show ?thesis by (simp add: digit_count.simps [of n])
  next
    case False
    with 1 have "n div 10 < 10 ^ digit_count (n div 10)" by simp
    then have "n < 10 * 10 ^ digit_count (n div 10)" by linarith
    with False show ?thesis by (simp add: digit_count.simps [of n])
  qed
qed

lemma format_dec_is_read_back:
  "from_str_radix 10 limit (format_dec n) = (if n \<le> limit then Some n else None)"
proof -
  have "0 < digit_count n" by (simp add: digit_count.simps [of n])
  then show ?thesis unfolding format_dec_def by (intro from_str_radix_digits digit_count_bound) simp_all
qed

lemma ascii_lowercase_dec: "ascii_lowercase (format_dec n) = format_dec n"
proof -
  have "d < 10 \<Longrightarrow> (if 65 \<le> digit_char d \<and> digit_char d \<le> 90 then digit_char d + 32 else digit_char d) = digit_char d"
    for d by (simp add: digit_char_def)
  with digits_below [of 10 "digit_count n" n] show ?thesis
    by (simp add: ascii_lowercase_def format_dec_def list_all_iff)
qed

lemma register_row_r: "i < 13 \<Longrightarrow> register_row (chars_of ''r'' @ format_dec i) = Some (i + 3)"
  using ascii_lowercase_dec [of i] format_dec_is_read_back [of usize_max i]
  by (simp add: register_row_def Let_def ascii_lowercase_def chars_of_def usize_max_def)

lemma register_names_round_trip:
  assumes "row < REGISTER_COUNT"
  shows "register_row (fst (register_values e ! row)) = Some row"
proof -
  have named: "register_row (chars_of ''pc'') = Some 0" "register_row (chars_of ''lr'') = Some 1"
    "register_row (chars_of ''sp'') = Some 2" "register_row (chars_of ''cpsr'') = Some 16"
    "register_row (chars_of ''spsr'') = Some 17"
    by (simp_all add: register_row_def ascii_lowercase_def chars_of_def)
  have "row < 3 \<or> (row - 3 < 13 \<and> row = 3 + (row - 3)) \<or> row = 16 \<or> row = 17"
    using assms unfolding REGISTER_COUNT_def by linarith
  then consider "row < 3" | i where "i < 13" "row = 3 + i" | "row = 16" | "row = 17" by blast
  then show ?thesis
  proof cases
    case 1
    then have "row = 0 \<or> row = 1 \<or> row = 2" by linarith
    with named show ?thesis by (auto simp: register_values_def)
  next
    case (2 i)
    then show ?thesis by (simp add: register_values_def nth_append register_row_r)
  qed (use named in \<open>simp_all add: register_values_def nth_append\<close>)
qed

lemma register_row_less: "register_row name = Some row \<Longrightarrow> row < REGISTER_COUNT"
  by (auto simp: register_row_def REGISTER_COUNT_def Let_def split: if_splits option.splits)


text \<open>The pane as it is drawn: its lines, the text being split at the line breaks.\<close>

fun drawn_lines :: "drawn_pane \<Rightarrow> rust_string list" where
  "drawn_lines pane =
     (case dp_text pane of PlainText s \<Rightarrow> string_lines s
      | StyledText rows \<Rightarrow> map (\<lambda>row. concat (map sp_text row)) rows)"

definition register_viewport :: "rect \<Rightarrow> nat" where
  "register_viewport area = max (unat (re_height area) - 2 - 1) 1"

lemma secondary_draw_registers:
  assumes "se_subview w = RegistersView" and "se_execution w = Some e" and "secondary_ok w"
  shows "se_subview (fst (secondary_draw ctx area w)) = RegistersView"
    and "se_execution (fst (secondary_draw ctx area w)) = Some e"
    and "secondary_ok (fst (secondary_draw ctx area w))"
    and "se_rows (fst (secondary_draw ctx area w)) ! 0
      = min (se_rows w ! 0) (REGISTER_COUNT - register_viewport area)"
    and "tl (drawn_lines (snd (secondary_draw ctx area w)))
      = map (register_line (re_width area \<ge> 35)) (drop (se_rows w ! 0) (register_values e))"
  using assms registers_text_lines [OF assms(2)]
  by (simp_all add: secondary_draw_def secondary_contents_def secondary_clamp_def secondary_ok_def Let_def
      register_viewport_def del: diff_diff_left)

lemma secondary_clamp_again:
  assumes "secondary_ok w"
  shows "secondary_clamp n height (secondary_clamp n height w) = secondary_clamp n height w"
proof -
  have "secondary_index (se_subview w) < 4" by (rule secondary_index_less)
  with assms show ?thesis by (simp add: secondary_clamp_def secondary_ok_def Let_def)
qed

lemma secondary_draw_again:
  assumes "se_subview w = RegistersView" and "secondary_ok w"
  shows "fst (secondary_draw ctx area (fst (secondary_draw ctx area w))) = fst (secondary_draw ctx area w)"
proof -
  have drawn: "fst (secondary_draw ctx area v) = secondary_clamp REGISTER_COUNT (re_height area) v"
    if "se_subview v = RegistersView" for v
    using that by (simp add: secondary_draw_def secondary_contents_def Let_def)
  moreover have "se_subview (secondary_clamp REGISTER_COUNT (re_height area) w) = RegistersView"
    using assms(1) by (simp add: secondary_clamp_def Let_def)
  ultimately show ?thesis using assms secondary_clamp_again by simp
qed

text \<open>After going to a register the pane shows its value: in the next frame in the first line under the
  heading, and in every later one within the lines that the pane has room for, under a name that goto
  takes for the same register.\<close>

theorem goto_shows_register:
  assumes "register_row name = Some row" and "se_subview w = RegistersView" and "se_execution w = Some e"
    and "secondary_ok w"
  shows "\<exists>w1 first later. secondary_draw ctx area (fst (goto_register name w)) = (w1, first)
    \<and> secondary_draw ctx area w1 = (w1, later)
    \<and> drawn_lines first ! 1 = register_line (re_width area \<ge> 35) (register_values e ! row)
    \<and> register_line (re_width area \<ge> 35) (register_values e ! row)
        \<in> set (take (register_viewport area) (tl (drawn_lines later)))
    \<and> register_row (fst (register_values e ! row)) = Some row"
proof -
  let ?w = "fst (goto_register name w)" and ?line = "register_line (re_width area \<ge> 35)"
  have w: "se_subview ?w = RegistersView" "se_execution ?w = Some e" "secondary_ok ?w" "se_rows ?w ! 0 = row"
    using assms by (simp_all add: goto_register_def secondary_ok_def)
  note row = register_row_less [OF assms(1)]
  note first = secondary_draw_registers [OF w(1-3), of "ctx" area]
  note later = secondary_draw_registers [OF first(1-3), of "ctx" area]
  let ?from = "min row (REGISTER_COUNT - register_viewport area)"
  have "tl (drawn_lines (snd (secondary_draw ctx area ?w))) ! 0 = ?line (register_values e ! row)"
    unfolding first(5) w(4) using row by simp
  then have "drawn_lines (snd (secondary_draw ctx area ?w)) ! 1 = ?line (register_values e ! row)"
    using first(5) row w(4) by (cases "drawn_lines (snd (secondary_draw ctx area ?w))") auto
  moreover have "?line (register_values e ! row)
      \<in> set (take (register_viewport area) (map ?line (drop ?from (register_values e))))"
  proof -
    have "row - ?from < register_viewport area" using row by (auto simp: register_viewport_def)
    with row show ?thesis
      unfolding in_set_conv_nth by (intro exI [of _ "row - ?from"]) simp
  qed
  ultimately show ?thesis
    using register_names_round_trip [OF row] secondary_draw_again [OF w(1,3), of "ctx" area] later(5) first(4) w(4)
    by (metis prod.collapse)
qed



definition sample_execution :: execution_inspection where
  "sample_execution =
     \<lparr>ei_registers = map (\<lambda>i. 16 * of_nat i) [0..<16], ei_cpsr = 0x1d3, ei_spsr = 0x10, ei_mmu_enabled = False,
      ei_instruction_address = VirtualAddress 240, ei_instruction_bytes = [], ei_instruction_error = None\<rparr>"

definition sample_context :: render_context where
  "sample_context = \<lparr>rc_view = InspectView, rc_mode = NormalMode, rc_focused = SecondaryId, rc_input = [], rc_ticks = 0\<rparr>"

theorem goto_shows_register_witness:
  "\<exists>w1 first later.
     secondary_draw sample_context \<lparr>re_x = 0, re_y = 0, re_width = 30, re_height = 10\<rparr>
       (fst (goto_register (chars_of ''SPSR'') (secondary_widget_default\<lparr>se_execution := Some sample_execution\<rparr>)))
       = (w1, first)
     \<and> secondary_draw sample_context \<lparr>re_x = 0, re_y = 0, re_width = 30, re_height = 10\<rparr> w1 = (w1, later)
     \<and> drawn_lines first ! 1 = chars_of ''spsr  0x00000010''
     \<and> chars_of ''spsr  0x00000010'' \<in> set (take 7 (tl (drawn_lines later)))"
proof -
  let ?w = "secondary_widget_default\<lparr>se_execution := Some sample_execution\<rparr>"
  let ?area = "\<lparr>re_x = 0, re_y = 0, re_width = 30, re_height = 10\<rparr> :: rect"
  have line: "register_line False (register_values sample_execution ! 17) = chars_of ''spsr  0x00000010''"
    by (simp add: register_values_def nth_append register_line_def hex_field_def pad_right_def sample_execution_def
        format_hex_def digits_def digit_char_def chars_of_def upt_rec)
  have "register_row (chars_of ''SPSR'') = Some 17"
    by (simp add: register_row_def ascii_lowercase_def chars_of_def)
  moreover have "se_subview ?w = RegistersView" "secondary_ok ?w"
    by (simp_all add: secondary_widget_default_def secondary_ok_def)
  ultimately have "\<exists>w1 first later. secondary_draw sample_context ?area (fst (goto_register (chars_of ''SPSR'') ?w)) = (w1, first)
    \<and> secondary_draw sample_context ?area w1 = (w1, later)
    \<and> drawn_lines first ! 1 = register_line (re_width ?area \<ge> 35) (register_values sample_execution ! 17)
    \<and> register_line (re_width ?area \<ge> 35) (register_values sample_execution ! 17)
        \<in> set (take (register_viewport ?area) (tl (drawn_lines later)))
    \<and> register_row (fst (register_values sample_execution ! 17)) = Some 17"
    by (intro goto_shows_register) simp_all
  moreover have "register_viewport ?area = 7" by (simp add: register_viewport_def)
  ultimately show ?thesis by (simp add: line) blast
qed

text \<open>The registers are drawn before the row is clamped: a frame that clamps the row leaves lines of the
  pane empty which the next frame fills, with nothing happening in between.\<close>

theorem clamping_frame_is_short:
  assumes "se_subview w = RegistersView" and "se_execution w = Some e" and "secondary_ok w"
    and "REGISTER_COUNT - register_viewport area < se_rows w ! 0"
  shows "length (tl (drawn_lines (snd (secondary_draw ctx area w)))) < min (register_viewport area) REGISTER_COUNT"
    and "length (tl (drawn_lines (snd (secondary_draw ctx area (fst (secondary_draw ctx area w))))))
      = min (register_viewport area) REGISTER_COUNT"
proof -
  note drawn = secondary_draw_registers [OF assms(1-3), of "ctx" area]
  note again = secondary_draw_registers [OF drawn(1-3), of "ctx" area]
  have "0 < register_viewport area" by (simp add: register_viewport_def)
  with assms(4) show "length (tl (drawn_lines (snd (secondary_draw ctx area w)))) < min (register_viewport area) REGISTER_COUNT"
    unfolding drawn(5) by (auto simp: REGISTER_COUNT_def)
  show "length (tl (drawn_lines (snd (secondary_draw ctx area (fst (secondary_draw ctx area w))))))
      = min (register_viewport area) REGISTER_COUNT"
    unfolding again(5) drawn(4) using assms(4) by auto
qed


end
