(* ===== verification/Tui_App.thy ===== *)
theory Tui_App
  imports Tui_Console Tui_Memory Tui_Panes
begin

text \<open>
  The terminal application (\<open>app.rs\<close>, \<open>runtime.rs\<close>): the controller that holds the runtime's handle and
  its unanswered inspections, the queue of actions and what each action does, mouse and key events,
  the periodic tick and the part of drawing that changes state. What the emulator thread did since the
  last tick (its status and the answers it sent) and whether a pulse is due are inputs of a tick.
\<close>

section \<open>The runtime controller\<close>

datatype receiver_state = ReceiverEmpty | ReceiverClosed | ReceiverValue "runtime_error + runtime_inspection"

datatype pending_result =
    PendingReady widget_id runtime_inspection
  | PendingFailed widget_id runtime_inspection_request failure_detail

record pending_inspection =
  pd_target :: widget_id
  pd_request :: runtime_inspection_request
  pd_receiver :: nat

record runtime_controller =
  ct_status :: runtime_status
  ct_pending :: "pending_inspection list"
  ct_channel :: command_channel
  ct_inbox :: uart_inbox
  ct_next_receiver :: nat

definition controller_lifecycle :: "runtime_controller \<Rightarrow> lifecycle_state" where
  "controller_lifecycle ct = rs_lifecycle (ct_status ct)"

definition refresh_status :: "runtime_status \<Rightarrow> runtime_controller \<Rightarrow> runtime_controller \<times> runtime_status option" where
  "refresh_status status ct =
     (if status = ct_status ct then (ct, None) else (ct\<lparr>ct_status := status\<rparr>, Some status))"

definition controller_send :: "command \<Rightarrow> runtime_controller \<Rightarrow> runtime_controller \<times> (runtime_error + unit)" where
  "controller_send command ct =
     (let (ch, result) = handle_send command (ct_channel ct) in (ct\<lparr>ct_channel := ch\<rparr>, result))"

definition controller_request ::
  "widget_id \<Rightarrow> runtime_inspection_request \<Rightarrow> runtime_controller \<Rightarrow> runtime_controller \<times> (runtime_error + unit)" where
  "controller_request target request ct =
     (if list_ex (\<lambda>p. pd_target p = target \<and> pd_request p = request) (ct_pending ct) then (ct, Ok ())
      else
        (let receiver = ct_next_receiver ct;
             (ct, result) = controller_send (CmdInspect request receiver) ct
         in case result of
           Inl error \<Rightarrow> (ct, Err error)
         | Inr _ \<Rightarrow>
             (ct\<lparr>ct_pending := ct_pending ct @ [\<lparr>pd_target = target, pd_request = request, pd_receiver = receiver\<rparr>],
                 ct_next_receiver := receiver + 1\<rparr>, Ok ())))"

definition pending_answer :: "receiver_state \<Rightarrow> pending_inspection \<Rightarrow> pending_result option" where
  "pending_answer state p =
     (case state of
        ReceiverValue (Inr inspection) \<Rightarrow> Some (PendingReady (pd_target p) inspection)
      | ReceiverValue (Inl error) \<Rightarrow> Some (PendingFailed (pd_target p) (pd_request p) (FailedWith error))
      | ReceiverClosed \<Rightarrow> Some (PendingFailed (pd_target p) (pd_request p) ResponseChannelClosed)
      | ReceiverEmpty \<Rightarrow> None)"

text \<open>\<open>Vec::swap_remove\<close>.\<close>

definition swap_remove :: "nat \<Rightarrow> 'a list \<Rightarrow> 'a list" where
  "swap_remove i xs = (if i + 1 = length xs then butlast xs else (butlast xs)[i := last xs])"

function poll_from ::
  "(nat \<Rightarrow> receiver_state) \<Rightarrow> nat \<Rightarrow> pending_inspection list \<Rightarrow> pending_result list
   \<Rightarrow> pending_inspection list \<times> pending_result list" where
  "poll_from receivers index pending results =
     (if index < length pending then
        (case pending_answer (receivers (pd_receiver (pending ! index))) (pending ! index) of
           Some result \<Rightarrow> poll_from receivers index (swap_remove index pending) (results @ [result])
         | None \<Rightarrow> poll_from receivers (index + 1) pending results)
      else (pending, results))"
  by pat_completeness auto

termination
  by (relation "measure (\<lambda>(receivers, index, pending, results). length pending - index)")
     (auto simp: swap_remove_def)

declare poll_from.simps [simp del]

definition controller_poll ::
  "(nat \<Rightarrow> receiver_state) \<Rightarrow> runtime_controller \<Rightarrow> runtime_controller \<times> pending_result list" where
  "controller_poll receivers ct =
     (let (pending, results) = poll_from receivers 0 (ct_pending ct) [] in (ct\<lparr>ct_pending := pending\<rparr>, results))"

definition controller_resume :: "u64 option \<Rightarrow> runtime_controller \<Rightarrow> runtime_controller \<times> (runtime_error + unit)" where
  "controller_resume instruction_limit ct = controller_send (CmdResume instruction_limit) ct"

definition controller_send_uart :: "uart_port \<Rightarrow> u8 list \<Rightarrow> runtime_controller \<Rightarrow> runtime_controller" where
  "controller_send_uart port bytes ct = ct\<lparr>ct_inbox := inbox_push port bytes (ct_inbox ct)\<rparr>"

section \<open>The application\<close>

record app =
  ap_runtime :: runtime_controller
  ap_header :: "runtime_status option"
  ap_console :: console_widget
  ap_events :: events_widget
  ap_primary :: primary_widget
  ap_secondary :: secondary_widget
  ap_dialog :: dialog_widget
  ap_view :: view
  ap_focused :: widget_id
  ap_input :: input_router
  ap_layout :: split_layout
  ap_actions :: "action list"
  ap_quit :: bool
  ap_resume_after_input :: bool
  ap_suppress_input_resume :: bool
  ap_terminal_area :: rect
  ap_dragging :: "split_id option"
  ap_help_visible :: bool

definition WIDGETS :: "widget_id list" where
  "WIDGETS = [HeaderId, ConsoleId, EventsId, PrimaryId, SecondaryId, DialogId, InputBarId, HintsId, HelpId]"

definition extend_actions :: "action list \<Rightarrow> app \<Rightarrow> app" where
  "extend_actions actions app = app\<lparr>ap_actions := ap_actions app @ actions\<rparr>"

text \<open>The update of one widget; the input bar, the hints and the help have the default one.\<close>

definition app_target :: "widget_id \<Rightarrow> app_event \<Rightarrow> app \<Rightarrow> app option" where
  "app_target target event app =
     (case target of
        HeaderId \<Rightarrow> Some (app\<lparr>ap_header := header_update event (ap_header app)\<rparr>)
      | ConsoleId \<Rightarrow>
          map_option (\<lambda>(w, actions). extend_actions actions (app\<lparr>ap_console := w\<rparr>))
            (console_update event (ap_console app))
      | EventsId \<Rightarrow>
          (let (w, actions) = events_update event (ap_events app)
           in Some (extend_actions actions (app\<lparr>ap_events := w\<rparr>)))
      | PrimaryId \<Rightarrow>
          map_option (\<lambda>(w, actions). extend_actions actions (app\<lparr>ap_primary := w\<rparr>))
            (primary_update event (ap_primary app))
      | SecondaryId \<Rightarrow>
          (let (w, actions) = secondary_update event (ap_secondary app)
           in Some (extend_actions actions (app\<lparr>ap_secondary := w\<rparr>)))
      | DialogId \<Rightarrow> Some (app\<lparr>ap_dialog := dialog_update event (ap_dialog app)\<rparr>)
      | _ \<Rightarrow> Some app)"

fun broadcast_to :: "widget_id list \<Rightarrow> app_event \<Rightarrow> app \<Rightarrow> app option" where
  "broadcast_to [] event app = Some app"
| "broadcast_to (target # targets) event app =
     Option.bind (app_target target event app) (broadcast_to targets event)"

definition app_broadcast :: "app_event \<Rightarrow> app \<Rightarrow> app option" where
  "app_broadcast event app = broadcast_to WIDGETS event app"

definition show_message :: "dialog_message \<Rightarrow> app \<Rightarrow> app" where
  "show_message message app = app\<lparr>ap_dialog := dialog_update (EvDialog message) (ap_dialog app)\<rparr>"

definition app_lifecycle :: "app \<Rightarrow> lifecycle_state" where
  "app_lifecycle app = controller_lifecycle (ap_runtime app)"

definition operation_error :: "string \<Rightarrow> runtime_error \<Rightarrow> app \<Rightarrow> app" where
  "operation_error operation error app = show_message (message_error (TextOperationFailed operation error)) app"

definition refresh_inspectors :: "app \<Rightarrow> app" where
  "refresh_inspectors app = extend_actions [ActRefresh PrimaryId, ActRefresh SecondaryId] app"

text \<open>A command of the handle, and what follows its success or failure.\<close>

definition app_send :: "command \<Rightarrow> app \<Rightarrow> app \<times> (runtime_error + unit)" where
  "app_send command app =
     (let (ct, result) = controller_send command (ap_runtime app) in (app\<lparr>ap_runtime := ct\<rparr>, result))"

definition app_stop :: "app \<Rightarrow> app" where
  "app_stop app =
     (if app_lifecycle app \<noteq> LcRunning then
        (if app_lifecycle app = LcPaused then refresh_inspectors app
         else show_message (message_error (Literal ''emulation is not running'')) app)
      else
        (let (app, result) = app_send CmdPause app in
         case result of
           Inl error \<Rightarrow> operation_error ''stop'' error app
         | Inr _ \<Rightarrow> refresh_inspectors (show_message (message_info (Literal ''emulation stopped'')) app)))"

definition start_emulation :: "u64 option \<Rightarrow> app \<Rightarrow> app" where
  "start_emulation instruction_limit app =
     (if app_lifecycle app \<noteq> LcPaused \<and> \<not> ap_resume_after_input app then
        show_message (message_error (Literal ''emulation is not paused'')) app
      else
        (let (app, result) = app_send (CmdResume instruction_limit) app in
         case result of
           Inl error \<Rightarrow> operation_error ''start'' error app
         | Inr _ \<Rightarrow>
             show_message (message_info (case instruction_limit of
                 None \<Rightarrow> Literal ''emulation started'' | Some count \<Rightarrow> TextStartedFor count)) app))"

definition select_view :: "view \<Rightarrow> app \<Rightarrow> app option" where
  "select_view view app =
     (let app = (if view = InspectView then app\<lparr>ap_suppress_input_resume := True\<rparr> else app) in
      if ap_view app = view then Some app
      else
        (let app = app\<lparr>ap_view := view,
               ap_focused := (case view of RuntimeView \<Rightarrow> ConsoleId | InspectView \<Rightarrow> PrimaryId)\<rparr>;
             app = (if view = InspectView \<and> app_lifecycle app = LcRunning
                    then app_stop (app\<lparr>ap_suppress_input_resume := True\<rparr>) else app)
         in app_broadcast (EvViewChanged view) app))"

definition set_mode :: "input_mode \<Rightarrow> app \<Rightarrow> app" where
  "set_mode mode app =
     (let previous = ir_mode (ap_input app) in
      if previous = mode then app
      else
        (let app = (if mode = CommandMode \<and> app_lifecycle app = LcRunning then
                      (let (app, result) = app_send CmdPause app in
                       case result of
                         Inr _ \<Rightarrow> app\<lparr>ap_resume_after_input := True, ap_suppress_input_resume := False\<rparr>
                       | Inl _ \<Rightarrow> app)
                    else app);
             app = app\<lparr>ap_input := router_set_mode mode (ap_input app)\<rparr>
         in if previous = CommandMode \<and> mode = NormalMode then
              (if ap_resume_after_input app \<and> \<not> ap_suppress_input_resume app then start_emulation None app else app)
                \<lparr>ap_resume_after_input := False, ap_suppress_input_resume := False\<rparr>
            else app))"

section \<open>Actions\<close>

definition widget_key :: "widget_id \<Rightarrow> key_event \<Rightarrow> app \<Rightarrow> app" where
  "widget_key target key app =
     (let mode = ir_mode (ap_input app) in
      case target of
        ConsoleId \<Rightarrow>
          (let (w, actions) = console_handle_key key mode (ap_console app)
           in extend_actions actions (app\<lparr>ap_console := w\<rparr>))
      | PrimaryId \<Rightarrow> extend_actions (primary_handle_key key mode (ap_primary app)) app
      | SecondaryId \<Rightarrow> extend_actions (secondary_handle_key key mode (ap_secondary app)) app
      | _ \<Rightarrow> app)"

definition suppress_resume :: "app \<Rightarrow> app" where
  "suppress_resume app = app\<lparr>ap_suppress_input_resume := True\<rparr>"

definition toggle_run :: "app \<Rightarrow> app" where
  "toggle_run app =
     (if ap_resume_after_input app then app_stop app
      else case app_lifecycle app of
        LcRunning \<Rightarrow> app_stop app
      | LcPaused \<Rightarrow> start_emulation None app
      | state \<Rightarrow> show_message (message_error (TextCannotToggle state)) app)"

definition app_reset :: "app \<Rightarrow> app option" where
  "app_reset app =
     (let (app, result) = app_send CmdReset app in
      case result of
        Inl error \<Rightarrow> Some (operation_error ''reset'' error app)
      | Inr _ \<Rightarrow> map_option (\<lambda>app. refresh_inspectors
            (show_message (message_info (Literal ''emulator reset requested'')) app)) (app_broadcast EvReset app))"

definition app_request :: "widget_id \<Rightarrow> runtime_inspection_request \<Rightarrow> app \<Rightarrow> app" where
  "app_request target request app =
     (let (ct, result) = controller_request target request (ap_runtime app);
          app = app\<lparr>ap_runtime := ct\<rparr>
      in case result of
        Inl error \<Rightarrow> show_message (message_error (TextRequestFailed request (FailedWith error))) app
      | Inr _ \<Rightarrow> app)"

definition process_action :: "action \<Rightarrow> app \<Rightarrow> app option" where
  "process_action action app =
     (case action of
        ActQuit \<Rightarrow> Some ((suppress_resume app)\<lparr>ap_quit := True\<rparr>)
      | ActSelectView view \<Rightarrow> select_view view app
      | ActToggleView \<Rightarrow> select_view (view_toggled (ap_view app)) app
      | ActFocus target \<Rightarrow>
          Some (if visible_focus (ap_view app) target then app\<lparr>ap_focused := target\<rparr> else app)
      | ActSetMode mode \<Rightarrow> Some (set_mode mode app)
      | ActToggleRun \<Rightarrow> Some (toggle_run (suppress_resume app))
      | ActStart instruction_limit \<Rightarrow> Some (start_emulation instruction_limit (suppress_resume app))
      | ActStop \<Rightarrow> Some (app_stop (suppress_resume app))
      | ActReset \<Rightarrow> app_reset (suppress_resume app)
      | ActSendUart port bytes \<Rightarrow>
          Some (app\<lparr>ap_runtime := controller_send_uart port bytes (ap_runtime app)\<rparr>)
      | ActRequestInspection target request \<Rightarrow> Some (app_request target request app)
      | ActWidgetKey target key \<Rightarrow> Some (widget_key target key app)
      | ActInsertText target inserted \<Rightarrow> app_target target (EvInsertText inserted) app
      | ActNavigate target m \<Rightarrow> app_target target (EvNavigate m) app
      | ActGoto target value \<Rightarrow> app_target target (EvGoto value) app
      | ActSetUart port \<Rightarrow>
          map_option (show_message (message_info (TextConsoleUart port))) (app_broadcast (EvUartSelected port) app)
      | ActSetPrimary subview \<Rightarrow> app_broadcast (EvPrimarySelected subview) app
      | ActSetSecondary subview \<Rightarrow> app_broadcast (EvSecondarySelected subview) app
      | ActRefresh target \<Rightarrow> app_target target EvRefresh app
      | ActShowMessage message \<Rightarrow> Some (show_message message app)
      | ActShowHelp \<Rightarrow> Some (app\<lparr>ap_help_visible := True\<rparr>)
      | ActResize split percent \<Rightarrow> Some (app\<lparr>ap_layout := layout_resize split percent (ap_layout app)\<rparr>))"

partial_function (option) process_actions :: "app \<Rightarrow> app option" where
  "process_actions app =
     (case ap_actions app of
        [] \<Rightarrow> Some app
      | action # actions \<Rightarrow>
          Option.bind (process_action action (app\<lparr>ap_actions := actions\<rparr>)) process_actions)"


section \<open>Mouse, keys and pastes\<close>

datatype mouse_kind = MouseDownLeft | MouseDragLeft | MouseUpLeft | MouseOther

record mouse_event =
  mo_kind :: mouse_kind
  mo_control :: bool
  mo_column :: u16
  mo_row :: u16

datatype app_input = TerminalInput terminal_event | MouseInput mouse_event

definition plain_click_action ::
  "terminal_lib \<Rightarrow> split_layout \<Rightarrow> rect \<Rightarrow> view \<Rightarrow> widget_id \<Rightarrow> input_mode \<Rightarrow> u16 \<Rightarrow> u16 \<Rightarrow> action option option" where
  "plain_click_action lib layout area view focused mode column row =
     (if mode = InsertMode then Some None
      else case layout_areas lib layout area view focused of
        None \<Rightarrow> None
      | Some areas \<Rightarrow>
          (case Option.bind (areas HeaderId) (\<lambda>header. view_at lib header column row) of
             Some view \<Rightarrow> Some (Some (ActSelectView view))
           | None \<Rightarrow> map_option (map_option ActFocus) (focus_at lib layout area view focused column row)))"

definition abs_diff_u16 :: "u16 \<Rightarrow> u16 \<Rightarrow> u16" where
  "abs_diff_u16 a b = (if a < b then b - a else a - b)"

definition handle_mouse :: "terminal_lib \<Rightarrow> mouse_event \<Rightarrow> app \<Rightarrow> app option" where
  "handle_mouse lib mouse app =
     (case mo_kind mouse of
        MouseDownLeft \<Rightarrow>
          if mo_control mouse then
            (let split = (case ap_view app of RuntimeView \<Rightarrow> RuntimeMain | InspectView \<Rightarrow> InspectMain);
                 column = split_column (ap_layout app) (ap_terminal_area app) (ap_view app)
             in Some (if abs_diff_u16 (mo_column mouse) column \<le> 2 then app\<lparr>ap_dragging := Some split\<rparr> else app))
          else
            map_option (\<lambda>clicked. case clicked of Some action \<Rightarrow> extend_actions [action] app | None \<Rightarrow> app)
              (plain_click_action lib (ap_layout app) (ap_terminal_area app) (ap_view app) (ap_focused app)
                 (ir_mode (ap_input app)) (mo_column mouse) (mo_row mouse))
      | MouseDragLeft \<Rightarrow>
          (case ap_dragging app of
             None \<Rightarrow> Some app
           | Some split \<Rightarrow>
               (let relative = saturating_sub_u16 (mo_column mouse) (re_x (ap_terminal_area app));
                    width = re_width (ap_terminal_area app)
                in Some (if width = 0 then app
                     else extend_actions [ActResize split (saturating_mul_u16 relative 100 div width)] app)))
      | MouseUpLeft \<Rightarrow> Some (app\<lparr>ap_dragging := None\<rparr>)
      | MouseOther \<Rightarrow> Some app)"

definition handle_event :: "terminal_lib \<Rightarrow> app_input \<Rightarrow> app \<Rightarrow> app option" where
  "handle_event lib event app =
     (case event of
        MouseInput mouse \<Rightarrow> Option.bind (handle_mouse lib mouse app) process_actions
      | TerminalInput terminal \<Rightarrow>
          if ap_help_visible app \<and> (case terminal of EventKey key pressed \<Rightarrow> pressed | _ \<Rightarrow> False)
          then Some (app\<lparr>ap_help_visible := False\<rparr>)
          else Option.bind (router_route terminal (ap_focused app) (ap_input app)) (\<lambda>(router, actions).
            process_actions (extend_actions actions (app\<lparr>ap_input := router\<rparr>))))"

section \<open>The tick\<close>

text \<open>A breakpoint stop, which the code knows by the text of the note.\<close>

definition breakpoint_note :: "runtime_status \<Rightarrow> stop_note option" where
  "breakpoint_note status =
     (case rs_last_stop status of
        Some (NoteBreakpoint immediate address) \<Rightarrow> Some (NoteBreakpoint immediate address)
      | _ \<Rightarrow> None)"

definition tick_status :: "runtime_status \<Rightarrow> app \<Rightarrow> app option" where
  "tick_status status app =
     (let (ct, changed) = refresh_status status (ap_runtime app);
          app = app\<lparr>ap_runtime := ct\<rparr>
      in case changed of
        None \<Rightarrow> Some app
      | Some status \<Rightarrow>
          map_option (\<lambda>app.
            if rs_lifecycle status = LcPaused then
              refresh_inspectors (case breakpoint_note status of
                  Some note \<Rightarrow> show_message (message_info (TextStop note)) app | None \<Rightarrow> app)
            else app) (app_broadcast (EvStatus status) app))"

definition tick_result :: "pending_result \<Rightarrow> app \<Rightarrow> app option" where
  "tick_result result app =
     (case result of
        PendingReady target inspection \<Rightarrow> app_target target (EvInspection inspection) app
      | PendingFailed target request error \<Rightarrow>
          if target = PrimaryId then app_target target (EvInspectionFailed request error) app
          else Some (show_message (message_error (TextRequestFailed request error)) app))"

fun tick_results :: "pending_result list \<Rightarrow> app \<Rightarrow> app option" where
  "tick_results [] app = Some app"
| "tick_results (result # results) app = Option.bind (tick_result result app) (tick_results results)"

datatype cli_failure = RuntimeSetup

definition app_tick ::
  "runtime_status \<Rightarrow> (nat \<Rightarrow> receiver_state) \<Rightarrow> bool \<Rightarrow> app \<Rightarrow> (app \<times> (cli_failure + unit)) option" where
  "app_tick status receivers pulse_due app =
     Option.bind (tick_status status app) (\<lambda>app.
     let (ct, results) = controller_poll receivers (ap_runtime app) in
     Option.bind (tick_results results (app\<lparr>ap_runtime := ct\<rparr>)) (\<lambda>app.
     Option.bind (if pulse_due then app_broadcast EvPulse app else Some app) (\<lambda>app.
     Option.bind (process_actions app) (\<lambda>app.
       Some (app, if app_lifecycle app = LcFailed then Err RuntimeSetup else Ok ())))))"

section \<open>Drawing and the start\<close>

text \<open>The part of \<open>render\<close> that changes the panes; \<open>content_length\<close> counts the lines of the secondary
  pane's text.\<close>

definition app_render ::
  "terminal_lib \<Rightarrow> (secondary_widget \<Rightarrow> usize) \<Rightarrow> rect \<Rightarrow> app \<Rightarrow> app option" where
  "app_render lib content_length area app =
     (let app = app\<lparr>ap_terminal_area := area\<rparr> in
      case layout_areas lib (ap_layout app) area (ap_view app) (ap_focused app) of
        None \<Rightarrow> None
      | Some areas \<Rightarrow>
          if ap_view app \<noteq> InspectView then Some app
          else
            (let primary = (case areas PrimaryId of
                 Some a \<Rightarrow> if pw_subview (ap_primary app) = DisassemblyView then Some (ap_primary app)
                           else update_memory_geometry (re_width a) (re_height a) (ap_primary app)
               | None \<Rightarrow> Some (ap_primary app));
                 secondary = (case areas SecondaryId of
                   Some a \<Rightarrow> secondary_clamp (content_length (ap_secondary app)) (re_height a) (ap_secondary app)
                 | None \<Rightarrow> ap_secondary app)
             in map_option (\<lambda>w. app\<lparr>ap_primary := w, ap_secondary := secondary\<rparr>) primary))"

text \<open>The wait for the first pause, over the statuses that it sees, at most 500.\<close>

fun wait_for_pause :: "runtime_status list \<Rightarrow> runtime_controller \<Rightarrow> runtime_controller \<times> (cli_failure + unit)" where
  "wait_for_pause [] ct = (ct, if controller_lifecycle ct = LcPaused then Ok () else Err RuntimeSetup)"
| "wait_for_pause (status # statuses) ct =
     (let ct = fst (refresh_status status ct) in
      if controller_lifecycle ct = LcPaused then (ct, Ok ())
      else if controller_lifecycle ct = LcFailed then (ct, Err RuntimeSetup)
      else wait_for_pause statuses ct)"

definition initial_app :: "runtime_controller \<Rightarrow> app" where
  "initial_app ct =
     \<lparr>ap_runtime = ct, ap_header = None, ap_console = console_widget_default,
      ap_events = events_widget_default, ap_primary = primary_widget_default,
      ap_secondary = secondary_widget_default, ap_dialog = dialog_widget_default, ap_view = RuntimeView,
      ap_focused = ConsoleId, ap_input = input_router_default, ap_layout = split_layout_default,
      ap_actions = [], ap_quit = False, ap_resume_after_input = False, ap_suppress_input_resume = False,
      ap_terminal_area = \<lparr>re_x = 0, re_y = 0, re_width = 0, re_height = 0\<rparr>, ap_dragging = None,
      ap_help_visible = False\<rparr>"

definition app_start :: "runtime_status list \<Rightarrow> runtime_controller \<Rightarrow> (cli_failure + app) option" where
  "app_start statuses ct =
     (case wait_for_pause (take 500 statuses) ct of
        (ct, Inl failure) \<Rightarrow> Some (Err failure)
      | (ct, Inr _) \<Rightarrow>
          map_option Ok
            (Option.bind (app_broadcast (EvStatus (ct_status ct)) (initial_app ct)) (\<lambda>app.
             Option.bind (app_broadcast (EvViewChanged RuntimeView) app) process_actions)))"

end
