(* ===== verification/Tui_Draw.thy ===== *)
theory Tui_Draw
  imports Tui_Text Tui_App
begin

text \<open>
  How each pane of the terminal interface is drawn (the \<open>render\<close> functions in
  \<open>crates/minemu/src/tui/widgets\<close>) and which panes a frame shows (\<open>App::render\<close>): the rows of the
  memory pane with its cursor, the disassembly, the console, the dialog, the events, the header, the
  help table, the hints and the input bar. The disassembler and the texts of errors are the parameters
  \<open>drawing_lib\<close>.
\<close>

section \<open>The libraries\<close>

record instruction =
  in_address :: u64
  in_bytes :: "u8 list"
  in_mnemonic :: "rust_string option"
  in_op_str :: "rust_string option"

text \<open>The disassembler is \<open>None\<close> when it cannot be made; it gives the instructions or an error.\<close>

record drawing_lib =
  dl_terminal :: terminal_lib
  dl_show_message :: "message_text \<Rightarrow> rust_string"
  dl_show_error :: "backend_error \<Rightarrow> rust_string"
  dl_disassembler :: "(u8 list \<Rightarrow> u64 \<Rightarrow> rust_string + instruction list) option"

section \<open>The memory rows\<close>

text \<open>\<open>chunks\<close> of a slice, for a positive size.\<close>

function slice_chunks :: "nat \<Rightarrow> 'a list \<Rightarrow> 'a list list" where
  "slice_chunks n xs = (if xs = [] \<or> n = 0 then [] else take n xs # slice_chunks n (drop n xs))"
  by pat_completeness auto
termination by (relation "measure (\<lambda>(n, xs). length xs)") auto

declare slice_chunks.simps [simp del]

definition raw_span :: "rust_string \<Rightarrow> span" where
  "raw_span s = Span s StylePlain"

text \<open>\<open>u8::is_ascii_graphic\<close>.\<close>

definition byte_char :: "u8 \<Rightarrow> rust_char" where
  "byte_char b = (if 0x21 \<le> b \<and> b \<le> 0x7e \<or> b = 0x20 then unat b else 46)"

definition cursor_style :: "u32 \<Rightarrow> u32 \<Rightarrow> span_style" where
  "cursor_style address cursor = (if address = cursor then StyleSelected else StylePlain)"

text \<open>A row: its address, the bytes in hexadecimal, the filling up of a short row, and the characters.\<close>

definition hex_cells :: "u32 \<Rightarrow> u32 \<Rightarrow> u8 list \<Rightarrow> span list" where
  "hex_cells address cursor bytes =
     concat (map (\<lambda>(column, b).
       [Span (format_hex 2 (unat b)) (cursor_style (address + of_nat column) cursor), raw_span [32]])
       (enumerate 0 bytes))"

definition char_cells :: "u32 \<Rightarrow> u32 \<Rightarrow> u8 list \<Rightarrow> span list" where
  "char_cells address cursor bytes =
     map (\<lambda>(column, b). Span [byte_char b] (cursor_style (address + of_nat column) cursor)) (enumerate 0 bytes)"

definition memory_row :: "usize \<Rightarrow> u32 \<Rightarrow> u32 \<Rightarrow> u8 list \<Rightarrow> span list" where
  "memory_row columns address cursor bytes =
     raw_span (format_hex 8 (unat address) @ chars_of '': '')
     # hex_cells address cursor bytes
     @ replicate (columns - length bytes) (raw_span (chars_of ''   ''))
     @ raw_span [32]
     # char_cells address cursor bytes"

definition memory_header :: "string \<Rightarrow> usize \<Rightarrow> span list list" where
  "memory_header address_label columns =
     [[raw_span (pad_right 10 (chars_of address_label) @ pad_right (columns * 3) (chars_of ''offset'')
         @ chars_of '' ascii'')],
      [raw_span (replicate 10 32
         @ concat (map (\<lambda>offset. [43] @ format_dec offset @ [32]) [0..<columns]))]]"

definition memory_rows :: "usize \<Rightarrow> u32 \<Rightarrow> u32 \<Rightarrow> u8 list \<Rightarrow> span list list" where
  "memory_rows columns start cursor bytes =
     map (\<lambda>(row, bytes). memory_row columns (start + of_nat (row * columns)) cursor bytes)
       (enumerate 0 (slice_chunks columns bytes))"

definition pane_memory :: "bool \<Rightarrow> primary_widget \<Rightarrow> string \<times> u32 \<times> u8 list \<times> u32" where
  "pane_memory virtual_memory w =
     (if virtual_memory
      then (''vaddr'', va_get (pw_virtual_start w), pw_virtual_memory w, va_get (pw_virtual_cursor w))
      else (''paddr'', pa_get (pr_start (pw_memory_range w)), pw_memory w, pa_get (pw_memory_cursor w)))"

definition render_memory :: "bool \<Rightarrow> primary_widget \<Rightarrow> (span list list) option" where
  "render_memory virtual_memory w =
     (case pane_memory virtual_memory w of (address_label, start, bytes, cursor) \<Rightarrow>
        if pw_memory_columns w = 0 then None
        else Some (memory_header address_label (pw_memory_columns w)
                   @ memory_rows (pw_memory_columns w) start cursor bytes))"

section \<open>The disassembly\<close>

text \<open>\<open>{:08x}\<close> of a 64-bit address, which widens when eight digits do not hold it.\<close>

definition format_address :: "u64 \<Rightarrow> rust_string" where
  "format_address a =
     (let text_digits = dropWhile (\<lambda>c. c = 48) (format_hex 16 (unat a))
      in replicate (8 - length text_digits) 48 @ text_digits)"

definition instruction_row :: "u64 \<Rightarrow> instruction \<Rightarrow> span list" where
  "instruction_row pc i =
     [Span (chars_of ''0x'' @ format_address (in_address i) @ chars_of '':'')
        (if in_address i = pc then StyleSelected else StylePlain),
      raw_span (chars_of '' ''
        @ pad_right 11 (join_with [32] (map (\<lambda>b. format_hex 2 (unat b)) (in_bytes i)))
        @ chars_of ''  ''
        @ pad_right 8 (case in_mnemonic i of Some s \<Rightarrow> s | None \<Rightarrow> chars_of ''inv'')
        @ chars_of '' '' @ (case in_op_str i of Some s \<Rightarrow> s | None \<Rightarrow> []))]"

definition render_disassembly :: "drawing_lib \<Rightarrow> primary_widget \<Rightarrow> drawn_text" where
  "render_disassembly lib w =
     (case pw_execution w of
        None \<Rightarrow> PlainText (chars_of ''execution snapshot unavailable'')
      | Some execution \<Rightarrow>
          (case ei_instruction_error execution of
             Some error \<Rightarrow> PlainText (chars_of ''instruction bytes unavailable: '' @ dl_show_error lib error)
           | None \<Rightarrow>
               (case dl_disassembler lib of
                  None \<Rightarrow> PlainText (chars_of ''failed to initialize Capstone'')
                | Some disassemble \<Rightarrow>
                    (case disassemble (ei_instruction_bytes execution)
                            (ucast (va_get (ei_instruction_address execution))) of
                       Inl error \<Rightarrow> PlainText (chars_of ''disassembly failed: '' @ error)
                     | Inr instructions \<Rightarrow>
                         StyledText
                           ([raw_span (chars_of ''  ''
                               @ pad_right 10 (chars_of (if ei_mmu_enabled execution then ''vaddr'' else ''paddr''))
                               @ chars_of '' raw          disasm'')]
                            # map (instruction_row (ucast (ei_registers execution ! 15))) instructions)))))"

section \<open>The primary pane\<close>

fun primary_name :: "primary_subview \<Rightarrow> string" where
  "primary_name PhysicalMemoryView = ''pmem''"
| "primary_name VirtualMemoryView = ''vmem''"
| "primary_name DisassemblyView = ''disasm''"

definition primary_draw ::
  "drawing_lib \<Rightarrow> render_context \<Rightarrow> rect \<Rightarrow> primary_widget \<Rightarrow> (primary_widget \<times> drawn_pane) option" where
  "primary_draw lib ctx area w =
     (let name = primary_name (pw_subview w);
          frame = pane_block (chars_of ''[^p] primary ('' @ chars_of name @ chars_of '')'')
                    (rc_focused ctx = PrimaryId) (re_width area)
      in if pw_subview w = DisassemblyView
         then Some (w, \<lparr>dp_text = render_disassembly lib w, dp_wrap = False, dp_scroll = 0, dp_frame = frame,
           dp_bar = render_scrollbar area ((2 ^ 32 - 1) div 4) (unat (saturating_sub_u16 (re_height area) 2))
             (case pw_execution w of
                Some execution \<Rightarrow> unat (va_get (ei_instruction_address execution)) div 4
              | None \<Rightarrow> 0)\<rparr>)
         else Option.bind (update_memory_geometry (re_width area) (re_height area) w) (\<lambda>w.
           (let virtual_memory = (pw_subview w = VirtualMemoryView) in
            Option.bind (render_memory virtual_memory w) (\<lambda>rows.
              Some (w, \<lparr>dp_text = StyledText rows, dp_wrap = False, dp_scroll = 0, dp_frame = frame,
                dp_bar = render_scrollbar area
                  (if virtual_memory then 2 ^ 32 - 1 + 1 else memory_map_size)
                  (unat (pw_memory_window w))
                  (if virtual_memory then unat (va_get (pw_virtual_start w))
                   else (case memory_linear_offset (pr_start (pw_memory_range w)) of
                           Some n \<Rightarrow> n | None \<Rightarrow> 0))\<rparr>)))))"

section \<open>The other panes\<close>

definition console_draw :: "render_context \<Rightarrow> rect \<Rightarrow> console_widget \<Rightarrow> drawn_pane" where
  "console_draw ctx area w =
     (let shown = console_output (console_stream_of w);
          lines = length (string_lines shown);
          viewport = unat (saturating_sub_u16 (re_height area) 2);
          offset = scroll_offset lines (re_height area) (cw_from_bottom w)
      in \<lparr>dp_text = PlainText shown, dp_wrap = True, dp_scroll = offset,
          dp_frame = pane_block
            (chars_of ''[^c] console (uart '' @ format_dec (if cw_uart w = PortUart0 then 0 else 1) @ chars_of '')'')
            (rc_focused ctx = ConsoleId) (re_width area),
          dp_bar = render_scrollbar area lines viewport (unat offset)\<rparr>)"

definition dialog_draw :: "drawing_lib \<Rightarrow> render_context \<Rightarrow> rect \<Rightarrow> dialog_widget \<Rightarrow> drawn_pane" where
  "dialog_draw lib ctx area w =
     (let inner_width = max (unat (saturating_sub_u16 (re_width area) 3)) 1;
          lines = dialog_lines (dl_terminal lib) (dl_show_message lib) inner_width w;
          wrapped_lines = length lines;
          viewport = unat (saturating_sub_u16 (re_height area) 2);
          offset = scroll_offset wrapped_lines (re_height area) (di_from_bottom w)
      in \<lparr>dp_text = StyledText (map (\<lambda>(level, line). [Span line (StyleLevel level)]) lines), dp_wrap = False,
          dp_scroll = offset,
          dp_frame = pane_block (chars_of ''[^d] dialog'') (rc_focused ctx = DialogId) (re_width area),
          dp_bar = render_scrollbar area wrapped_lines viewport (unat offset)\<rparr>)"

text \<open>The derived \<open>Debug\<close> of an event.\<close>

fun exception_name :: "exception_kind \<Rightarrow> string" where
  "exception_name ExUndefined = ''Undefined''"
| "exception_name ExSupervisorCall = ''SupervisorCall''"
| "exception_name ExPrefetchAbort = ''PrefetchAbort''"
| "exception_name ExDataAbort = ''DataAbort''"
| "exception_name ExInterrupt = ''Interrupt''"

fun event_line :: "observable_event \<Rightarrow> rust_string" where
  "event_line (ObsTrace event) =
     chars_of ''Trace(TraceInspectionEvent { tick: '' @ format_dec (unat (te_tick event))
     @ chars_of '', value: '' @ format_dec (unat (te_value event)) @ chars_of '' })''"
| "event_line (ObsException kind) = chars_of ''Exception('' @ chars_of (exception_name kind) @ chars_of '')''"

definition events_draw :: "render_context \<Rightarrow> rect \<Rightarrow> events_widget \<Rightarrow> drawn_pane" where
  "events_draw ctx area w =
     (let lines = map event_line (ew_events w);
          viewport = unat (saturating_sub_u16 (re_height area) 2);
          offset = scroll_offset (length lines) (re_height area) (ew_from_bottom w)
      in \<lparr>dp_text = PlainText (join_lines lines), dp_wrap = False, dp_scroll = offset,
          dp_frame = pane_block (chars_of ''[^e] events'') (rc_focused ctx = EventsId) (re_width area),
          dp_bar = render_scrollbar area (length lines) viewport (unat offset)\<rparr>)"

section \<open>The header, the help, the hints and the input bar\<close>

record header_drawing =
  hd_title :: string
  hd_titles :: "string list"
  hd_selected :: usize
  hd_tabs_area :: rect
  hd_status :: rust_string
  hd_status_area :: rect

fun lifecycle_name :: "lifecycle_state \<Rightarrow> string" where
  "lifecycle_name LcStarting = ''Starting''"
| "lifecycle_name LcRunning = ''Running''"
| "lifecycle_name LcPaused = ''Paused''"
| "lifecycle_name LcStopping = ''Stopping''"
| "lifecycle_name LcStopped = ''Stopped''"
| "lifecycle_name LcFailed = ''Failed''"

definition header_draw ::
  "terminal_lib \<Rightarrow> render_context \<Rightarrow> rect \<Rightarrow> runtime_status option \<Rightarrow> header_drawing option" where
  "header_draw lib ctx area status =
     (let inside = tl_inner_top lib area;
          columns = tl_split lib Horizontal [CoLength 27, CoMin 1] inside
      in if length columns < 2 then None
         else Some \<lparr>
           hd_title = '' minemu '',
           hd_titles = (case rc_view ctx of RuntimeView \<Rightarrow> [''[ runtime ]'', ''  inspect  '']
                        | InspectView \<Rightarrow> [''  runtime  '', ''[ inspect ]'']),
           hd_selected = (if rc_view ctx = InspectView then 1 else 0),
           hd_tabs_area = columns ! 0,
           hd_status = (case status of None \<Rightarrow> chars_of ''starting''
                        | Some s \<Rightarrow> ascii_lowercase (chars_of (lifecycle_name (rs_lifecycle s)))),
           hd_status_area = (columns ! 1)\<lparr>re_width := saturating_sub_u16 (re_width (columns ! 1)) 1\<rparr>\<rparr>)"

datatype help_row = HelpSection string | HelpCommand string rust_string u16

definition help_section :: "string \<Rightarrow> help_row" where
  "help_section title = HelpSection title"

definition help_command :: "string \<Rightarrow> string \<Rightarrow> usize \<Rightarrow> help_row" where
  "help_command input description width =
     (let lines = wrap_words (chars_of description) width
      in HelpCommand input (join_lines lines) (of_nat (length lines)))"

definition help_rows :: "usize \<Rightarrow> help_row list" where
  "help_rows width =
     [help_section ''VIEWS / EMULATION'',
      help_command ''Space r'' ''Select runtime view'' width,
      help_command ''Space i'' ''Select inspect view and pause'' width,
      help_command ''Space s'' ''Toggle emulation start/stop'' width,
      help_command '':start [COUNT]'' ''Run continuously or for COUNT instructions'' width,
      help_command '':s [COUNT] / :stop'' ''Toggle, run COUNT instructions, or stop'' width,
      help_command '':reset'' ''Request an emulated power cycle'' width,
      help_section ''FOCUS AND MODES'',
      help_command ''Ctrl+c/e/d'' ''Focus console, events, or dialog'' width,
      help_command ''Ctrl+p/s'' ''Focus primary or secondary inspector'' width,
      help_command ''i / Esc'' ''Enter insert mode / return to normal mode'' width,
      help_command ''? / :help'' ''Open this help window'' width,
      help_section ''NAVIGATION'',
      help_command ''[#] arrows / h/j/k/l'' ''Move by pane-local units'' width,
      help_command ''gg / G'' ''Move to first / current or last item'' width,
      help_command ''Tab'' ''Switch the focused inspector subview'' width,
      help_command ''/text'' ''Search physical RAM for ASCII text'' width,
      help_command (CHR 0x5C # ''de ad be ef'') ''Search physical RAM for hex bytes'' width,
      help_command ''>location'' ''Goto an address or register'' width,
      help_section ''COMMANDS'',
      help_command '':view [r|i]'' ''Toggle or select a view'' width,
      help_command '':set uart 0|1'' ''Select console input UART'' width,
      help_command '':set primary'' ''Select pmem, vmem, or disasm'' width,
      help_command '':set secondary'' ''Select reg, sys, peri, or pend'' width,
      help_command '':translate ADDR'' ''Translate a virtual address'' width,
      help_command '':q'' ''Quit minemu'' width]"

definition COMMAND_WIDTH :: u16 where
  "COMMAND_WIDTH = 18"

definition COLUMN_SPACING :: u16 where
  "COLUMN_SPACING = 2"

record help_drawing =
  hp_title_top :: string
  hp_title_bottom :: string
  hp_rows :: "help_row list"
  hp_constraints :: "constraint list"
  hp_column_spacing :: u16

definition help_draw :: "rect \<Rightarrow> help_drawing" where
  "help_draw area =
     \<lparr>hp_title_top = '' help '', hp_title_bottom = '' press any key to close '',
      hp_rows = help_rows (max (unat (saturating_sub_u16 (re_width area) (2 + 1 + COMMAND_WIDTH + COLUMN_SPACING))) 1),
      hp_constraints = [CoLength COMMAND_WIDTH, CoMin 1], hp_column_spacing = COLUMN_SPACING\<rparr>"

fun hint_text :: "input_mode \<Rightarrow> widget_id \<Rightarrow> string" where
  "hint_text InsertMode focused = ''Normal: <esc>''"
| "hint_text CommandMode focused = ''Execute: <enter>  Cancel: <esc>''"
| "hint_text LeaderMode focused = ''Runtime: r  Inspect: i  Start/Stop: s''"
| "hint_text SearchAsciiMode focused = ''Search: <enter>  Cancel: <esc>''"
| "hint_text SearchBytesMode focused = ''Search: <enter>  Cancel: <esc>''"
| "hint_text GotoMode focused = ''Goto: <enter>  Cancel: <esc>''"
| "hint_text NormalMode focused =
     (case focused of
        ConsoleId \<Rightarrow> ''Insert: i  Scroll: [#]jk/arrows  Leader: <space>  Help: ?''
      | PrimaryId \<Rightarrow> ''Move: [#]hjkl/arrows  Subview: <tab>  Search: / '' @ CHR 0x5C # ''  Goto: >''
      | SecondaryId \<Rightarrow> ''Move: [#]hjkl/arrows  Subview: <tab>  Goto: >''
      | _ \<Rightarrow> ''Scroll: [#]jk/arrows  Current: G  Leader: <space>  Help: ?'')"

record hints_drawing =
  hn_hints :: string
  hn_area :: rect
  hn_ticks :: rust_string
  hn_ticks_area :: rect

definition hints_draw :: "terminal_lib \<Rightarrow> render_context \<Rightarrow> rect \<Rightarrow> hints_drawing option" where
  "hints_draw lib ctx area =
     (let columns = tl_split lib Horizontal [CoMin 1, CoLength 28] area
      in if length columns < 2 then None
         else Some \<lparr>hn_hints = hint_text (rc_mode ctx) (rc_focused ctx),
           hn_area = (columns ! 0)\<lparr>re_width := saturating_sub_u16 (re_width (columns ! 0)) 1\<rparr>,
           hn_ticks = chars_of '' ticks: 0x'' @ format_hex 16 (unat (rc_ticks ctx)),
           hn_ticks_area = columns ! 1\<rparr>)"

definition input_bar_draw :: "render_context \<Rightarrow> rust_string" where
  "input_bar_draw ctx = 32 # rc_input ctx"

section \<open>A frame\<close>

datatype drawing =
    DrawnHeader header_drawing
  | DrawnPane drawn_pane
  | DrawnInput rust_string
  | DrawnHints hints_drawing
  | DrawnHelp help_drawing

fun widget_visible :: "widget_id \<Rightarrow> view \<Rightarrow> bool" where
  "widget_visible ConsoleId view \<longleftrightarrow> view = RuntimeView"
| "widget_visible EventsId view \<longleftrightarrow> view = RuntimeView"
| "widget_visible PrimaryId view \<longleftrightarrow> view = InspectView"
| "widget_visible SecondaryId view \<longleftrightarrow> view = InspectView"
| "widget_visible _ view \<longleftrightarrow> True"

fun widget_draw ::
  "drawing_lib \<Rightarrow> render_context \<Rightarrow> rect \<Rightarrow> widget_id \<Rightarrow> app \<Rightarrow> (app \<times> drawing) option" where
  "widget_draw lib ctx area HeaderId app =
     map_option (\<lambda>d. (app, DrawnHeader d)) (header_draw (dl_terminal lib) ctx area (ap_header app))"
| "widget_draw lib ctx area ConsoleId app = Some (app, DrawnPane (console_draw ctx area (ap_console app)))"
| "widget_draw lib ctx area EventsId app = Some (app, DrawnPane (events_draw ctx area (ap_events app)))"
| "widget_draw lib ctx area PrimaryId app =
     map_option (\<lambda>(w, d). (app\<lparr>ap_primary := w\<rparr>, DrawnPane d)) (primary_draw lib ctx area (ap_primary app))"
| "widget_draw lib ctx area SecondaryId app =
     (case secondary_draw ctx area (ap_secondary app) of (w, d) \<Rightarrow>
        Some (app\<lparr>ap_secondary := w\<rparr>, DrawnPane d))"
| "widget_draw lib ctx area DialogId app = Some (app, DrawnPane (dialog_draw lib ctx area (ap_dialog app)))"
| "widget_draw lib ctx area InputBarId app = Some (app, DrawnInput (input_bar_draw ctx))"
| "widget_draw lib ctx area HintsId app =
     map_option (\<lambda>d. (app, DrawnHints d)) (hints_draw (dl_terminal lib) ctx area)"
| "widget_draw lib ctx area HelpId app = Some (app, DrawnHelp (help_draw area))"

fun draw_widgets ::
  "drawing_lib \<Rightarrow> render_context \<Rightarrow> (widget_id \<rightharpoonup> rect) \<Rightarrow> widget_id list \<Rightarrow> app
    \<Rightarrow> (app \<times> (widget_id \<times> rect \<times> drawing) list) option" where
  "draw_widgets lib ctx areas [] app = Some (app, [])"
| "draw_widgets lib ctx areas (widget # widgets) app =
     (if widget = HelpId \<and> \<not> ap_help_visible app then draw_widgets lib ctx areas widgets app
      else case (if widget_visible widget (ap_view app) then areas widget else None) of
        None \<Rightarrow> draw_widgets lib ctx areas widgets app
      | Some area \<Rightarrow>
          Option.bind (widget_draw lib ctx area widget app) (\<lambda>(app, d).
          Option.bind (draw_widgets lib ctx areas widgets app) (\<lambda>(app, ds).
            Some (app, (widget, area, d) # ds))))"

definition app_draw ::
  "drawing_lib \<Rightarrow> rect \<Rightarrow> app \<Rightarrow> (app \<times> (widget_id \<times> rect \<times> drawing) list) option" where
  "app_draw lib area app =
     (let app = app\<lparr>ap_terminal_area := area\<rparr> in
      case layout_areas (dl_terminal lib) (ap_layout app) area (ap_view app) (ap_focused app) of
        None \<Rightarrow> None
      | Some areas \<Rightarrow>
          (let ctx = \<lparr>rc_view = ap_view app, rc_mode = ir_mode (ap_input app), rc_focused = ap_focused app,
             rc_input = router_display (ap_input app),
             rc_ticks = ms_ticks (rs_machine (ct_status (ap_runtime app)))\<rparr>
           in draw_widgets lib ctx areas WIDGETS app))"


section \<open>What a memory pane shows\<close>

lemma slice_chunks_Nil [simp]: "slice_chunks n [] = []"
  by (subst slice_chunks.simps) simp

lemma concat_slice_chunks: "0 < n \<Longrightarrow> concat (slice_chunks n xs) = xs"
  by (induction n xs rule: slice_chunks.induct) (subst slice_chunks.simps, simp)

lemma slice_chunks_fit: "bs \<in> set (slice_chunks n xs) \<Longrightarrow> 0 < length bs \<and> length bs \<le> n"
proof (induction n xs rule: slice_chunks.induct)
  case (1 n xs)
  from "1.prems" have "xs \<noteq> []" "0 < n" "bs = take n xs \<or> bs \<in> set (slice_chunks n (drop n xs))"
    by (subst (asm) slice_chunks.simps, simp split: if_splits)+
  with "1.IH" show ?case by auto
qed

definition row_text :: "span list \<Rightarrow> rust_string" where
  "row_text row = concat (map sp_text row)"

abbreviation cell_text :: "u8 list \<Rightarrow> rust_string" where
  "cell_text bs \<equiv> concat (map (\<lambda>b. format_hex 2 (unat b) @ [32]) bs)"

lemma map_snd_enumerate: "map (\<lambda>(i, b). f b) (enumerate k bs) = map f bs"
  by (induction bs arbitrary: k) simp_all

lemma concat_map_enumerate: "concat (map (\<lambda>(i, b). f b) (enumerate k bs)) = concat (map f bs)"
  by (simp add: map_snd_enumerate)

lemma hex_cells_text: "row_text (hex_cells address cursor bs) = cell_text bs"
proof -
  have "concat (map sp_text (concat (map (\<lambda>(i, b). [Span (format_hex 2 (unat b)) (style i), raw_span [32]]) (enumerate k bs))))
    = cell_text bs" for k style
    by (induction bs arbitrary: k) (simp_all add: raw_span_def)
  then show ?thesis by (simp add: row_text_def hex_cells_def)
qed

lemma char_cells_text: "row_text (char_cells address cursor bs) = map byte_char bs"
proof -
  have "concat (map sp_text (map (\<lambda>(i, b). Span [byte_char b] (style i)) (enumerate k bs))) = map byte_char bs" for k style
    by (induction bs arbitrary: k) simp_all
  then show ?thesis by (simp add: row_text_def char_cells_def)
qed

lemma length_cell_text: "length (cell_text bs) = 3 * length bs"
  by (induction bs) simp_all

lemma concat_replicate_blanks:
  "concat (replicate n [32, 32, 32 :: rust_char]) = replicate (3 * n) 32"
  by (induction n) (simp_all add: replicate_add numeral_3_eq_3)

lemma memory_row_text:
  "row_text (memory_row columns address cursor bs) =
    format_hex 8 (unat address) @ chars_of '': '' @ cell_text bs @ replicate (3 * (columns - length bs)) 32
    @ [32] @ map byte_char bs"
  using hex_cells_text [of address cursor bs] char_cells_text [of address cursor bs]
  by (simp add: memory_row_def row_text_def raw_span_def map_replicate chars_of_def concat_replicate_blanks)

text \<open>The hexadecimal columns of a row read as a pattern to search for.\<close>

lemma split_blanks: "split_whitespace (replicate n 32) = []"
proof -
  have "dropWhile is_whitespace (replicate n 32) = []" by (simp add: is_whitespace_def)
  then show ?thesis by (subst split_whitespace.simps) simp
qed

lemma split_cell_text:
  "split_whitespace (cell_text bs @ replicate n 32) = map (\<lambda>b. format_hex 2 (unat b)) bs"
proof (induction bs)
  case (Cons b bs)
  have "format_hex 2 (unat b) \<noteq> []" "list_all (\<lambda>c. \<not> is_whitespace c) (format_hex 2 (unat b))"
    using format_hex_chars by (auto simp: list_all_iff simp flip: length_0_conv)
  from split_whitespace_space [OF this, of 32] Cons show ?case by (simp add: is_whitespace_def)
qed (simp add: split_blanks)

lemma search_cell_text:
  assumes "bs \<noteq> []"
  shows "search_bytes (cell_text bs @ replicate n 32) = Ok bs"
proof -
  have "collect_results (map (\<lambda>b. search_byte (format_hex 2 (unat b))) bs) = Ok bs" for bs
    by (induction bs) (simp_all add: search_byte_format)
  with assms show ?thesis by (simp add: search_bytes_def split_cell_text comp_def)
qed

text \<open>Where the cursor is marked: in the cells of its address and nowhere else.\<close>

abbreviation selected :: "span list \<Rightarrow> span list" where
  "selected spans \<equiv> filter (\<lambda>s. sp_style s = StyleSelected) spans"

definition under_cursor :: "nat \<Rightarrow> u32 \<Rightarrow> u8 list \<Rightarrow> u8 option" where
  "under_cursor start cursor bytes =
     (if start \<le> unat cursor \<and> unat cursor < start + length bytes then Some (bytes ! (unat cursor - start)) else None)"

lemma under_cursor_Cons:
  "under_cursor start cursor (b # bs) = (if unat cursor = start then Some b else under_cursor (Suc start) cursor bs)"
  by (auto simp: under_cursor_def nth_Cons' Suc_diff_Suc le_Suc_eq)

lemma under_cursor_append:
  "under_cursor start cursor (xs @ ys) =
    (case under_cursor start cursor xs of Some b \<Rightarrow> Some b | None \<Rightarrow> under_cursor (start + length xs) cursor ys)"
  by (auto simp: under_cursor_def nth_append)

lemma unat_u32_add_of_nat: "unat a + n < 2 ^ 32 \<Longrightarrow> unat ((a :: u32) + of_nat n) = unat a + n"
  by (simp add: unat_word_ariths unat_of_nat)

lemma selected_cells:
  assumes "\<And>i b. selected (cells i b) = (if address + of_nat i = cursor then [cell b] else [])"
    and "unat address + k + length bs \<le> 2 ^ 32"
  shows "selected (concat (map (\<lambda>(i, b). cells i b) (enumerate k bs)))
    = (case under_cursor (unat address + k) cursor bs of Some b \<Rightarrow> [cell b] | None \<Rightarrow> [])"
  using assms(2)
proof (induction bs arbitrary: k)
  case Nil
  then show ?case by (simp add: under_cursor_def)
next
  case (Cons b bs)
  from Cons.prems have "unat (address + of_nat k) = unat address + k"
    by (intro unat_u32_add_of_nat) simp
  then have here: "address + of_nat k = cursor \<longleftrightarrow> unat cursor = unat address + k"
    by (metis word_unat_eq_iff)
  have rest: "under_cursor (Suc (unat address + k)) cursor bs = None" if "unat cursor = unat address + k"
    using that by (simp add: under_cursor_def)
  from Cons.IH [of "Suc k"] Cons.prems here rest assms(1) show ?case by (simp add: under_cursor_Cons)
qed

lemma map_as_concat: "map (\<lambda>(i, b). f i b) xs = concat (map (\<lambda>(i, b). [f i b]) xs)"
  by (induction xs) auto

lemma selected_row:
  assumes "unat address + length bs \<le> 2 ^ 32"
  shows "selected (memory_row columns address cursor bs)
    = (case under_cursor (unat address) cursor bs of
         Some b \<Rightarrow> [Span (format_hex 2 (unat b)) StyleSelected, Span [byte_char b] StyleSelected]
       | None \<Rightarrow> [])"
proof -
  have "selected (hex_cells address cursor bs)
      = (case under_cursor (unat address) cursor bs of Some b \<Rightarrow> [Span (format_hex 2 (unat b)) StyleSelected] | None \<Rightarrow> [])"
    using selected_cells [of "\<lambda>i b. [Span (format_hex 2 (unat b)) (cursor_style (address + of_nat i) cursor), raw_span [32]]"
        address cursor "\<lambda>b. Span (format_hex 2 (unat b)) StyleSelected" 0 bs] assms
    by (simp add: hex_cells_def cursor_style_def raw_span_def)
  moreover have "char_cells address cursor bs
      = concat (map (\<lambda>(i, b). [Span [byte_char b] (cursor_style (address + of_nat i) cursor)]) (enumerate 0 bs))"
    unfolding char_cells_def by (rule map_as_concat)
  then have "selected (char_cells address cursor bs)
      = (case under_cursor (unat address) cursor bs of Some b \<Rightarrow> [Span [byte_char b] StyleSelected] | None \<Rightarrow> [])"
    using selected_cells [of "\<lambda>i b. [Span [byte_char b] (cursor_style (address + of_nat i) cursor)]"
        address cursor "\<lambda>b. Span [byte_char b] StyleSelected" 0 bs] assms
    by (simp add: cursor_style_def)
  ultimately show ?thesis
    by (simp add: memory_row_def raw_span_def split: option.split)
qed

lemma selected_rows:
  assumes "0 < columns" and "unat start + row * columns + length bytes \<le> 2 ^ 32"
  shows "selected (concat (map (\<lambda>(row, bytes). memory_row columns (start + of_nat (row * columns)) cursor bytes)
      (enumerate row (slice_chunks columns bytes))))
    = (case under_cursor (unat start + row * columns) cursor bytes of
         Some b \<Rightarrow> [Span (format_hex 2 (unat b)) StyleSelected, Span [byte_char b] StyleSelected]
       | None \<Rightarrow> [])"
  using assms
proof (induction columns bytes arbitrary: row rule: slice_chunks.induct)
  case (1 columns bytes)
  show ?case
  proof (cases "bytes = []")
    case True
    then show ?thesis by (simp add: under_cursor_def)
  next
    case False
    let ?head = "take columns bytes" and ?tail = "drop columns bytes"
    let ?at = "unat start + row * columns"
    from "1.prems" False have at: "unat (start + of_nat (row * columns)) = ?at"
      by (intro unat_u32_add_of_nat) (cases bytes; simp)
    have head: "unat (start + of_nat (row * columns)) + length ?head \<le> 2 ^ 32"
      using "1.prems"(2) unfolding at by simp
    have tail: "selected (concat (map (\<lambda>(row, bytes). memory_row columns (start + of_nat (row * columns)) cursor bytes)
        (enumerate (Suc row) (slice_chunks columns ?tail))))
      = (case under_cursor (unat start + Suc row * columns) cursor ?tail of
           Some b \<Rightarrow> [Span (format_hex 2 (unat b)) StyleSelected, Span [byte_char b] StyleSelected] | None \<Rightarrow> [])"
    proof (cases "?tail = []")
      case True
      then show ?thesis by (simp add: under_cursor_def)
    next
      case rest: False
      then show ?thesis using "1.prems" False by (intro "1.IH") simp_all
    qed
    have "under_cursor ?at cursor bytes = under_cursor ?at cursor (?head @ ?tail)" by simp
    also have "\<dots> = (case under_cursor ?at cursor ?head of Some b \<Rightarrow> Some b
        | None \<Rightarrow> under_cursor (unat start + Suc row * columns) cursor ?tail)"
      unfolding under_cursor_append by (cases "columns \<le> length bytes") (auto simp: under_cursor_def min_def split: option.split)
    finally have joined: "under_cursor ?at cursor bytes = (case under_cursor ?at cursor ?head of Some b \<Rightarrow> Some b
        | None \<Rightarrow> under_cursor (unat start + Suc row * columns) cursor ?tail)" .
    have apart: "under_cursor (unat start + Suc row * columns) cursor ?tail = None"
      if "under_cursor ?at cursor ?head = Some b" for b
      using that by (auto simp: under_cursor_def split: if_splits)
    have row: "selected (memory_row columns (start + of_nat (row * columns)) cursor ?head)
      = (case under_cursor ?at cursor ?head of
           Some b \<Rightarrow> [Span (format_hex 2 (unat b)) StyleSelected, Span [byte_char b] StyleSelected] | None \<Rightarrow> [])"
      using selected_row [OF head, of columns cursor] unfolding at .
    have "slice_chunks columns bytes = ?head # slice_chunks columns ?tail"
      using False "1.prems"(1) by (simp add: slice_chunks.simps [of columns bytes])
    then show ?thesis
      by (simp add: row tail joined del: of_nat_mult mult_Suc) (use apart in \<open>auto split: option.split\<close>)
  qed
qed

lemma memory_row_reads:
  assumes "0 < length bs" and "length bs \<le> columns"
  shows "parse_hex_address (chars_of ''0x'' @ take 8 (row_text (memory_row columns address cursor bs))) = Ok address"
    and "search_bytes (take (3 * columns) (drop 10 (row_text (memory_row columns address cursor bs)))) = Ok bs"
proof -
  show "parse_hex_address (chars_of ''0x'' @ take 8 (row_text (memory_row columns address cursor bs))) = Ok address"
    using printed_address_is_read_back [of address] by (simp add: memory_row_text)
  have "take (3 * columns) (drop 10 (row_text (memory_row columns address cursor bs)))
      = cell_text bs @ replicate (3 * (columns - length bs)) 32"
    using assms by (simp add: memory_row_text chars_of_def length_cell_text)
  with search_cell_text [of bs "3 * (columns - length bs)"] assms(1)
  show "search_bytes (take (3 * columns) (drop 10 (row_text (memory_row columns address cursor bs)))) = Ok bs" by simp
qed

text \<open>C35. The memory pane shows its bytes: under the heading the rows in order, each with an address that
  goto takes for the address of the row and with columns that, entered as a search, stand for the bytes
  of the row. The cursor is marked in the two cells of the byte under it and nowhere else.\<close>

theorem memory_pane_shows_memory:
  assumes "pane_memory virtual_memory w = (label, start, bytes, cursor)" and "0 < pw_memory_columns w"
    and "unat start + length bytes \<le> 2 ^ 32"
  shows "\<exists>rows. render_memory virtual_memory w = Some (memory_header label (pw_memory_columns w) @ rows)
    \<and> list_all2 (\<lambda>row (i, bs).
          parse_hex_address (chars_of ''0x'' @ take 8 (row_text row)) = Ok (start + of_nat (i * pw_memory_columns w))
          \<and> search_bytes (take (3 * pw_memory_columns w) (drop 10 (row_text row))) = Ok bs)
        rows (enumerate 0 (slice_chunks (pw_memory_columns w) bytes))
    \<and> concat (slice_chunks (pw_memory_columns w) bytes) = bytes
    \<and> selected (concat rows)
      = (case under_cursor (unat start) cursor bytes of
           Some b \<Rightarrow> [Span (format_hex 2 (unat b)) StyleSelected, Span [byte_char b] StyleSelected]
         | None \<Rightarrow> [])"
proof (intro exI conjI)
  let ?columns = "pw_memory_columns w"
  show "render_memory virtual_memory w = Some (memory_header label ?columns @ memory_rows ?columns start cursor bytes)"
    using assms(1,2) by (simp add: render_memory_def)
  show "list_all2 (\<lambda>row (i, bs).
      parse_hex_address (chars_of ''0x'' @ take 8 (row_text row)) = Ok (start + of_nat (i * ?columns))
      \<and> search_bytes (take (3 * ?columns) (drop 10 (row_text row))) = Ok bs)
    (memory_rows ?columns start cursor bytes) (enumerate 0 (slice_chunks ?columns bytes))"
    unfolding memory_rows_def list_all2_map1
    using memory_row_reads slice_chunks_fit [of _ ?columns bytes]
    by (auto simp: list_all2_conv_all_nth nth_enumerate_eq)
  show "concat (slice_chunks ?columns bytes) = bytes" by (rule concat_slice_chunks [OF assms(2)])
  show "selected (concat (memory_rows ?columns start cursor bytes))
      = (case under_cursor (unat start) cursor bytes of
           Some b \<Rightarrow> [Span (format_hex 2 (unat b)) StyleSelected, Span [byte_char b] StyleSelected] | None \<Rightarrow> [])"
    using selected_rows [of ?columns start 0 bytes cursor] assms(2,3) by (simp add: memory_rows_def)
qed

theorem memory_pane_shows_memory_witness:
  "\<exists>rows. render_memory False (primary_widget_default\<lparr>pw_memory := [0x41, 0x7f], pw_memory_cursor := PhysicalAddress 0x40000001\<rparr>)
      = Some (memory_header ''paddr'' 8 @ rows)
    \<and> filter (\<lambda>s. sp_style s = StyleSelected) (concat rows)
      = [Span (format_hex 2 0x7f) StyleSelected, Span [46] StyleSelected]"
proof -
  let ?w = "primary_widget_default\<lparr>pw_memory := [0x41, 0x7f], pw_memory_cursor := PhysicalAddress 0x40000001\<rparr>"
  have shown: "pane_memory False ?w = (''paddr'', 0x40000000, [0x41, 0x7f], 0x40000001)"
    by (simp add: pane_memory_def primary_widget_default_def ram_consts)
  have "under_cursor (unat (0x40000000 :: u32)) 0x40000001 [0x41, 0x7f] = Some 0x7f" "byte_char 0x7f = 46"
    "pw_memory_columns ?w = 8"
    by (simp_all add: under_cursor_def byte_char_def primary_widget_default_def)
  with memory_pane_shows_memory [OF shown] show ?thesis by (auto simp del: unat_numeral)
qed

end
