(* ===== verification/Tui_Session.thy ===== *)
theory Tui_Session
  imports Tui_App "HOL-Library.Multiset"
begin

text \<open>
  What the terminal application guarantees: every queue of actions is worked off, no key, paste, click or
  tick makes it panic, the focus stays on a visible pane, every answer of the emulator reaches its
  pane once, and the command bar pauses and resumes the guest.
\<close>

section \<open>Good states and the weight of actions\<close>

definition app_inv :: "(primary_widget \<Rightarrow> bool) \<Rightarrow> app \<Rightarrow> bool" where
  "app_inv good app \<longleftrightarrow> console_ok (ap_console app) \<and> good (ap_primary app) \<and> secondary_ok (ap_secondary app)
     \<and> dialog_ok (ap_dialog app) \<and> layout_ok (ap_layout app) \<and> visible_focus (ap_view app) (ap_focused app)"

text \<open>With the memory windows as they should be.\<close>

definition app_ok :: "app \<Rightarrow> bool" where
  "app_ok app \<longleftrightarrow> app_inv primary_ok app"

text \<open>Bounds on the weight of the actions that one pane answers to an event, and that an action leads to.\<close>

fun event_weight :: "app_event \<Rightarrow> nat" where
  "event_weight (EvInspection _) = 14"
| "event_weight (EvInspectionFailed _ _) = 1"
| "event_weight (EvViewChanged _) = 3"
| "event_weight EvPulse = 1"
| "event_weight EvRefresh = 2"
| "event_weight (EvNavigate _) = 1"
| "event_weight (EvGoto _) = 1"
| "event_weight (EvInsertText _) = 1"
| "event_weight (EvPrimarySelected _) = 1"
| "event_weight (EvSecondarySelected _) = 2"
| "event_weight _ = 0"

fun action_weight :: "action \<Rightarrow> nat" where
  "action_weight (ActSelectView _) = 34"
| "action_weight ActToggleView = 34"
| "action_weight (ActWidgetKey _ _) = 20"
| "action_weight (ActSetSecondary _) = 19"
| "action_weight (ActSetPrimary _) = 10"
| "action_weight ActToggleRun = 7"
| "action_weight ActStop = 7"
| "action_weight ActReset = 7"
| "action_weight (ActRefresh _) = 3"
| "action_weight (ActInsertText _ _) = 2"
| "action_weight (ActNavigate _ _) = 2"
| "action_weight (ActGoto _ _) = 2"
| "action_weight _ = 1"

definition total_weight :: "action list \<Rightarrow> nat" where
  "total_weight actions = sum_list (map action_weight actions)"

lemma total_weight_simps [simp]:
  "total_weight [] = 0" "total_weight (a # as) = action_weight a + total_weight as"
  "total_weight (as @ bs) = total_weight as + total_weight bs"
  by (simp_all add: total_weight_def)

lemma action_weight_pos: "0 < action_weight a"
  by (cases a) simp_all

section \<open>What panes answer\<close>

lemma console_answer: "console_update event w = Some (w', actions) \<Longrightarrow> total_weight actions \<le> event_weight event"
  by (auto simp: console_update_def peripherals_request_def console_send_def
      split: app_event.splits runtime_inspection.splits option.splits if_splits)

lemma events_answer: "total_weight (snd (events_update event w)) \<le> event_weight event"
  by (auto simp: events_update_def split: app_event.split runtime_inspection.split)

lemma primary_refresh_weight [simp]: "total_weight (primary_refresh w) = 1"
  by (simp add: primary_refresh_def)

lemma primary_goto_answer: "primary_goto value w = Some (w', actions) \<Longrightarrow> total_weight actions = 1"
  by (auto simp: primary_goto_def Let_def split: sum.splits primary_subview.splits if_splits)

lemma primary_answer: "primary_update event w = Some (w', actions) \<Longrightarrow> total_weight actions \<le> event_weight event"
  using primary_goto_answer
  by (auto simp: primary_update_def Let_def
      split: app_event.splits runtime_inspection.splits option.splits if_splits)

lemma secondary_refresh_weight: "total_weight (secondary_refresh w) \<le> 2"
  by (auto simp: secondary_refresh_def Let_def split: secondary_subview.split)

lemma secondary_answer: "total_weight (snd (secondary_update event w)) \<le> event_weight event"
  using secondary_refresh_weight
  by (auto simp: secondary_update_def goto_register_def Let_def
      split: app_event.split runtime_inspection.split option.split)

text \<open>\<open>adds good n a b\<close>: the good state \<open>b\<close> has the queue of \<open>a\<close> and then actions of weight at most \<open>n\<close>.\<close>

definition adds :: "(primary_widget \<Rightarrow> bool) \<Rightarrow> nat \<Rightarrow> app \<Rightarrow> app \<Rightarrow> bool" where
  "adds good n a b \<longleftrightarrow> app_inv good b \<and> (\<exists>new. ap_actions b = ap_actions a @ new \<and> total_weight new \<le> n)"

lemma app_inv_updates [simp]:
  "app_inv good (a\<lparr>ap_runtime := ct\<rparr>) = app_inv good a" "app_inv good (a\<lparr>ap_input := r\<rparr>) = app_inv good a"
  "app_inv good (a\<lparr>ap_actions := q\<rparr>) = app_inv good a" "app_inv good (a\<lparr>ap_quit := d\<rparr>) = app_inv good a"
  "app_inv good (a\<lparr>ap_resume_after_input := d\<rparr>) = app_inv good a" "app_inv good (a\<lparr>ap_suppress_input_resume := d\<rparr>) = app_inv good a"
  "app_inv good (a\<lparr>ap_help_visible := d\<rparr>) = app_inv good a" "app_inv good (a\<lparr>ap_dragging := x\<rparr>) = app_inv good a"
  "app_inv good (a\<lparr>ap_terminal_area := x'\<rparr>) = app_inv good a"
  by (simp_all add: app_inv_def)

lemma visible_focus_default: "visible_focus v (case v of RuntimeView \<Rightarrow> ConsoleId | InspectView \<Rightarrow> PrimaryId)"
  by (cases v) (simp_all add: visible_focus_def)

lemma show_message_fields [simp]:
  "ap_actions (show_message m a) = ap_actions a" "ap_runtime (show_message m a) = ap_runtime a"
  "ap_input (show_message m a) = ap_input a"
  by (simp_all add: show_message_def)

text \<open>A split gives one rectangle for each constraint.\<close>

definition terminal_ok :: "terminal_lib \<Rightarrow> bool" where
  "terminal_ok lib \<longleftrightarrow> (\<forall>d cs area. length (tl_split lib d cs area) = length cs)"

lemma layout_areas_total: "terminal_ok lib \<Longrightarrow> \<exists>areas. layout_areas lib l area v focused = Some areas"
  by (simp add: layout_areas_def centered_def terminal_ok_def Let_def)

text \<open>What the emulator's answers must satisfy: a search reports an address in mapped memory.\<close>

definition answers_ok :: "(nat \<Rightarrow> receiver_state) \<Rightarrow> bool" where
  "answers_ok receivers \<longleftrightarrow> (\<forall>n inspection. receivers n = ReceiverValue (Ok inspection) \<longrightarrow> event_ok (EvInspection inspection))"

definition result_ok :: "pending_result \<Rightarrow> bool" where
  "result_ok result \<longleftrightarrow> (case result of PendingReady _ inspection \<Rightarrow> event_ok (EvInspection inspection) | _ \<Rightarrow> True)"

lemma poll_results_ok:
  assumes "answers_ok receivers" and "list_all result_ok results"
  shows "list_all result_ok (snd (poll_from receivers index pending results))"
  using assms
proof (induction receivers index pending results rule: poll_from.induct)
  case (1 receivers index pending results)
  have "result_ok result" if "pending_answer (receivers (pd_receiver (pending ! index))) (pending ! index) = Some result" for result
    using that 1(3) by (auto simp: pending_answer_def result_ok_def answers_ok_def split: receiver_state.splits sum.splits)
  with 1 show ?case by (subst poll_from.simps) (auto split: option.split)
qed

section \<open>The application under a condition on its memory pane\<close>

context memory_pane
begin

lemma addsI: "app_inv good b \<Longrightarrow> ap_actions b = ap_actions a @ new \<Longrightarrow> total_weight new \<le> n \<Longrightarrow> adds good n a b"
  unfolding adds_def by blast

lemma adds_refl: "app_inv good a \<Longrightarrow> adds good n a a"
  by (rule addsI [of _ _ "[]"]) simp_all

lemma adds_trans: "adds good m a b \<Longrightarrow> adds good n b c \<Longrightarrow> adds good (m + n) a c"
  unfolding adds_def by fastforce

lemma adds_mono: "adds good m a b \<Longrightarrow> m \<le> n \<Longrightarrow> adds good n a b"
  unfolding adds_def by fastforce

lemma adds_ok: "adds good n a b \<Longrightarrow> app_inv good b"
  by (simp add: adds_def)

lemma adds_extend: "app_inv good a \<Longrightarrow> total_weight new \<le> n \<Longrightarrow> adds good n a (extend_actions new a)"
  by (rule addsI [of _ _ new]) (simp_all add: extend_actions_def app_inv_def)

lemma app_target_adds:
  assumes "app_inv good app" and "event_ok event"
  shows "\<exists>app'. app_target target event app = Some app' \<and> adds good (event_weight event) app app'"
proof (cases target)
  case HeaderId
  with assms show ?thesis by (auto simp: app_target_def app_inv_def intro!: addsI [where new = "[]"])
next
  case ConsoleId
  from assms obtain w actions where w: "console_update event (ap_console app) = Some (w, actions)" "console_ok w"
    using console_update_ok [of "ap_console app" event] by (auto simp: app_inv_def)
  with ConsoleId assms(1) console_answer [OF w(1)] show ?thesis
    by (auto simp: app_target_def extend_actions_def app_inv_def intro!: addsI [where new = actions])
next
  case EventsId
  with assms(1) events_answer [of event "ap_events app"] show ?thesis
    by (auto simp: app_target_def extend_actions_def app_inv_def split_def Let_def
        intro!: addsI [where new = "snd (events_update event (ap_events app))"])
next
  case DialogId
  with assms show ?thesis
    by (auto simp: app_target_def app_inv_def dialog_update_ok intro!: addsI [where new = "[]"])
next
  case PrimaryId
  from assms obtain w actions where w: "primary_update event (ap_primary app) = Some (w, actions)" "good w"
    using primary_event_handled [of "ap_primary app" event] by (auto simp: app_inv_def)
  with PrimaryId assms(1) primary_answer [OF w(1)] show ?thesis
    by (auto simp: app_target_def extend_actions_def app_inv_def intro!: addsI [where new = actions])
next
  case SecondaryId
  with assms(1) secondary_answer [of event "ap_secondary app"] show ?thesis
    by (auto simp: app_target_def extend_actions_def app_inv_def split_def Let_def secondary_update_ok
        intro!: addsI [where new = "snd (secondary_update event (ap_secondary app))"])
qed (use assms in \<open>auto simp: app_target_def intro: adds_refl\<close>)


subsection \<open>What operations add to the queue\<close>

lemma broadcast_adds:
  assumes "app_inv good app" and "event_ok event"
  shows "\<exists>app'. app_broadcast event app = Some app' \<and> adds good (9 * event_weight event) app app'"
proof -
  have "\<exists>app'. broadcast_to targets event app = Some app' \<and> adds good (length targets * event_weight event) app app'"
    for targets
    using assms(1)
  proof (induction targets arbitrary: app)
    case (Cons target targets)
    from app_target_adds [OF Cons.prems assms(2), of target] obtain b where
      b: "app_target target event app = Some b" "adds good (event_weight event) app b" by blast
    from Cons.IH [OF adds_ok [OF b(2)]] obtain c where
      c: "broadcast_to targets event b = Some c" "adds good (length targets * event_weight event) b c" by blast
    with b adds_trans [OF b(2) c(2)] show ?case by simp
  qed (simp add: adds_refl)
  moreover have "length WIDGETS = 9" by (simp add: WIDGETS_def)
  ultimately show ?thesis unfolding app_broadcast_def by metis
qed

lemma show_message_ok [simp]: "app_inv good a \<Longrightarrow> app_inv good (show_message m a)"
  by (simp add: app_inv_def show_message_def dialog_update_ok)

lemma app_send_ok [simp]:
  "app_inv good (fst (app_send command a)) = app_inv good a" "ap_actions (fst (app_send command a)) = ap_actions a"
  by (simp_all add: app_send_def split_def Let_def)

lemma refresh_inspectors_adds: "app_inv good a \<Longrightarrow> adds good 6 a (refresh_inspectors a)"
  unfolding refresh_inspectors_def by (rule adds_extend) simp_all

lemma app_stop_adds:
  assumes "app_inv good a"
  shows "adds good 6 a (app_stop a)"
proof -
  have "adds good 6 a (refresh_inspectors b)" if "app_inv good b" "ap_actions b = ap_actions a" for b
    using refresh_inspectors_adds [OF that(1)] that(2) by (simp add: adds_def)
  moreover have "adds good 6 a b" if "app_inv good b" "ap_actions b = ap_actions a" for b
    using that by (auto intro: addsI [where new = "[]"])
  ultimately show ?thesis
    using assms by (auto simp: app_stop_def operation_error_def Let_def split_def split: sum.split)
qed

lemma start_emulation_keeps:
  assumes "app_inv good a"
  shows "app_inv good (start_emulation limit a)" "ap_actions (start_emulation limit a) = ap_actions a"
  using assms by (auto simp: start_emulation_def operation_error_def Let_def split_def split: sum.split)

lemma set_mode_adds:
  assumes "app_inv good a"
  shows "adds good 0 a (set_mode mode a)"
proof -
  define b where "b = (if mode = CommandMode \<and> app_lifecycle a = LcRunning then
      (let (b, result) = app_send CmdPause a in
       case result of
         Inr _ \<Rightarrow> b\<lparr>ap_resume_after_input := True, ap_suppress_input_resume := False\<rparr> | Inl _ \<Rightarrow> b) else a)"
  have b: "app_inv good b" "ap_actions b = ap_actions a"
    using assms by (auto simp: b_def Let_def split_def split: sum.split)
  let ?c = "b\<lparr>ap_input := router_set_mode mode (ap_input b)\<rparr>"
  from start_emulation_keeps [of ?c None] b have "app_inv good (start_emulation None ?c)"
    "ap_actions (start_emulation None ?c) = ap_actions a" by simp_all
  with assms b show ?thesis
    unfolding set_mode_def b_def [symmetric]
    by (auto simp: Let_def intro!: addsI [where new = "[]"])
qed


lemma adds_via:
  assumes "app_inv good b" and "ap_actions b = ap_actions a" and "adds good n b c"
  shows "adds good n a c"
  using assms by (auto simp: adds_def)

lemma select_view_adds:
  assumes "app_inv good a"
  shows "\<exists>b. select_view v a = Some b \<and> adds good 33 a b"
proof -
  define s where "s = (if v = InspectView then a\<lparr>ap_suppress_input_resume := True\<rparr> else a)"
  have s: "app_inv good s" "ap_actions s = ap_actions a" using assms by (simp_all add: s_def)
  show ?thesis
  proof (cases "ap_view s = v")
    case True
    with s show ?thesis by (auto simp: select_view_def s_def [symmetric] Let_def intro!: addsI [where new = "[]"])
  next
    case False
    define t where "t = s\<lparr>ap_view := v, ap_focused := (case v of RuntimeView \<Rightarrow> ConsoleId | InspectView \<Rightarrow> PrimaryId)\<rparr>"
    define u where "u = (if v = InspectView \<and> app_lifecycle t = LcRunning
        then app_stop (t\<lparr>ap_suppress_input_resume := True\<rparr>) else t)"
    have t: "app_inv good t" "ap_actions t = ap_actions a"
      using s visible_focus_default [of v] by (simp_all add: app_inv_def t_def)
    have "adds good 6 a u"
      using app_stop_adds [of "t\<lparr>ap_suppress_input_resume := True\<rparr>"] t
      by (auto simp: u_def intro: adds_via [of t] adds_mono [OF adds_refl])
        (rule adds_via [of "t\<lparr>ap_suppress_input_resume := True\<rparr>"], simp_all)
    moreover from broadcast_adds [OF adds_ok [OF this], of "EvViewChanged v"] obtain c where
      "app_broadcast (EvViewChanged v) u = Some c" "adds good 27 u c" by (auto simp: event_ok_def)
    moreover have "select_view v a = app_broadcast (EvViewChanged v) u"
    proof -
      have "select_view v a = (if ap_view s = v then Some s else app_broadcast (EvViewChanged v) u)"
        unfolding select_view_def Let_def s_def t_def u_def ..
      with False show ?thesis by simp
    qed
    ultimately show ?thesis using adds_trans [of 6 a u 27 c] by auto
  qed
qed

lemma widget_key_adds:
  assumes "app_inv good a"
  shows "adds good 19 a (widget_key target key a)"
proof -
  have console: "total_weight (snd (console_handle_key key mode w)) \<le> 19" for mode w
    by (auto simp: console_handle_key_def console_send_def split: key_code.split)
  have primary: "total_weight (primary_handle_key key mode w) \<le> 19" for mode w
    by (simp add: primary_handle_key_def Let_def)
  have secondary: "total_weight (secondary_handle_key key mode w) \<le> 19" for mode w
    by (simp add: secondary_handle_key_def)
  have "adds good 19 a (extend_actions (snd (console_handle_key key mode (ap_console a)))
      (a\<lparr>ap_console := fst (console_handle_key key mode (ap_console a))\<rparr>))" for mode
  proof -
    let ?b = "a\<lparr>ap_console := fst (console_handle_key key mode (ap_console a))\<rparr>"
    have "app_inv good ?b" using assms console_handle_key_ok by (simp add: app_inv_def)
    from adds_via [OF this _ adds_extend [OF this console]] show ?thesis by simp
  qed
  with assms primary secondary show ?thesis
    by (auto simp: widget_key_def Let_def split_def adds_extend intro: adds_mono [OF adds_refl] split: widget_id.split)
qed

lemma app_reset_adds:
  assumes "app_inv good a"
  shows "\<exists>b. app_reset a = Some b \<and> adds good 6 a b"
proof -
  define s where "s = fst (app_send CmdReset a)"
  have s: "app_inv good s" "ap_actions s = ap_actions a" using assms by (simp_all add: s_def)
  from broadcast_adds [OF s(1), of EvReset] obtain c where
    c: "app_broadcast EvReset s = Some c" "adds good 0 s c" by (auto simp: event_ok_def)
  let ?m = "message_info (Literal ''emulator reset requested'')"
  have "adds good 6 c (refresh_inspectors (show_message ?m c))"
    using adds_ok [OF c(2)] by (intro adds_via [OF _ _ refresh_inspectors_adds]) simp_all
  with c(2) have "adds good (0 + 6) s (refresh_inspectors (show_message ?m c))" by (rule adds_trans)
  then have "adds good 6 a (refresh_inspectors (show_message ?m c))" using s by (intro adds_via [OF s]) simp
  moreover have "adds good 6 a (operation_error ''reset'' e s)" for e
    using s by (auto simp: operation_error_def intro!: addsI [where new = "[]"])
  ultimately show ?thesis
    using c(1) by (auto simp: app_reset_def s_def split_def Let_def split: sum.split)
qed


lemma adds_same: "app_inv good b \<Longrightarrow> ap_actions b = ap_actions a \<Longrightarrow> adds good n a b"
  by (rule addsI [of _ _ "[]"]) simp_all

lemma process_action_adds:
  assumes "app_inv good a"
  shows "\<exists>b. process_action action a = Some b \<and> adds good (action_weight action - 1) a b"
proof -
  have sup: "app_inv good (suppress_resume a)" "ap_actions (suppress_resume a) = ap_actions a"
    using assms by (simp_all add: suppress_resume_def)
  note via = adds_via [OF sup]
  have start: "app_inv good (start_emulation l (suppress_resume a))"
    "ap_actions (start_emulation l (suppress_resume a)) = ap_actions a" for l
    using start_emulation_keeps [OF sup(1), of l] sup(2) by simp_all
  have toggle: "adds good 6 a (toggle_run (suppress_resume a))"
    using via [OF app_stop_adds [OF sup(1)]] start sup
    by (auto simp: toggle_run_def adds_same split: lifecycle_state.split)
  show ?thesis
  proof (cases action)
    case (ActSelectView v)
    with select_view_adds [OF assms, of v] show ?thesis by (simp add: process_action_def)
  next
    case ActToggleView
    with select_view_adds [OF assms, of "view_toggled (ap_view a)"] show ?thesis by (simp add: process_action_def)
  next
    case (ActFocus target)
    with assms show ?thesis by (auto simp: process_action_def app_inv_def intro!: addsI [where new = "[]"])
  next
    case (ActSetMode mode)
    with set_mode_adds [OF assms] show ?thesis by (simp add: process_action_def)
  next
    case ActStop
    with via [OF app_stop_adds [OF sup(1)]] show ?thesis by (simp add: process_action_def)
  next
    case ActReset
    with app_reset_adds [OF sup(1)] via show ?thesis by (auto simp: process_action_def)
  next
    case (ActWidgetKey target key)
    with widget_key_adds [OF assms] show ?thesis by (simp add: process_action_def)
  next
    case (ActInsertText target inserted)
    with app_target_adds [OF assms, of "EvInsertText inserted" target] show ?thesis
      by (simp add: process_action_def event_ok_def)
  next
    case (ActNavigate target m)
    with app_target_adds [OF assms, of "EvNavigate m" target] show ?thesis
      by (simp add: process_action_def event_ok_def)
  next
    case (ActGoto target v)
    with app_target_adds [OF assms, of "EvGoto v" target] show ?thesis
      by (simp add: process_action_def event_ok_def)
  next
    case (ActRefresh target)
    with app_target_adds [OF assms, of EvRefresh target] show ?thesis
      by (simp add: process_action_def event_ok_def numeral_2_eq_2)
  next
    case (ActSetUart port)
    with broadcast_adds [OF assms, of "EvUartSelected port"] show ?thesis
      by (auto simp: process_action_def event_ok_def adds_def)
  next
    case (ActSetPrimary v)
    with broadcast_adds [OF assms, of "EvPrimarySelected v"] show ?thesis
      by (auto simp: process_action_def event_ok_def)
  next
    case (ActSetSecondary v)
    with broadcast_adds [OF assms, of "EvSecondarySelected v"] show ?thesis
      by (auto simp: process_action_def event_ok_def)
  next
    case (ActResize split percent)
    with assms layout_resize_ok show ?thesis
      by (auto simp: process_action_def app_inv_def intro!: addsI [where new = "[]"])
  qed (use assms toggle start sup in \<open>auto simp: process_action_def app_request_def Let_def split_def
        adds_same split: sum.split\<close>)
qed

text \<open>The queue is worked off: each action is replaced by actions of less weight.\<close>

lemma queue_is_worked_off:
  assumes "app_inv good a"
  shows "\<exists>b. process_actions a = Some b \<and> app_inv good b \<and> ap_actions b = []"
  using assms
proof (induction "total_weight (ap_actions a)" arbitrary: a rule: less_induct)
  case less
  show ?case
  proof (cases "ap_actions a")
    case Nil
    then have "process_actions a = Some a" by (subst process_actions.simps) simp
    with Nil less.prems show ?thesis by blast
  next
    case (Cons action rest)
    from less.prems have "app_inv good (a\<lparr>ap_actions := rest\<rparr>)" by simp
    from process_action_adds [OF this, of action] obtain b new where
      b: "process_action action (a\<lparr>ap_actions := rest\<rparr>) = Some b" "app_inv good b"
        "ap_actions b = rest @ new" "total_weight new \<le> action_weight action - 1"
      by (auto simp: adds_def)
    then have "total_weight (ap_actions b) < total_weight (ap_actions a)"
      using Cons action_weight_pos [of action] by simp
    from less.hyps [OF this b(2)] b(1) Cons show ?thesis by (subst process_actions.simps) simp
  qed
qed


section \<open>Events and ticks\<close>

lemma handle_mouse_ok:
  assumes "terminal_ok lib" and "app_inv good a"
  shows "\<exists>b. handle_mouse lib mouse a = Some b \<and> app_inv good b"
proof -
  from layout_areas_total [OF assms(1)] obtain areas where
    areas: "layout_areas lib (ap_layout a) (ap_terminal_area a) (ap_view a) (ap_focused a) = Some areas" by blast
  have "plain_click_action lib (ap_layout a) (ap_terminal_area a) (ap_view a) (ap_focused a)
      (ir_mode (ap_input a)) (mo_column mouse) (mo_row mouse) \<noteq> None"
    using areas by (auto simp: plain_click_action_def focus_at_def split: option.split)
  then obtain clicked where "plain_click_action lib (ap_layout a) (ap_terminal_area a) (ap_view a) (ap_focused a)
      (ir_mode (ap_input a)) (mo_column mouse) (mo_row mouse) = Some clicked" by blast
  with assms(2) show ?thesis
    by (cases clicked) (auto simp: handle_mouse_def extend_actions_def Let_def split: mouse_kind.split option.split)
qed

lemma handle_event_ok:
  assumes "terminal_ok lib" and "app_inv good a" and "ap_actions a = []"
  shows "\<exists>b. handle_event lib event a = Some b \<and> app_inv good b \<and> ap_actions b = []"
proof (cases event)
  case (MouseInput mouse)
  from handle_mouse_ok [OF assms(1,2), of mouse] obtain b where
    "handle_mouse lib mouse a = Some b" "app_inv good b" by blast
  with MouseInput queue_is_worked_off [of b] show ?thesis by (simp add: handle_event_def)
next
  case (TerminalInput terminal)
  obtain router actions where routed: "router_route terminal (ap_focused a) (ap_input a) = Some (router, actions)"
    using router_total by blast
  have "app_inv good (extend_actions actions (a\<lparr>ap_input := router\<rparr>))"
    using assms(2) by (simp add: extend_actions_def)
  with TerminalInput routed assms(2,3) queue_is_worked_off show ?thesis by (simp add: handle_event_def)
qed

lemma tick_result_ok:
  assumes "app_inv good a" and "result_ok result"
  shows "\<exists>b. tick_result result a = Some b \<and> app_inv good b"
proof (cases result)
  case (PendingReady target inspection)
  with assms app_target_adds [OF assms(1), of "EvInspection inspection" target] show ?thesis
    by (auto simp: tick_result_def result_ok_def adds_def)
next
  case (PendingFailed target request error)
  with assms app_target_adds [OF assms(1), of "EvInspectionFailed request error" target] show ?thesis
    by (auto simp: tick_result_def event_ok_def adds_def)
qed

lemma tick_results_ok:
  "app_inv good a \<Longrightarrow> list_all result_ok results \<Longrightarrow> \<exists>b. tick_results results a = Some b \<and> app_inv good b"
proof (induction results arbitrary: a)
  case (Cons result results)
  then obtain b where "tick_result result a = Some b" "app_inv good b" using tick_result_ok by fastforce
  with Cons show ?case by simp
qed simp

lemma tick_status_ok:
  assumes "app_inv good a"
  shows "\<exists>b. tick_status status a = Some b \<and> app_inv good b"
proof -
  have inspectors: "app_inv good (refresh_inspectors b)" if "app_inv good b" for b
    using that by (simp add: refresh_inspectors_def extend_actions_def)
  show ?thesis
  proof (cases "status = ct_status (ap_runtime a)")
    case True
    with assms show ?thesis by (simp add: tick_status_def refresh_status_def)
  next
    case False
    let ?a = "a\<lparr>ap_runtime := (ap_runtime a)\<lparr>ct_status := status\<rparr>\<rparr>"
    from assms obtain b where "app_broadcast (EvStatus status) ?a = Some b" "app_inv good b"
      using broadcast_adds [of ?a "EvStatus status"] by (auto simp: event_ok_def adds_def)
    with False inspectors show ?thesis
      by (auto simp: tick_status_def refresh_status_def split: option.split)
  qed
qed

lemma app_tick_ok:
  assumes "app_inv good a" and "answers_ok receivers"
  shows "\<exists>b result. app_tick status receivers pulse_due a = Some (b, result) \<and> app_inv good b \<and> ap_actions b = []
    \<and> (result = Ok () \<longleftrightarrow> app_lifecycle b \<noteq> LcFailed)"
proof -
  from tick_status_ok [OF assms(1)] obtain b where b: "tick_status status a = Some b" "app_inv good b" by blast
  define ct where "ct = fst (controller_poll receivers (ap_runtime b))"
  define results where "results = snd (controller_poll receivers (ap_runtime b))"
  have poll: "controller_poll receivers (ap_runtime b) = (ct, results)" by (simp add: ct_def results_def)
  have "list_all result_ok results"
    using poll_results_ok [OF assms(2), of "[]"] by (simp add: results_def controller_poll_def split_def Let_def)
  with b(2) obtain c where c: "tick_results results (b\<lparr>ap_runtime := ct\<rparr>) = Some c" "app_inv good c"
    using tick_results_ok [of "b\<lparr>ap_runtime := ct\<rparr>" results] by auto
  obtain d where d: "(if pulse_due then app_broadcast EvPulse c else Some c) = Some d" "app_inv good d"
    using broadcast_adds [OF c(2), of EvPulse] c(2) by (cases pulse_due) (auto simp: event_ok_def adds_def)
  from queue_is_worked_off [OF d(2)] b(1) poll c(1) d(1) show ?thesis
    by (auto simp: app_tick_def)
qed

end

section \<open>Every session\<close>

lemma initial_app_ok: "app_ok (initial_app ct)"
proof -
  have "console_ok console_widget_default" by (simp add: console_ok_def console_widget_default_def)
  then show ?thesis
    by (simp add: app_ok_def app_inv_def initial_app_def primary_ok_default visible_focus_def)
qed

lemma app_ok_mapped: "app_ok a \<Longrightarrow> app_inv primary_mapped a"
  by (simp add: app_ok_def app_inv_def primary_ok_mapped)

lemmas initial_app_inv = app_ok_mapped [OF initial_app_ok]

lemma app_start_inv:
  assumes "app_start statuses ct = Some (Ok a)"
  shows "app_inv primary_mapped a \<and> ap_actions a = []"
proof -
  obtain ct' b c where steps: "app_broadcast (EvStatus (ct_status ct')) (initial_app ct') = Some b"
      "app_broadcast (EvViewChanged RuntimeView) b = Some c" "process_actions c = Some a"
    using assms by (auto simp: app_start_def split: prod.splits sum.splits bind_splits)
  from mapped.broadcast_adds [OF initial_app_inv [of ct'], of "EvStatus (ct_status ct')"] steps(1)
  have "app_inv primary_mapped b" by (auto simp: event_ok_def adds_def)
  from mapped.broadcast_adds [OF this, of "EvViewChanged RuntimeView"] steps(2)
  have "app_inv primary_mapped c" by (auto simp: event_ok_def adds_def)
  from mapped.queue_is_worked_off [OF this] steps(3) show ?thesis by auto
qed

text \<open>
  The states of a session: the start, events, ticks and frames of any size, in any order.
\<close>

inductive session :: "terminal_lib \<Rightarrow> app \<Rightarrow> bool" for lib where
  session_start: "app_start statuses ct = Some (Ok a) \<Longrightarrow> session lib a"
| session_event: "session lib a \<Longrightarrow> handle_event lib event a = Some b \<Longrightarrow> session lib b"
| session_tick: "session lib a \<Longrightarrow> answers_ok receivers \<Longrightarrow>
    app_tick status receivers pulse_due a = Some (b, result) \<Longrightarrow> session lib b"
| session_render: "session lib a \<Longrightarrow> app_render lib content_length area a = Some b \<Longrightarrow> session lib b"

inductive_cases session_cases: "session lib a"

lemma secondary_clamp_ok: "secondary_ok w \<Longrightarrow> secondary_ok (secondary_clamp n height w)"
  by (simp add: secondary_clamp_def secondary_ok_def Let_def)

text \<open>A frame is always drawn, and keeps the cursor in mapped memory.\<close>

lemma app_render_inv:
  assumes "terminal_ok lib" and "app_inv primary_mapped a"
  shows "\<exists>b. app_render lib content_length area a = Some b \<and> app_inv primary_mapped b \<and> ap_actions b = ap_actions a"
proof -
  obtain areas where areas: "layout_areas lib (ap_layout a) area (ap_view a) (ap_focused a) = Some areas"
    using layout_areas_total [OF assms(1)] by blast
  show ?thesis
  proof (cases "ap_view a = InspectView")
    case False
    with areas assms(2) show ?thesis by (simp add: app_render_def Let_def)
  next
    case True
    let ?a = "a\<lparr>ap_terminal_area := area\<rparr>"
    have mapped: "primary_mapped (ap_primary a)" using assms(2) by (simp add: app_inv_def)
    have "\<exists>w. (case areas PrimaryId of
            Some r \<Rightarrow> if pw_subview (ap_primary a) = DisassemblyView then Some (ap_primary a)
                      else update_memory_geometry (re_width r) (re_height r) (ap_primary a)
          | None \<Rightarrow> Some (ap_primary a)) = Some w \<and> primary_mapped w"
      using mapped resize_mapped [OF mapped] by (auto split: option.split)
    then obtain w where w: "(case areas PrimaryId of
            Some r \<Rightarrow> if pw_subview (ap_primary a) = DisassemblyView then Some (ap_primary a)
                      else update_memory_geometry (re_width r) (re_height r) (ap_primary a)
          | None \<Rightarrow> Some (ap_primary a)) = Some w" "primary_mapped w" by blast
    define secondary where "secondary = (case areas SecondaryId of
        Some r \<Rightarrow> secondary_clamp (content_length (ap_secondary a)) (re_height r) (ap_secondary a)
      | None \<Rightarrow> ap_secondary a)"
    have "secondary_ok secondary"
      using assms(2) secondary_clamp_ok by (auto simp: secondary_def app_inv_def split: option.split)
    moreover have "app_render lib content_length area a = Some (?a\<lparr>ap_primary := w, ap_secondary := secondary\<rparr>)"
      using areas True w(1) by (auto simp: app_render_def Let_def secondary_def split: option.splits if_splits)
    ultimately show ?thesis using assms(2) w(2) by (simp add: app_inv_def)
  qed
qed

lemma session_inv:
  assumes "terminal_ok lib" and "session lib a"
  shows "app_inv primary_mapped a \<and> ap_actions a = []"
  using assms(2)
proof (induction rule: session.induct)
  case (session_start statuses ct a)
  then show ?case by (rule app_start_inv)
next
  case (session_event a event b)
  with mapped.handle_event_ok [OF assms(1), of a event] show ?case by auto
next
  case (session_tick a receivers status pulse_due b result)
  with mapped.app_tick_ok [of a receivers status pulse_due] show ?case by auto
next
  case (session_render a content_length area b)
  with app_render_inv [OF assms(1), of a content_length area] show ?case by auto
qed

definition sample_status :: runtime_status where
  "sample_status = \<lparr>rs_lifecycle = LcPaused, rs_machine = \<lparr>ms_ticks = 0, ms_mmu_enabled = False,
     ms_pending_interrupts = 0, ms_systick_status = 0, ms_block_status = 0, ms_uart0_status = 0,
     ms_uart1_status = 0\<rparr>, rs_last_stop = None, rs_last_error = None\<rparr>"

definition sample_controller :: runtime_controller where
  "sample_controller = \<lparr>ct_status = sample_status, ct_pending = [],
     ct_channel = \<lparr>ch_queue = [], ch_capacity = 32, ch_connected = True\<rparr>, ct_inbox = uart_inbox_new 4096,
     ct_next_receiver = 0\<rparr>"

text \<open>C8. In every session of the interface, after any keys, pastes, clicks, ticks and frames of any size, the
  next event, the next tick and the next frame are handled to the end: no panic, no endless queue of
  actions. A tick fails exactly when the runtime has failed. The focus is on a pane of the current view,
  both console transcripts and the dialog are within their capacity and the split stays between 25 and
  80 percent. This holds also for the sessions in which a resize leaves the memory window in front of RAM.\<close>

theorem session_handles_everything:
  assumes "terminal_ok lib" and "session lib a" and "answers_ok receivers"
  shows "(\<exists>b. handle_event lib event a = Some b \<and> ap_actions b = [])
    \<and> (\<exists>b result. app_tick status receivers pulse_due a = Some (b, result) \<and> ap_actions b = []
         \<and> (result = Ok () \<longleftrightarrow> app_lifecycle b \<noteq> LcFailed))
    \<and> (\<exists>b. app_render lib content_length area a = Some b \<and> ap_actions b = [])
    \<and> visible_focus (ap_view a) (ap_focused a) \<and> console_ok (ap_console a) \<and> dialog_ok (ap_dialog a)
    \<and> layout_ok (ap_layout a)"
proof -
  from session_inv [OF assms(1,2)] have ok: "app_inv primary_mapped a" "ap_actions a = []" by simp_all
  from mapped.handle_event_ok [OF assms(1) ok, of event] mapped.app_tick_ok [OF ok(1) assms(3), of status pulse_due]
    app_render_inv [OF assms(1) ok(1), of content_length area]
  show ?thesis using ok unfolding app_inv_def by (metis (no_types, lifting))
qed

text \<open>C9. The queue of actions is always worked off: whatever actions a good state holds, processing them ends,
  although actions create new ones, and leaves a good state with an empty queue.\<close>

theorem action_queue_terminates:
  assumes "app_ok a"
  shows "\<exists>b. process_actions a = Some b \<and> app_ok b \<and> ap_actions b = []"
  using assms unfolding app_ok_def by (rule windowed.queue_is_worked_off)

theorem action_queue_terminates_witness:
  "\<exists>b. process_actions (extend_actions [ActToggleView, ActSetPrimary DisassemblyView] (initial_app sample_controller)) = Some b
    \<and> ap_actions b = []"
proof -
  have "app_ok (extend_actions [ActToggleView, ActSetPrimary DisassemblyView] (initial_app sample_controller))"
    using initial_app_ok by (simp add: extend_actions_def app_ok_def)
  from action_queue_terminates [OF this] show ?thesis by blast
qed

lemma sample_session: "\<exists>a. session lib a"
proof -
  obtain b where b: "app_broadcast (EvStatus sample_status) (initial_app sample_controller) = Some b" "app_inv primary_mapped b"
    using mapped.broadcast_adds [OF initial_app_inv [of sample_controller], of "EvStatus sample_status"]
    by (auto simp: event_ok_def adds_def)
  obtain c where c: "app_broadcast (EvViewChanged RuntimeView) b = Some c" "app_inv primary_mapped c"
    using mapped.broadcast_adds [OF b(2), of "EvViewChanged RuntimeView"] by (auto simp: event_ok_def adds_def)
  from mapped.queue_is_worked_off [OF c(2)] obtain d where "process_actions c = Some d" by blast
  with b c have "app_start [] sample_controller = Some (Ok d)"
    by (simp add: app_start_def controller_lifecycle_def sample_controller_def)
       (simp add: sample_status_def)
  then show ?thesis by (blast intro: session_start)
qed

theorem session_handles_everything_witness:
  "\<exists>a b. session sample_terminal a
    \<and> handle_event sample_terminal (TerminalInput (EventKey \<lparr>ke_code = KeyTab, ke_control = False\<rparr> True)) a = Some b"
proof -
  have "terminal_ok sample_terminal" by (simp add: terminal_ok_def sample_terminal_def)
  moreover have "answers_ok (\<lambda>_. ReceiverEmpty)" by (simp add: answers_ok_def)
  moreover obtain a where "session sample_terminal a" using sample_session by blast
  ultimately show ?thesis
    using session_handles_everything [of sample_terminal a "\<lambda>_. ReceiverEmpty"
      "TerminalInput (EventKey \<lparr>ke_code = KeyTab, ke_control = False\<rparr> True)"] by blast
qed

section \<open>Answers\<close>

lemma mset_swap_remove:
  assumes "i < length xs"
  shows "mset (swap_remove i xs) = mset xs - {#xs ! i#}"
proof -
  from assms obtain ys y where xs: "xs = ys @ [y]" by (cases xs rule: rev_cases) auto
  show ?thesis
  proof (cases "i = length ys")
    case True
    with xs show ?thesis by (simp add: swap_remove_def)
  next
    case False
    with assms xs have "i < length ys" by simp
    with xs False show ?thesis by (simp add: swap_remove_def mset_update nth_append)
  qed
qed

lemma nth_swap_remove: "j < i \<Longrightarrow> i < length xs \<Longrightarrow> swap_remove i xs ! j = xs ! j"
  by (simp add: swap_remove_def nth_butlast)

text \<open>The answer that a pending inspection has, if any.\<close>

definition answer_of :: "(nat \<Rightarrow> receiver_state) \<Rightarrow> pending_inspection \<Rightarrow> pending_result option" where
  "answer_of receivers p = pending_answer (receivers (pd_receiver p)) p"

definition answers :: "(nat \<Rightarrow> receiver_state) \<Rightarrow> pending_inspection multiset \<Rightarrow> pending_result multiset" where
  "answers receivers ps = image_mset (\<lambda>p. the (answer_of receivers p)) (filter_mset (\<lambda>p. answer_of receivers p \<noteq> None) ps)"

definition unanswered :: "(nat \<Rightarrow> receiver_state) \<Rightarrow> pending_inspection multiset \<Rightarrow> pending_inspection multiset" where
  "unanswered receivers ps = filter_mset (\<lambda>p. answer_of receivers p = None) ps"

lemma poll_from_splits:
  assumes "\<forall>j < index. j < length pending \<longrightarrow> answer_of receivers (pending ! j) = None"
    and "poll_from receivers index pending results = (pending', results')"
  shows "mset pending' = unanswered receivers (mset pending)
    \<and> mset results' = mset results + answers receivers (mset pending)"
  using assms
proof (induction receivers index pending results arbitrary: pending' results' rule: poll_from.induct)
  case (1 receivers index pending results)
  consider "length pending \<le> index" | "index < length pending" "answer_of receivers (pending ! index) = None"
    | r where "index < length pending" "answer_of receivers (pending ! index) = Some r" by (meson not_le option.exhaust)
  then show ?case
  proof cases
    case 1
    with "1.prems"(1) have "\<forall>p \<in># mset pending. answer_of receivers p = None" by (auto simp: in_set_conv_nth)
    then have "unanswered receivers (mset pending) = mset pending" "answers receivers (mset pending) = {#}"
      by (simp_all add: unanswered_def answers_def filter_mset_eq_conv)
    moreover from 1 have "poll_from receivers index pending results = (pending, results)"
      by (subst poll_from.simps) simp
    ultimately show ?thesis using "1.prems"(2) by simp
  next
    case 2
    with "1.prems"(2) have rest: "poll_from receivers (index + 1) pending results = (pending', results')"
      by (subst (asm) poll_from.simps) (simp add: answer_of_def)
    from 2 "1.prems"(1) have "\<forall>j < index + 1. j < length pending \<longrightarrow> answer_of receivers (pending ! j) = None"
      by (auto simp: less_Suc_eq)
    from "1.IH"(1) [OF 2(1) _ this rest] 2(2) show ?thesis by (simp add: answer_of_def)
  next
    case 3
    with "1.prems"(2) have rest: "poll_from receivers index (swap_remove index pending) (results @ [r]) = (pending', results')"
      by (subst (asm) poll_from.simps) (simp add: answer_of_def)
    have "\<forall>j < index. j < length (swap_remove index pending) \<longrightarrow> answer_of receivers (swap_remove index pending ! j) = None"
      using "1.prems"(1) 3(1) by (simp add: nth_swap_remove)
    from "1.IH"(2) [OF 3(1) _ this rest] 3 have IH: "mset pending' = unanswered receivers (mset (swap_remove index pending))"
      "mset results' = mset (results @ [r]) + answers receivers (mset (swap_remove index pending))"
      by (simp_all add: answer_of_def)
    have "mset pending = add_mset (pending ! index) (mset (swap_remove index pending))"
      using 3(1) by (simp add: mset_swap_remove)
    with IH 3(2) show ?thesis by (simp add: unanswered_def answers_def)
  qed
qed

text \<open>C24. A poll of the unanswered inspections takes every answer that has come exactly once, a closed channel
  as a failure, and keeps exactly the inspections without an answer, although it removes by swapping.\<close>

theorem poll_takes_each_answer_once:
  "mset (ct_pending (fst (controller_poll receivers ct))) = unanswered receivers (mset (ct_pending ct))
   \<and> mset (snd (controller_poll receivers ct)) = answers receivers (mset (ct_pending ct))"
proof (cases "poll_from receivers 0 (ct_pending ct) []")
  case (Pair pending' results')
  from poll_from_splits [OF _ this] show ?thesis by (simp add: controller_poll_def Pair)
qed


section \<open>The command bar\<close>

definition sent :: "app \<Rightarrow> command list" where
  "sent a = ch_queue (ct_channel (ap_runtime a))"

text \<open>There is room for \<open>n\<close> commands.\<close>

definition room :: "nat \<Rightarrow> app \<Rightarrow> bool" where
  "room n a \<longleftrightarrow> ch_connected (ct_channel (ap_runtime a))
     \<and> length (sent a) + n \<le> ch_capacity (ct_channel (ap_runtime a))"

lemma send_with_room:
  assumes "room (Suc n) a"
  shows "snd (app_send command a) = Ok ()" "sent (fst (app_send command a)) = sent a @ [command]"
    "room n (fst (app_send command a))" "app_lifecycle (fst (app_send command a)) = app_lifecycle a"
    "ap_input (fst (app_send command a)) = ap_input a"
    "ap_suppress_input_resume (fst (app_send command a)) = ap_suppress_input_resume a"
  using assms by (simp_all add: app_send_def controller_send_def handle_send_def room_def sent_def Let_def
      app_lifecycle_def controller_lifecycle_def)

lemma sent_updates [simp]:
  "sent (a\<lparr>ap_input := r\<rparr>) = sent a" "sent (a\<lparr>ap_resume_after_input := d\<rparr>) = sent a"
  "sent (a\<lparr>ap_suppress_input_resume := d\<rparr>) = sent a" "sent (show_message m a) = sent a"
  "room n (a\<lparr>ap_input := r\<rparr>) = room n a" "room n (a\<lparr>ap_resume_after_input := d\<rparr>) = room n a"
  "room n (a\<lparr>ap_suppress_input_resume := d\<rparr>) = room n a"
  by (simp_all add: sent_def room_def)

lemma open_command_bar:
  assumes "app_lifecycle a = LcRunning" and "ir_mode (ap_input a) = NormalMode" and "room (Suc n) a"
  shows "sent (set_mode CommandMode a) = sent a @ [CmdPause] \<and> room n (set_mode CommandMode a)
    \<and> ir_mode (ap_input (set_mode CommandMode a)) = CommandMode
    \<and> ap_resume_after_input (set_mode CommandMode a) \<and> \<not> ap_suppress_input_resume (set_mode CommandMode a)"
  using assms send_with_room [OF assms(3), of CmdPause]
  by (simp add: set_mode_def Let_def split_def router_set_mode_def)

text \<open>C25. Opening the command bar pauses a running guest, and leaving it resumes the guest, unless an action in
  between suppressed that (start, stop, toggle, reset, quit or the inspect view). The resume that is
  sent has no instruction limit, whatever limit the interrupted run had.\<close>

theorem command_bar_pauses_and_resumes:
  assumes "app_lifecycle a = LcRunning" and "ir_mode (ap_input a) = NormalMode" and "room 2 a"
  shows "sent (set_mode NormalMode (set_mode CommandMode a)) = sent a @ [CmdPause, CmdResume None]
    \<and> sent (set_mode NormalMode (suppress_resume (set_mode CommandMode a))) = sent a @ [CmdPause]"
proof -
  from open_command_bar [OF assms(1,2), of 1] assms(3) have opened:
    "sent (set_mode CommandMode a) = sent a @ [CmdPause]" "room 1 (set_mode CommandMode a)"
    "ir_mode (ap_input (set_mode CommandMode a)) = CommandMode"
    "ap_resume_after_input (set_mode CommandMode a)" "\<not> ap_suppress_input_resume (set_mode CommandMode a)"
    by (simp_all add: numeral_2_eq_2)
  let ?c = "(set_mode CommandMode a)\<lparr>ap_input := router_set_mode NormalMode (ap_input (set_mode CommandMode a))\<rparr>"
  have "room (Suc 0) ?c" using opened(2) by simp
  from send_with_room(1,2) [OF this, of "CmdResume None"] have "sent (start_emulation None ?c) = sent a @ [CmdPause, CmdResume None]"
    using opened(1,4) by (simp add: start_emulation_def Let_def split_def)
  then show ?thesis
    using opened by (simp add: set_mode_def [of NormalMode] Let_def suppress_resume_def)
qed

theorem command_bar_pauses_and_resumes_witness:
  "sent (set_mode NormalMode (set_mode CommandMode (initial_app (sample_controller\<lparr>ct_status :=
     sample_status\<lparr>rs_lifecycle := LcRunning\<rparr>\<rparr>)))) = [CmdPause, CmdResume None]"
  using command_bar_pauses_and_resumes [of "initial_app (sample_controller\<lparr>ct_status :=
     sample_status\<lparr>rs_lifecycle := LcRunning\<rparr>\<rparr>)"]
  by (simp add: app_lifecycle_def controller_lifecycle_def initial_app_def input_router_default_def room_def
      sent_def sample_controller_def)

end
