(* ===== verification/Tui_Frame.thy ===== *)
theory Tui_Frame
  imports Tui_Draw Tui_Session
begin

text \<open>
  A frame of the terminal interface against the session: drawing makes exactly the change of state
  that \<open>app_render\<close> describes, so every state of a session is drawn, and a frame shows the widgets
  of its view and marks the pane with the focus.
\<close>

section \<open>A frame and the session\<close>

definition shown_widget :: "(widget_id \<rightharpoonup> rect) \<Rightarrow> app \<Rightarrow> widget_id \<Rightarrow> bool" where
  "shown_widget areas app widget \<longleftrightarrow>
     widget_visible widget (ap_view app) \<and> areas widget \<noteq> None \<and> (widget = HelpId \<longrightarrow> ap_help_visible app)"

text \<open>The pane with the focus is the one drawn as such.\<close>

fun marks_focus :: "widget_id \<Rightarrow> widget_id \<times> rect \<times> drawing \<Rightarrow> bool" where
  "marks_focus focused (widget, area, DrawnPane pane) \<longleftrightarrow> pf_focused (dp_frame pane) = (focused = widget)"
| "marks_focus focused _ \<longleftrightarrow> True"

lemma pf_focused_pane_block [simp]: "pf_focused (pane_block title focused width) = focused"
  by (simp add: pane_block_def Let_def)

lemma widget_draw_pure:
  assumes "terminal_ok (dl_terminal lib)" and "widget \<notin> {PrimaryId, SecondaryId}"
  shows "\<exists>d. widget_draw lib ctx area widget app = Some (app, d) \<and> marks_focus (rc_focused ctx) (widget, area, d)"
  using assms by (cases widget)
    (auto simp: terminal_ok_def header_draw_def hints_draw_def Let_def console_draw_def events_draw_def dialog_draw_def)

lemma draw_widgets_append:
  "draw_widgets lib ctx areas (xs @ ys) app =
    Option.bind (draw_widgets lib ctx areas xs app) (\<lambda>(app, ds).
    Option.bind (draw_widgets lib ctx areas ys app) (\<lambda>(app, es). Some (app, ds @ es)))"
  by (induction xs arbitrary: app)
     (auto simp: Option.bind_assoc split: option.split prod.split bind_splits)

definition frame_of ::
  "(widget_id \<rightharpoonup> rect) \<Rightarrow> app \<Rightarrow> widget_id \<Rightarrow> widget_id list \<Rightarrow> (widget_id \<times> rect \<times> drawing) list \<Rightarrow> bool" where
  "frame_of areas app focused widgets ds \<longleftrightarrow>
     map fst ds = filter (shown_widget areas app) widgets \<and> list_all (marks_focus focused) ds"

lemma draw_widgets_pure:
  assumes "terminal_ok (dl_terminal lib)" and "list_all (\<lambda>w. w \<notin> {PrimaryId, SecondaryId}) widgets"
  shows "\<exists>ds. draw_widgets lib ctx areas widgets app = Some (app, ds)
    \<and> frame_of areas app (rc_focused ctx) widgets ds"
  using assms(2)
proof (induction widgets)
  case (Cons widget widgets)
  then obtain ds where ds: "draw_widgets lib ctx areas widgets app = Some (app, ds)"
      "frame_of areas app (rc_focused ctx) widgets ds" by auto
  show ?case
  proof (cases "shown_widget areas app widget")
    case True
    then obtain area where area: "areas widget = Some area" by (auto simp: shown_widget_def)
    from Cons.prems obtain d
      where "widget_draw lib ctx area widget app = Some (app, d)" "marks_focus (rc_focused ctx) (widget, area, d)"
      using that widget_draw_pure [OF assms(1), of widget "ctx" area app] by auto
    with ds area True show ?thesis
      by (intro exI [of _ "(widget, area, d) # ds"]) (auto simp: shown_widget_def frame_of_def)
  next
    case False
    with ds show ?thesis by (intro exI [of _ ds]) (auto simp: shown_widget_def frame_of_def split: option.split)
  qed
qed (simp add: frame_of_def)

definition secondary_content_length :: "secondary_widget \<Rightarrow> usize" where
  "secondary_content_length w = fst (snd (snd (secondary_contents 0 w)))"

lemma secondary_contents_length:
  "fst (snd (snd (secondary_contents width w))) = secondary_content_length w"
  by (simp add: secondary_content_length_def secondary_contents_def split: secondary_subview.split)

lemma secondary_draw_state:
  "fst (secondary_draw ctx area w) = secondary_clamp (secondary_content_length w) (re_height area) w"
  using secondary_contents_length [of "re_width area" w]
  by (cases "secondary_contents (re_width area) w") (simp add: secondary_draw_def Let_def)

lemma secondary_draw_frame: "pf_focused (dp_frame (snd (secondary_draw ctx area w))) = (rc_focused ctx = SecondaryId)"
  by (cases "secondary_contents (re_width area) w") (simp add: secondary_draw_def Let_def)

lemma geometry_columns:
  assumes "update_memory_geometry width height w = Some w'"
  shows "0 < pw_memory_columns w'"
proof -
  have cursor: "pw_memory_columns v' = pw_memory_columns v" if "ensure_cursor_visible v = Some v'" for v v'
    using that by (auto simp: ensure_cursor_visible_def Let_def split: option.splits if_splits sum.splits)
  have virtual: "pw_memory_columns v' = pw_memory_columns v" if "ensure_virtual_cursor_visible v = Some v'" for v v'
    using that by (auto simp: ensure_virtual_cursor_visible_def Let_def split: option.splits if_splits)
  from assms show ?thesis
    by (auto simp: update_memory_geometry_def Let_def dest!: cursor virtual split: if_splits bind_splits)
qed

lemma primary_draw_state:
  assumes "pw_subview w \<noteq> DisassemblyView" and "update_memory_geometry (re_width area) (re_height area) w = Some w'"
  shows "\<exists>pane. primary_draw lib ctx area w = Some (w', pane)
    \<and> pf_focused (dp_frame pane) = (rc_focused ctx = PrimaryId)"
  using assms geometry_columns [OF assms(2)]
  by (cases "pane_memory (pw_subview w' = VirtualMemoryView) w'") (auto simp: primary_draw_def render_memory_def Let_def)

lemma primary_draw_disassembly:
  assumes "pw_subview w = DisassemblyView"
  shows "\<exists>pane. primary_draw lib ctx area w = Some (w, pane)
    \<and> pf_focused (dp_frame pane) = (rc_focused ctx = PrimaryId)"
  using assms by (simp add: primary_draw_def Let_def)


text \<open>A frame is drawn when its state change is defined, and makes that change.\<close>

lemma draw_secondary_state:
  assumes "ap_view app = InspectView"
  shows "\<exists>ds. draw_widgets lib ctx areas [SecondaryId] app
      = Some (case areas SecondaryId of
          Some area \<Rightarrow> app\<lparr>ap_secondary := secondary_clamp (secondary_content_length (ap_secondary app))
            (re_height area) (ap_secondary app)\<rparr>
        | None \<Rightarrow> app, ds)
    \<and> frame_of areas app (rc_focused ctx) [SecondaryId] ds"
proof (cases "areas SecondaryId")
  case (Some area)
  obtain w d where drawn: "secondary_draw ctx area (ap_secondary app) = (w, d)" by fastforce
  with Some assms secondary_draw_state [of "ctx" area "ap_secondary app"]
    secondary_draw_frame [of "ctx" area "ap_secondary app"] show ?thesis
    by (auto simp: frame_of_def shown_widget_def)
qed (simp add: frame_of_def shown_widget_def)

lemma draw_primary_state:
  assumes "ap_view app = InspectView"
    and "\<And>area. areas PrimaryId = Some area \<Longrightarrow> pw_subview (ap_primary app) \<noteq> DisassemblyView
      \<Longrightarrow> update_memory_geometry (re_width area) (re_height area) (ap_primary app) \<noteq> None"
  shows "\<exists>w ds. (case areas PrimaryId of
          Some area \<Rightarrow> if pw_subview (ap_primary app) = DisassemblyView then Some (ap_primary app)
            else update_memory_geometry (re_width area) (re_height area) (ap_primary app)
        | None \<Rightarrow> Some (ap_primary app)) = Some w
    \<and> draw_widgets lib ctx areas [PrimaryId] app = Some (app\<lparr>ap_primary := w\<rparr>, ds)
    \<and> frame_of areas app (rc_focused ctx) [PrimaryId] ds"
proof (cases "areas PrimaryId")
  case (Some area)
  show ?thesis
  proof (cases "pw_subview (ap_primary app) = DisassemblyView")
    case True
    from primary_draw_disassembly [OF this, of lib "ctx" area] Some True assms(1) show ?thesis
      by (auto simp: frame_of_def shown_widget_def)
  next
    case False
    with assms(2) Some obtain w where w: "update_memory_geometry (re_width area) (re_height area) (ap_primary app) = Some w"
      by auto
    from primary_draw_state [OF False w, of lib "ctx"] Some False w assms(1) show ?thesis
      by (auto simp: frame_of_def shown_widget_def)
  qed
qed (simp add: frame_of_def shown_widget_def)

lemma frame_of_append:
  "frame_of areas app focused xs ds \<Longrightarrow> frame_of areas app focused ys es \<Longrightarrow> frame_of areas app focused (xs @ ys) (ds @ es)"
  by (simp add: frame_of_def)

lemma frame_of_app_cong:
  "ap_view b = ap_view a \<Longrightarrow> ap_help_visible b = ap_help_visible a \<Longrightarrow>
    frame_of areas b focused widgets ds \<longleftrightarrow> frame_of areas a focused widgets ds"
  by (simp add: frame_of_def shown_widget_def cong: filter_cong)

lemma widgets_split:
  "WIDGETS = [HeaderId, ConsoleId, EventsId] @ [PrimaryId] @ [SecondaryId] @ [DialogId, InputBarId, HintsId, HelpId]"
  by (simp add: WIDGETS_def)

lemma draw_widgets_split:
  assumes "terminal_ok (dl_terminal lib)"
    and "draw_widgets lib ctx areas [PrimaryId] app = Some (app1, ds1)"
    and "draw_widgets lib ctx areas [SecondaryId] app1 = Some (app2, ds2)"
    and "frame_of areas app (rc_focused ctx) [PrimaryId] ds1"
    and "frame_of areas app (rc_focused ctx) [SecondaryId] ds2"
    and "ap_view app2 = ap_view app" and "ap_help_visible app2 = ap_help_visible app"
  shows "\<exists>ds. draw_widgets lib ctx areas WIDGETS app = Some (app2, ds)
    \<and> frame_of areas app (rc_focused ctx) WIDGETS ds"
proof -
  obtain ds0 where ds0: "draw_widgets lib ctx areas [HeaderId, ConsoleId, EventsId] app = Some (app, ds0)"
      "frame_of areas app (rc_focused ctx) [HeaderId, ConsoleId, EventsId] ds0"
    using draw_widgets_pure [OF assms(1), of "[HeaderId, ConsoleId, EventsId]"] by fastforce
  obtain ds3 where ds3: "draw_widgets lib ctx areas [DialogId, InputBarId, HintsId, HelpId] app2 = Some (app2, ds3)"
      "frame_of areas app (rc_focused ctx) [DialogId, InputBarId, HintsId, HelpId] ds3"
    using draw_widgets_pure [OF assms(1), of "[DialogId, InputBarId, HintsId, HelpId]" "ctx" areas app2]
      frame_of_app_cong [OF assms(6,7)] by fastforce
  have "draw_widgets lib ctx areas WIDGETS app = Some (app2, ds0 @ ds1 @ ds2 @ ds3)"
    unfolding widgets_split draw_widgets_append
    by (simp only: Option.bind.simps prod.case ds0(1) assms(2,3) ds3(1) append_assoc)
  moreover have "frame_of areas app (rc_focused ctx) WIDGETS (ds0 @ ds1 @ ds2 @ ds3)"
    unfolding widgets_split by (intro frame_of_append ds0(2) assms(4,5) ds3(2))
  ultimately show ?thesis by blast
qed

lemma app_draw_renders:
  assumes "terminal_ok (dl_terminal lib)"
    and "app_render (dl_terminal lib) secondary_content_length area a = Some b"
    and "layout_areas (dl_terminal lib) (ap_layout a) area (ap_view a) (ap_focused a) = Some areas"
  shows "\<exists>ds. app_draw lib area a = Some (b, ds) \<and> frame_of areas a (ap_focused a) WIDGETS ds"
proof -
  define app where "app = a\<lparr>ap_terminal_area := area\<rparr>"
  define ctx where "ctx = \<lparr>rc_view = ap_view app, rc_mode = ir_mode (ap_input app), rc_focused = ap_focused app,
    rc_input = router_display (ap_input app), rc_ticks = ms_ticks (rs_machine (ct_status (ap_runtime app)))\<rparr>"
  have draw: "app_draw lib area a = draw_widgets lib ctx areas WIDGETS app"
    using assms(3) by (simp add: app_draw_def app_def ctx_def Let_def)
  have same: "frame_of areas app (rc_focused ctx) WIDGETS ds \<longleftrightarrow> frame_of areas a (ap_focused a) WIDGETS ds" for ds
    using frame_of_app_cong [of app a areas] by (simp add: app_def ctx_def)
  have "\<exists>ds. draw_widgets lib ctx areas WIDGETS app = Some (b, ds) \<and> frame_of areas app (rc_focused ctx) WIDGETS ds"
  proof (cases "ap_view a = InspectView")
    case False
    with assms(2,3) have "b = app" by (simp add: app_render_def app_def Let_def)
    moreover have "draw_widgets lib ctx areas [PrimaryId] app = Some (app, [])"
        "draw_widgets lib ctx areas [SecondaryId] app = Some (app, [])"
        "frame_of areas app (rc_focused ctx) [PrimaryId] []" "frame_of areas app (rc_focused ctx) [SecondaryId] []"
      using False by (auto simp: app_def frame_of_def shown_widget_def)
    ultimately show ?thesis using draw_widgets_split [OF assms(1)] by metis
  next
    case True
    then have view: "ap_view app = InspectView" by (simp add: app_def)
    have "update_memory_geometry (re_width r) (re_height r) (ap_primary app) \<noteq> None"
      if "areas PrimaryId = Some r" "pw_subview (ap_primary app) \<noteq> DisassemblyView" for r
      using assms(2,3) True that by (auto simp: app_render_def app_def Let_def)
    from draw_primary_state [OF view this, where lib = lib and ctx = ctx] obtain w ds1 where w:
      "(case areas PrimaryId of Some area \<Rightarrow> if pw_subview (ap_primary app) = DisassemblyView then Some (ap_primary app)
          else update_memory_geometry (re_width area) (re_height area) (ap_primary app) | None \<Rightarrow> Some (ap_primary app)) = Some w"
      "draw_widgets lib ctx areas [PrimaryId] app = Some (app\<lparr>ap_primary := w\<rparr>, ds1)"
      "frame_of areas app (rc_focused ctx) [PrimaryId] ds1" by blast
    have "ap_view (app\<lparr>ap_primary := w\<rparr>) = InspectView" using view by simp
    from draw_secondary_state [OF this, where lib = lib and ctx = ctx and areas = areas] obtain c ds2 where c:
      "c = (case areas SecondaryId of
          Some area \<Rightarrow> (app\<lparr>ap_primary := w\<rparr>)\<lparr>ap_secondary :=
            secondary_clamp (secondary_content_length (ap_secondary (app\<lparr>ap_primary := w\<rparr>)))
              (re_height area) (ap_secondary (app\<lparr>ap_primary := w\<rparr>))\<rparr>
        | None \<Rightarrow> app\<lparr>ap_primary := w\<rparr>)"
      "draw_widgets lib ctx areas [SecondaryId] (app\<lparr>ap_primary := w\<rparr>) = Some (c, ds2)"
      "frame_of areas (app\<lparr>ap_primary := w\<rparr>) (rc_focused ctx) [SecondaryId] ds2" by blast
    have ds2: "frame_of areas app (rc_focused ctx) [SecondaryId] ds2"
      using c(3) frame_of_app_cong [of "app\<lparr>ap_primary := w\<rparr>" app] by simp
    have fields: "ap_layout app = ap_layout a" "ap_view app = ap_view a" "ap_focused app = ap_focused a"
      by (simp_all add: app_def)
    have inspect: "layout_areas (dl_terminal lib) (ap_layout a) area InspectView (ap_focused a) = Some areas"
      using assms(3) True by simp
    have "app\<lparr>ap_primary := w, ap_secondary := (case areas SecondaryId of
          Some area \<Rightarrow> secondary_clamp (secondary_content_length (ap_secondary app)) (re_height area) (ap_secondary app)
        | None \<Rightarrow> ap_secondary app)\<rparr> = b"
      using assms(2) by (simp add: app_render_def Let_def app_def [symmetric] fields inspect True w(1))
    then have "b = c" unfolding c(1) by (cases "areas SecondaryId") auto
    moreover have "ap_view c = ap_view app" "ap_help_visible c = ap_help_visible app"
      by (auto simp: c(1) split: option.split)
    ultimately show ?thesis using draw_widgets_split [OF assms(1) w(2) c(2) w(3) ds2] by blast
  qed
  with draw same show ?thesis by simp
qed

lemma focused_pane_has_area:
  assumes "layout_areas lib l area view focused = Some areas" and "visible_focus view focused"
  shows "widget_visible focused view \<and> areas focused \<noteq> None \<and> focused \<in> set WIDGETS \<and> focused \<noteq> HelpId"
  using assms
  by (cases view; cases focused)
     (auto simp: layout_areas_def Let_def visible_focus_def WIDGETS_def split: option.splits if_splits)

text \<open>In every session the next frame is drawn without a panic and the session goes on from it. It shows exactly
  the widgets of the view that the layout has room for, the help only when it was asked for; the pane
  with the focus is among them, and no other pane is drawn as having the focus.\<close>

theorem session_frame_is_drawn:
  assumes "terminal_ok (dl_terminal lib)" and "session (dl_terminal lib) a"
  shows "\<exists>areas b frame. layout_areas (dl_terminal lib) (ap_layout a) area (ap_view a) (ap_focused a) = Some areas
    \<and> app_draw lib area a = Some (b, frame) \<and> session (dl_terminal lib) b
    \<and> map fst frame = filter (shown_widget areas a) WIDGETS
    \<and> ap_focused a \<in> set (map fst frame) \<and> list_all (marks_focus (ap_focused a)) frame"
proof -
  from session_inv [OF assms] have ok: "app_inv primary_mapped a" by simp
  obtain areas where areas: "layout_areas (dl_terminal lib) (ap_layout a) area (ap_view a) (ap_focused a) = Some areas"
    using layout_areas_total [OF assms(1)] by blast
  from app_render_inv [OF assms(1) ok] obtain b
    where b: "app_render (dl_terminal lib) secondary_content_length area a = Some b" by blast
  from app_draw_renders [OF assms(1) b areas] obtain ds
    where ds: "app_draw lib area a = Some (b, ds)" "frame_of areas a (ap_focused a) WIDGETS ds" by blast
  moreover have "session (dl_terminal lib) b" by (rule session_render [OF assms(2) b])
  moreover have "shown_widget areas a (ap_focused a) \<and> ap_focused a \<in> set WIDGETS"
    using focused_pane_has_area [OF areas] ok by (auto simp: shown_widget_def app_inv_def)
  ultimately have "map fst ds = filter (shown_widget areas a) WIDGETS"
      "ap_focused a \<in> set (filter (shown_widget areas a) WIDGETS)" "list_all (marks_focus (ap_focused a)) ds"
      "session (dl_terminal lib) b"
    by (simp_all add: frame_of_def)
  with areas ds(1) show ?thesis by metis
qed

lemma sample_start: "case app_start [] sample_controller of Some (Inr d) \<Rightarrow> ap_view d = RuntimeView | _ \<Rightarrow> False"
  apply code_simp
  apply (subst process_actions.simps)
  apply code_simp
  apply (subst process_actions.simps)
  apply code_simp
  done

lemma sample_session_view: "\<exists>a. session lib a \<and> ap_view a = RuntimeView"
  using sample_start by (auto split: option.splits sum.splits intro: session_start)

theorem session_frame_is_drawn_witness:
  "\<exists>a areas b frame. ap_view a = RuntimeView
    \<and> app_draw \<lparr>dl_terminal = sample_terminal, dl_show_message = (\<lambda>_. []), dl_show_error = (\<lambda>_. []), dl_disassembler = None\<rparr>
        \<lparr>re_x = 0, re_y = 0, re_width = 80, re_height = 24\<rparr> a = Some (b, frame)
    \<and> map fst frame = filter (shown_widget areas a) WIDGETS"
proof -
  let ?lib = "\<lparr>dl_terminal = sample_terminal, dl_show_message = (\<lambda>_. []), dl_show_error = (\<lambda>_. []), dl_disassembler = None\<rparr>"
  obtain a where a: "session sample_terminal a" "ap_view a = RuntimeView" using sample_session_view by blast
  have "terminal_ok (dl_terminal ?lib)" by (simp add: terminal_ok_def sample_terminal_def)
  moreover from a(1) have "session (dl_terminal ?lib) a" by simp
  ultimately show ?thesis
    using session_frame_is_drawn [of ?lib a "\<lparr>re_x = 0, re_y = 0, re_width = 80, re_height = 24\<rparr>"] a(2) by auto
qed

end
