(* ===== verification/Runtime_Progress.thy ===== *)
theory Runtime_Progress
  imports Runtime_Lifecycle
begin

text \<open>
  Progress of the running service: an engine that executes at least one instruction when it is started,
  and a batch before its boundary that does not stop the service advances virtual time. With an
  execution deadline the service therefore leaves its running state after finitely many iterations.
\<close>

section \<open>What progress rests on\<close>

text \<open>
  \<open>emu_start\<close> with a positive count at an address other than the stop address, when it reports success,
  has begun an instruction. The program counter is at least halfword-aligned.
\<close>

definition engine_steps :: "'g engine \<Rightarrow> bool" where
  "engine_steps e \<longleftrightarrow>
     (\<forall>hooks uc begin_at until timeout count uc'. hooks_total hooks \<longrightarrow> 0 < count \<longrightarrow> begin_at \<noteq> until \<longrightarrow>
        eng_emu_start e hooks uc begin_at until timeout count = Some (uc', Ok ()) \<longrightarrow>
        (\<exists>n. 0 < n \<and> n \<le> count \<and> hook_run hooks n uc uc'))
     \<and> (\<forall>g v. eng_reg_read e g PC = Ok v \<longrightarrow> even (unat v))"

section \<open>The notes of the callbacks\<close>

definition ends_service :: "backend_stop \<Rightarrow> bool" where
  "ends_service stop \<longleftrightarrow> (case stop of StopBreakpoint _ _ \<Rightarrow> True | StopUnicorn _ \<Rightarrow> True | _ \<Rightarrow> False)"

lemma ends_service_simps [simp]:
  "ends_service (StopBreakpoint address immediate)" "ends_service (StopUnicorn error)"
  "\<not> ends_service (StopException kind)" "\<not> ends_service StopInstructionBudget"
  "\<not> ends_service (StopMmuFault fault)" "\<not> ends_service (StopMmioFault address acc detail)"
  by (simp_all add: ends_service_def)

lemma stop_faults_simps [simp]:
  "stop_faults (StopMmuFault fault)" "stop_faults (StopMmioFault address acc detail)"
  by (simp_all add: stop_faults_def)

text \<open>A callback notes a fault or a breakpoint as its stop, and a CP15 operation only with an instruction.\<close>

definition notes_ok :: "backend_data \<Rightarrow> bool" where
  "notes_ok d \<longleftrightarrow> (\<forall>stop. bd_callback_stop d = Some stop \<longrightarrow> stop_faults stop \<or> ends_service stop)"

definition no_trap :: "backend_data \<Rightarrow> bool" where
  "no_trap d \<longleftrightarrow> bd_pending_cp15 d = None
     \<and> (\<forall>stop. bd_callback_stop d = Some stop \<longrightarrow> stop_faults stop)"

definition notes_kept :: "'g unicorn \<Rightarrow> 'g unicorn \<Rightarrow> bool" where
  "notes_kept uc uc' \<longleftrightarrow> (notes_ok (uc_data uc) \<longrightarrow> notes_ok (uc_data uc'))
     \<and> (no_trap (uc_data uc) \<longrightarrow> no_trap (uc_data uc'))"

lemma notes_kept_refl [simp]: "notes_kept uc uc"
  by (simp add: notes_kept_def)

lemma notes_kept_trans [trans]: "notes_kept a b \<Longrightarrow> notes_kept b c \<Longrightarrow> notes_kept a c"
  by (simp add: notes_kept_def)

lemma notes_kept_quiet [simp]:
  "notes_kept uc (uc'\<lparr>uc_state := g\<rparr>) \<longleftrightarrow> notes_kept uc uc'"
  "notes_kept uc (put_register e r v uc') \<longleftrightarrow> notes_kept uc uc'"
  "notes_kept uc (stop_engine e uc') \<longleftrightarrow> notes_kept uc uc'"
  "notes_kept uc (set_machine m uc') \<longleftrightarrow> notes_kept uc uc'"
  "notes_kept uc (on_data (bd_pending_exception_update f) uc') \<longleftrightarrow> notes_kept uc uc'"
  by (simp_all add: notes_kept_def notes_ok_def no_trap_def put_register_def stop_engine_def)

lemma notes_fault:
  assumes "bd_callback_stop d = Some stop" and "bd_pending_cp15 d = bd_pending_cp15 (uc_data uc)" and "stop_faults stop"
  shows "notes_kept uc (uc\<lparr>uc_data := d\<rparr>)"
proof -
  have "notes_ok d" using assms(1,3) unfolding notes_ok_def by (metis option.inject)
  moreover have "no_trap (uc_data uc) \<Longrightarrow> no_trap d"
    using assms unfolding no_trap_def by (metis option.inject)
  ultimately show ?thesis by (simp add: notes_kept_def)
qed

lemma notes_kept_fault [simp]:
  "stop_faults stop \<Longrightarrow> notes_kept uc (set_callback_stop stop uc)"
  by (rule notes_fault) simp_all

lemma notes_mmio_fault: "notes_kept uc uc' \<Longrightarrow> notes_kept uc (record_mmio_fault e address acc detail uc')"
  by (auto simp: record_mmio_fault_def intro: notes_kept_trans)

lemma notes_mmu_fault [simp]:
  "notes_kept uc (on_data (\<lambda>d. d\<lparr>bd_machine := m, bd_callback_stop := Some (StopMmuFault fault)\<rparr>) uc)"
  by (rule notes_fault [where stop = "StopMmuFault fault"]) simp_all

lemma notes_tlb_callback: "notes_kept uc (fst (virtual_tlb_callback e address ty uc))"
proof (cases "mmu_access ty")
  case None
  then show ?thesis by (simp add: virtual_tlb_callback_def)
next
  case (Some acc)
  show ?thesis
  proof (cases "eng_reg_read e (uc_state uc) CPSR")
    case (Inl x)
    with Some show ?thesis by (simp add: virtual_tlb_callback_def)
  next
    case (Inr cpsr)
    let ?m = "uc_machine uc"
    let ?va = "VirtualAddress (ucast address)"
    let ?user = "(ucast cpsr :: u32) AND 0x1f = 0x10"
    obtain w memory r where tr:
      "translate physical_memory_ops (ma_mmu ?m) (ma_memory ?m) ?va acc ?user = (w, memory, r)"
      by (metis prod_cases3)
    obtain w' fault where rec: "record_invalid_mmio_fault w ?va acc ?user = (w', fault)"
      by fastforce
    from tr rec Some Inr show ?thesis
      by (cases r; cases acc) (simp_all add: virtual_tlb_callback_def Let_def)
  qed
qed

lemma notes_bus_access: "machine_bus_access t uc = Some (uc', r) \<Longrightarrow> notes_kept uc uc'"
  by (auto simp: machine_bus_access_def Let_def)

lemma notes_mmio_read:
  assumes "mmio_read_callback e offset len uc = Some (uc', v)"
  shows "notes_kept uc uc'"
proof (cases "mmio_width_try_from len")
  case (Inl x)
  with assms show ?thesis by (auto simp: mmio_read_callback_def Let_def intro: notes_mmio_fault)
next
  case (Inr width)
  with assms obtain uc1 r where
    acc: "machine_bus_access (mmio_read (PhysicalAddress (ucast (MMIO_BASE + offset))) width) uc = Some (uc1, r)"
    by (auto simp: mmio_read_callback_def Let_def)
  from notes_bus_access [OF this] assms Inr acc show ?thesis
    by (cases r) (auto simp: mmio_read_callback_def Let_def intro: notes_mmio_fault split: option.splits)
qed

lemma notes_mmio_write:
  assumes "mmio_write_callback e offset len v uc = Some uc'"
  shows "notes_kept uc uc'"
proof (cases "mmio_width_try_from len")
  case (Inl x)
  with assms show ?thesis by (auto simp: mmio_write_callback_def Let_def intro: notes_mmio_fault)
next
  case (Inr width)
  with assms obtain uc1 r where acc: "machine_bus_access
      (mmio_write (PhysicalAddress (ucast (MMIO_BASE + offset))) width (ucast v)) uc = Some (uc1, r)"
    by (auto simp: mmio_write_callback_def Let_def)
  from notes_bus_access [OF this] assms Inr acc show ?thesis
    by (cases r) (auto simp: mmio_write_callback_def Let_def intro: notes_mmio_fault)
qed

lemma notes_trap_cp15: "notes_ok (uc_data uc) \<Longrightarrow> notes_ok (uc_data (trap_cp15 e address cp15 uc))"
  by (auto simp: trap_cp15_def Let_def notes_ok_def stop_engine_def put_register_def split: option.split)

lemma notes_trap_instruction:
  "notes_ok (uc_data uc) \<Longrightarrow> notes_ok (uc_data (trap_instruction e address instruction uc))"
  by (auto simp: trap_instruction_def trap_breakpoint_def trap_supervisor_call_def notes_trap_cp15
      split: option.split) (auto simp: notes_ok_def stop_engine_def put_register_def)

lemma notes_tlb_run: "tlb_run (virtual_tlb_callback e) uc uc' \<Longrightarrow> notes_kept uc uc'"
proof (induction rule: tlb_run.induct)
  case (tlb_call uc uc' address ty)
  then show ?case using notes_kept_trans [OF _ notes_tlb_callback] by blast
qed simp_all

lemma notes_code_hooks:
  assumes "engine_runs e" and "notes_ok (uc_data uc)"
  shows "notes_ok (uc_data (run_code_hooks (backend_hooks e) address len uc))"
proof -
  let ?uc = "instruction_counter_callback address len uc"
  have counted: "notes_ok (uc_data ?uc)" using assms(2) by (simp add: notes_ok_def instruction_counter_callback_def)
  obtain uc' r where read: "eng_vmem_read e (virtual_tlb_callback e) ?uc address ProtExec 4 = (uc', r)" by fastforce
  then have "tlb_run (virtual_tlb_callback e) ?uc uc'"
    using engine_runs_vmem(1) [OF assms(1), of "virtual_tlb_callback e" ?uc address ProtExec 4] by simp
  from notes_tlb_run [OF this] counted have "notes_ok (uc_data uc')" by (simp add: notes_kept_def)
  with counted read notes_trap_instruction [of uc' e address] show ?thesis
    by (cases "len = 4"; cases r) (simp_all add: run_code_hooks_def backend_hooks_def a32_synchronous_trap_callback_def)
qed

lemma notes_hook_run:
  assumes "hook_run (backend_hooks e) n uc uc'" and "engine_runs e"
  shows "(notes_ok (uc_data uc) \<longrightarrow> notes_ok (uc_data uc')) \<and> (n = 0 \<longrightarrow> no_trap (uc_data uc) \<longrightarrow> no_trap (uc_data uc'))"
  using assms(1)
proof induction
  case (run_store n uc uc' m offset bytes)
  have "notes_kept uc' (set_machine m' uc')" for m' by simp
  with run_store(3) show ?case unfolding notes_kept_def by blast
next
  case (run_tlb n uc uc' address ty)
  with notes_tlb_callback [of uc' e address ty] show ?case
    by (simp add: backend_hooks_def notes_kept_def)
next
  case (run_code n uc uc' address len)
  with notes_code_hooks [OF assms(2)] show ?case by simp
next
  case (run_mmio_read n uc uc' offset len uc'' v)
  then show ?case using notes_mmio_read [of e offset len uc' uc'' v]
    by (simp add: backend_hooks_def notes_kept_def)
next
  case (run_mmio_write n uc uc' offset len v uc'')
  then show ?case using notes_mmio_write [of e offset len v uc' uc'']
    by (simp add: backend_hooks_def notes_kept_def)
next
  case (run_invalid n uc uc')
  have "notes_kept uc' (fst (hk_invalid (backend_hooks e) uc'))"
    by (simp add: backend_hooks_def invalid_instruction_callback_def Let_def)
  with run_invalid(2) show ?case unfolding notes_kept_def by blast
qed simp_all

section \<open>A run before its deadline\<close>

definition advances :: "'g backend \<Rightarrow> ('g backend \<times> backend_stop) option \<Rightarrow> bool" where
  "advances b r \<longleftrightarrow> (\<forall>b' stop. r = Some (b', stop) \<longrightarrow> unat (be_ticks b) < unat (be_ticks b') \<or> ends_service stop)"

lemma advances_Some [simp]:
  "advances b (Some (b', stop)) \<longleftrightarrow> unat (be_ticks b) < unat (be_ticks b') \<or> ends_service stop"
  by (simp add: advances_def)

lemma enter_or_arg_ticks:
  "enter_or_arg e plan kind b = Some (b', stop) \<Longrightarrow> be_machine b' = be_machine b"
  using enter_exception_keeps_machine [of e plan b] by (auto simp: enter_or_arg_def)

lemma advances_enter:
  "unat (be_ticks b) < unat (be_ticks b1) \<Longrightarrow> advances b (enter_or_arg e plan kind b1)"
  by (auto simp: advances_def dest: enter_or_arg_ticks)

lemma finish_outcome_advances:
  assumes "time_left (be_ticks b) (outcome_cost outcome)" and "outcome \<noteq> OutCompleted"
  shows "advances b (Option.bind (finish_instruction outcome (be_machine b)) (\<lambda>(m, plan). case plan of
      None \<Rightarrow> Some (put_machine m b, stop)
    | Some plan \<Rightarrow> enter_or_arg e plan (kind plan) (put_machine m b)))"
proof -
  from finish_instruction_follows [OF assms(1)] outcome_plan_Some [OF assms(2)] obtain m plan where
    "finish_instruction outcome (be_machine b) = Some (m, Some plan)"
    "unat (ma_ticks m) = unat (be_ticks b) + outcome_cost outcome" by auto
  moreover have "0 < outcome_cost outcome" by (cases outcome) simp_all
  ultimately show ?thesis by (simp add: advances_enter)
qed

lemma finish_synchronous_advances:
  assumes "may_spend tick_deadline limit (unat (be_ticks b))"
  shows "advances b (finish_synchronous_exception e kind pc tick_deadline b)"
proof (cases "\<exists>d. tick_deadline = Some d \<and> be_ticks b + 1 = d")
  case True
  have "time_left (be_ticks b) (outcome_cost OutCompleted)"
    using may_spend_less [OF assms] by (simp add: time_left_def)
  from finish_instruction_follows [OF this] True show ?thesis
    by (auto simp: finish_synchronous_exception_def)
next
  case False
  then have "unat (be_ticks b) + 2 \<le> limit" "limit + 2 ^ 32 \<le> 2 ^ 64"
    using assms deadline_next [of "be_ticks b"]
    by (simp_all add: may_spend_def split: option.splits) blast
  then have "time_left (be_ticks b) (outcome_cost (OutSynchronousException kind pc))"
    by (simp add: time_left_def)
  from finish_outcome_advances [OF this, of "StopException kind" e "\<lambda>_. kind"] False show ?thesis
    by (auto simp: finish_synchronous_exception_def split: option.splits)
qed

lemma finish_pending_advances:
  assumes "may_spend tick_deadline limit (unat (be_ticks b))"
  shows "advances b (finish_pending_exception e pending tick_deadline b)"
proof (cases pending)
  case (PendSynchronous kind pc)
  with finish_synchronous_advances [OF assms] show ?thesis by (simp add: finish_pending_exception_def)
next
  case (PendFault fault)
  have "advances b (Option.bind (finish_instruction (OutFault fault (VirtualAddress pc)) (be_machine b))
      (\<lambda>(m, plan). case plan of None \<Rightarrow> Some (put_machine m b, StopUnicorn UcArg)
      | Some plan \<Rightarrow> enter_or_arg e plan (req_kind (plan_request plan)) (put_machine m b)))" for pc
    by (rule finish_outcome_advances) (use may_spend_less [OF assms] in \<open>simp_all add: time_left_def\<close>)
  with PendFault show ?thesis by (simp add: finish_pending_exception_def Let_def)
qed

lemma advances_from: "advances b1 r \<Longrightarrow> unat (be_ticks b) \<le> unat (be_ticks b1) \<Longrightarrow> advances b r"
  by (fastforce simp: advances_def)

lemma finish_fault_stop_advances:
  assumes "may_spend tick_deadline limit (unat (be_ticks b))" and "stop_faults stop \<or> ends_service stop"
  shows "advances b (finish_callback_stop e stop tick_deadline b)"
proof (cases stop)
  case (StopMmuFault fault)
  with finish_pending_advances [OF assms(1)] show ?thesis by (simp add: finish_callback_stop_def)
next
  case (StopMmioFault address acc detail)
  have "advances b (finish_pending_exception e (PendFault fault) tick_deadline
      (put_machine (be_machine b\<lparr>ma_mmu := w\<rparr>) b))" for w fault
    by (rule advances_from [OF finish_pending_advances]) (use assms(1) in simp_all)
  with StopMmioFault show ?thesis by (auto simp: finish_callback_stop_def Let_def split: prod.split)
qed (use assms(2) in \<open>simp_all add: finish_callback_stop_def stop_faults_def\<close>)


lemma deliver_irq_advances:
  assumes "deliver_irq e b = Some (b', x)" and "x \<noteq> None" and "time_left (be_ticks b) 1"
  shows "unat (be_ticks b) < unat (be_ticks b')"
proof -
  let ?m = "be_machine b"
  let ?m1 = "?m\<lparr>ma_bus := (ma_bus ?m)\<lparr>bus_interrupts := fst (ic_do_claim (bus_interrupts (ma_bus ?m)))\<rparr>\<rparr>"
  have "time_left (ma_ticks ?m1) 1" using assms(3) by simp
  note entry = enter_exception_returns [OF this, of ExInterrupt]
  from assms(1,2) obtain pc m plan stop where
    "enter_exception ExInterrupt (VirtualAddress pc) ?m1 = Some (m, plan)"
    "enter_or_arg e plan ExInterrupt (put_machine m (put_machine ?m1 b)) = Some (b', stop)"
    by (auto simp: deliver_irq_def Let_def case_prod_unfold bind_eq_Some_conv
        split: sum.splits if_splits option.splits)
  with entry [of "VirtualAddress pc"] enter_or_arg_ticks show ?thesis by fastforce
qed

text \<open>
  After \<open>n\<close> begun instructions, with the notes of the callbacks in order: the settled run has advanced
  time or stops the service, unless it began none, noted nothing and the engine reported success.
\<close>

lemma settle_faulting_advances:
  assumes "may_spend tick_deadline limit (unat (be_ticks b))" and "notes_ok d" and "faulting_instruction d"
  shows "advances b (settle_run e tick_deadline result d b)"
proof (cases "bd_callback_stop d")
  case (Some stop)
  with assms(2) have "stop_faults stop \<or> ends_service stop" by (auto simp: notes_ok_def)
  from finish_fault_stop_advances [OF assms(1) this] Some show ?thesis by (simp add: settle_run_def)
next
  case None
  show ?thesis
  proof (cases "bd_pending_exception d")
    case (Some pending)
    with finish_pending_advances [OF assms(1)] None show ?thesis by (simp add: settle_run_def)
  next
    case none: None
    with assms(3) None obtain pc where "bd_pending_cp15 d = Some (CpUndefined pc)"
      by (auto simp: faulting_instruction_def split: option.splits pending_cp15.splits)
    with finish_synchronous_advances [OF assms(1)] None none show ?thesis
      by (simp add: settle_run_def finish_cp15_def Let_def)
  qed
qed

lemma settle_quiet_ends:
  assumes "no_trap d" and "\<not> faulting_instruction d" and "result = Inl error"
    and "unat (be_ticks b) < limit" "limit + 2 ^ 32 \<le> 2 ^ 64"
  shows "advances b (settle_run e tick_deadline result d b)"
proof -
  have quiet: "bd_callback_stop d = None" "bd_pending_exception d = None" "bd_pending_cp15 d = None"
    using assms(1,2) faulting_stop unfolding no_trap_def by (metis not_None_eq, auto simp: faulting_instruction_def)
  have "x \<noteq> None \<Longrightarrow> unat (be_ticks b) < unat (be_ticks b')"
    if "deliver_irq e b = Some (b', x)" for b' x
    using that deliver_irq_advances [of e b b' x] assms(4,5) by (simp add: time_left_def)
  then show ?thesis
    using quiet assms(3) by (auto simp: settle_run_def advances_def bind_eq_Some_conv deliver_before_deadline_def
        split: option.splits if_splits)
qed


lemma engine_stepsD:
  assumes "engine_steps e" and "hooks_total hooks" and "0 < count" and "begin_at \<noteq> until"
    and "eng_emu_start e hooks uc begin_at until timeout count = Some (uc', Ok ())"
  obtains n where "0 < n" "n \<le> count" "hook_run hooks n uc uc'"
  using assms unfolding engine_steps_def by blast

lemma finish_run_advances:
  assumes may: "may_spend tick_deadline limit (unat (be_ticks b) + count - 1)" and "0 < count"
    and executed: "unat (bd_executed (uc_data (be_engine b))) \<le> count"
    and pending: "pending_ok (uc_data (be_engine b))" "notes_ok (uc_data (be_engine b))"
    and idle: "bd_executed (uc_data (be_engine b)) = 0 \<Longrightarrow> no_trap (uc_data (be_engine b)) \<and> result \<noteq> Ok ()"
  shows "advances b (finish_run e tick_deadline result b)"
proof -
  let ?d = "uc_data (be_engine b)"
  define completed where "completed = unat (bd_executed ?d) - (if faulting_instruction ?d then 1 else 0)"
  define b1 where "b1 = b\<lparr>be_engine := on_data (\<lambda>d. d\<lparr>bd_callback_stop := None, bd_pending_cp15 := None,
                bd_pending_exception := None\<rparr>) (be_engine b)\<rparr>"
  note less = may_spend_less [OF may]
  have fit: "unat (be_ticks b) + completed \<le> limit"
    using less(1) executed \<open>0 < count\<close> by (simp add: completed_def)
  then have "time_left (be_ticks b) completed" using less(2) by (simp add: time_left_def)
  from finish_completed_returns [OF this] obtain m where m: "finish_completed completed (be_machine b) = Some m"
    "unat (ma_ticks m) = unat (be_ticks b) + completed" by blast
  define b2 where "b2 = put_machine m b1"
  have b2: "unat (be_ticks b2) = unat (be_ticks b) + completed" by (simp add: b2_def m(2))
  have run: "finish_run e tick_deadline result b = settle_run e tick_deadline result ?d b2"
    by (simp add: finish_run_def Let_def completed_def [symmetric] m(1) b2_def b1_def)
  show ?thesis
  proof (cases "faulting_instruction ?d")
    case True
    have "advances b2 (settle_run e tick_deadline result ?d b2)"
      by (rule settle_faulting_advances [OF may_spend_mono [OF may] pending(2) True])
        (use True executed \<open>0 < count\<close> b2 in \<open>simp add: completed_def\<close>)
    with b2 show ?thesis unfolding run by (auto intro: advances_from)
  next
    case False
    show ?thesis
    proof (cases "bd_executed ?d = 0")
      case True
      then obtain error where "no_trap ?d" "result = Inl error" using idle by (cases result) auto
      then have "advances b2 (settle_run e tick_deadline result ?d b2)"
        by (rule settle_quiet_ends [OF _ False, where limit = limit])
          (use b2 less True \<open>0 < count\<close> in \<open>simp_all add: completed_def\<close>)
      with b2 show ?thesis unfolding run by (auto intro: advances_from)
    next
      case began: False
      have "ends_by limit b2 (settle_run e tick_deadline result ?d b2)"
      proof (rule settle_run_ends [OF _ less(2) _ _ pending(1)])
        show "unat (be_ticks b2) \<le> limit" using fit b2 by simp
        show "tick_deadline = Some (be_ticks b2)" if "unat (be_ticks b2) = limit"
          using that may b2 executed \<open>0 < count\<close> False
          by (auto simp: may_spend_def completed_def word_unat_eq_iff split: option.splits)
      qed (use False in simp)
      moreover have "0 < completed" using began False by (simp add: completed_def unat_gt_0)
      ultimately show ?thesis unfolding run by (auto simp: ends_by_def advances_def b2)
    qed
  qed
qed

lemma emulate_advances:
  assumes "engine_runs e" "engine_steps e" and may: "may_spend tick_deadline limit (unat (be_ticks b) + count - 1)"
    and count: "0 < count" "count < 2 ^ 64" and "start \<noteq> until"
  shows "advances b (emulate e start until count tick_deadline b)"
proof -
  obtain g exits where set: "eng_set_exits e (uc_state (be_engine b)) (if until = u32_max then [] else [ucast until]) = (g, exits)"
    by fastforce
  define b0 where "b0 = clear_run (put_engine g b)"
  have b0: "be_machine b0 = be_machine b" "bd_executed (uc_data (be_engine b0)) = 0" "pending_ok (uc_data (be_engine b0))"
      "notes_ok (uc_data (be_engine b0))" "no_trap (uc_data (be_engine b0))"
    by (simp_all add: b0_def clear_run_def put_engine_def pending_ok_def notes_ok_def no_trap_def)
  from assms(1) backend_hooks_total count(1) obtain uc r n where
    go: "eng_emu_start e (backend_hooks e) (be_engine b0) (ucast start) (ucast until) 0 count = Some (uc, r)"
    and n: "n \<le> count" "hook_run (backend_hooks e) n (be_engine b0) uc"
    unfolding engine_runs_def by metis
  have differ: "(ucast start :: u64) \<noteq> ucast until"
    using assms(6) unat_u32_u64 [of start] unat_u32_u64 [of until] by (auto simp: word_unat_eq_iff)
  obtain k where k: "k \<le> count" "hook_run (backend_hooks e) k (be_engine b0) uc" "r = Ok () \<Longrightarrow> 0 < k"
  proof (cases "r = Ok ()")
    case True
    with engine_stepsD [OF assms(2) backend_hooks_total count(1) differ] go that show thesis by blast
  next
    case False
    with n that show thesis by blast
  qed
  from follows_hook_run [OF k(2) assms(1)] b0(2) have f: "uc_follows k (be_engine b0) uc"
    and executed: "bd_executed (uc_data uc) = of_nat k" by (simp_all add: uc_follows_def)
  from k(1) count(2) have unat: "unat (of_nat k :: u64) = k"
    by (simp add: unsigned_of_nat take_bit_nat_eq_self)
  have m: "ma_ticks (uc_machine uc) = be_ticks b" using f b0(1) by (simp add: uc_follows_def)
  have "advances (b0\<lparr>be_engine := uc\<rparr>) (finish_run e tick_deadline r (b0\<lparr>be_engine := uc\<rparr>))"
  proof (rule finish_run_advances [OF _ count(1)])
    show "may_spend tick_deadline limit (unat (be_ticks (b0\<lparr>be_engine := uc\<rparr>)) + count - 1)" using may m by simp
    show "unat (bd_executed (uc_data (be_engine (b0\<lparr>be_engine := uc\<rparr>)))) \<le> count" using executed unat k(1) by simp
    show "pending_ok (uc_data (be_engine (b0\<lparr>be_engine := uc\<rparr>)))" using f b0(3) by (simp add: uc_follows_def)
    note kept = notes_hook_run [OF k(2) assms(1)]
    show "notes_ok (uc_data (be_engine (b0\<lparr>be_engine := uc\<rparr>)))" using kept b0(4) by simp
    show "no_trap (uc_data (be_engine (b0\<lparr>be_engine := uc\<rparr>))) \<and> r \<noteq> Ok ()"
      if "bd_executed (uc_data (be_engine (b0\<lparr>be_engine := uc\<rparr>))) = 0"
      using that executed unat k(3) kept b0(5) by (auto simp: word_unat_eq_iff)
  qed
  then have run: "advances b (finish_run e tick_deadline r (b0\<lparr>be_engine := uc\<rparr>))"
    by (rule advances_from) (simp add: m)
  show ?thesis
  proof (cases exits)
    case (Inl error)
    then show ?thesis using set by (simp add: emulate_def Let_def del: if_split)
  next
    case (Inr x)
    then show ?thesis using set go run by (simp add: emulate_def Let_def b0_def del: if_split)
  qed
qed

lemma resume_deferred_advances:
  assumes "resume_deferred_exception e (Some deadline) b = Some (b', Some stop)" and "be_ticks b < deadline"
    and "time_left (be_ticks b) 1"
  shows "unat (be_ticks b) < unat (be_ticks b')"
proof -
  from assms(1,2) obtain kind pc m plan where
    m: "enter_exception kind pc (be_machine b) = Some (m, plan)"
    "enter_or_arg e plan kind (put_machine m (b\<lparr>be_deferred := None\<rparr>)) = Some (b', stop)"
    by (auto simp: resume_deferred_exception_def Let_def bind_eq_Some_conv split: option.splits if_splits)
  from enter_exception_returns [OF assms(3), of kind pc] m enter_or_arg_ticks [OF m(2)] show ?thesis by auto
qed

lemma run_advances:
  assumes "engine_runs e" "engine_steps e" and "0 < budget" and "be_ticks b < deadline"
    and "unat deadline + 2 ^ 32 \<le> 2 ^ 64" and "start \<noteq> until"
  shows "advances b (run_with_tick_deadline e start until budget (Some deadline) b)"
proof -
  have less: "unat (be_ticks b) < unat deadline" using assms(4) by (simp add: word_less_nat_alt)
  then have time: "time_left (be_ticks b) 1" using assms(5) by (simp add: time_left_def)
  have "unat (be_ticks b) < unat (be_ticks b') \<or> ends_service stop"
    if run: "run_with_tick_deadline e start until budget (Some deadline) b = Some (b', stop)" for b' stop
  proof -
    from run obtain b1 x where b1: "resume_deferred_exception e (Some deadline) b = Some (b1, x)"
      by (auto simp: run_with_tick_deadline_def bind_eq_Some_conv)
    show ?thesis
    proof (cases x)
      case (Some stop')
      with run b1 resume_deferred_advances [OF _ assms(4) time] show ?thesis
        by (auto simp: run_with_tick_deadline_def)
    next
      case None
      with b1 resume_deferred_stops [OF b1] have same: "b1 = b"
        by (cases "be_deferred b") (auto simp: resume_deferred_exception_def)
      have "\<not> deadline \<le> be_ticks b" using assms(4) by simp
      then have "Option.bind (deliver_irq e b) (\<lambda>(b, irq). case irq of Some stop \<Rightarrow> Some (b, stop) | None \<Rightarrow>
          emulate e start until (limited_budget (Some deadline) (be_ticks b) budget) (Some deadline) b) = Some (b', stop)"
        using run b1 None same by (simp add: run_with_tick_deadline_def)
      then obtain b2 y where b2: "deliver_irq e b = Some (b2, y)"
        and rest: "(case y of Some stop \<Rightarrow> Some (b2, stop) | None \<Rightarrow>
          emulate e start until (limited_budget (Some deadline) (be_ticks b2) budget) (Some deadline) b2) = Some (b', stop)"
        by (auto simp: bind_eq_Some_conv)
      show ?thesis
      proof (cases y)
        case (Some stop')
        with rest deliver_irq_advances [OF b2 _ time] show ?thesis by simp
      next
        case None
        with b2 have ticks: "be_ticks b2 = be_ticks b" using deliver_irq_None by blast
        define count where "count = limited_budget (Some deadline) (be_ticks b2) budget"
        have "count \<le> unat (deadline - be_ticks b)" by (simp add: count_def limited_budget_def ticks)
        moreover have "unat (deadline - be_ticks b) < 2 ^ 64" using unat_u64_lt [of "deadline - be_ticks b"] by simp
        ultimately have small: "count < 2 ^ 64" by simp
        have count: "0 < count" "may_spend (Some deadline) (unat deadline) (unat (be_ticks b2) + count - 1)"
          using assms(3-5) less ticks
          by (auto simp: count_def limited_budget_def may_spend_def usize_max_def word_less_nat_alt unat_sub unat_gt_0 word_nat)
        from emulate_advances [OF assms(1,2) count(2,1) small assms(6)] rest None ticks show ?thesis
          by (simp add: advances_def count_def)
      qed
    qed
  qed
  then show ?thesis by (simp add: advances_def)
qed


section \<open>The running service\<close>

text \<open>The emulator runs without a stop address, from an aligned entry.\<close>

definition free_running :: "'g emulator \<Rightarrow> bool" where
  "free_running em \<longleftrightarrow> em_end em = u32_max \<and> even (unat (em_entry em))"

lemma start_not_end:
  assumes "engine_steps e" and "free_running em"
  shows "(case program_counter e (em_backend em) of Inr pc \<Rightarrow> pc | Inl _ \<Rightarrow> em_entry em) \<noteq> em_end em"
proof -
  have odd: "odd (unat (u32_max :: u32))" by (simp add: u32_max_def)
  have "even (unat pc)" if "program_counter e (em_backend em) = Inr pc" for pc
  proof -
    from that obtain v where v: "eng_reg_read e (uc_state (be_engine (em_backend em))) PC = Ok v" "pc = ucast v"
      by (auto simp: program_counter_def get_register_def split: sum.splits)
    with assms(1) have "even (unat v)" by (simp add: engine_steps_def)
    then show ?thesis by (simp add: v(2) unsigned_ucast_eq even_take_bit_eq)
  qed
  with odd assms(2) show ?thesis by (auto simp: free_running_def split: sum.split)
qed

lemma batch_advances:
  assumes "engine_runs e" "engine_steps e" and "free_running em" and "0 < budget"
    and "em_ticks em < deadline" and "far_tick deadline"
    and "run_batch e budget (Some deadline) em = Some (em', result)"
  shows "\<exists>stop. result = Ok stop \<and> (em_ticks em < em_ticks em' \<or> ends_service stop)"
proof -
  define start where "start = (case program_counter e (em_backend em) of Inr pc \<Rightarrow> pc | Inl _ \<Rightarrow> em_entry em)"
  from assms(7) obtain b stop where run: "run_with_tick_deadline e start (em_end em) budget (Some deadline) (em_backend em) = Some (b, stop)"
    and res: "em' = em\<lparr>em_backend := b\<rparr>" "result = Ok stop"
    by (auto simp: run_batch_def run_until_tick_def start_def Let_def)
  have "start \<noteq> em_end em" unfolding start_def by (rule start_not_end [OF assms(2,3)])
  from run_advances [OF assms(1,2,4,5) _ this] run assms(6) res show ?thesis
    by (simp add: advances_def far_tick_def word_less_nat_alt)
qed

lemma publish_flushed_lifecycle [simp]: "sv_lifecycle (publish_flushed host lc why sv) = sv_lifecycle sv"
  by (simp add: publish_flushed_def flush_service_def case_prod_unfold Let_def)

lemma settle_batch_runs:
  assumes "settle_batch host due limit_reached (Ok stop) sv = (sv', True)" and "sv_lifecycle sv' = LcRunning"
  shows "\<not> ends_service stop" and "em_follows (sv_emulator sv) (sv_emulator sv')"
    and "em_ticks (sv_emulator sv') = em_ticks (sv_emulator sv)"
proof -
  have "\<not> (\<exists>x y. stop = StopBreakpoint x y)" using assms by (auto simp: settle_batch_def)
  moreover have "\<not> (\<exists>x. stop = StopUnicorn x)"
    using assms(1) by (auto simp: settle_batch_def split: prod.splits)
  ultimately show quiet: "\<not> ends_service stop" by (auto simp: ends_service_def split: backend_stop.splits)
  have "\<not> limit_reached"
    using assms quiet by (auto simp: settle_batch_def ends_service_def split: backend_stop.splits)
  with assms(1) quiet have "sv' = sv \<or> sv' = publish (sv_lifecycle sv) (Some (NoteStop stop)) None sv"
    by (auto simp: settle_batch_def ends_service_def split: backend_stop.splits if_splits)
  then show "em_follows (sv_emulator sv) (sv_emulator sv')"
      "em_ticks (sv_emulator sv') = em_ticks (sv_emulator sv)"
    by (auto simp: emulator_status_follows)
qed

lemma running_step_advances:
  assumes "engine_runs e" "engine_steps e" and "separate_files host paths" and ok: "data_ok host (Some deadline) paths sv"
    and "settled sv" and "sv_lifecycle sv = LcRunning" and "time_remains sv" and "free_running (sv_emulator sv)"
    and step: "running_step e host due sv = Some (sv', True)" and "sv_lifecycle sv' = LcRunning"
  shows "em_ticks (sv_emulator sv) < em_ticks (sv_emulator sv') \<and> same_setup (sv_emulator sv) (sv_emulator sv')"
  using assms(1,3) ok assms(5-7)
proof (cases rule: running_step_shape [where due = due])
  case (deadline sv1)
  with publish_flushed_keeps(2) [OF deadline(1) assms(3)] step assms(10) show ?thesis by auto
next
  case (batch sv3 stop)
  let ?now = "em_ticks (sv_emulator sv)"
  from batch(7) obtain em2 budget b where run: "em_follows (sv_emulator sv) em2" "em_ticks em2 = ?now" "0 < budget"
      "run_batch e budget (Some b) em2 = Some (sv_emulator sv3, Ok stop)" "?now < b" "far_tick b"
    by auto
  have "free_running em2" using run(1) assms(8) by (simp add: free_running_def em_follows_def same_setup_def)
  with batch_advances [OF assms(1,2) _ run(3) _ run(6,4)] run(2,5)
  have "?now < em_ticks (sv_emulator sv3) \<or> ends_service stop" by auto
  moreover have settle: "settle_batch host due (sv_remaining sv3 = Some 0) (Ok stop) sv3 = (sv', True)"
    using batch(6) step by simp
  moreover obtain b' where "em2\<lparr>em_backend := b'\<rparr> = sv_emulator sv3"
    using run(4) by (auto simp: run_batch_def run_until_tick_def Let_def)
  then have "same_setup (sv_emulator sv) (sv_emulator sv3)"
    using run(1) by (metis same_setup_refl(2) same_setup_trans em_follows_def)
  ultimately show ?thesis
    using settle_batch_runs [OF settle assms(10)] by (auto simp: em_follows_def intro: same_setup_trans)
qed


text \<open>An iteration in which nothing arrives from outside.\<close>

definition idle_input :: "iteration_input \<Rightarrow> bool" where
  "idle_input ii \<longleftrightarrow> ii_commands ii = [] \<and> \<not> ii_disconnected ii \<and> ii_wait ii = WaitTimeout"

lemma idle_iteration: "idle_input ii \<Longrightarrow> service_iteration e host ii sv = lifecycle_step e host ii sv"
  by (simp add: service_iteration_def idle_input_def)

lemma running_iteration:
  assumes reach: "service_reachable e host h config sv" and env: "service_env e host h config" and "engine_steps e"
    and deadline: "rc_execution_deadline config = Some deadline" and running: "sv_lifecycle sv = LcRunning"
    and free: "free_running (sv_emulator sv)" and time: "time_remains sv" and idle: "idle_input ii"
  obtains (ends) sv' where "service_iteration e host ii sv = Some (sv', False)"
      "data_ok host (Some deadline) (service_paths host h config) sv'" "ended host sv'"
  | (pauses) sv' where "service_iteration e host ii sv = Some (sv', True)"
      "service_reachable e host h config sv'" "sv_lifecycle sv' = LcPaused"
  | (runs) sv' where "service_iteration e host ii sv = Some (sv', True)"
      "service_reachable e host h config sv'" "sv_lifecycle sv' = LcRunning"
      "em_ticks (sv_emulator sv) < em_ticks (sv_emulator sv')" "same_setup (sv_emulator sv) (sv_emulator sv')"
proof -
  let ?paths = "service_paths host h config"
  from service_reachable_ok [OF reach env] have ok: "data_ok host (Some deadline) ?paths sv" "settled sv"
    by (simp_all add: deadline)
  have input: "input_ok ii" using idle by (simp add: idle_input_def input_ok_def)
  have same: "service_iteration e host ii sv = lifecycle_step e host ii sv" by (rule idle_iteration [OF idle])
  obtain sv' continue where step: "lifecycle_step e host ii sv = Some (sv', continue)"
      "data_ok host (Some deadline) ?paths sv'" "if continue then settled sv' else ended host sv'"
    using lifecycle_step_goes_on [OF env refl _ ok time input] deadline by (auto simp: goes_on_def)
  show thesis
  proof (cases continue)
    case False
    with step same ends show thesis by simp
  next
    case True
    with step have "lifecycle_step e host ii sv = Some (sv', True)" by simp
    note reach' = service_reachable.step [OF reach time input this]
    have "settled sv'" using step True by simp
    then consider "sv_lifecycle sv' = LcPaused" | "sv_lifecycle sv' = LcRunning" by (auto simp: settled_def)
    then show thesis
    proof cases
      case 1
      with step True same reach' pauses show thesis by simp
    next
      case 2
      have "running_step e host (ii_publish_due ii) sv = Some (sv', True)"
        using step(1) True running by (simp add: lifecycle_step_def)
      from running_step_advances [OF _ assms(3) _ ok running time free this 2] env step True same reach' runs 2
      show thesis by (simp add: service_env_def)
    qed
  qed
qed

lemma time_remains_same_setup:
  assumes "same_setup (sv_emulator sv) (sv_emulator sv')" and "em_ticks (sv_emulator sv') \<le> deadline"
    and "unat deadline + em_instruction_batch (sv_emulator sv) + 1 + 2 ^ 32 \<le> 2 ^ 64"
  shows "time_remains sv'" "free_running (sv_emulator sv) \<Longrightarrow> free_running (sv_emulator sv')"
  using assms by (simp_all add: time_remains_def free_running_def same_setup_def word_le_nat_alt)

end
