(* ===== verification/Cli_Runner.thy ===== *)
theory Cli_Runner
  imports Cli_Text Image_Builder Tui_Input Runtime_Progress
begin

text \<open>
  The command line behind its argument parser (\<open>main.rs\<close>, \<open>lib.rs\<close>, \<open>manifest.rs\<close> and \<open>runner.rs\<close> of
  \<open>minemu\<close>): packaging an image from a manifest, starting a runtime, the headless run with its RAM
  prefill and scheduled input, and the assertions of a headless test. The TOML parser is a parameter
  that gives an error or the manifest; the file system is the record \<open>host\<close>. Waiting for the service
  consumes iterations of it, whose outside inputs are a list.
\<close>

section \<open>Errors\<close>

datatype expected_cpu_mode =
    ModeUser | ModeFiq | ModeIrq | ModeSupervisor | ModeAbort | ModeUndefined | ModeSystem

datatype assertion_note =
    NoAssertions
  | MediaConflict
  | PrefillLength u32
  | PrefillOutside u32 u32
  | InputPort
  | RuntimeFailed "error_note option"
  | Uart0Text
  | Uart1Text
  | TicksShort
  | ExecutionLifecycle
  | ShutdownLifecycle
  | MmuState
  | CpuModeDiffers expected_cpu_mode "u32 option"
  | FaultStatusDiffers u32 "u32 option"
  | TraceDiffers "u32 list" "u32 list"
  | MediaUnattached u8
  | MediaOutOfRange u8 path u64 usize
  | MediaRegionOutOfRange u8 path u64 usize usize
  | MediaMismatch u8 path u64 "u8 list" "u8 list"
  | TerminatedFailed

datatype ('e, 't) cli_error =
    CliRead path io_error
  | CliWrite path io_error
  | CliTerminal io_error
  | CliLogFile path io_error
  | CliTracing string
  | CliManifest path 't
  | CliInvalidBootRomSize path usize usize
  | CliImage "'e image_error"
  | CliRuntimeSetup
  | CliRuntime runtime_error
  | CliAssertion assertion_note

section \<open>Paths and files\<close>

text \<open>\<open>Path::is_absolute\<close>, \<open>Path::join\<close> and \<open>Path::parent\<close> on a Unix host.\<close>

definition is_absolute :: "path \<Rightarrow> bool" where
  "is_absolute p \<longleftrightarrow> take 1 p = ''/''"

definition path_join :: "path \<Rightarrow> path \<Rightarrow> path" where
  "path_join root p =
     (if is_absolute p then p
      else if root = '''' \<or> last root = CHR ''/'' then root @ p
      else root @ ''/'' @ p)"

fun split_path :: "path \<Rightarrow> path \<Rightarrow> path list" where
  "split_path [] acc = [rev acc]"
| "split_path (c # cs) acc = (if c = CHR ''/'' then rev acc # split_path cs [] else split_path cs (c # acc))"

fun join_path :: "path list \<Rightarrow> path" where
  "join_path [] = ''''"
| "join_path [piece] = piece"
| "join_path (piece # pieces) = piece @ ''/'' @ join_path pieces"

text \<open>The pieces behind which a trailing part of a path is dropped: all but empty ones and a dot that does
  not open a relative path.\<close>

fun drop_trivial_end :: "bool \<Rightarrow> path list \<Rightarrow> path list" where
  "drop_trivial_end absolute [] = []"
| "drop_trivial_end absolute (piece # pieces) =
     (case drop_trivial_end True pieces of
        [] \<Rightarrow> if piece = '''' \<or> absolute \<and> piece = ''.'' then [] else [piece]
      | rest \<Rightarrow> piece # rest)"

definition path_parent :: "path \<Rightarrow> path option" where
  "path_parent p =
     (let absolute = is_absolute p;
          pieces = drop_trivial_end absolute (split_path (if absolute then drop 1 p else p) [])
      in if pieces = [] then None
         else Some ((if absolute then ''/'' else '''') @ join_path (drop_trivial_end absolute (butlast pieces))))"

definition resolve :: "path \<Rightarrow> path \<Rightarrow> path" where
  "resolve root p = (if is_absolute p then p else path_join root p)"

definition cli_read :: "'h host \<Rightarrow> 'h \<Rightarrow> path \<Rightarrow> ('e, 't) cli_error + u8 list" where
  "cli_read host h p = map_err (CliRead p) (ho_read host h p)"

text \<open>\<open>fs::read_to_string\<close>.\<close>

definition read_to_string :: "'h host \<Rightarrow> 'h \<Rightarrow> path \<Rightarrow> io_error + rust_string" where
  "read_to_string host h p =
     and_then (ho_read host h p) (\<lambda>bytes.
       if utf8_valid bytes then Ok (from_utf8_lossy bytes) else Err ''stream did not contain valid UTF-8'')"

section \<open>Packaging\<close>

record module_manifest =
  mm_name :: rust_string
  mm_elf :: path

record image_manifest =
  im_kernel :: path
  im_module_list :: "module_manifest list"

definition read_manifest ::
  "(rust_string \<Rightarrow> 't + 'm) \<Rightarrow> 'h host \<Rightarrow> 'h \<Rightarrow> path \<Rightarrow> ('e, 't) cli_error + 'm" where
  "read_manifest toml host h p =
     and_then (map_err (CliRead p) (read_to_string host h p)) (\<lambda>source.
       map_err (CliManifest p) (toml source))"

definition module_input_of :: "'h host \<Rightarrow> 'h \<Rightarrow> path \<Rightarrow> module_manifest \<Rightarrow> ('e, 't) cli_error + module_input" where
  "module_input_of host h root m =
     and_then (cli_read host h (resolve root (mm_elf m))) (\<lambda>elf.
       Ok \<lparr>mi_name = string_bytes (mm_name m), mi_elf = elf\<rparr>)"

definition package_manifest ::
  "(u8 list \<Rightarrow> 'e + 'e object_file) \<Rightarrow> (rust_string \<Rightarrow> 't + image_manifest) \<Rightarrow> 'h host \<Rightarrow> 'h \<Rightarrow> path
   \<Rightarrow> (('e, 't) cli_error + system_image) option" where
  "package_manifest object_parse toml host h p =
     prog_then (Some (read_manifest toml host h p)) (\<lambda>manifest.
     let root = (case path_parent p of Some parent \<Rightarrow> parent | None \<Rightarrow> ''.'') in
     prog_then (Some (cli_read host h (resolve root (im_kernel manifest)))) (\<lambda>kernel.
     prog_then (Some (collect_results (map (module_input_of host h root) (im_module_list manifest)))) (\<lambda>modules.
       map_option (map_err CliImage) (package object_parse kernel modules))))"

section \<open>Starting a runtime\<close>

record headless_input =
  hi_at_tick :: u64
  hi_uart :: u8
  hi_data :: rust_string

record ram_prefill =
  rf_address :: u32
  rf_length :: u32
  rf_value :: u8

record run_options =
  ro_image :: path
  ro_boot_rom :: path
  ro_block_media_path :: "path option"
  ro_block1_media_path :: "path option"
  ro_instruction_batch :: "usize option"
  ro_max_ticks :: u64
  ro_inputs :: "headless_input list"

datatype runtime_start = StartPaused | RunningUntil u64 "headless_input list"

definition input_port :: "u8 \<Rightarrow> ('e, 't) cli_error + uart_port" where
  "input_port value =
     (if value = 0 then Ok PortUart0 else if value = 1 then Ok PortUart1 else Err (CliAssertion InputPort))"

definition scheduled_input :: "headless_input \<Rightarrow> ('e, 't) cli_error + scheduled_uart_input" where
  "scheduled_input input =
     and_then (input_port (hi_uart input)) (\<lambda>port.
       Ok \<lparr>su_at_tick = hi_at_tick input, su_port = port, su_bytes = string_bytes (hi_data input)\<rparr>)"

fun prefill_ram :: "ram_prefill list \<Rightarrow> runtime_config \<Rightarrow> ('e, 't) cli_error + runtime_config" where
  "prefill_ram [] config = Ok config"
| "prefill_ram (fill # fills) config =
     (let address = PhysicalAddress (rf_address fill) in
      and_then (map_err (\<lambda>_. CliAssertion (PrefillLength (rf_address fill)))
        (physical_range_new address (rf_length fill))) (\<lambda>span.
      if \<not> contains_range (mem_range Ram) span
      then Err (CliAssertion (PrefillOutside (rf_address fill) (rf_length fill)))
      else prefill_ram fills
        (config\<lparr>rc_initial_ram_writes := rc_initial_ram_writes config
           @ [(address, replicate (unat (rf_length fill)) (rf_value fill))]\<rparr>)))"

definition runtime_config_for ::
  "u8 list \<Rightarrow> system_image \<Rightarrow> path option \<Rightarrow> path option \<Rightarrow> usize option \<Rightarrow> ram_prefill list \<Rightarrow> u64 option
   \<Rightarrow> headless_input list \<Rightarrow> ('e, 't) cli_error + runtime_config" where
  "runtime_config_for boot_rom img media0 media1 instruction_batch ram_prefill execution_deadline inputs =
     and_then (map_err (\<lambda>_. CliRuntimeSetup) (memory_with_roms boot_rom (si_bytes img))) (\<lambda>memory.
     let config = (runtime_config_new (machine_new memory 4096) BOOT_ROM_BASE)
           \<lparr>rc_block_media_path := media0, rc_block1_media_path := media1\<rparr>;
         config = (case instruction_batch of
             Some batch \<Rightarrow> config\<lparr>rc_instruction_batch := batch\<rparr> | None \<Rightarrow> config);
         config = config\<lparr>rc_execution_deadline := execution_deadline\<rparr> in
     and_then (collect_results (map scheduled_input inputs)) (\<lambda>scheduled.
       prefill_ram ram_prefill (config\<lparr>rc_scheduled_uart := scheduled\<rparr>)))"

definition start_runtime_with_prefill ::
  "'h host \<Rightarrow> 'h \<Rightarrow> path \<Rightarrow> path \<Rightarrow> path option \<Rightarrow> path option \<Rightarrow> usize option \<Rightarrow> ram_prefill list \<Rightarrow> runtime_start
   \<Rightarrow> (('e, 't) cli_error + runtime_config \<times> runtime_status \<times> uart_inbox) option" where
  "start_runtime_with_prefill host h image_path boot_rom_path media0 media1 instruction_batch ram_prefill start =
     prog_then (Some (cli_read host h image_path)) (\<lambda>bytes.
     prog_then (map_option (map_err CliImage) (system_image_parse bytes)) (\<lambda>img.
     prog_then (Some (cli_read host h boot_rom_path)) (\<lambda>boot_rom.
     if length boot_rom \<noteq> unat BOOT_ROM_SIZE
     then Some (Err (CliInvalidBootRomSize boot_rom_path (unat BOOT_ROM_SIZE) (length boot_rom)))
     else
       (let (execution_deadline, inputs, start_paused) = (case start of
              StartPaused \<Rightarrow> (None, [], True) | RunningUntil deadline inputs \<Rightarrow> (Some deadline, inputs, False)) in
        prog_then (Some (runtime_config_for boot_rom img media0 media1 instruction_batch ram_prefill
            execution_deadline inputs)) (\<lambda>config.
          Some (map_err CliRuntime (runtime_spawn host h (config\<lparr>rc_start_paused := start_paused\<rparr>))))))))"

definition start_runtime ::
  "'h host \<Rightarrow> 'h \<Rightarrow> path \<Rightarrow> path \<Rightarrow> path option \<Rightarrow> path option \<Rightarrow> usize option
   \<Rightarrow> (('e, 't) cli_error + runtime_config \<times> runtime_status \<times> uart_inbox) option" where
  "start_runtime host h image_path boot_rom_path media0 media1 instruction_batch =
     start_runtime_with_prefill host h image_path boot_rom_path media0 media1 instruction_batch [] StartPaused"

section \<open>The headless run\<close>

text \<open>
  The runner as a client of the service: the service, and whether its thread still runs. Each element of
  the list is what else happens to one iteration of the service while the runner sleeps and polls the
  published status; the value None is that the runner still waits when the list is used up.
\<close>

definition execution_over :: "lifecycle_state \<Rightarrow> bool" where
  "execution_over lifecycle \<longleftrightarrow> lifecycle = LcPaused \<or> lifecycle = LcStopped \<or> lifecycle = LcFailed"

fun await_execution ::
  "'g engine \<Rightarrow> 'h host \<Rightarrow> iteration_input list \<Rightarrow> ('g, 'h) service \<times> bool \<Rightarrow> (('g, 'h) service \<times> bool) option" where
  "await_execution e host [] (sv, alive) =
     (if execution_over (rs_lifecycle (sv_status sv)) then Some (sv, alive) else None)"
| "await_execution e host (ii # iis) (sv, alive) =
     (if execution_over (rs_lifecycle (sv_status sv)) then Some (sv, alive)
      else if \<not> alive then None
      else Option.bind (service_iteration e host ii sv) (await_execution e host iis))"

text \<open>\<open>RuntimeHandle::inspect\<close>, or \<open>request_inspection\<close> and \<open>recv\<close>: the paused service answers the command.\<close>

definition handle_inspect ::
  "'g engine \<Rightarrow> 'h host \<Rightarrow> runtime_inspection_request \<Rightarrow> ('g, 'h) service \<times> bool
   \<Rightarrow> ((('g, 'h) service \<times> bool) \<times> (runtime_error + runtime_inspection)) option" where
  "handle_inspect e host request = (\<lambda>(sv, alive).
     if \<not> alive then Some ((sv, alive), Err RuntimeStopped)
     else map_option (\<lambda>(sv, alive). ((sv, alive), snd (last (sv_responses sv))))
       (process_command e host (CmdInspect request (length (sv_responses sv))) sv))"

text \<open>\<open>RuntimeHandle::shutdown\<close> joins the thread; the status is read afterwards.\<close>

definition handle_shutdown ::
  "'g engine \<Rightarrow> 'h host \<Rightarrow> ('g, 'h) service \<times> bool \<Rightarrow> ('g, 'h) service option" where
  "handle_shutdown e host = (\<lambda>(sv, alive).
     if alive then map_option fst (process_command e host CmdShutdown sv) else Some sv)"

record run_result =
  rr_execution_status :: runtime_status
  rr_shutdown_status :: runtime_status
  rr_uart0_output :: "u8 list"
  rr_uart1_output :: "u8 list"
  rr_mmu :: "mmu_inspection option"
  rr_cpu_mode :: "u32 option"
  rr_events :: "observable_event list"

text \<open>\<open>let RuntimeInspection::X(x) = .. else { unreachable!() }\<close>: None where the answer has another form.\<close>

definition expect_answer ::
  "(runtime_inspection \<Rightarrow> 'a option) \<Rightarrow> (('s \<times> (runtime_error + runtime_inspection)) option)
   \<Rightarrow> ('s \<times> 'a \<Rightarrow> ('s \<times> (('e, 't) cli_error + 'b)) option) \<Rightarrow> ('s \<times> (('e, 't) cli_error + 'b)) option" where
  "expect_answer form answer f = Option.bind answer (\<lambda>(s, result).
     case result of
       Inl _ \<Rightarrow> Some (s, Err CliRuntimeSetup)
     | Inr inspection \<Rightarrow> Option.bind (form inspection) (\<lambda>v. f (s, v)))"

definition as_peripherals :: "runtime_inspection \<Rightarrow> peripherals_inspection option" where
  "as_peripherals i = (case i of InspectedPeripherals p \<Rightarrow> Some p | _ \<Rightarrow> None)"

definition as_mmu :: "runtime_inspection \<Rightarrow> mmu_inspection option" where
  "as_mmu i = (case i of InspectedMmu m \<Rightarrow> Some m | _ \<Rightarrow> None)"

definition as_events :: "runtime_inspection \<Rightarrow> observable_event list option" where
  "as_events i = (case i of InspectedEvents events \<Rightarrow> Some events | _ \<Rightarrow> None)"

definition as_execution :: "runtime_inspection \<Rightarrow> execution_inspection option" where
  "as_execution i = (case i of InspectedExecution execution \<Rightarrow> Some execution | _ \<Rightarrow> None)"

definition inspect_paused ::
  "'g engine \<Rightarrow> 'h host \<Rightarrow> ('g, 'h) service \<times> bool
   \<Rightarrow> ((('g, 'h) service \<times> bool) \<times> (('e, 't) cli_error + run_result)) option" where
  "inspect_paused e host s =
     (let status = sv_status (fst s) in
      expect_answer as_peripherals (handle_inspect e host (RequestMachine InspectPeripherals) s) (\<lambda>(s, peripherals).
      expect_answer as_mmu (handle_inspect e host (RequestMachine InspectMmu) s) (\<lambda>(s, mmu).
      expect_answer as_events (handle_inspect e host (RequestMachine InspectEvents) s) (\<lambda>(s, events).
      expect_answer as_execution (handle_inspect e host (RequestExecution None 0 4) s) (\<lambda>(s, execution).
        Some (s, Ok \<lparr>rr_execution_status = status, rr_shutdown_status = status,
          rr_uart0_output = ui_tx_history (pi_uart0 peripherals),
          rr_uart1_output = ui_tx_history (pi_uart1 peripherals),
          rr_mmu = Some mmu, rr_cpu_mode = Some (ei_cpsr execution AND 0x1f), rr_events = events\<rparr>))))))"

text \<open>
  After the wait: the observations of a paused service, the shutdown, the result. A failing observation
  drops the handle, which asks the service to shut down without waiting for it; the files are those of
  the moment of the error.
\<close>

definition collect_result ::
  "'g engine \<Rightarrow> 'h host \<Rightarrow> ('g, 'h) service \<times> bool \<Rightarrow> ('h \<times> (('e, 't) cli_error + run_result)) option" where
  "collect_result e host s =
     (let status = sv_status (fst s) in
      Option.bind
        (if rs_lifecycle status = LcPaused then inspect_paused e host s
         else Some (s, Ok \<lparr>rr_execution_status = status, rr_shutdown_status = status, rr_uart0_output = [],
            rr_uart1_output = [], rr_mmu = None, rr_cpu_mode = None, rr_events = []\<rparr>))
        (\<lambda>(s, observed). case observed of
           Inl error \<Rightarrow> Some (sv_host (fst s), Err error)
         | Inr result \<Rightarrow> map_option (\<lambda>sv. (sv_host sv, Ok (result\<lparr>rr_shutdown_status := sv_status sv\<rparr>)))
             (handle_shutdown e host s)))"

text \<open>
  A service that cannot start publishes its failure and ends. The runner's branch for a service that runs
  again after the wait is left out: only a command resumes a paused service, and nobody else has the handle.
\<close>

definition run_image_with_prefill ::
  "'g engine \<Rightarrow> 'h host \<Rightarrow> 'h \<Rightarrow> iteration_input list \<Rightarrow> run_options \<Rightarrow> ram_prefill list
   \<Rightarrow> ('h \<times> (('e, 't) cli_error + run_result)) option" where
  "run_image_with_prefill e host h iis options ram_prefill =
     Option.bind (start_runtime_with_prefill host h (ro_image options) (ro_boot_rom options)
         (ro_block_media_path options) (ro_block1_media_path options) (ro_instruction_batch options) ram_prefill
         (RunningUntil (ro_max_ticks options) (ro_inputs options))) (\<lambda>started.
     case started of
       Inl error \<Rightarrow> Some (h, Err error)
     | Inr (config, status, inbox) \<Rightarrow>
       (case service_start e host h config status inbox of
          Inl failed \<Rightarrow> Some (h, Ok \<lparr>rr_execution_status = failed, rr_shutdown_status = failed,
            rr_uart0_output = [], rr_uart1_output = [], rr_mmu = None, rr_cpu_mode = None, rr_events = []\<rparr>)
        | Inr sv \<Rightarrow> Option.bind (await_execution e host iis (sv, True)) (collect_result e host)))"

definition run_image ::
  "'g engine \<Rightarrow> 'h host \<Rightarrow> 'h \<Rightarrow> iteration_input list \<Rightarrow> run_options
   \<Rightarrow> ('h \<times> (('e, 't) cli_error + run_result)) option" where
  "run_image e host h iis options = run_image_with_prefill e host h iis options []"

section \<open>Headless tests\<close>

datatype expected_execution_lifecycle = ExpectPaused | ExpectStopped
datatype expected_shutdown_lifecycle = ExpectShutdownStopped

fun expected_mode_bits :: "expected_cpu_mode \<Rightarrow> u32" where
  "expected_mode_bits ModeUser = 0x10"
| "expected_mode_bits ModeFiq = 0x11"
| "expected_mode_bits ModeIrq = 0x12"
| "expected_mode_bits ModeSupervisor = 0x13"
| "expected_mode_bits ModeAbort = 0x17"
| "expected_mode_bits ModeUndefined = 0x1b"
| "expected_mode_bits ModeSystem = 0x1f"

record block_media_assertion =
  bm_unit :: u8
  bm_offset :: u64
  bm_bytes :: "u8 list"

record headless_assertion =
  ha_uart0_contains :: "rust_string option"
  ha_uart1_contains :: "rust_string option"
  ha_ticks_at_least :: "u64 option"
  ha_execution_lifecycle :: "expected_execution_lifecycle option"
  ha_shutdown_lifecycle :: "expected_shutdown_lifecycle option"
  ha_mmu_enabled :: "bool option"
  ha_cpu_mode :: "expected_cpu_mode option"
  ha_fault_status :: "u32 option"
  ha_trace_values :: "u32 list option"
  ha_block_media :: "block_media_assertion list"

record headless_test =
  ht_image :: path
  ht_boot_rom :: path
  ht_block_media :: "path option"
  ht_block0_media :: "path option"
  ht_block1_media :: "path option"
  ht_instruction_batch :: "usize option"
  ht_max_ticks :: u64
  ht_inputs :: "headless_input list"
  ht_ram_prefill :: "ram_prefill list"
  ht_assert :: headless_assertion

definition default_max_ticks :: u64 where
  "default_max_ticks = 100000"

text \<open>What the TOML parser applies to the unit of a block-media assertion.\<close>

definition deserialize_block_unit :: "u8 \<Rightarrow> string + u8" where
  "deserialize_block_unit u = (if u \<le> 1 then Ok u else Err ''block media unit must be 0 or 1'')"

definition has_expectations :: "headless_assertion \<Rightarrow> bool" where
  "has_expectations a \<longleftrightarrow>
     ha_uart0_contains a \<noteq> None \<or> ha_uart1_contains a \<noteq> None \<or> ha_ticks_at_least a \<noteq> None
     \<or> ha_execution_lifecycle a \<noteq> None \<or> ha_shutdown_lifecycle a \<noteq> None \<or> ha_mmu_enabled a \<noteq> None
     \<or> ha_cpu_mode a \<noteq> None \<or> ha_fault_status a \<noteq> None \<or> ha_trace_values a \<noteq> None \<or> ha_block_media a \<noteq> []"

definition resolve_block_media_paths ::
  "headless_test \<Rightarrow> path \<Rightarrow> ('e, 't) cli_error + path option \<times> path option" where
  "resolve_block_media_paths test root =
     (if ht_block_media test \<noteq> None \<and> ht_block0_media test \<noteq> None then Err (CliAssertion MediaConflict)
      else Ok (map_option (resolve root)
             (case ht_block0_media test of Some p \<Rightarrow> Some p | None \<Rightarrow> ht_block_media test),
           map_option (resolve root) (ht_block1_media test)))"

text \<open>One expectation: nothing to check, or a condition with its error.\<close>

definition expect :: "'a option \<Rightarrow> ('a \<Rightarrow> bool) \<Rightarrow> ('a \<Rightarrow> assertion_note) \<Rightarrow> ('e, 't) cli_error + unit" where
  "expect expectation met note = (case expectation of
     None \<Rightarrow> Ok () | Some expected \<Rightarrow> if met expected then Ok () else Err (CliAssertion (note expected)))"

definition trace_values :: "observable_event list \<Rightarrow> u32 list" where
  "trace_values events =
     List.map_filter (\<lambda>event. case event of ObsTrace t \<Rightarrow> Some (te_value t) | ObsException _ \<Rightarrow> None) events"

definition assert_result :: "run_result \<Rightarrow> headless_assertion \<Rightarrow> ('e, 't) cli_error + unit" where
  "assert_result r a =
     (let execution = rr_execution_status r; shutdown = rr_shutdown_status r in
      if rs_lifecycle execution = LcFailed \<or> rs_lifecycle shutdown = LcFailed
      then Err (CliAssertion (RuntimeFailed
        (case rs_last_error execution of Some error \<Rightarrow> Some error | None \<Rightarrow> rs_last_error shutdown)))
      else
        and_then (expect (ha_uart0_contains a) (contains_text (from_utf8_lossy (rr_uart0_output r))) (\<lambda>_. Uart0Text)) (\<lambda>_.
        and_then (expect (ha_uart1_contains a) (contains_text (from_utf8_lossy (rr_uart1_output r))) (\<lambda>_. Uart1Text)) (\<lambda>_.
        and_then (expect (ha_ticks_at_least a) (\<lambda>ticks. \<not> ms_ticks (rs_machine execution) < ticks) (\<lambda>_. TicksShort)) (\<lambda>_.
        and_then (expect (ha_execution_lifecycle a) (\<lambda>expected. (expected, rs_lifecycle execution)
            \<in> {(ExpectPaused, LcPaused), (ExpectStopped, LcStopped)}) (\<lambda>_. ExecutionLifecycle)) (\<lambda>_.
        and_then (expect (ha_shutdown_lifecycle a) (\<lambda>expected. (expected, rs_lifecycle shutdown)
            \<in> {(ExpectShutdownStopped, LcStopped)}) (\<lambda>_. ShutdownLifecycle)) (\<lambda>_.
        and_then (expect (ha_mmu_enabled a) (\<lambda>enabled. map_option insp_enabled (rr_mmu r) = Some enabled) (\<lambda>_. MmuState)) (\<lambda>_.
        and_then (expect (ha_cpu_mode a) (\<lambda>expected. rr_cpu_mode r = Some (expected_mode_bits expected))
            (\<lambda>expected. CpuModeDiffers expected (rr_cpu_mode r))) (\<lambda>_.
        let fault = map_option fs_raw (Option.bind (rr_mmu r) insp_last_fault_status) in
        and_then (expect (ha_fault_status a) (\<lambda>expected. fault = Some expected)
            (\<lambda>expected. FaultStatusDiffers expected fault)) (\<lambda>_.
          expect (ha_trace_values a) (\<lambda>values. trace_values (rr_events r) = values)
            (\<lambda>values. TraceDiffers values (trace_values (rr_events r))))))))))))"

fun assert_block_media_contents ::
  "u8 list \<Rightarrow> block_media_assertion list \<Rightarrow> path \<Rightarrow> ('e, 't) cli_error + unit" where
  "assert_block_media_contents media [] p = Ok ()"
| "assert_block_media_contents media (a # as) p =
     (let start = unat (bm_offset a); stop = start + length (bm_bytes a) in
      if stop > usize_max then Err (CliAssertion (MediaOutOfRange (bm_unit a) p (bm_offset a) (length media)))
      else case slice_get media start stop of
        None \<Rightarrow> Err (CliAssertion
          (MediaRegionOutOfRange (bm_unit a) p (bm_offset a) (length (bm_bytes a)) (length media)))
      | Some actual \<Rightarrow>
          if actual \<noteq> bm_bytes a
          then Err (CliAssertion (MediaMismatch (bm_unit a) p (bm_offset a) (bm_bytes a) actual))
          else assert_block_media_contents media as p)"

text \<open>Indexing the pair of paths with a unit above one would panic.\<close>

fun assert_block_media ::
  "'h host \<Rightarrow> 'h \<Rightarrow> path option \<times> path option \<Rightarrow> block_media_assertion list \<Rightarrow> (('e, 't) cli_error + unit) option" where
  "assert_block_media host h paths [] = Some (Ok ())"
| "assert_block_media host h paths (a # as) =
     (if unat (bm_unit a) \<ge> 2 then None
      else case (if bm_unit a = 0 then fst paths else snd paths) of
        None \<Rightarrow> Some (Err (CliAssertion (MediaUnattached (bm_unit a))))
      | Some p \<Rightarrow>
          prog_then (Some (cli_read host h p)) (\<lambda>media.
          prog_then (Some (assert_block_media_contents media [a] p)) (\<lambda>_.
            assert_block_media host h paths as)))"

definition run_headless ::
  "'g engine \<Rightarrow> (rust_string \<Rightarrow> 't + headless_test) \<Rightarrow> 'h host \<Rightarrow> 'h \<Rightarrow> iteration_input list \<Rightarrow> path
   \<Rightarrow> ('h \<times> (('e, 't) cli_error + run_result)) option" where
  "run_headless e toml host h iis p =
     (case read_manifest toml host h p of
       Inl error \<Rightarrow> Some (h, Err error)
     | Inr test \<Rightarrow>
       if \<not> has_expectations (ht_assert test) then Some (h, Err (CliAssertion NoAssertions))
       else
         (let root = (case path_parent p of Some parent \<Rightarrow> parent | None \<Rightarrow> ''.'') in
          case resolve_block_media_paths test root of
            Inl error \<Rightarrow> Some (h, Err error)
          | Inr (media0, media1) \<Rightarrow>
            Option.bind (run_image_with_prefill e host h iis
              \<lparr>ro_image = resolve root (ht_image test), ro_boot_rom = resolve root (ht_boot_rom test),
               ro_block_media_path = media0, ro_block1_media_path = media1,
               ro_instruction_batch = ht_instruction_batch test, ro_max_ticks = ht_max_ticks test,
               ro_inputs = ht_inputs test\<rparr> (ht_ram_prefill test)) (\<lambda>(h, result).
            map_option (\<lambda>checked. (h, checked))
              (prog_then (Some result) (\<lambda>result.
               prog_then (Some (assert_result result (ht_assert test))) (\<lambda>_.
               prog_then (assert_block_media host h (media0, media1) (ha_block_media (ht_assert test))) (\<lambda>_.
                 Some (Ok result))))))))"

section \<open>The commands\<close>

text \<open>The subcommands but for the interactive run; the output of a command is what it prints on its two
  streams.\<close>

datatype cli_command =
    ImageCommand path path
  | HeadlessCommand path path "path option" "path option" "path option" "u64 option"
  | TestCommand path

definition execute ::
  "'g engine \<Rightarrow> (u8 list \<Rightarrow> 'e + 'e object_file) \<Rightarrow> (rust_string \<Rightarrow> 't + image_manifest)
   \<Rightarrow> (rust_string \<Rightarrow> 't + headless_test) \<Rightarrow> 'h host \<Rightarrow> 'h \<Rightarrow> iteration_input list \<Rightarrow> cli_command
   \<Rightarrow> ('h \<times> (rust_string \<times> rust_string) \<times> (('e, 't) cli_error + unit)) option" where
  "execute e object_parse toml_image toml_test host h iis command = (case command of
     ImageCommand manifest output \<Rightarrow>
       map_option (\<lambda>packaged. case packaged of
           Inl error \<Rightarrow> (h, ([], []), Err error)
         | Inr img \<Rightarrow>
             (let (h, written) = ho_write host output (si_bytes img) h
              in (h, ([], []), map_err (CliWrite output) written)))
         (package_manifest object_parse toml_image host h manifest)
   | HeadlessCommand img boot_rom block_media block0_media block1_media ticks \<Rightarrow>
       (let media0 = (case block0_media of Some p \<Rightarrow> Some p | None \<Rightarrow> block_media) in
        map_option (\<lambda>(h, outcome). case outcome of
            Inl error \<Rightarrow> (h, ([], []), Err error)
          | Inr result \<Rightarrow>
              (h, (from_utf8_lossy (rr_uart0_output result), from_utf8_lossy (rr_uart1_output result)),
               if rs_lifecycle (rr_execution_status result) = LcFailed
                  \<or> rs_lifecycle (rr_shutdown_status result) = LcFailed
               then Err (CliAssertion TerminatedFailed) else Ok ()))
          (run_image e host h iis
            \<lparr>ro_image = img, ro_boot_rom = boot_rom, ro_block_media_path = media0,
             ro_block1_media_path = block1_media, ro_instruction_batch = None,
             ro_max_ticks = (case ticks of Some t \<Rightarrow> t | None \<Rightarrow> default_max_ticks), ro_inputs = []\<rparr>))
   | TestCommand manifest \<Rightarrow>
       map_option (\<lambda>(h, outcome). (h, ([], []), map_sum id (\<lambda>_. ()) outcome))
         (run_headless e toml_test host h iis manifest))"

end
