(* ===== verification/Cli_Properties.thy ===== *)
theory Cli_Properties
  imports Cli_Runner Runtime_Properties Image_Boot
begin

text \<open>
  What the command line guarantees: a headless run comes back, what a headless test accepts, and how
  packaging, RAM prefill and the text assertions fit the parts they use.
\<close>

section \<open>The headless run returns\<close>

lemma await_execution_returns:
  assumes env: "service_env e host h config" and steps: "engine_steps e"
    and deadline: "rc_execution_deadline config = Some deadline"
    and room: "unat deadline + batch + 1 + 2 ^ 32 \<le> 2 ^ 64" and idle: "\<forall>ii\<in>set iis. idle_input ii"
    and reach: "service_reachable e host h config sv"
    and sv: "sv_lifecycle sv = LcRunning \<Longrightarrow> free_running (sv_emulator sv)
        \<and> em_instruction_batch (sv_emulator sv) = batch \<and> unat deadline - unat (em_ticks (sv_emulator sv)) < length iis"
  shows "\<exists>sv' alive. await_execution e host iis (sv, True) = Some (sv', alive)
     \<and> data_ok host (Some deadline) (service_paths host h config) sv'
     \<and> (if alive then service_reachable e host h config sv' \<and> sv_lifecycle sv' = LcPaused else ended host sv')"
  using idle reach sv
proof (induction iis arbitrary: sv)
  case Nil
  from service_reachable_ok [OF Nil(2) env] have ok: "data_ok host (Some deadline) (service_paths host h config) sv" "settled sv"
    by (simp_all add: deadline)
  from Nil(3) ok(2) have "sv_lifecycle sv = LcPaused" by (auto simp: settled_def)
  with ok Nil(2) show ?case by (auto simp: settled_def execution_over_def)
next
  case (Cons ii iis)
  let ?paths = "service_paths host h config"
  from service_reachable_ok [OF Cons.prems(2) env] have ok: "data_ok host (Some deadline) ?paths sv" "settled sv"
    by (simp_all add: deadline)
  show ?case
  proof (cases "sv_lifecycle sv = LcRunning")
    case False
    with ok(2) have "sv_lifecycle sv = LcPaused" by (auto simp: settled_def)
    with ok Cons.prems(2) show ?thesis by (auto simp: settled_def execution_over_def)
  next
    case True
    then have not_over: "\<not> execution_over (rs_lifecycle (sv_status sv))"
      using ok(2) by (simp add: settled_def execution_over_def)
    from Cons.prems(3) [OF True] have free: "free_running (sv_emulator sv)"
      and batch: "em_instruction_batch (sv_emulator sv) = batch"
      and left: "unat deadline - unat (em_ticks (sv_emulator sv)) < Suc (length iis)" by auto
    have due: "em_ticks (sv_emulator sv') \<le> deadline" if "data_ok host (Some deadline) ?paths sv'" for sv'
      using that by (auto simp: data_ok_def timely_def)
    have time: "time_remains sv"
      by (rule time_remains_same_setup [OF same_setup_refl(1) due [OF ok(1)]]) (use room batch in simp)
    have "idle_input ii" using Cons.prems(1) by simp
    with Cons.prems(2) env steps deadline True free time show ?thesis
    proof (cases rule: running_iteration)
      case (ends sv')
      then have "execution_over (rs_lifecycle (sv_status sv'))" by (auto simp: ended_def execution_over_def)
      then have "await_execution e host iis (sv', False) = Some (sv', False)" by (cases iis) simp_all
      with ends not_over show ?thesis by (auto intro!: exI [of _ False])
    next
      case (pauses sv')
      from service_reachable_ok [OF pauses(2) env] have "settled sv'" "data_ok host (Some deadline) ?paths sv'"
        by (simp_all add: deadline)
      then have "execution_over (rs_lifecycle (sv_status sv'))"
        using pauses(3) by (simp add: settled_def execution_over_def)
      then have "await_execution e host iis (sv', True) = Some (sv', True)" by (cases iis) simp_all
      with pauses not_over \<open>data_ok host (Some deadline) ?paths sv'\<close> show ?thesis by (auto intro!: exI [of _ True])
    next
      case (runs sv')
      from service_reachable_ok [OF runs(2) env] have "data_ok host (Some deadline) ?paths sv'"
        by (simp add: deadline)
      then have le: "em_ticks (sv_emulator sv') \<le> deadline" by (rule due)
      then have "unat deadline - unat (em_ticks (sv_emulator sv')) < length iis"
        using runs(4) left by (simp add: word_less_nat_alt word_le_nat_alt)
      moreover have "free_running (sv_emulator sv')"
        by (rule time_remains_same_setup(2) [OF runs(5) le _ free]) (use room batch in simp)
      moreover have "em_instruction_batch (sv_emulator sv') = batch"
        using runs(5) batch by (simp add: same_setup_def)
      ultimately obtain sv'' alive where "await_execution e host iis (sv', True) = Some (sv'', alive)"
          "data_ok host (Some deadline) ?paths sv''"
          "if alive then service_reachable e host h config sv'' \<and> sv_lifecycle sv'' = LcPaused else ended host sv''"
        using Cons.IH [OF _ runs(2)] Cons.prems(1) by auto
      with runs(1) not_over show ?thesis by simp
    qed
  qed
qed


text \<open>The configuration of a run.\<close>

definition fill_ok :: "ram_prefill \<Rightarrow> bool" where
  "fill_ok fill \<longleftrightarrow> 0 < rf_length fill \<and> unat RAM_BASE \<le> unat (rf_address fill)
     \<and> unat (rf_address fill) + unat (rf_length fill) \<le> unat RAM_BASE + unat RAM_SIZE"

definition fill_write :: "ram_prefill \<Rightarrow> physical_address \<times> u8 list" where
  "fill_write fill = (PhysicalAddress (rf_address fill), replicate (unat (rf_length fill)) (rf_value fill))"

lemma prefill_ram_Ok:
  "prefill_ram fills config = Ok config' \<longleftrightarrow> (\<forall>fill\<in>set fills. fill_ok fill)
     \<and> config' = config\<lparr>rc_initial_ram_writes := rc_initial_ram_writes config @ map fill_write fills\<rparr>"
proof (induction fills arbitrary: config)
  case (Cons fill fills)
  show ?case
  proof (cases "fill_ok fill")
    case True
    then have "physical_range_new (PhysicalAddress (rf_address fill)) (rf_length fill)
        = Ok \<lparr>pr_start = PhysicalAddress (rf_address fill), pr_length = rf_length fill\<rparr>"
      by (auto simp: physical_range_new_Ok fill_ok_def mmap_consts)
    with True Cons show ?thesis
      by (simp add: contains_range_iff fill_ok_def fill_write_def from_known_valid_def mem_range.simps)
  next
    case False
    have "contains_range (mem_range Ram) r \<Longrightarrow> physical_range_new (PhysicalAddress (rf_address fill)) (rf_length fill) = Ok r
        \<Longrightarrow> fill_ok fill" for r
      by (auto simp: physical_range_new_Ok fill_ok_def contains_range_iff from_known_valid_def mem_range.simps word_neq_0_conv)
    with False show ?thesis by (auto simp: and_then_Ok map_err_Ok Let_def split: if_splits)
  qed
qed auto

lemma runtime_config_for_Ok:
  assumes "runtime_config_for boot_rom img media0 media1 batch fills deadline inputs = Ok config"
  obtains memory where "memory_with_roms boot_rom (si_bytes img) = Ok memory" "rc_machine config = machine_new memory 4096"
    "rc_entry config = BOOT_ROM_BASE" "rc_end config = u32_max" "rc_block_media_path config = media0"
    "rc_block1_media_path config = media1" "rc_instruction_batch config = (case batch of Some b \<Rightarrow> b | None \<Rightarrow> 1024)"
    "rc_execution_deadline config = deadline" "map su_at_tick (rc_scheduled_uart config) = map hi_at_tick inputs"
    "rc_initial_ram_writes config = map fill_write fills" "\<forall>fill\<in>set fills. fill_ok fill"
    "rc_start_paused config = False"
proof -
  have ticks: "map su_at_tick scheduled = map hi_at_tick inputs"
    if "collect_results (map scheduled_input inputs) = Ok scheduled" for scheduled
    using that
    by (induction inputs arbitrary: scheduled) (auto simp: and_then_Ok scheduled_input_def)
  from assms show thesis
    by (auto simp: runtime_config_for_def and_then_Ok map_err_Ok prefill_ram_Ok runtime_config_new_def Let_def ticks
        intro!: that split: option.splits)
qed

lemma emulator_new_setup:
  assumes "emulator_new e host h config = Ok em"
  shows "em_entry em = rc_entry config" "em_end em = rc_end config"
    "em_instruction_batch em = rc_instruction_batch config"
  using assms by (auto simp: emulator_new_def and_then_Ok Let_def case_prod_unfold)

lemma service_start_setup:
  assumes "service_start e host h config status inbox = Inr sv"
  shows "em_entry (sv_emulator sv) = rc_entry config" "em_end (sv_emulator sv) = rc_end config"
    "em_instruction_batch (sv_emulator sv) = rc_instruction_batch config"
proof -
  from assms obtain em sv0 lc where em: "emulator_new e host h config = Ok em" "sv = publish lc None None sv0" "sv_emulator sv0 = em"
    by (auto simp: service_start_def Let_def split: sum.splits)
  have "same_setup em (sv_emulator sv)"
    using emulator_status_follows [where em = em] em by (simp add: em_follows_def)
  with emulator_new_setup [OF em(1)] show "em_entry (sv_emulator sv) = rc_entry config"
      "em_end (sv_emulator sv) = rc_end config" "em_instruction_batch (sv_emulator sv) = rc_instruction_batch config"
    by (simp_all add: same_setup_def)
qed


text \<open>The observations: the paused service answers each request in the form that the runner expects.\<close>

definition observes ::
  "'h host \<Rightarrow> u64 option \<Rightarrow> path set \<Rightarrow> runtime_status
   \<Rightarrow> ((('g, 'h) service \<times> bool) \<times> (('e, 't) cli_error + run_result)) option \<Rightarrow> bool" where
  "observes host dl paths status answer \<longleftrightarrow>
     (\<exists>sv r. answer = Some ((sv, True), r) \<and> data_ok host dl paths sv
        \<and> (\<forall>result. r = Ok result \<longrightarrow> rr_execution_status result = status))"

lemma expect_answer_observes:
  assumes "engine_runs e" "engine_reads e" "data_ok host dl paths sv"
    and form: "\<And>em' inspection. emulator_inspect e request (sv_emulator sv) = Some (em', Ok inspection) \<Longrightarrow> form inspection \<noteq> None"
    and rest: "\<And>sv' v. data_ok host dl paths sv' \<Longrightarrow> observes host dl paths status (f ((sv', True), v))"
  shows "observes host dl paths status (expect_answer form (handle_inspect e host request (sv, True)) f)"
proof -
  obtain em x where em: "emulator_inspect e request (sv_emulator sv) = Some (em, x)"
      "em_follows (sv_emulator sv) em" "em_ticks em = em_ticks (sv_emulator sv)"
    using emulator_inspect_follows [OF assms(1,2)] by blast
  define sv' where "sv' = sv\<lparr>sv_emulator := em, sv_responses := sv_responses sv @ [(length (sv_responses sv), x)]\<rparr>"
  have ok: "data_ok host dl paths sv'"
    unfolding sv'_def by (rule data_ok_follows [OF assms(3)]) (use em in simp_all)
  have answer: "handle_inspect e host request (sv, True) = Some ((sv', True), x)"
    using em(1) by (simp add: handle_inspect_def process_command_def sv'_def)
  show ?thesis
  proof (cases x)
    case (Inl error)
    with answer ok show ?thesis by (simp add: expect_answer_def observes_def)
  next
    case (Inr inspection)
    with form em(1) obtain v where "form inspection = Some v" by blast
    with Inr answer rest [OF ok, of v] show ?thesis by (simp add: expect_answer_def)
  qed
qed

lemma inspect_forms:
  "emulator_inspect e (RequestMachine InspectPeripherals) em = Some (em', Ok i) \<Longrightarrow> as_peripherals i \<noteq> None"
  "emulator_inspect e (RequestMachine InspectMmu) em = Some (em', Ok i) \<Longrightarrow> as_mmu i \<noteq> None"
  "emulator_inspect e (RequestMachine InspectEvents) em = Some (em', Ok i) \<Longrightarrow> as_events i \<noteq> None"
  "emulator_inspect e (RequestExecution address before after) em = Some (em', Ok i) \<Longrightarrow> as_execution i \<noteq> None"
  by (auto simp: emulator_inspect_def machine_inspect_def inspect_backend_def and_then_Ok Let_def
      as_peripherals_def as_mmu_def as_events_def as_execution_def split: prod.splits)

lemma inspect_paused_observes:
  assumes e: "engine_runs e" "engine_reads e" and "data_ok host dl paths sv"
  shows "observes host dl paths (sv_status sv) (inspect_paused e host (sv, True))"
  unfolding inspect_paused_def Let_def fst_conv
  apply (rule expect_answer_observes [OF e assms(3)], erule inspect_forms)
  apply (simp only: prod.case, rule expect_answer_observes [OF e], assumption, erule inspect_forms)+
  apply (simp add: observes_def)
  done


text \<open>What a headless run relies on: the engine, the files, and room for virtual time behind its budget.\<close>

definition media_files :: "'h host \<Rightarrow> 'h \<Rightarrow> run_options \<Rightarrow> path set" where
  "media_files host h options = {p. \<exists>q. (ro_block_media_path options = Some q \<or> ro_block1_media_path options = Some q)
     \<and> ho_canonicalize host h q = Ok p}"

definition batch_size :: "run_options \<Rightarrow> nat" where
  "batch_size options = max (case ro_instruction_batch options of Some batch \<Rightarrow> batch | None \<Rightarrow> 1024) 1"

definition headless_env :: "'g engine \<Rightarrow> 'h host \<Rightarrow> 'h \<Rightarrow> run_options \<Rightarrow> bool" where
  "headless_env e host h options \<longleftrightarrow> engine_runs e \<and> engine_steps e \<and> engine_reads e \<and> small_files host
     \<and> separate_files host (media_files host h options)
     \<and> unat (ro_max_ticks options) + batch_size options + 1 + 2 ^ 32 \<le> 2 ^ 64
     \<and> (\<forall>input\<in>set (ro_inputs options). far_tick (hi_at_tick input))"

lemma separate_files_mono: "separate_files host paths \<Longrightarrow> paths' \<subseteq> paths \<Longrightarrow> separate_files host paths'"
  unfolding separate_files_def by (meson subsetD)

lemma service_paths_media:
  assumes "rc_block_media_path config = ro_block_media_path options"
    and "rc_block1_media_path config = ro_block1_media_path options"
  shows "service_paths host h config \<subseteq> media_files host h options"
proof
  fix p assume "p \<in> service_paths host h config"
  then obtain c where c: "canonicalize_block_media_paths host h config = Ok c"
    "rc_block_media_path c = Some p \<or> rc_block1_media_path c = Some p"
    by (auto simp: service_paths_def split: sum.splits)
  then obtain path0 path1 where "canonical_path host h UNIT_FILESYSTEM (rc_block_media_path config) = Ok path0"
      "canonical_path host h UNIT_SWAP (rc_block1_media_path config) = Ok path1" "path0 = Some p \<or> path1 = Some p"
    by (cases "canonical_path host h UNIT_FILESYSTEM (rc_block_media_path config)";
        cases "canonical_path host h UNIT_SWAP (rc_block1_media_path config)")
      (auto simp: canonicalize_block_media_paths_def split: option.splits if_splits)
  with assms show "p \<in> media_files host h options"
    by (auto simp: media_files_def canonical_path_def and_then_Ok map_err_Ok split: option.splits)
qed

lemma started_runtime:
  assumes "start_runtime_with_prefill host h image_path rom_path media0 media1 batch fills (RunningUntil deadline inputs)
      = Some (Ok (config', status, inbox) :: ('e, 't) cli_error + _)"
  obtains config boot_rom img where "runtime_spawn host h config = Ok (config', status, inbox)"
    "runtime_config_for boot_rom img media0 media1 batch fills (Some deadline) inputs = (Ok config :: ('e, 't) cli_error + _)"
proof -
  from assms obtain bytes boot_rom and img :: system_image and config :: runtime_config where
    "(runtime_config_for boot_rom img media0 media1 batch fills (Some deadline) inputs :: ('e, 't) cli_error + _) = Ok config"
    "runtime_spawn host h (config\<lparr>rc_start_paused := False\<rparr>) = Ok (config', status, inbox)"
    by (auto simp: start_runtime_with_prefill_def prog_then_Ok map_err_Ok split: option.splits sum.splits if_splits)
  moreover from this(1) have "config\<lparr>rc_start_paused := False\<rparr> = config"
    by (rule runtime_config_for_Ok) simp
  ultimately show thesis using that by simp
qed

lemma headless_run_env:
  assumes "headless_env e host h options"
    and "runtime_config_for boot_rom img (ro_block_media_path options) (ro_block1_media_path options)
      (ro_instruction_batch options) fills (Some (ro_max_ticks options)) (ro_inputs options) = Ok config"
  shows "service_env e host h config"
  using assms(2)
proof (rule runtime_config_for_Ok)
  fix memory
  assume c: "rc_machine config = machine_new memory 4096" "rc_block_media_path config = ro_block_media_path options"
    "rc_block1_media_path config = ro_block1_media_path options" "rc_execution_deadline config = Some (ro_max_ticks options)"
    "map su_at_tick (rc_scheduled_uart config) = map hi_at_tick (ro_inputs options)"
  have "\<forall>t\<in>set (map su_at_tick (rc_scheduled_uart config)). far_tick t"
    using assms(1) unfolding c(5) by (simp add: headless_env_def)
  moreover have "block_wf block_new"
    by (simp add: block_wf_def block_new_def media_addressable_def UNIT_COUNT_def media_unit_default_def)
  moreover have "separate_files host (service_paths host h config)"
    using assms(1) service_paths_media [OF c(2,3), of host h] by (auto simp: headless_env_def intro: separate_files_mono)
  ultimately show ?thesis
    using assms(1) by (simp add: service_env_def headless_env_def c(1,4) new_machine_block far_tick_def)
qed

lemma collect_result_returns:
  assumes e: "engine_runs e" "engine_reads e" "separate_files host paths" and ok: "data_ok host dl paths sv"
    and over: "if alive then settled sv \<and> sv_lifecycle sv = LcPaused else ended host sv"
  shows "\<exists>h r. collect_result e host (sv, alive) = Some (h, r :: ('e, 't) cli_error + run_result)
     \<and> (\<forall>result. r = Ok result \<longrightarrow> rs_lifecycle (rr_execution_status result) \<in> {LcPaused, LcStopped, LcFailed}
         \<and> rs_lifecycle (rr_shutdown_status result) \<in> {LcStopped, LcFailed})"
proof (cases alive)
  case True
  with over have paused: "rs_lifecycle (sv_status sv) = LcPaused" by (simp add: settled_def)
  have "observes host dl paths (sv_status sv)
      (inspect_paused e host (sv, True) :: (_ \<times> (('e, 't) cli_error + run_result)) option)"
    by (rule inspect_paused_observes [OF e(1,2) ok])
  then obtain sv' and r :: "('e, 't) cli_error + run_result" where look: "inspect_paused e host (sv, True) = Some ((sv', True), r)" "data_ok host dl paths sv'"
      "\<forall>result. r = Ok result \<longrightarrow> rr_execution_status result = sv_status sv"
    unfolding observes_def by blast
  have "ended host (stop_service host None sv')" using stop_service_ends [OF look(2) e(3)] by simp
  with True paused look show ?thesis
    by (cases r) (auto simp: collect_result_def handle_shutdown_def process_command_def ended_def)
next
  case False
  with over show ?thesis by (auto simp: collect_result_def handle_shutdown_def ended_def Let_def)
qed


lemma spawned_setup:
  assumes "runtime_spawn host h config = Ok (config', status, inbox)"
  shows "rc_entry config' = rc_entry config" "rc_end config' = rc_end config"
    "rc_instruction_batch config' = max (rc_instruction_batch config) 1"
proof -
  from assms obtain c m where c: "canonicalize_block_media_paths host h config = Ok c"
      "config' = c\<lparr>rc_machine := m, rc_instruction_batch := max (rc_instruction_batch c) 1\<rparr>"
    by (auto simp: runtime_spawn_def and_then_Ok Let_def case_prod_unfold)
  from canonicalize_keeps(2) [OF c(1)] c(2) show "rc_entry config' = rc_entry config" "rc_end config' = rc_end config"
      "rc_instruction_batch config' = max (rc_instruction_batch config) 1"
    by auto
qed

lemma start_runtime_returns:
  obtains r :: "('e, 't) cli_error + _" where
    "start_runtime_with_prefill host h image_path rom_path media0 media1 batch fills start = Some r"
proof -
  have "(start_runtime_with_prefill host h image_path rom_path media0 media1 batch fills start :: (('e, 't) cli_error + _) option) \<noteq> None"
    using system_image_parse_not_None [where 'e = 'e]
    by (auto simp: start_runtime_with_prefill_def prog_then_None split: prod.splits)
  with that show thesis by auto
qed

lemma headless_run_comes_back:
  assumes env: "headless_env e host h options" and idle: "\<forall>ii\<in>set iis. idle_input ii"
    and enough: "unat (ro_max_ticks options) < length iis"
  shows "\<exists>h' r. run_image_with_prefill e host h iis options fills = Some (h', r :: ('e, 't) cli_error + run_result)
     \<and> (\<forall>result. r = Ok result \<longrightarrow> rs_lifecycle (rr_execution_status result) \<in> {LcPaused, LcStopped, LcFailed}
         \<and> rs_lifecycle (rr_shutdown_status result) \<in> {LcStopped, LcFailed})"
proof -
  let ?start = "start_runtime_with_prefill host h (ro_image options) (ro_boot_rom options) (ro_block_media_path options)
     (ro_block1_media_path options) (ro_instruction_batch options) fills
     (RunningUntil (ro_max_ticks options) (ro_inputs options)) :: (('e, 't) cli_error + _) option"
  obtain r where start: "?start = Some r" by (rule start_runtime_returns)
  show ?thesis
  proof (cases r)
    case (Inl error)
    with start show ?thesis by (simp add: run_image_with_prefill_def)
  next
    case (Inr started)
    then obtain config' status inbox where r: "r = Ok (config', status, inbox)" by (cases started) auto
    with start have "?start = Some (Ok (config', status, inbox))" by simp
    then obtain config boot_rom img where spawn: "runtime_spawn host h config = Ok (config', status, inbox)"
      and config: "runtime_config_for boot_rom img (ro_block_media_path options) (ro_block1_media_path options)
        (ro_instruction_batch options) fills (Some (ro_max_ticks options)) (ro_inputs options) = (Ok config :: ('e, 't) cli_error + _)"
      by (rule started_runtime)
    have service: "service_env e host h config" by (rule headless_run_env [OF env config])
    show ?thesis
    proof (cases "service_start e host h config' status inbox")
      case (Inl failed)
      then have "rs_lifecycle failed = LcFailed"
        by (auto simp: service_start_def publish_status_def Let_def split: sum.splits)
      with Inl start r show ?thesis by (simp add: run_image_with_prefill_def)
    next
      case (Inr sv)
      from service_reachable.started [OF spawn Inr] have reach: "service_reachable e host h config sv" .
      note fields = service_start_setup [OF Inr, unfolded spawned_setup [OF spawn]]
      from config have deadline: "rc_execution_deadline config = Some (ro_max_ticks options)"
        by (rule runtime_config_for_Ok)
      from config have begins: "free_running (sv_emulator sv) \<and> em_instruction_batch (sv_emulator sv) = batch_size options
          \<and> unat (ro_max_ticks options) - unat (em_ticks (sv_emulator sv)) < length iis"
        by (rule runtime_config_for_Ok) (use fields enough in \<open>simp add: free_running_def BOOT_ROM_BASE_def batch_size_def\<close>)
      have room: "unat (ro_max_ticks options) + batch_size options + 1 + 2 ^ 32 \<le> 2 ^ 64"
        using env by (simp add: headless_env_def)
      obtain sv' alive where wait: "await_execution e host iis (sv, True) = Some (sv', alive)"
        and ok: "data_ok host (Some (ro_max_ticks options)) (service_paths host h config) sv'"
        and over: "if alive then service_reachable e host h config sv' \<and> sv_lifecycle sv' = LcPaused else ended host sv'"
        using await_execution_returns [OF service _ deadline room idle reach begins] env by (auto simp: headless_env_def)
      have "if alive then settled sv' \<and> sv_lifecycle sv' = LcPaused else ended host sv'"
        using over service_reachable_ok [OF _ service] by (auto split: if_splits)
      from collect_result_returns [OF _ _ _ ok this, where e = e] service wait start r Inr
      show ?thesis by (simp add: run_image_with_prefill_def service_env_def)
    qed
  qed
qed


section \<open>Starting a runtime\<close>

lemma valid_image_fits:
  assumes "valid_system_image bytes img"
  shows "length bytes \<le> unat SYSTEM_ROM_SIZE" and "si_bytes img = bytes"
proof -
  from assms have h: "image_header_validate (si_header img) = Ok ()" "length bytes = unat (ih_image_size (si_header img))"
    "si_bytes img = bytes"
    by (auto simp: valid_system_image_def Let_def image_header_decode_Ok)
  from h(1) have "ih_image_size (si_header img) \<le> mem_size SystemRom"
    by (auto simp: image_header_validate_def and_then_Ok split: if_splits)
  with h show "length bytes \<le> unat SYSTEM_ROM_SIZE" "si_bytes img = bytes"
    by (simp_all add: mem_size_def mem_range.simps from_known_valid_def word_le_nat_alt)
qed

definition start_inputs :: "runtime_start \<Rightarrow> headless_input list" where
  "start_inputs start = (case start of StartPaused \<Rightarrow> [] | RunningUntil deadline inputs \<Rightarrow> inputs)"

lemma scheduled_inputs_Ok:
  "(\<exists>scheduled. collect_results (map scheduled_input inputs) = (Ok scheduled :: ('e, 't) cli_error + _))
     \<longleftrightarrow> list_all (\<lambda>input. hi_uart input \<le> 1) inputs"
proof (induction inputs)
  case (Cons input inputs)
  have "(\<exists>v. (scheduled_input input :: ('e, 't) cli_error + _) = Ok v) \<longleftrightarrow> hi_uart input \<le> 1"
    by (auto simp: scheduled_input_def and_then_Ok input_port_def word_le_nat_alt word_unat_eq_iff)
  with Cons show ?case by (auto simp: and_then_Ok)
qed simp

lemma runtime_config_for_exists:
  assumes "memory_with_roms boot_rom (si_bytes img) = Ok memory" and "\<forall>fill\<in>set fills. fill_ok fill"
    and "list_all (\<lambda>input. hi_uart input \<le> 1) inputs"
  obtains config where
    "runtime_config_for boot_rom img media0 media1 batch fills deadline inputs = (Ok config :: ('e, 't) cli_error + _)"
proof -
  obtain scheduled where "collect_results (map scheduled_input inputs) = (Ok scheduled :: ('e, 't) cli_error + _)"
    using assms(3) scheduled_inputs_Ok by blast
  then have "\<exists>config. runtime_config_for boot_rom img media0 media1 batch fills deadline inputs
      = (Ok config :: ('e, 't) cli_error + _)"
    using assms(1,2) by (simp add: runtime_config_for_def Let_def prefill_ram_Ok)
  with that show thesis by blast
qed

lemma spawn_without_media:
  assumes "rc_block_media_path config = None" and "rc_block1_media_path config = None"
  obtains config' status inbox where "runtime_spawn host h config = Ok (config', status, inbox)"
    "rs_lifecycle status = LcStarting" "ma_memory (rc_machine config') = ma_memory (rc_machine config)"
    "rc_start_paused config' = rc_start_paused config" "rc_entry config' = rc_entry config"
proof -
  have "config\<lparr>rc_block_media_path := None, rc_block1_media_path := None\<rparr> = config"
    using assms by (cases config) simp
  then have "canonicalize_block_media_paths host h config = Ok config"
    using assms by (simp add: canonicalize_block_media_paths_def canonical_path_def)
  moreover obtain m view where status: "machine_status (rc_machine config) = (m, view)" by fastforce
  ultimately have spawn: "runtime_spawn host h config = Ok (config\<lparr>rc_machine := m,
        rc_instruction_batch := max (rc_instruction_batch config) 1\<rparr>,
      \<lparr>rs_lifecycle = LcStarting, rs_machine = view, rs_last_stop = None, rs_last_error = None\<rparr>,
      uart_inbox_new (rc_uart_capacity config))"
    by (simp add: runtime_spawn_def)
  have "ma_memory m = ma_memory (rc_machine config)"
    using status by (auto simp: machine_status_def case_prod_unfold Let_def)
  with that [OF spawn] show thesis by simp
qed

lemma start_runtime_Ok:
  assumes "valid_system_image bytes img" and "ho_read host h image_path = Ok bytes"
    and "ho_read host h rom_path = Ok boot_rom" and "length boot_rom = unat BOOT_ROM_SIZE"
    and "\<forall>fill\<in>set fills. fill_ok fill" and "list_all (\<lambda>input. hi_uart input \<le> 1) (start_inputs start)"
  obtains config status inbox where
    "start_runtime_with_prefill host h image_path rom_path None None batch fills start
       = Some (Ok (config, status, inbox) :: ('e, 't) cli_error + _)"
    "rs_lifecycle status = LcStarting" "rc_start_paused config \<longleftrightarrow> start = StartPaused" "rc_entry config = BOOT_ROM_BASE"
    "memory_with_roms boot_rom bytes = Ok (ma_memory (rc_machine config))"
proof -
  define deadline where "deadline = (case start of StartPaused \<Rightarrow> None | RunningUntil deadline inputs \<Rightarrow> Some deadline)"
  have image: "(system_image_parse bytes :: ('e image_error + system_image) option) = Some (Ok img)"
    using assms(1) by (simp add: system_image_parse_Ok)
  note bytes = valid_image_fits [OF assms(1)]
  obtain memory where memory: "memory_with_roms boot_rom bytes = Ok memory"
    using assms(4) bytes(1) by (simp add: memory_with_roms_def mem_size_def mem_range.simps from_known_valid_def)
  then obtain config where config: "runtime_config_for boot_rom img None None batch fills deadline (start_inputs start)
      = (Ok config :: ('e, 't) cli_error + _)"
    using runtime_config_for_exists assms(5,6) bytes(2) by metis
  then have fields: "rc_block_media_path config = None" "rc_block1_media_path config = None"
      "rc_entry config = BOOT_ROM_BASE" "ma_memory (rc_machine config) = memory"
    using memory bytes(2) by (auto elim!: runtime_config_for_Ok simp: machine_new_def)
  define config1 where "config1 = config\<lparr>rc_start_paused := (start = StartPaused)\<rparr>"
  have "rc_block_media_path config1 = None" "rc_block1_media_path config1 = None"
    using fields by (simp_all add: config1_def)
  then obtain config' status inbox where spawn: "runtime_spawn host h config1 = Ok (config', status, inbox)"
      "rs_lifecycle status = LcStarting" "ma_memory (rc_machine config') = ma_memory (rc_machine config1)"
      "rc_start_paused config' = rc_start_paused config1" "rc_entry config' = rc_entry config1"
    by (rule spawn_without_media)
  have started: "start_runtime_with_prefill host h image_path rom_path None None batch fills start
       = Some (Ok (config', status, inbox) :: ('e, 't) cli_error + _)"
    using assms(2-4) image config spawn(1)
    by (cases start) (simp_all add: start_runtime_with_prefill_def cli_read_def deadline_def start_inputs_def config1_def)
  with that [OF started] spawn fields memory show thesis by (simp add: config1_def)
qed


section \<open>A sample image, packaged\<close>

text \<open>An object file with a text and a bss segment; packaging it gives the sample image.\<close>

definition sample_object :: "unit object_file" where
  "sample_object = \<lparr>of_is_elf = True, of_is_arm = True, of_is_executable = True, of_is_little_endian = True,
     of_section_relocations = False, of_dynamic_relocations = False,
     of_segments =
       [\<lparr>os_address = 0xc0008000, os_size = 16, os_data = Ok [0xfe, 0xff, 0xff, 0xea], os_readable = True,
         os_writable = False, os_executable = True\<rparr>,
        \<lparr>os_address = 0xc0009000, os_size = 4096, os_data = Ok [], os_readable = True,
         os_writable = True, os_executable = False\<rparr>],
     of_entry = 0xc0008000\<rparr>"

definition sample_elf_segments :: "elf_segment list" where
  "sample_elf_segments =
     [\<lparr>es_address = 0xc0008000, es_bytes = [0xfe, 0xff, 0xff, 0xea], es_memory_size = 16, es_flags = 5\<rparr>,
      \<lparr>es_address = 0xc0009000, es_bytes = [], es_memory_size = 4096, es_flags = 3\<rparr>]"

lemma sample_parse: "parse_elf (\<lambda>_. Ok sample_object) elf = Ok (0xc0008000, sample_elf_segments)"
  by (simp add: parse_elf_def sample_object_def u32_try_from_u64_def elf_flags_def u32_max_def sample_elf_segments_def)

definition sample_records :: "(kernel_segment \<times> u8 list) list" where
  "sample_records = [(sample_text_segment 0, [0xfe, 0xff, 0xff, 0xea]), (sample_bss_segment 0, [])]"

lemma sample_pack: "pack_kernel_segments sample_elf_segments = Ok sample_records"
  using sample_segments_valid [of 0]
  by (simp add: sample_elf_segments_def sample_records_def sample_text_segment_def sample_bss_segment_def
     contains_address_iff range_set_def mem_range.simps from_known_valid_def mmap_consts direct_map_physical_def u32_try_from_usize_def
     Let_def)

lemma sample_build:
  "build_image (VirtualAddress 0xc0008000) sample_records [] = (Some (Ok (sample_image 0)) :: (unit image_error + _) option)"
proof -
  let ?h = "concat (image_header_fields sample_header)"
  let ?t = "concat (kernel_segment_fields (sample_text_segment 128))"
  let ?b = "concat (kernel_segment_fields (sample_bss_segment 0))"
  have len: "length ?h = 64" "length ?t = 32" "length ?b = 32"
    by (rule length_image_header_fields length_kernel_segment_fields)+
  have enc: "image_header_encode sample_header = Ok ?h"
      "kernel_segment_encode (sample_text_segment 128) = Ok ?t" "kernel_segment_encode (sample_bss_segment 0) = Ok ?b"
    using sample_header_valid sample_segments_valid by (simp_all add: image_header_encode_Ok kernel_segment_encode_Ok)
  have parse: "(system_image_parse (sample_bytes 0) :: (unit image_error + system_image) option) = Some (Ok (sample_image 0))"
    using sample_image_valid by (simp add: system_image_parse_Ok)
  have "slice_put (slice_put (slice_put (slice_put (replicate 132 0) 0 H) 64 T) 128 X) 96 B = H @ T @ B @ X"
    if "length H = 64" "length T = 32" "length B = 32" "length X = 4" for H T B X :: "u8 list"
    using that by (simp add: slice_put_def)
  from this [OF len, of "[0xfe, 0xff, 0xff, 0xea]"]
  have put: "slice_put (slice_put (slice_put (slice_put (replicate 132 0) 0 ?h) 64 ?t) 128 [0xfe, 0xff, 0xff, 0xea]) 96 ?b
      = sample_bytes 0"
    by (simp add: sample_bytes_def del: concat.simps)
  show ?thesis
    using enc parse put
    by (simp add: build_image_def sample_records_def image_consts align4_def image_checked_add_def checked_add_usize_def usize_max_def size32_def u32_try_from_usize_def
     mem_size_def mem_range.simps from_known_valid_def mmap_consts sample_text_segment_def sample_bss_segment_def Let_def range_or_panic_def
     sample_header_def copy_data_def)
qed

lemma sample_package:
  "package (\<lambda>_. Ok sample_object) elf [] = Some (Ok (sample_image 0))"
proof -
  have "validate_kernel_segments sample_records (VirtualAddress 0xc0008000) = (Ok () :: unit image_error + unit)"
    using sample_segments_valid
    by (simp add: validate_kernel_segments_def validate_kernel_records_layout kernel_layout_def span_def sample_records_def)
      (simp add: sample_text_segment_def sample_bss_segment_def EXECUTABLE_def)
  moreover have "sort_key (\<lambda>(s, _). va_get (ks_virtual_address s)) sample_records = sample_records"
    by (simp add: sample_records_def sample_text_segment_def sample_bss_segment_def)
  ultimately show ?thesis
    by (simp add: package_def image_builder_build_def image_builder_new_def sample_parse sample_pack sample_build)
qed


definition sample_disk :: "path \<Rightarrow> u8 list option" where
  "sample_disk = [''image'' \<mapsto> sample_bytes 0, ''rom'' \<mapsto> replicate 65536 0]"

lemma sample_disk_reads:
  "ho_read sample_host sample_disk ''image'' = Ok (sample_bytes 0)"
  "ho_read sample_host sample_disk ''rom'' = Ok (replicate 65536 0)"
proof -
  have "length (sample_bytes 0) = 132"
    by (simp add: sample_bytes_def image_header_fields_def kernel_segment_fields_def)
  then show "ho_read sample_host sample_disk ''image'' = Ok (sample_bytes 0)"
      "ho_read sample_host sample_disk ''rom'' = Ok (replicate 65536 0)"
    by (simp_all add: sample_host_def sample_disk_def)
qed

section \<open>Properties\<close>

text \<open>
  C10. A headless run comes back. With an engine that executes an instruction whenever it is started and files
  that behave, whatever image, boot ROM, media and input are given, the runner does not wait forever: once the
  service has gone round more often than the tick budget, the run has an error or a result, whose execution
  snapshot is paused, stopped or failed and whose shutdown snapshot is stopped or failed. No answer of an
  inspection has a form that the runner takes for unreachable.
\<close>

theorem headless_run_returns:
  assumes "headless_env e host h options" and "\<forall>ii\<in>set iis. idle_input ii"
    and "unat (ro_max_ticks options) < length iis"
  shows "\<exists>h' r. run_image_with_prefill e host h iis options fills = Some (h', r :: ('e, 't) cli_error + run_result)
     \<and> (\<forall>result. r = Ok result \<longrightarrow> rs_lifecycle (rr_execution_status result) \<in> {LcPaused, LcStopped, LcFailed}
         \<and> rs_lifecycle (rr_shutdown_status result) \<in> {LcStopped, LcFailed})"
  by (rule headless_run_comes_back [OF assms])

definition sample_options :: run_options where
  "sample_options = \<lparr>ro_image = ''image'', ro_boot_rom = ''rom'', ro_block_media_path = None,
     ro_block1_media_path = None, ro_instruction_batch = None, ro_max_ticks = 5, ro_inputs = []\<rparr>"

lemma even_double: "even (unat (2 * x :: u64))"
proof -
  have "unat (2 * x) = (2 * unat x) mod 2 ^ 64" by (simp add: unat_word_ariths)
  then show ?thesis by (simp add: dvd_mod)
qed

lemma sample_engine_steps: "engine_steps sample_engine"
proof -
  have "hook_run hooks 1 uc (run_code_hooks hooks a n uc)" for hooks :: "(arm_register \<Rightarrow> u64) hooks" and a n uc
    using run_code [OF run_refl, of hooks] by fastforce
  then show ?thesis
    by (auto simp: engine_steps_def sample_engine_def even_double intro!: exI [of _ 1])
qed

lemma sample_headless_env: "headless_env sample_engine sample_host h sample_options"
  by (simp add: headless_env_def sample_engine_runs sample_engine_steps sample_engine_reads sample_host_small
      sample_host_separate sample_options_def batch_size_def)

theorem headless_run_returns_witness:
  "\<exists>started h' r. start_runtime_with_prefill sample_host sample_disk ''image'' ''rom'' None None None [] (RunningUntil 5 [])
       = Some (Ok started :: (unit, unit) cli_error + _)
     \<and> run_image_with_prefill sample_engine sample_host sample_disk (replicate 6 (quiet_input False)) sample_options []
       = Some (h', r :: (unit, unit) cli_error + run_result)"
proof -
  have rom: "length (replicate 65536 (0 :: u8)) = unat BOOT_ROM_SIZE" by (simp add: BOOT_ROM_SIZE_def)
  obtain config status inbox where
    "start_runtime_with_prefill sample_host sample_disk ''image'' ''rom'' None None None [] (RunningUntil 5 [])
       = Some (Ok (config, status, inbox) :: (unit, unit) cli_error + _)"
    by (rule start_runtime_Ok [OF sample_image_valid [of 0] sample_disk_reads rom]) (auto simp: start_inputs_def)
  moreover have "\<forall>ii\<in>set (replicate 6 (quiet_input False)). idle_input ii"
    by (simp add: idle_input_def quiet_input_def)
  then obtain h' and r :: "(unit, unit) cli_error + run_result" where
    "run_image_with_prefill sample_engine sample_host sample_disk (replicate 6 (quiet_input False)) sample_options []
       = Some (h', r)"
    using headless_run_returns [OF sample_headless_env, of "replicate 6 (quiet_input False)" sample_disk "[]"]
    by (force simp: sample_options_def)
  ultimately show ?thesis by blast
qed


lemma roms_hold:
  assumes "memory_with_roms boot_rom system_rom = Ok m"
  shows "holds (mem_byte m) (unat BOOT_ROM_BASE) boot_rom" and "holds (mem_byte m) (unat SYSTEM_ROM_BASE) system_rom"
  using assms
  by (auto simp: memory_with_roms_def holds_def mem_byte_def memory_empty_def array_put_def mem_layout mmap_consts split: if_splits)

text \<open>
  C16. What the packager writes, the runtime starts: from every image that packaging gives, with a boot ROM of
  the right size, a runtime starts, paused at the reset vector, and the guest's memory holds the boot ROM and the
  packaged bytes at their bases. The image is not refused and does not overflow the system ROM.
\<close>

theorem packaged_image_starts:
  assumes "package object_parse kernel_elf modules = Some (Ok img)"
    and "ho_read host h image_path = Ok (si_bytes img)" and "ho_read host h rom_path = Ok boot_rom"
    and "length boot_rom = unat BOOT_ROM_SIZE"
  shows "\<exists>config status inbox. start_runtime host h image_path rom_path None None batch
       = Some (Ok (config, status, inbox) :: ('e, 't) cli_error + _)
     \<and> rs_lifecycle status = LcStarting \<and> rc_start_paused config \<and> rc_entry config = BOOT_ROM_BASE
     \<and> holds (mem_byte (ma_memory (rc_machine config))) (unat BOOT_ROM_BASE) boot_rom
     \<and> holds (mem_byte (ma_memory (rc_machine config))) (unat SYSTEM_ROM_BASE) (si_bytes img)"
proof -
  have "valid_system_image (si_bytes img) img"
    using package_valid_or_error [of object_parse kernel_elf modules] assms(1) by simp
  then obtain config status inbox where
    started: "start_runtime_with_prefill host h image_path rom_path None None batch [] StartPaused
       = Some (Ok (config, status, inbox) :: ('e, 't) cli_error + _)"
    "rs_lifecycle status = LcStarting" "rc_start_paused config"
    "rc_entry config = BOOT_ROM_BASE" "memory_with_roms boot_rom (si_bytes img) = Ok (ma_memory (rc_machine config))"
    by (rule start_runtime_Ok [where fills = "[]" and start = StartPaused and batch = batch, OF _ assms(2-4)])
      (auto simp: start_inputs_def)
  with roms_hold [OF started(5)] show ?thesis by (simp add: start_runtime_def)
qed

theorem packaged_image_starts_witness:
  "\<exists>config status inbox. start_runtime sample_host sample_disk ''image'' ''rom'' None None None
       = Some (Ok (config, status, inbox) :: (unit, unit) cli_error + _)
     \<and> holds (mem_byte (ma_memory (rc_machine config))) 0x08000000 (si_bytes (sample_image 0))"
proof -
  have reads: "ho_read sample_host sample_disk ''image'' = Ok (si_bytes (sample_image 0))"
      "length (replicate 65536 (0 :: u8)) = unat BOOT_ROM_SIZE"
    using sample_disk_reads(1) by (simp_all add: sample_image_def BOOT_ROM_SIZE_def)
  show ?thesis
    using packaged_image_starts [OF sample_package [of "[]"] reads(1) sample_disk_reads(2) reads(2), where batch = None
        and 'e = unit and 't = unit]
    by (auto simp: mmap_consts)
qed


section \<open>RAM prefill\<close>

definition covers :: "nat \<Rightarrow> ram_prefill \<Rightarrow> bool" where
  "covers n fill \<longleftrightarrow> unat (rf_address fill) \<le> n \<and> n < unat (rf_address fill) + unat (rf_length fill)"

lemma apply_fills:
  assumes "\<forall>fill\<in>set fills. fill_ok fill"
  shows "\<exists>m'. apply_ram_writes (map fill_write fills) m = Ok m'
     \<and> (\<forall>n. mem_byte (ma_memory m') n = (case List.find (covers n) (rev fills) of
          Some fill \<Rightarrow> Some (rf_value fill) | None \<Rightarrow> mem_byte (ma_memory m) n))"
  using assms
proof (induction fills arbitrary: m)
  case (Cons fill fills)
  let ?address = "PhysicalAddress (rf_address fill)" and ?bytes = "replicate (unat (rf_length fill)) (rf_value fill)"
  have fill: "fill_ok fill" using Cons.prems by simp
  then have "region_of ?address = Some Ram" "unat (pa_get ?address) + length ?bytes \<le> 0x44000000"
    by (auto simp: fill_ok_def region_of_Some_bounds mem_layout mmap_consts word_less_nat_alt)
  then obtain memory where stored: "mem_write_range (ma_memory m) ?address ?bytes = Ok memory"
    using mem_write_range_Ok by blast
  have byte: "mem_byte memory n = (if covers n fill then Some (rf_value fill) else mem_byte (ma_memory m) n)" for n
    using mem_write_range_byte [OF stored] by (auto simp: put_bytes_def covers_def)
  from Cons.IH [of "m\<lparr>ma_memory := memory\<rparr>"] Cons.prems obtain m' where
    m': "apply_ram_writes (map fill_write fills) (m\<lparr>ma_memory := memory\<rparr>) = Ok m'"
    "\<forall>n. mem_byte (ma_memory m') n = (case List.find (covers n) (rev fills) of
          Some fill \<Rightarrow> Some (rf_value fill) | None \<Rightarrow> mem_byte (ma_memory (m\<lparr>ma_memory := memory\<rparr>)) n)"
    by auto
  have find_app: "List.find P (xs @ [x]) = (case List.find P xs of None \<Rightarrow> if P x then Some x else None | Some y \<Rightarrow> Some y)"
    for P and xs and x :: ram_prefill
    by (induction xs) simp_all
  show ?case
    using stored m' byte by (auto simp: fill_write_def [of fill] find_app split: option.split)
qed simp

text \<open>
  C34. RAM prefill. A list of fills is accepted exactly when each is not empty and lies within RAM; applying
  the accepted fills to the reset machine never fails, and afterwards each byte has the value of the last fill
  that covers it, or the value it had before where none does.
\<close>

theorem accepted_prefill_fills_ram:
  "case (prefill_ram fills (runtime_config_new machine entry) :: ('e, 't) cli_error + _) of
     Inl error \<Rightarrow> \<not> list_all fill_ok fills
   | Inr config \<Rightarrow> list_all fill_ok fills
      \<and> (\<exists>m'. apply_ram_writes (rc_initial_ram_writes config) m = Ok m'
          \<and> (\<forall>n. mem_byte (ma_memory m') n = (case List.find (covers n) (rev fills) of
               Some fill \<Rightarrow> Some (rf_value fill) | None \<Rightarrow> mem_byte (ma_memory m) n)))"
proof (cases "prefill_ram fills (runtime_config_new machine entry) :: ('e, 't) cli_error + _")
  case (Inl error)
  have "\<not> list_all fill_ok fills"
  proof
    assume "list_all fill_ok fills"
    then have "\<exists>config. (prefill_ram fills (runtime_config_new machine entry) :: ('e, 't) cli_error + _) = Ok config"
      by (simp add: prefill_ram_Ok list_all_iff)
    with Inl show False by simp
  qed
  with Inl show ?thesis by simp
next
  case (Inr config)
  then have ok: "\<forall>fill\<in>set fills. fill_ok fill" and writes: "rc_initial_ram_writes config = map fill_write fills"
    by (auto simp: prefill_ram_Ok runtime_config_new_def)
  show ?thesis using apply_fills [OF ok, of m] Inr ok by (simp add: writes list_all_iff)
qed


section \<open>Assertions\<close>

lemma expect_Ok [simp]: "expect expectation met why = Ok () \<longleftrightarrow> pred_option met expectation"
  by (cases expectation) (simp_all add: expect_def)

lemma and_then_unit: "and_then r f = Ok y \<longleftrightarrow> r = Ok () \<and> f () = Ok y"
  by (cases r) auto

text \<open>
  What the document on headless tests says of an accepted run: the emulator has not failed and every expectation
  that the test states holds of the snapshots.
\<close>

definition run_meets :: "run_result \<Rightarrow> headless_assertion \<Rightarrow> bool" where
  "run_meets r a \<longleftrightarrow>
     (let execution = rr_execution_status r; shutdown = rr_shutdown_status r in
      rs_lifecycle execution \<noteq> LcFailed \<and> rs_lifecycle shutdown \<noteq> LcFailed
      \<and> pred_option (\<lambda>t. \<exists>pre post. from_utf8_lossy (rr_uart0_output r) = pre @ t @ post) (ha_uart0_contains a)
      \<and> pred_option (\<lambda>t. \<exists>pre post. from_utf8_lossy (rr_uart1_output r) = pre @ t @ post) (ha_uart1_contains a)
      \<and> pred_option (\<lambda>ticks. ticks \<le> ms_ticks (rs_machine execution)) (ha_ticks_at_least a)
      \<and> pred_option (\<lambda>expected. rs_lifecycle execution =
           (case expected of ExpectPaused \<Rightarrow> LcPaused | ExpectStopped \<Rightarrow> LcStopped)) (ha_execution_lifecycle a)
      \<and> pred_option (\<lambda>expected. rs_lifecycle shutdown = LcStopped) (ha_shutdown_lifecycle a)
      \<and> pred_option (\<lambda>enabled. \<exists>mmu. rr_mmu r = Some mmu \<and> insp_enabled mmu = enabled) (ha_mmu_enabled a)
      \<and> pred_option (\<lambda>mode. rr_cpu_mode r = Some (expected_mode_bits mode)) (ha_cpu_mode a)
      \<and> pred_option (\<lambda>raw. \<exists>mmu status. rr_mmu r = Some mmu \<and> insp_last_fault_status mmu = Some status
           \<and> fs_raw status = raw) (ha_fault_status a)
      \<and> pred_option (\<lambda>values. values = trace_values (rr_events r)) (ha_trace_values a))"

lemma assert_result_Ok: "(assert_result r a :: ('e, 't) cli_error + unit) = Ok () \<longleftrightarrow> run_meets r a"
proof -
  have lifecycle: "(expected, lc) \<in> {(ExpectPaused, LcPaused), (ExpectStopped, LcStopped)}
      \<longleftrightarrow> lc = (case expected of ExpectPaused \<Rightarrow> LcPaused | ExpectStopped \<Rightarrow> LcStopped)" for expected lc
    by (cases expected) auto
  have shutdown: "(expected, lc) \<in> {(ExpectShutdownStopped, LcStopped)} \<longleftrightarrow> lc = LcStopped" for expected lc
    by (cases expected) auto
  have mmu: "map_option insp_enabled (rr_mmu r) = Some enabled \<longleftrightarrow> (\<exists>mmu. rr_mmu r = Some mmu \<and> insp_enabled mmu = enabled)"
    for enabled by (simp add: map_option_eq_Some)
  have fault: "map_option fs_raw (Option.bind (rr_mmu r) insp_last_fault_status) = Some raw
      \<longleftrightarrow> (\<exists>mmu status. rr_mmu r = Some mmu \<and> insp_last_fault_status mmu = Some status \<and> fs_raw status = raw)" for raw
    by (auto simp: map_option_eq_Some bind_eq_Some_conv)
  have found: "contains_text s = (\<lambda>t. \<exists>pre post. s = pre @ t @ post)" for s
    by (rule ext) (rule contains_text_iff)
  have same: "(=) vs = (\<lambda>expected. expected = vs)" for vs :: "u32 list"
    by auto
  show ?thesis
  proof (cases "rs_lifecycle (rr_execution_status r) = LcFailed \<or> rs_lifecycle (rr_shutdown_status r) = LcFailed")
    case True
    then show ?thesis by (simp only: assert_result_def run_meets_def Let_def if_True sum.distinct) blast
  next
    case False
    then show ?thesis
      unfolding assert_result_def run_meets_def Let_def
      by (simp only: if_False and_then_unit expect_Ok lifecycle shutdown found not_less mmu fault same [of "trace_values (rr_events r)"]
          de_Morgan_disj simp_thms)
  qed
qed

lemma slice_within:
  "slice_get xs start (start + n) = Some ys \<longleftrightarrow> start + n \<le> length xs \<and> ys = take n (drop start xs)"
  by (auto simp: slice_get_Some)

text \<open>Each assertion names an attached unit whose file holds the expected bytes at the offset.\<close>

definition media_meet :: "'h host \<Rightarrow> 'h \<Rightarrow> path option \<times> path option \<Rightarrow> block_media_assertion list \<Rightarrow> bool" where
  "media_meet host h paths assertions \<longleftrightarrow>
     list_all (\<lambda>a. unat (bm_unit a) < 2
        \<and> (\<exists>p media. (if bm_unit a = 0 then fst paths else snd paths) = Some p \<and> ho_read host h p = Ok media
            \<and> unat (bm_offset a) + length (bm_bytes a) \<le> min (length media) usize_max
            \<and> take (length (bm_bytes a)) (drop (unat (bm_offset a)) media) = bm_bytes a)) assertions"

lemma assert_block_media_Ok:
  "(assert_block_media host h paths as :: (('e, 't) cli_error + unit) option) = Some (Ok ()) \<longleftrightarrow> media_meet host h paths as"
  unfolding media_meet_def
proof (induction as)
  case (Cons a as)
  have one: "(assert_block_media_contents media [a] p :: ('e, 't) cli_error + unit) = Ok () \<longleftrightarrow>
      unat (bm_offset a) + length (bm_bytes a) \<le> min (length media) usize_max
      \<and> take (length (bm_bytes a)) (drop (unat (bm_offset a)) media) = bm_bytes a" for media p
    by (cases "slice_get media (unat (bm_offset a)) (unat (bm_offset a) + length (bm_bytes a))")
      (auto simp: slice_get_def Let_def split: if_splits)
  show ?case
    by (cases "if bm_unit a = 0 then fst paths else snd paths")
      (auto simp: prog_then_Ok cli_read_def map_err_Ok one [unfolded min_def] Cons.IH simp del: assert_block_media_contents.simps)
qed simp

text \<open>
  C11. A headless test passes with a result exactly when its manifest can be read and states something to
  check, its media paths do not conflict, the run on the resolved paths comes to that result, the result meets
  every expectation, and every block-media assertion holds of the host's files as they are after the shutdown.
  Nothing else makes a test pass or fail.
\<close>

theorem headless_test_passes_iff:
  "run_headless e toml host h iis p = Some (h', Ok result :: ('e, 't) cli_error + run_result) \<longleftrightarrow>
     (\<exists>test paths. (read_manifest toml host h p :: ('e, 't) cli_error + headless_test) = Ok test
        \<and> has_expectations (ht_assert test)
        \<and> (let root = (case path_parent p of Some parent \<Rightarrow> parent | None \<Rightarrow> ''.'') in
           (resolve_block_media_paths test root :: ('e, 't) cli_error + _) = Ok paths
           \<and> run_image_with_prefill e host h iis
                \<lparr>ro_image = resolve root (ht_image test), ro_boot_rom = resolve root (ht_boot_rom test),
                 ro_block_media_path = fst paths, ro_block1_media_path = snd paths,
                 ro_instruction_batch = ht_instruction_batch test, ro_max_ticks = ht_max_ticks test,
                 ro_inputs = ht_inputs test\<rparr> (ht_ram_prefill test)
              = Some (h', Ok result :: ('e, 't) cli_error + run_result))
        \<and> run_meets result (ht_assert test) \<and> media_meet host h' paths (ha_block_media (ht_assert test)))"
proof -
  have check: "prog_then (Some r) (\<lambda>result. prog_then (Some (assert_result result a)) (\<lambda>_.
        prog_then (assert_block_media host h'' paths as) (\<lambda>_. Some (Ok result)))) = Some (Ok result)
      \<longleftrightarrow> r = (Ok result :: ('e, 't) cli_error + run_result) \<and> run_meets result a \<and> media_meet host h'' paths as"
    for r a h'' paths as
    by (auto simp: prog_then_Ok simp flip: assert_result_Ok [where 'e = 'e and 't = 't]
        assert_block_media_Ok [where 'e = 'e and 't = 't])
  show ?thesis
    unfolding run_headless_def Let_def
    by (auto simp: bind_eq_Some_conv check split: sum.splits)
qed

section \<open>Printed text\<close>

text \<open>
  The text assertions of a headless test cannot fail for a text that was printed: if the recorded output
  of each UART has the UTF-8 bytes of the expected text somewhere, whatever bytes come before and after it,
  then the result is judged as if no text were expected. The console pane shows these bytes as the
  text, between the decodings of what surrounds it.
\<close>

theorem printed_text_is_found:
  assumes "list_all scalar_value t" and "t \<noteq> []" and "list_all scalar_value u" and "u \<noteq> []"
    and "rr_uart0_output r = pre @ string_bytes t @ post" and "rr_uart1_output r = before @ string_bytes u @ after"
  shows "(assert_result r (a\<lparr>ha_uart0_contains := Some t, ha_uart1_contains := Some u\<rparr>) :: ('e, 't) cli_error + unit)
      = assert_result r (a\<lparr>ha_uart0_contains := None, ha_uart1_contains := None\<rparr>)
    \<and> console_output (s\<lparr>cs_transcript := rr_uart0_output r\<rparr>) = from_utf8_lossy pre @ t @ from_utf8_lossy post"
proof -
  have "contains_text (from_utf8_lossy (rr_uart0_output r)) t" "contains_text (from_utf8_lossy (rr_uart1_output r)) u"
    using lossy_around [OF assms(1,2)] lossy_around [OF assms(3,4)] assms(5,6) by (auto simp: contains_text_iff)
  moreover have "console_output (s\<lparr>cs_transcript := rr_uart0_output r\<rparr>) = from_utf8_lossy pre @ t @ from_utf8_lossy post"
    using lossy_around [OF assms(1,2), of pre post] by (simp add: console_output_def assms(5))
  ultimately show ?thesis
    unfolding assert_result_def Let_def by (simp add: expect_def cong: if_cong)
qed

theorem printed_text_is_found_witness:
  "\<forall>r a. (assert_result (r\<lparr>rr_uart0_output := [0xe2, 0x82] @ string_bytes [0x6f, 0xe9, 0x20ac] @ [0xf0],
        rr_uart1_output := string_bytes [0x6b]\<rparr>)
      (a\<lparr>ha_uart0_contains := Some [0x6f, 0xe9, 0x20ac], ha_uart1_contains := Some [0x6b]\<rparr>) :: (unit, unit) cli_error + unit)
    = assert_result (r\<lparr>rr_uart0_output := [0xe2, 0x82] @ string_bytes [0x6f, 0xe9, 0x20ac] @ [0xf0],
        rr_uart1_output := string_bytes [0x6b]\<rparr>)
      (a\<lparr>ha_uart0_contains := None, ha_uart1_contains := None\<rparr>)"
proof (intro allI)
  fix r :: run_result and a
  let ?r = "r\<lparr>rr_uart0_output := [0xe2, 0x82] @ string_bytes [0x6f, 0xe9, 0x20ac] @ [0xf0],
        rr_uart1_output := string_bytes [0x6b]\<rparr>"
  have "list_all scalar_value [0x6f, 0xe9, 0x20ac]" "list_all scalar_value [0x6b]" by (simp_all add: scalar_value_def)
  from conjunct1 [OF printed_text_is_found [OF this(1) _ this(2), of ?r "[0xe2, 0x82]" "[0xf0]" "[]" "[]" a]]
  show "(assert_result ?r (a\<lparr>ha_uart0_contains := Some [0x6f, 0xe9, 0x20ac], ha_uart1_contains := Some [0x6b]\<rparr>)
        :: (unit, unit) cli_error + unit)
      = assert_result ?r (a\<lparr>ha_uart0_contains := None, ha_uart1_contains := None\<rparr>)"
    by simp
qed

end
