(* ===== verification/Spec2Isabelle.thy ===== *)
theory Spec2Isabelle
  imports Core_Mmu_Walk Core_Machine Image_Builder Image_Boot Runtime_Properties Tui_Frame Cli_Properties
begin

text \<open>
  Minemu: a deterministic emulator of a small A32 teaching machine.

  The program. The crates under \<open>src/crates\<close> are layered. \<open>minemu-platform\<close> holds the ABI: addresses,
  the memory map, register tables, page table entries, exceptions and the wire records of images.
  \<open>minemu-core\<close> holds the machine that does not depend on an instruction engine: physical memory, the
  MMU walker, the interrupt controller, the timer, two UARTs, the random number generator, the
  trace device, the DMA block device with write-back media, the MMIO bus that joins them, and the
  machine that counts ticks. \<open>minemu-image\<close> packs ELF inputs into a system ROM image, parses and
  validates images, and computes what the boot ROM will do. \<open>minemu-unicorn\<close> runs a machine on the
  Unicorn engine. \<open>minemu-runtime\<close> owns a running emulator in a service thread that executes batches,
  obeys commands, answers inspections, moves UART bytes and saves the block media. \<open>minemu\<close> is the
  command line and the terminal interface, a client of that service.

  Interaction. A guest access reaches \<open>MmioBus::access\<close>, which decodes it by the platform's table
  and calls one device; a device reports level changes as signals on a channel that the interrupt
  controller drains. \<open>Machine::finish_instruction\<close> advances virtual time, which drives the timer and
  the block device, and yields the exception plan of a trap or fault. The walker and the DMA
  engine reach memory through the trait \<open>PhysicalMemoryAccess\<close>, here the record \<open>memory_ops\<close>.

  The backend hangs the machine on the engine as callback data. While the engine runs, its callbacks
  translate addresses with the walker, route MMIO to the bus, count instructions and note traps;
  when it returns, the backend charges the counted instructions to the machine, settles the noted
  fault, trap or CP15 operation, enters exceptions in the engine's registers and delivers interrupts.

  The service takes commands from a channel and bytes from a bounded inbox per UART, and publishes a
  status. The terminal interface sends commands, keeps the inspections that are not yet answered,
  and turns keys, mouse events, statuses and answers into actions; a queue of actions updates its
  panes, which create further actions. The headless runner starts the service with a deadline, waits
  until it is paused or has ended, inspects and stops it, and compares the result and the media
  files with a manifest.

  Theories and sources.
    \<open>Prelude\<close>: word and natural number rules, results with early return, byte slices, little-endian
      integers, bounded histories (a locale that the UART, the trace device and the machine
      interpret).
    \<open>Platform_Address\<close> (\<open>address.rs\<close>, \<open>access.rs\<close>, \<open>mmap.rs\<close>, \<open>error.rs\<close>), \<open>Platform_Mmio\<close> (\<open>mmio.rs\<close>,
      \<open>peripherals/*.rs\<close>), \<open>Platform_Mmu\<close> (\<open>mmu.rs\<close>, \<open>exception.rs\<close>), \<open>Platform_Image\<close> (\<open>image.rs\<close>).
    \<open>Core_Memory\<close>, \<open>Core_Mmu\<close> and \<open>Core_Mmu_Walk\<close>, \<open>Core_Interrupt\<close>, \<open>Core_SysTick\<close>, \<open>Core_Uart\<close>,
      \<open>Core_Rng\<close>, \<open>Core_Trace\<close>, \<open>Core_Block\<close>, \<open>Core_Bus\<close>, \<open>Core_Machine\<close>: the files of those names in
      \<open>minemu-core\<close>.
    \<open>Image_Validation\<close> (\<open>validation.rs\<close>), \<open>Image_Format\<close> (the parser of \<open>format.rs\<close>), \<open>Image_Builder\<close>
      (\<open>elf.rs\<close>, \<open>lib.rs\<close>, \<open>build_image\<close> of \<open>format.rs\<close>), \<open>Image_Boot\<close> (\<open>boot.rs\<close>).
    \<open>Core_Frame\<close>: what every operation of the machine keeps.
    \<open>Unicorn_Arm\<close> (\<open>arm.rs\<close>), \<open>Unicorn_Engine\<close> (the data, the callbacks and the engine's interface),
      \<open>Unicorn_Backend\<close> (construction, exception entry, bounded runs), \<open>Unicorn_Run\<close> and \<open>Unicorn_Entry\<close>
      (what they guarantee), \<open>Unicorn_Inspect\<close> (inspection and search): \<open>backend.rs\<close>.
    \<open>Runtime_Emulator\<close> (the emulator, its media files and inspections), \<open>Runtime_Service\<close> (the service
      loop, commands, inbox, handle), \<open>Runtime_Keeps\<close>, \<open>Runtime_Lifecycle\<close> and \<open>Runtime_Properties\<close>
      (what they guarantee): \<open>types.rs\<close> and \<open>service.rs\<close> of \<open>minemu-runtime\<close>.
    \<open>Tui_Types\<close> (\<open>types.rs\<close>, \<open>action.rs\<close>, \<open>event.rs\<close>, \<open>widgets/mod.rs\<close>), \<open>Tui_Console\<close> (\<open>widgets/console.rs\<close>),
      \<open>Tui_Input\<close> (\<open>input/*.rs\<close>), \<open>Tui_Memory\<close> (\<open>widgets/primary.rs\<close>), \<open>Tui_Panes\<close> (\<open>dialog.rs\<close>, \<open>events.rs\<close>,
      \<open>header.rs\<close> and \<open>secondary.rs\<close> of \<open>widgets\<close>, and \<open>layout.rs\<close>), \<open>Tui_App\<close> (\<open>app.rs\<close>, \<open>runtime.rs\<close>) and
      \<open>Tui_Session\<close> (its histories), all under \<open>minemu/src/tui\<close>; \<open>Tui_Text\<close> and \<open>Tui_Draw\<close> (the \<open>render\<close>
      functions of \<open>widgets\<close> and \<open>app.rs\<close>, and the help text) and \<open>Tui_Frame\<close> (every state of a
      session is drawn).
    \<open>Runtime_Progress\<close>: the running service advances virtual time.
    \<open>Cli_Text\<close> (lossy decoding of output), \<open>Cli_Runner\<close> (\<open>main.rs\<close>, \<open>lib.rs\<close>, \<open>manifest.rs\<close>, \<open>runner.rs\<close>) and
      \<open>Cli_Properties\<close> (what the command line guarantees), under \<open>minemu/src\<close>.

  Modelling choices. A fixed-width integer is a word of that width and wraps as the release profile
  does; a \<open>usize\<close> is a natural number with the 64-bit bound written out at checked operations. A
  \<open>Result\<close> is a sum with the error on the left; an outer \<open>option\<close> is used only where the Rust code can
  panic or not return, and its \<open>None\<close> is that panic or divergence. A Rust channel is the list of
  signals sent and not yet drained. Loops over tables and lists are structural recursion; the
  timer's deadline loop may run forever on wrap-around and is a partial function; the page-wise
  clearing loop of the boot plan terminates by its remaining length. No definition uses fuel.
  The Unicorn library is a parameter: the record \<open>engine\<close> of its functions over an abstract state.
  What the properties need of it is in five predicates, each a fact of its documentation: a run
  with a positive count begins at most that many instructions and touches the adapter's data only
  through callbacks and stores to the shared RAM (\<open>engine_runs\<close>); accepted register writes are read
  back (\<open>engine_registers\<close>); physical reads of RAM see the shared bytes (\<open>engine_shares_ram\<close>) and run
  nothing (\<open>engine_reads\<close>); a run that reports success and did not start at its stop address has begun
  an instruction, and program counters are even (\<open>engine_steps\<close>). The sample engine meets all five.
  The file system of the host is the record \<open>ho_read\<close>, \<open>ho_write\<close>, \<open>ho_canonicalize\<close> over an abstract
  state; the predicates on it say that files fit into memory and that distinct files do not share
  their contents. One step of the service is one iteration of its loop, and what other threads did
  since the last one (commands, pushed bytes) is an input of the step; in the same way a step of
  the interface takes the status, the answered inspections and the elapsed pulse as inputs. The
  headless runner that sleeps and polls is a recursion over a list of such iterations, whose value is
  None when the list is used up first; a list longer than the tick budget is proved to be enough.
  The TOML parser is a parameter that gives an error or a manifest; paths are those of a Unix host. A Rust
  string is a list of scalar values, and the functions of the standard library on strings are
  written out; messages for people are constructors that name the message and its data. The layout
  solver and the character widths of the terminal library are the parameter \<open>terminal_lib\<close>, whose
  predicate \<open>terminal_ok\<close> says that a split returns one rectangle for each constraint. The fallback
  loop of the overlap search and the loop over the queue of actions are partial functions, proved
  to return from every reachable state.

  Lemma groups. Each device theory proves that its operations keep the device's well-formedness,
  then the behaviour that matters: the walk is equal to a declarative reference, faults change
  nothing, the claim order of interrupts, the phase of the timer and its independence of how time
  is cut, the order of bytes, the errors of DMA requests against their documented conditions, the delay
  of their completion, and the durability of flushed media. The bus is total and keeps the pending register equal to the device levels in
  every history. The machine's costs, events and reset are exact. Image records decode exactly
  their encodings; the parser never panics and accepts exactly the documented images, except for an
  empty module table that points into an occupied range; the packer emits only images it accepts; the boot plan of such an image loads it. The backend's runs end by their
  deadline, charge each begun instruction once, keep the machine's invariants and ROMs whatever the
  guest does, and enter exceptions and interrupts as documented; user code never reaches CP15; the
  RAM search is exact. Every iteration of the service returns and keeps its lifecycle and machine
  consistent; time passes neither the execution deadline nor a scheduled input; a service that
  reports that it stopped has saved its media; the inbox keeps the newest bytes. In the interface
  the overlap search finds the longest overlap, so the console shows no output twice; erasing undoes
  typing; what is typed is what is parsed; the memory windows follow the cursor, and exactly when they
  do not is stated; the queue of actions always ends; and every reachable state handles every event,
  tick and frame. What is drawn is related to what is typed: the rows of the memory pane read back as
  the addresses and bytes they stand for, and going to a register shows its value. A headless run comes
  back, because each batch of the running service advances time towards the deadline or ends the
  service; a test passes exactly when what its manifest states is true of the run and of the files;
  what the packager writes, the runtime starts; accepted prefills are what RAM then holds.

  Not modelled. Creation and joining of threads and the mutexes around shared queues: the service
  and its clients meet only in the inputs of a step. The argument parser of the command line and the
  branch of its run command that opens the interface. The raw terminal mode and how the terminal
  library puts a drawing on the screen; colours are reduced to what they tell apart. The engine, the
  disassembler, the ELF, TOML and argument parsers and the terminal library are third-party code, most
  of them parameters. Logging is left out everywhere.
\<close>

end
